(* ===== verification/Prelude.thy ===== *)
theory Prelude
  imports Main "HOL-Library.Word" "HOL-Library.Multiset" "HOL-Library.Signed_Division"
begin

text \<open>
  The vocabulary every component of the development shares.

  \<^item> \<open>outcome\<close>: what a Go call may do. \<open>Ok v\<close> is a normal return, \<open>Err e\<close> is a return with a
    non-nil error, \<open>Panic why\<close> is a run-time panic (index out of range, nil dereference, failed type
    assertion or an explicit \<open>panic\<close>).
  \<^item> Go slice reads and slice expressions with their bounds checks (\<open>go_index\<close>, \<open>go_slice\<close>). The
    list a slice expression is applied to is the array up to the capacity of the slice; most callers give
    the elements alone, so they are about slices without spare capacity, but for the vectors of a search request
    (\<open>cut_vectors\<close>), which are given what lies behind their last element.
  \<^item> A sum or product of 64-bit integers that may leave their range wraps (\<open>wrap64\<close>).
  \<^item> \<open>foldO\<close>: a range loop whose body may return early with an error or panic.
  \<^item> Go's integer division and remainder truncate towards zero: they are \<open>sdiv\<close> and \<open>smod\<close> of
    HOL-Library.Signed\_Division.
\<close>

named_theorems outcome_simps
named_theorems step_intros

section \<open>Types\<close>

type_synonym uint32 = "32 word"
type_synonym uint64 = "64 word"
type_synonym byte = "8 word"
type_synonym bytes = "byte list"

section \<open>Outcomes of Go calls\<close>

datatype ('e, 'a) outcome = Ok 'a | Err 'e | Panic string

fun bindO :: "('e, 'a) outcome \<Rightarrow> ('a \<Rightarrow> ('e, 'b) outcome) \<Rightarrow> ('e, 'b) outcome" where
  "bindO (Ok a) k = k a"
| "bindO (Err e) k = Err e"
| "bindO (Panic p) k = Panic p"

fun is_Ok :: "('e, 'a) outcome \<Rightarrow> bool" where
  "is_Ok (Ok _) = True"
| "is_Ok _ = False"

fun is_Panic :: "('e, 'a) outcome \<Rightarrow> bool" where
  "is_Panic (Panic _) = True"
| "is_Panic _ = False"

lemma bindO_Ok_iff [outcome_simps]: "bindO m k = Ok b \<longleftrightarrow> (\<exists>a. m = Ok a \<and> k a = Ok b)"
  by (cases m) auto

lemma bindO_Err_iff [outcome_simps]:
  "bindO m k = Err e \<longleftrightarrow> m = Err e \<or> (\<exists>a. m = Ok a \<and> k a = Err e)"
  by (cases m) auto

lemma bindO_Panic_iff [outcome_simps]:
  "bindO m k = Panic p \<longleftrightarrow> m = Panic p \<or> (\<exists>a. m = Ok a \<and> k a = Panic p)"
  by (cases m) auto

lemma bindO_assoc: "bindO (bindO m f) g = bindO m (\<lambda>a. bindO (f a) g)"
  by (cases m) auto

lemma is_Ok_iff: "is_Ok m \<longleftrightarrow> (\<exists>a. m = Ok a)"
  by (cases m) auto

lemma is_Panic_iff: "is_Panic m \<longleftrightarrow> (\<exists>p. m = Panic p)"
  by (cases m) auto

lemma bindO_cong [fundef_cong]:
  "m = m' \<Longrightarrow> (\<And>a. m' = Ok a \<Longrightarrow> k a = k' a) \<Longrightarrow> bindO m k = bindO m' k'"
  by (cases m') auto

text \<open>A range loop over a list whose body threads a state and may stop early.\<close>

fun foldO :: "('s \<Rightarrow> 'x \<Rightarrow> ('e, 's) outcome) \<Rightarrow> 's \<Rightarrow> 'x list \<Rightarrow> ('e, 's) outcome" where
  "foldO f s [] = Ok s"
| "foldO f s (x # xs) = bindO (f s x) (\<lambda>s'. foldO f s' xs)"

lemma foldO_append: "foldO f s (xs @ ys) = bindO (foldO f s xs) (\<lambda>s'. foldO f s' ys)"
  by (induction xs arbitrary: s) (auto simp: bindO_assoc)

lemma foldO_Ok_invariant:
  assumes "foldO f s xs = Ok t" and "I s"
    and "\<And>u x v. x \<in> set xs \<Longrightarrow> I u \<Longrightarrow> f u x = Ok v \<Longrightarrow> I v"
  shows "I t"
  using assms
proof (induction xs arbitrary: s)
  case (Cons x xs)
  from Cons.prems(1) obtain s' where s': "f s x = Ok s'" "foldO f s' xs = Ok t"
    by (auto simp: outcome_simps)
  have "I s'" using Cons.prems(2,3) s'(1) by (meson list.set_intros(1))
  then show ?case using Cons.IH [OF s'(2)] Cons.prems(3) by (meson list.set_intros(2))
qed simp

section \<open>Go slices\<close>

definition go_index :: "'a list \<Rightarrow> int \<Rightarrow> ('e, 'a) outcome" where
  "go_index xs i =
     (if 0 \<le> i \<and> i < int (length xs) then Ok (xs ! nat i) else Panic ''index out of range'')"

definition go_slice :: "'a list \<Rightarrow> int \<Rightarrow> int \<Rightarrow> ('e, 'a list) outcome" where
  "go_slice xs lo hi =
     (if 0 \<le> lo \<and> lo \<le> hi \<and> hi \<le> int (length xs)
      then Ok (take (nat hi - nat lo) (drop (nat lo) xs))
      else Panic ''slice bounds out of range'')"

lemma go_index_Ok_iff [outcome_simps]:
  "go_index xs i = Ok x \<longleftrightarrow> 0 \<le> i \<and> nat i < length xs \<and> x = xs ! nat i"
  by (auto simp: go_index_def)

lemma go_index_nth [simp]: "n < length xs \<Longrightarrow> go_index xs (int n) = Ok (xs ! n)"
  by (simp add: go_index_def)

lemma go_index_not_Err [simp]: "go_index xs i \<noteq> Err e"
  by (simp add: go_index_def)

lemma go_slice_not_Err [simp]: "go_slice xs lo hi \<noteq> Err e"
  by (simp add: go_slice_def)

lemma go_slice_Ok_iff [outcome_simps]:
  "go_slice xs lo hi = Ok ys \<longleftrightarrow>
     0 \<le> lo \<and> lo \<le> hi \<and> hi \<le> int (length xs) \<and> ys = take (nat hi - nat lo) (drop (nat lo) xs)"
  by (auto simp: go_slice_def)

lemma go_slice_length: "go_slice xs lo hi = Ok ys \<Longrightarrow> length ys = nat hi - nat lo"
  by (auto simp: go_slice_Ok_iff)

section \<open>Integers of 64 bits\<close>

text \<open>The value that a 64-bit signed variable holds after a sum or a product: Go wraps.\<close>

definition wrap64 :: "int \<Rightarrow> int" where
  "wrap64 i = sint (word_of_int i :: 64 word)"

lemma wrap64_id: "- (2 ^ 63) \<le> i \<Longrightarrow> i < 2 ^ 63 \<Longrightarrow> wrap64 i = i"
  by (simp add: wrap64_def signed_take_bit_int_eq_self sint_sbintrunc')

lemma wrap64_add: "wrap64 (i + 2 ^ 64) = wrap64 i"
proof -
  have "(word_of_int (i + 2 ^ 64) :: 64 word) = word_of_int i"
    by (simp only: word_of_int_eq_iff take_bit_eq_mod) simp
  then show ?thesis by (simp only: wrap64_def)
qed

section \<open>Decimal rendering\<close>

fun digit_char :: "nat \<Rightarrow> char" where
  "digit_char d = char_of (48 + d)"

fun string_of_nat :: "nat \<Rightarrow> string" where
  "string_of_nat n =
     (if n < 10 then [digit_char n] else string_of_nat (n div 10) @ [digit_char (n mod 10)])"

declare string_of_nat.simps [simp del]

definition string_of_int :: "int \<Rightarrow> string" where
  "string_of_int i = (if i < 0 then ''-'' @ string_of_nat (nat (- i)) else string_of_nat (nat i))"

section \<open>Strings\<close>

text \<open>\<open>strings.HasPrefix\<close>, \<open>strings.Contains\<close> and \<open>strings.Replace(s, sub, "", 1)\<close>; \<open>strings.ToLower\<close> for
  ASCII letters, which are the letters of configuration keys.\<close>

fun is_prefix_of :: "string \<Rightarrow> string \<Rightarrow> bool" where
  "is_prefix_of [] s = True"
| "is_prefix_of (c # p) [] = False"
| "is_prefix_of (c # p) (d # s) = (c = d \<and> is_prefix_of p s)"

fun strings_Contains :: "string \<Rightarrow> string \<Rightarrow> bool" where
  "strings_Contains [] sub = (sub = [])"
| "strings_Contains (c # s) sub = (is_prefix_of sub (c # s) \<or> strings_Contains s sub)"

fun remove_first :: "string \<Rightarrow> string \<Rightarrow> string" where
  "remove_first [] sub = []"
| "remove_first (c # s) sub =
     (if is_prefix_of sub (c # s) then drop (length sub) (c # s) else c # remove_first s sub)"

definition lower_char :: "char \<Rightarrow> char" where
  "lower_char c = (let n = of_char c :: nat in if 65 \<le> n \<and> n \<le> 90 then char_of (n + 32) else c)"

definition ToLower :: "string \<Rightarrow> string" where
  "ToLower s = map lower_char s"

lemma is_prefix_of_iff: "is_prefix_of p s \<longleftrightarrow> (\<exists>r. s = p @ r)"
  by (induction p s rule: is_prefix_of.induct) auto

lemma is_prefix_of_append [simp]: "is_prefix_of p (p @ r)"
  by (auto simp: is_prefix_of_iff)

lemma remove_first_prefix [simp]: "remove_first (p @ r) p = r"
proof (cases "p @ r")
  case (Cons c s)
  have "is_prefix_of p (c # s)" "drop (length p) (c # s) = r"
    by (simp_all flip: Cons)
  then show ?thesis by (simp add: Cons)
qed simp

lemma lower_char_idem [simp]: "lower_char (lower_char c) = lower_char c"
proof (cases "65 \<le> (of_char c :: nat) \<and> (of_char c :: nat) \<le> 90")
  case True
  then have "(of_char (lower_char c) :: nat) = of_char c + 32"
    by (simp add: lower_char_def Let_def)
  then show ?thesis using True by (simp add: lower_char_def [of "lower_char c"])
qed (auto simp: lower_char_def Let_def)

lemma ToLower_idem [simp]: "ToLower (ToLower s) = ToLower s"
  by (simp add: ToLower_def)

section \<open>Lists and multisets\<close>

lemma mset_filter_split: "mset (filter P xs) + mset (filter (\<lambda>x. \<not> P x) xs) = mset xs"
  by (induction xs) auto

lemma concat_map_singleton [simp]: "concat (map (\<lambda>x. [f x]) xs) = map f xs"
  by (induction xs) auto

lemma distinct_map_filterI: "distinct (map f xs) \<Longrightarrow> distinct (map f (filter P xs))"
  by (induction xs) auto

lemma take_Suc_snoc: "n < length xs \<Longrightarrow> take (Suc n) xs = take n xs @ [xs ! n]"
  by (rule take_Suc_conv_app_nth)

lemma sdiv_nonneg: "0 \<le> a \<Longrightarrow> 0 \<le> b \<Longrightarrow> (a::int) sdiv b = a div b"
  by (cases "a = 0"; cases "b = 0") (simp_all add: signed_divide_int_def sgn_if)

lemma smod_nonneg: "0 \<le> a \<Longrightarrow> 0 \<le> b \<Longrightarrow> (a::int) smod b = a mod b"
  by (cases "a = 0"; cases "b = 0") (simp_all add: signed_modulo_int_def sgn_if)

end
