(* ===== verification/Merr.thy ===== *)
theory Merr
  imports Prelude
begin

text \<open>
  Package \<open>merr\<close> (pkg/util/merr/errors.go, pkg/util/merr/utils.go): the errors of the program as values.

  \<^item> \<open>go_error\<close> is the type \<open>error\<close>, with one constructor per dynamic type the program builds: a
    \<open>milvusError\<close>, the two \<open>context\<close> sentinels, a plain error (\<open>errors.New\<close>, \<open>fmt.Errorf\<close>), an error
    wrapped with a prefix (\<open>errors.Wrap\<close>, \<open>errors.Wrapf\<close>) and a \<open>multiErrors\<close>. A nil \<open>error\<close> is \<open>None\<close>.
  \<^item> \<open>Unwrap\<close>, \<open>Cause\<close> and \<open>errors_Is\<close> are the documented chain walks of the \<open>errors\<close> package, with the
    \<open>Is\<close> and \<open>Unwrap\<close> methods of \<open>milvusError\<close> and \<open>multiErrors\<close> as the source defines them. Error
    values are compared by content and by the marks of that package (\<open>same_mark\<close>).
  \<^item> \<open>Status\<close> and \<open>Error\<close> convert between errors and the wire status; the lemmas state which parts of
    an error survive the conversion.
\<close>

section \<open>Error values\<close>

record milvusError =
  me_msg :: string
  me_detail :: string
  me_retriable :: bool
  me_errCode :: int

datatype go_error =
    MilvusErr milvusError
  | CtxCanceled
  | CtxDeadlineExceeded
  | ErrorString string
  | WrapErr string go_error
  | MultiErrors "go_error list"

type_synonym 'a res = "(go_error, 'a) outcome"

definition newMilvusError :: "string \<Rightarrow> int \<Rightarrow> bool \<Rightarrow> milvusError" where
  "newMilvusError msg code retriable =
     \<lparr>me_msg = msg, me_detail = msg, me_retriable = retriable, me_errCode = code\<rparr>"

definition newMilvusErrorWithDetail :: "string \<Rightarrow> string \<Rightarrow> int \<Rightarrow> bool \<Rightarrow> milvusError" where
  "newMilvusErrorWithDetail msg detail code retriable =
     \<lparr>me_msg = msg, me_detail = detail, me_retriable = retriable, me_errCode = code\<rparr>"

definition CanceledCode :: int where "CanceledCode = 10000"
definition TimeoutCode :: int where "TimeoutCode = 10001"

text \<open>The table of leaf errors: the variable's name and its value.\<close>

definition merr_table :: "(string \<times> milvusError) list" where
  "merr_table = [
    (''ErrServiceNotReady'', newMilvusError ''service not ready'' 1 True),
    (''ErrServiceUnavailable'', newMilvusError ''service unavailable'' 2 True),
    (''ErrServiceMemoryLimitExceeded'', newMilvusError ''memory limit exceeded'' 3 False),
    (''ErrServiceRequestLimitExceeded'', newMilvusError ''request limit exceeded'' 4 True),
    (''ErrServiceInternal'', newMilvusError ''service internal error'' 5 False),
    (''ErrServiceCrossClusterRouting'', newMilvusError ''cross cluster routing'' 6 False),
    (''ErrServiceDiskLimitExceeded'', newMilvusError ''disk limit exceeded'' 7 False),
    (''ErrServiceRateLimit'', newMilvusError ''rate limit exceeded'' 8 True),
    (''ErrServiceQuotaExceeded'', newMilvusError ''quota exceeded'' 9 False),
    (''ErrServiceUnimplemented'', newMilvusError ''service unimplemented'' 10 False),
    (''ErrServiceTimeTickLongDelay'', newMilvusError ''time tick long delay'' 11 False),
    (''ErrCollectionNotFound'', newMilvusError ''collection not found'' 100 False),
    (''ErrCollectionNotLoaded'', newMilvusError ''collection not loaded'' 101 False),
    (''ErrCollectionNumLimitExceeded'', newMilvusError ''exceeded the limit number of collections'' 102 False),
    (''ErrCollectionNotFullyLoaded'', newMilvusError ''collection not fully loaded'' 103 True),
    (''ErrPartitionNotFound'', newMilvusError ''partition not found'' 200 False),
    (''ErrPartitionNotLoaded'', newMilvusError ''partition not loaded'' 201 False),
    (''ErrPartitionNotFullyLoaded'', newMilvusError ''partition not fully loaded'' 202 True),
    (''ErrGeneralCapacityExceeded'', newMilvusError ''general capacity exceeded'' 250 False),
    (''ErrResourceGroupNotFound'', newMilvusError ''resource group not found'' 300 False),
    (''ErrReplicaNotFound'', newMilvusError ''replica not found'' 400 False),
    (''ErrReplicaNotAvailable'', newMilvusError ''replica not available'' 401 False),
    (''ErrChannelNotFound'', newMilvusError ''channel not found'' 500 False),
    (''ErrChannelLack'', newMilvusError ''channel lacks'' 501 False),
    (''ErrChannelReduplicate'', newMilvusError ''channel reduplicates'' 502 False),
    (''ErrChannelNotAvailable'', newMilvusError ''channel not available'' 503 False),
    (''ErrSegmentNotFound'', newMilvusError ''segment not found'' 600 False),
    (''ErrSegmentNotLoaded'', newMilvusError ''segment not loaded'' 601 False),
    (''ErrSegmentLack'', newMilvusError ''segment lacks'' 602 False),
    (''ErrSegmentReduplicate'', newMilvusError ''segment reduplicates'' 603 False),
    (''ErrIndexNotFound'', newMilvusError ''index not found'' 700 False),
    (''ErrIndexNotSupported'', newMilvusError ''index type not supported'' 701 False),
    (''ErrIndexDuplicate'', newMilvusError ''index duplicates'' 702 False),
    (''ErrDatabaseNotFound'', newMilvusError ''database not found'' 800 False),
    (''ErrDatabaseNumLimitExceeded'', newMilvusError ''exceeded the limit number of database'' 801 False),
    (''ErrDatabaseInvalidName'', newMilvusError ''invalid database name'' 802 False),
    (''ErrNodeNotFound'', newMilvusError ''node not found'' 901 False),
    (''ErrNodeOffline'', newMilvusError ''node offline'' 902 False),
    (''ErrNodeLack'', newMilvusError ''node lacks'' 903 False),
    (''ErrNodeNotMatch'', newMilvusError ''node not match'' 904 False),
    (''ErrNodeNotAvailable'', newMilvusError ''node not available'' 905 False),
    (''ErrNodeStateUnexpected'', newMilvusError ''node state unexpected'' 906 False),
    (''ErrIoKeyNotFound'', newMilvusError ''key not found'' 1000 False),
    (''ErrIoFailed'', newMilvusError ''IO failed'' 1001 False),
    (''ErrIoUnexpectEOF'', newMilvusError ''unexpected EOF'' 1002 True),
    (''ErrParameterInvalid'', newMilvusError ''invalid parameter'' 1100 False),
    (''ErrParameterMissing'', newMilvusError ''missing parameter'' 1101 False),
    (''ErrMetricNotFound'', newMilvusError ''metric not found'' 1200 False),
    (''ErrMqTopicNotFound'', newMilvusError ''topic not found'' 1300 False),
    (''ErrMqTopicNotEmpty'', newMilvusError ''topic not empty'' 1301 False),
    (''ErrMqInternal'', newMilvusError ''message queue internal error'' 1302 False),
    (''ErrDenyProduceMsg'', newMilvusError ''deny to write the message to mq'' 1303 False),
    (''ErrPrivilegeNotAuthenticated'', newMilvusError ''not authenticated'' 1400 False),
    (''ErrPrivilegeNotPermitted'', newMilvusError ''privilege not permitted'' 1401 False),
    (''ErrAliasNotFound'', newMilvusError ''alias not found'' 1600 False),
    (''ErrAliasCollectionNameConfilct'', newMilvusError ''alias and collection name conflict'' 1601 False),
    (''ErrAliasAlreadyExist'', newMilvusError ''alias already exist'' 1602 False),
    (''ErrCollectionIDOfAliasNotFound'', newMilvusError ''collection id of alias not found'' 1603 False),
    (''ErrFieldNotFound'', newMilvusError ''field not found'' 1700 False),
    (''ErrFieldInvalidName'', newMilvusError ''field name invalid'' 1701 False),
    (''ErrNeedAuthenticate'', newMilvusError ''user hasn't authenticated'' 1800 False),
    (''ErrIncorrectParameterFormat'', newMilvusError ''can only accept json format request'' 1801 False),
    (''ErrMissingRequiredParameters'', newMilvusError ''missing required parameters'' 1802 False),
    (''ErrMarshalCollectionSchema'', newMilvusError ''fail to marshal collection schema'' 1803 False),
    (''ErrInvalidInsertData'', newMilvusError ''fail to deal the insert data'' 1804 False),
    (''ErrInvalidSearchResult'', newMilvusError ''fail to parse search result'' 1805 False),
    (''ErrCheckPrimaryKey'', newMilvusError ''please check the primary key and its' type can only in [int, string]'' 1806 False),
    (''ErrHTTPRateLimit'', newMilvusError ''request is rejected by limiter'' 1807 True),
    (''ErrDenyReplicateMessage'', newMilvusError ''deny to use the replicate message in the normal instance'' 1900 False),
    (''ErrInvalidMsgBytes'', newMilvusError ''invalid replicate msg bytes'' 1901 False),
    (''ErrNoAssignSegmentID'', newMilvusError ''no assign segment id'' 1902 False),
    (''ErrInvalidStreamObj'', newMilvusError ''invalid stream object'' 1903 False),
    (''ErrSegcore'', newMilvusError ''segcore error'' 2000 False),
    (''errUnexpected'', newMilvusError ''unexpected error'' 65535 False),
    (''ErrImportFailed'', newMilvusError ''importing data failed'' 2100 False),
    (''ErrInconsistentRequery'', newMilvusError ''inconsistent requery result'' 2200 True)]"

definition errUnexpected :: milvusError where
  "errUnexpected = newMilvusError ''unexpected error'' 65535 False"

definition ErrDenyProduceMsg :: go_error where
  "ErrDenyProduceMsg = MilvusErr (newMilvusError ''deny to write the message to mq'' 1303 False)"

definition ErrMqTopicNotFound :: go_error where
  "ErrMqTopicNotFound = MilvusErr (newMilvusError ''topic not found'' 1300 False)"

section \<open>Walking an error chain\<close>

fun multiErrors_Unwrap :: "go_error list \<Rightarrow> go_error option" where
  "multiErrors_Unwrap errs =
     (if length errs \<le> 1 then None
      else if length errs = 2 then Some (errs ! 1)
      else Some (MultiErrors (tl errs)))"

fun Unwrap :: "go_error \<Rightarrow> go_error option" where
  "Unwrap (WrapErr _ e) = Some e"
| "Unwrap (MultiErrors es) = multiErrors_Unwrap es"
| "Unwrap _ = None"

lemma Unwrap_size: "Unwrap e = Some e' \<Longrightarrow> size e' < size e"
proof (cases e)
  case (MultiErrors es)
  assume "Unwrap e = Some e'"
  with MultiErrors show ?thesis
    by (cases es; cases "tl es"; cases "tl (tl es)") (auto split: if_splits)
qed auto

function Cause :: "go_error \<Rightarrow> go_error" where
  "Cause e = (case Unwrap e of None \<Rightarrow> e | Some e' \<Rightarrow> Cause e')"
  by pat_completeness auto
termination
  by (relation "measure size") (auto dest: Unwrap_size)

declare Cause.simps [simp del]

fun is_multi :: "go_error \<Rightarrow> bool" where
  "is_multi (MultiErrors _) = True"
| "is_multi _ = False"

definition milvusError_Is :: "milvusError \<Rightarrow> go_error \<Rightarrow> bool" where
  "milvusError_Is e err = (case Cause err of MilvusErr c \<Rightarrow> me_errCode e = me_errCode c | _ \<Rightarrow> False)"

text \<open>
  \<open>errors.Is err target\<close>: the target itself (a \<open>multiErrors\<close> holds a slice, so it is not comparable),
  or an error with the mark of the target (\<open>github.com/cockroachdb/errors\<close> compares type and message: for two
  \<open>milvusError\<close>s the messages, for the other types the contents), or the answer of the error's own \<open>Is\<close>
  method, or the same of the unwrapped error.
\<close>

fun same_mark :: "go_error \<Rightarrow> go_error \<Rightarrow> bool" where
  "same_mark (MilvusErr m) (MilvusErr m') = (me_msg m = me_msg m')"
| "same_mark _ _ = False"

function errors_Is :: "go_error \<Rightarrow> go_error \<Rightarrow> bool" where
  "errors_Is e target =
     ((\<not> is_multi target \<and> e = target)
      \<or> same_mark e target
      \<or> (case e of
           MilvusErr m \<Rightarrow> milvusError_Is m target
         | MultiErrors es \<Rightarrow> list_ex (\<lambda>x. errors_Is x target) es
         | _ \<Rightarrow> False)
      \<or> (case Unwrap e of None \<Rightarrow> False | Some e' \<Rightarrow> errors_Is e' target))"
  by pat_completeness auto
termination
proof (relation "measure (\<lambda>(e, t). size e)", goal_cases)
  case (2 e target es x)
  then have "size x \<le> size_list size es"
    using size_list_estimation' [of x es "size x" size] by auto
  with 2 show ?case by simp
qed (auto dest: Unwrap_size)

declare errors_Is.simps [simp del]

definition errors_IsAny :: "go_error \<Rightarrow> go_error list \<Rightarrow> bool" where
  "errors_IsAny e targets = list_ex (errors_Is e) targets"

text \<open>\<open>Combine\<close> drops the nil errors and keeps the others in order.\<close>

definition Combine :: "go_error option list \<Rightarrow> go_error option" where
  "Combine errs =
     (let es = List.map_filter (\<lambda>e. e) errs in if es = [] then None else Some (MultiErrors es))"

section \<open>Codes and classification\<close>

definition Code :: "go_error option \<Rightarrow> int" where
  "Code err = (case err of None \<Rightarrow> 0 | Some e \<Rightarrow>
     (case Cause e of
        MilvusErr m \<Rightarrow> me_errCode m
      | c \<Rightarrow> if errors_Is c CtxCanceled then CanceledCode
            else if errors_Is c CtxDeadlineExceeded then TimeoutCode
            else me_errCode errUnexpected))"

fun IsRetryableErr :: "go_error option \<Rightarrow> bool" where
  "IsRetryableErr (Some (MilvusErr m)) = me_retriable m"
| "IsRetryableErr _ = False"

definition IsCanceledOrTimeout :: "go_error \<Rightarrow> bool" where
  "IsCanceledOrTimeout e = errors_IsAny e [CtxCanceled, CtxDeadlineExceeded]"

text \<open>\<open>wrapFields\<close> appends rendered fields to the message of a leaf error; the value is still a
  \<open>milvusError\<close>.\<close>

definition wrapFields :: "milvusError \<Rightarrow> string list \<Rightarrow> go_error" where
  "wrapFields err flds =
     (let m = fold (\<lambda>f acc. acc @ ''['' @ f @ '']'') flds (me_msg err)
      in MilvusErr (err\<lparr>me_msg := m, me_detail := m\<rparr>))"

definition wrapFieldsWithDesc :: "milvusError \<Rightarrow> string \<Rightarrow> string list \<Rightarrow> go_error" where
  "wrapFieldsWithDesc err desc flds =
     (let m = fold (\<lambda>f acc. acc @ ''['' @ f @ '']'') flds (me_msg err) @ '': '' @ desc
      in MilvusErr (err\<lparr>me_msg := m, me_detail := m\<rparr>))"


section \<open>Wire status\<close>

text \<open>
  The fields of \<open>commonpb.Status\<close> that the package reads or writes, and the values of
  \<open>commonpb.ErrorCode\<close> it names; every other value is \<open>EC_Other\<close>.
\<close>

datatype ErrorCode =
    EC_Success | EC_UnexpectedError | EC_NotReadyServe | EC_CollectionNotExists | EC_IllegalArgument
  | EC_NodeIDNotMatch | EC_MetaFailed | EC_NoReplicaAvailable | EC_InsufficientMemoryToLoad
  | EC_MemoryQuotaExhausted | EC_DiskQuotaExhausted | EC_TimeTickLongDelay | EC_RateLimit
  | EC_ForceDeny | EC_IndexNotExist | EC_SegmentNotFound | EC_Other int

record Status =
  st_Code :: int
  st_Reason :: string
  st_ErrorCode :: ErrorCode
  st_Retriable :: bool
  st_Detail :: string

text \<open>The switch compares the code with the codes of the leaf errors, in this order.\<close>

definition oldCode :: "int \<Rightarrow> ErrorCode" where
  "oldCode code =
     (if code = 1 then EC_NotReadyServe
      else if code = 100 then EC_CollectionNotExists
      else if code = 1100 then EC_IllegalArgument
      else if code = 904 then EC_NodeIDNotMatch
      else if code \<in> {100, 200, 400} then EC_MetaFailed
      else if code \<in> {401, 503, 905} then EC_NoReplicaAvailable
      else if code = 3 then EC_InsufficientMemoryToLoad
      else if code = 7 then EC_DiskQuotaExhausted
      else if code = 11 then EC_TimeTickLongDelay
      else if code = 8 then EC_RateLimit
      else if code = 9 then EC_ForceDeny
      else if code = 700 then EC_IndexNotExist
      else if code = 600 then EC_SegmentNotFound
      else if code = 501 then EC_MetaFailed
      else EC_UnexpectedError)"

fun OldCodeToMerr :: "ErrorCode \<Rightarrow> milvusError" where
  "OldCodeToMerr EC_NotReadyServe = newMilvusError ''service not ready'' 1 True"
| "OldCodeToMerr EC_CollectionNotExists = newMilvusError ''collection not found'' 100 False"
| "OldCodeToMerr EC_IllegalArgument = newMilvusError ''invalid parameter'' 1100 False"
| "OldCodeToMerr EC_NodeIDNotMatch = newMilvusError ''node not match'' 904 False"
| "OldCodeToMerr EC_InsufficientMemoryToLoad = newMilvusError ''memory limit exceeded'' 3 False"
| "OldCodeToMerr EC_MemoryQuotaExhausted = newMilvusError ''memory limit exceeded'' 3 False"
| "OldCodeToMerr EC_DiskQuotaExhausted = newMilvusError ''disk limit exceeded'' 7 False"
| "OldCodeToMerr EC_TimeTickLongDelay = newMilvusError ''time tick long delay'' 11 False"
| "OldCodeToMerr EC_RateLimit = newMilvusError ''rate limit exceeded'' 8 True"
| "OldCodeToMerr EC_ForceDeny = newMilvusError ''quota exceeded'' 9 False"
| "OldCodeToMerr EC_IndexNotExist = newMilvusError ''index not found'' 700 False"
| "OldCodeToMerr EC_SegmentNotFound = newMilvusError ''segment not found'' 600 False"
| "OldCodeToMerr EC_MetaFailed = newMilvusError ''channel not found'' 500 False"
| "OldCodeToMerr _ = errUnexpected"

text \<open>
  The rendered message of an error: a prefix that is not empty is joined with a colon, and a \<open>multiErrors\<close>
  wraps each error with the message built so far.
\<close>

definition with_prefix :: "string \<Rightarrow> string \<Rightarrow> string" where
  "with_prefix p e = (if p = [] then e else p @ '': '' @ e)"

fun Error_string :: "go_error \<Rightarrow> string" where
  "Error_string (MilvusErr m) = me_msg m"
| "Error_string CtxCanceled = ''context canceled''"
| "Error_string CtxDeadlineExceeded = ''context deadline exceeded''"
| "Error_string (ErrorString s) = s"
| "Error_string (WrapErr m e) = with_prefix m (Error_string e)"
| "Error_string (MultiErrors es) =
     (case map Error_string es of
        [] \<Rightarrow> []
      | s # ss \<Rightarrow> fold (\<lambda>e final. with_prefix final e) ss s)"

text \<open>\<open>previousLastError\<close>: the last error before the end of the chain.\<close>

function previousLastError_loop :: "go_error \<Rightarrow> go_error \<Rightarrow> go_error" where
  "previousLastError_loop lastErr err =
     (case Unwrap err of None \<Rightarrow> lastErr | Some nextErr \<Rightarrow> previousLastError_loop err nextErr)"
  by pat_completeness auto
termination
  by (relation "measure (\<lambda>(l, e). size e)") (auto dest: Unwrap_size)

declare previousLastError_loop.simps [simp del]

definition previousLastError :: "go_error \<Rightarrow> go_error" where
  "previousLastError err = previousLastError_loop err err"

definition mk_Status :: "go_error option \<Rightarrow> Status" where
  "mk_Status err = (case err of
     None \<Rightarrow> \<lparr>st_Code = 0, st_Reason = [], st_ErrorCode = EC_Success, st_Retriable = False, st_Detail = []\<rparr>
   | Some e \<Rightarrow> \<lparr>st_Code = Code err, st_Reason = Error_string (previousLastError e),
                st_ErrorCode = oldCode (Code err), st_Retriable = IsRetryableErr err,
                st_Detail = Error_string e\<rparr>)"

definition Status_Ok :: "Status \<Rightarrow> bool" where
  "Status_Ok status \<longleftrightarrow> st_ErrorCode status = EC_Success \<and> st_Code status = 0"

definition Status_Error :: "Status \<Rightarrow> go_error option" where
  "Status_Error status =
     (if Status_Ok status then None
      else if st_Code status = 0 then
        Some (MilvusErr (newMilvusErrorWithDetail (st_Reason status) (st_Detail status)
          (Code (Some (MilvusErr (OldCodeToMerr (st_ErrorCode status))))) False))
      else
        Some (MilvusErr (newMilvusErrorWithDetail (st_Reason status) (st_Detail status)
          (st_Code status) (st_Retriable status))))"

section \<open>Lemmas\<close>

lemma Cause_simps [simp]:
  "Cause (MilvusErr m) = MilvusErr m"
  "Cause CtxCanceled = CtxCanceled"
  "Cause CtxDeadlineExceeded = CtxDeadlineExceeded"
  "Cause (ErrorString s) = ErrorString s"
  "Cause (WrapErr s e) = Cause e"
  by (subst Cause.simps, simp)+

lemma Cause_Multi [simp]:
  "Cause (MultiErrors []) = MultiErrors []"
  "Cause (MultiErrors [e]) = MultiErrors [e]"
  "Cause (MultiErrors (e # e' # es)) = (if es = [] then Cause e' else Cause (MultiErrors (e' # es)))"
  by (subst Cause.simps, force)+

lemma Cause_Multi_last: "2 \<le> length es \<Longrightarrow> Cause (MultiErrors es) = Cause (last es)"
proof (induction es)
  case (Cons e es)
  then obtain e' es' where es: "es = e' # es'" by (cases es) auto
  show ?case
  proof (cases "es' = []")
    case False
    with es Cons.IH have "Cause (MultiErrors es) = Cause (last es)" by (cases es') auto
    with es False show ?thesis by simp
  qed (simp add: es)
qed simp

lemma errors_Is_refl [simp]: "\<not> is_multi e \<Longrightarrow> errors_Is e e"
  by (subst errors_Is.simps) simp

lemma errors_Is_plain [simp]:
  "\<not> is_multi t \<Longrightarrow> errors_Is CtxCanceled t \<longleftrightarrow> t = CtxCanceled"
  "\<not> is_multi t \<Longrightarrow> errors_Is CtxDeadlineExceeded t \<longleftrightarrow> t = CtxDeadlineExceeded"
  "\<not> is_multi t \<Longrightarrow> errors_Is (ErrorString s) t \<longleftrightarrow> t = ErrorString s"
  "\<not> is_multi t \<Longrightarrow> errors_Is (WrapErr s e) t \<longleftrightarrow> t = WrapErr s e \<or> errors_Is e t"
  "\<not> is_multi t \<Longrightarrow> errors_Is (MilvusErr m) t \<longleftrightarrow> t = MilvusErr m \<or> same_mark (MilvusErr m) t \<or> milvusError_Is m t"
  by (auto simp: errors_Is.simps [of CtxCanceled] errors_Is.simps [of CtxDeadlineExceeded]
      errors_Is.simps [of "ErrorString s"] errors_Is.simps [of "WrapErr s e"]
      errors_Is.simps [of "MilvusErr m"])

lemma errors_Is_WrapI: "errors_Is e t \<Longrightarrow> errors_Is (WrapErr s e) t"
  by (subst errors_Is.simps) simp

lemma errors_Is_MultiI: "e \<in> set es \<Longrightarrow> errors_Is e t \<Longrightarrow> errors_Is (MultiErrors es) t"
  by (subst errors_Is.simps) (auto simp: list_ex_iff)

lemma errors_Is_Multi_iff:
  assumes "\<not> is_multi t"
  shows "errors_Is (MultiErrors es) t \<longleftrightarrow> (\<exists>e \<in> set es. errors_Is e t)"
proof (induction "length es" arbitrary: es)
  case (Suc n)
  have "errors_Is e' t \<Longrightarrow> \<exists>e \<in> set es. errors_Is e t" if "Unwrap (MultiErrors es) = Some e'" for e'
    using that Suc by (cases es; cases "tl es"; cases "tl (tl es)") (auto split: if_splits)
  then show ?case
    using assms by (subst errors_Is.simps) (auto simp: list_ex_iff split: option.splits)
qed (use assms in \<open>auto simp: errors_Is.simps [of "MultiErrors []"]\<close>)

lemma Combine_Some_iff: "Combine errs = Some e \<longleftrightarrow>
    (\<exists>es. es = List.map_filter (\<lambda>x. x) errs \<and> es \<noteq> [] \<and> e = MultiErrors es)"
  by (auto simp: Combine_def Let_def)

lemma Combine_Is:
  assumes "Combine errs = Some e" and "Some x \<in> set errs" and "errors_Is x t"
  shows "errors_Is e t"
proof -
  from assms(2) have "x \<in> set (List.map_filter (\<lambda>x. x) errs)"
    by (force simp: List.map_filter_def)
  with assms(1,3) show ?thesis by (auto simp: Combine_Some_iff intro: errors_Is_MultiI)
qed

lemma wrapFields_fold: "(\<exists>m. wrapFields err flds = MilvusErr (err\<lparr>me_msg := m, me_detail := m\<rparr>))"
  by (auto simp: wrapFields_def Let_def)

lemma Code_simps [simp]:
  "Code None = 0"
  "Code (Some (MilvusErr m)) = me_errCode m"
  "Code (Some CtxCanceled) = CanceledCode"
  "Code (Some CtxDeadlineExceeded) = TimeoutCode"
  "Code (Some (WrapErr s e)) = Code (Some e)"
  by (simp_all add: Code_def)

section \<open>Properties\<close>

text \<open>The leaf errors of the table have pairwise different codes, none of them is 0 (the code of
  success), of a cancelled context or of a timeout.\<close>

theorem merr_table_codes_unique:
  "distinct (map (\<lambda>(n, e). me_errCode e) merr_table)
   \<and> {0, CanceledCode, TimeoutCode} \<inter> set (map (\<lambda>(n, e). me_errCode e) merr_table) = {}"
proof -
  have "map (\<lambda>(n, e). me_errCode e) merr_table =
      [1, 2, 3, 4, 5, 6, 7, 8, 9, 10, 11, 100, 101, 102, 103, 200, 201, 202, 250, 300, 400, 401, 500, 501, 502, 503, 600, 601, 602, 603, 700, 701, 702, 800, 801, 802, 901, 902, 903, 904, 905, 906, 1000, 1001, 1002, 1100, 1101, 1200, 1300, 1301, 1302, 1303, 1400, 1401, 1600, 1601, 1602, 1603, 1700, 1701, 1800, 1801, 1802, 1803, 1804, 1805, 1806, 1807, 1900, 1901, 1902, 1903, 2000, 65535, 2100, 2200]"
    by (simp add: merr_table_def newMilvusError_def)
  then show ?thesis by (simp add: CanceledCode_def TimeoutCode_def)
qed

text \<open>An error sent as a status and read back: nil stays nil and nothing else becomes nil; the
  code, the retriable flag, the reason and the detail of the error are those the sender computed,
  whenever the sender's code is not 0.\<close>

theorem Status_Error_roundtrip:
  "(Status_Error (mk_Status err) = None \<longleftrightarrow> err = None)
   \<and> (Code err = 0 \<or> (\<exists>m. Status_Error (mk_Status err) = Some (MilvusErr m)
        \<and> me_errCode m = Code err \<and> me_retriable m = IsRetryableErr err
        \<and> me_msg m = st_Reason (mk_Status err) \<and> me_detail m = st_Detail (mk_Status err)))"
  by (auto simp: Status_Error_def mk_Status_def Status_Ok_def oldCode_def
      newMilvusErrorWithDetail_def split: option.splits)

text \<open>Combining errors keeps the code of the last non-nil error, except that a combination of a
  single error has the code of an unexpected error, whatever its member's code was (unless that member
  is a cancelled or expired context).\<close>

theorem Combine_code:
  "Code (Combine errs) =
     (case List.map_filter (\<lambda>x. x) errs of
        [] \<Rightarrow> 0
      | [e] \<Rightarrow> if errors_Is e CtxCanceled then 10000
               else if errors_Is e CtxDeadlineExceeded then 10001 else 65535
      | es \<Rightarrow> Code (Some (last es)))"
proof -
  define es where "es = List.map_filter (\<lambda>x. x) errs"
  consider "es = []" | e where "es = [e]" | "2 \<le> length es"
    by (cases es; cases "tl es") auto
  then show ?thesis
  proof cases
    case 1
    then show ?thesis by (simp add: Combine_def es_def)
  next
    case (2 e)
    then have "Combine errs = Some (MultiErrors [e])" by (simp add: Combine_def es_def)
    then have "Code (Combine errs) =
        (if errors_Is e CtxCanceled then 10000
         else if errors_Is e CtxDeadlineExceeded then 10001 else 65535)"
      by (simp add: Code_def CanceledCode_def TimeoutCode_def errUnexpected_def newMilvusError_def
          errors_Is_Multi_iff)
    with 2 show ?thesis by (simp add: es_def)
  next
    case 3
    then have "es \<noteq> []" by auto
    then have c: "Combine errs = Some (MultiErrors es)" by (simp add: Combine_def es_def)
    have "Code (Combine errs) = Code (Some (last es))"
      by (simp add: c Code_def Cause_Multi_last [OF 3])
    with 3 show ?thesis by (auto simp: es_def [symmetric] split: list.splits)
  qed
qed

end
