(* ===== verification/Tso.thy ===== *)
theory Tso
  imports Prelude
begin

unbundle bit_operations_syntax

text \<open>
  Hybrid timestamps (pkg/util/tsoutil/tso.go, pkg/util/typeutil/type.go). A timestamp is an unsigned
  64-bit word: 46 bits of physical time in milliseconds above 18 bits of a logical counter. A
  \<open>time.Time\<close> is its distance from the Unix epoch in nanoseconds, an integer; a signed 64-bit value is
  the word it is stored in, read with \<open>sint\<close>.
\<close>

type_synonym timestamp = uint64

definition logicalBits :: nat where "logicalBits = 18"

definition logicalBitsMask :: timestamp where "logicalBitsMask = push_bit logicalBits 1 - 1"

definition ComposeTS :: "64 word \<Rightarrow> 64 word \<Rightarrow> timestamp" where
  "ComposeTS physical logical = push_bit logicalBits physical + logical"

definition ComposeTSByTime :: "int \<Rightarrow> 64 word \<Rightarrow> timestamp" where
  "ComposeTSByTime physical logical = ComposeTS (word_of_int (physical sdiv 1000000)) logical"

definition GetCurrentTime :: "int \<Rightarrow> timestamp" where
  "GetCurrentTime now = ComposeTSByTime now 0"

definition time_Unix :: "int \<Rightarrow> int \<Rightarrow> int" where
  "time_Unix sec nsec = sec * 1000000000 + nsec"

definition ParseTS :: "timestamp \<Rightarrow> int \<times> uint64" where
  "ParseTS ts =
     (let logical = ts AND logicalBitsMask;
          physical = drop_bit logicalBits ts;
          physicalTime = time_Unix (sint (physical div 1000)) (sint physical smod 1000 * 1000000)
      in (physicalTime, logical))"

definition PhysicalTime :: "timestamp \<Rightarrow> int" where
  "PhysicalTime ts = fst (ParseTS ts)"

definition ParseHybridTs :: "timestamp \<Rightarrow> 64 word \<times> 64 word" where
  "ParseHybridTs ts =
     (let logical = ts AND logicalBitsMask; physical = drop_bit logicalBits ts in (physical, logical))"

text \<open>The formatter of \<open>time.Format\<close> is a parameter, applied to the instant the code builds.\<close>

definition ParseAndFormatHybridTs :: "(int \<Rightarrow> string) \<Rightarrow> timestamp \<Rightarrow> string" where
  "ParseAndFormatHybridTs format ts =
     (let physicalTs = fst (ParseHybridTs ts) in format (time_Unix (sint physicalTs) 0))"

definition CalculateDuration :: "timestamp \<Rightarrow> timestamp \<Rightarrow> int" where
  "CalculateDuration ts1 ts2 = sint (fst (ParseHybridTs ts1) - fst (ParseHybridTs ts2))"

definition Mod24H :: "timestamp \<Rightarrow> timestamp" where
  "Mod24H ts =
     (let logical = ts AND logicalBitsMask;
          physical = drop_bit logicalBits ts;
          physical' = physical mod (24 * 60 * 60 * 1000)
      in push_bit logicalBits physical' OR logical)"

definition AddPhysicalDurationOnTs :: "timestamp \<Rightarrow> int \<Rightarrow> timestamp" where
  "AddPhysicalDurationOnTs ts duration =
     (let msecs = word_of_int (duration sdiv 1000000);
          (physical, logical) = ParseHybridTs ts
      in ComposeTS (physical + msecs) logical)"

definition SubByNow :: "timestamp \<Rightarrow> int \<Rightarrow> int" where
  "SubByNow ts now = now div 1000000 - sint (fst (ParseHybridTs ts))"

section \<open>Words as physical and logical parts\<close>

definition phys :: "timestamp \<Rightarrow> nat" where "phys ts = unat ts div 2 ^ 18"
definition logi :: "timestamp \<Rightarrow> nat" where "logi ts = unat ts mod 2 ^ 18"

lemma mask_eq: "logicalBitsMask = mask 18"
  by (simp add: logicalBitsMask_def logicalBits_def mask_eq_exp_minus_1 push_bit_eq_mult)

lemma unat_physical: "unat (drop_bit logicalBits ts) = phys ts"
  by (simp add: phys_def logicalBits_def drop_bit_eq_div unat_div_distrib)

lemma unat_logical: "unat (ts AND logicalBitsMask) = logi ts"
  by (simp add: logi_def mask_eq take_bit_eq_mask [symmetric] take_bit_eq_mod unat_mod_distrib)

lemma phys_logi: "unat ts = phys ts * 2 ^ 18 + logi ts"
  by (simp add: phys_def logi_def)

lemma phys_bound: "phys ts < 2 ^ 46"
proof -
  have "unat ts < 2 ^ 64" using unsigned_less [of ts, where 'a = nat] by simp
  then show ?thesis by (simp add: phys_def less_mult_imp_div_less)
qed

lemma logi_bound: "logi ts < 2 ^ 18"
  by (simp add: logi_def)

lemma unat_ComposeTS:
  assumes "unat p < 2 ^ 46" and "unat l < 2 ^ 18"
  shows "unat (ComposeTS p l) = unat p * 2 ^ 18 + unat l"
proof -
  have *: "unat p * 2 ^ 18 + unat l < 2 ^ 64"
    using assms by simp
  have "unat (push_bit 18 p) = unat p * 2 ^ 18"
    using * by (simp add: push_bit_eq_mult unat_word_ariths)
  with * show ?thesis
    by (simp add: ComposeTS_def logicalBits_def unat_word_ariths)
qed

lemma phys_ComposeTS:
  assumes "unat p < 2 ^ 46" and "unat l < 2 ^ 18"
  shows "phys (ComposeTS p l) = unat p" "logi (ComposeTS p l) = unat l"
proof -
  have "unat (ComposeTS p l) div 2 ^ 18 = unat p"
    unfolding unat_ComposeTS [OF assms] using assms(2) by (simp add: div_mult_self3)
  then show "phys (ComposeTS p l) = unat p" by (simp add: phys_def)
  have "unat (ComposeTS p l) mod 2 ^ 18 = unat l"
    unfolding unat_ComposeTS [OF assms] using assms(2) by simp
  then show "logi (ComposeTS p l) = unat l" by (simp add: logi_def)
qed

lemma sint_small: "unat (w::64 word) < 2 ^ 63 \<Longrightarrow> sint w = int (unat w)"
proof -
  assume *: "unat w < 2 ^ 63"
  have "sint w = signed_take_bit 63 (int (unat w))"
    by (simp add: sint_uint)
  also have "\<dots> = int (unat w)"
  proof (rule signed_take_bit_int_eq_self)
    show "- (2 ^ 63) \<le> int (unat w)" by (rule order_trans [of _ 0]) simp_all
    show "int (unat w) < 2 ^ 63" using * by (metis of_nat_less_iff of_nat_numeral of_nat_power)
  qed
  finally show ?thesis .
qed


lemma sint_physical [simp]: "sint (drop_bit logicalBits ts) = int (phys ts)"
  using phys_bound [of ts] by (simp add: sint_small unat_physical)

lemma ParseTS_eq: "ParseTS ts = (int (phys ts) * 1000000, ts AND logicalBitsMask)"
proof -
  have "sint (drop_bit logicalBits ts div 1000) = int (phys ts div 1000)"
    using phys_bound [of ts] by (simp add: sint_small unat_div_distrib unat_physical)
  moreover have "int (phys ts) smod 1000 = int (phys ts mod 1000)"
    by (simp add: smod_nonneg zmod_int)
  moreover have "int (phys ts) = int (phys ts div 1000) * 1000 + int (phys ts mod 1000)"
    by (metis div_mult_mod_eq of_nat_add of_nat_mult of_nat_numeral)
  ultimately show ?thesis by (simp add: ParseTS_def Let_def time_Unix_def)
qed

lemma PhysicalTime_eq: "PhysicalTime ts = int (phys ts) * 1000000"
  by (simp add: PhysicalTime_def ParseTS_eq)

lemma unat_ParseHybridTs:
  "unat (fst (ParseHybridTs ts)) = phys ts" "unat (snd (ParseHybridTs ts)) = logi ts"
  by (simp_all add: ParseHybridTs_def Let_def unat_physical unat_logical)

lemma timestamp_eq_iff: "ts1 = ts2 \<longleftrightarrow> phys ts1 = phys ts2 \<and> logi ts1 = logi ts2"
  by (metis phys_logi word_unat_eq_iff)

lemma timestamp_less_iff:
  "ts1 < ts2 \<longleftrightarrow> phys ts1 < phys ts2 \<or> (phys ts1 = phys ts2 \<and> logi ts1 < logi ts2)"
proof -
  have "ts1 < ts2 \<longleftrightarrow> phys ts1 * 2 ^ 18 + logi ts1 < phys ts2 * 2 ^ 18 + logi ts2"
    by (simp only: word_less_nat_alt phys_logi)
  with logi_bound [of ts1] logi_bound [of ts2] show ?thesis by auto
qed

lemma logi_word: "unat l < 2 ^ 18 \<Longrightarrow> l AND logicalBitsMask = l"
  by (simp add: word_unat_eq_iff unat_logical logi_def)

lemma unat_Mod24H: "phys (Mod24H ts) = phys ts mod 86400000" "logi (Mod24H ts) = logi ts"
proof -
  let ?p = "drop_bit logicalBits ts mod (24 * 60 * 60 * 1000)" and ?l = "ts AND logicalBitsMask"
  have p: "unat ?p = phys ts mod 86400000" by (simp add: unat_mod_distrib unat_physical)
  have l: "unat ?l = logi ts" by (rule unat_logical)
  have "push_bit logicalBits ?p OR ?l = push_bit logicalBits ?p + ?l"
    by (rule disjunctive_add [symmetric])
      (auto simp: bit_simps mask_eq logicalBits_def)
  then have "Mod24H ts = ComposeTS ?p ?l" by (simp add: Mod24H_def ComposeTS_def Let_def)
  moreover have "unat ?p < 2 ^ 46" using p by (simp add: order_less_le_trans [of _ 86400000])
  moreover have "unat ?l < 2 ^ 18" using l logi_bound [of ts] by simp
  ultimately show "phys (Mod24H ts) = phys ts mod 86400000" "logi (Mod24H ts) = logi ts"
    using p l by (simp_all only: phys_ComposeTS)
qed

section \<open>Properties\<close>

text \<open>C20: composing and parsing are inverse: parsing a timestamp and composing the parts gives the
  timestamp back, and composing parts that fit their fields (46 and 18 bits) and parsing gives the
  parts back.\<close>

theorem ComposeTS_ParseHybridTs_inverse:
  "(case ParseHybridTs ts of (p, l) \<Rightarrow> ComposeTS p l) = ts
   \<and> (unat p < 2 ^ 46 \<and> unat l < 2 ^ 18 \<longrightarrow> ParseHybridTs (ComposeTS p l) = (p, l))"
proof (intro conjI impI)
  show "(case ParseHybridTs ts of (p, l) \<Rightarrow> ComposeTS p l) = ts"
    using phys_bound [of ts] logi_bound [of ts] unat_ParseHybridTs [of ts]
    by (cases "ParseHybridTs ts") (simp add: timestamp_eq_iff phys_ComposeTS)
  assume "unat p < 2 ^ 46 \<and> unat l < 2 ^ 18"
  then show "ParseHybridTs (ComposeTS p l) = (p, l)"
    using unat_ParseHybridTs [of "ComposeTS p l"]
    by (cases "ParseHybridTs (ComposeTS p l)") (simp add: phys_ComposeTS word_unat_eq_iff)
qed

theorem ComposeTS_ParseHybridTs_inverse_witness:
  "ParseHybridTs (ComposeTS 1000 3) = (1000, 3)"
  using ComposeTS_ParseHybridTs_inverse [of 0 1000 3] by simp

text \<open>The order of timestamps is the order of physical time, and of the logical counter within one
  millisecond; and two timestamps in this order have physical times in this order.\<close>

theorem timestamp_order_lexicographic:
  "(ts1 \<le> ts2 \<longleftrightarrow>
      (case (ParseHybridTs ts1, ParseHybridTs ts2) of
         ((p1, l1), (p2, l2)) \<Rightarrow> p1 < p2 \<or> (p1 = p2 \<and> l1 \<le> l2)))
   \<and> (PhysicalTime ts1 < PhysicalTime ts2 \<longleftrightarrow> fst (ParseHybridTs ts1) < fst (ParseHybridTs ts2))"
proof -
  obtain p1 l1 p2 l2 where pl: "ParseHybridTs ts1 = (p1, l1)" "ParseHybridTs ts2 = (p2, l2)"
    by fastforce
  then have u: "unat p1 = phys ts1" "unat l1 = logi ts1" "unat p2 = phys ts2" "unat l2 = logi ts2"
    using unat_ParseHybridTs [of ts1] unat_ParseHybridTs [of ts2] by simp_all
  have "ts1 \<le> ts2 \<longleftrightarrow> \<not> ts2 < ts1" by auto
  also have "\<dots> \<longleftrightarrow> phys ts1 < phys ts2 \<or> (phys ts1 = phys ts2 \<and> logi ts1 \<le> logi ts2)"
    by (auto simp: timestamp_less_iff)
  finally show ?thesis
    by (simp add: pl PhysicalTime_eq word_less_nat_alt word_le_nat_alt word_unat_eq_iff u)
qed

text \<open>Adding a duration moves the physical part by the whole milliseconds of the duration and keeps
  the logical part, when the result is a physical time of 46 bits; a duration of less than a
  millisecond changes nothing.\<close>

theorem AddPhysicalDurationOnTs_exact:
  assumes "0 \<le> d" and "phys ts + nat (d div 1000000) < 2 ^ 46"
  shows "phys (AddPhysicalDurationOnTs ts d) = phys ts + nat (d div 1000000)
    \<and> logi (AddPhysicalDurationOnTs ts d) = logi ts"
proof -
  let ?m = "word_of_int (d sdiv 1000000) :: 64 word"
  obtain p l where pl: "ParseHybridTs ts = (p, l)" by fastforce
  then have u: "unat p = phys ts" "unat l = logi ts"
    using unat_ParseHybridTs [of ts] by simp_all
  have m: "?m = of_nat (nat (d div 1000000))"
    using assms(1) by (simp add: sdiv_nonneg)
  have "unat ?m = nat (d div 1000000)"
    using assms(2) unfolding m by (simp add: unat_of_nat take_bit_eq_mod)
  then have s: "unat (p + ?m) = phys ts + nat (d div 1000000)"
    using assms(2) u(1) by (simp add: unat_word_ariths)
  have "phys (ComposeTS (p + ?m) l) = phys ts + nat (d div 1000000)"
    "logi (ComposeTS (p + ?m) l) = logi ts"
    using phys_ComposeTS [of "p + ?m" l] s u(2) assms(2) logi_bound [of ts] by simp_all
  then show ?thesis by (simp add: AddPhysicalDurationOnTs_def pl)
qed

theorem AddPhysicalDurationOnTs_exact_witness:
  "phys (AddPhysicalDurationOnTs 262147 5000000) = 1 + 5 \<and> logi (AddPhysicalDurationOnTs 262147 5000000) = 3"
  using AddPhysicalDurationOnTs_exact [of 5000000 262147] by (simp add: phys_def logi_def)

text \<open>\<open>Mod24H\<close> keeps the logical part and reduces the physical part to the millisecond of the day;
  it is idempotent.\<close>

theorem Mod24H_day:
  "phys (Mod24H ts) = phys ts mod 86400000 \<and> phys (Mod24H ts) < 86400000
   \<and> snd (ParseTS (Mod24H ts)) = snd (ParseTS ts) \<and> Mod24H (Mod24H ts) = Mod24H ts"
proof -
  have "Mod24H ts AND logicalBitsMask = ts AND logicalBitsMask"
    by (simp only: word_unat_eq_iff unat_logical unat_Mod24H)
  then show ?thesis by (simp add: timestamp_eq_iff unat_Mod24H ParseTS_eq)
qed

text \<open>The instant that \<open>ParseAndFormatHybridTs\<close> formats is a thousand times as far from the epoch as
  the physical time of the timestamp: the milliseconds of the physical part are read as seconds.\<close>

theorem ParseAndFormatHybridTs_scales:
  "ParseAndFormatHybridTs format ts = format (1000 * PhysicalTime ts)"
  by (simp add: ParseAndFormatHybridTs_def ParseHybridTs_def Let_def PhysicalTime_eq time_Unix_def
      mult.commute)

end
