(* ===== verification/Retry.thy ===== *)
theory Retry
  imports Merr
begin

text \<open>
  Package \<open>retry\<close> (pkg/util/retry/retry.go, pkg/util/retry/options.go) and \<open>CheckCtxValid\<close> of
  pkg/util/funcutil/func.go.

  Time is an integer number of nanoseconds; a \<open>Duration\<close> is a 64-bit one, and doubling it wraps (\<open>wrap64\<close>).
  A wait for a duration that is not positive ends at once. A context is the time it is cancelled at and its
  deadline, each optional. The function that is retried is a state transformer: from the current time
  and a world it gives its result, the time it returned at and the new world. Where a sleep ends in
  the very instant the context is done, Go's \<open>select\<close> picks either branch: the parameter \<open>tie\<close> is the
  choice.
\<close>

section \<open>Contexts\<close>

record ctx =
  ctx_deadline :: "int option"
  ctx_cancel_at :: "int option"

definition Background :: ctx where
  "Background = \<lparr>ctx_deadline = None, ctx_cancel_at = None\<rparr>"

definition ctx_done_at :: "ctx \<Rightarrow> int option" where
  "ctx_done_at c = (case (ctx_deadline c, ctx_cancel_at c) of
     (None, x) \<Rightarrow> x | (x, None) \<Rightarrow> x | (Some d, Some x) \<Rightarrow> Some (min d x))"

definition ctx_Err :: "ctx \<Rightarrow> int \<Rightarrow> go_error option" where
  "ctx_Err c now = (case ctx_done_at c of
     None \<Rightarrow> None
   | Some t \<Rightarrow> if now < t then None
               else if ctx_cancel_at c = Some t then Some CtxCanceled else Some CtxDeadlineExceeded)"

definition CheckCtxValid :: "ctx \<Rightarrow> int \<Rightarrow> bool" where
  "CheckCtxValid c now \<longleftrightarrow> ctx_Err c now \<noteq> Some CtxDeadlineExceeded \<and> ctx_Err c now \<noteq> Some CtxCanceled"

section \<open>Options\<close>

record config =
  attempts :: nat
  sleep :: int
  maxSleepTime :: int
  isRetryErr :: "(go_error \<Rightarrow> bool) option"

type_synonym Option = "config \<Rightarrow> config"

definition newDefaultConfig :: config where
  "newDefaultConfig = \<lparr>attempts = 10, sleep = 200000000, maxSleepTime = 3000000000, isRetryErr = None\<rparr>"

definition Attempts :: "nat \<Rightarrow> Option" where
  "Attempts n c = c\<lparr>attempts := n\<rparr>"

definition Sleep :: "int \<Rightarrow> Option" where
  "Sleep s c =
     (let c' = c\<lparr>sleep := s\<rparr>
      in if wrap64 (sleep c' * 2) > maxSleepTime c' then c'\<lparr>maxSleepTime := wrap64 (2 * sleep c')\<rparr> else c')"

definition MaxSleepTime :: "int \<Rightarrow> Option" where
  "MaxSleepTime m c =
     (if wrap64 (sleep c * 2) > m then c\<lparr>maxSleepTime := wrap64 (2 * sleep c)\<rparr> else c\<lparr>maxSleepTime := m\<rparr>)"

definition RetryErr :: "(go_error \<Rightarrow> bool) \<Rightarrow> Option" where
  "RetryErr p c = c\<lparr>isRetryErr := Some p\<rparr>"

definition apply_opts :: "Option list \<Rightarrow> config" where
  "apply_opts opts = fold (\<lambda>opt c. opt c) opts newDefaultConfig"

section \<open>Recoverable errors\<close>

definition errUnrecoverable :: go_error where
  "errUnrecoverable = ErrorString ''unrecoverable error''"

definition Unrecoverable :: "go_error option \<Rightarrow> go_error option" where
  "Unrecoverable err = Combine [err, Some errUnrecoverable]"

definition IsRecoverable :: "go_error \<Rightarrow> bool" where
  "IsRecoverable err \<longleftrightarrow> \<not> errors_Is err errUnrecoverable"

section \<open>The loops\<close>

text \<open>Waiting for \<open>d\<close> in a select with the context: whether the context won, and the time after.\<close>

definition select_after :: "(int \<Rightarrow> bool) \<Rightarrow> ctx \<Rightarrow> int \<Rightarrow> int \<Rightarrow> bool \<times> int" where
  "select_after tie c now d =
     (let fires = now + max 0 d
      in case ctx_done_at c of
           None \<Rightarrow> (False, fires)
         | Some t \<Rightarrow> if t < fires \<or> (t \<le> fires \<and> tie now) then (True, max now t) else (False, fires))"

definition deadline_before :: "ctx \<Rightarrow> int \<Rightarrow> int \<Rightarrow> bool" where
  "deadline_before c now d = (case ctx_deadline c of None \<Rightarrow> False | Some t \<Rightarrow> t - now < d)"

definition next_sleep :: "config \<Rightarrow> config" where
  "next_sleep c =
     (let c' = c\<lparr>sleep := wrap64 (sleep c * 2)\<rparr>
      in if sleep c' > maxSleepTime c' then c'\<lparr>sleep := maxSleepTime c'\<rparr> else c')"

definition attempt_err :: "nat \<Rightarrow> go_error \<Rightarrow> go_error" where
  "attempt_err i e = WrapErr (''attempt #'' @ string_of_nat i) e"

fun Do_loop :: "(int \<Rightarrow> bool) \<Rightarrow> ctx \<Rightarrow> (int \<Rightarrow> 'w \<Rightarrow> go_error option \<times> int \<times> 'w) \<Rightarrow> nat \<Rightarrow> nat \<Rightarrow>
    config \<Rightarrow> go_error option \<Rightarrow> int \<Rightarrow> 'w \<Rightarrow> go_error option \<times> int \<times> 'w" where
  "Do_loop tie ctx fn 0 i c el now w = (el, now, w)"
| "Do_loop tie ctx fn (Suc n) i c el now w =
     (case fn now w of
        (None, now', w') \<Rightarrow> (None, now', w')
      | (Some e, now', w') \<Rightarrow>
          (let err = attempt_err i e;
               el' = Combine [el, Some err]
           in if \<not> IsRecoverable err then (el', now', w')
              else if (case isRetryErr c of None \<Rightarrow> False | Some p \<Rightarrow> \<not> p err) then (Some err, now', w')
              else if deadline_before ctx now' (sleep c) then (el', now', w')
              else (case select_after tie ctx now' (sleep c) of
                      (True, now'') \<Rightarrow> (Combine [el', ctx_Err ctx now''], now'', w')
                    | (False, now'') \<Rightarrow> Do_loop tie ctx fn n (Suc i) (next_sleep c) el' now'' w')))"

definition Do :: "(int \<Rightarrow> bool) \<Rightarrow> ctx \<Rightarrow> (int \<Rightarrow> 'w \<Rightarrow> go_error option \<times> int \<times> 'w) \<Rightarrow> Option list \<Rightarrow>
    int \<Rightarrow> 'w \<Rightarrow> go_error option \<times> int \<times> 'w" where
  "Do tie ctx fn opts now w =
     (if \<not> CheckCtxValid ctx now then (ctx_Err ctx now, now, w)
      else let c = apply_opts opts in Do_loop tie ctx fn (attempts c) 0 c None now w)"

text \<open>
  \<open>Handle\<close>: the retried function also says whether to retry. Where the code returns the last error in
  place of a cancelled context, \<open>own_or_last\<close> is the choice.
\<close>

definition own_or_last :: "go_error \<Rightarrow> go_error option \<Rightarrow> go_error option" where
  "own_or_last err lastErr =
     (if errors_IsAny err [CtxCanceled, CtxDeadlineExceeded] \<and> lastErr \<noteq> None then lastErr else Some err)"

fun Handle_loop :: "(int \<Rightarrow> bool) \<Rightarrow> ctx \<Rightarrow> (int \<Rightarrow> 'w \<Rightarrow> (bool \<times> go_error option) \<times> int \<times> 'w) \<Rightarrow> nat \<Rightarrow>
    config \<Rightarrow> go_error option \<Rightarrow> int \<Rightarrow> 'w \<Rightarrow> go_error option \<times> int \<times> 'w" where
  "Handle_loop tie ctx fn 0 c lastErr now w = (lastErr, now, w)"
| "Handle_loop tie ctx fn (Suc n) c lastErr now w =
     (case fn now w of
        ((_, None), now', w') \<Rightarrow> (None, now', w')
      | ((shouldRetry, Some err), now', w') \<Rightarrow>
          (if \<not> shouldRetry then (own_or_last err lastErr, now', w')
           else if deadline_before ctx now' (sleep c) then (own_or_last err lastErr, now', w')
           else (case select_after tie ctx now' (sleep c) of
                   (True, now'') \<Rightarrow> (Some err, now'', w')
                 | (False, now'') \<Rightarrow> Handle_loop tie ctx fn n (next_sleep c) (Some err) now'' w')))"

definition Handle :: "(int \<Rightarrow> bool) \<Rightarrow> ctx \<Rightarrow> (int \<Rightarrow> 'w \<Rightarrow> (bool \<times> go_error option) \<times> int \<times> 'w) \<Rightarrow>
    Option list \<Rightarrow> int \<Rightarrow> 'w \<Rightarrow> go_error option \<times> int \<times> 'w" where
  "Handle tie ctx fn opts now w =
     (if \<not> CheckCtxValid ctx now then (ctx_Err ctx now, now, w)
      else let c = apply_opts opts in Handle_loop tie ctx fn (attempts c) c None now w)"

section \<open>Recording the calls\<close>

text \<open>\<open>logged fn\<close> behaves as \<open>fn\<close> and appends each result to a log kept beside the world.\<close>

definition logged :: "(int \<Rightarrow> 'w \<Rightarrow> 'r \<times> int \<times> 'w) \<Rightarrow> int \<Rightarrow> 'r list \<times> 'w \<Rightarrow> 'r \<times> int \<times> ('r list \<times> 'w)" where
  "logged fn now lw = (case fn now (snd lw) of (r, now', w') \<Rightarrow> (r, now', (fst lw @ [r], w')))"

lemma Combine_pair [simp]:
  "Combine [el, Some err] = Some (MultiErrors (case el of None \<Rightarrow> [err] | Some x \<Rightarrow> [x, err]))"
  "Combine [Some err, x] = Some (MultiErrors (err # (case x of None \<Rightarrow> [] | Some y \<Rightarrow> [y])))"
  by (auto simp: Combine_def List.map_filter_def Let_def split: option.splits)

text \<open>
  The shape of the results of the calls one run makes: at most \<open>n\<close> calls, at least one if any is
  allowed; every call but the last failed with an error that permits another attempt; and the run
  returns nil exactly when the last call did.
\<close>

definition call_log :: "nat \<Rightarrow> ('r \<Rightarrow> bool) \<Rightarrow> ('r \<Rightarrow> bool) \<Rightarrow> go_error option \<Rightarrow> 'r list \<Rightarrow> bool" where
  "call_log n failed again r rs \<longleftrightarrow>
     length rs \<le> n \<and> (0 < n \<longrightarrow> rs \<noteq> [])
     \<and> (\<forall>x \<in> set (butlast rs). failed x \<and> again x)
     \<and> (rs \<noteq> [] \<longrightarrow> (r = None \<longleftrightarrow> \<not> failed (last rs)))"

lemma call_log_single: "(r = None \<longleftrightarrow> \<not> failed x) \<Longrightarrow> call_log (Suc n) failed again r [x]"
  by (simp add: call_log_def)

lemma call_log_Cons:
  "call_log n failed again r rs \<Longrightarrow> failed x \<Longrightarrow> again x \<Longrightarrow> (rs = [] \<Longrightarrow> r \<noteq> None) \<Longrightarrow>
   call_log (Suc n) failed again r (x # rs)"
  by (auto simp: call_log_def)

fun recoverable_result :: "go_error option \<Rightarrow> bool" where
  "recoverable_result None = True"
| "recoverable_result (Some e) = IsRecoverable e"

lemma Do_loop_log:
  "Do_loop tie ctx (logged fn) n i c el now (ls, w) = (r, now', (ls', w')) \<Longrightarrow>
   \<exists>rs. ls' = ls @ rs \<and> call_log n (\<lambda>x. x \<noteq> None) recoverable_result r rs"
proof (induction n arbitrary: i c el now ls w)
  case (Suc n)
  obtain f now1 w1 where fn: "fn now w = (f, now1, w1)" by (cases "fn now w")
  show ?case
  proof (cases f)
    case None
    with Suc.prems fn show ?thesis
      by (intro exI [of _ "[None]"]) (auto simp: logged_def intro: call_log_single)
  next
    case (Some e)
    let ?err = "attempt_err i e"
    let ?el = "Combine [el, Some ?err]"
    have eq: "logged fn now (ls, w) = (Some e, now1, (ls @ [Some e], w1))"
      using fn Some by (simp add: logged_def)
    show ?thesis
    proof (cases "\<not> IsRecoverable ?err \<or> (case isRetryErr c of None \<Rightarrow> False | Some p \<Rightarrow> \<not> p ?err)
        \<or> deadline_before ctx now1 (sleep c) \<or> fst (select_after tie ctx now1 (sleep c))")
      case True
      then have "ls' = ls @ [Some e] \<and> r \<noteq> None"
        using Suc.prems eq by (auto simp: Let_def split: if_splits prod.splits bool.splits)
      then show ?thesis by (intro exI [of _ "[Some e]"]) (auto intro: call_log_single)
    next
      case False
      then obtain now2 where sel: "select_after tie ctx now1 (sleep c) = (False, now2)"
        by (cases "select_after tie ctx now1 (sleep c)") auto
      have rest: "Do_loop tie ctx (logged fn) n (Suc i) (next_sleep c) ?el now2 (ls @ [Some e], w1)
           = (r, now', (ls', w'))"
        using Suc.prems eq sel False by (simp add: Let_def)
      from Suc.IH [OF rest] obtain rs where rs: "ls' = (ls @ [Some e]) @ rs"
        "call_log n (\<lambda>x. x \<noteq> None) recoverable_result r rs" by blast
      moreover have "IsRecoverable e"
        using False by (simp add: IsRecoverable_def errUnrecoverable_def attempt_err_def)
      moreover have "rs = [] \<Longrightarrow> r \<noteq> None"
        using rest rs(2) by (cases n) (auto simp: call_log_def)
      ultimately show ?thesis by (intro exI [of _ "Some e # rs"]) (auto intro: call_log_Cons)
    qed
  qed
qed (auto simp: call_log_def)

fun handle_failed :: "bool \<times> go_error option \<Rightarrow> bool" where
  "handle_failed (_, e) = (e \<noteq> None)"

lemma own_or_last_not_None [simp]: "own_or_last err lastErr \<noteq> None"
  by (simp add: own_or_last_def)

lemma Handle_loop_log:
  "Handle_loop tie ctx (logged fn) n c lastErr now (ls, w) = (r, now', (ls', w')) \<Longrightarrow>
   \<exists>rs. ls' = ls @ rs \<and> call_log n handle_failed fst r rs
     \<and> (lastErr = None \<or> rs \<noteq> [] \<or> r = lastErr)
     \<and> (\<forall>e. r = Some e \<longrightarrow> lastErr = Some e \<or> Some e \<in> snd ` set rs)"
proof (induction n arbitrary: c lastErr now ls w)
  case (Suc n)
  obtain sr f now1 w1 where fn: "fn now w = ((sr, f), now1, w1)" by (metis surj_pair)
  then have eq: "logged fn now (ls, w) = ((sr, f), now1, (ls @ [(sr, f)], w1))"
    by (simp add: logged_def)
  show ?case
  proof (cases f)
    case None
    with Suc.prems eq show ?thesis
      by (intro exI [of _ "[(sr, None)]"]) (auto intro: call_log_single)
  next
    case (Some e)
    show ?thesis
    proof (cases "\<not> sr \<or> deadline_before ctx now1 (sleep c) \<or> fst (select_after tie ctx now1 (sleep c))")
      case True
      then have "ls' = ls @ [(sr, f)] \<and> r \<noteq> None \<and> (r = Some e \<or> r = lastErr)"
        using Suc.prems eq Some
        by (auto simp: own_or_last_def split: if_splits prod.splits bool.splits)
      with Some show ?thesis
        by (intro exI [of _ "[(sr, f)]"]) (auto intro: call_log_single)
    next
      case False
      then obtain now2 where sel: "select_after tie ctx now1 (sleep c) = (False, now2)"
        by (cases "select_after tie ctx now1 (sleep c)") auto
      have rest: "Handle_loop tie ctx (logged fn) n (next_sleep c) (Some e) now2 (ls @ [(sr, f)], w1)
           = (r, now', (ls', w'))"
        using Suc.prems eq sel False Some by simp
      from Suc.IH [OF rest] obtain rs where rs: "ls' = (ls @ [(sr, f)]) @ rs"
        "call_log n handle_failed fst r rs" "rs \<noteq> [] \<or> r = Some e"
        "\<forall>e'. r = Some e' \<longrightarrow> Some e = Some e' \<or> Some e' \<in> snd ` set rs" by auto
      with False Some show ?thesis
        by (intro exI [of _ "(sr, f) # rs"]) (auto intro!: call_log_Cons)
    qed
  qed
qed (auto simp: call_log_def)

section \<open>The back-off\<close>

text \<open>Below a cap of \<open>2 ^ 62\<close> nanoseconds, some 146 years, the doubling does not wrap.\<close>

abbreviation short :: "config \<Rightarrow> bool" where
  "short c \<equiv> 0 \<le> sleep c \<and> sleep c \<le> maxSleepTime c \<and> maxSleepTime c < 2 ^ 62"

lemma next_sleep_fields [simp]:
  "attempts (next_sleep c) = attempts c" "maxSleepTime (next_sleep c) = maxSleepTime c"
  "isRetryErr (next_sleep c) = isRetryErr c"
  by (auto simp: next_sleep_def Let_def)

lemma next_sleep_short: "short c \<Longrightarrow> sleep (next_sleep c) = min (2 * sleep c) (maxSleepTime c)"
  by (auto simp: next_sleep_def Let_def wrap64_id)

lemma sleep_iterate:
  assumes "short c"
  shows "sleep ((next_sleep ^^ k) c) = min (2 ^ k * sleep c) (maxSleepTime c)
    \<and> maxSleepTime ((next_sleep ^^ k) c) = maxSleepTime c"
proof (induction k)
  case (Suc k)
  have "short ((next_sleep ^^ k) c)" using Suc assms by simp
  from next_sleep_short [OF this] Suc
  have "sleep ((next_sleep ^^ Suc k) c) = min (2 * min (2 ^ k * sleep c) (maxSleepTime c)) (maxSleepTime c)" by simp
  also have "\<dots> = min (2 ^ Suc k * sleep c) (maxSleepTime c)"
    using assms by (auto simp: min_def)
  finally show ?case using Suc by simp
qed (use assms in auto)

text \<open>\<open>timed fn\<close> behaves as \<open>fn\<close> and appends the times at which each call begins and ends to a log kept
  beside the world; the gaps of such a log are the pauses between the calls.\<close>

definition timed :: "(int \<Rightarrow> 'w \<Rightarrow> 'r \<times> int \<times> 'w) \<Rightarrow> int \<Rightarrow> (int \<times> int) list \<times> 'w \<Rightarrow>
    'r \<times> int \<times> ((int \<times> int) list \<times> 'w)" where
  "timed fn now lw = (case fn now (snd lw) of (r, now', w') \<Rightarrow> (r, now', (fst lw @ [(now, now')], w')))"

fun gaps :: "(int \<times> int) list \<Rightarrow> int list" where
  "gaps (a # b # xs) = (fst b - snd a) # gaps (b # xs)"
| "gaps _ = []"

definition pauses :: "config \<Rightarrow> nat \<Rightarrow> int list" where
  "pauses c k = map (\<lambda>i. sleep ((next_sleep ^^ i) c)) [0..<k]"

lemma pauses_simps [simp]: "pauses c 0 = []" "pauses c (Suc k) = sleep c # pauses (next_sleep c) k"
  by (simp_all add: pauses_def upt_conv_Cons map_Suc_upt [symmetric] funpow_swap1 del: upt_Suc)

lemma select_after_fires: "select_after tie ctx now d = (False, now'') \<Longrightarrow> now'' = now + max 0 d"
  by (auto simp: select_after_def Let_def split: option.splits if_splits)

text \<open>Between two calls of one run the loop pauses for the sleep of that turn, however it ends.\<close>

lemma Do_loop_gaps:
  "Do_loop tie ctx (timed fn) n i c el now (cs, w) = (r, now', (cs', w')) \<Longrightarrow> short c \<Longrightarrow>
   \<exists>ds. cs' = cs @ ds \<and> (ds \<noteq> [] \<longrightarrow> fst (hd ds) = now) \<and> gaps ds = pauses c (length ds - 1)"
proof (induction n arbitrary: i c el now cs w)
  case (Suc n)
  obtain f now1 w1 where fn: "fn now w = (f, now1, w1)" by (cases "fn now w")
  then have eq: "timed fn now (cs, w) = (f, now1, (cs @ [(now, now1)], w1))" by (simp add: timed_def)
  have one: ?case if "cs' = cs @ [(now, now1)]"
    using that by (intro exI [of _ "[(now, now1)]"]) simp
  show ?case
  proof (cases f)
    case None
    with Suc.prems(1) eq one show ?thesis by auto
  next
    case (Some e)
    let ?err = "attempt_err i e"
    let ?el = "Combine [el, Some ?err]"
    show ?thesis
    proof (cases "\<not> IsRecoverable ?err \<or> (case isRetryErr c of None \<Rightarrow> False | Some p \<Rightarrow> \<not> p ?err)
        \<or> deadline_before ctx now1 (sleep c) \<or> fst (select_after tie ctx now1 (sleep c))")
      case True
      with Suc.prems(1) eq Some have "cs' = cs @ [(now, now1)]"
        by (auto simp: Let_def split: if_splits prod.splits bool.splits)
      then show ?thesis by (rule one)
    next
      case False
      then obtain now2 where sel: "select_after tie ctx now1 (sleep c) = (False, now2)"
        by (cases "select_after tie ctx now1 (sleep c)") auto
      have "now2 = now1 + sleep c" using select_after_fires [OF sel] Suc.prems(2) by simp
      have rest: "Do_loop tie ctx (timed fn) n (Suc i) (next_sleep c) ?el now2 (cs @ [(now, now1)], w1)
           = (r, now', (cs', w'))"
        using Suc.prems(1) eq sel False Some by (simp add: Let_def)
      have "short (next_sleep c)" using next_sleep_short [OF Suc.prems(2)] Suc.prems(2) by auto
      from Suc.IH [OF rest this] obtain ds where ds: "cs' = (cs @ [(now, now1)]) @ ds"
        "ds \<noteq> [] \<longrightarrow> fst (hd ds) = now2" "gaps ds = pauses (next_sleep c) (length ds - 1)" by blast
      with \<open>now2 = now1 + sleep c\<close> have "gaps ((now, now1) # ds) = pauses c (length ds)"
        by (cases ds) auto
      with ds(1) show ?thesis by (intro exI [of _ "(now, now1) # ds"]) auto
    qed
  qed
qed auto

lemma select_after_bound:
  "0 \<le> d \<Longrightarrow> now \<le> snd (select_after tie ctx now d) \<and> snd (select_after tie ctx now d) \<le> now + d"
  by (auto simp: select_after_def Let_def split: option.splits)

lemma Do_loop_time:
  assumes fn: "\<And>t u r t' u'. fn t u = (r, t', u') \<Longrightarrow> t' \<le> t + D" and "0 \<le> D"
  shows "Do_loop tie ctx fn n i c el now w = (r, now', w') \<Longrightarrow> short c \<Longrightarrow>
    now' \<le> now + int n * (D + maxSleepTime c)"
proof (induction n arbitrary: i c el now w)
  case (Suc n)
  let ?M = "maxSleepTime c"
  obtain f now1 w1 where f: "fn now w = (f, now1, w1)" by (metis surj_pair)
  have one: "now1 \<le> now + D" using fn [OF f] .
  obtain d now2 where sel: "select_after tie ctx now1 (sleep c) = (d, now2)" by fastforce
  have two: "now2 \<le> now1 + ?M"
    using select_after_bound [of "sleep c" now1 tie ctx] sel Suc.prems(2) by simp
  have nn: "0 \<le> int n * (D + ?M)" "0 \<le> ?M" using Suc.prems(2) \<open>0 \<le> D\<close> by simp_all
  have budget: "now + int (Suc n) * (D + ?M) = now + D + ?M + int n * (D + ?M)"
    by (simp add: algebra_simps)
  consider "now' = now1" | "now' = now2" | e where "f = Some e"
    "Do_loop tie ctx fn n (Suc i) (next_sleep c) (Combine [el, Some (attempt_err i e)]) now2 w1
       = (r, now', w')"
    using Suc.prems(1) f sel
    by (auto simp: Let_def simp del: Combine_pair split: option.splits if_splits bool.splits)
  then show ?case
  proof cases
    case (3 e)
    have "now' \<le> now2 + int n * (D + maxSleepTime (next_sleep c))"
      using Suc.IH [OF 3(2)] next_sleep_short [OF Suc.prems(2)] Suc.prems(2) by simp
    then have "now' \<le> now2 + int n * (D + ?M)" by simp
    with one two budget show ?thesis by linarith
  qed (use one two nn budget in linarith)+
qed simp

section \<open>Properties\<close>

text \<open>C18: a run of \<open>Do\<close> with a context that is already done makes no call and returns the context's
  error. Otherwise it makes between one and the configured number of calls, returns nil exactly when
  its last call returned nil, and goes on to another call only after an error that is not marked
  unrecoverable.\<close>

theorem Do_calls:
  "case Do tie ctx (logged fn) opts now ([], w) of (r, now', (rs, w')) \<Rightarrow>
     if CheckCtxValid ctx now
     then call_log (attempts (apply_opts opts)) (\<lambda>x. x \<noteq> None) recoverable_result r rs
     else rs = [] \<and> r = ctx_Err ctx now \<and> r \<noteq> None"
proof -
  obtain r now' rs w' where run: "Do tie ctx (logged fn) opts now ([], w) = (r, now', (rs, w'))"
    by (metis surj_pair)
  show ?thesis
    using run Do_loop_log [where ls = "[]" and fn = fn and r = r and ls' = rs and w' = w']
    by (auto simp: Do_def Let_def CheckCtxValid_def split: if_splits)
qed

text \<open>An error marked with \<open>Unrecoverable\<close> stays unrecoverable under any number of wrappings and
  combinations, so no attempt follows it.\<close>

theorem Unrecoverable_sticky:
  assumes "Some e \<in> set errs"
  shows "case (Unrecoverable err, Combine errs) of
      (Some u, Some m) \<Rightarrow> \<not> IsRecoverable u \<and> \<not> IsRecoverable (WrapErr s u)
        \<and> (IsRecoverable m \<longrightarrow> IsRecoverable e)
    | _ \<Rightarrow> False"
proof -
  obtain u where u: "Unrecoverable err = Some u" by (auto simp: Unrecoverable_def)
  have "errors_Is u errUnrecoverable"
    by (rule Combine_Is [OF u [unfolded Unrecoverable_def], of errUnrecoverable])
      (auto simp: errUnrecoverable_def)
  moreover obtain m where m: "Combine errs = Some m"
    using assms by (cases "Combine errs") (auto simp: Combine_def Let_def List.map_filter_def
        filter_empty_conv split: if_splits)
  ultimately show ?thesis
    using u Combine_Is [OF m assms, of errUnrecoverable]
    by (auto simp: IsRecoverable_def intro: errors_Is_WrapI)
qed

theorem Unrecoverable_sticky_witness:
  "\<not> IsRecoverable (WrapErr ''attempt'' (MultiErrors [CtxCanceled, errUnrecoverable]))"
  using Unrecoverable_sticky [where e = CtxCanceled and errs = "[Some CtxCanceled]"
      and err = "Some CtxCanceled" and s = "''attempt''"]
  by (simp add: Unrecoverable_def Combine_def List.map_filter_def)

text \<open>A run of \<open>Handle\<close> makes at most the configured number of calls, returns nil exactly when its
  last call did, goes on to another call only after a result that asked for it, and any error it
  returns is one of the errors its calls returned.\<close>

theorem Handle_calls:
  "case Handle tie ctx (logged fn) opts now ([], w) of (r, now', (rs, w')) \<Rightarrow>
     if CheckCtxValid ctx now
     then call_log (attempts (apply_opts opts)) handle_failed fst r rs
       \<and> (r = None \<or> r \<in> snd ` set rs)
     else rs = [] \<and> r = ctx_Err ctx now \<and> r \<noteq> None"
proof -
  obtain r now' rs w' where run: "Handle tie ctx (logged fn) opts now ([], w) = (r, now', (rs, w'))"
    by (metis surj_pair)
  show ?thesis
  proof (cases "CheckCtxValid ctx now")
    case True
    let ?c = "apply_opts opts"
    have "Handle_loop tie ctx (logged fn) (attempts ?c) ?c None now ([], w) = (r, now', (rs, w'))"
      using run True by (simp add: Handle_def Let_def)
    from Handle_loop_log [OF this] True run show ?thesis by (cases r) auto
  qed (use run in \<open>auto simp: Handle_def CheckCtxValid_def\<close>)
qed

text \<open>C19: the back-off of \<open>Do\<close> with the options the stream uses (attempts, sleep, maximal sleep), where the
  sleep is not negative and the cap, the larger of the maximal sleep and twice the sleep, stays below 146 years.
  Between its calls, whatever they return and however the run ends, \<open>Do\<close> pauses for the sleep doubled at each
  turn and capped; and if every call takes at most \<open>D\<close> the run ends within attempts times (\<open>D\<close> plus the
  cap).\<close>

theorem Do_backoff:
  assumes "0 \<le> s" and "max m (2 * s) < 2 ^ 62"
    and "0 \<le> D" and "\<And>t u r t' u'. fn t u = (r, t', u') \<Longrightarrow> t' \<le> t + D"
    and "Do tie ctx (timed fn) [Attempts n, Sleep s, MaxSleepTime m] now ([], w) = (r, now', (calls, w'))"
  shows "gaps calls = map (\<lambda>k. min (2 ^ k * s) (max m (2 * s))) [0..<length calls - 1]
    \<and> now' \<le> now + int n * (D + max m (2 * s))"
proof -
  let ?c = "apply_opts [Attempts n, Sleep s, MaxSleepTime m]"
  have w: "wrap64 (s * 2) = 2 * s" "wrap64 (2 * s) = 2 * s" using assms(1,2) by (simp_all add: wrap64_id)
  have c: "attempts ?c = n" "sleep ?c = s" "maxSleepTime ?c = max m (2 * s)"
    by (auto simp: apply_opts_def Attempts_def Sleep_def MaxSleepTime_def Let_def w)
  have sh: "short ?c" using assms(1,2) c by auto
  show ?thesis
  proof (cases "CheckCtxValid ctx now")
    case True
    with assms(5) have run: "Do_loop tie ctx (timed fn) n 0 ?c None now ([], w) = (r, now', (calls, w'))"
      by (simp add: Do_def Let_def c)
    have "gaps calls = pauses ?c (length calls - 1)" using Do_loop_gaps [OF run sh] by auto
    moreover have "now' \<le> now + int n * (D + maxSleepTime ?c)"
    proof (rule Do_loop_time [OF _ assms(3) run sh])
      fix t u r t' u'
      assume "timed fn t u = (r, t', u')"
      then show "t' \<le> t + D" using assms(4) by (auto simp: timed_def split: prod.splits)
    qed
    ultimately show ?thesis using sleep_iterate [OF sh] by (simp add: pauses_def c)
  next
    case False
    with assms(1,3,5) show ?thesis by (simp add: Do_def)
  qed
qed

definition failing_call :: "int \<Rightarrow> nat \<Rightarrow> go_error option \<times> int \<times> nat" where
  "failing_call t u = (Some CtxCanceled, t + 7, Suc u)"

theorem Do_backoff_witness:
  "case Do (\<lambda>_. False) Background (timed failing_call)
      [Attempts 20, Sleep 200000000, MaxSleepTime 5000000000] 0 ([], 0) of
     (r, now', (calls, w')) \<Rightarrow>
       gaps calls = map (\<lambda>k. min (2 ^ k * 200000000) 5000000000) [0..<length calls - 1]
       \<and> now' \<le> 0 + 20 * (7 + 5000000000)"
proof -
  obtain r now' calls w' where run: "Do (\<lambda>_. False) Background (timed failing_call)
      [Attempts 20, Sleep 200000000, MaxSleepTime 5000000000] 0 ([], 0) = (r, now', (calls, w'))"
    by (metis surj_pair)
  show ?thesis
    using Do_backoff [OF _ _ _ _ run, of 7] run by (auto simp: failing_call_def)
qed

end
