(* ===== verification/FieldData.thy ===== *)
theory FieldData
  imports Merr
begin

text \<open>
  Column data: the \<open>schemapb.FieldData\<close> values the code reads and builds, the row operations on them
  (pkg/util/typeutil/schema.go: \<open>AppendFieldData\<close>, \<open>DeleteFieldData\<close>, \<open>MergeFieldData\<close>, the primary
  key helpers) and the row counts (pkg/util/funcutil/func.go).

  \<open>ScalarField\<close>, \<open>VectorData\<close> and \<open>Field\<close> have one constructor per member of the protobuf \<open>oneof\<close>, and
  one for an unset \<open>oneof\<close>; a set member has a non-nil message. Floats are their bit patterns. A pointer
  that may be nil is an option.
\<close>

section \<open>Data\<close>

datatype DataType =
    DT_None | DT_Bool | DT_Int8 | DT_Int16 | DT_Int32 | DT_Int64 | DT_Float | DT_Double | DT_String
  | DT_VarChar | DT_Array | DT_JSON | DT_BinaryVector | DT_FloatVector | DT_Other int

datatype ScalarField =
    SF_None
  | BoolData "bool list"
  | IntData "int list"
  | LongData "int list"
  | FloatData "uint32 list"
  | DoubleData "uint64 list"
  | StringData "string list"
  | BytesData "bytes list"
  | ArrayData "ScalarField list" DataType
  | JsonData "bytes list"

datatype VectorData = VF_None | FloatVector "uint32 list" | BinaryVector bytes

datatype Field = F_None | Scalars ScalarField | Vectors int VectorData

record FieldData =
  fd_Type :: DataType
  fd_FieldName :: string
  fd_FieldId :: int
  fd_IsDynamic :: bool
  fd_Field :: Field

datatype IDs = IDs_None | IntId "int list" | StrId "string list"

section \<open>Row counts\<close>

definition GetNumRowsOfFloatVectorField :: "uint32 list \<Rightarrow> int \<Rightarrow> nat res" where
  "GetNumRowsOfFloatVectorField fDatas dim =
     (let l = int (length fDatas)
      in if dim \<le> 0 then Err (ErrorString ''dim should be greater than 0'')
         else if l smod dim \<noteq> 0 then Err (ErrorString ''the length of float data should divide the dim'')
         else Ok (nat (l sdiv dim)))"

definition GetNumRowsOfBinaryVectorField :: "bytes \<Rightarrow> int \<Rightarrow> nat res" where
  "GetNumRowsOfBinaryVectorField bDatas dim =
     (let l = int (length bDatas)
      in if dim \<le> 0 then Err (ErrorString ''dim should be greater than 0'')
         else if dim smod 8 \<noteq> 0 then Err (ErrorString ''dim should divide 8'')
         else if (8 * l) smod dim \<noteq> 0 then Err (ErrorString ''the num of all bits should divide the dim'')
         else Ok (nat ((8 * l) sdiv dim)))"

definition not_supported :: "'a res" where
  "not_supported = Err (ErrorString ''is not supported now'')"

fun GetNumRowOfFieldData :: "FieldData \<Rightarrow> nat res" where
  "GetNumRowOfFieldData fieldData =
     (case fd_Field fieldData of
        Scalars s \<Rightarrow>
          (case s of
             BoolData xs \<Rightarrow> Ok (length xs)
           | IntData xs \<Rightarrow> Ok (length xs)
           | LongData xs \<Rightarrow> Ok (length xs)
           | FloatData xs \<Rightarrow> Ok (length xs)
           | DoubleData xs \<Rightarrow> Ok (length xs)
           | StringData xs \<Rightarrow> Ok (length xs)
           | ArrayData xs _ \<Rightarrow> Ok (length xs)
           | JsonData xs \<Rightarrow> Ok (length xs)
           | _ \<Rightarrow> not_supported)
      | Vectors dim v \<Rightarrow>
          (case v of
             FloatVector fs \<Rightarrow> GetNumRowsOfFloatVectorField fs dim
           | BinaryVector bs \<Rightarrow> GetNumRowsOfBinaryVectorField bs dim
           | VF_None \<Rightarrow> not_supported)
      | F_None \<Rightarrow> not_supported)"

section \<open>Appending one row\<close>

text \<open>
  The data a \<open>Get\<close> accessor of a scalar or vector field gives: the list of the member asked for, empty
  where the field holds another member (the accessor returns nil).
\<close>

fun GetBoolData :: "ScalarField \<Rightarrow> bool list" where
  "GetBoolData (BoolData xs) = xs" | "GetBoolData _ = []"
fun GetIntData :: "ScalarField \<Rightarrow> int list" where
  "GetIntData (IntData xs) = xs" | "GetIntData _ = []"
fun GetLongData :: "ScalarField \<Rightarrow> int list" where
  "GetLongData (LongData xs) = xs" | "GetLongData _ = []"
fun GetFloatData :: "ScalarField \<Rightarrow> uint32 list" where
  "GetFloatData (FloatData xs) = xs" | "GetFloatData _ = []"
fun GetDoubleData :: "ScalarField \<Rightarrow> uint64 list" where
  "GetDoubleData (DoubleData xs) = xs" | "GetDoubleData _ = []"
fun GetStringData :: "ScalarField \<Rightarrow> string list" where
  "GetStringData (StringData xs) = xs" | "GetStringData _ = []"
fun GetBytesData :: "ScalarField \<Rightarrow> bytes list" where
  "GetBytesData (BytesData xs) = xs" | "GetBytesData _ = []"
fun GetJsonData :: "ScalarField \<Rightarrow> bytes list" where
  "GetJsonData (JsonData xs) = xs" | "GetJsonData _ = []"
fun GetFloatVector :: "VectorData \<Rightarrow> uint32 list" where
  "GetFloatVector (FloatVector xs) = xs" | "GetFloatVector _ = []"
fun GetBinaryVector :: "VectorData \<Rightarrow> bytes" where
  "GetBinaryVector (BinaryVector xs) = xs" | "GetBinaryVector _ = []"

text \<open>
  The switch over the source column's scalar data: the element at \<open>idx\<close> is appended to the destination's
  data of the same kind, or starts it where the destination holds none of that kind. The second
  component is the size the code adds, the \<open>unsafe.Sizeof\<close> of one element on a 64-bit platform.
\<close>

fun append_scalar :: "ScalarField \<Rightarrow> ScalarField \<Rightarrow> int \<Rightarrow> (ScalarField \<times> int) res" where
  "append_scalar d (BoolData xs) idx =
     bindO (go_index xs idx) (\<lambda>x. Ok (BoolData (GetBoolData d @ [x]), 1))"
| "append_scalar d (IntData xs) idx =
     bindO (go_index xs idx) (\<lambda>x. Ok (IntData (GetIntData d @ [x]), 4))"
| "append_scalar d (LongData xs) idx =
     bindO (go_index xs idx) (\<lambda>x. Ok (LongData (GetLongData d @ [x]), 8))"
| "append_scalar d (FloatData xs) idx =
     bindO (go_index xs idx) (\<lambda>x. Ok (FloatData (GetFloatData d @ [x]), 4))"
| "append_scalar d (DoubleData xs) idx =
     bindO (go_index xs idx) (\<lambda>x. Ok (DoubleData (GetDoubleData d @ [x]), 8))"
| "append_scalar d (StringData xs) idx =
     bindO (go_index xs idx) (\<lambda>x. Ok (StringData (GetStringData d @ [x]), 16))"
| "append_scalar d (ArrayData xs t) idx =
     bindO (go_index xs idx) (\<lambda>x.
       Ok (case d of ArrayData ys t' \<Rightarrow> ArrayData (ys @ [x]) t' | _ \<Rightarrow> ArrayData [x] t, 8))"
| "append_scalar d (JsonData xs) idx =
     bindO (go_index xs idx) (\<lambda>x. Ok (JsonData (GetJsonData d @ [x]), 24))"
| "append_scalar d _ idx = Ok (d, 0)"

text \<open>The same for vectors: a row is \<open>dim\<close> floats, or \<open>dim / 8\<close> bytes.\<close>

fun append_vector :: "VectorData \<Rightarrow> int \<Rightarrow> VectorData \<Rightarrow> int \<Rightarrow> (VectorData \<times> int) res" where
  "append_vector d dim (BinaryVector bs) idx =
     bindO (go_slice bs (idx * (dim sdiv 8)) ((idx + 1) * (dim sdiv 8))) (\<lambda>row.
       Ok (BinaryVector (GetBinaryVector d @ row), 24))"
| "append_vector d dim (FloatVector fs) idx =
     bindO (go_slice fs (idx * dim) ((idx + 1) * dim)) (\<lambda>row.
       Ok (FloatVector (GetFloatVector d @ row), 24))"
| "append_vector d dim VF_None idx = Ok (d, 0)"

definition append_field :: "FieldData option \<Rightarrow> FieldData \<Rightarrow> int \<Rightarrow> (FieldData option \<times> int) res" where
  "append_field dst fieldData idx =
     (case fd_Field fieldData of
        Scalars s \<Rightarrow>
          (let d = (case dst of
                      Some fd \<Rightarrow> (case fd_Field fd of Scalars _ \<Rightarrow> fd | _ \<Rightarrow> fieldData\<lparr>fd_Field := Scalars SF_None\<rparr>)
                    | None \<Rightarrow> fieldData\<lparr>fd_Field := Scalars SF_None\<rparr>);
               ds = (case fd_Field d of Scalars x \<Rightarrow> x | _ \<Rightarrow> SF_None)
           in bindO (append_scalar ds s idx) (\<lambda>(ds', n). Ok (Some (d\<lparr>fd_Field := Scalars ds'\<rparr>), n)))
      | Vectors dim v \<Rightarrow>
          (let fresh = fieldData\<lparr>fd_IsDynamic := False, fd_Field := Vectors dim VF_None\<rparr>;
               d = (case dst of
                      Some fd \<Rightarrow> (case fd_Field fd of Vectors _ _ \<Rightarrow> fd | _ \<Rightarrow> fresh)
                    | None \<Rightarrow> fresh);
               (ddim, dv) = (case fd_Field d of Vectors k x \<Rightarrow> (k, x) | _ \<Rightarrow> (dim, VF_None))
           in bindO (append_vector dv dim v idx) (\<lambda>(dv', n). Ok (Some (d\<lparr>fd_Field := Vectors ddim dv'\<rparr>), n)))
      | F_None \<Rightarrow> Ok (dst, 0))"

text \<open>
  \<open>AppendFieldData\<close> walks the source columns; the i-th column is appended to the i-th entry of the
  destination, which must exist unless the source column holds no data.
\<close>

fun AppendFieldData :: "FieldData option list \<Rightarrow> FieldData list \<Rightarrow> int \<Rightarrow> (FieldData option list \<times> int) res" where
  "AppendFieldData dst [] idx = Ok (dst, 0)"
| "AppendFieldData [] (s # ss) idx =
     (if fd_Field s = F_None then AppendFieldData [] ss idx else Panic ''index out of range'')"
| "AppendFieldData (d # ds) (s # ss) idx =
     bindO (append_field d s idx) (\<lambda>(d', n).
       bindO (AppendFieldData ds ss idx) (\<lambda>(ds', m). Ok (d' # ds', n + m)))"

section \<open>Removing the row appended last\<close>

definition drop_last_n :: "'a list \<Rightarrow> int \<Rightarrow> 'a list res" where
  "drop_last_n xs n = go_slice xs 0 (int (length xs) - n)"

fun delete_scalar :: "ScalarField \<Rightarrow> ScalarField res" where
  "delete_scalar (BoolData xs) = bindO (drop_last_n xs 1) (\<lambda>ys. Ok (BoolData ys))"
| "delete_scalar (IntData xs) = bindO (drop_last_n xs 1) (\<lambda>ys. Ok (IntData ys))"
| "delete_scalar (LongData xs) = bindO (drop_last_n xs 1) (\<lambda>ys. Ok (LongData ys))"
| "delete_scalar (FloatData xs) = bindO (drop_last_n xs 1) (\<lambda>ys. Ok (FloatData ys))"
| "delete_scalar (DoubleData xs) = bindO (drop_last_n xs 1) (\<lambda>ys. Ok (DoubleData ys))"
| "delete_scalar (StringData xs) = bindO (drop_last_n xs 1) (\<lambda>ys. Ok (StringData ys))"
| "delete_scalar (JsonData xs) = bindO (drop_last_n xs 1) (\<lambda>ys. Ok (JsonData ys))"
| "delete_scalar s = Ok s"

fun delete_vector :: "int \<Rightarrow> VectorData \<Rightarrow> VectorData res" where
  "delete_vector dim (BinaryVector bs) = bindO (drop_last_n bs (dim sdiv 8)) (\<lambda>ys. Ok (BinaryVector ys))"
| "delete_vector dim (FloatVector fs) = bindO (drop_last_n fs dim) (\<lambda>ys. Ok (FloatVector ys))"
| "delete_vector dim VF_None = Ok VF_None"

fun DeleteFieldData :: "FieldData option list \<Rightarrow> FieldData option list res" where
  "DeleteFieldData [] = Ok []"
| "DeleteFieldData (None # ds) = Panic ''nil pointer dereference''"
| "DeleteFieldData (Some fd # ds) =
     bindO (case fd_Field fd of
              Scalars s \<Rightarrow> bindO (delete_scalar s) (\<lambda>s'. Ok (Scalars s'))
            | Vectors dim v \<Rightarrow> bindO (delete_vector dim v) (\<lambda>v'. Ok (Vectors dim v'))
            | F_None \<Rightarrow> Ok F_None) (\<lambda>f.
       bindO (DeleteFieldData ds) (\<lambda>ds'. Ok (Some (fd\<lparr>fd_Field := f\<rparr>) # ds')))"

section \<open>Primary keys\<close>

text \<open>A nil \<open>IDs\<close> pointer is dereferenced, so it panics.\<close>

fun GetSizeOfIDs :: "IDs option \<Rightarrow> nat res" where
  "GetSizeOfIDs None = Panic ''nil pointer dereference''"
| "GetSizeOfIDs (Some IDs_None) = Ok 0"
| "GetSizeOfIDs (Some (IntId xs)) = Ok (length xs)"
| "GetSizeOfIDs (Some (StrId xs)) = Ok (length xs)"

section \<open>Columns and their first rows\<close>

fun take_scalar :: "nat \<Rightarrow> ScalarField \<Rightarrow> ScalarField" where
  "take_scalar k (BoolData xs) = BoolData (take k xs)"
| "take_scalar k (IntData xs) = IntData (take k xs)"
| "take_scalar k (LongData xs) = LongData (take k xs)"
| "take_scalar k (FloatData xs) = FloatData (take k xs)"
| "take_scalar k (DoubleData xs) = DoubleData (take k xs)"
| "take_scalar k (StringData xs) = StringData (take k xs)"
| "take_scalar k (BytesData xs) = BytesData (take k xs)"
| "take_scalar k (ArrayData xs t) = ArrayData (take k xs) t"
| "take_scalar k (JsonData xs) = JsonData (take k xs)"
| "take_scalar k SF_None = SF_None"

fun take_vector :: "nat \<Rightarrow> int \<Rightarrow> VectorData \<Rightarrow> VectorData" where
  "take_vector k dim (FloatVector fs) = FloatVector (take (k * nat dim) fs)"
| "take_vector k dim (BinaryVector bs) = BinaryVector (take (k * nat (dim div 8)) bs)"
| "take_vector k dim VF_None = VF_None"

text \<open>The column with the first \<open>k\<close> rows; a vector column built by \<open>AppendFieldData\<close> is not marked
  dynamic.\<close>

definition take_field :: "nat \<Rightarrow> FieldData \<Rightarrow> FieldData" where
  "take_field k fd = (case fd_Field fd of
     Scalars s \<Rightarrow> fd\<lparr>fd_Field := Scalars (take_scalar k s)\<rparr>
   | Vectors dim v \<Rightarrow> fd\<lparr>fd_IsDynamic := False, fd_Field := Vectors dim (take_vector k dim v)\<rparr>
   | F_None \<Rightarrow> fd)"

lemma float_rows:
  "GetNumRowsOfFloatVectorField fs dim = Ok n \<longleftrightarrow> 0 < dim \<and> length fs = n * nat dim"
proof (cases "0 < dim")
  case True
  then obtain k where k: "dim = int k" "0 < k" using pos_int_cases by blast
  then have "GetNumRowsOfFloatVectorField fs dim = Ok n \<longleftrightarrow>
      length fs mod k = 0 \<and> length fs div k = n"
    by (auto simp: GetNumRowsOfFloatVectorField_def Let_def smod_nonneg sdiv_nonneg
        zmod_int [symmetric] zdiv_int [symmetric])
  also have "\<dots> \<longleftrightarrow> length fs = n * k" using k(2) by auto
  finally show ?thesis using k by simp
qed (simp add: GetNumRowsOfFloatVectorField_def)

lemma binary_rows:
  "GetNumRowsOfBinaryVectorField bs dim = Ok n \<longleftrightarrow>
     0 < dim \<and> dim mod 8 = 0 \<and> length bs = n * nat (dim div 8)"
proof (cases "0 < dim \<and> dim mod 8 = 0")
  case True
  then obtain j where j: "dim = 8 * j" by (auto elim: dvdE [OF mod_0_imp_dvd])
  with True obtain k where "j = int k" "0 < k" using pos_int_cases [of j] by auto
  with j have k: "dim = 8 * int k" "0 < k" by simp_all
  then have "GetNumRowsOfBinaryVectorField bs dim = Ok n \<longleftrightarrow>
      (8 * int (length bs)) mod (8 * int k) = 0 \<and> nat ((8 * int (length bs)) div (8 * int k)) = n"
    by (auto simp: GetNumRowsOfBinaryVectorField_def Let_def smod_nonneg sdiv_nonneg)
  also have "\<dots> \<longleftrightarrow> int (length bs) mod int k = 0 \<and> nat (int (length bs) div int k) = n"
    by (simp add: mult_mod_right [symmetric])
  also have "\<dots> \<longleftrightarrow> length bs mod k = 0 \<and> length bs div k = n"
    by (simp add: zmod_int [symmetric] zdiv_int [symmetric])
  also have "\<dots> \<longleftrightarrow> length bs = n * k" using k(2) by auto
  finally show ?thesis using k by simp
qed (auto simp: GetNumRowsOfBinaryVectorField_def Let_def smod_nonneg)


text \<open>What appending a row does to a column that holds the first \<open>k\<close> rows.\<close>

lemma append_scalar_take:
  assumes "GetNumRowOfFieldData fd = Ok n" and "fd_Field fd = Scalars s" and "k < n"
  shows "\<exists>sz. append_scalar (take_scalar k s) s (int k) = Ok (take_scalar (Suc k) s, sz) \<and> 0 < sz"
  using assms by (cases s) (auto simp: not_supported_def take_Suc_snoc)

lemma append_scalar_first:
  assumes "GetNumRowOfFieldData fd = Ok n" and "fd_Field fd = Scalars s" and "0 < n"
  shows "\<exists>sz. append_scalar SF_None s 0 = Ok (take_scalar 1 s, sz) \<and> 0 < sz"
  using assms by (cases s) (auto simp: not_supported_def go_index_def take_Suc_conv_app_nth)

lemma go_slice_row:
  assumes "length xs = n * m" and "k < n"
  shows "go_slice xs (int k * int m) ((int k + 1) * int m) = Ok (take m (drop (k * m) xs))"
proof -
  have "(Suc k) * m \<le> n * m" using assms(2) by (intro mult_le_mono1) simp
  then have "(int k + 1) * int m \<le> int (length xs)"
    using assms(1) by (metis of_nat_Suc of_nat_le_iff of_nat_mult add.commute)
  moreover have "nat ((int k + 1) * int m) = Suc k * m" "nat (int k * int m) = k * m"
    by (metis nat_int of_nat_Suc of_nat_mult add.commute, metis nat_int of_nat_mult)
  ultimately show ?thesis by (simp add: go_slice_def mult_right_mono)
qed

lemma take_row_snoc: "take (k * m) xs @ take m (drop (k * m) xs) = take (Suc k * m) xs"
  by (metis add.commute mult_Suc take_add)

lemma append_vector_take:
  assumes "GetNumRowOfFieldData fd = Ok n" and "fd_Field fd = Vectors dim v" and "k < n"
  shows "append_vector (take_vector k dim v) dim v (int k) = Ok (take_vector (Suc k) dim v, 24)"
    "k = 0 \<Longrightarrow> append_vector VF_None dim v (int k) = Ok (take_vector (Suc k) dim v, 24)"
proof -
  consider fs where "v = FloatVector fs" "0 < dim" "length fs = n * nat dim"
    | bs where "v = BinaryVector bs" "0 < dim" "dim mod 8 = 0" "length bs = n * nat (dim div 8)"
    using assms by (cases v) (auto simp: not_supported_def float_rows binary_rows)
  then have "append_vector d dim v (int k) = Ok (take_vector (Suc k) dim v, 24)"
    if "d = take_vector k dim v \<or> (k = 0 \<and> d = VF_None)" for d
  proof cases
    case (1 fs)
    then have "(go_slice fs (int k * dim) ((int k + 1) * dim) :: uint32 list res)
        = Ok (take (nat dim) (drop (k * nat dim) fs))"
      using go_slice_row [of fs n "nat dim" k, where 'b = go_error] assms(3) by simp
    then show ?thesis
      using 1(1) that take_row_snoc [of k "nat dim" fs] by auto
  next
    case (2 bs)
    then have "(go_slice bs (int k * (dim sdiv 8)) ((int k + 1) * (dim sdiv 8)) :: bytes res)
        = Ok (take (nat (dim div 8)) (drop (k * nat (dim div 8)) bs))"
      using go_slice_row [of bs n "nat (dim div 8)" k, where 'b = go_error] assms(3)
      by (simp add: sdiv_nonneg pos_imp_zdiv_nonneg_iff)
    then show ?thesis
      using 2(1) that take_row_snoc [of k "nat (dim div 8)" bs] by auto
  qed
  then show "append_vector (take_vector k dim v) dim v (int k) = Ok (take_vector (Suc k) dim v, 24)"
    "k = 0 \<Longrightarrow> append_vector VF_None dim v (int k) = Ok (take_vector (Suc k) dim v, 24)"
    by blast+
qed

lemma append_field_take:
  assumes "GetNumRowOfFieldData fd = Ok n" and "k < n"
  shows "\<exists>sz. append_field (if k = 0 then None else Some (take_field k fd)) fd (int k)
     = Ok (Some (take_field (Suc k) fd), sz) \<and> 0 < sz"
proof (cases "fd_Field fd")
  case (Scalars s)
  with append_scalar_take [OF assms(1) Scalars assms(2)] append_scalar_first [OF assms(1) Scalars]
  show ?thesis using assms(2) by (cases "k = 0") (auto simp: append_field_def take_field_def)
next
  case (Vectors dim v)
  with append_vector_take [OF assms(1) Vectors assms(2)]
  show ?thesis by (cases "k = 0") (auto simp: append_field_def take_field_def)
qed (use assms in \<open>simp add: not_supported_def\<close>)

lemma take_field_rows:
  assumes "GetNumRowOfFieldData fd = Ok n" and "k \<le> n"
  shows "GetNumRowOfFieldData (take_field k fd) = Ok k"
proof (cases "fd_Field fd")
  case (Scalars s)
  with assms show ?thesis by (cases s) (auto simp: take_field_def not_supported_def)
next
  case (Vectors dim v)
  with assms show ?thesis
    by (cases v) (auto simp: take_field_def not_supported_def float_rows binary_rows mult_le_mono1)
qed (use assms in \<open>simp add: not_supported_def\<close>)

lemma take_field_all:
  assumes "GetNumRowOfFieldData fd = Ok n"
  shows "take_field n fd = (case fd_Field fd of Vectors _ _ \<Rightarrow> fd\<lparr>fd_IsDynamic := False\<rparr> | _ \<Rightarrow> fd)"
proof (cases "fd_Field fd")
  case (Scalars s)
  with assms show ?thesis by (cases s) (auto simp: take_field_def not_supported_def)
next
  case (Vectors dim v)
  with assms show ?thesis
    by (cases v) (auto simp: take_field_def not_supported_def float_rows binary_rows)
qed (use assms in \<open>simp add: not_supported_def\<close>)

text \<open>The lists of columns: every column has \<open>n\<close> rows.\<close>

definition aligned :: "nat \<Rightarrow> FieldData list \<Rightarrow> bool" where
  "aligned n fds \<longleftrightarrow> (\<forall>fd \<in> set fds. GetNumRowOfFieldData fd = Ok n)"

lemma aligned_simps [simp]:
  "aligned n []" "aligned n (fd # fds) \<longleftrightarrow> GetNumRowOfFieldData fd = Ok n \<and> aligned n fds"
  by (simp_all add: aligned_def)

definition first_rows :: "nat \<Rightarrow> FieldData list \<Rightarrow> FieldData option list" where
  "first_rows k fds = (if k = 0 then replicate (length fds) None else map (\<lambda>fd. Some (take_field k fd)) fds)"

lemma AppendFieldData_take:
  "aligned n fds \<Longrightarrow> k < n \<Longrightarrow>
   \<exists>sz. AppendFieldData (first_rows k fds) fds (int k) = Ok (first_rows (Suc k) fds, sz) \<and> 0 \<le> sz"
proof (induction fds)
  case (Cons fd fds)
  from Cons obtain sz where
    IH: "AppendFieldData (first_rows k fds) fds (int k) = Ok (first_rows (Suc k) fds, sz)" "0 \<le> sz"
    by auto
  from append_field_take [of fd n k] Cons.prems obtain sz' where
    "append_field (if k = 0 then None else Some (take_field k fd)) fd (int k)
      = Ok (Some (take_field (Suc k) fd), sz')" "0 < sz'" by auto
  with IH show ?case by (cases "k = 0") (auto simp: first_rows_def)
qed (simp add: first_rows_def)

lemma AppendFieldData_prefix:
  "aligned n fds \<Longrightarrow> k \<le> n \<Longrightarrow>
   foldO (\<lambda>dst i. bindO (AppendFieldData dst fds (int i)) (\<lambda>(dst', _). Ok dst'))
     (replicate (length fds) None) [0..<k] = (Ok (first_rows k fds) :: FieldData option list res)"
proof (induction k)
  case (Suc k)
  with AppendFieldData_take [of n fds k] show ?case by (auto simp: foldO_append)
qed (simp add: first_rows_def)

section \<open>Single rows\<close>

text \<open>The column that holds the \<open>k\<close>-th row alone.\<close>

fun row_scalar :: "nat \<Rightarrow> ScalarField \<Rightarrow> ScalarField" where
  "row_scalar k (BoolData xs) = BoolData [xs ! k]"
| "row_scalar k (IntData xs) = IntData [xs ! k]"
| "row_scalar k (LongData xs) = LongData [xs ! k]"
| "row_scalar k (FloatData xs) = FloatData [xs ! k]"
| "row_scalar k (DoubleData xs) = DoubleData [xs ! k]"
| "row_scalar k (StringData xs) = StringData [xs ! k]"
| "row_scalar k (BytesData xs) = BytesData [xs ! k]"
| "row_scalar k (ArrayData xs t) = ArrayData [xs ! k] t"
| "row_scalar k (JsonData xs) = JsonData [xs ! k]"
| "row_scalar k SF_None = SF_None"

fun row_vector :: "nat \<Rightarrow> int \<Rightarrow> VectorData \<Rightarrow> VectorData" where
  "row_vector k dim (FloatVector fs) = FloatVector (take (nat dim) (drop (k * nat dim) fs))"
| "row_vector k dim (BinaryVector bs) =
     BinaryVector (take (nat (dim div 8)) (drop (k * nat (dim div 8)) bs))"
| "row_vector k dim VF_None = VF_None"

definition row_field :: "nat \<Rightarrow> FieldData \<Rightarrow> FieldData" where
  "row_field k fd = (case fd_Field fd of
     Scalars s \<Rightarrow> fd\<lparr>fd_Field := Scalars (row_scalar k s)\<rparr>
   | Vectors dim v \<Rightarrow> fd\<lparr>fd_IsDynamic := False, fd_Field := Vectors dim (row_vector k dim v)\<rparr>
   | F_None \<Rightarrow> fd)"

lemma append_scalar_row:
  assumes "GetNumRowOfFieldData fd = Ok n" and "fd_Field fd = Scalars s" and "k < n"
  shows "\<exists>sz. append_scalar SF_None s (int k) = Ok (row_scalar k s, sz)"
  using assms by (cases s) (auto simp: not_supported_def)

lemma append_vector_row:
  assumes "GetNumRowOfFieldData fd = Ok n" and "fd_Field fd = Vectors dim v" and "k < n"
  shows "append_vector VF_None dim v (int k) = Ok (row_vector k dim v, 24)"
proof -
  consider fs where "v = FloatVector fs" "0 < dim" "length fs = n * nat dim"
    | bs where "v = BinaryVector bs" "0 < dim" "dim mod 8 = 0" "length bs = n * nat (dim div 8)"
    using assms by (cases v) (auto simp: not_supported_def float_rows binary_rows)
  then show ?thesis
  proof cases
    case (1 fs)
    then show ?thesis
      using go_slice_row [of fs n "nat dim" k, where 'b = go_error] assms(3) by simp
  next
    case (2 bs)
    then show ?thesis
      using go_slice_row [of bs n "nat (dim div 8)" k, where 'b = go_error] assms(3)
      by (simp add: sdiv_nonneg pos_imp_zdiv_nonneg_iff)
  qed
qed

lemma append_field_row:
  assumes "GetNumRowOfFieldData fd = Ok n" and "k < n"
  shows "\<exists>sz. append_field None fd (int k) = Ok (Some (row_field k fd), sz)"
proof (cases "fd_Field fd")
  case (Scalars s)
  with append_scalar_row [OF assms(1) Scalars assms(2)] show ?thesis
    by (auto simp: append_field_def row_field_def)
next
  case (Vectors dim v)
  with append_vector_row [OF assms(1) Vectors assms(2)] show ?thesis
    by (auto simp: append_field_def row_field_def)
qed (use assms in \<open>simp add: not_supported_def\<close>)

lemma AppendFieldData_row:
  "aligned n fds \<Longrightarrow> k < n \<Longrightarrow>
   \<exists>sz. AppendFieldData (replicate (length fds) None) fds (int k) = Ok (map (Some \<circ> row_field k) fds, sz)"
proof (induction fds)
  case (Cons fd fds)
  then obtain sz where "append_field None fd (int k) = Ok (Some (row_field k fd), sz)"
    using append_field_row [of fd n k] by auto
  with Cons show ?case by auto
qed simp

lemma row_length_le: "k < n \<Longrightarrow> (m::nat) \<le> n * m - k * m"
  by (metis Suc_leI diff_mult_distrib less_eq_Suc_le mult.commute mult_le_mono1 mult_1 zero_less_diff One_nat_def)

lemma row_field_rows:
  assumes "GetNumRowOfFieldData fd = Ok n" and "k < n"
  shows "GetNumRowOfFieldData (row_field k fd) = Ok 1"
proof (cases "fd_Field fd")
  case (Scalars s)
  with assms show ?thesis by (cases s) (simp_all add: row_field_def not_supported_def)
next
  case (Vectors dim v)
  with assms row_length_le [of k n "nat dim"] row_length_le [of k n "nat (dim div 8)"] show ?thesis
    by (cases v) (auto simp: row_field_def not_supported_def float_rows binary_rows)
qed (use assms in \<open>simp add: not_supported_def\<close>)

section \<open>Properties\<close>

text \<open>Starting from empty destinations and appending the rows 0, 1, ... of columns that all have
  \<open>n > 0\<close> rows never panics and rebuilds the columns exactly (a vector column loses its dynamic
  mark), and after \<open>k\<close> appends every column has \<open>k\<close> rows.\<close>

theorem AppendFieldData_rebuilds:
  assumes "aligned n fds" and "0 < n" and "0 < k" and "k \<le> n"
  shows "\<exists>cols.
      foldO (\<lambda>dst i. bindO (AppendFieldData dst fds (int i)) (\<lambda>(dst', _). Ok dst'))
        (replicate (length fds) None) [0..<k] = (Ok (map Some cols) :: FieldData option list res)
    \<and> aligned k cols
    \<and> (k < n \<or> cols = map (\<lambda>fd. case fd_Field fd of Vectors _ _ \<Rightarrow> fd\<lparr>fd_IsDynamic := False\<rparr> | _ \<Rightarrow> fd) fds)"
proof (intro exI [of _ "map (take_field k) fds"] conjI)
  show "foldO (\<lambda>dst i. bindO (AppendFieldData dst fds (int i)) (\<lambda>(dst', _). Ok dst'))
      (replicate (length fds) None) [0..<k]
      = (Ok (map Some (map (take_field k) fds)) :: FieldData option list res)"
    using AppendFieldData_prefix [OF assms(1,4)] assms(3) by (simp add: first_rows_def)
  show "aligned k (map (take_field k) fds)"
    using assms by (auto simp: aligned_def intro: take_field_rows simp del: GetNumRowOfFieldData.simps)
  show "k < n \<or> map (take_field k) fds =
      map (\<lambda>fd. case fd_Field fd of Vectors _ _ \<Rightarrow> fd\<lparr>fd_IsDynamic := False\<rparr> | _ \<Rightarrow> fd) fds"
    using assms by (auto simp: aligned_def take_field_all simp del: GetNumRowOfFieldData.simps)
qed

definition sample_cols :: "FieldData list" where
  "sample_cols =
     [\<lparr>fd_Type = DT_Int64, fd_FieldName = ''pk'', fd_FieldId = 100, fd_IsDynamic = False,
       fd_Field = Scalars (LongData [7, 8])\<rparr>,
      \<lparr>fd_Type = DT_FloatVector, fd_FieldName = ''vec'', fd_FieldId = 101, fd_IsDynamic = False,
       fd_Field = Vectors 2 (FloatVector [1, 2, 3, 4])\<rparr>]"

lemma aligned_sample: "aligned 2 sample_cols"
  by (simp add: sample_cols_def float_rows)

theorem AppendFieldData_rebuilds_witness:
  "foldO (\<lambda>dst i. bindO (AppendFieldData dst sample_cols (int i)) (\<lambda>(dst', _). Ok dst'))
     (replicate (length sample_cols) None) [0..<2] = (Ok (map Some sample_cols) :: FieldData option list res)"
proof -
  have "map (\<lambda>fd. case fd_Field fd of Vectors _ _ \<Rightarrow> fd\<lparr>fd_IsDynamic := False\<rparr> | _ \<Rightarrow> fd) sample_cols
      = sample_cols"
    by (simp add: sample_cols_def)
  then show ?thesis
    using AppendFieldData_rebuilds [OF aligned_sample, of 2] by (simp del: upt_Suc)
qed

text \<open>Two columns that can take each other's rows: the same kind of data, vectors of one dimension.
  The kinds are those \<open>DeleteFieldData\<close> has a case for: an array column is not among them.\<close>

fun scalar_kind :: "ScalarField \<Rightarrow> nat option" where
  "scalar_kind (BoolData _) = Some 0"
| "scalar_kind (IntData _) = Some 1"
| "scalar_kind (LongData _) = Some 2"
| "scalar_kind (FloatData _) = Some 3"
| "scalar_kind (DoubleData _) = Some 4"
| "scalar_kind (StringData _) = Some 5"
| "scalar_kind (JsonData _) = Some 6"
| "scalar_kind _ = None"

fun vector_kind :: "VectorData \<Rightarrow> nat option" where
  "vector_kind (FloatVector _) = Some 0"
| "vector_kind (BinaryVector _) = Some 1"
| "vector_kind VF_None = None"

fun same_kind :: "Field \<Rightarrow> Field \<Rightarrow> bool" where
  "same_kind (Scalars d) (Scalars s) = (scalar_kind d \<noteq> None \<and> scalar_kind d = scalar_kind s)"
| "same_kind (Vectors k d) (Vectors dim v) =
     (k = dim \<and> vector_kind d \<noteq> None \<and> vector_kind d = vector_kind v)"
| "same_kind _ _ = False"

lemma drop_last_append [simp]: "drop_last_n (xs @ ys) (int (length ys)) = Ok xs"
  by (simp add: drop_last_n_def go_slice_def)

lemma drop_last_one [simp]: "drop_last_n (xs @ [y]) 1 = Ok xs"
  using drop_last_append [of xs "[y]"] by simp

lemma go_slice_row_length:
  assumes "go_slice xs (idx * r) ((idx + 1) * r) = Ok row"
  shows "int (length row) = r"
proof -
  from assms have "0 \<le> idx * r" "idx * r \<le> (idx + 1) * r" by (auto simp: go_slice_Ok_iff)
  with go_slice_length [OF assms] show ?thesis by (simp add: distrib_right nat_diff_distrib')
qed

lemma append_delete_vector:
  assumes "same_kind (Vectors k d) (Vectors dim v)" and "append_vector d dim v idx = Ok (d', m)"
  shows "delete_vector k d' = Ok d"
proof -
  show ?thesis
  proof (cases v)
    case (FloatVector fs)
    then obtain fs' where d: "d = FloatVector fs'" "k = dim" using assms(1) by (cases d) auto
    from assms(2) FloatVector d obtain row where
      r: "go_slice fs (idx * dim) ((idx + 1) * dim) = (Ok row :: uint32 list res)" "d' = FloatVector (fs' @ row)"
      by (auto simp: bindO_Ok_iff)
    then have "int (length row) = dim" by (auto intro: go_slice_row_length)
    with d r(2) drop_last_append [of fs' row] show ?thesis by simp
  next
    case (BinaryVector bs)
    then obtain bs' where d: "d = BinaryVector bs'" "k = dim" using assms(1) by (cases d) auto
    from assms(2) BinaryVector d obtain row where
      r: "go_slice bs (idx * (dim sdiv 8)) ((idx + 1) * (dim sdiv 8)) = (Ok row :: bytes res)"
        "d' = BinaryVector (bs' @ row)"
      by (auto simp: bindO_Ok_iff)
    then have "int (length row) = dim sdiv 8" by (auto intro: go_slice_row_length)
    with d r(2) drop_last_append [of bs' row] show ?thesis by simp
  qed (use assms in \<open>cases d; simp\<close>)
qed

lemma append_delete_scalar:
  "same_kind (Scalars d) (Scalars s) \<Longrightarrow> append_scalar d s idx = Ok (d', m) \<Longrightarrow> delete_scalar d' = Ok d"
  by (cases s; cases d) (auto simp: bindO_Ok_iff)

lemma fd_Field_upd_id: "fd_Field d = f \<Longrightarrow> d\<lparr>fd_Field := f\<rparr> = d"
  by (cases d) simp

lemma append_delete_field:
  assumes "same_kind (fd_Field d) (fd_Field s)" and "append_field (Some d) s idx = Ok (d', m)"
  shows "DeleteFieldData (d' # ds) = bindO (DeleteFieldData ds) (\<lambda>ds'. Ok (Some d # ds'))"
proof (cases "fd_Field s")
  case (Scalars x)
  then obtain y where y: "fd_Field d = Scalars y"
    using assms(1) by (cases "fd_Field d") auto
  with Scalars assms(2) obtain z where z: "append_scalar y x idx = Ok (z, m)"
    "d' = Some (d\<lparr>fd_Field := Scalars z\<rparr>)"
    by (auto simp: append_field_def Let_def bindO_Ok_iff)
  have "same_kind (Scalars y) (Scalars x)" using assms(1) unfolding y Scalars .
  from append_delete_scalar [OF this z(1)] have "delete_scalar z = Ok y" .
  with z(2) y show ?thesis by (simp add: fd_Field_upd_id)
next
  case (Vectors dim v)
  then obtain k w where w: "fd_Field d = Vectors k w"
    using assms(1) by (cases "fd_Field d") auto
  with Vectors assms(2) obtain z where z: "append_vector w dim v idx = Ok (z, m)"
    "d' = Some (d\<lparr>fd_Field := Vectors k z\<rparr>)"
    by (auto simp: append_field_def Let_def bindO_Ok_iff)
  have "same_kind (Vectors k w) (Vectors dim v)" using assms(1) unfolding w Vectors .
  from append_delete_vector [OF this z(1)] have "delete_vector k z = Ok w" .
  with z(2) w show ?thesis by (simp add: fd_Field_upd_id)
qed (use assms(1) in \<open>cases "fd_Field d"; simp\<close>)

text \<open>Deleting after appending gives the columns back, for columns of the kinds both functions
  handle.\<close>

theorem DeleteFieldData_undoes_append:
  assumes "list_all2 (\<lambda>d s. same_kind (fd_Field d) (fd_Field s)) ds ss"
    and "AppendFieldData (map Some ds) ss idx = Ok (ds', m)"
  shows "DeleteFieldData ds' = Ok (map Some ds)"
  using assms
proof (induction ds ss arbitrary: ds' m rule: list_all2_induct)
  case (Cons d ds s ss)
  from Cons.prems obtain d1 n1 ds1 n2 where
    "append_field (Some d) s idx = Ok (d1, n1)" "AppendFieldData (map Some ds) ss idx = Ok (ds1, n2)"
    "ds' = d1 # ds1"
    by (auto simp: bindO_Ok_iff)
  with Cons show ?case by (simp add: append_delete_field)
qed simp

theorem DeleteFieldData_undoes_append_witness:
  "bindO (AppendFieldData (map Some sample_cols) sample_cols 1) (\<lambda>(ds', m). DeleteFieldData ds')
     = Ok (map Some sample_cols)"
proof -
  obtain ds' m where a: "AppendFieldData (map Some sample_cols) sample_cols 1 = Ok (ds', m)"
    by (simp add: sample_cols_def append_field_def go_index_def go_slice_def)
  have "list_all2 (\<lambda>d s. same_kind (fd_Field d) (fd_Field s)) sample_cols sample_cols"
    by (simp add: sample_cols_def)
  from DeleteFieldData_undoes_append [OF this a] a show ?thesis by simp
qed

text \<open>An array column keeps the row: \<open>AppendFieldData\<close> appends to it and \<open>DeleteFieldData\<close> leaves it
  as it is.\<close>

theorem DeleteFieldData_keeps_array_row:
  "bindO (AppendFieldData [Some (fd\<lparr>fd_Field := Scalars (ArrayData ys t)\<rparr>)]
            [fd\<lparr>fd_Field := Scalars (ArrayData (xs @ [x]) t)\<rparr>] (int (length xs)))
     (\<lambda>(ds, m). DeleteFieldData ds)
   = Ok [Some (fd\<lparr>fd_Field := Scalars (ArrayData (ys @ [x]) t)\<rparr>)]"
  using go_index_nth [of "length xs" "xs @ [x]"] by (simp add: append_field_def)

declare GetNumRowOfFieldData.simps [simp del]

end
