(* ===== verification/Messages.thy ===== *)
theory Messages
  imports FieldData Tso
begin

text \<open>
  The messages of the stream: pkg/mq/msgstream/msg.go, msg\_for\_collection.go, msg\_for\_index.go,
  msg\_for\_database.go, msg\_for\_partition.go, unmarshal.go, and the message headers of
  pkg/util/commonpbutil/commonpbutil.go.

  A Go message is a struct that embeds a \<open>BaseMsg\<close> and a protobuf request. Here it is one record
  \<open>TsMsg\<close>: the fields of \<open>BaseMsg\<close> and the request, whose constructor is the message's dynamic type.
  Insert and delete requests have the fields the code works with. The other fifteen requests are only
  stored, sized and forwarded, apart from their header and a collection id: \<open>PlainRequest\<close> keeps these
  two and the rest as opaque content.

  The interface \<open>TsMsg\<close> is a table of methods (\<open>methods\<close>), one table per message type, and a call
  dispatches on the dynamic type (\<open>methods_of\<close>). A header \<open>Base\<close> may be nil: methods that read through
  it panic then, and those that use the generated getters read 0.

  Protobuf encoding is library code: a \<open>codec\<close> is a parameter, and \<open>codec_laws\<close> states what is
  documented of it (decoding what was encoded gives the message back; the header is a field of every
  message). Trace contexts are opaque numbers, 0 being the background context.
\<close>

section \<open>Protobuf data\<close>

datatype MsgType =
    MT_Undefined | MT_Insert | MT_Delete | MT_TimeTick | MT_CreateCollection | MT_DropCollection
  | MT_CreatePartition | MT_DropPartition | MT_DataNodeTt | MT_CreateIndex | MT_DropIndex
  | MT_LoadCollection | MT_ReleaseCollection | MT_LoadPartitions | MT_ReleasePartitions | MT_Flush
  | MT_CreateDatabase | MT_DropDatabase | MT_LoadIndex | MT_Other int

record MsgBase =
  mb_MsgType :: MsgType
  mb_MsgID :: int
  mb_Timestamp :: timestamp
  mb_SourceID :: int
  mb_TargetID :: int

record MsgPosition =
  mp_ChannelName :: string
  mp_MsgID :: bytes
  mp_MsgGroup :: string
  mp_Timestamp :: timestamp

datatype InsertDataVersion = RowBased | ColumnBased | Version_Other int

record InsertRequest =
  ir_Base :: "MsgBase option"
  ir_ShardName :: string
  ir_CollectionName :: string
  ir_PartitionName :: string
  ir_DbID :: int
  ir_CollectionID :: int
  ir_PartitionID :: int
  ir_SegmentID :: int
  ir_Timestamps :: "timestamp list"
  ir_RowIDs :: "int list"
  ir_RowData :: "bytes list"
  ir_FieldsData :: "FieldData option list"
  ir_NumRows :: nat
  ir_Version :: InsertDataVersion

record DeleteRequest =
  dr_Base :: "MsgBase option"
  dr_ShardName :: string
  dr_CollectionName :: string
  dr_PartitionName :: string
  dr_CollectionID :: int
  dr_Timestamps :: "timestamp list"
  dr_NumRows :: int
  dr_Int64PrimaryKeys :: "int list"
  dr_PrimaryKeys :: "IDs option"

record PlainRequest =
  pr_Base :: "MsgBase option"
  pr_CollectionID :: int
  pr_Content :: bytes

datatype PlainKind =
    TimeTickMsg | CreateCollectionMsg | DropCollectionMsg | CreatePartitionMsg
  | DropPartitionMsg | DataNodeTtMsg | LoadCollectionMsg | ReleaseCollectionMsg
  | FlushMsg | CreateIndexMsg | DropIndexMsg | LoadPartitionsMsg
  | ReleasePartitionsMsg | CreateDatabaseMsg | DropDatabaseMsg

datatype request = InsertReq InsertRequest | DeleteReq DeleteRequest | PlainReq PlainKind PlainRequest

fun base_of :: "request \<Rightarrow> MsgBase option" where
  "base_of (InsertReq r) = ir_Base r"
| "base_of (DeleteReq r) = dr_Base r"
| "base_of (PlainReq _ r) = pr_Base r"

fun set_base :: "request \<Rightarrow> MsgBase \<Rightarrow> request" where
  "set_base (InsertReq r) b = InsertReq (r\<lparr>ir_Base := Some b\<rparr>)"
| "set_base (DeleteReq r) b = DeleteReq (r\<lparr>dr_Base := Some b\<rparr>)"
| "set_base (PlainReq k r) b = PlainReq k (r\<lparr>pr_Base := Some b\<rparr>)"

section \<open>Message headers\<close>

type_synonym MsgBaseOptions = "MsgBase \<Rightarrow> MsgBase"

definition WithMsgType :: "MsgType \<Rightarrow> MsgBaseOptions" where
  "WithMsgType t b = b\<lparr>mb_MsgType := t\<rparr>"

definition WithMsgID :: "int \<Rightarrow> MsgBaseOptions" where
  "WithMsgID i b = b\<lparr>mb_MsgID := i\<rparr>"

definition WithTimeStamp :: "timestamp \<Rightarrow> MsgBaseOptions" where
  "WithTimeStamp ts b = b\<lparr>mb_Timestamp := ts\<rparr>"

definition WithSourceID :: "int \<Rightarrow> MsgBaseOptions" where
  "WithSourceID i b = b\<lparr>mb_SourceID := i\<rparr>"

definition WithTargetID :: "int \<Rightarrow> MsgBaseOptions" where
  "WithTargetID i b = b\<lparr>mb_TargetID := i\<rparr>"

definition newMsgBaseDefault :: MsgBase where
  "newMsgBaseDefault = \<lparr>mb_MsgType = MT_Undefined, mb_MsgID = 0, mb_Timestamp = 0, mb_SourceID = 0,
     mb_TargetID = 0\<rparr>"

definition NewMsgBase :: "MsgBaseOptions list \<Rightarrow> MsgBase" where
  "NewMsgBase options = fold (\<lambda>op b. op b) options newMsgBaseDefault"

definition UpdateMsgBase :: "MsgBase option \<Rightarrow> MsgBaseOptions list \<Rightarrow> MsgBase option" where
  "UpdateMsgBase msgBase options =
     (case msgBase of None \<Rightarrow> None | Some b \<Rightarrow> Some (fold (\<lambda>op b. op b) options b))"

text \<open>The wall clock, in whole seconds, is a parameter.\<close>

definition FillMsgBaseFromClient :: "timestamp \<Rightarrow> int \<Rightarrow> MsgBaseOptions list \<Rightarrow> MsgBaseOptions" where
  "FillMsgBaseFromClient nowTs sourceID options b =
     (let b1 = (if mb_Timestamp b = 0 then b\<lparr>mb_Timestamp := nowTs\<rparr> else b);
          b2 = (if mb_SourceID b1 = 0 then b1\<lparr>mb_SourceID := sourceID\<rparr> else b1)
      in fold (\<lambda>op b. op b) options b2)"

section \<open>Messages\<close>

record TsMsg =
  Ctx :: "nat option"
  BeginTimestamp :: timestamp
  EndTimestamp :: timestamp
  HashValues :: "uint32 list"
  MsgPos :: "MsgPosition option"
  Req :: request

definition new_msg :: "request \<Rightarrow> TsMsg" where
  "new_msg r = \<lparr>Ctx = None, BeginTimestamp = 0, EndTimestamp = 0, HashValues = [], MsgPos = None, Req = r\<rparr>"

definition TraceCtx :: "TsMsg \<Rightarrow> nat" where
  "TraceCtx m = (case Ctx m of None \<Rightarrow> 0 | Some c \<Rightarrow> c)"

definition SetTraceCtx :: "TsMsg \<Rightarrow> nat \<Rightarrow> TsMsg" where
  "SetTraceCtx m c = m\<lparr>Ctx := Some c\<rparr>"

definition BeginTs :: "TsMsg \<Rightarrow> timestamp" where "BeginTs m = BeginTimestamp m"
definition EndTs :: "TsMsg \<Rightarrow> timestamp" where "EndTs m = EndTimestamp m"
definition HashKeys :: "TsMsg \<Rightarrow> uint32 list" where "HashKeys m = HashValues m"
definition Position :: "TsMsg \<Rightarrow> MsgPosition option" where "Position m = MsgPos m"
definition SetPosition :: "TsMsg \<Rightarrow> MsgPosition \<Rightarrow> TsMsg" where "SetPosition m p = m\<lparr>MsgPos := Some p\<rparr>"

text \<open>A value of type \<open>interface{}\<close>: a byte slice or something else.\<close>

datatype any = AnyBytes bytes | AnyOther

fun convertToByteArray :: "any \<Rightarrow> bytes res" where
  "convertToByteArray (AnyBytes b) = Ok b"
| "convertToByteArray AnyOther = Err (ErrorString ''Cannot convert interface{} to []byte'')"

record codec =
  pb_Marshal :: "request \<Rightarrow> bytes res"
  pb_UnmarshalInsert :: "bytes \<Rightarrow> InsertRequest res"
  pb_UnmarshalDelete :: "bytes \<Rightarrow> DeleteRequest res"
  pb_UnmarshalPlain :: "PlainKind \<Rightarrow> bytes \<Rightarrow> PlainRequest res"
  pb_UnmarshalHeader :: "bytes \<Rightarrow> MsgBase option res"
  pb_Size :: "request \<Rightarrow> nat"

record methods =
  m_ID :: "TsMsg \<Rightarrow> int res"
  m_SetID :: "TsMsg \<Rightarrow> int \<Rightarrow> TsMsg res"
  m_Type :: "TsMsg \<Rightarrow> MsgType res"
  m_SourceID :: "TsMsg \<Rightarrow> int res"
  m_Marshal :: "codec \<Rightarrow> TsMsg \<Rightarrow> any res"
  m_Unmarshal :: "codec \<Rightarrow> any \<Rightarrow> TsMsg res"
  m_Size :: "codec \<Rightarrow> TsMsg \<Rightarrow> nat"

text \<open>Reading and writing through the header pointer \<open>Base\<close>.\<close>

definition read_base :: "TsMsg \<Rightarrow> (MsgBase \<Rightarrow> 'a) \<Rightarrow> 'a res" where
  "read_base m f =
     (case base_of (Req m) of None \<Rightarrow> Panic ''nil pointer dereference'' | Some b \<Rightarrow> Ok (f b))"

definition write_base :: "TsMsg \<Rightarrow> (MsgBase \<Rightarrow> MsgBase) \<Rightarrow> TsMsg res" where
  "write_base m f =
     (case base_of (Req m) of None \<Rightarrow> Panic ''nil pointer dereference''
      | Some b \<Rightarrow> Ok (m\<lparr>Req := set_base (Req m) (f b)\<rparr>))"

subsection \<open>Insert\<close>

text \<open>The two loops over the row timestamps: the first starts both bounds at the first timestamp, the
  second widens them.\<close>

fun first_timestamp :: "timestamp list \<Rightarrow> timestamp \<times> timestamp" where
  "first_timestamp [] = (0, 0)"
| "first_timestamp (t # _) = (t, t)"

definition widen :: "timestamp \<Rightarrow> timestamp \<times> timestamp \<Rightarrow> timestamp \<times> timestamp" where
  "widen t be =
     (let e = (if t > snd be then t else snd be); b = (if t < fst be then t else fst be) in (b, e))"

definition ts_range :: "timestamp list \<Rightarrow> timestamp \<times> timestamp" where
  "ts_range tss = fold widen tss (first_timestamp tss)"

definition InsertMsg_Unmarshal :: "codec \<Rightarrow> any \<Rightarrow> TsMsg res" where
  "InsertMsg_Unmarshal c input =
     bindO (convertToByteArray input) (\<lambda>inp.
     bindO (pb_UnmarshalInsert c inp) (\<lambda>r.
       case ts_range (ir_Timestamps r) of
         (b, e) \<Rightarrow> Ok ((new_msg (InsertReq r))\<lparr>BeginTimestamp := b, EndTimestamp := e\<rparr>)))"

definition InsertMsg_Marshal :: "codec \<Rightarrow> TsMsg \<Rightarrow> any res" where
  "InsertMsg_Marshal c input =
     (case Req input of
        InsertReq r \<Rightarrow> bindO (pb_Marshal c (InsertReq r)) (\<lambda>mb. Ok (AnyBytes mb))
      | _ \<Rightarrow> Panic ''interface conversion'')"

definition InsertMsg_methods :: methods where
  "InsertMsg_methods = \<lparr>
     m_ID = (\<lambda>it. read_base it mb_MsgID),
     m_SetID = (\<lambda>it i. write_base it (\<lambda>b. b\<lparr>mb_MsgID := i\<rparr>)),
     m_Type = (\<lambda>it. read_base it mb_MsgType),
     m_SourceID = (\<lambda>it. read_base it mb_SourceID),
     m_Marshal = InsertMsg_Marshal,
     m_Unmarshal = InsertMsg_Unmarshal,
     m_Size = (\<lambda>c it. pb_Size c (Req it))\<rparr>"

definition IsRowBased :: "InsertRequest \<Rightarrow> bool" where
  "IsRowBased it = (ir_Version it = RowBased)"

definition IsColumnBased :: "InsertRequest \<Rightarrow> bool" where
  "IsColumnBased it = (ir_Version it = ColumnBased)"

definition NRows :: "InsertRequest \<Rightarrow> nat" where
  "NRows it = (if IsRowBased it then length (ir_RowData it) else ir_NumRows it)"

definition deref :: "'a option \<Rightarrow> 'a res" where
  "deref p = (case p of None \<Rightarrow> Panic ''nil pointer dereference'' | Some x \<Rightarrow> Ok x)"

definition InsertMsg_CheckAligned :: "InsertRequest \<Rightarrow> unit res" where
  "InsertMsg_CheckAligned it =
     bindO (if IsColumnBased it
            then foldO (\<lambda>_ p. bindO (deref p) (\<lambda>field. bindO (GetNumRowOfFieldData field) (\<lambda>n.
                   if n \<noteq> NRows it
                   then Err (ErrorString ''the num_rows of field is not equal to passed NumRows'')
                   else Ok ()))) () (ir_FieldsData it)
            else Ok ()) (\<lambda>_.
       if length (ir_RowIDs it) \<noteq> length (ir_Timestamps it)
       then Err (ErrorString ''the num_rows of rowIDs  is not equal to the num_rows of timestamps'')
       else if length (ir_RowIDs it) \<noteq> NRows it
       then Err (ErrorString ''the num_rows of rowIDs  is not equal to passed NumRows'')
       else Ok ())"

text \<open>The header and the fields both kinds of one-row requests share.\<close>

definition index_base :: "InsertRequest \<Rightarrow> int \<Rightarrow> MsgBase res" where
  "index_base it index =
     bindO (deref (ir_Base it)) (\<lambda>b. bindO (go_index (ir_Timestamps it) index) (\<lambda>t.
       Ok (NewMsgBase [WithMsgType MT_Insert, WithMsgID (mb_MsgID b), WithTimeStamp t,
                       WithSourceID (mb_SourceID b)])))"

definition rowBasedIndexRequest :: "InsertRequest \<Rightarrow> int \<Rightarrow> InsertRequest res" where
  "rowBasedIndexRequest it index =
     bindO (index_base it index) (\<lambda>b.
     bindO (go_index (ir_Timestamps it) index) (\<lambda>t.
     bindO (go_index (ir_RowIDs it) index) (\<lambda>rid.
     bindO (go_index (ir_RowData it) index) (\<lambda>row.
       Ok \<lparr>ir_Base = Some b, ir_ShardName = ir_ShardName it, ir_CollectionName = ir_CollectionName it,
           ir_PartitionName = ir_PartitionName it, ir_DbID = ir_DbID it,
           ir_CollectionID = ir_CollectionID it, ir_PartitionID = ir_PartitionID it,
           ir_SegmentID = ir_SegmentID it, ir_Timestamps = [t], ir_RowIDs = [rid],
           ir_RowData = [row], ir_FieldsData = [], ir_NumRows = 0, ir_Version = RowBased\<rparr>))))"

fun deref_all :: "'a option list \<Rightarrow> 'a list res" where
  "deref_all [] = Ok []"
| "deref_all (p # ps) = bindO (deref p) (\<lambda>x. bindO (deref_all ps) (\<lambda>xs. Ok (x # xs)))"

definition columnBasedIndexRequest :: "InsertRequest \<Rightarrow> int \<Rightarrow> InsertRequest res" where
  "columnBasedIndexRequest it index =
     bindO (deref_all (ir_FieldsData it)) (\<lambda>src.
     bindO (AppendFieldData (replicate (length src) None) src index) (\<lambda>(fieldsData, _).
     bindO (index_base it index) (\<lambda>b.
     bindO (go_index (ir_Timestamps it) index) (\<lambda>t.
     bindO (go_index (ir_RowIDs it) index) (\<lambda>rid.
       Ok \<lparr>ir_Base = Some b, ir_ShardName = ir_ShardName it, ir_CollectionName = ir_CollectionName it,
           ir_PartitionName = ir_PartitionName it, ir_DbID = ir_DbID it,
           ir_CollectionID = ir_CollectionID it, ir_PartitionID = ir_PartitionID it,
           ir_SegmentID = ir_SegmentID it, ir_Timestamps = [t], ir_RowIDs = [rid],
           ir_RowData = [], ir_FieldsData = fieldsData, ir_NumRows = 1, ir_Version = ColumnBased\<rparr>)))))"

definition IndexRequest :: "InsertRequest \<Rightarrow> int \<Rightarrow> InsertRequest res" where
  "IndexRequest it index =
     (if IsRowBased it then rowBasedIndexRequest it index else columnBasedIndexRequest it index)"

definition IndexMsg :: "TsMsg \<Rightarrow> int \<Rightarrow> TsMsg res" where
  "IndexMsg m index =
     (case Req m of
        InsertReq it \<Rightarrow> bindO (IndexRequest it index) (\<lambda>r.
          Ok \<lparr>Ctx = Some (TraceCtx m), BeginTimestamp = BeginTimestamp m, EndTimestamp = EndTimestamp m,
              HashValues = HashValues m, MsgPos = MsgPos m, Req = InsertReq r\<rparr>)
      | _ \<Rightarrow> Panic ''interface conversion'')"

subsection \<open>Delete\<close>

text \<open>Requests that carry only integer keys are given a key list and a row count.\<close>

definition fix_primary_keys :: "DeleteRequest \<Rightarrow> DeleteRequest" where
  "fix_primary_keys r =
     (case dr_PrimaryKeys r of
        None \<Rightarrow> r\<lparr>dr_PrimaryKeys := Some (IntId (dr_Int64PrimaryKeys r)),
                 dr_NumRows := int (length (dr_Int64PrimaryKeys r))\<rparr>
      | Some _ \<Rightarrow> r)"

definition DeleteMsg_Unmarshal :: "codec \<Rightarrow> any \<Rightarrow> TsMsg res" where
  "DeleteMsg_Unmarshal c input =
     bindO (convertToByteArray input) (\<lambda>inp.
     bindO (pb_UnmarshalDelete c inp) (\<lambda>r0.
       let r = fix_primary_keys r0 in
       case ts_range (dr_Timestamps r) of
         (b, e) \<Rightarrow> Ok ((new_msg (DeleteReq r))\<lparr>BeginTimestamp := b, EndTimestamp := e\<rparr>)))"

definition DeleteMsg_Marshal :: "codec \<Rightarrow> TsMsg \<Rightarrow> any res" where
  "DeleteMsg_Marshal c input =
     (case Req input of
        DeleteReq r \<Rightarrow> bindO (pb_Marshal c (DeleteReq r)) (\<lambda>mb. Ok (AnyBytes mb))
      | _ \<Rightarrow> Panic ''interface conversion'')"

definition DeleteMsg_methods :: methods where
  "DeleteMsg_methods = \<lparr>
     m_ID = (\<lambda>dt. read_base dt mb_MsgID),
     m_SetID = (\<lambda>dt i. write_base dt (\<lambda>b. b\<lparr>mb_MsgID := i\<rparr>)),
     m_Type = (\<lambda>dt. read_base dt mb_MsgType),
     m_SourceID = (\<lambda>dt. read_base dt mb_SourceID),
     m_Marshal = DeleteMsg_Marshal,
     m_Unmarshal = DeleteMsg_Unmarshal,
     m_Size = (\<lambda>c dt. pb_Size c (Req dt))\<rparr>"

definition DeleteMsg_CheckAligned :: "DeleteRequest \<Rightarrow> unit res" where
  "DeleteMsg_CheckAligned dt =
     (if dr_NumRows dt \<noteq> int (length (dr_Timestamps dt))
      then Err (ErrorString ''the num_rows of pks  is not equal to the num_rows of timestamps'')
      else bindO (GetSizeOfIDs (dr_PrimaryKeys dt)) (\<lambda>numPks.
        if dr_NumRows dt \<noteq> int numPks
        then Err (ErrorString ''the num_rows of pks is not equal to passed NumRows'')
        else Ok ()))"

subsection \<open>The other messages\<close>

text \<open>
  The fifteen other types have the same seven methods over their own request type. They differ in how
  \<open>Unmarshal\<close> reads the timestamp of the decoded message: through the header pointer
  (\<open>Base.Timestamp\<close>), through the getters (\<open>GetBase().GetTimestamp()\<close>, 0 without a header), or not at
  all.
\<close>

definition Base_Timestamp :: "MsgBase option \<Rightarrow> timestamp res" where
  "Base_Timestamp base =
     (case base of None \<Rightarrow> Panic ''nil pointer dereference'' | Some b \<Rightarrow> Ok (mb_Timestamp b))"

definition GetBase_GetTimestamp :: "MsgBase option \<Rightarrow> timestamp res" where
  "GetBase_GetTimestamp base = Ok (case base of None \<Rightarrow> 0 | Some b \<Rightarrow> mb_Timestamp b)"

definition no_Timestamp :: "MsgBase option \<Rightarrow> timestamp res" where
  "no_Timestamp base = Ok 0"

definition plain_Unmarshal :: "PlainKind \<Rightarrow> (MsgBase option \<Rightarrow> timestamp res) \<Rightarrow> codec \<Rightarrow> any \<Rightarrow> TsMsg res" where
  "plain_Unmarshal k read_ts c input =
     bindO (convertToByteArray input) (\<lambda>inp.
     bindO (pb_UnmarshalPlain c k inp) (\<lambda>r.
     bindO (read_ts (pr_Base r)) (\<lambda>ts.
       Ok ((new_msg (PlainReq k r))\<lparr>BeginTimestamp := ts, EndTimestamp := ts\<rparr>))))"

definition plain_Marshal :: "PlainKind \<Rightarrow> codec \<Rightarrow> TsMsg \<Rightarrow> any res" where
  "plain_Marshal k c input =
     (case Req input of
        PlainReq k' r \<Rightarrow>
          if k' = k then bindO (pb_Marshal c (PlainReq k r)) (\<lambda>mb. Ok (AnyBytes mb))
          else Panic ''interface conversion''
      | _ \<Rightarrow> Panic ''interface conversion'')"

definition plain_methods :: "PlainKind \<Rightarrow> (MsgBase option \<Rightarrow> timestamp res) \<Rightarrow> methods" where
  "plain_methods k read_ts = \<lparr>
     m_ID = (\<lambda>m. read_base m mb_MsgID),
     m_SetID = (\<lambda>m i. write_base m (\<lambda>b. b\<lparr>mb_MsgID := i\<rparr>)),
     m_Type = (\<lambda>m. read_base m mb_MsgType),
     m_SourceID = (\<lambda>m. read_base m mb_SourceID),
     m_Marshal = plain_Marshal k,
     m_Unmarshal = plain_Unmarshal k read_ts,
     m_Size = (\<lambda>c m. pb_Size c (Req m))\<rparr>"

definition TimeTickMsg_methods :: methods where
  "TimeTickMsg_methods = plain_methods TimeTickMsg Base_Timestamp"

definition CreateCollectionMsg_methods :: methods where
  "CreateCollectionMsg_methods = plain_methods CreateCollectionMsg Base_Timestamp"

definition DropCollectionMsg_methods :: methods where
  "DropCollectionMsg_methods = plain_methods DropCollectionMsg Base_Timestamp"

definition CreatePartitionMsg_methods :: methods where
  "CreatePartitionMsg_methods = plain_methods CreatePartitionMsg Base_Timestamp"

definition DropPartitionMsg_methods :: methods where
  "DropPartitionMsg_methods = plain_methods DropPartitionMsg Base_Timestamp"

definition DataNodeTtMsg_methods :: methods where
  "DataNodeTtMsg_methods = plain_methods DataNodeTtMsg no_Timestamp"

definition LoadCollectionMsg_methods :: methods where
  "LoadCollectionMsg_methods = plain_methods LoadCollectionMsg GetBase_GetTimestamp"

definition ReleaseCollectionMsg_methods :: methods where
  "ReleaseCollectionMsg_methods = plain_methods ReleaseCollectionMsg GetBase_GetTimestamp"

definition FlushMsg_methods :: methods where
  "FlushMsg_methods = plain_methods FlushMsg GetBase_GetTimestamp"

definition CreateIndexMsg_methods :: methods where
  "CreateIndexMsg_methods = plain_methods CreateIndexMsg GetBase_GetTimestamp"

definition DropIndexMsg_methods :: methods where
  "DropIndexMsg_methods = plain_methods DropIndexMsg GetBase_GetTimestamp"

definition LoadPartitionsMsg_methods :: methods where
  "LoadPartitionsMsg_methods = plain_methods LoadPartitionsMsg GetBase_GetTimestamp"

definition ReleasePartitionsMsg_methods :: methods where
  "ReleasePartitionsMsg_methods = plain_methods ReleasePartitionsMsg GetBase_GetTimestamp"

definition CreateDatabaseMsg_methods :: methods where
  "CreateDatabaseMsg_methods = plain_methods CreateDatabaseMsg GetBase_GetTimestamp"

definition DropDatabaseMsg_methods :: methods where
  "DropDatabaseMsg_methods = plain_methods DropDatabaseMsg GetBase_GetTimestamp"

subsection \<open>Dynamic dispatch\<close>

fun plain_methods_of :: "PlainKind \<Rightarrow> methods" where
  "plain_methods_of TimeTickMsg = TimeTickMsg_methods"
| "plain_methods_of CreateCollectionMsg = CreateCollectionMsg_methods"
| "plain_methods_of DropCollectionMsg = DropCollectionMsg_methods"
| "plain_methods_of CreatePartitionMsg = CreatePartitionMsg_methods"
| "plain_methods_of DropPartitionMsg = DropPartitionMsg_methods"
| "plain_methods_of DataNodeTtMsg = DataNodeTtMsg_methods"
| "plain_methods_of LoadCollectionMsg = LoadCollectionMsg_methods"
| "plain_methods_of ReleaseCollectionMsg = ReleaseCollectionMsg_methods"
| "plain_methods_of FlushMsg = FlushMsg_methods"
| "plain_methods_of CreateIndexMsg = CreateIndexMsg_methods"
| "plain_methods_of DropIndexMsg = DropIndexMsg_methods"
| "plain_methods_of LoadPartitionsMsg = LoadPartitionsMsg_methods"
| "plain_methods_of ReleasePartitionsMsg = ReleasePartitionsMsg_methods"
| "plain_methods_of CreateDatabaseMsg = CreateDatabaseMsg_methods"
| "plain_methods_of DropDatabaseMsg = DropDatabaseMsg_methods"

fun methods_of :: "request \<Rightarrow> methods" where
  "methods_of (InsertReq _) = InsertMsg_methods"
| "methods_of (DeleteReq _) = DeleteMsg_methods"
| "methods_of (PlainReq k _) = plain_methods_of k"

definition ID :: "TsMsg \<Rightarrow> int res" where "ID m = m_ID (methods_of (Req m)) m"
definition SetID :: "TsMsg \<Rightarrow> int \<Rightarrow> TsMsg res" where "SetID m i = m_SetID (methods_of (Req m)) m i"
definition msg_Type :: "TsMsg \<Rightarrow> MsgType res" where "msg_Type m = m_Type (methods_of (Req m)) m"
definition SourceID :: "TsMsg \<Rightarrow> int res" where "SourceID m = m_SourceID (methods_of (Req m)) m"
definition Marshal :: "codec \<Rightarrow> TsMsg \<Rightarrow> any res" where "Marshal c m = m_Marshal (methods_of (Req m)) c m"
definition Size :: "codec \<Rightarrow> TsMsg \<Rightarrow> nat" where "Size c m = m_Size (methods_of (Req m)) c m"

section \<open>The unmarshal dispatcher\<close>

type_synonym ProtoUnmarshalDispatcher = "MsgType \<rightharpoonup> (codec \<Rightarrow> any \<Rightarrow> TsMsg res)"

definition NewUnmarshalDispatcher :: ProtoUnmarshalDispatcher where
  "NewUnmarshalDispatcher = map_of [
     (MT_Insert, m_Unmarshal InsertMsg_methods),
     (MT_Delete, m_Unmarshal DeleteMsg_methods),
     (MT_TimeTick, m_Unmarshal TimeTickMsg_methods),
     (MT_CreateCollection, m_Unmarshal CreateCollectionMsg_methods),
     (MT_DropCollection, m_Unmarshal DropCollectionMsg_methods),
     (MT_CreatePartition, m_Unmarshal CreatePartitionMsg_methods),
     (MT_DropPartition, m_Unmarshal DropPartitionMsg_methods),
     (MT_DataNodeTt, m_Unmarshal DataNodeTtMsg_methods),
     (MT_CreateIndex, m_Unmarshal CreateIndexMsg_methods),
     (MT_DropIndex, m_Unmarshal DropIndexMsg_methods),
     (MT_LoadCollection, m_Unmarshal LoadCollectionMsg_methods),
     (MT_ReleaseCollection, m_Unmarshal ReleaseCollectionMsg_methods),
     (MT_LoadPartitions, m_Unmarshal LoadPartitionsMsg_methods),
     (MT_ReleasePartitions, m_Unmarshal ReleasePartitionsMsg_methods),
     (MT_Flush, m_Unmarshal FlushMsg_methods),
     (MT_CreateDatabase, m_Unmarshal CreateDatabaseMsg_methods),
     (MT_DropDatabase, m_Unmarshal DropDatabaseMsg_methods)]"

definition Dispatcher_Unmarshal :: "ProtoUnmarshalDispatcher \<Rightarrow> codec \<Rightarrow> any \<Rightarrow> MsgType \<Rightarrow> TsMsg res" where
  "Dispatcher_Unmarshal p c input msgType =
     (case p msgType of
        None \<Rightarrow> Err (ErrorString ''not set unmarshalFunc for this messageType'')
      | Some unmarshalFunc \<Rightarrow> unmarshalFunc c input)"

section \<open>Tracing\<close>

text \<open>The tracing library is a parameter: \<open>extract\<close> reads a context from the message properties,
  \<open>start\<close> opens a span on it.\<close>

definition allowTrace :: "TsMsg option \<Rightarrow> bool res" where
  "allowTrace msg =
     (case msg of None \<Rightarrow> Ok False
      | Some m \<Rightarrow> bindO (msg_Type m) (\<lambda>t. Ok (\<not> (t = MT_TimeTick \<or> t = MT_LoadIndex))))"

definition ExtractCtx ::
  "(nat \<Rightarrow> (string \<times> string) list \<Rightarrow> nat) \<Rightarrow> (nat \<Rightarrow> nat) \<Rightarrow> TsMsg \<Rightarrow> (string \<times> string) list \<Rightarrow> nat res" where
  "ExtractCtx extract start msg properties =
     bindO (allowTrace (Some msg)) (\<lambda>allowed.
       if \<not> allowed then Ok (TraceCtx msg)
       else bindO (ID msg) (\<lambda>_. Ok (start (extract (TraceCtx msg) properties))))"

definition MsgSpanFromCtx :: "(nat \<Rightarrow> nat) \<Rightarrow> nat option \<Rightarrow> TsMsg \<Rightarrow> nat option res" where
  "MsgSpanFromCtx start ctx msg =
     (case ctx of None \<Rightarrow> Ok None
      | Some c \<Rightarrow> bindO (allowTrace (Some msg)) (\<lambda>allowed.
          if \<not> allowed then Ok (Some c) else bindO (ID msg) (\<lambda>_. Ok (Some (start c)))))"

section \<open>Lemmas\<close>

lemma deref_simps [simp]: "deref (Some x) = Ok x" "deref p = Ok x \<longleftrightarrow> p = Some x" "deref p \<noteq> Err e"
  by (auto simp: deref_def split: option.splits)

lemma deref_all_map_Some [simp]: "deref_all (map Some xs) = Ok xs"
  by (induction xs) auto

lemma deref_all_Ok: "deref_all ps = Ok xs \<longleftrightarrow> ps = map Some xs"
  by (induction ps arbitrary: xs) (auto simp: outcome_simps Cons_eq_map_conv)

lemmas kind_methods_defs =
  plain_methods_def TimeTickMsg_methods_def CreateCollectionMsg_methods_def
  DropCollectionMsg_methods_def CreatePartitionMsg_methods_def DropPartitionMsg_methods_def
  DataNodeTtMsg_methods_def LoadCollectionMsg_methods_def ReleaseCollectionMsg_methods_def
  FlushMsg_methods_def CreateIndexMsg_methods_def DropIndexMsg_methods_def
  LoadPartitionsMsg_methods_def ReleasePartitionsMsg_methods_def CreateDatabaseMsg_methods_def
  DropDatabaseMsg_methods_def

lemma methods_simps [simp]:
  "m_ID (methods_of r) = (\<lambda>m. read_base m mb_MsgID)"
  "m_SetID (methods_of r) = (\<lambda>m i. write_base m (\<lambda>b. b\<lparr>mb_MsgID := i\<rparr>))"
  "m_Type (methods_of r) = (\<lambda>m. read_base m mb_MsgType)"
  "m_SourceID (methods_of r) = (\<lambda>m. read_base m mb_SourceID)"
  "m_Size (methods_of r) = (\<lambda>c m. pb_Size c (Req m))"
proof -
  have *: "m_ID (plain_methods_of k) = (\<lambda>m. read_base m mb_MsgID)
      \<and> m_SetID (plain_methods_of k) = (\<lambda>m i. write_base m (\<lambda>b. b\<lparr>mb_MsgID := i\<rparr>))
      \<and> m_Type (plain_methods_of k) = (\<lambda>m. read_base m mb_MsgType)
      \<and> m_SourceID (plain_methods_of k) = (\<lambda>m. read_base m mb_SourceID)
      \<and> m_Size (plain_methods_of k) = (\<lambda>c m. pb_Size c (Req m))" for k
    by (cases k) (simp_all add: kind_methods_defs)
  show "m_ID (methods_of r) = (\<lambda>m. read_base m mb_MsgID)"
    "m_SetID (methods_of r) = (\<lambda>m i. write_base m (\<lambda>b. b\<lparr>mb_MsgID := i\<rparr>))"
    "m_Type (methods_of r) = (\<lambda>m. read_base m mb_MsgType)"
    "m_SourceID (methods_of r) = (\<lambda>m. read_base m mb_SourceID)"
    "m_Size (methods_of r) = (\<lambda>c m. pb_Size c (Req m))"
    by (cases r; simp add: * InsertMsg_methods_def DeleteMsg_methods_def)+
qed

lemma call_simps:
  "ID m = read_base m mb_MsgID" "SetID m i = write_base m (\<lambda>b. b\<lparr>mb_MsgID := i\<rparr>)"
  "msg_Type m = read_base m mb_MsgType" "SourceID m = read_base m mb_SourceID" "Size c m = pb_Size c (Req m)"
  by (simp_all add: ID_def SetID_def msg_Type_def SourceID_def Size_def)

section \<open>The codec\<close>

text \<open>What is documented of the protobuf library: decoding the encoding of a message gives the message,
  and every encoding can be read as a header.\<close>

definition codec_laws :: "codec \<Rightarrow> bool" where
  "codec_laws c \<longleftrightarrow> (\<forall>r b. pb_Marshal c r = Ok b \<longrightarrow>
     pb_UnmarshalHeader c b = Ok (base_of r) \<and>
     (case r of
        InsertReq i \<Rightarrow> pb_UnmarshalInsert c b = Ok i
      | DeleteReq d \<Rightarrow> pb_UnmarshalDelete c b = Ok d
      | PlainReq k p \<Rightarrow> pb_UnmarshalPlain c k b = Ok p))"

text \<open>A concrete codec for witnesses: the messages of a table, encoded by their place in it.\<close>

fun index_of :: "'a \<Rightarrow> 'a list \<Rightarrow> nat" where
  "index_of x [] = 0"
| "index_of x (y # ys) = (if x = y then 0 else Suc (index_of x ys))"

lemma index_of_nth: "x \<in> set xs \<Longrightarrow> index_of x xs < length xs \<and> xs ! index_of x xs = x"
  by (induction xs) auto

definition table_lookup :: "request list \<Rightarrow> bytes \<Rightarrow> request res" where
  "table_lookup rs b =
     (if length b < length rs then Ok (rs ! length b) else Err (ErrorString ''unexpected EOF''))"

definition table_codec :: "request list \<Rightarrow> codec" where
  "table_codec rs = \<lparr>
     pb_Marshal = (\<lambda>r. if r \<in> set rs then Ok (replicate (index_of r rs) 0)
                        else Err (ErrorString ''marshal'')),
     pb_UnmarshalInsert = (\<lambda>b. bindO (table_lookup rs b) (\<lambda>r.
       case r of InsertReq i \<Rightarrow> Ok i | _ \<Rightarrow> Err (ErrorString ''wire type''))),
     pb_UnmarshalDelete = (\<lambda>b. bindO (table_lookup rs b) (\<lambda>r.
       case r of DeleteReq d \<Rightarrow> Ok d | _ \<Rightarrow> Err (ErrorString ''wire type''))),
     pb_UnmarshalPlain = (\<lambda>k b. bindO (table_lookup rs b) (\<lambda>r.
       case r of PlainReq _ p \<Rightarrow> Ok p | _ \<Rightarrow> Err (ErrorString ''wire type''))),
     pb_UnmarshalHeader = (\<lambda>b. bindO (table_lookup rs b) (\<lambda>r. Ok (base_of r))),
     pb_Size = (\<lambda>r. index_of r rs)\<rparr>"

lemma table_codec_laws [simp]: "codec_laws (table_codec rs)"
  using index_of_nth [of _ rs]
  by (auto simp: codec_laws_def table_codec_def table_lookup_def split: if_splits request.splits)

section \<open>Timestamps and types\<close>

fun type_of_kind :: "PlainKind \<Rightarrow> MsgType" where
  "type_of_kind TimeTickMsg = MT_TimeTick"
| "type_of_kind CreateCollectionMsg = MT_CreateCollection"
| "type_of_kind DropCollectionMsg = MT_DropCollection"
| "type_of_kind CreatePartitionMsg = MT_CreatePartition"
| "type_of_kind DropPartitionMsg = MT_DropPartition"
| "type_of_kind DataNodeTtMsg = MT_DataNodeTt"
| "type_of_kind LoadCollectionMsg = MT_LoadCollection"
| "type_of_kind ReleaseCollectionMsg = MT_ReleaseCollection"
| "type_of_kind FlushMsg = MT_Flush"
| "type_of_kind CreateIndexMsg = MT_CreateIndex"
| "type_of_kind DropIndexMsg = MT_DropIndex"
| "type_of_kind LoadPartitionsMsg = MT_LoadPartitions"
| "type_of_kind ReleasePartitionsMsg = MT_ReleasePartitions"
| "type_of_kind CreateDatabaseMsg = MT_CreateDatabase"
| "type_of_kind DropDatabaseMsg = MT_DropDatabase"

fun type_of_request :: "request \<Rightarrow> MsgType" where
  "type_of_request (InsertReq _) = MT_Insert"
| "type_of_request (DeleteReq _) = MT_Delete"
| "type_of_request (PlainReq k _) = type_of_kind k"

definition needs_header :: "PlainKind \<Rightarrow> bool" where
  "needs_header k \<longleftrightarrow>
     k \<in> {TimeTickMsg, CreateCollectionMsg, DropCollectionMsg, CreatePartitionMsg, DropPartitionMsg}"

definition header_time :: "PlainKind \<Rightarrow> MsgBase option \<Rightarrow> timestamp res" where
  "header_time k base =
     (case base of
        None \<Rightarrow> if needs_header k then Panic ''nil pointer dereference'' else Ok 0
      | Some b \<Rightarrow> Ok (if k = DataNodeTtMsg then 0 else mb_Timestamp b))"

fun request_times :: "request \<Rightarrow> (timestamp \<times> timestamp) res" where
  "request_times (InsertReq r) = Ok (ts_range (ir_Timestamps r))"
| "request_times (DeleteReq r) = Ok (ts_range (dr_Timestamps r))"
| "request_times (PlainReq k r) = bindO (header_time k (pr_Base r)) (\<lambda>t. Ok (t, t))"

fun normal :: "request \<Rightarrow> request" where
  "normal (DeleteReq r) = DeleteReq (fix_primary_keys r)"
| "normal r = r"

definition decoded :: "request \<Rightarrow> TsMsg res" where
  "decoded r = bindO (request_times (normal r)) (\<lambda>(b, e).
     Ok ((new_msg (normal r))\<lparr>BeginTimestamp := b, EndTimestamp := e\<rparr>))"

lemma header_time_pointer: "needs_header k \<Longrightarrow> header_time k = Base_Timestamp"
  by (rule ext) (auto simp: header_time_def Base_Timestamp_def needs_header_def split: option.splits)

lemma header_time_getter: "\<not> needs_header k \<Longrightarrow> k \<noteq> DataNodeTtMsg \<Longrightarrow> header_time k = GetBase_GetTimestamp"
  by (rule ext) (auto simp: header_time_def GetBase_GetTimestamp_def split: option.splits)

lemma header_time_none: "header_time DataNodeTtMsg = no_Timestamp"
  by (rule ext) (auto simp: header_time_def no_Timestamp_def needs_header_def split: option.splits)

lemma m_Unmarshal_kind: "m_Unmarshal (plain_methods_of k) = plain_Unmarshal k (header_time k)"
  by (cases k) (simp_all add: kind_methods_defs header_time_pointer header_time_getter header_time_none
      needs_header_def)

lemma m_Unmarshal_plain:
  "m_Unmarshal (plain_methods_of k) c (AnyBytes b) =
     bindO (pb_UnmarshalPlain c k b) (\<lambda>r. decoded (PlainReq k r))"
  by (simp add: m_Unmarshal_kind plain_Unmarshal_def decoded_def bindO_assoc cong: bindO_cong)

lemma m_Marshal_plain:
  "m_Marshal (plain_methods_of k) c m = plain_Marshal k c m"
  by (cases k) (simp_all add: kind_methods_defs)

lemma m_Unmarshal_Insert:
  "m_Unmarshal InsertMsg_methods c (AnyBytes b) = bindO (pb_UnmarshalInsert c b) (\<lambda>r. decoded (InsertReq r))"
  by (simp add: InsertMsg_methods_def InsertMsg_Unmarshal_def decoded_def split_beta cong: bindO_cong)

lemma m_Unmarshal_Delete:
  "m_Unmarshal DeleteMsg_methods c (AnyBytes b) = bindO (pb_UnmarshalDelete c b) (\<lambda>r. decoded (DeleteReq r))"
  by (simp add: DeleteMsg_methods_def DeleteMsg_Unmarshal_def decoded_def Let_def split_beta cong: bindO_cong)

lemma Dispatcher_kind:
  "NewUnmarshalDispatcher (type_of_kind k) = Some (m_Unmarshal (plain_methods_of k))"
  by (cases k) (simp_all add: NewUnmarshalDispatcher_def)

lemma Dispatcher_Insert: "NewUnmarshalDispatcher MT_Insert = Some (m_Unmarshal InsertMsg_methods)"
  and Dispatcher_Delete: "NewUnmarshalDispatcher MT_Delete = Some (m_Unmarshal DeleteMsg_methods)"
  by (simp_all add: NewUnmarshalDispatcher_def)

lemma Marshal_Ok_iff: "Marshal c m = Ok a \<longleftrightarrow> (\<exists>b. pb_Marshal c (Req m) = Ok b \<and> a = AnyBytes b)"
  by (cases "Req m") (auto simp: Marshal_def m_Marshal_plain plain_Marshal_def InsertMsg_methods_def
      DeleteMsg_methods_def InsertMsg_Marshal_def DeleteMsg_Marshal_def outcome_simps)

lemma codec_laws_Insert: "codec_laws c \<Longrightarrow> pb_Marshal c (InsertReq i) = Ok b \<Longrightarrow> pb_UnmarshalInsert c b = Ok i"
  and codec_laws_Delete: "codec_laws c \<Longrightarrow> pb_Marshal c (DeleteReq d) = Ok b \<Longrightarrow> pb_UnmarshalDelete c b = Ok d"
  and codec_laws_Plain: "codec_laws c \<Longrightarrow> pb_Marshal c (PlainReq k p) = Ok b \<Longrightarrow> pb_UnmarshalPlain c k b = Ok p"
  and codec_laws_header: "codec_laws c \<Longrightarrow> pb_Marshal c r = Ok b \<Longrightarrow> pb_UnmarshalHeader c b = Ok (base_of r)"
  unfolding codec_laws_def by (force split: request.splits)+

lemma registered_cases:
  obtains (plain) k where "t = type_of_kind k" | (insert_type) "t = MT_Insert" | (delete_type) "t = MT_Delete"
  | (none) "NewUnmarshalDispatcher t = None"
proof (cases "NewUnmarshalDispatcher t")
  case (Some f)
  then have "t \<in> insert MT_Insert (insert MT_Delete (type_of_kind ` {TimeTickMsg, CreateCollectionMsg,
      DropCollectionMsg, CreatePartitionMsg, DropPartitionMsg, DataNodeTtMsg, LoadCollectionMsg,
      ReleaseCollectionMsg, FlushMsg, CreateIndexMsg, DropIndexMsg, LoadPartitionsMsg,
      ReleasePartitionsMsg, CreateDatabaseMsg, DropDatabaseMsg}))"
    by (cases t) (simp_all add: NewUnmarshalDispatcher_def)
  with that show ?thesis by blast
qed (rule that)

lemma decoded_Ok: "decoded r = Ok m \<Longrightarrow> Req m = normal r \<and> HashValues m = [] \<and> MsgPos m = None"
  by (auto simp: decoded_def outcome_simps new_msg_def)

lemma decoded_plain_times: "decoded (PlainReq k r) = Ok m \<Longrightarrow> BeginTimestamp m = EndTimestamp m"
  by (auto simp: decoded_def outcome_simps new_msg_def)

lemma decoded_Panic: "decoded r = Panic p \<Longrightarrow> \<exists>k x. r = PlainReq k x \<and> needs_header k"
  by (cases r) (auto simp: decoded_def outcome_simps header_time_def split: option.splits if_splits prod.splits)

lemma decoded_not_Err [simp]: "decoded r \<noteq> Err e"
  by (cases r) (auto simp: decoded_def outcome_simps header_time_def split: option.splits prod.splits)

lemma type_of_normal [simp]: "type_of_request (normal r) = type_of_request r"
  by (cases r) auto

lemma fold_widen:
  assumes "b \<le> e"
  shows "fold widen tss (b, e) = (Min (insert b (set tss)), Max (insert e (set tss)))"
  using assms
proof (induction tss arbitrary: b e)
  case (Cons t tss)
  have w: "widen t (b, e) = (min b t, max e t)" 
    using Cons.prems by (auto simp: widen_def min_def max_def)
  have "min b t \<le> max e t" by (meson max.coboundedI2 min.cobounded2)
  from Cons.IH [OF this] w show ?case
    by (cases "tss = []") (simp_all add: min.assoc max.assoc)
qed simp

section \<open>Properties\<close>

text \<open>The timestamps of a decoded insert or delete message are the smallest and the largest of its
  row timestamps, whatever their order, and 0 for a message without rows.\<close>

theorem ts_range_Min_Max:
  "ts_range tss = (if tss = [] then (0, 0) else (Min (set tss), Max (set tss)))"
proof (cases tss)
  case (Cons t ts)
  have "widen t (t, t) = (t, t)" by (simp add: widen_def)
  with Cons show ?thesis by (simp add: ts_range_def fold_widen)
qed (simp add: ts_range_def)

lemma dispatch_marshalled:
  assumes "codec_laws c" and "Marshal c m = Ok a"
  shows "Dispatcher_Unmarshal NewUnmarshalDispatcher c a (type_of_request (Req m)) = decoded (Req m)"
proof -
  from assms(2) obtain b where b: "pb_Marshal c (Req m) = Ok b" "a = AnyBytes b"
    by (auto simp: Marshal_Ok_iff)
  with assms(1) show ?thesis
    by (cases "Req m") (auto simp: Dispatcher_Unmarshal_def Dispatcher_kind Dispatcher_Insert Dispatcher_Delete
        m_Unmarshal_plain m_Unmarshal_Insert m_Unmarshal_Delete codec_laws_Insert codec_laws_Delete
        codec_laws_Plain)
qed

text \<open>C15: what the consumer decodes of a marshalled message. The dispatcher finds the decoder of the
  message's dynamic type; the result carries the request (a delete request with its keys normalised) and
  the timestamps of its rows or of its header, and none of the trace context, hash values and position.
  A time tick or a create or drop message without header makes the decoder panic.\<close>

theorem Marshal_dispatch_roundtrip:
  assumes "codec_laws c" and "Marshal c m = Ok a"
  shows "Dispatcher_Unmarshal NewUnmarshalDispatcher c a (type_of_request (Req m)) = decoded (Req m)"
  using dispatch_marshalled [OF assms] .

definition sample_base :: "MsgType \<Rightarrow> timestamp \<Rightarrow> MsgBase" where
  "sample_base t ts = \<lparr>mb_MsgType = t, mb_MsgID = 1, mb_Timestamp = ts, mb_SourceID = 2, mb_TargetID = 0\<rparr>"

definition sample_delete :: DeleteRequest where
  "sample_delete = \<lparr>dr_Base = Some (sample_base MT_Delete 9), dr_ShardName = ''c_v0'', dr_CollectionName = ''c'',
     dr_PartitionName = ''p'', dr_CollectionID = 5, dr_Timestamps = [9, 7], dr_NumRows = 0,
     dr_Int64PrimaryKeys = [3, 4], dr_PrimaryKeys = None\<rparr>"

definition sample_insert :: InsertRequest where
  "sample_insert = \<lparr>ir_Base = Some (sample_base MT_Insert 9), ir_ShardName = ''c_v0'', ir_CollectionName = ''c'',
     ir_PartitionName = ''p'', ir_DbID = 1, ir_CollectionID = 5, ir_PartitionID = 6, ir_SegmentID = 7,
     ir_Timestamps = [9, 8], ir_RowIDs = [1, 2], ir_RowData = [], ir_FieldsData = map Some sample_cols,
     ir_NumRows = 2, ir_Version = ColumnBased\<rparr>"

theorem Marshal_dispatch_roundtrip_witness:
  "let c = table_codec [InsertReq sample_insert, DeleteReq sample_delete];
       r = DeleteReq (sample_delete\<lparr>dr_PrimaryKeys := Some (IntId [3, 4]), dr_NumRows := 2\<rparr>)
   in bindO (Marshal c (new_msg (DeleteReq sample_delete)))
        (\<lambda>a. Dispatcher_Unmarshal NewUnmarshalDispatcher c a MT_Delete)
      = Ok ((new_msg r)\<lparr>BeginTimestamp := 7, EndTimestamp := 9\<rparr>)"
proof -
  let ?c = "table_codec [InsertReq sample_insert, DeleteReq sample_delete]"
  let ?m = "new_msg (DeleteReq sample_delete)"
  have m: "Marshal ?c ?m = Ok (AnyBytes [0])"
    by (auto simp: Marshal_Ok_iff table_codec_def new_msg_def)
  from Marshal_dispatch_roundtrip [OF table_codec_laws m]
  have "Dispatcher_Unmarshal NewUnmarshalDispatcher ?c (AnyBytes [0]) MT_Delete = decoded (DeleteReq sample_delete)"
    by (simp add: new_msg_def)
  then show ?thesis
    unfolding Let_def m
    by (simp add: decoded_def fix_primary_keys_def sample_delete_def ts_range_def widen_def)
qed

text \<open>C16: the dispatcher never confuses types: what it decodes for a type is a request of that dynamic
  type, and a type it has no decoder for (load index, undefined, any other number) is an error.\<close>

theorem Dispatcher_dynamic_type:
  "case Dispatcher_Unmarshal NewUnmarshalDispatcher c (AnyBytes b) t of
     Ok m \<Rightarrow> type_of_request (Req m) = t \<and> HashKeys m = [] \<and> Position m = None
       \<and> (t = MT_Insert \<or> t = MT_Delete \<or> BeginTs m = EndTs m)
   | Err e \<Rightarrow> t \<in> {MT_LoadIndex, MT_Undefined} \<or> (\<exists>n. t = MT_Other n) \<or> pb_UnmarshalInsert c b = Err e
       \<or> pb_UnmarshalDelete c b = Err e \<or> (\<exists>k. t = type_of_kind k \<and> pb_UnmarshalPlain c k b = Err e)
   | Panic p \<Rightarrow> pb_UnmarshalInsert c b = Panic p \<or> pb_UnmarshalDelete c b = Panic p
       \<or> (\<exists>k. t = type_of_kind k \<and> (needs_header k \<or> pb_UnmarshalPlain c k b = Panic p))"
proof (cases t rule: registered_cases)
  case (plain k)
  have "Dispatcher_Unmarshal NewUnmarshalDispatcher c (AnyBytes b) t =
      bindO (pb_UnmarshalPlain c k b) (\<lambda>r. decoded (PlainReq k r))"
    using plain by (simp add: Dispatcher_Unmarshal_def Dispatcher_kind m_Unmarshal_plain)
  with plain show ?thesis
    by (auto simp: outcome_simps HashKeys_def Position_def BeginTs_def EndTs_def
        dest: decoded_Ok decoded_plain_times decoded_Panic split: outcome.split)
next
  case insert_type
  then show ?thesis
    by (auto simp: Dispatcher_Unmarshal_def Dispatcher_Insert m_Unmarshal_Insert outcome_simps
        HashKeys_def Position_def dest: decoded_Ok decoded_Panic split: outcome.split)
next
  case delete_type
  then show ?thesis
    by (auto simp: Dispatcher_Unmarshal_def Dispatcher_Delete m_Unmarshal_Delete outcome_simps
        HashKeys_def Position_def dest: decoded_Ok decoded_Panic split: outcome.split)
next
  case none
  then show ?thesis
    by (cases t) (simp_all add: Dispatcher_Unmarshal_def NewUnmarshalDispatcher_def)
qed

text \<open>What \<open>CheckAligned\<close> has checked when it returns no error.\<close>

lemma check_fields:
  "foldO (\<lambda>_ p. bindO (deref p) (\<lambda>field. bindO (GetNumRowOfFieldData field) (\<lambda>m.
      if m \<noteq> n then Err e else Ok ()))) () ps = Ok () \<longleftrightarrow>
   (\<exists>fds. ps = map Some fds \<and> aligned n fds)"
proof (induction ps)
  case (Cons p ps)
  then show ?case
    by (auto simp: outcome_simps Cons_eq_map_conv split: if_splits)
qed simp

lemma CheckAligned_Ok_iff:
  "InsertMsg_CheckAligned it = Ok () \<longleftrightarrow>
     length (ir_RowIDs it) = NRows it \<and> length (ir_Timestamps it) = NRows it \<and>
     (IsColumnBased it \<longrightarrow> (\<exists>fds. ir_FieldsData it = map Some fds \<and> aligned (NRows it) fds))"
  using check_fields [of "NRows it" _ "ir_FieldsData it"]
  by (cases "IsColumnBased it") (auto simp: InsertMsg_CheckAligned_def outcome_simps simp del: foldO.simps)

lemma IndexRequest_row:
  assumes "InsertMsg_CheckAligned it = Ok ()" and "ir_Version it \<in> {RowBased, ColumnBased}"
    and "ir_Base it \<noteq> None" and "i < NRows it"
  shows "case IndexRequest it (int i) of
      Ok r \<Rightarrow> InsertMsg_CheckAligned r = Ok () \<and> NRows r = 1 \<and> ir_CollectionID r = ir_CollectionID it
        \<and> ir_Timestamps r = [ir_Timestamps it ! i] \<and> ir_RowIDs r = [ir_RowIDs it ! i]
        \<and> (if IsRowBased it then ir_RowData r = [ir_RowData it ! i]
           else ir_FieldsData r = map (map_option (row_field i)) (ir_FieldsData it))
    | _ \<Rightarrow> False"
proof -
  from assms(3) obtain b where b: "ir_Base it = Some b" by auto
  have base: "index_base it (int i) = Ok (NewMsgBase [WithMsgType MT_Insert, WithMsgID (mb_MsgID b),
      WithTimeStamp (ir_Timestamps it ! i), WithSourceID (mb_SourceID b)])"
    using assms b by (simp add: index_base_def CheckAligned_Ok_iff)
  show ?thesis
  proof (cases "IsRowBased it")
    case True
    then have "NRows it = length (ir_RowData it)" by (simp add: NRows_def)
    with True assms base show ?thesis
      by (simp add: IndexRequest_def rowBasedIndexRequest_def CheckAligned_Ok_iff NRows_def
          IsRowBased_def IsColumnBased_def)
  next
    case False
    then have col: "IsColumnBased it" using assms(2) by (auto simp: IsColumnBased_def IsRowBased_def)
    with assms(1) obtain fds where fds: "ir_FieldsData it = map Some fds" "aligned (NRows it) fds"
      by (auto simp: CheckAligned_Ok_iff)
    from AppendFieldData_row [OF fds(2) assms(4)] obtain sz where
      "AppendFieldData (replicate (length fds) None) fds (int i) = Ok (map (Some \<circ> row_field i) fds, sz)"
      by blast
    moreover have "aligned 1 (map (row_field i) fds)"
      using fds(2) assms(4) by (auto simp: aligned_def row_field_rows)
    ultimately show ?thesis
      using False assms base fds(1)
      by (auto simp: IndexRequest_def columnBasedIndexRequest_def CheckAligned_Ok_iff NRows_def
          IsRowBased_def IsColumnBased_def intro: exI [of _ "map (row_field i) fds"])
  qed
qed

text \<open>An insert message that passes \<open>CheckAligned\<close> can be cut into its rows: for every row index
  \<open>IndexRequest\<close> returns a request of one row that is aligned again and holds the timestamp, the id and
  the data of exactly that row.\<close>

theorem CheckAligned_IndexRequest:
  assumes "InsertMsg_CheckAligned it = Ok ()" and "ir_Version it \<in> {RowBased, ColumnBased}"
    and "ir_Base it \<noteq> None" and "i < NRows it"
  shows "case IndexRequest it (int i) of
      Ok r \<Rightarrow> InsertMsg_CheckAligned r = Ok () \<and> NRows r = 1 \<and> ir_CollectionID r = ir_CollectionID it
        \<and> ir_Timestamps r = [ir_Timestamps it ! i] \<and> ir_RowIDs r = [ir_RowIDs it ! i]
        \<and> (if IsRowBased it then ir_RowData r = [ir_RowData it ! i]
           else ir_FieldsData r = map (map_option (row_field i)) (ir_FieldsData it))
    | _ \<Rightarrow> False"
  using IndexRequest_row [OF assms] .

theorem CheckAligned_IndexRequest_witness:
  "case IndexRequest sample_insert 1 of
      Ok r \<Rightarrow> InsertMsg_CheckAligned r = Ok () \<and> ir_Timestamps r = [8] \<and> ir_RowIDs r = [2]
    | _ \<Rightarrow> False"
proof -
  have n: "NRows sample_insert = 2" by (simp add: sample_insert_def NRows_def IsRowBased_def)
  have "InsertMsg_CheckAligned sample_insert = Ok ()"
    unfolding CheckAligned_Ok_iff n using aligned_sample by (auto simp: sample_insert_def)
  moreover have "ir_Version sample_insert = ColumnBased" "ir_Base sample_insert \<noteq> None"
    "ir_Timestamps sample_insert = [9, 8]" "ir_RowIDs sample_insert = [1, 2]"
    by (simp_all add: sample_insert_def)
  ultimately show ?thesis
    using CheckAligned_IndexRequest [of sample_insert 1] by (simp add: n split: outcome.splits)
qed

end
