(* ===== verification/Repack.thy ===== *)
theory Repack
  imports Messages
begin

text \<open>
  Message packs and the three repack functions of pkg/mq/msgstream/repack\_func.go, which sort the
  messages of a pack into one pack per channel index, with \<open>ComputeProduceChannelIndexes\<close> of
  mq\_msgstream.go, which computes the indexes from the hash values.

  A Go map from channel indexes to packs is a map (\<open>packs\<close>). The locale \<open>repacker\<close> is the contract the
  stream relies on when it produces: every piece of every message lands in the pack of its own key, in
  the order of the input. The three functions are interpretations of it.
\<close>

section \<open>Message packs\<close>

record MsgPack =
  Pack_BeginTs :: timestamp
  Pack_EndTs :: timestamp
  Msgs :: "TsMsg list"
  StartPositions :: "MsgPosition option list"
  EndPositions :: "MsgPosition option list"

definition empty_pack :: MsgPack where
  "empty_pack = \<lparr>Pack_BeginTs = 0, Pack_EndTs = 0, Msgs = [], StartPositions = [], EndPositions = []\<rparr>"

type_synonym packs = "int \<rightharpoonup> MsgPack"

text \<open>Adding a message to the pack of a key, which is created when it is missing.\<close>

definition add_msg :: "packs \<Rightarrow> int \<Rightarrow> TsMsg \<Rightarrow> packs" where
  "add_msg result key m =
     (let p = (case result key of None \<Rightarrow> empty_pack | Some p \<Rightarrow> p)
      in result(key \<mapsto> p\<lparr>Msgs := Msgs p @ [m]\<rparr>))"

section \<open>The repack functions\<close>

type_synonym RepackFunc = "TsMsg list \<Rightarrow> int list list \<Rightarrow> packs res"

definition InsertRepack_body :: "int list list \<Rightarrow> packs \<Rightarrow> nat \<times> TsMsg \<Rightarrow> packs res" where
  "InsertRepack_body hashKeys result = (\<lambda>(i, request).
     bindO (msg_Type request) (\<lambda>t.
       if t \<noteq> MT_Insert then Err (ErrorString ''msg's must be Insert'')
       else case Req request of
         InsertReq insertRequest \<Rightarrow>
           bindO (go_index hashKeys (int i)) (\<lambda>keys.
           bindO (InsertMsg_CheckAligned insertRequest) (\<lambda>_.
             if NRows insertRequest \<noteq> length keys
             then Err (ErrorString ''the length of hashValue, timestamps, rowIDs, RowData are not equal'')
             else foldO (\<lambda>res (index, key).
                    bindO (IndexMsg request (int index)) (\<lambda>m. Ok (add_msg res key m)))
                  result (enumerate 0 keys)))
       | _ \<Rightarrow> Panic ''interface conversion''))"

definition InsertRepackFunc :: RepackFunc where
  "InsertRepackFunc tsMsgs hashKeys = foldO (InsertRepack_body hashKeys) Map.empty (enumerate 0 tsMsgs)"

definition DeleteRepack_body :: "int list list \<Rightarrow> packs \<Rightarrow> nat \<times> TsMsg \<Rightarrow> packs res" where
  "DeleteRepack_body hashKeys result = (\<lambda>(i, request).
     bindO (msg_Type request) (\<lambda>t.
       if t \<noteq> MT_Delete then Err (ErrorString ''msg's must be Delete'')
       else case Req request of
         DeleteReq deleteRequest \<Rightarrow>
           bindO (go_index hashKeys (int i)) (\<lambda>keys.
             if length keys \<noteq> length (dr_Timestamps deleteRequest)
                \<or> int (length keys) \<noteq> dr_NumRows deleteRequest
             then Err (ErrorString ''the length of hashValue, timestamps, primaryKeys are not equal'')
             else bindO (go_index keys 0) (\<lambda>key. Ok (add_msg result key request)))
       | _ \<Rightarrow> Panic ''interface conversion''))"

definition DeleteRepackFunc :: RepackFunc where
  "DeleteRepackFunc tsMsgs hashKeys = foldO (DeleteRepack_body hashKeys) Map.empty (enumerate 0 tsMsgs)"

definition DefaultRepack_body :: "int list list \<Rightarrow> packs \<Rightarrow> nat \<times> TsMsg \<Rightarrow> packs res" where
  "DefaultRepack_body hashKeys pack = (\<lambda>(idx, msg).
     bindO (go_index hashKeys (int idx)) (\<lambda>keys.
       if length keys \<le> 0 then Err (ErrorString ''no hash key for message'')
       else bindO (go_index keys 0) (\<lambda>key. Ok (add_msg pack key msg))))"

definition DefaultRepackFunc :: RepackFunc where
  "DefaultRepackFunc tsMsgs hashKeys =
     (if length hashKeys < length tsMsgs
      then Err (ErrorString ''the length of hash keys is less than the length of messages'')
      else foldO (DefaultRepack_body hashKeys) Map.empty (enumerate 0 tsMsgs))"

section \<open>Channel indexes\<close>

text \<open>\<open>hashValue % channelNum\<close> is computed on \<open>uint32\<close> and converted to \<open>int32\<close>.\<close>

definition ComputeProduceChannelIndexes :: "string list \<Rightarrow> TsMsg list \<Rightarrow> int list list" where
  "ComputeProduceChannelIndexes producerChannels tsMsgs =
     (let channelNum = (of_nat (length producerChannels) :: uint32)
      in if length tsMsgs \<le> 0 \<or> channelNum = 0 then []
         else map (\<lambda>tsMsg. map (\<lambda>hashValue. sint (hashValue mod channelNum)) (HashKeys tsMsg)) tsMsgs)"

section \<open>Lemmas\<close>

definition msgs_of :: "packs \<Rightarrow> int \<Rightarrow> TsMsg list" where
  "msgs_of result key = (case result key of None \<Rightarrow> [] | Some p \<Rightarrow> Msgs p)"

lemma msgs_of_empty [simp]: "msgs_of Map.empty key = []"
  by (simp add: msgs_of_def)

lemma msgs_of_add [simp]:
  "msgs_of (add_msg result k m) key = (if key = k then msgs_of result key @ [m] else msgs_of result key)"
  by (auto simp: msgs_of_def add_msg_def empty_pack_def split: option.splits)

lemma dom_add_msg [simp]: "dom (add_msg result k m) = insert k (dom result)"
  by (simp add: add_msg_def Let_def)

text \<open>The pieces of a list of keyed messages that go to one key, and their effect on the packs.\<close>

definition pieces_for :: "(int \<times> TsMsg) list \<Rightarrow> int \<Rightarrow> TsMsg list" where
  "pieces_for ps key = map snd (filter (\<lambda>p. fst p = key) ps)"

lemma pieces_for_simps [simp]:
  "pieces_for [] key = []"
  "pieces_for (p # ps) key = (if fst p = key then snd p # pieces_for ps key else pieces_for ps key)"
  "pieces_for (ps @ qs) key = pieces_for ps key @ pieces_for qs key"
  by (simp_all add: pieces_for_def)

definition add_all :: "packs \<Rightarrow> (int \<times> TsMsg) list \<Rightarrow> packs" where
  "add_all result ps = fold (\<lambda>(k, m) r. add_msg r k m) ps result"

lemma add_all_simps [simp]:
  "add_all result [] = result"
  "add_all result (p # ps) = add_all (add_msg result (fst p) (snd p)) ps"
  "add_all result (ps @ qs) = add_all (add_all result ps) qs"
  by (simp_all add: add_all_def split_beta)

lemma msgs_of_add_all: "msgs_of (add_all result ps) key = msgs_of result key @ pieces_for ps key"
  by (induction ps arbitrary: result) auto

lemma dom_add_all: "dom (add_all result ps) = dom result \<union> fst ` set ps"
  by (induction ps arbitrary: result) auto

text \<open>The pieces of a list of messages with their hash keys, in order.\<close>

definition flow :: "(TsMsg \<Rightarrow> int list \<Rightarrow> (int \<times> TsMsg) list) \<Rightarrow> TsMsg list \<Rightarrow> int list list \<Rightarrow> (int \<times> TsMsg) list" where
  "flow pieces ms hks = concat (map (\<lambda>(m, ks). pieces m ks) (zip ms hks))"

lemma flow_simps [simp]:
  "flow pieces [] hks = []"
  "flow pieces (m # ms) (ks # hks) = pieces m ks @ flow pieces ms hks"
  by (simp_all add: flow_def)

lemma set_flow: "p \<in> set (flow pieces ms hks) \<Longrightarrow> \<exists>m ks. m \<in> set ms \<and> ks \<in> set hks \<and> p \<in> set (pieces m ks)"
  by (auto simp: flow_def dest: set_zip_leftD set_zip_rightD)

text \<open>A loop over the numbered messages whose body adds the pieces of each.\<close>

lemma foldO_flow:
  assumes "\<And>r i m r'. body r (i, m) = Ok r' \<Longrightarrow> i < length hks \<and> r' = add_all r (pieces m (hks ! i))"
  shows "foldO body r (enumerate n ms) = Ok r' \<Longrightarrow>
    (ms = [] \<or> n + length ms \<le> length hks) \<and> r' = add_all r (flow pieces ms (drop n hks))"
proof (induction ms arbitrary: r n)
  case (Cons m ms)
  then obtain r1 where r1: "body r (n, m) = Ok r1" "foldO body r1 (enumerate (Suc n) ms) = Ok r'"
    by (auto simp: outcome_simps)
  have n: "n < length hks" "r1 = add_all r (pieces m (hks ! n))" using assms [OF r1(1)] by auto
  have "drop n hks = hks ! n # drop (Suc n) hks" using n(1) by (simp add: Cons_nth_drop_Suc)
  with Cons.IH [OF r1(2)] n show ?case by auto
qed simp

section \<open>The contract\<close>

locale repacker =
  fixes repack :: RepackFunc
    and pieces :: "TsMsg \<Rightarrow> int list \<Rightarrow> (int \<times> TsMsg) list"
  assumes repack_msgs: "repack ms hks = Ok res \<Longrightarrow> msgs_of res key = pieces_for (flow pieces ms hks) key"
    and repack_dom: "repack ms hks = Ok res \<Longrightarrow> dom res = fst ` set (flow pieces ms hks)"
    and repack_length: "repack ms hks = Ok res \<Longrightarrow> length ms \<le> length hks"
    and pieces_keys: "(k, m') \<in> set (pieces m ks) \<Longrightarrow> k \<in> set ks"
begin

lemma keys_of_input:
  assumes "repack ms hks = Ok res" and "res key = Some p"
  shows "\<exists>ks \<in> set hks. key \<in> set ks"
proof -
  from assms obtain m' where "(key, m') \<in> set (flow pieces ms hks)" using repack_dom [OF assms(1)] by force
  with set_flow [OF this] pieces_keys show ?thesis by blast
qed

lemma packs_nonempty:
  assumes "repack ms hks = Ok res" and "res key = Some p"
  shows "Msgs p \<noteq> []"
proof -
  from assms have "key \<in> fst ` set (flow pieces ms hks)" using repack_dom [OF assms(1)] by auto
  then have "pieces_for (flow pieces ms hks) key \<noteq> []" by (auto simp: pieces_for_def filter_empty_conv)
  with repack_msgs [OF assms(1), of key] assms(2) show ?thesis by (simp add: msgs_of_def)
qed

lemma conservation:
  assumes "repack ms hks = Ok res"
  shows "(\<Sum>key \<in> dom res. mset (msgs_of res key)) = mset (map snd (flow pieces ms hks))"
proof -
  have "(\<Sum>key \<in> K. mset (pieces_for ps key)) = mset (map snd ps)"
    if "finite K" "fst ` set ps \<subseteq> K" for K and ps :: "(int \<times> TsMsg) list"
    using that(2)
  proof (induction ps)
    case (Cons p ps)
    have "(\<Sum>key \<in> K. mset (pieces_for (p # ps) key))
        = (\<Sum>key \<in> K. (if fst p = key then {#snd p#} else {#}) + mset (pieces_for ps key))"
      by (rule sum.cong) auto
    also have "\<dots> = (\<Sum>key \<in> K. (if fst p = key then {#snd p#} else {#})) + (\<Sum>key \<in> K. mset (pieces_for ps key))"
      by (rule sum.distrib)
    also have "(\<Sum>key \<in> K. (if fst p = key then {#snd p#} else {#})) = {#snd p#}"
      using that(1) Cons.prems by simp
    finally show ?case using Cons by simp
  qed simp
  from this [of "dom res" "flow pieces ms hks"] repack_dom [OF assms] repack_msgs [OF assms]
  show ?thesis by simp
qed

end

section \<open>The three functions meet it\<close>

definition row_msg :: "TsMsg \<Rightarrow> nat \<Rightarrow> TsMsg" where
  "row_msg m i = (case IndexMsg m (int i) of Ok r \<Rightarrow> r | _ \<Rightarrow> m)"

definition insert_pieces :: "TsMsg \<Rightarrow> int list \<Rightarrow> (int \<times> TsMsg) list" where
  "insert_pieces m ks = map (\<lambda>(i, k). (k, row_msg m i)) (enumerate 0 ks)"

definition whole_piece :: "TsMsg \<Rightarrow> int list \<Rightarrow> (int \<times> TsMsg) list" where
  "whole_piece m ks = (case ks of [] \<Rightarrow> [] | k # _ \<Rightarrow> [(k, m)])"

lemma index_loop:
  "foldO (\<lambda>res (index, key). bindO (IndexMsg m (int index)) (\<lambda>x. Ok (add_msg res key x))) r (enumerate n ks) = Ok r'
   \<Longrightarrow> r' = add_all r (map (\<lambda>(i, k). (k, row_msg m i)) (enumerate n ks))"
  by (induction ks arbitrary: r n) (auto simp: outcome_simps row_msg_def)

lemma InsertRepack_body_Ok:
  assumes "InsertRepack_body hks r (i, m) = Ok r'"
  shows "i < length hks \<and> r' = add_all r (insert_pieces m (hks ! i))"
  using assms unfolding insert_pieces_def
  by (auto simp: InsertRepack_body_def outcome_simps dest!: index_loop split: if_splits request.splits)

lemma go_index_first: "go_index ks 0 = Ok k \<longleftrightarrow> (\<exists>ks'. ks = k # ks')"
  by (cases ks) (auto simp: outcome_simps)

lemma DeleteRepack_body_Ok:
  "DeleteRepack_body hks r (i, m) = Ok r' \<Longrightarrow> i < length hks \<and> r' = add_all r (whole_piece m (hks ! i))"
  by (auto simp: DeleteRepack_body_def outcome_simps go_index_first whole_piece_def
      split: if_splits request.splits list.splits)

lemma DefaultRepack_body_Ok:
  "DefaultRepack_body hks r (i, m) = Ok r' \<Longrightarrow> i < length hks \<and> r' = add_all r (whole_piece m (hks ! i))"
  by (auto simp: DefaultRepack_body_def outcome_simps go_index_first whole_piece_def
      split: if_splits list.splits)

lemma insert_pieces_keys: "(k, m') \<in> set (insert_pieces m ks) \<Longrightarrow> k \<in> set ks"
  by (auto simp: insert_pieces_def in_set_enumerate_eq)

lemma whole_piece_keys: "(k, m') \<in> set (whole_piece m ks) \<Longrightarrow> k \<in> set ks"
  by (auto simp: whole_piece_def split: list.splits)

lemma Insert_flow:
  "InsertRepackFunc ms hks = Ok res \<Longrightarrow>
   length ms \<le> length hks \<and> res = add_all Map.empty (flow insert_pieces ms hks)"
  using foldO_flow [where body = "InsertRepack_body hks" and hks = hks and pieces = insert_pieces and n = 0 and ms = ms
      and r = Map.empty and r' = res, OF InsertRepack_body_Ok]
  by (auto simp: InsertRepackFunc_def)

lemma Delete_flow:
  "DeleteRepackFunc ms hks = Ok res \<Longrightarrow>
   length ms \<le> length hks \<and> res = add_all Map.empty (flow whole_piece ms hks)"
  using foldO_flow [where body = "DeleteRepack_body hks" and hks = hks and pieces = whole_piece and n = 0 and ms = ms
      and r = Map.empty and r' = res, OF DeleteRepack_body_Ok]
  by (auto simp: DeleteRepackFunc_def)

lemma Default_flow:
  "DefaultRepackFunc ms hks = Ok res \<Longrightarrow>
   length ms \<le> length hks \<and> res = add_all Map.empty (flow whole_piece ms hks)"
  using foldO_flow [where body = "DefaultRepack_body hks" and hks = hks and pieces = whole_piece and n = 0 and ms = ms
      and r = Map.empty and r' = res, OF DefaultRepack_body_Ok]
  by (auto simp: DefaultRepackFunc_def split: if_splits)

interpretation insert_rp: repacker InsertRepackFunc insert_pieces
  by (unfold_locales, (drule Insert_flow, simp add: msgs_of_add_all dom_add_all)+) (rule insert_pieces_keys)

interpretation delete_rp: repacker DeleteRepackFunc whole_piece
  by (unfold_locales, (drule Delete_flow, simp add: msgs_of_add_all dom_add_all)+) (rule whole_piece_keys)

interpretation default_rp: repacker DefaultRepackFunc whole_piece
  by (unfold_locales, (drule Default_flow, simp add: msgs_of_add_all dom_add_all)+) (rule whole_piece_keys)

text \<open>A successful run has cut every insert message into rows.\<close>

lemma foldO_each: "foldO f s xs = Ok t \<Longrightarrow> x \<in> set xs \<Longrightarrow> \<exists>u v. f u x = Ok v"
  by (induction xs arbitrary: s) (auto simp: outcome_simps)

lemma InsertRepack_body_rows:
  assumes "InsertRepack_body hks r (i, m) = Ok r'" and "j < length (hks ! i)"
  shows "IndexMsg m (int j) = Ok (row_msg m j)"
proof -
  from assms(1) obtain r1 where
    "foldO (\<lambda>res (index, key). bindO (IndexMsg m (int index)) (\<lambda>x. Ok (add_msg res key x))) r1
       (enumerate 0 (hks ! i)) = (Ok r' :: packs res)"
    by (auto simp: InsertRepack_body_def outcome_simps split: if_splits request.splits)
  moreover have "(j, hks ! i ! j) \<in> set (enumerate 0 (hks ! i))"
    using assms(2) by (simp add: in_set_enumerate_eq)
  ultimately obtain u v where "bindO (IndexMsg m (int j)) (\<lambda>x. Ok (add_msg u (hks ! i ! j) x)) = (Ok v :: packs res)"
    using foldO_each by fastforce
  then show ?thesis by (auto simp: outcome_simps row_msg_def)
qed

lemma InsertRepackFunc_rows_Ok:
  assumes "InsertRepackFunc ms hks = Ok res" and "i < length ms" and "j < length (hks ! i)"
  shows "IndexMsg (ms ! i) (int j) = Ok (row_msg (ms ! i) j)"
proof -
  have "(i, ms ! i) \<in> set (enumerate 0 ms)" using assms(2) by (simp add: in_set_enumerate_eq)
  with assms(1) obtain u v where "InsertRepack_body hks u (i, ms ! i) = Ok v"
    unfolding InsertRepackFunc_def using foldO_each by fastforce
  from InsertRepack_body_rows [OF this assms(3)] show ?thesis .
qed

lemma enumerate_nth: "enumerate 0 ks = map (\<lambda>i. (i, ks ! i)) [0..<length ks]"
  using enumerate_map_upt [of 0 "\<lambda>i. ks ! i" "length ks"] by (simp add: map_nth)

lemma pieces_for_map:
  "pieces_for (map (\<lambda>(i, k). (k, f i)) (enumerate 0 ks)) key = map f (filter (\<lambda>i. ks ! i = key) [0..<length ks])"
  by (simp add: enumerate_nth pieces_for_def filter_map o_def)

lemma pieces_for_concat: "pieces_for (concat pss) key = concat (map (\<lambda>ps. pieces_for ps key) pss)"
  by (induction pss) auto

lemma pieces_for_flow:
  "pieces_for (flow pieces ms hks) key = concat (map (\<lambda>(m, ks). pieces_for (pieces m ks) key) (zip ms hks))"
  by (simp add: flow_def pieces_for_concat o_def case_prod_unfold)

text \<open>An insert message that can be repacked under the given keys.\<close>

definition repackable :: "TsMsg \<Rightarrow> int list \<Rightarrow> bool" where
  "repackable m ks = (case Req m of
     InsertReq r \<Rightarrow> (case ir_Base r of None \<Rightarrow> False | Some b \<Rightarrow> mb_MsgType b = MT_Insert)
       \<and> ir_Version r \<in> {RowBased, ColumnBased} \<and> InsertMsg_CheckAligned r = Ok () \<and> NRows r = length ks
   | _ \<Rightarrow> False)"

lemma foldO_returns: "(\<And>x u. x \<in> set xs \<Longrightarrow> \<exists>v. f u x = Ok v) \<Longrightarrow> \<exists>t. foldO f s xs = Ok t"
proof (induction xs arbitrary: s)
  case (Cons x xs)
  then obtain v where v: "f s x = Ok v" by (meson list.set_intros(1))
  with Cons show ?case by auto
qed simp

lemma InsertRepack_body_returns:
  assumes "i < length hks" and "repackable m (hks ! i)"
  shows "\<exists>r'. InsertRepack_body hks r (i, m) = Ok r'"
proof -
  from assms(2) obtain x b where x: "Req m = InsertReq x" "ir_Base x = Some b" "mb_MsgType b = MT_Insert"
    "ir_Version x \<in> {RowBased, ColumnBased}" "InsertMsg_CheckAligned x = Ok ()" "NRows x = length (hks ! i)"
    unfolding repackable_def by (auto split: request.splits option.splits)
  have "\<exists>y. IndexMsg m (int j) = Ok y" if "j < length (hks ! i)" for j
    using IndexRequest_row [of x j] x that by (auto simp: IndexMsg_def split: outcome.splits)
  then have "\<exists>t. foldO (\<lambda>res (index, key). bindO (IndexMsg m (int index)) (\<lambda>x. Ok (add_msg res key x))) r
      (enumerate 0 (hks ! i)) = (Ok t :: packs res)"
    by (intro foldO_returns) (fastforce simp: in_set_enumerate_eq)
  with x assms(1) show ?thesis by (auto simp: InsertRepack_body_def msg_Type_def read_base_def)
qed

section \<open>Properties\<close>

text \<open>C14: after \<open>InsertRepackFunc\<close> the pack of a key holds the rows hashed to it, message by message and
  in row order, and every one of them is what \<open>IndexMsg\<close> cuts out of its message: no row is lost, moved
  to another channel or duplicated.\<close>

theorem InsertRepackFunc_rows:
  assumes "InsertRepackFunc ms hks = Ok res"
  shows "msgs_of res key =
      concat (map (\<lambda>(m, ks). map (row_msg m) (filter (\<lambda>j. ks ! j = key) [0..<length ks])) (zip ms hks))
    \<and> (\<forall>i < length ms. \<forall>j < length (hks ! i). IndexMsg (ms ! i) (int j) = Ok (row_msg (ms ! i) j))"
  using insert_rp.repack_msgs [OF assms, of key] InsertRepackFunc_rows_Ok [OF assms]
  by (simp add: pieces_for_flow insert_pieces_def pieces_for_map)

text \<open>\<open>InsertRepackFunc\<close> neither fails nor panics on aligned insert messages that have as many hash
  keys as rows.\<close>

theorem InsertRepackFunc_returns:
  assumes "length ms \<le> length hks" and "list_all (\<lambda>i. repackable (ms ! i) (hks ! i)) [0..<length ms]"
  shows "is_Ok (InsertRepackFunc ms hks)"
proof -
  have "\<exists>t. foldO (InsertRepack_body hks) Map.empty (enumerate 0 ms) = Ok t"
  proof (rule foldO_returns)
    fix x :: "nat \<times> TsMsg" and u
    assume "x \<in> set (enumerate 0 ms)"
    then obtain i where "x = (i, ms ! i)" "i < length ms" by (auto simp: enumerate_nth)
    with assms show "\<exists>v. InsertRepack_body hks u x = Ok v"
      by (auto simp: list_all_iff intro: InsertRepack_body_returns)
  qed
  then show ?thesis by (auto simp: is_Ok_iff InsertRepackFunc_def)
qed

definition sample_msg :: TsMsg where
  "sample_msg = (new_msg (InsertReq sample_insert))\<lparr>HashValues := [4, 7]\<rparr>"

lemma sample_repackable: "repackable sample_msg [1, 0]"
proof -
  have n: "NRows sample_insert = 2" by (simp add: sample_insert_def NRows_def IsRowBased_def)
  have "InsertMsg_CheckAligned sample_insert = Ok ()"
    unfolding CheckAligned_Ok_iff n using aligned_sample by (auto simp: sample_insert_def)
  with n show ?thesis
    by (simp add: repackable_def sample_msg_def new_msg_def) (simp add: sample_insert_def sample_base_def)
qed

theorem InsertRepackFunc_returns_witness: "is_Ok (InsertRepackFunc [sample_msg] [[1, 0]])"
  using sample_repackable by (intro InsertRepackFunc_returns) simp_all

lemma sample_repacked: "\<exists>res. InsertRepackFunc [sample_msg] [[1, 0]] = Ok res"
  using foldO_returns [of "enumerate 0 [sample_msg]" "InsertRepack_body [[1, 0]]" Map.empty]
    InsertRepack_body_returns [of 0 "[[1, 0]]" sample_msg] sample_repackable
  by (auto simp: InsertRepackFunc_def)

theorem InsertRepackFunc_rows_witness:
  "case InsertRepackFunc [sample_msg] [[1, 0]] of
     Ok res \<Rightarrow> msgs_of res 0 = [row_msg sample_msg 1] \<and> IndexMsg sample_msg 1 = Ok (row_msg sample_msg 1)
   | _ \<Rightarrow> False"
proof -
  obtain res where res: "InsertRepackFunc [sample_msg] [[1, 0]] = Ok res" using sample_repacked ..
  have "[0..<2] = [0::nat, 1]" by (simp add: upt_rec)
  with InsertRepackFunc_rows [OF res, of 0] have "msgs_of res 0 = [row_msg sample_msg 1]"
    by (simp add: numeral_2_eq_2)
  moreover from InsertRepackFunc_rows [OF res, of 0] have "IndexMsg sample_msg (int 1) = Ok (row_msg sample_msg 1)"
    by (metis (no_types, lifting) One_nat_def length_Cons lessI nth_Cons_0 list.size(3) zero_less_Suc)
  ultimately show ?thesis using res by simp
qed

text \<open>The three repack functions neither lose nor duplicate messages: taken together the packs of all
  keys hold exactly the pieces of the input, a key has a pack only if a message was hashed to it, and no
  pack is empty. (The pieces of a delete or any other message are the message itself under its first
  key.)\<close>

theorem DefaultRepackFunc_conserves:
  assumes "DefaultRepackFunc ms hks = Ok res"
  shows "(\<Sum>key \<in> dom res. mset (msgs_of res key)) = mset ms
    \<and> (\<forall>key p. res key = Some p \<longrightarrow> Msgs p \<noteq> [] \<and> (\<exists>ks \<in> set hks. key \<in> set ks))"
proof -
  have "map snd (flow whole_piece ms hks) = ms"
    if "foldO (DefaultRepack_body hks') r (enumerate n ms) = Ok res" "hks = drop n hks'" for r n hks'
    using that
  proof (induction ms arbitrary: r n hks)
    case (Cons m ms)
    then obtain r1 where r1: "DefaultRepack_body hks' r (n, m) = Ok r1"
      "foldO (DefaultRepack_body hks') r1 (enumerate (Suc n) ms) = Ok res"
      by (auto simp: outcome_simps)
    from r1(1) have n: "n < length hks'" "hks' ! n \<noteq> []"
      by (auto simp: DefaultRepack_body_def outcome_simps split: if_splits)
    then have "hks = hks' ! n # drop (Suc n) hks'" using Cons.prems(2) by (simp add: Cons_nth_drop_Suc)
    with Cons.IH [OF r1(2) refl] n(2) show ?case by (auto simp: whole_piece_def split: list.splits)
  qed simp
  from this [of hks Map.empty 0] assms have "map snd (flow whole_piece ms hks) = ms"
    by (simp add: DefaultRepackFunc_def split: if_splits)
  with default_rp.conservation [OF assms] default_rp.packs_nonempty [OF assms]
    default_rp.keys_of_input [OF assms] show ?thesis by simp
qed

theorem DefaultRepackFunc_conserves_witness:
  "case DefaultRepackFunc [sample_msg, new_msg (DeleteReq sample_delete)] [[1, 0], [0, 0]] of
     Ok res \<Rightarrow> dom res = {0, 1} \<and>
       (\<Sum>key \<in> {0, 1}. mset (msgs_of res key)) = {#sample_msg, new_msg (DeleteReq sample_delete)#}
   | _ \<Rightarrow> False"
proof -
  obtain res where res: "DefaultRepackFunc [sample_msg, new_msg (DeleteReq sample_delete)] [[1, 0], [0, 0]] = Ok res"
    "dom res = {0, 1}"
    by (simp add: DefaultRepackFunc_def DefaultRepack_body_def go_index_def insert_commute)
  from DefaultRepackFunc_conserves [OF res(1)] res show ?thesis
    by simp
qed

text \<open>A delete message without rows makes \<open>DeleteRepackFunc\<close> panic: it passes the length check (no
  keys, no timestamps, row count 0) and its first key is read. The same message is an error, not a panic,
  for \<open>DefaultRepackFunc\<close>.\<close>

theorem DeleteRepackFunc_zero_rows:
  "let m = new_msg (DeleteReq (sample_delete\<lparr>dr_Timestamps := [], dr_NumRows := 0\<rparr>))
   in is_Panic (DeleteRepackFunc [m] [[]]) \<and> DefaultRepackFunc [m] [[]] = Err (ErrorString ''no hash key for message'')"
  by (simp add: DeleteRepackFunc_def DeleteRepack_body_def msg_Type_def read_base_def new_msg_def Let_def
      sample_delete_def sample_base_def go_index_def DefaultRepackFunc_def DefaultRepack_body_def)

lemma index_range:
  assumes "0 < n" and "n < 2 ^ 31"
  shows "0 \<le> sint ((h::uint32) mod of_nat n) \<and> sint (h mod of_nat n) < int n
    \<and> sint (h mod of_nat n) = int (unat h mod n)"
proof -
  have n: "unat (of_nat n :: uint32) = n" using assms(2) by (simp add: unat_of_nat)
  then have u: "unat (h mod of_nat n) = unat h mod n" by (simp add: unat_mod_distrib)
  moreover have "unat h mod n < 2 ^ 31" using assms by (meson mod_less_divisor order.strict_trans)
  ultimately have "uint (h mod of_nat n) < 2 ^ 31" by (metis of_nat_less_iff of_nat_numeral of_nat_power of_nat_unat)
  then have "sint (h mod of_nat n) = uint (h mod of_nat n)"
    unfolding sint_uint by (intro signed_take_bit_int_eq_self) (simp_all add: order_trans [OF _ unsigned_greater_eq])
  with u have "sint (h mod of_nat n) = int (unat h mod n)" by (metis of_nat_unat)
  with assms(1) show ?thesis by simp
qed

text \<open>With at most \<open>2^31 - 1\<close> producer channels every computed index is the hash value modulo the
  number of channels and the index of a channel, so that \<open>Produce\<close> never reads a channel out of range.\<close>

theorem ComputeProduceChannelIndexes_range:
  assumes "0 < length chans" and "length chans < 2 ^ 31"
  shows "ComputeProduceChannelIndexes chans ms =
      map (\<lambda>m. map (\<lambda>h. int (unat h mod length chans)) (HashKeys m)) ms
    \<and> (\<forall>ks \<in> set (ComputeProduceChannelIndexes chans ms). \<forall>k \<in> set ks. 0 \<le> k \<and> k < int (length chans))"
proof -
  have "(of_nat (length chans) :: uint32) \<noteq> 0"
    using assms by (auto simp: word_unat_eq_iff unat_of_nat)
  then have "ComputeProduceChannelIndexes chans ms =
      map (\<lambda>m. map (\<lambda>h. sint (h mod of_nat (length chans))) (HashKeys m)) ms"
    by (auto simp: ComputeProduceChannelIndexes_def Let_def)
  then have "ComputeProduceChannelIndexes chans ms =
      map (\<lambda>m. map (\<lambda>h. int (unat h mod length chans)) (HashKeys m)) ms"
    using index_range [OF assms] by simp
  with assms(1) show ?thesis by auto
qed

theorem ComputeProduceChannelIndexes_range_witness:
  "ComputeProduceChannelIndexes [''a'', ''b'', ''c''] [sample_msg] = [[1, 1]]"
  using ComputeProduceChannelIndexes_range [of "[''a'', ''b'', ''c'']" "[sample_msg]"]
  by (simp add: sample_msg_def HashKeys_def)

end
