(* ===== verification/TypeutilSet.thy ===== *)
theory TypeutilSet
  imports Prelude
begin

text \<open>
  The sets of pkg/util/typeutil/set.go: \<open>Set\<close> (a Go map with empty values) and \<open>ConcurrentSet\<close> (a
  sync.Map, whose methods are atomic, so that one call is one step). Both are sets of elements here;
  the order in which Go walks a map is an argument of the functions that depend on it.

  The locale \<open>id_set\<close> is what the message stream needs of a set to drop the messages it has seen; both
  sets are interpretations.
\<close>

section \<open>Set\<close>

type_synonym 'a Set = "'a set"

definition Set_Insert :: "'a Set \<Rightarrow> 'a list \<Rightarrow> 'a Set" where
  "Set_Insert s elements = fold insert elements s"

definition NewSet :: "'a list \<Rightarrow> 'a Set" where
  "NewSet elements = Set_Insert {} elements"

fun Set_Contain :: "'a Set \<Rightarrow> 'a list \<Rightarrow> bool" where
  "Set_Contain s [] = True"
| "Set_Contain s (e # es) = (if e \<notin> s then False else Set_Contain s es)"

definition Set_Remove :: "'a Set \<Rightarrow> 'a list \<Rightarrow> 'a Set" where
  "Set_Remove s elements = fold (\<lambda>e t. t - {e}) elements s"

text \<open>\<open>walk\<close> is the order in which the map is walked: a list of its elements without repetition.\<close>

definition is_walk :: "'a list \<Rightarrow> 'a Set \<Rightarrow> bool" where
  "is_walk walk s \<longleftrightarrow> distinct walk \<and> set walk = s"

definition Set_Collect :: "'a list \<Rightarrow> 'a Set \<Rightarrow> 'a list" where
  "Set_Collect walk s = foldl (\<lambda>elements elem. elements @ [elem]) [] walk"

definition Set_Intersection :: "'a list \<Rightarrow> 'a Set \<Rightarrow> 'a Set \<Rightarrow> 'a Set" where
  "Set_Intersection walk s other =
     fold (\<lambda>elem ret. if Set_Contain other [elem] then Set_Insert ret [elem] else ret) walk (NewSet [])"

definition Set_Union :: "'a list \<Rightarrow> 'a list \<Rightarrow> 'a Set \<Rightarrow> 'a Set \<Rightarrow> 'a Set" where
  "Set_Union walk walk' s other = Set_Insert (NewSet (Set_Collect walk s)) (Set_Collect walk' other)"

definition Set_Complement :: "'a list \<Rightarrow> 'a list \<Rightarrow> 'a Set \<Rightarrow> 'a Set \<Rightarrow> 'a Set" where
  "Set_Complement walk walk' s other =
     Set_Remove (NewSet (Set_Collect walk s)) (Set_Collect walk' other)"

definition Set_Clear :: "'a list \<Rightarrow> 'a Set \<Rightarrow> 'a Set" where
  "Set_Clear walk s = Set_Remove s (Set_Collect walk s)"

definition Set_Len :: "'a Set \<Rightarrow> nat" where
  "Set_Len s = card s"

section \<open>ConcurrentSet\<close>

type_synonym 'a ConcurrentSet = "'a \<rightharpoonup> unit"

definition CSet_Upsert :: "'a ConcurrentSet \<Rightarrow> 'a list \<Rightarrow> 'a ConcurrentSet" where
  "CSet_Upsert s elements = fold (\<lambda>e t. t(e \<mapsto> ())) elements s"

definition CSet_Insert :: "'a ConcurrentSet \<Rightarrow> 'a \<Rightarrow> bool \<times> 'a ConcurrentSet" where
  "CSet_Insert s element =
     (case s element of Some _ \<Rightarrow> (False, s) | None \<Rightarrow> (True, s(element \<mapsto> ())))"

fun CSet_Contain :: "'a ConcurrentSet \<Rightarrow> 'a list \<Rightarrow> bool" where
  "CSet_Contain s [] = True"
| "CSet_Contain s (e # es) = (if s e = None then False else CSet_Contain s es)"

definition CSet_Remove :: "'a ConcurrentSet \<Rightarrow> 'a list \<Rightarrow> 'a ConcurrentSet" where
  "CSet_Remove s elements = fold (\<lambda>e t. t(e := None)) elements s"

definition CSet_TryRemove :: "'a ConcurrentSet \<Rightarrow> 'a \<Rightarrow> bool \<times> 'a ConcurrentSet" where
  "CSet_TryRemove s element = (s element \<noteq> None, s(element := None))"

section \<open>The set algebra\<close>

lemma Set_Insert_eq [simp]: "Set_Insert s xs = s \<union> set xs"
  unfolding Set_Insert_def by (induction xs arbitrary: s) auto

lemma NewSet_eq [simp]: "NewSet xs = set xs"
  by (simp add: NewSet_def)

lemma Set_Contain_eq [simp]: "Set_Contain s xs \<longleftrightarrow> set xs \<subseteq> s"
  by (induction xs) auto

lemma Set_Remove_eq [simp]: "Set_Remove s xs = s - set xs"
  unfolding Set_Remove_def by (induction xs arbitrary: s) auto

lemma Set_Collect_eq [simp]: "Set_Collect walk s = walk"
proof -
  have "foldl (\<lambda>es e. es @ [e]) ys walk = ys @ walk" for ys :: "'a list"
    by (induction walk arbitrary: ys) auto
  then show ?thesis by (simp add: Set_Collect_def)
qed

lemma Set_Intersection_fold:
  "fold (\<lambda>e r. if Set_Contain other [e] then Set_Insert r [e] else r) walk t = t \<union> (set walk \<inter> other)"
  by (induction walk arbitrary: t) auto

lemma CSet_Upsert_dom [simp]: "dom (CSet_Upsert s xs) = dom s \<union> set xs"
  unfolding CSet_Upsert_def by (induction xs arbitrary: s) auto

lemma CSet_Contain_eq [simp]: "CSet_Contain s xs \<longleftrightarrow> set xs \<subseteq> dom s"
  by (induction xs) auto

section \<open>Dropping what was seen\<close>

text \<open>A loop that keeps an element if its key was not seen before, for the guarded elements, and records
  the keys of all elements it keeps.\<close>

fun uniq_loop :: "('s \<Rightarrow> 'k list \<Rightarrow> bool) \<Rightarrow> ('s \<Rightarrow> 'k list \<Rightarrow> 's) \<Rightarrow> ('m \<Rightarrow> bool) \<Rightarrow> ('m \<Rightarrow> 'k) \<Rightarrow> 's \<Rightarrow>
    'm list \<Rightarrow> 'm list" where
  "uniq_loop contain ins guard key s [] = []"
| "uniq_loop contain ins guard key s (m # ms) =
     (if guard m \<and> contain s [key m] then uniq_loop contain ins guard key s ms
      else m # uniq_loop contain ins guard key (ins s [key m]) ms)"

locale id_set =
  fixes new :: 's
    and ins :: "'s \<Rightarrow> 'k list \<Rightarrow> 's"
    and contain :: "'s \<Rightarrow> 'k list \<Rightarrow> bool"
  assumes contain_new: "contain new [k] \<longleftrightarrow> False"
    and contain_ins: "contain (ins s [j]) [k] \<longleftrightarrow> k = j \<or> contain s [k]"
begin

lemma uniq_seen:
  "\<forall>m \<in> set (uniq_loop contain ins guard key s ms). guard m \<longrightarrow> \<not> contain s [key m]"
proof (induction ms arbitrary: s)
  case (Cons m ms)
  from Cons.IH [of s] Cons.IH [of "ins s [key m]"] show ?case by (auto simp: contain_ins)
qed simp

lemma uniq_distinct: "distinct (map key (filter guard (uniq_loop contain ins guard key s ms)))"
proof (induction ms arbitrary: s)
  case (Cons m ms)
  with uniq_seen [of guard key "ins s [key m]" ms] show ?case by (auto simp: contain_ins)
qed simp

lemma uniq_subseq: "set (uniq_loop contain ins guard key s ms) \<subseteq> set ms"
  by (induction ms arbitrary: s) (auto simp: in_mono)

lemma uniq_mset: "mset (uniq_loop contain ins guard key s ms) \<subseteq># mset ms"
proof (induction ms arbitrary: s)
  case (Cons m ms)
  from Cons.IH [of s] have "mset (uniq_loop contain ins guard key s ms) \<subseteq># add_mset m (mset ms)"
    by (rule subset_mset.order_trans) simp
  with Cons.IH [of "ins s [key m]"] show ?case by simp
qed simp

lemma uniq_keeps_unguarded: "filter (\<lambda>m. \<not> guard m) (uniq_loop contain ins guard key s ms) = filter (\<lambda>m. \<not> guard m) ms"
  by (induction ms arbitrary: s) auto

text \<open>Every element that is dropped has a twin that was kept, or was seen before the loop.\<close>

lemma uniq_complete:
  "m \<in> set ms \<Longrightarrow> contain s [key m] \<or> key m \<in> key ` set (uniq_loop contain ins guard key s ms)"
proof (induction ms arbitrary: s)
  case (Cons x ms)
  show ?case
  proof (cases "m = x")
    case False
    then have "m \<in> set ms" using Cons.prems by simp
    from Cons.IH [OF this, of s] Cons.IH [OF this, of "ins s [key x]"] show ?thesis
      by (auto simp: contain_ins)
  qed auto
qed simp

lemma uniq_all:
  assumes "distinct (map key ms)" and "\<And>m. m \<in> set ms \<Longrightarrow> \<not> contain s [key m]"
  shows "uniq_loop contain ins guard key s ms = ms"
  using assms
proof (induction ms arbitrary: s)
  case (Cons m ms)
  then have "uniq_loop contain ins guard key (ins s [key m]) ms = ms"
    by (intro Cons.IH) (auto simp: contain_ins rev_image_eqI)
  with Cons.prems show ?case by simp
qed simp

end

interpretation unique_set: id_set "NewSet []" Set_Insert Set_Contain
  by unfold_locales auto

interpretation concurrent_set: id_set Map.empty CSet_Upsert CSet_Contain
  by unfold_locales auto

section \<open>Properties\<close>

text \<open>Whatever order Go walks the maps in, \<open>Union\<close>, \<open>Intersection\<close> and \<open>Complement\<close> build the union,
  the intersection and the difference, \<open>Clear\<close> empties the set, and \<open>Len\<close> agrees with \<open>Collect\<close>.\<close>

theorem Set_algebra:
  assumes "is_walk w s" and "is_walk w' t"
  shows "Set_Union w w' s t = s \<union> t \<and> Set_Intersection w s t = s \<inter> t \<and> Set_Complement w w' s t = s - t
    \<and> Set_Clear w s = {} \<and> length (Set_Collect w s) = Set_Len s"
proof -
  have "Set_Intersection w s t = s \<inter> t"
    using assms Set_Intersection_fold [of t w "NewSet []"] by (simp add: Set_Intersection_def is_walk_def)
  with assms show ?thesis
    by (auto simp: Set_Union_def Set_Complement_def Set_Clear_def Set_Len_def is_walk_def distinct_card)
qed

theorem Set_algebra_witness:
  "Set_Union [4, 5] [6, 5] {4, 5} {6, 5::nat} = {4, 5, 6} \<and> Set_Complement [4, 5] [6, 5] {4, 5} {6, 5::nat} = {4}"
  using Set_algebra [of "[4, 5]" "{4, 5}" "[6, 5]" "{6, 5::nat}"] by (auto simp: is_walk_def)

end
