(* ===== verification/PulsarConsumer.thy ===== *)
theory PulsarConsumer
  imports Retry
begin

text \<open>
  The Pulsar backend of the message queue (pkg/mq/msgstream/mqwrapper and mqwrapper/pulsar):
  message ids (pulsar\_id.go), the consumer (pulsar\_consumer.go), the producer (pulsar\_producer.go) and
  the client (pulsar\_client.go).

  The client library github.com/apache/pulsar-client-go is a parameter: \<open>id_codec\<close> serializes ids and
  \<open>pulsar_api\<close> has the methods of its consumer, over a state of its own. \<open>api_pending\<close> is the list of
  messages its channel is about to deliver. Metrics, logs and timers are left out.

  The locale \<open>seekable\<close> is the contract of \<open>Seek\<close> in the interface \<open>mqwrapper.Consumer\<close>: an inclusive seek
  delivers the message it points at, an exclusive one all those after it.
\<close>

section \<open>Message ids\<close>

record pulsarID =
  LedgerID :: int
  EntryID :: int
  BatchIdx :: int
  PartitionIdx :: int

record id_codec =
  id_Serialize :: "pulsarID \<Rightarrow> bytes"
  id_Deserialize :: "bytes \<Rightarrow> pulsarID res"

definition id_laws :: "id_codec \<Rightarrow> bool" where
  "id_laws ic \<longleftrightarrow> (\<forall>i. id_Deserialize ic (id_Serialize ic i) = Ok i)"

definition Serialize :: "id_codec \<Rightarrow> pulsarID \<Rightarrow> bytes" where
  "Serialize ic pid = id_Serialize ic pid"

definition AtEarliestPosition :: "pulsarID \<Rightarrow> bool" where
  "AtEarliestPosition pid =
     (if PartitionIdx pid \<le> 0 \<and> LedgerID pid \<le> 0 \<and> EntryID pid \<le> 0 \<and> BatchIdx pid \<le> 0
      then True else False)"

definition LessOrEqualThan :: "id_codec \<Rightarrow> pulsarID \<Rightarrow> bytes \<Rightarrow> bool res" where
  "LessOrEqualThan ic pid msgID =
     bindO (id_Deserialize ic msgID) (\<lambda>pMsgID.
       if LedgerID pid \<le> LedgerID pMsgID \<and> EntryID pid \<le> EntryID pMsgID \<and> BatchIdx pid \<le> BatchIdx pMsgID
       then Ok True else Ok False)"

definition Equal :: "id_codec \<Rightarrow> pulsarID \<Rightarrow> bytes \<Rightarrow> bool res" where
  "Equal ic pid msgID =
     bindO (id_Deserialize ic msgID) (\<lambda>pMsgID.
       if LedgerID pid = LedgerID pMsgID \<and> EntryID pid = EntryID pMsgID \<and> BatchIdx pid = BatchIdx pMsgID
       then Ok True else Ok False)"

text \<open>The library's earliest id, \<open>(-1, -1, -1, -1)\<close>, and the patch that sets its partition to 0.\<close>

definition EarliestMessageID :: pulsarID where
  "EarliestMessageID = \<lparr>LedgerID = -1, EntryID = -1, BatchIdx = -1, PartitionIdx = -1\<rparr>"

definition patchEarliestMessageID :: "pulsarID \<Rightarrow> pulsarID" where
  "patchEarliestMessageID mid = mid\<lparr>PartitionIdx := 0\<rparr>"

section \<open>The consumer\<close>

record Message =
  msg_Topic :: string
  msg_ID :: bytes
  msg_Payload :: "bytes option"
  msg_Properties :: "(string \<times> string) list"

record 'c pulsar_api =
  api_Seek :: "'c \<Rightarrow> pulsarID \<Rightarrow> go_error option \<times> 'c"
  api_pending :: "'c \<Rightarrow> Message list"
  api_Unsubscribe :: "'c \<Rightarrow> go_error option \<times> 'c"
  api_Close :: "'c \<Rightarrow> 'c"
  api_GetLastMessageID :: "'c \<Rightarrow> pulsarID res"

record 'c Consumer =
  pc_c :: 'c
  msgChannel :: "Message list option"
  hasSeek :: bool
  AtLatest :: bool
  skip :: bool
  closeCh_closed :: bool
  closeOnce_done :: bool

definition new_Consumer :: "'c \<Rightarrow> 'c Consumer" where
  "new_Consumer c = \<lparr>pc_c = c, msgChannel = None, hasSeek = False, AtLatest = False, skip = False,
     closeCh_closed = False, closeOnce_done = False\<rparr>"

text \<open>\<open>Chan\<close>: the first call makes the channel and, for a consumer that was neither seeked nor made at the
  latest position, moves it to the start of the topic (the error of that seek is dropped).\<close>

definition Consumer_Chan :: "'c pulsar_api \<Rightarrow> 'c Consumer \<Rightarrow> 'c Consumer" where
  "Consumer_Chan api pc =
     (case msgChannel pc of
        Some _ \<Rightarrow> pc
      | None \<Rightarrow>
          let pc1 = pc\<lparr>msgChannel := Some []\<rparr>
          in if \<not> hasSeek pc \<and> \<not> AtLatest pc
             then pc1\<lparr>pc_c := snd (api_Seek api (pc_c pc1) (patchEarliestMessageID EarliestMessageID))\<rparr>
             else pc1)"

text \<open>One turn of the forwarding goroutine for a message from the library's channel.\<close>

definition forward :: "'c Consumer \<Rightarrow> Message \<Rightarrow> 'c Consumer" where
  "forward pc msg =
     (if \<not> skip pc
      then (if closeCh_closed pc then pc
            else pc\<lparr>msgChannel := Some ((case msgChannel pc of None \<Rightarrow> [] | Some ms \<Rightarrow> ms) @ [msg])\<rparr>)
      else pc\<lparr>skip := False\<rparr>)"

definition Consumer_Seek :: "'c pulsar_api \<Rightarrow> 'c Consumer \<Rightarrow> pulsarID \<Rightarrow> bool \<Rightarrow> go_error option \<times> 'c Consumer" where
  "Consumer_Seek api pc i inclusive =
     (case api_Seek api (pc_c pc) i of
        (None, c') \<Rightarrow> (None, pc\<lparr>pc_c := c', hasSeek := True, skip := \<not> inclusive\<rparr>)
      | (Some err, c') \<Rightarrow> (Some err, pc\<lparr>pc_c := c'\<rparr>))"

definition GetLatestMsgID :: "'c pulsar_api \<Rightarrow> 'c Consumer \<Rightarrow> pulsarID res" where
  "GetLatestMsgID api pc = api_GetLastMessageID api (pc_c pc)"

definition CheckTopicValid :: "'c pulsar_api \<Rightarrow> 'c Consumer \<Rightarrow> unit res" where
  "CheckTopicValid api pc = bindO (GetLatestMsgID api pc) (\<lambda>_. Ok ())"

text \<open>\<open>Close\<close>: the function that is retried, and the call. The world of the retry loop is the library's
  consumer; a call takes no time here.\<close>

definition unsubscribe :: "'c pulsar_api \<Rightarrow> int \<Rightarrow> 'c \<Rightarrow> go_error option \<times> int \<times> 'c" where
  "unsubscribe api now c =
     (case api_Unsubscribe api c of
        (Some err, c') \<Rightarrow>
          if strings_Contains (Error_string err) ''Consumer not found'' then (None, now, c')
          else if strings_Contains (Error_string err) ''connection closed'' then (None, now, c')
          else (Some err, now, c')
      | (None, c') \<Rightarrow> (None, now, api_Close api c'))"

definition Consumer_Close :: "'c pulsar_api \<Rightarrow> int \<Rightarrow> 'c Consumer \<Rightarrow> 'c Consumer res" where
  "Consumer_Close api now pc =
     (if closeOnce_done pc then Ok pc
      else case Do (\<lambda>_. False) Background (unsubscribe api)
                  [Attempts 20, Sleep 200000000, MaxSleepTime 5000000000] now (pc_c pc) of
             (Some err, _, _) \<Rightarrow> Panic (Error_string err)
           | (None, _, c') \<Rightarrow> Ok (pc\<lparr>pc_c := c', closeCh_closed := True, closeOnce_done := True\<rparr>))"

section \<open>The client\<close>

record 'k pulsarClient =
  tenant :: string
  pulsar_ns :: string
  client :: 'k

text \<open>The package variables \<open>once\<close> and \<open>sc\<close>.\<close>

record 'k client_vars =
  once_done :: bool
  sc :: "'k pulsarClient option"

definition NewClient ::
  "('opts \<Rightarrow> go_error + 'k) \<Rightarrow> string \<Rightarrow> string \<Rightarrow> 'opts \<Rightarrow> 'k client_vars \<Rightarrow>
     ('k pulsarClient option \<times> go_error option) \<times> 'k client_vars" where
  "NewClient pulsar_NewClient t n opts vars =
     (if once_done vars then ((sc vars, None), vars)
      else case pulsar_NewClient opts of
        Inr c \<Rightarrow> (let cli = \<lparr>tenant = t, pulsar_ns = n, client = c\<rparr>
                 in ((Some cli, None), \<lparr>once_done = True, sc = Some cli\<rparr>))
      | Inl err \<Rightarrow> ((sc vars, Some err), vars\<lparr>once_done := True\<rparr>))"

definition GetFullTopicName :: "string \<Rightarrow> string \<Rightarrow> string \<Rightarrow> string res" where
  "GetFullTopicName t n topic =
     (if length t = 0 \<or> length n = 0 \<or> length topic = 0
      then Err (ErrorString ''build full topic name failed'')
      else Ok (t @ ''/'' @ n @ ''/'' @ topic))"

text \<open>\<open>create\<close> is the library's \<open>CreateProducer\<close>, from the full topic name and the compression flag; it may
  return a nil producer.\<close>

definition CreateProducer ::
  "(string \<Rightarrow> bool \<Rightarrow> 'p option res) \<Rightarrow> 'k pulsarClient \<Rightarrow> string \<Rightarrow> bool \<Rightarrow> 'p res" where
  "CreateProducer create pc topic enableCompression =
     bindO (GetFullTopicName (tenant pc) (pulsar_ns pc) topic) (\<lambda>fullTopicName.
     bindO (create fullTopicName enableCompression) (\<lambda>pp.
       case pp of None \<Rightarrow> Err (ErrorString ''pulsar is not ready, producer is nil'') | Some p \<Rightarrow> Ok p))"

text \<open>\<open>send\<close> is the library's \<open>Send\<close>: the id it returns beside an error is passed on.\<close>

definition Producer_Send :: "(bytes \<Rightarrow> pulsarID \<times> go_error option) \<Rightarrow> bytes \<Rightarrow> pulsarID \<times> go_error option" where
  "Producer_Send send payload =
     (case send payload of (pmID, Some err) \<Rightarrow> (pmID, Some err) | (pmID, None) \<Rightarrow> (pmID, None))"

datatype SubscriptionInitialPosition =
  SubscriptionPositionLatest | SubscriptionPositionEarliest | SubscriptionPositionUnknown

definition Subscribe ::
  "(string \<Rightarrow> string \<Rightarrow> SubscriptionInitialPosition \<Rightarrow> 'c res) \<Rightarrow> 'k pulsarClient \<Rightarrow> string \<Rightarrow> string \<Rightarrow>
     SubscriptionInitialPosition \<Rightarrow> 'c Consumer res" where
  "Subscribe subscribe pc topic subName pos =
     bindO (GetFullTopicName (tenant pc) (pulsar_ns pc) topic) (\<lambda>fullTopicName.
       case subscribe fullTopicName subName pos of
         Panic p \<Rightarrow> Panic p
       | Err err \<Rightarrow>
           (if strings_Contains (Error_string err) ''ConsumerBusy''
            then (case Unrecoverable (Some err) of Some u \<Rightarrow> Err u | None \<Rightarrow> Err err)
            else Err err)
       | Ok c \<Rightarrow>
           (let pConsumer = new_Consumer c
            in Ok (if pos = SubscriptionPositionLatest then pConsumer\<lparr>AtLatest := True\<rparr> else pConsumer)))"

definition BytesToMsgID :: "id_codec \<Rightarrow> bytes \<Rightarrow> pulsarID res" where
  "BytesToMsgID ic i = bindO (id_Deserialize ic i) (\<lambda>pID. Ok pID)"

text \<open>A Go string converts to its bytes.\<close>

definition bytes_of_string :: "string \<Rightarrow> bytes" where
  "bytes_of_string s = map (\<lambda>c. of_nat (of_char c)) s"

definition StringToMsgID :: "id_codec \<Rightarrow> string \<Rightarrow> pulsarID res" where
  "StringToMsgID ic i = bindO (id_Deserialize ic (bytes_of_string i)) (\<lambda>pID. Ok pID)"

section \<open>Seeking\<close>

text \<open>What the channel of a consumer delivers: the channel is opened and the forwarding goroutine runs over
  all pending messages.\<close>

definition received :: "'c pulsar_api \<Rightarrow> 'c Consumer \<Rightarrow> Message list" where
  "received api pc =
     (let pc1 = Consumer_Chan api pc
      in case msgChannel (fold (\<lambda>m p. forward p m) (api_pending api (pc_c pc1)) pc1) of
           None \<Rightarrow> [] | Some ms \<Rightarrow> ms)"

definition fresh :: "'c Consumer \<Rightarrow> bool" where
  "fresh pc \<longleftrightarrow> msgChannel pc = None \<and> \<not> closeCh_closed pc"

lemma forward_all:
  "\<not> skip pc \<Longrightarrow> \<not> closeCh_closed pc \<Longrightarrow> msgChannel pc = Some ms \<Longrightarrow>
   msgChannel (fold (\<lambda>m p. forward p m) ps pc) = Some (ms @ ps)"
  by (induction ps arbitrary: pc ms) (simp_all add: forward_def)

lemma forward_skipping:
  assumes "skip pc" "\<not> closeCh_closed pc" "msgChannel pc = Some ms"
  shows "msgChannel (fold (\<lambda>m p. forward p m) ps pc) = Some (ms @ tl ps)"
proof (cases ps)
  case (Cons p qs)
  have "forward pc p = pc\<lparr>skip := False\<rparr>" using assms by (simp add: forward_def)
  with Cons assms forward_all [of "pc\<lparr>skip := False\<rparr>" ms qs] show ?thesis by simp
qed (use assms in simp)

lemma Seek_received:
  assumes "fresh pc" and "Consumer_Seek api pc i inclusive = (None, pc')"
  shows "fresh pc'"
    and "received api pc' =
      (let ps = api_pending api (snd (api_Seek api (pc_c pc) i)) in if inclusive then ps else tl ps)"
proof -
  from assms(2) obtain c' where c': "api_Seek api (pc_c pc) i = (None, c')"
    "pc' = pc\<lparr>pc_c := c', hasSeek := True, skip := \<not> inclusive\<rparr>"
    by (auto simp: Consumer_Seek_def split: prod.splits option.splits)
  with assms(1) show "fresh pc'" by (simp add: fresh_def)
  from c' assms(1) have open_pc: "Consumer_Chan api pc' = pc'\<lparr>msgChannel := Some []\<rparr>"
    by (simp add: Consumer_Chan_def fresh_def Let_def)
  show "received api pc' =
      (let ps = api_pending api (snd (api_Seek api (pc_c pc) i)) in if inclusive then ps else tl ps)"
    using c' assms(1) unfolding received_def open_pc
    by (cases inclusive) (simp_all add: fresh_def forward_all forward_skipping Let_def)
qed

locale seekable =
  fixes seek :: "'k \<Rightarrow> 'i \<Rightarrow> bool \<Rightarrow> go_error option \<times> 'k"
    and delivers :: "'k \<Rightarrow> 'm list"
    and from_id :: "'k \<Rightarrow> 'i \<Rightarrow> 'm list"
    and ready :: "'k \<Rightarrow> bool"
  assumes seek_ready: "ready k \<Longrightarrow> seek k i incl = (None, k') \<Longrightarrow> ready k'"
    and seek_inclusive: "ready k \<Longrightarrow> seek k i True = (None, k') \<Longrightarrow> delivers k' = from_id k i"
    and seek_exclusive: "ready k \<Longrightarrow> seek k i False = (None, k') \<Longrightarrow> delivers k' = tl (from_id k i)"
begin

lemma second_seek_wins:
  assumes "ready k" and "seek k i incl = (None, k')" and "seek k' j incl' = (None, k'')"
  shows "delivers k'' = (if incl' then from_id k' j else tl (from_id k' j))"
  using seek_inclusive [OF seek_ready [OF assms(1,2)]] seek_exclusive [OF seek_ready [OF assms(1,2)]] assms(3)
  by (cases incl') simp_all

end

interpretation pulsar: seekable "Consumer_Seek api" "received api"
    "\<lambda>pc i. api_pending api (snd (api_Seek api (pc_c pc) i))" fresh for api
  by unfold_locales (simp_all add: Seek_received Let_def)

section \<open>Properties\<close>

text \<open>The two seeks of the interface. After an inclusive seek the channel delivers exactly what the
  library delivers from the id on, after an exclusive seek all of it but the first message; a later seek
  replaces an earlier one, whatever its kind, as long as the channel was not opened.\<close>

theorem Consumer_Seek_inclusive_exclusive:
  assumes "fresh pc" and "Consumer_Seek api pc i incl = (None, pc1)"
    and "Consumer_Seek api pc1 j incl' = (None, pc2)"
  shows "received api pc2 =
      (let ps = api_pending api (snd (api_Seek api (pc_c pc1) j)) in if incl' then ps else tl ps)"
  using pulsar.second_seek_wins [OF assms] by (simp add: Let_def)

text \<open>A concrete library for witnesses: a topic whose messages are numbered by entry, and a cursor.\<close>

definition sample_topic :: "Message list" where
  "sample_topic = map (\<lambda>n. \<lparr>msg_Topic = ''t'', msg_ID = [of_nat n], msg_Payload = Some [], msg_Properties = []\<rparr>) [0..<4]"

definition sample_api :: "nat pulsar_api" where
  "sample_api = \<lparr>
     api_Seek = (\<lambda>c i. if EntryID i \<le> 3 then (None, nat (EntryID i)) else (Some (ErrorString ''invalid id''), c)),
     api_pending = (\<lambda>c. drop c sample_topic),
     api_Unsubscribe = (\<lambda>c. (Some (ErrorString ''x: Consumer not found''), c)),
     api_Close = (\<lambda>c. c),
     api_GetLastMessageID = (\<lambda>c. Ok \<lparr>LedgerID = 0, EntryID = 3, BatchIdx = 0, PartitionIdx = 0\<rparr>)\<rparr>"

definition entry :: "int \<Rightarrow> pulsarID" where
  "entry n = \<lparr>LedgerID = 0, EntryID = n, BatchIdx = 0, PartitionIdx = 0\<rparr>"

theorem Consumer_Seek_inclusive_exclusive_witness:
  "received sample_api (snd (Consumer_Seek sample_api (snd (Consumer_Seek sample_api (new_Consumer 0) (entry 3) True))
     (entry 1) False)) = drop 2 sample_topic"
proof -
  let ?pc1 = "snd (Consumer_Seek sample_api (new_Consumer 0) (entry 3) True)"
  let ?pc2 = "snd (Consumer_Seek sample_api ?pc1 (entry 1) False)"
  have 1: "Consumer_Seek sample_api (new_Consumer 0) (entry 3) True = (None, ?pc1)"
    and 2: "Consumer_Seek sample_api ?pc1 (entry 1) False = (None, ?pc2)"
    by (simp_all add: Consumer_Seek_def sample_api_def entry_def new_Consumer_def)
  have "fresh (new_Consumer 0)" by (simp add: fresh_def new_Consumer_def)
  from Consumer_Seek_inclusive_exclusive [OF this 1 2] show ?thesis
    by (simp add: sample_api_def entry_def tl_drop eval_nat_numeral flip: drop_Suc)
qed

text \<open>\<open>LessOrEqualThan\<close> compares ledger, entry and batch separately. It is reflexive, transitive and
  antisymmetric up to \<open>Equal\<close>, but it is not total: of a message and a later one in the next ledger, with
  a smaller entry number, neither is less or equal.\<close>

theorem LessOrEqualThan_not_total:
  assumes "id_laws ic"
  shows "LessOrEqualThan ic p (Serialize ic p) = Ok True
    \<and> (Equal ic p (Serialize ic q) = Ok True \<longleftrightarrow>
         LessOrEqualThan ic p (Serialize ic q) = Ok True \<and> LessOrEqualThan ic q (Serialize ic p) = Ok True)
    \<and> (LessOrEqualThan ic p (Serialize ic q) = Ok True \<and> LessOrEqualThan ic q (Serialize ic r) = Ok True
         \<longrightarrow> LessOrEqualThan ic p (Serialize ic r) = Ok True)
    \<and> (let last_of_7 = \<lparr>LedgerID = 7, EntryID = 49, BatchIdx = 0, PartitionIdx = 0\<rparr>;
           first_of_8 = \<lparr>LedgerID = 8, EntryID = 0, BatchIdx = 0, PartitionIdx = 0\<rparr>
       in LessOrEqualThan ic last_of_7 (Serialize ic first_of_8) = Ok False
        \<and> LessOrEqualThan ic first_of_8 (Serialize ic last_of_7) = Ok False)"
  using assms by (auto simp: LessOrEqualThan_def Equal_def Serialize_def id_laws_def Let_def)

text \<open>A codec for witnesses: four numbers in unary, each behind a sign byte.\<close>

definition unary :: "int \<Rightarrow> bytes" where
  "unary n = (if n < 0 then 2 else 1) # replicate (nat \<bar>n\<bar>) 0"

fun read_zeros :: "bytes \<Rightarrow> nat \<times> bytes" where
  "read_zeros [] = (0, [])"
| "read_zeros (b # bs) = (if b = 0 then (case read_zeros bs of (n, r) \<Rightarrow> (Suc n, r)) else (0, b # bs))"

definition read_unary :: "bytes \<Rightarrow> (int \<times> bytes) res" where
  "read_unary bs =
     (case bs of [] \<Rightarrow> Err (ErrorString ''unexpected EOF'')
      | b # r \<Rightarrow> (case read_zeros r of (n, r') \<Rightarrow> Ok (if b = 2 then - int n else int n, r')))"

definition unary_codec :: id_codec where
  "unary_codec = \<lparr>
     id_Serialize = (\<lambda>i. unary (LedgerID i) @ unary (EntryID i) @ unary (BatchIdx i) @ unary (PartitionIdx i)),
     id_Deserialize = (\<lambda>bs.
       bindO (read_unary bs) (\<lambda>(l, bs). bindO (read_unary bs) (\<lambda>(e, bs).
       bindO (read_unary bs) (\<lambda>(b, bs). bindO (read_unary bs) (\<lambda>(p, bs).
         Ok \<lparr>LedgerID = l, EntryID = e, BatchIdx = b, PartitionIdx = p\<rparr>)))))\<rparr>"

lemma read_zeros_replicate: "(\<And>b r. bs = b # r \<Longrightarrow> b \<noteq> 0) \<Longrightarrow> read_zeros (replicate n 0 @ bs) = (n, bs)"
  by (induction n) (cases bs; simp)+

lemma read_unary_unary: "(\<And>b r. bs = b # r \<Longrightarrow> b \<noteq> 0) \<Longrightarrow> read_unary (unary n @ bs) = Ok (n, bs)"
  by (simp add: read_unary_def unary_def read_zeros_replicate)

lemma unary_starts: "unary n @ bs = b # r \<Longrightarrow> b \<noteq> 0"
  by (auto simp: unary_def split: if_splits)

lemma unary_codec_laws [simp]: "id_laws unary_codec"
proof -
  have "id_Deserialize unary_codec (id_Serialize unary_codec i) = Ok i" for i
    using read_unary_unary [of "[]"] unary_starts [of _ "[]"]
    by (simp add: unary_codec_def read_unary_unary unary_starts)
  then show ?thesis by (simp add: id_laws_def)
qed

theorem LessOrEqualThan_not_total_witness:
  "LessOrEqualThan unary_codec (entry 5) (Serialize unary_codec (entry 5)) = Ok True"
  using LessOrEqualThan_not_total [of unary_codec "entry 5"] by simp

text \<open>\<open>NewClient\<close> after a failed first call: the error is returned once; every later call returns the
  nil client and no error, whatever the library would answer then.\<close>

theorem NewClient_nil_after_failure:
  assumes "mk opts = Inl err" and "NewClient mk t n opts \<lparr>once_done = False, sc = None\<rparr> = (r, vars)"
  shows "r = (None, Some err) \<and> fst (NewClient mk' t' n' opts' vars) = (None, None)"
  using assms by (auto simp: NewClient_def)

theorem NewClient_nil_after_failure_witness:
  "fst (NewClient (\<lambda>_. Inr 5) ''t'' ''n'' ()
     (snd (NewClient (\<lambda>_. Inl CtxCanceled) ''t'' ''n'' () \<lparr>once_done = False, sc = None :: nat pulsarClient option\<rparr>)))
   = (None, None)"
  by (rule NewClient_nil_after_failure [where mk = "\<lambda>_. Inl CtxCanceled", OF refl surjective_pairing, THEN conjunct2])

lemma split_at_slash:
  assumes "xs @ CHR ''/'' # ys = xs' @ CHR ''/'' # ys'" and "CHR ''/'' \<notin> set xs" and "CHR ''/'' \<notin> set xs'"
  shows "xs = xs' \<and> ys = ys'"
  using assms
proof (induction xs arbitrary: xs')
  case Nil
  then show ?case by (cases xs') auto
next
  case (Cons x xs)
  then show ?case by (cases xs') auto
qed

text \<open>Full topic names are unambiguous: without a slash in the tenant and the namespace, two topics
  with the same full name have the same tenant, namespace and topic.\<close>

theorem GetFullTopicName_injective:
  assumes "GetFullTopicName t n topic = Ok name" and "GetFullTopicName t' n' topic' = Ok name"
    and "CHR ''/'' \<notin> set t" and "CHR ''/'' \<notin> set t'" and "CHR ''/'' \<notin> set n" and "CHR ''/'' \<notin> set n'"
  shows "t = t' \<and> n = n' \<and> topic = topic'"
proof -
  from assms(1,2) have "t @ CHR ''/'' # (n @ CHR ''/'' # topic) = t' @ CHR ''/'' # (n' @ CHR ''/'' # topic')"
    by (simp add: GetFullTopicName_def split: if_splits)
  from split_at_slash [OF this assms(3,4)] split_at_slash [of n topic n' topic'] assms(5,6)
  show ?thesis by blast
qed

theorem GetFullTopicName_injective_witness:
  "GetFullTopicName ''public'' ''default'' ''a/b'' \<noteq> GetFullTopicName ''public'' ''d'' ''b''"
  using GetFullTopicName_injective [of "''public''" "''default''" "''a/b''" _ "''public''" "''d''" "''b''"]
  by (auto simp: GetFullTopicName_def)

end
