(* ===== verification/Strconv.thy ===== *)
theory Strconv
  imports Prelude
begin

text \<open>
  Go's strconv and strings functions the modelled packages use: reading decimal numbers and booleans, and
  splitting; and that a number that is written in decimal is read back.
\<close>

section \<open>Parsing\<close>

fun digits_value :: "nat \<Rightarrow> string \<Rightarrow> nat option" where
  "digits_value acc [] = Some acc"
| "digits_value acc (c # s) =
     (if 48 \<le> (of_char c :: nat) \<and> (of_char c :: nat) \<le> 57
      then digits_value (10 * acc + (of_char c - 48)) s else None)"

definition ParseUint :: "string \<Rightarrow> nat option" where
  "ParseUint s =
     (if s = [] then None
      else case digits_value 0 s of
        None \<Rightarrow> None
      | Some n \<Rightarrow> if n < 2 ^ 64 then Some n else None)"

definition ParseInt :: "string \<Rightarrow> int option" where
  "ParseInt s =
     (case s of
        [] \<Rightarrow> None
      | c # r \<Rightarrow>
          let neg = (c = CHR ''-'');
              body = (if c = CHR ''+'' \<or> c = CHR ''-'' then r else s)
          in case ParseUint body of
               None \<Rightarrow> None
             | Some un \<Rightarrow>
                 if \<not> neg \<and> un \<ge> 2 ^ 63 then None
                 else if neg \<and> un > 2 ^ 63 then None
                 else Some (if neg then - int un else int un))"

definition ParseBool :: "string \<Rightarrow> bool option" where
  "ParseBool s =
     (if s \<in> {''1'', ''t'', ''T'', ''true'', ''TRUE'', ''True''} then Some True
      else if s \<in> {''0'', ''f'', ''F'', ''false'', ''FALSE'', ''False''} then Some False
      else None)"

fun strings_Split :: "string \<Rightarrow> char \<Rightarrow> string list" where
  "strings_Split [] sep = [[]]"
| "strings_Split (c # s) sep =
     (if c = sep then [] # strings_Split s sep
      else (case strings_Split s sep of [] \<Rightarrow> [[c]] | w # ws \<Rightarrow> (c # w) # ws))"

section \<open>Numbers come back\<close>

lemma digit_char_val: "d < 10 \<Longrightarrow> (of_char (digit_char d) :: nat) = 48 + d"
  by simp

lemma digits_value_digit: "d < 10 \<Longrightarrow> digits_value acc (digit_char d # s) = digits_value (10 * acc + d) s"
  by (simp add: digit_char_val del: digit_char.simps)

lemma digits_value_nat: "digits_value acc (string_of_nat n @ s) =
    digits_value (acc * 10 ^ length (string_of_nat n) + n) s"
proof (induction n arbitrary: acc s rule: string_of_nat.induct)
  case (1 n)
  show ?case
  proof (cases "n < 10")
    case True
    then have "string_of_nat n = [digit_char n]" by (subst string_of_nat.simps) simp
    then show ?thesis using digits_value_digit [OF True] by (simp add: mult.commute del: digit_char.simps digits_value.simps)
  next
    case False
    then have str: "string_of_nat n = string_of_nat (n div 10) @ [digit_char (n mod 10)]"
      by (subst string_of_nat.simps) simp
    let ?l = "length (string_of_nat (n div 10))"
    have "digits_value acc (string_of_nat n @ s)
        = digits_value (10 * (acc * 10 ^ ?l + n div 10) + n mod 10) s"
      using 1 [OF False, of acc "digit_char (n mod 10) # s"] digits_value_digit [of "n mod 10"]
      by (simp add: str del: digit_char.simps digits_value.simps)
    moreover have "10 * (acc * 10 ^ ?l + n div 10) + n mod 10 = acc * 10 ^ length (string_of_nat n) + n"
      by (simp add: str algebra_simps)
    ultimately show ?thesis by (simp only:)
  qed
qed

lemma string_of_nat_not_Nil [simp]: "string_of_nat n \<noteq> []"
  by (subst string_of_nat.simps) simp

lemma ParseUint_string_of_nat: "ParseUint (string_of_nat n) = (if n < 2 ^ 64 then Some n else None)"
  using digits_value_nat [of 0 n "[]"] by (simp add: ParseUint_def)

lemma string_of_nat_hd: "\<exists>d. hd (string_of_nat n) = digit_char d \<and> d < 10"
proof (induction n rule: string_of_nat.induct)
  case (1 n)
  show ?case
  proof (cases "n < 10")
    case True
    then have "hd (string_of_nat n) = digit_char n" by (subst string_of_nat.simps) simp
    then show ?thesis using True by blast
  next
    case False
    then have "hd (string_of_nat n) = hd (string_of_nat (n div 10))" by (subst string_of_nat.simps) simp
    then show ?thesis using 1 [OF False] by simp
  qed
qed

lemma string_of_nat_sign: "hd (string_of_nat n) \<noteq> CHR ''+'' \<and> hd (string_of_nat n) \<noteq> CHR ''-''"
proof -
  obtain d where "hd (string_of_nat n) = digit_char d" "d < 10" using string_of_nat_hd by blast
  then have "(of_char (hd (string_of_nat n)) :: nat) \<ge> 48" by (simp add: digit_char_val del: digit_char.simps)
  then show ?thesis by auto
qed

lemma ParseInt_string_of_int:
  "ParseInt (string_of_int i) = (if - (2 ^ 63) \<le> i \<and> i < 2 ^ 63 then Some i else None)"
proof (cases "i < 0")
  case True
  then show ?thesis
    by (auto simp: ParseInt_def string_of_int_def ParseUint_string_of_nat nat_less_iff le_nat_iff)
next
  case False
  obtain c r where s: "string_of_nat (nat i) = c # r" by (cases "string_of_nat (nat i)") auto
  then have "c \<noteq> CHR ''+''" "c \<noteq> CHR ''-''" using string_of_nat_sign [of "nat i"] by auto
  then show ?thesis using False ParseUint_string_of_nat [of "nat i"]
    by (auto simp: ParseInt_def string_of_int_def s nat_less_iff le_nat_iff)
qed

end
