(* ===== verification/MqStream.thy ===== *)
theory MqStream
  imports Repack PulsarConsumer TypeutilSet Strconv
begin

text \<open>
  The plain message stream, \<open>mqMsgStream\<close> of pkg/mq/msgstream/mq\_msgstream.go: producers, consumers, and
  packs of one message.

  The stream is a record. A consumer is named by its channel, and \<open>inbox\<close> holds for each consumer the
  messages its Go channel is still to deliver. The message queue client (the interface
  \<open>mqwrapper.Client\<close> with its producers and consumers) is a record of functions over a world \<open>'w\<close> of its
  own; each of its calls returns a value or an error. Calls that are retried go through \<open>Do\<close> and \<open>Handle\<close> of
  Retry. The order in which Go walks a map is an argument (\<open>walk\<close>).
\<close>

section \<open>The queue client\<close>

record 'w mq_client =
  cl_CreateProducer :: "string \<Rightarrow> 'w \<Rightarrow> (go_error + bool) \<times> 'w"
  cl_Subscribe :: "string \<Rightarrow> string \<Rightarrow> SubscriptionInitialPosition \<Rightarrow> 'w \<Rightarrow> (go_error + Message list option) \<times> 'w"
  cl_Send :: "string \<Rightarrow> bytes \<Rightarrow> 'w \<Rightarrow> (go_error + bytes) \<times> 'w"
  cl_Seek :: "string \<Rightarrow> pulsarID \<Rightarrow> bool \<Rightarrow> 'w \<Rightarrow> (go_error + Message list) \<times> 'w"
  cl_GetLatestMsgID :: "string \<Rightarrow> 'w \<Rightarrow> (go_error + pulsarID) \<times> 'w"
  cl_BytesToMsgID :: "bytes \<Rightarrow> go_error + pulsarID"
  cl_StartSpan :: "nat \<Rightarrow> nat"
  cl_Extract :: "nat \<Rightarrow> (string \<times> string) list \<Rightarrow> nat"

section \<open>The stream\<close>

record stream =
  producers :: "string list"
  producerChannels :: "string list"
  consumers :: "string list"
  consumerChannels :: "string list"
  inbox :: "string \<Rightarrow> Message list"
  subscription :: string
  repackFunc :: "RepackFunc option"
  receiveBuf :: "MsgPack list"
  ctx_cancelled :: bool
  closed :: bool
  enableProduce :: bool

definition NewMqMsgStream :: "bool \<Rightarrow> stream" where
  "NewMqMsgStream ttMsgEnabled = \<lparr>producers = [], producerChannels = [], consumers = [], consumerChannels = [],
     inbox = (\<lambda>_. []), subscription = [], repackFunc = None, receiveBuf = [], ctx_cancelled = False,
     closed = False, enableProduce = ttMsgEnabled\<rparr>"

text \<open>The handler of the configuration event that turns producing on and off.\<close>

definition configEvent :: "'a stream_scheme \<Rightarrow> string \<Rightarrow> 'a stream_scheme" where
  "configEvent ms v = (case ParseBool v of None \<Rightarrow> ms | Some b \<Rightarrow> ms\<lparr>enableProduce := b\<rparr>)"

definition EnableProduce :: "'a stream_scheme \<Rightarrow> bool \<Rightarrow> 'a stream_scheme" where
  "EnableProduce ms can = ms\<lparr>enableProduce := can\<rparr>"

definition SetRepackFunc :: "'a stream_scheme \<Rightarrow> RepackFunc option \<Rightarrow> 'a stream_scheme" where
  "SetRepackFunc ms f = ms\<lparr>repackFunc := f\<rparr>"

definition stream_retry :: "Option list" where
  "stream_retry = [Attempts 20, Sleep 200000000, MaxSleepTime 5000000000]"

subsection \<open>Producers\<close>

definition set_key :: "string list \<Rightarrow> string \<Rightarrow> string list" where
  "set_key keys k = (if k \<in> set keys then keys else keys @ [k])"

definition producer_fn ::
  "'w mq_client \<Rightarrow> string \<Rightarrow> int \<Rightarrow> 'a stream_scheme \<times> 'w \<Rightarrow> go_error option \<times> int \<times> ('a stream_scheme \<times> 'w)" where
  "producer_fn cl channel now = (\<lambda>(ms, w).
     case cl_CreateProducer cl channel w of
       (Inl err, w') \<Rightarrow> (Some err, now, (ms, w'))
     | (Inr False, w') \<Rightarrow> (Some (ErrorString ''Producer is nil''), now, (ms, w'))
     | (Inr True, w') \<Rightarrow> (None, now, (ms\<lparr>producers := set_key (producers ms) channel,
                                        producerChannels := producerChannels ms @ [channel]\<rparr>, w')))"

fun AsProducer ::
  "'w mq_client \<Rightarrow> string list \<Rightarrow> int \<Rightarrow> 'a stream_scheme \<times> 'w \<Rightarrow> unit res \<times> ('a stream_scheme \<times> 'w)" where
  "AsProducer cl [] now st = (Ok (), st)"
| "AsProducer cl (channel # channels) now st =
     (if length channel = 0 then (Ok (), st)
      else case Do (\<lambda>_. False) Background (producer_fn cl channel) stream_retry now st of
             (Some err, now', st') \<Rightarrow>
               (Panic (''Failed to create producer '' @ channel @ '', error = '' @ Error_string err), st')
           | (None, now', st') \<Rightarrow> AsProducer cl channels now' st')"

subsection \<open>Consumers\<close>

text \<open>The loop shared by the two kinds of streams: \<open>add\<close> enters a new consumer.\<close>

definition consumer_fn ::
  "('a stream_scheme \<Rightarrow> string \<Rightarrow> Message list \<Rightarrow> 'a stream_scheme) \<Rightarrow> 'w mq_client \<Rightarrow> string \<Rightarrow>
     SubscriptionInitialPosition \<Rightarrow> string \<Rightarrow> int \<Rightarrow> 'a stream_scheme \<times> 'w \<Rightarrow>
     go_error option \<times> int \<times> ('a stream_scheme \<times> 'w)" where
  "consumer_fn add cl subName position channel now = (\<lambda>(ms, w).
     case cl_Subscribe cl channel subName position w of
       (Inl err, w') \<Rightarrow> (Some err, now, (ms, w'))
     | (Inr None, w') \<Rightarrow> (Some (ErrorString ''Consumer is nil''), now, (ms, w'))
     | (Inr (Some msgs), w') \<Rightarrow> (None, now, (add (ms\<lparr>subscription := subName\<rparr>) channel msgs, w')))"

fun subscribe_all ::
  "('a stream_scheme \<Rightarrow> string \<Rightarrow> Message list \<Rightarrow> 'a stream_scheme) \<Rightarrow> 'w mq_client \<Rightarrow> ctx \<Rightarrow> string list \<Rightarrow>
     string \<Rightarrow> SubscriptionInitialPosition \<Rightarrow> int \<Rightarrow> 'a stream_scheme \<times> 'w \<Rightarrow> unit res \<times> ('a stream_scheme \<times> 'w)" where
  "subscribe_all add cl c [] subName position now st = (Ok (), st)"
| "subscribe_all add cl c (channel # channels) subName position now st =
     (if channel \<in> set (consumers (fst st)) then subscribe_all add cl c channels subName position now st
      else case Do (\<lambda>_. False) c (consumer_fn add cl subName position channel) stream_retry now st of
             (None, now', st') \<Rightarrow> subscribe_all add cl c channels subName position now' st'
           | (Some err, now', st') \<Rightarrow>
               (if IsCanceledOrTimeout err
                then (Err (WrapErr (''Failed to create consumer '' @ channel) err), st')
                else (Panic (''Failed to create consumer '' @ channel @ '', errors = '' @ Error_string err), st')))"

definition add_consumer :: "'a stream_scheme \<Rightarrow> string \<Rightarrow> Message list \<Rightarrow> 'a stream_scheme" where
  "add_consumer ms channel msgs =
     ms\<lparr>consumers := set_key (consumers ms) channel, consumerChannels := consumerChannels ms @ [channel],
        inbox := (inbox ms)(channel := msgs)\<rparr>"

definition AsConsumer ::
  "'w mq_client \<Rightarrow> ctx \<Rightarrow> string list \<Rightarrow> string \<Rightarrow> SubscriptionInitialPosition \<Rightarrow> int \<Rightarrow> stream \<times> 'w \<Rightarrow>
     unit res \<times> (stream \<times> 'w)" where
  "AsConsumer cl c channels subName position now st =
     subscribe_all add_consumer cl c channels subName position now st"

definition stream_GetLatestMsgID :: "'w mq_client \<Rightarrow> string \<Rightarrow> 'a stream_scheme \<Rightarrow> 'w \<Rightarrow> pulsarID res" where
  "stream_GetLatestMsgID cl channel ms w =
     (if channel \<notin> set (consumers ms) then Panic ''nil pointer dereference''
      else case fst (cl_GetLatestMsgID cl channel w) of
        Inl err \<Rightarrow> Err (ErrorString (''Failed to get latest MsgID from channel: '' @ channel @ '', error = '' @ Error_string err))
      | Inr i \<Rightarrow> Ok i)"

subsection \<open>Closing\<close>

text \<open>The result names the handles that were closed: all producers and consumers, once.\<close>

definition Close :: "'a stream_scheme \<Rightarrow> string list \<times> 'a stream_scheme" where
  "Close ms =
     (let ms1 = ms\<lparr>ctx_cancelled := True\<rparr>
      in if closed ms1 then ([], ms1) else (producers ms1 @ consumers ms1, ms1\<lparr>closed := True\<rparr>))"

section \<open>Producing\<close>

definition send_msg ::
  "'w mq_client \<Rightarrow> codec \<Rightarrow> 'a stream_scheme \<Rightarrow> string \<Rightarrow> TsMsg \<Rightarrow> 'w \<Rightarrow> bytes res \<times> 'w" where
  "send_msg cl c ms channel m w =
     (case bindO (MsgSpanFromCtx (cl_StartSpan cl) (Some (TraceCtx m)) m) (\<lambda>_.
           bindO (Marshal c m) (\<lambda>mb. convertToByteArray mb)) of
        Err e \<Rightarrow> (Err e, w)
      | Panic p \<Rightarrow> (Panic p, w)
      | Ok payload \<Rightarrow>
          (if channel \<notin> set (producers ms) then (Panic ''nil pointer dereference'', w)
           else case cl_Send cl channel payload w of
             (Inl err, w') \<Rightarrow> (Err err, w')
           | (Inr i, w') \<Rightarrow> (Ok i, w')))"

fun send_all ::
  "'w mq_client \<Rightarrow> codec \<Rightarrow> 'a stream_scheme \<Rightarrow> string \<Rightarrow> TsMsg list \<Rightarrow> 'w \<Rightarrow> unit res \<times> 'w" where
  "send_all cl c ms channel [] w = (Ok (), w)"
| "send_all cl c ms channel (m # msgs) w =
     (case send_msg cl c ms channel m w of
        (Ok _, w') \<Rightarrow> send_all cl c ms channel msgs w'
      | (Err e, w') \<Rightarrow> (Err e, w')
      | (Panic p, w') \<Rightarrow> (Panic p, w'))"

fun send_packs ::
  "'w mq_client \<Rightarrow> codec \<Rightarrow> 'a stream_scheme \<Rightarrow> packs \<Rightarrow> int list \<Rightarrow> 'w \<Rightarrow> unit res \<times> 'w" where
  "send_packs cl c ms result [] w = (Ok (), w)"
| "send_packs cl c ms result (k # walk) w =
     (case go_index (producerChannels ms) k of
        Ok channel \<Rightarrow>
          (case send_all cl c ms channel (msgs_of result k) w of
             (Ok _, w') \<Rightarrow> send_packs cl c ms result walk w'
           | (Err e, w') \<Rightarrow> (Err e, w')
           | (Panic p, w') \<Rightarrow> (Panic p, w'))
      | Err e \<Rightarrow> (Err e, w)
      | Panic p \<Rightarrow> (Panic p, w))"

definition repack :: "'a stream_scheme \<Rightarrow> TsMsg list \<Rightarrow> packs res" where
  "repack ms tsMsgs =
     (let reBucketValues = ComputeProduceChannelIndexes (producerChannels ms) tsMsgs
      in case repackFunc ms of
           Some f \<Rightarrow> f tsMsgs reBucketValues
         | None \<Rightarrow> bindO (msg_Type (hd tsMsgs)) (\<lambda>msgType.
             (case msgType of
                MT_Insert \<Rightarrow> InsertRepackFunc tsMsgs reBucketValues
              | MT_Delete \<Rightarrow> DeleteRepackFunc tsMsgs reBucketValues
              | _ \<Rightarrow> DefaultRepackFunc tsMsgs reBucketValues)))"

text \<open>\<open>walk\<close> gives the order in which the map of packs is walked.\<close>

definition Produce ::
  "'w mq_client \<Rightarrow> codec \<Rightarrow> (packs \<Rightarrow> int list) \<Rightarrow> 'a stream_scheme \<Rightarrow> MsgPack option \<Rightarrow> 'w \<Rightarrow> unit res \<times> 'w" where
  "Produce cl c walk ms msgPack w =
     (if \<not> enableProduce ms then (Err (ErrDenyProduceMsg), w)
      else case msgPack of
        None \<Rightarrow> (Ok (), w)
      | Some pk \<Rightarrow>
          if length (Msgs pk) \<le> 0 then (Ok (), w)
          else if length (producers ms) \<le> 0 then (Err (ErrorString ''nil producer in msg stream''), w)
          else case repack ms (Msgs pk) of
            Err e \<Rightarrow> (Err e, w)
          | Panic p \<Rightarrow> (Panic p, w)
          | Ok result \<Rightarrow> send_packs cl c ms result (walk result) w)"

text \<open>Sending one message to all producers, in the order of \<open>walk\<close>.\<close>

fun send_everywhere ::
  "'w mq_client \<Rightarrow> bytes \<Rightarrow> string list \<Rightarrow> (string \<Rightarrow> bytes list) \<Rightarrow> 'w \<Rightarrow> ((string \<Rightarrow> bytes list) \<times> go_error option) \<times> 'w" where
  "send_everywhere cl payload [] ids w = ((ids, None), w)"
| "send_everywhere cl payload (channel # walk) ids w =
     (case cl_Send cl channel payload w of
        (Inl err, w') \<Rightarrow> ((ids, Some err), w')
      | (Inr i, w') \<Rightarrow> send_everywhere cl payload walk (ids(channel := ids channel @ [i])) w')"

fun broadcast_all ::
  "'w mq_client \<Rightarrow> codec \<Rightarrow> (nat \<Rightarrow> string list) \<Rightarrow> nat \<Rightarrow> TsMsg list \<Rightarrow> (string \<Rightarrow> bytes list) \<Rightarrow> 'w \<Rightarrow>
     ((string \<Rightarrow> bytes list) \<times> go_error option) res \<times> 'w" where
  "broadcast_all cl c walk n [] ids w = (Ok (ids, None), w)"
| "broadcast_all cl c walk n (v # msgs) ids w =
     (case bindO (MsgSpanFromCtx (cl_StartSpan cl) (Some (TraceCtx v)) v) (\<lambda>_.
           bindO (Marshal c v) (\<lambda>mb. convertToByteArray mb)) of
        Err e \<Rightarrow> (Ok (ids, Some e), w)
      | Panic p \<Rightarrow> (Panic p, w)
      | Ok payload \<Rightarrow>
          (case send_everywhere cl payload (walk n) ids w of
             ((ids', Some err), w') \<Rightarrow> (Ok (ids', Some err), w')
           | ((ids', None), w') \<Rightarrow> broadcast_all cl c walk (Suc n) msgs ids' w'))"

definition Broadcast ::
  "'w mq_client \<Rightarrow> codec \<Rightarrow> (nat \<Rightarrow> string list) \<Rightarrow> 'a stream_scheme \<Rightarrow> MsgPack option \<Rightarrow> 'w \<Rightarrow>
     ((string \<Rightarrow> bytes list) \<times> go_error option) res \<times> 'w" where
  "Broadcast cl c walk ms msgPack w =
     (case msgPack of
        None \<Rightarrow> (Ok (\<lambda>_. [], Some (ErrorString ''empty msgs'')), w)
      | Some pk \<Rightarrow>
          if length (Msgs pk) \<le> 0 then (Ok (\<lambda>_. [], Some (ErrorString ''empty msgs'')), w)
          else case (if length (Msgs pk) = 1
                     then bindO (msg_Type (hd (Msgs pk))) (\<lambda>t. Ok (t = MT_CreateCollection))
                     else Ok False) of
            Err e \<Rightarrow> (Err e, w)
          | Panic p \<Rightarrow> (Panic p, w)
          | Ok isCreateCollectionMsg \<Rightarrow>
              if \<not> enableProduce ms \<and> \<not> isCreateCollectionMsg
              then (Ok (\<lambda>_. [], Some (ErrDenyProduceMsg)), w)
              else broadcast_all cl c walk 0 (Msgs pk) (\<lambda>_. []) w)"

section \<open>Consuming\<close>

text \<open>\<open>filepath.Base\<close>: the last element of a path.\<close>

definition strip_slashes :: "string \<Rightarrow> string" where
  "strip_slashes s = rev (dropWhile (\<lambda>c. c = CHR ''/'') (rev s))"

definition filepath_Base :: "string \<Rightarrow> string" where
  "filepath_Base p =
     (if p = [] then ''.''
      else let q = strip_slashes p
           in if q = [] then ''/'' else rev (takeWhile (\<lambda>c. c \<noteq> CHR ''/'') (rev q)))"

definition decode_error :: "string \<Rightarrow> go_error \<Rightarrow> go_error" where
  "decode_error what err = ErrorString (what @ Error_string err)"

definition map_err :: "(go_error \<Rightarrow> go_error) \<Rightarrow> 'b res \<Rightarrow> 'b res" where
  "map_err f r = (case r of Err e \<Rightarrow> Err (f e) | x \<Rightarrow> x)"

definition getTsMsgFromConsumerMsg :: "codec \<Rightarrow> Message \<Rightarrow> TsMsg res" where
  "getTsMsgFromConsumerMsg c msg =
     (case msg_Payload msg of
        None \<Rightarrow> Err (ErrorString ''failed to unmarshal message header, payload is empty'')
      | Some payload \<Rightarrow>
          bindO (map_err (decode_error ''failed to unmarshal message header, err '') (pb_UnmarshalHeader c payload))
            (\<lambda>base. case base of
               None \<Rightarrow> Err (ErrorString ''failed to unmarshal message, header is uncomplete'')
             | Some b \<Rightarrow>
                 bindO (map_err (decode_error ''failed to unmarshal tsMsg, err '')
                          (Dispatcher_Unmarshal NewUnmarshalDispatcher c (AnyBytes payload) (mb_MsgType b)))
                   (\<lambda>tsMsg. Ok (SetPosition tsMsg
                      \<lparr>mp_ChannelName = filepath_Base (msg_Topic msg), mp_MsgID = msg_ID msg,
                       mp_MsgGroup = [], mp_Timestamp = 0\<rparr>))))"

text \<open>One message of \<open>receiveMsg\<close>: \<open>None\<close> if it is skipped, otherwise the pack that is sent on.\<close>

definition receive_one :: "'w mq_client \<Rightarrow> codec \<Rightarrow> string \<Rightarrow> Message \<Rightarrow> MsgPack option res" where
  "receive_one cl c subName msg =
     (case msg_Payload msg of
        None \<Rightarrow> Ok None
      | Some _ \<Rightarrow>
          (case getTsMsgFromConsumerMsg c msg of
             Err e \<Rightarrow> Ok None
           | Panic p \<Rightarrow> Panic p
           | Ok tsMsg0 \<Rightarrow>
               bindO (deref (Position tsMsg0)) (\<lambda>pos.
               let tsMsg1 = SetPosition tsMsg0
                     \<lparr>mp_ChannelName = mp_ChannelName pos, mp_MsgID = mp_MsgID pos,
                      mp_MsgGroup = subName, mp_Timestamp = BeginTs tsMsg0\<rparr>
               in bindO (ExtractCtx (cl_Extract cl) (cl_StartSpan cl) tsMsg1 (msg_Properties msg)) (\<lambda>ctx.
               let tsMsg = SetTraceCtx tsMsg1 ctx
               in Ok (Some \<lparr>Pack_BeginTs = BeginTs tsMsg, Pack_EndTs = EndTs tsMsg, Msgs = [tsMsg],
                            StartPositions = [Position tsMsg], EndPositions = [Position tsMsg]\<rparr>)))))"

text \<open>\<open>receiveMsg\<close> on the messages its channel delivers before the stream is closed: the packs it sends.\<close>

fun receive_loop :: "'w mq_client \<Rightarrow> codec \<Rightarrow> string \<Rightarrow> Message list \<Rightarrow> MsgPack list res" where
  "receive_loop cl c subName [] = Ok []"
| "receive_loop cl c subName (msg # msgs) =
     bindO (receive_one cl c subName msg) (\<lambda>r.
     bindO (receive_loop cl c subName msgs) (\<lambda>packs.
       Ok (case r of None \<Rightarrow> packs | Some pk \<Rightarrow> pk # packs)))"

definition receiveMsg :: "'w mq_client \<Rightarrow> codec \<Rightarrow> 'a stream_scheme \<Rightarrow> string \<Rightarrow> MsgPack list res" where
  "receiveMsg cl c ms channel =
     (if closed ms then Ok [] else receive_loop cl c (subscription ms) (inbox ms channel))"

text \<open>\<open>Seek\<close> of the plain stream: exclusive, position by position. \<open>ignoreBad\<close> is the configuration item
  \<open>IgnoreBadPosition\<close>.\<close>

fun Seek :: "'w mq_client \<Rightarrow> bool \<Rightarrow> MsgPosition list \<Rightarrow> stream \<times> 'w \<Rightarrow> unit res \<times> (stream \<times> 'w)" where
  "Seek cl ignoreBad [] st = (Ok (), st)"
| "Seek cl ignoreBad (mp # msgPositions) (ms, w) =
     (if mp_ChannelName mp \<notin> set (consumers ms)
      then (Err (ErrorString (''channel '' @ mp_ChannelName mp @ '' not subscribed'')), (ms, w))
      else
        let seek_to = (\<lambda>i w. case cl_Seek cl (mp_ChannelName mp) i False w of
              (Inl err, w') \<Rightarrow> (Err err, (ms, w'))
            | (Inr msgs, w') \<Rightarrow>
                Seek cl ignoreBad msgPositions (ms\<lparr>inbox := (inbox ms)(mp_ChannelName mp := msgs)\<rparr>, w'))
        in case cl_BytesToMsgID cl (mp_MsgID mp) of
             Inr i \<Rightarrow> seek_to i w
           | Inl err \<Rightarrow>
               (if ignoreBad
                then (case cl_GetLatestMsgID cl (mp_ChannelName mp) w of
                        (Inl _, w') \<Rightarrow> Seek cl ignoreBad msgPositions (ms, w')
                      | (Inr i, w') \<Rightarrow> seek_to i w')
                else (Err err, (ms, w))))"

section \<open>Recording what is sent\<close>

text \<open>\<open>recording cl\<close> behaves as \<open>cl\<close> and keeps a log of the successful sends beside the world.\<close>

definition recording :: "'w mq_client \<Rightarrow> ((string \<times> bytes) list \<times> 'w) mq_client" where
  "recording cl = \<lparr>
     cl_CreateProducer = (\<lambda>ch lw. case cl_CreateProducer cl ch (snd lw) of (r, w') \<Rightarrow> (r, (fst lw, w'))),
     cl_Subscribe = (\<lambda>ch sub pos lw. case cl_Subscribe cl ch sub pos (snd lw) of (r, w') \<Rightarrow> (r, (fst lw, w'))),
     cl_Send = (\<lambda>ch payload lw. case cl_Send cl ch payload (snd lw) of
        (Inl e, w') \<Rightarrow> (Inl e, (fst lw, w'))
      | (Inr i, w') \<Rightarrow> (Inr i, (fst lw @ [(ch, payload)], w'))),
     cl_Seek = (\<lambda>ch i incl lw. case cl_Seek cl ch i incl (snd lw) of (r, w') \<Rightarrow> (r, (fst lw, w'))),
     cl_GetLatestMsgID = (\<lambda>ch lw. case cl_GetLatestMsgID cl ch (snd lw) of (r, w') \<Rightarrow> (r, (fst lw, w'))),
     cl_BytesToMsgID = cl_BytesToMsgID cl,
     cl_StartSpan = cl_StartSpan cl,
     cl_Extract = cl_Extract cl\<rparr>"

definition payload_of :: "codec \<Rightarrow> TsMsg \<Rightarrow> bytes" where
  "payload_of c m = (case pb_Marshal c (Req m) of Ok b \<Rightarrow> b | _ \<Rightarrow> [])"

lemma send_msg_log:
  assumes "send_msg (recording cl) c ms channel m (log, w) = (Ok i, (log', w'))"
  shows "log' = log @ [(channel, payload_of c m)] \<and> pb_Marshal c (Req m) = Ok (payload_of c m)"
proof -
  from assms obtain p where p: "bindO (Marshal c m) convertToByteArray = Ok p"
    and q: "cl_Send (recording cl) channel p (log, w) = (Inr i, (log', w'))"
    by (auto simp: send_msg_def outcome_simps split: outcome.splits if_splits sum.splits prod.splits)
  from p have b: "pb_Marshal c (Req m) = Ok p" by (auto simp: outcome_simps Marshal_Ok_iff)
  with q show ?thesis
    by (auto simp: recording_def payload_of_def split: sum.splits prod.splits)
qed

lemma send_all_log:
  "send_all (recording cl) c ms channel msgs (log, w) = (Ok (), (log', w')) \<Longrightarrow>
   log' = log @ map (\<lambda>m. (channel, payload_of c m)) msgs
   \<and> (\<forall>m \<in> set msgs. pb_Marshal c (Req m) = Ok (payload_of c m))"
proof (induction msgs arbitrary: log w)
  case (Cons m msgs)
  then obtain i log1 w1 where "send_msg (recording cl) c ms channel m (log, w) = (Ok i, (log1, w1))"
    "send_all (recording cl) c ms channel msgs (log1, w1) = (Ok (), (log', w'))"
    by (auto split: outcome.splits prod.splits)
  with Cons.IH [OF this(2)] send_msg_log [OF this(1)] show ?case by auto
qed simp

lemma send_packs_log:
  "send_packs (recording cl) c ms result ks (log, w) = (Ok (), (log', w')) \<Longrightarrow>
   log' = log @ concat (map (\<lambda>k. map (\<lambda>m. (producerChannels ms ! nat k, payload_of c m)) (msgs_of result k)) ks)
   \<and> (\<forall>k \<in> set ks. 0 \<le> k \<and> nat k < length (producerChannels ms)
        \<and> (\<forall>m \<in> set (msgs_of result k). pb_Marshal c (Req m) = Ok (payload_of c m)))"
proof (induction ks arbitrary: log w)
  case (Cons k ks)
  then obtain channel log1 w1 where k: "go_index (producerChannels ms) k = (Ok channel :: string res)"
    "send_all (recording cl) c ms channel (msgs_of result k) (log, w) = (Ok (), (log1, w1))"
    "send_packs (recording cl) c ms result ks (log1, w1) = (Ok (), (log', w'))"
    by (auto split: outcome.splits prod.splits)
  from k(1) have "0 \<le> k \<and> nat k < length (producerChannels ms) \<and> channel = producerChannels ms ! nat k"
    by (simp add: go_index_Ok_iff)
  with Cons.IH [OF k(3)] send_all_log [OF k(2)] show ?case by auto
qed simp

lemma filter_concat_key:
  assumes "distinct ks" and "inj_on g (insert k (set ks))"
  shows "filter (\<lambda>e. fst e = g k) (concat (map (\<lambda>j. map (\<lambda>m. (g j, h m)) (f j)) ks)) =
    (if k \<in> set ks then map (\<lambda>m. (g k, h m)) (f k) else [])"
  using assms
proof (induction ks)
  case (Cons j ks)
  have "g j = g k \<longleftrightarrow> j = k" using Cons.prems(2) by (auto simp: inj_on_def)
  moreover have "inj_on g (insert k (set ks))" using Cons.prems(2) by (rule inj_on_subset) auto
  ultimately show ?case using Cons by (auto simp: filter_map o_def)
qed simp

lemma Produce_log:
  assumes "Produce (recording cl) c walk ms (Some pk) ([], w) = (Ok (), (log, w'))" and "Msgs pk \<noteq> []"
  obtains result where "repack ms (Msgs pk) = Ok result"
    "send_packs (recording cl) c ms result (walk result) ([], w) = (Ok (), (log, w'))"
  using assms by (auto simp: Produce_def split: if_splits outcome.splits)

section \<open>Decoding what was sent\<close>

text \<open>A message of the queue that carries the encoding of a request with a proper header.\<close>

definition well_headed :: "request \<Rightarrow> bool" where
  "well_headed r = (case base_of r of None \<Rightarrow> False | Some b \<Rightarrow> mb_MsgType b = type_of_request r)"

definition carries :: "codec \<Rightarrow> Message \<Rightarrow> request \<Rightarrow> bool" where
  "carries c msg r \<longleftrightarrow> well_headed r \<and>
     (case msg_Payload msg of None \<Rightarrow> False | Some p \<Rightarrow> pb_Marshal c r = Ok p)"

lemma base_of_normal [simp]: "base_of (normal r) = base_of r"
  by (cases r) (auto simp: fix_primary_keys_def split: option.splits)

lemma decoded_total:
  assumes "base_of r = Some b"
  shows "\<exists>m. decoded r = Ok m \<and> Req m = normal r \<and> request_times (normal r) = Ok (BeginTs m, EndTs m)"
proof -
  have "\<exists>xy. request_times (normal r) = Ok xy"
    using assms by (cases r) (auto simp: header_time_def)
  then show ?thesis by (auto simp: decoded_def new_msg_def BeginTs_def EndTs_def)
qed

definition position_at :: "Message \<Rightarrow> MsgPosition" where
  "position_at msg = \<lparr>mp_ChannelName = filepath_Base (msg_Topic msg), mp_MsgID = msg_ID msg,
     mp_MsgGroup = [], mp_Timestamp = 0\<rparr>"

lemma getTsMsg_carries:
  assumes "codec_laws c" and "carries c msg r"
  shows "\<exists>m. getTsMsgFromConsumerMsg c msg = Ok (SetPosition m (position_at msg)) \<and> decoded r = Ok m
    \<and> Req m = normal r \<and> request_times (normal r) = Ok (BeginTs m, EndTs m)"
proof -
  from assms(2) obtain p b where p: "msg_Payload msg = Some p" "pb_Marshal c r = Ok p" "base_of r = Some b"
    "mb_MsgType b = type_of_request r"
    by (auto simp: carries_def well_headed_def split: option.splits)
  have "Marshal c (new_msg r) = Ok (AnyBytes p)" using p(2) by (simp add: Marshal_Ok_iff new_msg_def)
  from dispatch_marshalled [OF assms(1) this] have
    "Dispatcher_Unmarshal NewUnmarshalDispatcher c (AnyBytes p) (type_of_request r) = decoded r"
    by (simp add: new_msg_def)
  with p decoded_total [OF p(3)] codec_laws_header [OF assms(1) p(2)] show ?thesis
    by (auto simp: getTsMsgFromConsumerMsg_def map_err_def position_at_def)
qed

lemma well_headed_base: "well_headed r \<Longrightarrow> \<exists>b. base_of r = Some b \<and> mb_MsgType b = type_of_request r"
  by (auto simp: well_headed_def split: option.splits)

section \<open>Properties\<close>

text \<open>C12: what a successful \<open>Produce\<close> has sent. Channel by channel, the payloads sent are the encodings of
  the messages that were repacked for its index, all of them, in order and nothing else, whatever order
  the map of packs is walked in.\<close>

theorem Produce_delivers:
  assumes "Produce (recording cl) c walk ms (Some pk) ([], w) = (Ok (), (log, w'))" and "Msgs pk \<noteq> []"
    and "repack ms (Msgs pk) = Ok result" and "is_walk (walk result) (dom result)"
    and "distinct (producerChannels ms)" and "k < length (producerChannels ms)"
  shows "map (\<lambda>e. Ok (snd e)) (filter (\<lambda>e. fst e = producerChannels ms ! k) log)
      = map (\<lambda>m. pb_Marshal c (Req m)) (msgs_of result (int k))
    \<and> fst ` set log \<subseteq> set (producerChannels ms)"
proof -
  from Produce_log [OF assms(1,2)] assms(3)
  have r: "send_packs (recording cl) c ms result (walk result) ([], w) = (Ok (), (log, w'))" by force
  let ?g = "\<lambda>k. producerChannels ms ! nat k"
  from send_packs_log [OF r]
  have log: "log = concat (map (\<lambda>j. map (\<lambda>m. (?g j, payload_of c m)) (msgs_of result j)) (walk result))"
    and ok: "\<And>j. j \<in> set (walk result) \<Longrightarrow> 0 \<le> j \<and> nat j < length (producerChannels ms)"
    and pay: "\<And>j m. j \<in> set (walk result) \<Longrightarrow> m \<in> set (msgs_of result j) \<Longrightarrow> pb_Marshal c (Req m) = Ok (payload_of c m)"
    by auto
  have walk: "distinct (walk result)" "set (walk result) = dom result" using assms(4) by (auto simp: is_walk_def)
  have in_range: "0 \<le> j \<and> nat j < length (producerChannels ms)" if "j \<in> insert (int k) (set (walk result))" for j
    using that ok assms(6) by auto
  have "inj_on ?g (insert (int k) (set (walk result)))"
  proof (rule inj_onI)
    fix x y
    assume xy: "x \<in> insert (int k) (set (walk result))" "y \<in> insert (int k) (set (walk result))" "?g x = ?g y"
    with in_range assms(5) have "nat x = nat y" by (simp add: nth_eq_iff_index_eq)
    with in_range [OF xy(1)] in_range [OF xy(2)] show "x = y" by (metis eq_nat_nat_iff)
  qed
  from filter_concat_key [OF walk(1) this, of "payload_of c" "msgs_of result"]
  have "filter (\<lambda>e. fst e = producerChannels ms ! k) log =
      (if int k \<in> set (walk result) then map (\<lambda>m. (producerChannels ms ! k, payload_of c m)) (msgs_of result (int k)) else [])"
    by (simp add: log)
  moreover have "int k \<notin> set (walk result) \<Longrightarrow> msgs_of result (int k) = []"
    using walk(2) by (auto simp: msgs_of_def split: option.splits)
  moreover have "fst ` set log \<subseteq> set (producerChannels ms)" using ok by (auto simp: log)
  ultimately show ?thesis using pay by (auto simp: map_eq_conv)
qed

text \<open>C13: what the consumer side makes of a channel. Every message that carries an encoded request becomes
  exactly one pack, in order, that holds the request (delete keys normalised), spans its timestamps, and
  has the message's own position as its start and its end.\<close>

theorem receiveMsg_roundtrip:
  assumes "codec_laws c" and "list_all2 (carries c) (inbox ms channel) rs" and "\<not> closed ms"
  shows "case receiveMsg cl c ms channel of
      Ok packs \<Rightarrow> list_all2 (\<lambda>pk r. case Msgs pk of [m] \<Rightarrow> Req m = normal r
          \<and> request_times (normal r) = Ok (BeginTs m, EndTs m) \<and> Pack_BeginTs pk = BeginTs m
          \<and> Pack_EndTs pk = EndTs m \<and> StartPositions pk = [Position m] \<and> EndPositions pk = [Position m]
        | _ \<Rightarrow> False) packs rs
      \<and> list_all2 (\<lambda>pk msg. case StartPositions pk of [Some pos] \<Rightarrow> mp_MsgID pos = msg_ID msg
          \<and> mp_MsgGroup pos = subscription ms \<and> mp_Timestamp pos = Pack_BeginTs pk | _ \<Rightarrow> False)
          packs (inbox ms channel)
    | _ \<Rightarrow> False"
proof -
  have "\<exists>packs. receive_loop cl c sub msgs = Ok packs \<and>
      list_all2 (\<lambda>pk r. case Msgs pk of [m] \<Rightarrow> Req m = normal r
          \<and> request_times (normal r) = Ok (BeginTs m, EndTs m) \<and> Pack_BeginTs pk = BeginTs m
          \<and> Pack_EndTs pk = EndTs m \<and> StartPositions pk = [Position m] \<and> EndPositions pk = [Position m]
        | _ \<Rightarrow> False) packs rs
      \<and> list_all2 (\<lambda>pk msg. case StartPositions pk of [Some pos] \<Rightarrow> mp_MsgID pos = msg_ID msg
          \<and> mp_MsgGroup pos = sub \<and> mp_Timestamp pos = Pack_BeginTs pk | _ \<Rightarrow> False) packs msgs"
    if "list_all2 (carries c) msgs rs" for msgs sub
    using that
  proof (induction msgs rs rule: list_all2_induct)
    case (Cons msg msgs r rs)
    from getTsMsg_carries [OF assms(1) Cons.hyps(1)] obtain m where
      m: "getTsMsgFromConsumerMsg c msg = Ok (SetPosition m (position_at msg))" "Req m = normal r"
        "request_times (normal r) = Ok (BeginTs m, EndTs m)" by blast
    from Cons.hyps(1) obtain b where b: "base_of r = Some b" "msg_Payload msg \<noteq> None"
      by (auto simp: carries_def well_headed_def split: option.splits)
    then show ?case
      using Cons.IH m
      by (auto simp: receive_one_def position_at_def SetPosition_def Position_def Let_def ExtractCtx_def
          allowTrace_def call_simps read_base_def BeginTs_def EndTs_def SetTraceCtx_def deref_def)
  qed simp
  from this [OF assms(2), of "subscription ms"] assms(3) show ?thesis
    by (auto simp: receiveMsg_def)
qed

text \<open>A client for witnesses: every call succeeds at once.\<close>

definition sample_client :: "unit mq_client" where
  "sample_client = \<lparr>
     cl_CreateProducer = (\<lambda>ch w. (Inr True, w)),
     cl_Subscribe = (\<lambda>ch sub pos w. (Inr (Some []), w)),
     cl_Send = (\<lambda>ch payload w. (Inr [], w)),
     cl_Seek = (\<lambda>ch i incl w. (Inr [], w)),
     cl_GetLatestMsgID = (\<lambda>ch w. (Inr EarliestMessageID, w)),
     cl_BytesToMsgID = (\<lambda>b. Inr EarliestMessageID),
     cl_StartSpan = (\<lambda>c. c),
     cl_Extract = (\<lambda>c props. c)\<rparr>"

definition sample_stream :: stream where
  "sample_stream = (NewMqMsgStream True)\<lparr>producers := [''a'', ''b''], producerChannels := [''a'', ''b'']\<rparr>"

definition sample_dmsg :: "uint32 \<Rightarrow> TsMsg" where
  "sample_dmsg h = (new_msg (DeleteReq (sample_delete\<lparr>dr_NumRows := 1, dr_Timestamps := [9]\<rparr>)))\<lparr>HashValues := [h]\<rparr>"

definition sample_batch :: MsgPack where
  "sample_batch = empty_pack\<lparr>Msgs := [sample_dmsg 4, sample_dmsg 7, sample_dmsg 6]\<rparr>"

lemma sample_repack:
  "\<exists>result. repack sample_stream (Msgs sample_batch) = Ok result \<and> dom result = {0, 1}
     \<and> msgs_of result 0 = [sample_dmsg 4, sample_dmsg 6] \<and> msgs_of result 1 = [sample_dmsg 7]"
proof -
  have idx: "ComputeProduceChannelIndexes [''a'', ''b''] (Msgs sample_batch) = [[0], [1], [0]]"
    by (simp add: sample_batch_def sample_dmsg_def ComputeProduceChannelIndexes_def HashKeys_def)
  have t: "msg_Type (sample_dmsg h) = Ok MT_Delete" for h
    by (simp add: sample_dmsg_def call_simps read_base_def new_msg_def sample_delete_def sample_base_def)
  have q: "Req (sample_dmsg h) = DeleteReq (sample_delete\<lparr>dr_NumRows := 1, dr_Timestamps := [9]\<rparr>)" for h
    by (simp add: sample_dmsg_def new_msg_def)
  have b: "DeleteRepack_body [[0], [1], [0]] r (i, sample_dmsg h) =
      bindO (go_index [[0], [1], [0]] (int i)) (\<lambda>keys. if length keys \<noteq> 1
         then Err (ErrorString ''the length of hashValue, timestamps, primaryKeys are not equal'')
         else bindO (go_index keys 0) (\<lambda>key. Ok (add_msg r key (sample_dmsg h))))" for r i h
    by (simp add: DeleteRepack_body_def t q)
  have "repack sample_stream (Msgs sample_batch) = Ok (add_all Map.empty
      [(0, sample_dmsg 4), (1, sample_dmsg 7), (0, sample_dmsg 6)])"
    unfolding repack_def using idx
    by (simp add: sample_stream_def NewMqMsgStream_def sample_batch_def t DeleteRepackFunc_def b go_index_def)
  then show ?thesis by (auto simp: msgs_of_add_all dom_add_all)
qed

lemma sample_send:
  "send_all (recording sample_client) (table_codec [Req (sample_dmsg 0)]) sample_stream ch (map sample_dmsg hs) (log, ())
     = (if hs = [] then (Ok (), (log, ())) else if ch \<in> {''a'', ''b''}
        then (Ok (), (log @ map (\<lambda>_. (ch, [])) hs, ())) else (Panic ''nil pointer dereference'', (log, ())))"
proof -
  have m: "Marshal (table_codec [Req (sample_dmsg 0)]) (sample_dmsg h) = Ok (AnyBytes [])" for h
    by (simp add: Marshal_Ok_iff table_codec_def sample_dmsg_def new_msg_def)
  have s: "MsgSpanFromCtx f (Some t) (sample_dmsg h) = Ok (Some (f t))" for f t h
    by (simp add: MsgSpanFromCtx_def allowTrace_def call_simps read_base_def sample_dmsg_def new_msg_def
        sample_delete_def sample_base_def)
  have one: "send_msg (recording sample_client) (table_codec [Req (sample_dmsg 0)]) sample_stream ch (sample_dmsg h) (log, ())
      = (if ch \<in> {''a'', ''b''} then (Ok [], (log @ [(ch, [])], ())) else (Panic ''nil pointer dereference'', (log, ())))"
    for h log
    by (simp add: send_msg_def m s recording_def sample_client_def) (simp add: sample_stream_def)
  show ?thesis
  proof (induction hs arbitrary: log)
    case (Cons h hs)
    show ?case by (simp add: one Cons.IH)
  qed simp
qed

lemma sample_Produce:
  assumes "repack sample_stream (Msgs sample_batch) = Ok result"
    and "msgs_of result 0 = map sample_dmsg [4, 6]" and "msgs_of result 1 = map sample_dmsg [7]"
  shows "Produce (recording sample_client) (table_codec [Req (sample_dmsg 0)]) (\<lambda>_. [1, 0]) sample_stream
      (Some sample_batch) ([], ()) = (Ok (), ([(''b'', []), (''a'', []), (''a'', [])], ()))"
proof -
  have f: "enableProduce sample_stream" "producers sample_stream \<noteq> []" "Msgs sample_batch \<noteq> []"
    "producerChannels sample_stream = [''a'', ''b'']"
    by (simp_all add: sample_stream_def NewMqMsgStream_def sample_batch_def)
  show ?thesis
    by (simp add: Produce_def f assms go_index_def sample_send del: list.map send_all.simps) simp
qed

theorem Produce_delivers_witness:
  "\<exists>log. Produce (recording sample_client) (table_codec [Req (sample_dmsg 0)]) (\<lambda>_. [1, 0]) sample_stream
      (Some sample_batch) ([], ()) = (Ok (), (log, ()))
    \<and> map (\<lambda>e. Ok (snd e)) (filter (\<lambda>e. fst e = ''a'') log) = [Ok [], Ok [] :: bytes res]"
proof -
  obtain result where r: "repack sample_stream (Msgs sample_batch) = Ok result" "dom result = {0, 1}"
    "msgs_of result 0 = map sample_dmsg [4, 6]" "msgs_of result 1 = map sample_dmsg [7]"
    using sample_repack by auto
  note p = sample_Produce [OF r(1,3,4)]
  have f: "producerChannels sample_stream = [''a'', ''b'']" "Msgs sample_batch \<noteq> []"
    by (simp_all add: sample_stream_def sample_batch_def)
  have "map (\<lambda>e. Ok (snd e)) (filter (\<lambda>e. fst e = ''a'') [(''b'', []), (''a'', []), (''a'', [])])
      = map (\<lambda>m. pb_Marshal (table_codec [Req (sample_dmsg 0)]) (Req m)) (msgs_of result (int 0))"
    using Produce_delivers [OF p f(2) r(1), of 0] r(2) f by (simp add: is_walk_def insert_commute)
  then show ?thesis
    unfolding p by (simp add: r(3) table_codec_def sample_dmsg_def new_msg_def)
qed

theorem receiveMsg_roundtrip_witness:
  "let c = table_codec [DeleteReq sample_delete];
       msg = \<lparr>msg_Topic = ''t/a'', msg_ID = [7], msg_Payload = Some [], msg_Properties = []\<rparr>
   in case receiveMsg sample_client c (sample_stream\<lparr>inbox := (\<lambda>_. [msg])\<rparr>) ''a'' of
        Ok [pk] \<Rightarrow> Pack_BeginTs pk = 7 \<and> Pack_EndTs pk = 9 | _ \<Rightarrow> False"
proof -
  let ?c = "table_codec [DeleteReq sample_delete]"
  let ?msg = "\<lparr>msg_Topic = ''t/a'', msg_ID = [7], msg_Payload = Some [], msg_Properties = []\<rparr>"
  let ?ms = "sample_stream\<lparr>inbox := (\<lambda>_. [?msg])\<rparr>"
  have "carries ?c ?msg (DeleteReq sample_delete)"
    by (simp add: carries_def well_headed_def table_codec_def) (simp add: sample_delete_def sample_base_def)
  then have a: "list_all2 (carries ?c) (inbox ?ms ''a'') [DeleteReq sample_delete]" by simp
  have t: "request_times (normal (DeleteReq sample_delete)) = Ok (7, 9)"
    by (simp add: fix_primary_keys_def sample_delete_def ts_range_def widen_def)
  have "\<not> closed ?ms" by (simp add: sample_stream_def NewMqMsgStream_def)
  from receiveMsg_roundtrip [OF table_codec_laws a this, of sample_client] t show ?thesis
    by (auto simp: Let_def list_all2_Cons2 split: outcome.splits list.splits)
qed

end
