(* ===== verification/TtStream.thy ===== *)
theory TtStream
  imports MqStream
begin

text \<open>
  The time-tick stream, \<open>MqTtMsgStream\<close> of pkg/mq/msgstream/mq\_msgstream.go. It reads every channel up to a
  time tick, waits until all channels have reached the same tick, and emits the messages up to that tick
  as one pack.

  \<^item> \<open>tt_stream\<close> extends the record of the plain stream, as the Go struct embeds it. The maps keyed by
    consumer (\<open>chanMsgBuf\<close>, \<open>chanMsgPos\<close>, \<open>chanTtMsgTime\<close>) are functions of the channel name; their keys
    are the consumers of the stream, since \<open>addConsumer\<close> enters them all together. The local variables of
    \<open>bufMsgPackToChannel\<close> are the last fields.
  \<^item> \<open>consume_msg\<close>, \<open>allChanReachSameTtMsg\<close>, \<open>flush_channel\<close>, \<open>barrier\<close> and \<open>emit\<close> are the pieces of its body;
    \<open>tt_step\<close> is the relation that puts them together: the goroutines that read the channels take turns in
    any order, the maps are walked in any order, the context may be cancelled at any time, and the consumer
    library may close a channel whose messages are all taken (\<open>chan_closed\<close>: its goroutine returns without
    a tick).
  \<^item> Packs are recorded in \<open>receiveBuf\<close> in the order they are sent.
\<close>

section \<open>State\<close>

datatype phase = Start | Outer | Guard | Collect "string list" | Stopped

record tt_stream = stream +
  chanMsgBuf :: "string \<Rightarrow> TsMsg list"
  chanMsgPos :: "string \<Rightarrow> MsgPosition option"
  chanTtMsgTime :: "string \<Rightarrow> timestamp"
  lastTimeStamp :: timestamp
  syncConsumer_tokens :: nat
  syncConsumer_closed :: bool
  chanTtMsgSync :: "string \<Rightarrow> bool"
  timeTickBuf :: "TsMsg list"
  startPositions :: "string \<rightharpoonup> MsgPosition"
  endPositions :: "string \<rightharpoonup> MsgPosition"
  endTs :: timestamp
  buf_size :: uint64
  phase :: phase

definition NewMqTtMsgStream :: "bool \<Rightarrow> tt_stream" where
  "NewMqTtMsgStream ttMsgEnabled =
     stream.extend (NewMqMsgStream ttMsgEnabled)
       \<lparr>chanMsgBuf = (\<lambda>_. []), chanMsgPos = (\<lambda>_. None), chanTtMsgTime = (\<lambda>_. 0), lastTimeStamp = 0,
        syncConsumer_tokens = 0, syncConsumer_closed = False, chanTtMsgSync = (\<lambda>_. False),
        timeTickBuf = [], startPositions = Map.empty, endPositions = Map.empty, endTs = 0, buf_size = 0,
        phase = Start\<rparr>"

definition addConsumer :: "tt_stream \<Rightarrow> string \<Rightarrow> Message list \<Rightarrow> tt_stream" where
  "addConsumer ms channel msgs =
     ms\<lparr>syncConsumer_tokens := (if consumers ms = [] then Suc (syncConsumer_tokens ms) else syncConsumer_tokens ms),
        consumers := set_key (consumers ms) channel,
        consumerChannels := consumerChannels ms @ [channel],
        inbox := (inbox ms)(channel := msgs),
        chanMsgBuf := (chanMsgBuf ms)(channel := []),
        chanMsgPos := (chanMsgPos ms)(channel := Some \<lparr>mp_ChannelName = channel, mp_MsgID = [],
          mp_MsgGroup = [], mp_Timestamp = lastTimeStamp ms\<rparr>),
        chanTtMsgTime := (chanTtMsgTime ms)(channel := 0)\<rparr>"

definition tt_AsConsumer ::
  "'w mq_client \<Rightarrow> ctx \<Rightarrow> string list \<Rightarrow> string \<Rightarrow> SubscriptionInitialPosition \<Rightarrow> int \<Rightarrow> tt_stream \<times> 'w \<Rightarrow>
     unit res \<times> (tt_stream \<times> 'w)" where
  "tt_AsConsumer cl c channels subName position now st =
     subscribe_all addConsumer cl c channels subName position now st"

text \<open>\<open>Close\<close> closes the channel \<open>syncConsumer\<close> first; closing it again panics.\<close>

definition tt_Close :: "tt_stream \<Rightarrow> (string list \<times> tt_stream) res" where
  "tt_Close ms =
     (if syncConsumer_closed ms then Panic ''close of closed channel''
      else Ok (Close (ms\<lparr>syncConsumer_closed := True\<rparr>)))"

section \<open>Reading up to a tick\<close>

definition isDMLMsg :: "TsMsg \<Rightarrow> bool res" where
  "isDMLMsg msg = bindO (msg_Type msg) (\<lambda>t. Ok (t = MT_Insert \<or> t = MT_Delete))"

text \<open>The body of \<open>consumeToTtMsg\<close> for one message: the new state, and whether the goroutine ends.\<close>

definition consume_msg :: "codec \<Rightarrow> string \<Rightarrow> Message \<Rightarrow> tt_stream \<Rightarrow> (tt_stream \<times> bool) res" where
  "consume_msg c channel msg ms =
     (case msg_Payload msg of
        None \<Rightarrow> Ok (ms, False)
      | Some _ \<Rightarrow>
          (case getTsMsgFromConsumerMsg c msg of
             Err e \<Rightarrow> Ok (ms, False)
           | Panic p \<Rightarrow> Panic p
           | Ok tsMsg \<Rightarrow>
               let ms1 = ms\<lparr>chanMsgBuf := (chanMsgBuf ms)(channel := chanMsgBuf ms channel @ [tsMsg])\<rparr>
               in bindO (msg_Type tsMsg) (\<lambda>t.
                    if t = MT_TimeTick
                    then (case Req tsMsg of
                            PlainReq TimeTickMsg r \<Rightarrow>
                              bindO (deref (pr_Base r)) (\<lambda>b.
                                Ok (ms1\<lparr>chanTtMsgTime := (chanTtMsgTime ms1)(channel := mb_Timestamp b)\<rparr>, True))
                          | _ \<Rightarrow> Panic ''interface conversion'')
                    else Ok (ms1, False))))"

text \<open>The whole goroutine, on the messages its channel has: the flag says whether it ended (a tick was
  read) or is still waiting.\<close>

fun consume_loop :: "codec \<Rightarrow> string \<Rightarrow> Message list \<Rightarrow> tt_stream \<Rightarrow> (tt_stream \<times> bool) res" where
  "consume_loop c channel [] ms = Ok (ms, False)"
| "consume_loop c channel (msg # msgs) ms =
     bindO (consume_msg c channel msg (ms\<lparr>inbox := (inbox ms)(channel := msgs)\<rparr>)) (\<lambda>(ms', ended).
       if ended then Ok (ms', True) else consume_loop c channel msgs ms')"

definition consumeToTtMsg :: "codec \<Rightarrow> string \<Rightarrow> tt_stream \<Rightarrow> (tt_stream \<times> bool) res" where
  "consumeToTtMsg c channel ms = consume_loop c channel (inbox ms channel) ms"

section \<open>The barrier\<close>

definition maxTime :: "tt_stream \<Rightarrow> timestamp" where
  "maxTime ms = fold (\<lambda>ch t. if chanTtMsgTime ms ch > t then chanTtMsgTime ms ch else t) (consumers ms) 0"

definition allChanReachSameTtMsg :: "tt_stream \<Rightarrow> (timestamp \<times> bool) \<times> tt_stream" where
  "allChanReachSameTtMsg ms =
     (if length (remdups (map (chanTtMsgTime ms) (consumers ms))) \<le> 1
      then ((maxTime ms, True),
            ms\<lparr>chanTtMsgSync := (\<lambda>ch. if ch \<in> set (consumers ms) then False else chanTtMsgSync ms ch)\<rparr>)
      else ((0, False),
            ms\<lparr>chanTtMsgSync := (\<lambda>ch. if ch \<in> set (consumers ms) then chanTtMsgTime ms ch = maxTime ms
                                      else chanTtMsgSync ms ch)\<rparr>))"

text \<open>Splitting the buffer of a channel at a tick: the messages to emit, those to keep, the last time tick
  and the size of the emitted ones.\<close>

definition split_body ::
  "codec \<Rightarrow> timestamp \<Rightarrow> TsMsg list \<times> TsMsg list \<times> TsMsg option \<times> uint64 \<Rightarrow> TsMsg \<Rightarrow>
     (TsMsg list \<times> TsMsg list \<times> TsMsg option \<times> uint64) res" where
  "split_body c currTs = (\<lambda>(out, tempBuffer, timeTickMsg, size) v.
     bindO (msg_Type v) (\<lambda>t.
       Ok (if t = MT_TimeTick then (out, tempBuffer, Some v, size)
           else if EndTs v \<le> currTs then (out @ [v], tempBuffer, timeTickMsg, size + of_nat (Size c v))
           else (out, tempBuffer @ [v], timeTickMsg, size))))"

definition split_msgs ::
  "codec \<Rightarrow> timestamp \<Rightarrow> TsMsg list \<Rightarrow> (TsMsg list \<times> TsMsg list \<times> TsMsg option \<times> uint64) res" where
  "split_msgs c currTs msgs = foldO (split_body c currTs) ([], [], None, 0) msgs"

text \<open>The position to resume from: the first message kept, or else the tick.\<close>

definition position_of :: "string \<Rightarrow> timestamp \<Rightarrow> TsMsg \<Rightarrow> MsgPosition res" where
  "position_of subName currTs m =
     bindO (deref (Position m)) (\<lambda>p.
       Ok \<lparr>mp_ChannelName = mp_ChannelName p, mp_MsgID = mp_MsgID p, mp_MsgGroup = subName,
           mp_Timestamp = currTs\<rparr>)"

definition new_position :: "string \<Rightarrow> timestamp \<Rightarrow> TsMsg list \<Rightarrow> TsMsg option \<Rightarrow> MsgPosition option res" where
  "new_position subName currTs tempBuffer timeTickMsg =
     (case tempBuffer of
        m # _ \<Rightarrow> bindO (position_of subName currTs m) (\<lambda>p. Ok (Some p))
      | [] \<Rightarrow> (case timeTickMsg of
                 Some t \<Rightarrow> bindO (position_of subName currTs t) (\<lambda>p. Ok (Some p))
               | None \<Rightarrow> Ok None))"

definition flush_channel :: "codec \<Rightarrow> timestamp \<Rightarrow> tt_stream \<Rightarrow> string \<Rightarrow> tt_stream res" where
  "flush_channel c currTs ms channel =
     (if length (chanMsgBuf ms channel) = 0 then Ok ms
      else
        bindO (deref (chanMsgPos ms channel)) (\<lambda>startPos.
        let channelName = mp_ChannelName startPos;
            starts = (if startPositions ms channelName = None
                      then (startPositions ms)(channelName \<mapsto> startPos) else startPositions ms)
        in bindO (split_msgs c currTs (chanMsgBuf ms channel)) (\<lambda>(out, tempBuffer, timeTickMsg, sz).
           bindO (new_position (subscription ms) currTs tempBuffer timeTickMsg) (\<lambda>newPos.
             Ok (ms\<lparr>startPositions := starts,
                    timeTickBuf := timeTickBuf ms @ out,
                    buf_size := buf_size ms + sz,
                    chanMsgBuf := (chanMsgBuf ms)(channel := tempBuffer),
                    endPositions := (case newPos of None \<Rightarrow> endPositions ms
                                       | Some p \<Rightarrow> (endPositions ms)(channelName \<mapsto> p)),
                    chanMsgPos := (chanMsgPos ms)(channel := newPos)\<rparr>)))))"

text \<open>What follows when all goroutines of a round have ended; \<open>walk\<close> is the order of the map.\<close>

definition barrier :: "codec \<Rightarrow> string list \<Rightarrow> tt_stream \<Rightarrow> tt_stream res" where
  "barrier c walk ms =
     (case allChanReachSameTtMsg ms of
        ((currTs, ok), ms1) \<Rightarrow>
          if \<not> ok \<or> currTs \<le> lastTimeStamp ms1 then Ok ms1
          else foldO (flush_channel c currTs) (ms1\<lparr>endTs := currTs\<rparr>) walk)"

section \<open>Emitting a pack\<close>

record cfg =
  EnablePursuitMode :: bool
  PursuitBufferSize :: uint64
  PursuitLag :: int

definition continueBuffering :: "cfg \<Rightarrow> int \<Rightarrow> tt_stream \<Rightarrow> bool" where
  "continueBuffering cf now ms =
     (if ctx_cancelled ms then False
      else if endTs ms = 0 then True
      else if \<not> EnablePursuitMode cf then False
      else if buf_size ms > PursuitBufferSize cf then False
      else now - fst (ParseTS (endTs ms)) > PursuitLag cf)"

fun unique_msgs :: "int Set \<Rightarrow> TsMsg list \<Rightarrow> TsMsg list res" where
  "unique_msgs idset [] = Ok []"
| "unique_msgs idset (msg # msgs) =
     bindO (isDMLMsg msg) (\<lambda>dml.
     bindO (if dml then bindO (ID msg) (\<lambda>i. Ok (Set_Contain idset [i])) else Ok False) (\<lambda>duplicate.
       if duplicate then unique_msgs idset msgs
       else bindO (ID msg) (\<lambda>i.
            bindO (unique_msgs (Set_Insert idset [i]) msgs) (\<lambda>uniqueMsgs. Ok (msg # uniqueMsgs)))))"

definition MapToSlice :: "string list \<Rightarrow> (string \<rightharpoonup> MsgPosition) \<Rightarrow> MsgPosition option list" where
  "MapToSlice walk m = map m walk"

text \<open>The part after the inner loop. The walks are the orders of the two position maps.\<close>

definition emit :: "string list \<Rightarrow> string list \<Rightarrow> tt_stream \<Rightarrow> tt_stream res" where
  "emit walk1 walk2 ms =
     bindO (unique_msgs (NewSet []) (timeTickBuf ms)) (\<lambda>uniqueMsgs.
       if endTs ms > 0
       then Ok (ms\<lparr>receiveBuf := receiveBuf ms @ [\<lparr>Pack_BeginTs = lastTimeStamp ms, Pack_EndTs = endTs ms,
                     Msgs = uniqueMsgs, StartPositions = MapToSlice walk1 (startPositions ms),
                     EndPositions = MapToSlice walk2 (endPositions ms)\<rparr>],
                   lastTimeStamp := endTs ms\<rparr>)
       else Ok ms)"

text \<open>The variables of one turn of the outer loop; they are gone when the turn ends.\<close>

definition clear_turn :: "tt_stream \<Rightarrow> tt_stream" where
  "clear_turn ms = ms\<lparr>timeTickBuf := [], startPositions := Map.empty, endPositions := Map.empty,
     endTs := 0, buf_size := 0\<rparr>"

section \<open>The loop as a step relation\<close>

text \<open>A goroutine of the round takes one message.\<close>

inductive read_step :: "codec \<Rightarrow> tt_stream \<Rightarrow> tt_stream \<Rightarrow> bool" for c where
  read: "phase ms = Collect chs \<Longrightarrow> ch \<in> set chs \<Longrightarrow> inbox ms ch = msg # msgs \<Longrightarrow>
    consume_msg c ch msg (ms\<lparr>inbox := (inbox ms)(ch := msgs)\<rparr>) = Ok (ms', ended) \<Longrightarrow>
    read_step c ms (ms'\<lparr>phase := Collect (if ended then remove1 ch chs else chs)\<rparr>)"

inductive tt_step :: "cfg \<Rightarrow> codec \<Rightarrow> tt_stream \<Rightarrow> tt_stream \<Rightarrow> bool" for cf c where
  cancel: "tt_step cf c ms (ms\<lparr>ctx_cancelled := True\<rparr>)"
| started: "phase ms = Start \<Longrightarrow> syncConsumer_tokens ms > 0 \<Longrightarrow>
    tt_step cf c ms (ms\<lparr>syncConsumer_tokens := syncConsumer_tokens ms - 1, phase := Outer\<rparr>)"
| start_closed: "phase ms = Start \<Longrightarrow> syncConsumer_closed ms \<Longrightarrow> syncConsumer_tokens ms = 0 \<Longrightarrow>
    tt_step cf c ms (ms\<lparr>phase := Stopped\<rparr>)"
| outer_done: "phase ms = Outer \<Longrightarrow> ctx_cancelled ms \<Longrightarrow> tt_step cf c ms (ms\<lparr>phase := Stopped\<rparr>)"
| outer: "phase ms = Outer \<Longrightarrow> \<not> ctx_cancelled ms \<Longrightarrow> tt_step cf c ms ((clear_turn ms)\<lparr>phase := Guard\<rparr>)"
| guard: "phase ms = Guard \<Longrightarrow> continueBuffering cf now ms \<Longrightarrow>
    tt_step cf c ms (ms\<lparr>phase := Collect (filter (\<lambda>ch. \<not> chanTtMsgSync ms ch) (consumers ms))\<rparr>)"
| consume: "read_step c ms ms' \<Longrightarrow> tt_step cf c ms ms'"
| give_up: "phase ms = Collect chs \<Longrightarrow> ch \<in> set chs \<Longrightarrow> ctx_cancelled ms \<Longrightarrow>
    tt_step cf c ms (ms\<lparr>phase := Collect (remove1 ch chs)\<rparr>)"
| chan_closed: "phase ms = Collect chs \<Longrightarrow> ch \<in> set chs \<Longrightarrow> inbox ms ch = [] \<Longrightarrow>
    tt_step cf c ms (ms\<lparr>phase := Collect (remove1 ch chs)\<rparr>)"
| reach: "phase ms = Collect [] \<Longrightarrow> is_walk walk (set (consumers ms)) \<Longrightarrow> barrier c walk ms = Ok ms' \<Longrightarrow>
    tt_step cf c ms (ms'\<lparr>phase := Guard\<rparr>)"
| send: "phase ms = Guard \<Longrightarrow> \<not> continueBuffering cf now ms \<Longrightarrow>
    is_walk walk1 (dom (startPositions ms)) \<Longrightarrow> is_walk walk2 (dom (endPositions ms)) \<Longrightarrow>
    emit walk1 walk2 ms = Ok ms' \<Longrightarrow> tt_step cf c ms ((clear_turn ms')\<lparr>phase := Outer\<rparr>)"
| send_done: "phase ms = Guard \<Longrightarrow> \<not> continueBuffering cf now ms \<Longrightarrow> ctx_cancelled ms \<Longrightarrow> endTs ms > 0 \<Longrightarrow>
    tt_step cf c ms (ms\<lparr>phase := Stopped\<rparr>)"

abbreviation tt_run :: "cfg \<Rightarrow> codec \<Rightarrow> tt_stream \<Rightarrow> tt_stream \<Rightarrow> bool" where
  "tt_run cf c \<equiv> (tt_step cf c)\<^sup>*\<^sup>*"

section \<open>Seek\<close>

text \<open>The retried part: whether to try again, and the error.\<close>

definition seek_fn ::
  "'w mq_client \<Rightarrow> bool \<Rightarrow> MsgPosition \<Rightarrow> int \<Rightarrow> tt_stream \<times> 'w \<Rightarrow> (bool \<times> go_error option) \<times> int \<times> (tt_stream \<times> 'w)" where
  "seek_fn cl ignoreBad mp now = (\<lambda>(ms, w).
     let channel = mp_ChannelName mp;
         seek_to = (\<lambda>i w. case cl_Seek cl channel i True w of
             (Inl err, w') \<Rightarrow>
               (if errors_Is err ErrMqTopicNotFound then ((False, Some err), now, (ms, w'))
                else ((True, Some err), now, (ms, w')))
           | (Inr msgs, w') \<Rightarrow> ((False, None), now, (ms\<lparr>inbox := (inbox ms)(channel := msgs)\<rparr>, w')))
     in if channel \<notin> set (consumers ms)
        then ((False, Some (ErrorString (''please subcribe the channel, channel name ='' @ channel))), now, (ms, w))
        else case cl_BytesToMsgID cl (mp_MsgID mp) of
               Inr i \<Rightarrow> seek_to i w
             | Inl err \<Rightarrow>
                 (if ignoreBad
                  then (case cl_GetLatestMsgID cl channel w of
                          (Inl _, w') \<Rightarrow> ((False, None), now, (ms, w'))
                        | (Inr i, w') \<Rightarrow> seek_to i w')
                  else ((False, Some err), now, (ms, w))))"

text \<open>One message of the loop that skips the data before the position: the messages to buffer, and whether
  the loop ends.\<close>

definition seek_msg :: "'w mq_client \<Rightarrow> codec \<Rightarrow> timestamp \<Rightarrow> Message \<Rightarrow> (TsMsg list \<times> bool) res" where
  "seek_msg cl c ts msg =
     (let payload = (case msg_Payload msg of None \<Rightarrow> [] | Some p \<Rightarrow> p)
      in bindO (map_err (decode_error ''failed to unmarshal message header, err '') (pb_UnmarshalHeader c payload))
         (\<lambda>base. bindO (deref base) (\<lambda>b.
          bindO (map_err (decode_error ''failed to unmarshal tsMsg, err '')
                  (Dispatcher_Unmarshal NewUnmarshalDispatcher c (AnyBytes payload) (mb_MsgType b)))
         (\<lambda>tsMsg. bindO (msg_Type tsMsg) (\<lambda>t.
            if t = MT_TimeTick \<and> BeginTs tsMsg \<ge> ts then Ok ([], True)
            else if BeginTs tsMsg > ts
            then bindO (ExtractCtx (cl_Extract cl) (cl_StartSpan cl) tsMsg (msg_Properties msg)) (\<lambda>ctx.
                   Ok ([SetPosition (SetTraceCtx tsMsg ctx) (position_at msg)], False))
            else bindO (SourceID tsMsg) (\<lambda>_. Ok ([], False)))))))"

text \<open>The loop over the messages the channel has. The flag is false when they run out before the tick: the
  call is then waiting.\<close>

fun seek_loop ::
  "'w mq_client \<Rightarrow> codec \<Rightarrow> string \<Rightarrow> timestamp \<Rightarrow> Message list \<Rightarrow> tt_stream \<Rightarrow> bool res \<times> tt_stream" where
  "seek_loop cl c channel ts [] ms = (Ok False, ms)"
| "seek_loop cl c channel ts (msg # msgs) ms =
     (let ms1 = ms\<lparr>inbox := (inbox ms)(channel := msgs)\<rparr>
      in case seek_msg cl c ts msg of
           Err e \<Rightarrow> (Err e, ms1)
         | Panic p \<Rightarrow> (Panic p, ms1)
         | Ok (kept, found) \<Rightarrow>
             (let ms2 = ms1\<lparr>chanMsgBuf := (chanMsgBuf ms1)(channel := chanMsgBuf ms1 channel @ kept)\<rparr>
              in if found then (Ok True, ms2) else seek_loop cl c channel ts msgs ms2))"

fun tt_Seek ::
  "'w mq_client \<Rightarrow> codec \<Rightarrow> bool \<Rightarrow> ctx \<Rightarrow> MsgPosition list \<Rightarrow> int \<Rightarrow> tt_stream \<times> 'w \<Rightarrow>
     bool res \<times> (tt_stream \<times> 'w)" where
  "tt_Seek cl c ignoreBad ctx [] now st = (Ok True, st)"
| "tt_Seek cl c ignoreBad ctx (mp # msgPositions) now st =
     (if length (mp_MsgID mp) = 0
      then (Err (ErrorString ''when msgID's length equal to 0, please use AsConsumer interface''), st)
      else case Handle (\<lambda>_. False) ctx (seek_fn cl ignoreBad mp) stream_retry now st of
             (Some err, now', st') \<Rightarrow> (Err (ErrorString (''failed to seek, error '' @ Error_string err)), st')
           | (None, now', (ms, w)) \<Rightarrow>
               (let channel = mp_ChannelName mp;
                    ms1 = (addConsumer ms channel (inbox ms channel));
                    ms2 = ms1\<lparr>chanMsgPos := (chanMsgPos ms1)(channel := Some mp)\<rparr>
                in case seek_loop cl c channel (mp_Timestamp mp) (inbox ms2 channel) ms2 of
                     (Ok True, ms3) \<Rightarrow> tt_Seek cl c ignoreBad ctx msgPositions now' (ms3, w)
                   | (r, ms3) \<Rightarrow> (r, (ms3, w))))"

section \<open>Messages as the stream sees them\<close>

definition is_tick :: "TsMsg \<Rightarrow> bool" where
  "is_tick m \<longleftrightarrow> msg_Type m = Ok MT_TimeTick"

definition tick_time :: "TsMsg \<Rightarrow> timestamp" where
  "tick_time m = (case base_of (Req m) of None \<Rightarrow> 0 | Some b \<Rightarrow> mb_Timestamp b)"

definition decode1 :: "codec \<Rightarrow> Message \<Rightarrow> TsMsg list" where
  "decode1 c msg = (case getTsMsgFromConsumerMsg c msg of Ok m \<Rightarrow> [m] | _ \<Rightarrow> [])"

definition decodes :: "codec \<Rightarrow> Message list \<Rightarrow> TsMsg list" where
  "decodes c msgs = concat (map (decode1 c) msgs)"

lemma decodes_simps [simp]: "decodes c [] = []" "decodes c (m # ms) = decode1 c m @ decodes c ms"
  by (simp_all add: decodes_def)

definition data :: "TsMsg list \<Rightarrow> TsMsg list" where
  "data ms = filter (\<lambda>m. \<not> is_tick m) ms"

lemma data_simps [simp]:
  "data [] = []" "data (m # ms) = (if is_tick m then data ms else m # data ms)" "data (xs @ ys) = data xs @ data ys"
  by (simp_all add: data_def)

definition ready :: "timestamp \<Rightarrow> TsMsg list \<Rightarrow> TsMsg list" where
  "ready T ms = filter (\<lambda>m. EndTs m \<le> T) (data ms)"

definition keep :: "timestamp \<Rightarrow> TsMsg list \<Rightarrow> TsMsg list" where
  "keep T ms = filter (\<lambda>m. \<not> EndTs m \<le> T) (data ms)"

lemma ready_keep_mset: "mset (ready T ms) + mset (keep T ms) = mset (data ms)"
  by (simp add: ready_def keep_def mset_filter_split)

lemma data_keep [simp]: "data (keep T ms) = keep T ms"
  unfolding keep_def data_def filter_filter by (rule filter_cong) auto

lemma SetPosition_simps [simp]:
  "Req (SetPosition m p) = Req m" "EndTs (SetPosition m p) = EndTs m" "BeginTs (SetPosition m p) = BeginTs m"
  "Position (SetPosition m p) = Some p" "msg_Type (SetPosition m p) = msg_Type m"
  "is_tick (SetPosition m p) = is_tick m" "tick_time (SetPosition m p) = tick_time m"
  by (simp_all add: SetPosition_def EndTs_def BeginTs_def Position_def call_simps read_base_def is_tick_def
      tick_time_def)

section \<open>What the steps do\<close>

text \<open>Entering a message into the buffer of a channel.\<close>

definition push :: "string \<Rightarrow> TsMsg \<Rightarrow> tt_stream \<Rightarrow> tt_stream" where
  "push ch m ms = ms\<lparr>chanMsgBuf := (chanMsgBuf ms)(ch := chanMsgBuf ms ch @ [m]),
     chanTtMsgTime := (if is_tick m then (chanTtMsgTime ms)(ch := tick_time m) else chanTtMsgTime ms)\<rparr>"

lemma push_simps [simp]:
  "inbox (push ch m ms) = inbox ms" "consumers (push ch m ms) = consumers ms"
  "lastTimeStamp (push ch m ms) = lastTimeStamp ms" "receiveBuf (push ch m ms) = receiveBuf ms"
  "timeTickBuf (push ch m ms) = timeTickBuf ms" "endTs (push ch m ms) = endTs ms"
  "chanMsgBuf (push ch m ms) = (chanMsgBuf ms)(ch := chanMsgBuf ms ch @ [m])"
  "chanTtMsgTime (push ch m ms) = (if is_tick m then (chanTtMsgTime ms)(ch := tick_time m) else chanTtMsgTime ms)"
  "chanMsgPos (push ch m ms) = chanMsgPos ms" "chanTtMsgSync (push ch m ms) = chanTtMsgSync ms"
  "ctx_cancelled (push ch m ms) = ctx_cancelled ms" "subscription (push ch m ms) = subscription ms"
  by (simp_all add: push_def)

lemma getTsMsg_Position: "getTsMsgFromConsumerMsg c msg = Ok m \<Longrightarrow> Position m = Some (position_at msg)"
  by (auto simp: getTsMsgFromConsumerMsg_def outcome_simps position_at_def split: option.splits)

text \<open>A successful turn of a goroutine: the message is dropped, or it is pushed and the goroutine ends at a
  tick.\<close>

lemma consume_msg_Ok:
  assumes "consume_msg c ch msg ms = Ok (ms', ended)"
  shows "(decode1 c msg = [] \<and> ms' = ms \<and> \<not> ended) \<or>
    (\<exists>m. decode1 c msg = [m] \<and> ms' = push ch m ms \<and> ended = is_tick m \<and> base_of (Req m) \<noteq> None
       \<and> Position m = Some (position_at msg))"
proof (cases "getTsMsgFromConsumerMsg c msg")
  case (Ok m)
  then have "msg_Payload msg \<noteq> None" by (cases "msg_Payload msg") (auto simp: getTsMsgFromConsumerMsg_def)
  with assms Ok obtain t where t: "msg_Type m = Ok t"
    by (auto simp: consume_msg_def outcome_simps Let_def)
  then have "base_of (Req m) \<noteq> None" by (auto simp: call_simps read_base_def split: option.splits)
  with assms Ok t \<open>msg_Payload msg \<noteq> None\<close> getTsMsg_Position [OF Ok] show ?thesis
    by (auto simp: consume_msg_def decode1_def push_def is_tick_def tick_time_def outcome_simps Let_def
        split: if_splits request.splits PlainKind.splits)
next
  case (Err e)
  with assms show ?thesis by (auto simp: consume_msg_def decode1_def split: option.splits)
next
  case (Panic p)
  then have "msg_Payload msg \<noteq> None" by (cases "msg_Payload msg") (auto simp: getTsMsgFromConsumerMsg_def)
  with assms Panic show ?thesis by (auto simp: consume_msg_def)
qed

lemma split_body_Ok:
  "split_body c T (a, k, t, s) v = Ok (a', k', t', s') \<Longrightarrow>
   a' = a @ ready T [v] \<and> k' = k @ keep T [v] \<and> t' = (if is_tick v then Some v else t)"
  by (auto simp: split_body_def outcome_simps ready_def keep_def is_tick_def)

lemma split_msgs_loop:
  "foldO (split_body c T) (a, k, t, s) msgs = Ok (a', k', t', s') \<Longrightarrow>
   a' = a @ ready T msgs \<and> k' = k @ keep T msgs
   \<and> t' = (if filter is_tick msgs = [] then t else Some (last (filter is_tick msgs)))"
proof (induction msgs arbitrary: a k t s)
  case (Cons v msgs)
  then obtain a1 k1 t1 s1 where 1: "split_body c T (a, k, t, s) v = Ok (a1, k1, t1, s1)"
    "foldO (split_body c T) (a1, k1, t1, s1) msgs = Ok (a', k', t', s')"
    by (auto simp: outcome_simps)
  from Cons.IH [OF 1(2)] split_body_Ok [OF 1(1)] show ?case
    by (auto simp: ready_def keep_def data_def)
qed (simp add: ready_def keep_def)

lemma split_msgs_Ok:
  "split_msgs c T msgs = Ok (a, k, t, s) \<Longrightarrow>
   a = ready T msgs \<and> k = keep T msgs \<and> t = (if filter is_tick msgs = [] then None else Some (last (filter is_tick msgs)))"
  using split_msgs_loop [of c T "[]" "[]" None 0 msgs] by (simp add: split_msgs_def)

text \<open>What a flush and the barrier leave alone.\<close>

definition frame :: "tt_stream \<Rightarrow> tt_stream \<Rightarrow> bool" where
  "frame ms ms' \<longleftrightarrow> inbox ms' = inbox ms \<and> consumers ms' = consumers ms \<and> chanTtMsgTime ms' = chanTtMsgTime ms
     \<and> lastTimeStamp ms' = lastTimeStamp ms \<and> receiveBuf ms' = receiveBuf ms \<and> subscription ms' = subscription ms
     \<and> ctx_cancelled ms' = ctx_cancelled ms"

lemma frame_refl [simp]: "frame ms ms"
  by (simp add: frame_def)

lemma frame_trans: "frame a b \<Longrightarrow> frame b c \<Longrightarrow> frame a c"
  by (simp add: frame_def)

definition flushed :: "timestamp \<Rightarrow> tt_stream \<Rightarrow> string \<Rightarrow> tt_stream \<Rightarrow> bool" where
  "flushed T ms ch ms' \<longleftrightarrow> frame ms ms' \<and> endTs ms' = endTs ms \<and> chanTtMsgSync ms' = chanTtMsgSync ms
     \<and> chanMsgBuf ms' = (chanMsgBuf ms)(ch := keep T (chanMsgBuf ms ch))
     \<and> timeTickBuf ms' = timeTickBuf ms @ ready T (chanMsgBuf ms ch)"

lemma flush_channel_Ok:
  assumes "flush_channel c T ms ch = Ok ms'"
  shows "flushed T ms ch ms'"
proof (cases "chanMsgBuf ms ch = []")
  case True
  with assms show ?thesis
    by (auto simp: flush_channel_def flushed_def keep_def ready_def fun_upd_idem)
next
  case False
  with assms obtain a k t s where "split_msgs c T (chanMsgBuf ms ch) = Ok (a, k, t, s)"
    "frame ms ms'" "endTs ms' = endTs ms" "chanTtMsgSync ms' = chanTtMsgSync ms"
    "chanMsgBuf ms' = (chanMsgBuf ms)(ch := k)" "timeTickBuf ms' = timeTickBuf ms @ a"
    by (auto simp: flush_channel_def outcome_simps Let_def frame_def)
  with split_msgs_Ok [OF this(1)] show ?thesis by (simp add: flushed_def)
qed

lemma flush_all_Ok:
  "foldO (flush_channel c T) ms walk = Ok ms' \<Longrightarrow> distinct walk \<Longrightarrow>
   frame ms ms' \<and> endTs ms' = endTs ms \<and> chanTtMsgSync ms' = chanTtMsgSync ms
   \<and> chanMsgBuf ms' = (\<lambda>ch. if ch \<in> set walk then keep T (chanMsgBuf ms ch) else chanMsgBuf ms ch)
   \<and> timeTickBuf ms' = timeTickBuf ms @ concat (map (\<lambda>ch. ready T (chanMsgBuf ms ch)) walk)"
proof (induction walk arbitrary: ms)
  case (Cons ch walk)
  then obtain ms1 where 1: "flush_channel c T ms ch = Ok ms1" "foldO (flush_channel c T) ms1 walk = Ok ms'"
    by (auto simp: outcome_simps)
  have f: "flushed T ms ch ms1" using flush_channel_Ok [OF 1(1)] .
  have "map (\<lambda>ch. ready T (chanMsgBuf ms1 ch)) walk = map (\<lambda>ch. ready T (chanMsgBuf ms ch)) walk"
    using f Cons.prems(2) by (auto simp: flushed_def)
  with Cons.IH [OF 1(2)] Cons.prems(2) f show ?case
    by (auto simp: flushed_def fun_eq_iff intro: frame_trans)
qed simp

lemma length_remdups_le_1: "length (remdups xs) \<le> 1 \<longleftrightarrow> (\<exists>x. set xs \<subseteq> {x})"
proof -
  have "length (remdups xs) \<le> 1 \<longleftrightarrow> card (set xs) \<le> 1" by (simp add: length_remdups_card_conv)
  also have "\<dots> \<longleftrightarrow> (\<exists>x. set xs \<subseteq> {x})"
    using card_le_Suc0_iff_eq [of "set xs"] by (cases xs) auto
  finally show ?thesis .
qed

lemma max_fold:
  "fold (\<lambda>ch t. if f ch > t then f ch else t) chs (b::timestamp) = Max (insert b (f ` set chs))"
proof (induction chs arbitrary: b)
  case (Cons ch chs)
  have "(if f ch > b then f ch else b) = max b (f ch)" by (auto simp: max_def)
  with Cons show ?case by (cases "chs = []") (simp_all add: max.assoc)
qed simp

lemma maxTime_eq: "maxTime ms = Max (insert 0 (chanTtMsgTime ms ` set (consumers ms)))"
  unfolding maxTime_def by (rule max_fold)

lemma all_reached:
  assumes "allChanReachSameTtMsg ms = ((T, True), ms1)" and "0 < T"
  shows "\<And>ch. ch \<in> set (consumers ms) \<Longrightarrow> chanTtMsgTime ms ch = T"
proof -
  from assms(1) have T: "T = maxTime ms" and eq: "length (remdups (map (chanTtMsgTime ms) (consumers ms))) \<le> 1"
    by (auto simp: allChanReachSameTtMsg_def split: if_splits)
  from eq obtain x where x: "chanTtMsgTime ms ` set (consumers ms) \<subseteq> {x}"
    unfolding length_remdups_le_1 by auto
  show "chanTtMsgTime ms ch = T" if "ch \<in> set (consumers ms)" for ch
  proof -
    from x that have "chanTtMsgTime ms ` set (consumers ms) = {x}" by auto
    then have "T = max 0 x" by (simp add: T maxTime_eq)
    then have "T = x" by (simp add: max_def)
    with x that show ?thesis by auto
  qed
qed

definition no_flush :: "tt_stream \<Rightarrow> tt_stream \<Rightarrow> bool" where
  "no_flush ms ms' \<longleftrightarrow> frame ms ms' \<and> endTs ms' = endTs ms \<and> chanMsgBuf ms' = chanMsgBuf ms
     \<and> timeTickBuf ms' = timeTickBuf ms"

definition flush_at :: "timestamp \<Rightarrow> string list \<Rightarrow> tt_stream \<Rightarrow> tt_stream \<Rightarrow> bool" where
  "flush_at T walk ms ms' \<longleftrightarrow> frame ms ms' \<and> endTs ms' = T \<and> lastTimeStamp ms < T \<and> consumers ms \<noteq> []
     \<and> (\<forall>ch \<in> set (consumers ms). chanTtMsgTime ms ch = T)
     \<and> chanMsgBuf ms' = (\<lambda>ch. if ch \<in> set (consumers ms) then keep T (chanMsgBuf ms ch) else chanMsgBuf ms ch)
     \<and> timeTickBuf ms' = timeTickBuf ms @ concat (map (\<lambda>ch. ready T (chanMsgBuf ms ch)) walk)"

lemma barrier_Ok:
  assumes "barrier c walk ms = Ok ms'" and "is_walk walk (set (consumers ms))"
  shows "no_flush ms ms' \<or> (\<exists>T. flush_at T walk ms ms')"
proof -
  obtain T ok ms1 where a: "allChanReachSameTtMsg ms = ((T, ok), ms1)" by (metis surj_pair)
  have m1: "no_flush ms ms1" using a
    by (auto simp: allChanReachSameTtMsg_def no_flush_def frame_def split: if_splits)
  show ?thesis
  proof (cases "ok \<and> T > lastTimeStamp ms1")
    case False
    with assms a m1 show ?thesis by (auto simp: barrier_def not_less)
  next
    case True
    then have nle: "\<not> T \<le> lastTimeStamp ms1" by (simp add: not_le)
    with True a assms(1) have f: "foldO (flush_channel c T) (ms1\<lparr>endTs := T\<rparr>) walk = Ok ms'"
      by (simp add: barrier_def)
    have T0: "0 < T" using nle by (cases "T = 0") (auto simp: word_neq_0_conv)
    then have ne: "consumers ms \<noteq> []"
      using a True by (auto simp: allChanReachSameTtMsg_def maxTime_def split: if_splits)
    from flush_all_Ok [OF f] assms(2) True a m1 all_reached [of ms T ms1] T0 ne
    have "flush_at T walk ms ms'"
      by (auto simp: flush_at_def no_flush_def frame_def is_walk_def fun_eq_iff)
    then show ?thesis by blast
  qed
qed

text \<open>Dropping duplicates is the loop over a set of ids.\<close>

definition is_dml :: "TsMsg \<Rightarrow> bool" where "is_dml m \<longleftrightarrow> isDMLMsg m = Ok True"
definition id_of :: "TsMsg \<Rightarrow> int" where "id_of m = (case ID m of Ok i \<Rightarrow> i | _ \<Rightarrow> 0)"

definition dedupe :: "TsMsg list \<Rightarrow> TsMsg list" where
  "dedupe ms = uniq_loop Set_Contain Set_Insert is_dml id_of (NewSet []) ms"

lemma unique_msgs_Ok:
  "unique_msgs idset ms = Ok out \<Longrightarrow> out = uniq_loop Set_Contain Set_Insert is_dml id_of idset ms"
proof (induction ms arbitrary: idset out)
  case (Cons m ms)
  then obtain d dup where d: "isDMLMsg m = Ok d"
    "(if d then bindO (ID m) (\<lambda>i. Ok (Set_Contain idset [i])) else Ok False) = (Ok dup :: bool res)"
    by (auto simp: outcome_simps)
  show ?case
  proof (cases dup)
    case True
    with d have "is_dml m \<and> Set_Contain idset [id_of m]"
      by (auto simp: outcome_simps is_dml_def id_of_def split: if_splits)
    with Cons d True show ?thesis by simp
  next
    case False
    with Cons.prems d obtain i out' where i: "ID m = Ok i" "unique_msgs (Set_Insert idset [i]) ms = Ok out'"
      "out = m # out'"
      by (auto simp: outcome_simps)
    with d False have "\<not> (is_dml m \<and> Set_Contain idset [id_of m])"
      by (auto simp: is_dml_def id_of_def split: if_splits)
    moreover have "id_of m = i" using i(1) by (simp add: id_of_def)
    ultimately show ?thesis using Cons.IH [OF i(2)] i(3) by auto
  qed
qed simp

definition sent :: "string list \<Rightarrow> string list \<Rightarrow> tt_stream \<Rightarrow> MsgPack" where
  "sent walk1 walk2 ms = \<lparr>Pack_BeginTs = lastTimeStamp ms, Pack_EndTs = endTs ms,
     Msgs = dedupe (timeTickBuf ms), StartPositions = MapToSlice walk1 (startPositions ms),
     EndPositions = MapToSlice walk2 (endPositions ms)\<rparr>"

lemma emit_Ok:
  "emit walk1 walk2 ms = Ok ms' \<Longrightarrow>
   ms' = (if 0 < endTs ms
          then ms\<lparr>receiveBuf := receiveBuf ms @ [sent walk1 walk2 ms], lastTimeStamp := endTs ms\<rparr> else ms)"
  by (auto simp: emit_def outcome_simps sent_def dedupe_def dest: unique_msgs_Ok)

text \<open>Rule induction over runs: a property of states that every step preserves.\<close>

lemma tt_run_invariant:
  assumes "tt_run cf c s s'" and "I s" and "\<And>a b. I a \<Longrightarrow> tt_step cf c a b \<Longrightarrow> I b"
  shows "I s'"
  using assms by (induction rule: rtranclp_induct) auto

text \<open>A goroutine's step in terms of \<open>push\<close>.\<close>

lemma read_step_cases:
  assumes "read_step c ms ms'"
  obtains chs ch msg msgs where "phase ms = Collect chs" "ch \<in> set chs" "inbox ms ch = msg # msgs"
    "decode1 c msg = []" "ms' = ms\<lparr>inbox := (inbox ms)(ch := msgs), phase := Collect chs\<rparr>"
  | chs ch msg msgs m where "phase ms = Collect chs" "ch \<in> set chs" "inbox ms ch = msg # msgs"
    "decode1 c msg = [m]" "base_of (Req m) \<noteq> None" "Position m = Some (position_at msg)"
    "ms' = (push ch m (ms\<lparr>inbox := (inbox ms)(ch := msgs)\<rparr>))\<lparr>phase := Collect (if is_tick m then remove1 ch chs else chs)\<rparr>"
  using assms
proof (cases rule: read_step.cases)
  case (read chs ch msg msgs ms1 ended)
  from consume_msg_Ok [OF read(5)] read that show ?thesis by auto
qed

section \<open>The packs form a chain\<close>

fun chained :: "timestamp \<Rightarrow> MsgPack list \<Rightarrow> timestamp \<Rightarrow> bool" where
  "chained b [] e = (b = e)"
| "chained b (p # ps) e = (Pack_BeginTs p = b \<and> b < Pack_EndTs p \<and> chained (Pack_EndTs p) ps e)"

lemma chained_snoc: "chained b (ps @ [p]) e \<longleftrightarrow> chained b ps (Pack_BeginTs p) \<and> Pack_BeginTs p < Pack_EndTs p \<and> e = Pack_EndTs p"
  by (induction ps arbitrary: b) auto

lemma chained_begins:
  "chained b ps e \<Longrightarrow> b \<le> e \<and> (\<forall>p \<in> set ps. b \<le> Pack_BeginTs p \<and> Pack_BeginTs p < e)
     \<and> sorted_wrt (\<lambda>p q. Pack_BeginTs p < Pack_BeginTs q) ps"
  by (induction ps arbitrary: b) (auto 4 4 intro: less_imp_le le_less_trans less_le_trans)

definition chain_inv :: "timestamp \<Rightarrow> tt_stream \<Rightarrow> bool" where
  "chain_inv b ms \<longleftrightarrow> chained b (receiveBuf ms) (lastTimeStamp ms) \<and> (endTs ms = 0 \<or> lastTimeStamp ms < endTs ms)"

lemma clear_turn_simps [simp]:
  "timeTickBuf (clear_turn ms) = []" "endTs (clear_turn ms) = 0" "receiveBuf (clear_turn ms) = receiveBuf ms"
  "lastTimeStamp (clear_turn ms) = lastTimeStamp ms" "inbox (clear_turn ms) = inbox ms"
  "consumers (clear_turn ms) = consumers ms" "chanMsgBuf (clear_turn ms) = chanMsgBuf ms"
  "chanTtMsgTime (clear_turn ms) = chanTtMsgTime ms" "chanMsgPos (clear_turn ms) = chanMsgPos ms"
  "chanTtMsgSync (clear_turn ms) = chanTtMsgSync ms" "ctx_cancelled (clear_turn ms) = ctx_cancelled ms"
  "startPositions (clear_turn ms) = Map.empty" "endPositions (clear_turn ms) = Map.empty"
  "subscription (clear_turn ms) = subscription ms"
  by (simp_all add: clear_turn_def)

lemma chain_inv_step:
  assumes "chain_inv b ms" and "tt_step cf c ms ms'"
  shows "chain_inv b ms'"
  using assms(2,1)
proof (cases rule: tt_step.cases)
  case consume
  from this assms(1) show ?thesis
    by (cases rule: read_step_cases) (auto simp: chain_inv_def)
next
  case (reach walk ms1)
  from barrier_Ok [OF reach(4,3)] assms(1) reach(1) show ?thesis
    by (auto simp: chain_inv_def no_flush_def flush_at_def frame_def)
next
  case (send now walk1 walk2 ms1)
  from emit_Ok [OF send(6)] assms(1) send(1) show ?thesis
    by (auto simp: chain_inv_def chained_snoc sent_def word_neq_0_conv)
qed (auto simp: chain_inv_def)

section \<open>No message is lost or made up\<close>

text \<open>The data messages of one channel that are still to be read or are buffered; of the whole stream,
  with those collected in this turn and those of the packs, given before duplicates were dropped.\<close>

definition pending_of :: "codec \<Rightarrow> tt_stream \<Rightarrow> string \<Rightarrow> TsMsg multiset" where
  "pending_of c ms ch = mset (data (decodes c (inbox ms ch))) + mset (data (chanMsgBuf ms ch))"

definition all_data :: "codec \<Rightarrow> tt_stream \<Rightarrow> TsMsg list list \<Rightarrow> TsMsg multiset" where
  "all_data c ms pre =
     (\<Sum>ch \<in> set (consumers ms). pending_of c ms ch) + mset (timeTickBuf ms) + mset (concat pre)"

definition turn_ok :: "tt_stream \<Rightarrow> bool" where
  "turn_ok ms \<longleftrightarrow> (endTs ms = 0 \<longrightarrow> timeTickBuf ms = [])
     \<and> (case phase ms of
          Collect chs \<Rightarrow> set chs \<subseteq> set (consumers ms)
        | Start \<Rightarrow> endTs ms = 0
        | Outer \<Rightarrow> endTs ms = 0
        | _ \<Rightarrow> True)"

definition data_inv :: "codec \<Rightarrow> TsMsg multiset \<Rightarrow> tt_stream \<Rightarrow> bool" where
  "data_inv c D ms \<longleftrightarrow>
     (\<exists>pre. map Msgs (receiveBuf ms) = map dedupe pre \<and> all_data c ms pre = D) \<and> turn_ok ms"

lemma mset_concat_walk: "distinct walk \<Longrightarrow> mset (concat (map f walk)) = (\<Sum>ch \<in> set walk. mset (f ch))"
  by (induction walk) auto

lemma all_data_flush:
  assumes "flush_at T walk ms ms'" and "is_walk walk (set (consumers ms))"
  shows "all_data c ms' pre = all_data c ms pre"
proof -
  have "(\<Sum>ch \<in> set (consumers ms). pending_of c ms ch) =
      (\<Sum>ch \<in> set (consumers ms). pending_of c ms' ch + mset (ready T (chanMsgBuf ms ch)))"
  proof (rule sum.cong [OF refl])
    fix ch
    assume "ch \<in> set (consumers ms)"
    with assms(1) ready_keep_mset [of T "chanMsgBuf ms ch"]
    show "pending_of c ms ch = pending_of c ms' ch + mset (ready T (chanMsgBuf ms ch))"
      by (simp add: pending_of_def flush_at_def frame_def ac_simps)
  qed
  also have "\<dots> = (\<Sum>ch \<in> set (consumers ms). pending_of c ms' ch) + mset (concat (map (\<lambda>ch. ready T (chanMsgBuf ms ch)) walk))"
    using assms(2) by (simp add: sum.distrib mset_concat_walk is_walk_def)
  finally show ?thesis
    using assms(1) by (simp add: all_data_def flush_at_def frame_def ac_simps)
qed

lemma all_data_pointwise:
  assumes "consumers ms' = consumers ms" and "timeTickBuf ms' = timeTickBuf ms"
    and "\<And>ch. ch \<in> set (consumers ms) \<Longrightarrow> pending_of c ms' ch = pending_of c ms ch"
  shows "all_data c ms' pre = all_data c ms pre"
  using assms by (simp add: all_data_def)

lemma turn_ok_step:
  assumes "turn_ok ms" and "tt_step cf c ms ms'"
  shows "turn_ok ms'"
  using assms(2,1)
proof (cases rule: tt_step.cases)
  case consume
  from this assms(1) show ?thesis
  proof (cases rule: read_step_cases)
    case (2 chs ch msg msgs m)
    have "set (remove1 ch chs) \<subseteq> set chs" by (rule set_remove1_subset)
    with 2 assms(1) show ?thesis by (auto simp: turn_ok_def)
  qed (auto simp: turn_ok_def)
next
  case (give_up chs ch)
  have "set (remove1 ch chs) \<subseteq> set chs" by (rule set_remove1_subset)
  with give_up assms(1) show ?thesis by (auto simp: turn_ok_def)
next
  case (chan_closed chs ch)
  have "set (remove1 ch chs) \<subseteq> set chs" by (rule set_remove1_subset)
  with chan_closed assms(1) show ?thesis by (auto simp: turn_ok_def)
next
  case (reach walk ms1)
  from barrier_Ok [OF reach(4,3)] assms(1) reach(1) show ?thesis
    by (auto simp: turn_ok_def no_flush_def flush_at_def)
next
  case (send now walk1 walk2 ms1)
  from emit_Ok [OF send(6)] assms(1) send(1) show ?thesis by (auto simp: turn_ok_def)
qed (auto simp: turn_ok_def split: phase.splits)

text \<open>A step either leaves the packs and the data alone or sends the messages collected in the turn.\<close>

lemma data_step:
  assumes "turn_ok ms" and "tt_step cf c ms ms'"
  shows "(receiveBuf ms' = receiveBuf ms \<and> all_data c ms' pre = all_data c ms pre) \<or>
    (\<exists>walk1 walk2. receiveBuf ms' = receiveBuf ms @ [sent walk1 walk2 ms]
       \<and> all_data c ms' (pre @ [timeTickBuf ms]) = all_data c ms pre)"
    (is "?same \<or> ?more")
proof -
  note local = all_data_pointwise [of ms' ms c pre]
  from assms(2) show ?thesis
  proof (cases rule: tt_step.cases)
    case outer
    with assms(1) show ?thesis by (intro disjI1 conjI local) (simp_all add: turn_ok_def pending_of_def)
  next
    case consume
    then show ?thesis
      by (cases rule: read_step_cases) (intro disjI1 conjI local; simp add: pending_of_def)+
  next
    case (reach walk ms1)
    from barrier_Ok [OF reach(4,3)] show ?thesis
    proof
      assume "no_flush ms ms1"
      with reach(1) show ?thesis by (intro disjI1 conjI local) (simp_all add: no_flush_def frame_def pending_of_def)
    next
      assume "\<exists>T. flush_at T walk ms ms1"
      then obtain T where f: "flush_at T walk ms ms1" ..
      have "all_data c ms' pre = all_data c ms1 pre"
        using reach(1) by (simp add: all_data_def pending_of_def)
      with all_data_flush [OF f reach(3)] f reach(1) show ?thesis
        by (intro disjI1) (simp add: flush_at_def frame_def)
    qed
  next
    case (send now walk1 walk2 ms1)
    show ?thesis
    proof (cases "endTs ms = 0")
      case True
      with assms(1) have "timeTickBuf ms = []" by (simp add: turn_ok_def)
      with True send(1) emit_Ok [OF send(6)] show ?thesis
        by (intro disjI1 conjI local) (simp_all add: pending_of_def)
    next
      case False
      then have "ms1 = ms\<lparr>receiveBuf := receiveBuf ms @ [sent walk1 walk2 ms], lastTimeStamp := endTs ms\<rparr>"
        using emit_Ok [OF send(6)] by (simp add: word_neq_0_conv)
      then have ?more
        using send(1) by (auto simp: all_data_def pending_of_def ac_simps)
      then show ?thesis ..
    qed
  qed (intro disjI1 conjI local; simp add: pending_of_def)+
qed

lemma data_inv_step:
  assumes "data_inv c D ms" and "tt_step cf c ms ms'"
  shows "data_inv c D ms'"
proof -
  from assms(1) obtain pre where pre: "map Msgs (receiveBuf ms) = map dedupe pre" "all_data c ms pre = D"
    and ok: "turn_ok ms"
    by (auto simp: data_inv_def)
  from data_step [OF ok assms(2), of pre] show ?thesis
  proof (elim disjE exE conjE)
    fix walk1 walk2
    assume "receiveBuf ms' = receiveBuf ms @ [sent walk1 walk2 ms]"
      "all_data c ms' (pre @ [timeTickBuf ms]) = all_data c ms pre"
    with pre have "map Msgs (receiveBuf ms') = map dedupe (pre @ [timeTickBuf ms])"
      "all_data c ms' (pre @ [timeTickBuf ms]) = D" by (simp_all add: sent_def)
    with turn_ok_step [OF ok assms(2)] show ?thesis unfolding data_inv_def by blast
  next
    assume "receiveBuf ms' = receiveBuf ms" "all_data c ms' pre = all_data c ms pre"
    with pre turn_ok_step [OF ok assms(2)] show ?thesis by (auto simp: data_inv_def)
  qed
qed

section \<open>Ticks as watermarks\<close>

text \<open>The promise of the senders: the ticks of a channel increase, and a message behind a tick is younger
  than the tick.\<close>

fun ticks_ok :: "timestamp \<Rightarrow> TsMsg list \<Rightarrow> bool" where
  "ticks_ok t [] = True"
| "ticks_ok t (m # ms) =
     (if is_tick m then t < tick_time m \<and> ticks_ok (tick_time m) ms
      else t < BeginTs m \<and> BeginTs m \<le> EndTs m \<and> ticks_ok t ms)"

text \<open>The tick up to which everything has been collected.\<close>

definition frontier :: "tt_stream \<Rightarrow> timestamp" where
  "frontier ms = (if endTs ms = 0 then lastTimeStamp ms else endTs ms)"

definition in_interval :: "MsgPack \<Rightarrow> bool" where
  "in_interval p \<longleftrightarrow> (\<forall>m \<in> set (Msgs p). Pack_BeginTs p < EndTs m \<and> EndTs m \<le> Pack_EndTs p)"

definition mark_inv :: "codec \<Rightarrow> tt_stream \<Rightarrow> bool" where
  "mark_inv c ms \<longleftrightarrow>
     (\<forall>ch \<in> set (consumers ms). ticks_ok (chanTtMsgTime ms ch) (decodes c (inbox ms ch))
        \<and> frontier ms \<le> chanTtMsgTime ms ch
        \<and> (\<forall>m \<in> set (data (chanMsgBuf ms ch)). frontier ms < EndTs m))
     \<and> (\<forall>m \<in> set (timeTickBuf ms). lastTimeStamp ms < EndTs m \<and> EndTs m \<le> endTs ms)
     \<and> (\<forall>p \<in> set (receiveBuf ms). in_interval p)
     \<and> (endTs ms = 0 \<or> lastTimeStamp ms < endTs ms) \<and> turn_ok ms"

lemma keep_later: "m \<in> set (keep T ms) \<Longrightarrow> T < EndTs m"
  by (auto simp: keep_def)

lemma dedupe_set: "set (dedupe ms) \<subseteq> set ms"
  unfolding dedupe_def by (rule unique_set.uniq_subseq)

lemma dedupe_ids: "id_of ` set (dedupe ms) = id_of ` set ms"
  using unique_set.uniq_complete [where s = "NewSet []" and guard = is_dml and key = id_of and ms = ms]
    unique_set.uniq_subseq [of is_dml id_of "NewSet []" ms]
  by (auto simp: dedupe_def)

lemma mark_inv_flush:
  assumes "mark_inv c ms" and "flush_at T walk ms ms'" and "is_walk walk (set (consumers ms))"
    and "turn_ok ms'"
  shows "mark_inv c ms'"
proof -
  note f = assms(2) [unfolded flush_at_def frame_def]
  have T0: "T \<noteq> 0" using f by auto
  then have fr: "frontier ms' = T" using f by (simp add: frontier_def)
  have le: "frontier ms \<le> T" if "ch \<in> set (consumers ms)" for ch
    using assms(1) f that by (auto simp: mark_inv_def)
  have last_le: "lastTimeStamp ms \<le> frontier ms"
    using assms(1) by (auto simp: mark_inv_def frontier_def)
  have out: "lastTimeStamp ms < EndTs m \<and> EndTs m \<le> T"
    if "ch \<in> set walk" "m \<in> set (ready T (chanMsgBuf ms ch))" for ch m
  proof -
    from that assms(3) have "ch \<in> set (consumers ms)" "m \<in> set (data (chanMsgBuf ms ch))" "EndTs m \<le> T"
      by (auto simp: ready_def is_walk_def)
    with assms(1) have "frontier ms < EndTs m" by (auto simp: mark_inv_def)
    with last_le \<open>EndTs m \<le> T\<close> show ?thesis by (meson le_less_trans)
  qed
  have old: "lastTimeStamp ms < EndTs m \<and> EndTs m \<le> T" if "m \<in> set (timeTickBuf ms)" for m
  proof -
    from that assms(1) have m: "lastTimeStamp ms < EndTs m" "EndTs m \<le> endTs ms" by (auto simp: mark_inv_def)
    have "endTs ms \<noteq> 0" using assms(1) that by (auto simp: mark_inv_def turn_ok_def)
    then have "endTs ms = frontier ms" by (simp add: frontier_def)
    moreover have "frontier ms \<le> T"
      using f le by (cases "consumers ms") auto
    ultimately show ?thesis using m by auto
  qed
  show ?thesis
    using assms(1,4) f out old fr T0
    by (auto simp: mark_inv_def dest: keep_later)
qed

lemma mark_inv_push:
  assumes "mark_inv c ms" and "inbox ms ch = msg # msgs" and "decode1 c msg = [m]"
    and "turn_ok ((push ch m (ms\<lparr>inbox := (inbox ms)(ch := msgs)\<rparr>))\<lparr>phase := ph\<rparr>)"
  shows "mark_inv c ((push ch m (ms\<lparr>inbox := (inbox ms)(ch := msgs)\<rparr>))\<lparr>phase := ph\<rparr>)"
proof -
  let ?ms' = "(push ch m (ms\<lparr>inbox := (inbox ms)(ch := msgs)\<rparr>))\<lparr>phase := ph\<rparr>"
  have fr: "frontier ?ms' = frontier ms" by (simp add: frontier_def)
  have "ticks_ok (chanTtMsgTime ?ms' k) (decodes c (inbox ?ms' k)) \<and> frontier ms \<le> chanTtMsgTime ?ms' k
      \<and> (\<forall>x \<in> set (data (chanMsgBuf ?ms' k)). frontier ms < EndTs x)" if k: "k \<in> set (consumers ms)" for k
  proof -
    from assms(1) k have old: "ticks_ok (chanTtMsgTime ms k) (decodes c (inbox ms k))"
      "frontier ms \<le> chanTtMsgTime ms k" "\<forall>x \<in> set (data (chanMsgBuf ms k)). frontier ms < EndTs x"
      by (auto simp: mark_inv_def)
    show ?thesis
    proof (cases "k = ch")
      case True
      with old(1) assms(2,3) have t: "if is_tick m then chanTtMsgTime ms k < tick_time m \<and> ticks_ok (tick_time m) (decodes c msgs)
          else chanTtMsgTime ms k < BeginTs m \<and> BeginTs m \<le> EndTs m \<and> ticks_ok (chanTtMsgTime ms k) (decodes c msgs)"
        by simp
      have "frontier ms < EndTs m" if "\<not> is_tick m"
        using t that old(2) by (meson le_less_trans less_le_trans)
      moreover have "frontier ms \<le> tick_time m" if "is_tick m"
        using t that old(2) by (meson less_imp_le order.trans)
      ultimately show ?thesis using True t old by auto
    qed (use old in auto)
  qed
  then show ?thesis using assms(1,4) by (simp add: mark_inv_def fr)
qed

lemma mark_inv_step:
  assumes "mark_inv c ms" and "tt_step cf c ms ms'"
  shows "mark_inv c ms'"
proof -
  have "turn_ok ms" using assms(1) by (simp add: mark_inv_def)
  note ok' = turn_ok_step [OF this assms(2)]
  have same: "mark_inv c ms'"
    if "inbox ms' = inbox ms" "consumers ms' = consumers ms" "chanTtMsgTime ms' = chanTtMsgTime ms"
      "chanMsgBuf ms' = chanMsgBuf ms" "lastTimeStamp ms' = lastTimeStamp ms" "endTs ms' = endTs ms"
      "timeTickBuf ms' = timeTickBuf ms" "receiveBuf ms' = receiveBuf ms"
  proof -
    have "frontier ms' = frontier ms" using that by (simp add: frontier_def)
    with assms(1) ok' that show ?thesis by (simp add: mark_inv_def)
  qed
  from assms(2) show ?thesis
  proof (cases rule: tt_step.cases)
    case outer
    with \<open>turn_ok ms\<close> have "timeTickBuf ms = []" "endTs ms = 0" by (simp_all add: turn_ok_def)
    with outer(1) show ?thesis by (intro same) simp_all
  next
    case consume
    then show ?thesis
    proof (cases rule: read_step_cases)
      case (1 chs ch msg msgs)
      then have "frontier ms' = frontier ms" by (simp add: frontier_def)
      with 1 assms(1) ok' show ?thesis by (auto simp: mark_inv_def)
    next
      case (2 chs ch msg msgs m)
      then show ?thesis using mark_inv_push [OF assms(1) 2(3,4)] ok' by metis
    qed
  next
    case (reach walk ms1)
    from barrier_Ok [OF reach(4,3)] show ?thesis
    proof
      assume "no_flush ms ms1"
      with reach(1) show ?thesis by (intro same) (simp_all add: no_flush_def frame_def)
    next
      assume "\<exists>T. flush_at T walk ms ms1"
      then obtain T where f: "flush_at T walk ms ms1" ..
      then have "flush_at T walk ms ms'" using reach(1) by (simp add: flush_at_def frame_def)
      from mark_inv_flush [OF assms(1) this reach(3) ok'] show ?thesis .
    qed
  next
    case (send now walk1 walk2 ms1)
    have "in_interval (sent walk1 walk2 ms)"
      using assms(1) dedupe_set [of "timeTickBuf ms"] by (auto simp: mark_inv_def in_interval_def sent_def)
    moreover have "frontier ms' = frontier ms"
      using emit_Ok [OF send(6)] send(1) by (auto simp: frontier_def word_neq_0_conv)
    ultimately show ?thesis
      using emit_Ok [OF send(6)] send(1) assms(1) ok'
      by (cases "endTs ms = 0") (simp_all add: mark_inv_def word_neq_0_conv)
  qed (intro same; simp)+
qed

text \<open>Where the messages of the packs come from, duplicates included, with the time their pack begins.\<close>

definition origin_inv :: "codec \<Rightarrow> TsMsg multiset \<Rightarrow> tt_stream \<Rightarrow> bool" where
  "origin_inv c D ms \<longleftrightarrow> mark_inv c ms \<and>
     (\<exists>pre. map Msgs (receiveBuf ms) = map dedupe pre \<and> all_data c ms pre = D
        \<and> list_all2 (\<lambda>p xs. \<forall>m \<in> set xs. Pack_BeginTs p < EndTs m) (receiveBuf ms) pre)"

lemma origin_inv_step:
  assumes "origin_inv c D ms" and "tt_step cf c ms ms'"
  shows "origin_inv c D ms'"
proof -
  from assms(1) obtain pre where inv: "mark_inv c ms"
    and pre: "map Msgs (receiveBuf ms) = map dedupe pre" "all_data c ms pre = D"
      "list_all2 (\<lambda>p xs. \<forall>m \<in> set xs. Pack_BeginTs p < EndTs m) (receiveBuf ms) pre"
    by (auto simp: origin_inv_def)
  have "turn_ok ms" "\<forall>m \<in> set (timeTickBuf ms). lastTimeStamp ms < EndTs m"
    using inv by (simp_all add: mark_inv_def)
  from data_step [OF this(1) assms(2), of pre] show ?thesis
  proof (elim disjE exE conjE)
    fix walk1 walk2
    assume r: "receiveBuf ms' = receiveBuf ms @ [sent walk1 walk2 ms]"
      "all_data c ms' (pre @ [timeTickBuf ms]) = all_data c ms pre"
    with pre have "map Msgs (receiveBuf ms') = map dedupe (pre @ [timeTickBuf ms])"
      "all_data c ms' (pre @ [timeTickBuf ms]) = D" by (simp_all add: sent_def)
    moreover have "list_all2 (\<lambda>p xs. \<forall>m \<in> set xs. Pack_BeginTs p < EndTs m) (receiveBuf ms') (pre @ [timeTickBuf ms])"
      using pre(3) r(1) \<open>\<forall>m \<in> set (timeTickBuf ms). lastTimeStamp ms < EndTs m\<close>
      by (simp add: list_all2_appendI sent_def)
    ultimately show ?thesis using mark_inv_step [OF inv assms(2)] unfolding origin_inv_def by blast
  next
    assume "receiveBuf ms' = receiveBuf ms" "all_data c ms' pre = all_data c ms pre"
    with pre have "map Msgs (receiveBuf ms') = map dedupe pre" "all_data c ms' pre = D"
      "list_all2 (\<lambda>p xs. \<forall>m \<in> set xs. Pack_BeginTs p < EndTs m) (receiveBuf ms') pre" by simp_all
    with mark_inv_step [OF inv assms(2)] show ?thesis unfolding origin_inv_def by blast
  qed
qed

text \<open>What has not been sent when a turn ends is younger than the last pack.\<close>

lemma ticks_ok_later:
  "ticks_ok t ms \<Longrightarrow> m \<in> set (data ms) \<Longrightarrow> t < EndTs m"
proof (induction ms arbitrary: t)
  case (Cons x xs)
  show ?case
  proof (cases "is_tick x")
    case True
    with Cons.prems have "t < tick_time x" "ticks_ok (tick_time x) xs" "m \<in> set (data xs)" by simp_all
    with Cons.IH [of "tick_time x"] show ?thesis by (meson less_trans)
  next
    case False
    with Cons.prems have "t < BeginTs x" "BeginTs x \<le> EndTs x" "ticks_ok t xs" "m = x \<or> m \<in> set (data xs)"
      by simp_all
    with Cons.IH [of t] show ?thesis by (meson less_le_trans)
  qed
qed simp

lemma mark_inv_later:
  assumes "mark_inv c ms" and "ch \<in> set (consumers ms)" and "m \<in># pending_of c ms ch"
  shows "lastTimeStamp ms < EndTs m"
proof -
  have last_le: "lastTimeStamp ms \<le> frontier ms" using assms(1) by (auto simp: mark_inv_def frontier_def)
  from assms(3) consider "m \<in> set (data (decodes c (inbox ms ch)))" | "m \<in> set (data (chanMsgBuf ms ch))"
    by (auto simp: pending_of_def)
  then show ?thesis
  proof cases
    case 1
    with assms(1,2) ticks_ok_later [of "chanTtMsgTime ms ch"] have "chanTtMsgTime ms ch < EndTs m"
      "frontier ms \<le> chanTtMsgTime ms ch" by (auto simp: mark_inv_def)
    with last_le show ?thesis by (meson le_less_trans)
  next
    case 2
    with assms(1,2) have "frontier ms < EndTs m" by (auto simp: mark_inv_def)
    with last_le show ?thesis by (rule le_less_trans)
  qed
qed

section \<open>A run for witnesses\<close>

text \<open>One channel with a delete message and a tick at 10.\<close>

definition tick_request :: request where
  "tick_request = PlainReq TimeTickMsg \<lparr>pr_Base = Some (sample_base MT_TimeTick 10), pr_CollectionID = 0, pr_Content = []\<rparr>"

definition sample_codec :: codec where
  "sample_codec = table_codec [DeleteReq sample_delete, tick_request]"

definition data_message :: Message where
  "data_message = \<lparr>msg_Topic = ''t/a'', msg_ID = [0], msg_Payload = Some [], msg_Properties = []\<rparr>"

definition tick_message :: Message where
  "tick_message = \<lparr>msg_Topic = ''t/a'', msg_ID = [1], msg_Payload = Some [0], msg_Properties = []\<rparr>"

definition sample_tt :: tt_stream where
  "sample_tt = addConsumer (NewMqTtMsgStream True) ''a'' [data_message, tick_message]"

definition sample_cfg :: cfg where
  "sample_cfg = \<lparr>EnablePursuitMode = False, PursuitBufferSize = 0, PursuitLag = 0\<rparr>"

lemma sample_decode:
  "\<exists>m. decode1 sample_codec data_message = [m] \<and> getTsMsgFromConsumerMsg sample_codec data_message = Ok m
     \<and> msg_Type m = Ok MT_Delete \<and> ID m = Ok 1 \<and> BeginTs m = 7 \<and> EndTs m = 9 \<and> Position m \<noteq> None"
  "\<exists>m r. decode1 sample_codec tick_message = [m] \<and> getTsMsgFromConsumerMsg sample_codec tick_message = Ok m
     \<and> msg_Type m = Ok MT_TimeTick \<and> Req m = PlainReq TimeTickMsg r \<and> tick_time m = 10
     \<and> pr_Base r = Some (sample_base MT_TimeTick 10) \<and> Position m \<noteq> None \<and> BeginTs m = 10"
proof -
  have "carries sample_codec data_message (DeleteReq sample_delete)"
    by (simp add: carries_def well_headed_def sample_codec_def data_message_def table_codec_def)
      (simp add: sample_delete_def sample_base_def)
  from getTsMsg_carries [OF _ this] obtain m where
    m: "getTsMsgFromConsumerMsg sample_codec data_message = Ok (SetPosition m (position_at data_message))"
      "Req m = normal (DeleteReq sample_delete)" "request_times (normal (DeleteReq sample_delete)) = Ok (BeginTs m, EndTs m)"
    by (auto simp: sample_codec_def)
  then show "\<exists>m. decode1 sample_codec data_message = [m] \<and> getTsMsgFromConsumerMsg sample_codec data_message = Ok m
     \<and> msg_Type m = Ok MT_Delete \<and> ID m = Ok 1 \<and> BeginTs m = 7 \<and> EndTs m = 9 \<and> Position m \<noteq> None"
    by (intro exI [of _ "SetPosition m (position_at data_message)"])
      (simp add: decode1_def call_simps read_base_def fix_primary_keys_def sample_delete_def ts_range_def widen_def sample_base_def)
next
  have "carries sample_codec tick_message tick_request"
    by (simp add: carries_def well_headed_def sample_codec_def tick_message_def table_codec_def)
      (simp add: tick_request_def sample_base_def)
  from getTsMsg_carries [OF _ this] obtain m where
    m: "getTsMsgFromConsumerMsg sample_codec tick_message = Ok (SetPosition m (position_at tick_message))"
      "Req m = normal tick_request" "request_times (normal tick_request) = Ok (BeginTs m, EndTs m)"
    by (auto simp: sample_codec_def)
  then show "\<exists>m r. decode1 sample_codec tick_message = [m] \<and> getTsMsgFromConsumerMsg sample_codec tick_message = Ok m
     \<and> msg_Type m = Ok MT_TimeTick \<and> Req m = PlainReq TimeTickMsg r \<and> tick_time m = 10
     \<and> pr_Base r = Some (sample_base MT_TimeTick 10) \<and> Position m \<noteq> None \<and> BeginTs m = 10"
    by (intro exI [of _ "SetPosition m (position_at tick_message)"])
      (simp add: decode1_def call_simps read_base_def tick_time_def tick_request_def sample_base_def header_time_def)
qed

lemma sample_run:
  "\<exists>s' pk. tt_run sample_cfg sample_codec sample_tt s' \<and> receiveBuf s' = [pk] \<and> Pack_BeginTs pk = 0
     \<and> Pack_EndTs pk = 10 \<and> map id_of (Msgs pk) = [1] \<and> lastTimeStamp s' = 10 \<and> consumers s' = [''a'']
     \<and> inbox s' ''a'' = [] \<and> chanMsgBuf s' ''a'' = [] \<and> timeTickBuf s' = []"
proof -
  obtain m0 where m0: "getTsMsgFromConsumerMsg sample_codec data_message = Ok m0"
    "msg_Type m0 = Ok MT_Delete" "ID m0 = Ok 1" "EndTs m0 = 9" "Position m0 \<noteq> None"
    using sample_decode(1) by blast
  obtain m1 r where m1: "getTsMsgFromConsumerMsg sample_codec tick_message = Ok m1"
    "msg_Type m1 = Ok MT_TimeTick" "Req m1 = PlainReq TimeTickMsg r" "pr_Base r = Some (sample_base MT_TimeTick 10)"
    "Position m1 \<noteq> None"
    using sample_decode(2) by blast
  from m0(5) m1(5) obtain p0 p1 where p: "Position m0 = Some p0" "Position m1 = Some p1" by auto
  let ?s = sample_tt
  let ?s1 = "?s\<lparr>syncConsumer_tokens := 0, phase := Outer\<rparr>"
  let ?s2 = "(clear_turn ?s1)\<lparr>phase := Guard\<rparr>"
  let ?s3 = "?s2\<lparr>phase := Collect [''a'']\<rparr>"
  let ?s4 = "?s3\<lparr>inbox := (inbox ?s3)(''a'' := [tick_message]),
     chanMsgBuf := (chanMsgBuf ?s3)(''a'' := [m0]), phase := Collect [''a'']\<rparr>"
  let ?s5 = "?s4\<lparr>inbox := (inbox ?s4)(''a'' := []), chanMsgBuf := (chanMsgBuf ?s4)(''a'' := [m0, m1]),
     chanTtMsgTime := (chanTtMsgTime ?s4)(''a'' := 10), phase := Collect []\<rparr>"
  have f: "consumers ?s = [''a'']" "syncConsumer_tokens ?s = 1" "phase ?s = Start" "lastTimeStamp ?s = 0"
    "inbox ?s ''a'' = [data_message, tick_message]" "chanMsgBuf ?s ''a'' = []" "\<not> ctx_cancelled ?s"
    "\<And>ch. \<not> chanTtMsgSync ?s ch" "chanTtMsgTime ?s ''a'' = 0" "receiveBuf ?s = []"
    "chanMsgPos ?s ''a'' = Some \<lparr>mp_ChannelName = ''a'', mp_MsgID = [], mp_MsgGroup = [], mp_Timestamp = 0\<rparr>"
    by (simp_all add: sample_tt_def addConsumer_def NewMqTtMsgStream_def NewMqMsgStream_def stream.defs set_key_def)
  have 1: "tt_step sample_cfg sample_codec ?s ?s1"
    using tt_step.started [of ?s sample_cfg sample_codec] f(2,3) by simp
  have 2: "tt_step sample_cfg sample_codec ?s1 ?s2"
    using tt_step.outer [of ?s1 sample_cfg sample_codec] f(7) by simp
  have 3: "tt_step sample_cfg sample_codec ?s2 ?s3"
    using tt_step.guard [of ?s2 sample_cfg 0 sample_codec] f(1,7,8) by (simp add: continueBuffering_def clear_turn_def)
  have "read_step sample_codec ?s3 ?s4"
    using read_step.read [of ?s3 "[''a'']" "''a''" data_message "[tick_message]" sample_codec] f m0
    by (simp add: consume_msg_def data_message_def clear_turn_def)
  then have 4: "tt_step sample_cfg sample_codec ?s3 ?s4" by (rule tt_step.consume)
  have "read_step sample_codec ?s4 ?s5"
    using read_step.read [of ?s4 "[''a'']" "''a''" tick_message "[]" sample_codec] f m1
    by (simp add: consume_msg_def tick_message_def clear_turn_def sample_base_def)
  then have 5: "tt_step sample_cfg sample_codec ?s4 ?s5" by (rule tt_step.consume)
  have split: "split_msgs sample_codec 10 [m0, m1] = Ok ([m0], [], Some m1, of_nat (Size sample_codec m0))"
    using m0 m1 by (simp add: split_msgs_def split_body_def)
  obtain s6 where s6: "barrier sample_codec [''a''] ?s5 = Ok s6" "startPositions s6 = [''a'' \<mapsto> the (chanMsgPos ?s ''a'')]"
    "dom (endPositions s6) = {''a''}" "timeTickBuf s6 = [m0]" "endTs s6 = 10" "lastTimeStamp s6 = 0"
    "receiveBuf s6 = []" "consumers s6 = [''a'']" "inbox s6 ''a'' = []" "chanMsgBuf s6 ''a'' = []" "\<not> ctx_cancelled s6"
    using f p split
    by (simp add: barrier_def allChanReachSameTtMsg_def maxTime_def flush_channel_def new_position_def
        position_of_def clear_turn_def Let_def)
  let ?s7 = "s6\<lparr>phase := Guard\<rparr>"
  have 6: "tt_step sample_cfg sample_codec ?s5 ?s7"
    using tt_step.reach [of ?s5 "[''a'']" sample_codec s6 sample_cfg] s6(1) f(1) by (simp add: is_walk_def)
  have u: "unique_msgs (NewSet []) [m0] = Ok [m0]"
    using m0(2,3) by (simp add: isDMLMsg_def)
  let ?s8 = "?s7\<lparr>receiveBuf := receiveBuf ?s7 @ [sent [''a''] [''a''] ?s7], lastTimeStamp := endTs ?s7\<rparr>"
  have d: "dedupe [m0] = [m0]" by (simp add: dedupe_def)
  have e: "emit [''a''] [''a''] ?s7 = Ok ?s8"
    using u d s6(4,5) by (simp add: emit_def sent_def)
  have 7: "tt_step sample_cfg sample_codec ?s7 ((clear_turn ?s8)\<lparr>phase := Outer\<rparr>)"
    using tt_step.send [of ?s7 sample_cfg 0 "[''a'']" "[''a'']" ?s8 sample_codec] e s6
    by (simp add: continueBuffering_def sample_cfg_def is_walk_def)
  let ?s9 = "(clear_turn ?s8)\<lparr>phase := Outer\<rparr>"
  from 1 2 3 4 5 6 7 have "tt_run sample_cfg sample_codec ?s ?s9"
    by (meson converse_rtranclp_into_rtranclp rtranclp.rtrancl_refl)
  moreover have "receiveBuf ?s9 = [sent [''a''] [''a''] ?s7]" "lastTimeStamp ?s9 = 10" "consumers ?s9 = [''a'']"
    "inbox ?s9 ''a'' = []" "chanMsgBuf ?s9 ''a'' = []" "timeTickBuf ?s9 = []"
    using s6 by simp_all
  moreover have "Pack_BeginTs (sent [''a''] [''a''] ?s7) = 0" "Pack_EndTs (sent [''a''] [''a''] ?s7) = 10"
    "map id_of (Msgs (sent [''a''] [''a''] ?s7)) = [1]"
    using s6 d m0(3) by (simp_all add: sent_def id_of_def)
  ultimately show ?thesis
    by (intro exI [of _ ?s9] exI [of _ "sent [''a''] [''a''] ?s7"] conjI)
qed

section \<open>Properties\<close>

text \<open>C6: the packs form a chain in time: the first begins at the last timestamp of the stream, each begins
  where the one before it ended, and each ends later than it begins. The stream's last timestamp is the
  end of the last pack.\<close>

theorem tt_packs_chain:
  assumes "tt_run cf c s s'" and "receiveBuf s = []" and "endTs s = 0"
  shows "chained (lastTimeStamp s) (receiveBuf s') (lastTimeStamp s')"
proof -
  have "chain_inv (lastTimeStamp s) s" using assms(2,3) by (simp add: chain_inv_def)
  with assms(1) have "chain_inv (lastTimeStamp s) s'"
    by (rule tt_run_invariant) (rule chain_inv_step)
  then show ?thesis by (simp add: chain_inv_def)
qed

theorem tt_packs_chain_witness:
  "\<exists>s' pk. tt_run sample_cfg sample_codec sample_tt s' \<and> receiveBuf s' = [pk]
     \<and> chained 0 [pk] (lastTimeStamp s') \<and> lastTimeStamp s' = 10"
proof -
  obtain s' pk where r: "tt_run sample_cfg sample_codec sample_tt s'" "receiveBuf s' = [pk]" "lastTimeStamp s' = 10"
    using sample_run by blast
  have "receiveBuf sample_tt = []" "endTs sample_tt = 0" "lastTimeStamp sample_tt = 0"
    by (simp_all add: sample_tt_def addConsumer_def NewMqTtMsgStream_def NewMqMsgStream_def stream.defs)
  with tt_packs_chain [OF r(1)] r show ?thesis by metis
qed

lemma sample_start:
  "receiveBuf sample_tt = []" "endTs sample_tt = 0" "lastTimeStamp sample_tt = 0" "timeTickBuf sample_tt = []"
  "phase sample_tt = Start" "consumers sample_tt = [''a'']" "chanTtMsgTime sample_tt ''a'' = 0"
  "inbox sample_tt ''a'' = [data_message, tick_message]" "chanMsgBuf sample_tt ''a'' = []"
  by (simp_all add: sample_tt_def addConsumer_def NewMqTtMsgStream_def NewMqMsgStream_def stream.defs set_key_def)

text \<open>C1: no message is lost, invented or delivered in two packs. For every run there are lists, one for
  each pack, such that the pack is its list without duplicates, and these lists, the messages collected in
  the current turn, those buffered and those still to be read are together exactly the data messages there
  were at the start; a data message that a pack does not show has a twin with its id in the same pack.\<close>

theorem tt_packs_conserve:
  assumes "tt_run cf c s s'" and "receiveBuf s = []" and "timeTickBuf s = []" and "phase s = Start" and "endTs s = 0"
  shows "\<exists>pre. map Msgs (receiveBuf s') = map dedupe pre \<and> all_data c s' pre = all_data c s []
    \<and> (\<forall>ms \<in> set pre. mset (dedupe ms) \<subseteq># mset ms \<and> id_of ` set (dedupe ms) = id_of ` set ms)"
proof -
  have "data_inv c (all_data c s []) s" using assms by (simp add: data_inv_def turn_ok_def)
  with assms(1) have "data_inv c (all_data c s []) s'"
    by (rule tt_run_invariant) (rule data_inv_step)
  then obtain pre where "map Msgs (receiveBuf s') = map dedupe pre" "all_data c s' pre = all_data c s []"
    by (auto simp: data_inv_def)
  moreover have "mset (dedupe ms) \<subseteq># mset ms" for ms
    unfolding dedupe_def by (rule unique_set.uniq_mset)
  moreover note dedupe_ids
  ultimately show ?thesis by blast
qed

theorem tt_packs_conserve_witness:
  "\<exists>s' pk ms. tt_run sample_cfg sample_codec sample_tt s' \<and> receiveBuf s' = [pk] \<and> Msgs pk = dedupe ms
     \<and> mset ms = mset (data (decodes sample_codec [data_message, tick_message]))"
proof -
  obtain s' pk where r: "tt_run sample_cfg sample_codec sample_tt s'" "receiveBuf s' = [pk]"
    "consumers s' = [''a'']" "inbox s' ''a'' = []" "chanMsgBuf s' ''a'' = []" "timeTickBuf s' = []"
    using sample_run by blast
  obtain pre where pre: "map Msgs (receiveBuf s') = map dedupe pre"
    "all_data sample_codec s' pre = all_data sample_codec sample_tt []"
    using tt_packs_conserve [OF r(1)] sample_start by blast
  then obtain ms where ms: "pre = [ms]" "Msgs pk = dedupe ms" using r(2) by (auto simp: map_eq_Cons_conv)
  with pre(2) r sample_start have "mset ms = mset (data (decodes sample_codec [data_message, tick_message]))"
    by (simp add: all_data_def pending_of_def)
  with r ms show ?thesis by blast
qed

text \<open>C2: under the senders' promise that the ticks of a channel increase and what follows a tick is younger
  than it, every pack holds only messages of its own interval, those that end after the pack begins and
  no later than it ends, and whatever is not yet in a pack when a turn ends is younger than all packs: a
  pack misses no message of its interval.\<close>

theorem tt_packs_by_time:
  assumes "tt_run cf c s s'" and "receiveBuf s = []" and "timeTickBuf s = []" and "phase s = Start" and "endTs s = 0"
    and "\<forall>ch \<in> set (consumers s). ticks_ok (chanTtMsgTime s ch) (decodes c (inbox s ch))
        \<and> lastTimeStamp s \<le> chanTtMsgTime s ch
        \<and> (\<forall>m \<in> set (data (chanMsgBuf s ch)). lastTimeStamp s < EndTs m)"
  shows "(\<forall>p \<in> set (receiveBuf s'). in_interval p)
    \<and> (\<forall>ch \<in> set (consumers s'). \<forall>m \<in># pending_of c s' ch. lastTimeStamp s' < EndTs m)"
proof -
  have "mark_inv c s" using assms(2-6) by (simp add: mark_inv_def turn_ok_def frontier_def)
  with assms(1) have inv: "mark_inv c s'"
    by (rule tt_run_invariant) (rule mark_inv_step)
  with mark_inv_later [OF inv] show ?thesis by (auto simp: mark_inv_def)
qed

lemma sample_ticks_ok: "ticks_ok 0 (decodes sample_codec [data_message, tick_message])"
  using sample_decode by (auto simp: is_tick_def)

theorem tt_packs_by_time_witness:
  "\<exists>s' pk. tt_run sample_cfg sample_codec sample_tt s' \<and> receiveBuf s' = [pk] \<and> in_interval pk"
proof -
  obtain s' pk where r: "tt_run sample_cfg sample_codec sample_tt s'" "receiveBuf s' = [pk]"
    using sample_run by blast
  have "\<forall>p \<in> set (receiveBuf s'). in_interval p"
    using tt_packs_by_time [OF r(1)] sample_start sample_ticks_ok by simp
  with r show ?thesis by auto
qed

text \<open>In every pack the ids of the insert and delete messages are distinct.\<close>

theorem tt_pack_ids_distinct:
  assumes "tt_run cf c s s'" and "receiveBuf s = []" and "timeTickBuf s = []" and "phase s = Start" and "endTs s = 0"
    and "p \<in> set (receiveBuf s')"
  shows "distinct (map id_of (filter is_dml (Msgs p)))"
proof -
  have "data_inv c (all_data c s []) s" using assms by (simp add: data_inv_def turn_ok_def)
  with assms(1) have "data_inv c (all_data c s []) s'"
    by (rule tt_run_invariant) (rule data_inv_step)
  then obtain pre where "map Msgs (receiveBuf s') = map dedupe pre" by (auto simp: data_inv_def)
  with assms(6) obtain ms where "Msgs p = dedupe ms"
    by (metis (no_types, lifting) image_iff list.set_map)
  then show ?thesis unfolding dedupe_def by (simp add: unique_set.uniq_distinct del: Set_Contain_eq Set_Insert_eq NewSet_eq)
qed

theorem tt_pack_ids_distinct_witness:
  "\<exists>s' pk. tt_run sample_cfg sample_codec sample_tt s' \<and> receiveBuf s' = [pk]
     \<and> distinct (map id_of (filter is_dml (Msgs pk)))"
proof -
  obtain s' pk where r: "tt_run sample_cfg sample_codec sample_tt s'" "receiveBuf s' = [pk]"
    using sample_run by blast
  have "distinct (map id_of (filter is_dml (Msgs pk)))"
    using tt_pack_ids_distinct [OF r(1) sample_start(1,4,5,2)] r(2) by simp
  with r show ?thesis by blast
qed

section \<open>The goroutines of a round\<close>

text \<open>What one goroutine does with its own channel: messages, buffer and tick time.\<close>

fun local_run :: "codec \<Rightarrow> Message list \<Rightarrow> TsMsg list \<Rightarrow> timestamp \<Rightarrow> (Message list \<times> TsMsg list \<times> timestamp) \<times> bool" where
  "local_run c [] buf t = (([], buf, t), False)"
| "local_run c (msg # msgs) buf t =
     (case decode1 c msg of
        [] \<Rightarrow> local_run c msgs buf t
      | m # _ \<Rightarrow> if is_tick m then ((msgs, buf @ [m], tick_time m), True) else local_run c msgs (buf @ [m]) t)"

definition view :: "tt_stream \<Rightarrow> string \<Rightarrow> Message list \<times> TsMsg list \<times> timestamp" where
  "view ms ch = (inbox ms ch, chanMsgBuf ms ch, chanTtMsgTime ms ch)"

definition run_view :: "codec \<Rightarrow> Message list \<times> TsMsg list \<times> timestamp \<Rightarrow> (Message list \<times> TsMsg list \<times> timestamp) \<times> bool" where
  "run_view c v = (case v of (msgs, buf, t) \<Rightarrow> local_run c msgs buf t)"

text \<open>A state of a round: everything but the three maps is as at its start, each channel still being read
  will end as it would have from the start, and each one done has ended so.\<close>

definition fate :: "codec \<Rightarrow> tt_stream \<Rightarrow> string list \<Rightarrow> string list \<Rightarrow> tt_stream \<Rightarrow> string \<Rightarrow> bool" where
  "fate c ms0 chs R ms ch \<longleftrightarrow>
     (if ch \<in> set R then run_view c (view ms ch) = run_view c (view ms0 ch)
      else if ch \<in> set chs then run_view c (view ms0 ch) = (view ms ch, True)
      else view ms ch = view ms0 ch)"

text \<open>A state without what the goroutines change.\<close>

definition erase :: "tt_stream \<Rightarrow> tt_stream" where
  "erase ms = ms\<lparr>inbox := (\<lambda>_. []), chanMsgBuf := (\<lambda>_. []), chanTtMsgTime := (\<lambda>_. 0), phase := Outer\<rparr>"

lemma erase_simps [simp]:
  "erase (ms\<lparr>inbox := i\<rparr>) = erase ms" "erase (ms\<lparr>phase := p\<rparr>) = erase ms" "erase (push ch m ms) = erase ms"
  by (simp_all add: erase_def push_def)

lemma erase_view_eq:
  assumes "erase a = erase b" and "phase a = phase b" and "\<And>ch. view a ch = view b ch"
  shows "a = b"
proof -
  from assms(3) have "inbox a = inbox b" "chanMsgBuf a = chanMsgBuf b" "chanTtMsgTime a = chanTtMsgTime b"
    by (auto simp: view_def fun_eq_iff)
  with assms(1,2) show ?thesis
    unfolding erase_def by (cases a; cases b) simp
qed

definition round_inv :: "codec \<Rightarrow> tt_stream \<Rightarrow> string list \<Rightarrow> string list \<Rightarrow> tt_stream \<Rightarrow> bool" where
  "round_inv c ms0 chs R ms \<longleftrightarrow> phase ms = Collect R \<and> distinct R \<and> set R \<subseteq> set chs \<and> erase ms = erase ms0
     \<and> (\<forall>ch. fate c ms0 chs R ms ch)"

lemma round_inv_step:
  assumes inv: "round_inv c ms0 chs R ms" and step: "read_step c ms ms'"
  shows "\<exists>R'. round_inv c ms0 chs R' ms'"
proof -
  from inv have R: "phase ms = Collect R" "distinct R" "set R \<subseteq> set chs" "erase ms = erase ms0"
    and fate: "\<And>ch. fate c ms0 chs R ms ch" by (auto simp: round_inv_def)
  from step show ?thesis
  proof (cases rule: read_step_cases)
    case (1 R' k msg msgs)
    have "fate c ms0 chs R ms' ch" for ch
      using fate [of ch] 1 R(1) by (cases "ch = k") (auto simp: fate_def view_def run_view_def)
    with 1 R show ?thesis by (intro exI [of _ R]) (simp add: round_inv_def)
  next
    case (2 R' k msg msgs m)
    let ?R = "if is_tick m then remove1 k R else R"
    have k: "k \<in> set R" and p: "phase ms' = Collect ?R" using 2 R(1) by auto
    have "fate c ms0 chs ?R ms' ch" for ch
    proof (cases "ch = k")
      case True
      have start: "run_view c (view ms k) = run_view c (view ms0 k)" using fate [of k] k by (simp add: fate_def)
      have after: "run_view c (view ms k) = (if is_tick m then (view ms' k, True) else run_view c (view ms' k))"
        using 2 by (simp add: view_def run_view_def)
      have "k \<in> set ?R \<longleftrightarrow> \<not> is_tick m" using k R(2) by simp
      with start after True R(3) k show ?thesis by (auto simp: fate_def)
    next
      case False
      then have "view ms' ch = view ms ch" using 2 by (simp add: view_def)
      moreover have "ch \<in> set ?R \<longleftrightarrow> ch \<in> set R" using False by simp
      ultimately show ?thesis using fate [of ch] by (simp add: fate_def)
    qed
    moreover have "distinct ?R \<and> set ?R \<subseteq> set chs" using R(2,3) set_remove1_subset [of k R] by auto
    ultimately show ?thesis using 2 R(4) p by (intro exI [of _ ?R]) (simp add: round_inv_def)
  qed
qed

lemma round_inv_run:
  assumes "(read_step c)\<^sup>*\<^sup>* ms0 ms" and "phase ms0 = Collect chs" and "distinct chs"
  shows "\<exists>R. round_inv c ms0 chs R ms"
  using assms(1)
proof (induction rule: rtranclp_induct)
  case base
  show ?case using assms(2,3) by (intro exI [of _ chs]) (simp add: round_inv_def fate_def)
next
  case (step a b)
  then show ?case using round_inv_step by blast
qed

lemma round_end:
  assumes "(read_step c)\<^sup>*\<^sup>* ms0 ms" and "phase ms0 = Collect chs" and "distinct chs" and "phase ms = Collect []"
  shows "erase ms = erase ms0 \<and> (\<forall>ch. if ch \<in> set chs then run_view c (view ms0 ch) = (view ms ch, True)
     else view ms ch = view ms0 ch)"
proof -
  from round_inv_run [OF assms(1-3)] obtain R where R: "round_inv c ms0 chs R ms" ..
  with assms(4) have "R = []" by (simp add: round_inv_def)
  with R show ?thesis by (simp add: round_inv_def fate_def)
qed

lemma round_unique:
  assumes "(read_step c)\<^sup>*\<^sup>* ms a" and "(read_step c)\<^sup>*\<^sup>* ms b" and "phase ms = Collect chs" and "distinct chs"
    and "phase a = Collect []" and "phase b = Collect []"
  shows "a = b"
proof -
  note ea = round_end [OF assms(1,3,4,5)] and eb = round_end [OF assms(2,3,4,6)]
  note va = ea [THEN conjunct2, THEN spec] and vb = eb [THEN conjunct2, THEN spec]
  have v: "view a ch = view b ch" for ch
  proof (cases "ch \<in> set chs")
    case True
    note trans [OF sym [OF va [of ch, unfolded if_P [OF True]]] vb [of ch, unfolded if_P [OF True]]]
    then show ?thesis by (rule Pair_inject)
  next
    case False
    from va [of ch, unfolded if_not_P [OF False]] vb [of ch, unfolded if_not_P [OF False]]
    show ?thesis by (rule trans [OF _ sym])
  qed
  have e: "erase a = erase b" by (rule trans [OF ea [THEN conjunct1] sym [OF eb [THEN conjunct1]]])
  have "phase a = phase b" by (rule trans [OF assms(5) sym [OF assms(6)]])
  then show ?thesis by (rule erase_view_eq [OF e _ v])
qed

section \<open>Runs without panics\<close>

text \<open>Further documented facts of the codec: it returns an error and does not panic on bytes it cannot
  decode, and the header it reads is the header of the message it decodes.\<close>

definition codec_safe :: "codec \<Rightarrow> bool" where
  "codec_safe c \<longleftrightarrow> (\<forall>b k.
     \<not> is_Panic (pb_UnmarshalHeader c b) \<and> \<not> is_Panic (pb_UnmarshalInsert c b)
     \<and> \<not> is_Panic (pb_UnmarshalDelete c b) \<and> \<not> is_Panic (pb_UnmarshalPlain c k b)
     \<and> (\<forall>base. pb_UnmarshalHeader c b = Ok base \<longrightarrow>
          (\<forall>r. pb_UnmarshalInsert c b = Ok r \<longrightarrow> ir_Base r = base)
          \<and> (\<forall>r. pb_UnmarshalDelete c b = Ok r \<longrightarrow> dr_Base r = base)
          \<and> (\<forall>r. pb_UnmarshalPlain c k b = Ok r \<longrightarrow> pr_Base r = base)))"

lemma table_codec_safe [simp]: "codec_safe (table_codec rs)"
  by (auto simp: codec_safe_def table_codec_def table_lookup_def is_Panic_iff outcome_simps
      split: if_splits request.splits)

definition headed :: "TsMsg \<Rightarrow> bool" where
  "headed m \<longleftrightarrow> well_headed (Req m)"

lemma headed_base: "headed m \<Longrightarrow> \<exists>b. base_of (Req m) = Some b \<and> mb_MsgType b = type_of_request (Req m)"
  by (simp add: headed_def well_headed_base)

lemma headed_type: "headed m \<Longrightarrow> msg_Type m = Ok (type_of_request (Req m))"
  using headed_base [of m] by (auto simp: call_simps read_base_def)

text \<open>Decoding by the type in the header gives a message whose header says its own type.\<close>

lemma dispatch_headed:
  assumes "codec_safe c" and "pb_UnmarshalHeader c p = Ok (Some b)"
  shows "case Dispatcher_Unmarshal NewUnmarshalDispatcher c (AnyBytes p) (mb_MsgType b) of
      Ok m \<Rightarrow> headed m | Err e \<Rightarrow> True | Panic e \<Rightarrow> False"
proof -
  have dec: "case decoded r of Ok m \<Rightarrow> headed m | Err e \<Rightarrow> True | Panic e \<Rightarrow> False"
    if "base_of r = Some b" "type_of_request r = mb_MsgType b" for r
    using decoded_total [OF that(1)] that by (auto simp: headed_def well_headed_def)
  from assms have safe: "\<not> is_Panic (pb_UnmarshalInsert c p)" "\<not> is_Panic (pb_UnmarshalDelete c p)"
    "\<And>k. \<not> is_Panic (pb_UnmarshalPlain c k p)"
    "\<And>r. pb_UnmarshalInsert c p = Ok r \<Longrightarrow> ir_Base r = Some b"
    "\<And>r. pb_UnmarshalDelete c p = Ok r \<Longrightarrow> dr_Base r = Some b"
    "\<And>k r. pb_UnmarshalPlain c k p = Ok r \<Longrightarrow> pr_Base r = Some b"
    unfolding codec_safe_def by blast+
  show ?thesis
  proof (cases "mb_MsgType b" rule: registered_cases)
    case (plain k)
    then have "Dispatcher_Unmarshal NewUnmarshalDispatcher c (AnyBytes p) (mb_MsgType b) =
        bindO (pb_UnmarshalPlain c k p) (\<lambda>r. decoded (PlainReq k r))"
      by (simp add: Dispatcher_Unmarshal_def Dispatcher_kind m_Unmarshal_plain)
    with safe(3) [of k] safe(6) [of k] dec plain show ?thesis
      by (cases "pb_UnmarshalPlain c k p") auto
  next
    case insert_type
    then have "Dispatcher_Unmarshal NewUnmarshalDispatcher c (AnyBytes p) (mb_MsgType b) =
        bindO (pb_UnmarshalInsert c p) (\<lambda>r. decoded (InsertReq r))"
      by (simp add: Dispatcher_Unmarshal_def Dispatcher_Insert m_Unmarshal_Insert)
    with safe(1,4) dec insert_type show ?thesis
      by (cases "pb_UnmarshalInsert c p") auto
  next
    case delete_type
    then have "Dispatcher_Unmarshal NewUnmarshalDispatcher c (AnyBytes p) (mb_MsgType b) =
        bindO (pb_UnmarshalDelete c p) (\<lambda>r. decoded (DeleteReq r))"
      by (simp add: Dispatcher_Unmarshal_def Dispatcher_Delete m_Unmarshal_Delete)
    with safe(2,5) dec delete_type show ?thesis
      by (cases "pb_UnmarshalDelete c p") auto
  qed (simp add: Dispatcher_Unmarshal_def)
qed

lemma getTsMsg_safe:
  assumes "codec_safe c"
  shows "case getTsMsgFromConsumerMsg c msg of
      Ok m \<Rightarrow> headed m \<and> Position m = Some (position_at msg) | Err e \<Rightarrow> True | Panic p \<Rightarrow> False"
proof (cases "msg_Payload msg")
  case (Some p)
  have np: "\<not> is_Panic (pb_UnmarshalHeader c p)" using assms by (simp add: codec_safe_def)
  show ?thesis
  proof (cases "pb_UnmarshalHeader c p")
    case (Ok base)
    show ?thesis
    proof (cases base)
      case (Some b)
      from dispatch_headed [OF assms, of p b] Ok Some \<open>msg_Payload msg = Some p\<close> show ?thesis
        by (cases "Dispatcher_Unmarshal NewUnmarshalDispatcher c (AnyBytes p) (mb_MsgType b)")
          (simp_all add: getTsMsgFromConsumerMsg_def map_err_def position_at_def headed_def)
    qed (use Ok \<open>msg_Payload msg = Some p\<close> in \<open>simp add: getTsMsgFromConsumerMsg_def map_err_def\<close>)
  qed (use np \<open>msg_Payload msg = Some p\<close> in \<open>simp_all add: getTsMsgFromConsumerMsg_def map_err_def\<close>)
qed (simp add: getTsMsgFromConsumerMsg_def)

lemma type_of_request_tick: "type_of_request r = MT_TimeTick \<Longrightarrow> \<exists>x. r = PlainReq TimeTickMsg x"
proof (cases r)
  case (PlainReq k x)
  then show "type_of_request r = MT_TimeTick \<Longrightarrow> ?thesis" by (cases k) simp_all
qed simp_all

lemma consume_msg_total:
  assumes "codec_safe c"
  shows "\<exists>ms' ended. consume_msg c ch msg ms = Ok (ms', ended)"
proof (cases "getTsMsgFromConsumerMsg c msg")
  case (Ok m)
  with getTsMsg_safe [OF assms, of msg] have h: "headed m" by simp
  show ?thesis
  proof (cases "type_of_request (Req m) = MT_TimeTick")
    case True
    then obtain x where x: "Req m = PlainReq TimeTickMsg x" using type_of_request_tick by blast
    with headed_base [OF h] obtain b where "pr_Base x = Some b" by auto
    with Ok x headed_type [OF h] show ?thesis
      by (cases "msg_Payload msg") (auto simp: consume_msg_def Let_def)
  next
    case False
    with Ok headed_type [OF h] show ?thesis
      by (cases "msg_Payload msg") (auto simp: consume_msg_def Let_def)
  qed
next
  case (Err e)
  then show ?thesis by (cases "msg_Payload msg") (auto simp: consume_msg_def)
next
  case (Panic p)
  with getTsMsg_safe [OF assms, of msg] show ?thesis by simp
qed

lemma consume_msg_headed:
  assumes "codec_safe c" and "decode1 c msg = [m]"
  shows "headed m"
  using assms(2) getTsMsg_safe [OF assms(1), of msg] by (auto simp: decode1_def split: outcome.splits)

section \<open>A round always ends\<close>

text \<open>A tick is waiting among the messages of a channel.\<close>

definition tick_waiting :: "codec \<Rightarrow> Message list \<Rightarrow> bool" where
  "tick_waiting c msgs \<longleftrightarrow> (\<exists>m \<in> set (decodes c msgs). is_tick m)"

lemma run_channel:
  assumes "codec_safe c"
  shows "phase ms = Collect chs \<Longrightarrow> ch \<in> set chs \<Longrightarrow> tick_waiting c (inbox ms ch) \<Longrightarrow>
    \<exists>ms'. (read_step c)\<^sup>*\<^sup>* ms ms' \<and> phase ms' = Collect (remove1 ch chs) \<and> (\<forall>k. k \<noteq> ch \<longrightarrow> inbox ms' k = inbox ms k)"
proof (induction "length (inbox ms ch)" arbitrary: ms)
  case 0
  then show ?case by (simp add: tick_waiting_def)
next
  case (Suc n)
  then obtain msg msgs where i: "inbox ms ch = msg # msgs" by (cases "inbox ms ch") auto
  let ?m0 = "ms\<lparr>inbox := (inbox ms)(ch := msgs)\<rparr>"
  obtain ms1 ended where c1: "consume_msg c ch msg ?m0 = Ok (ms1, ended)"
    using consume_msg_total [OF assms] by blast
  let ?ms1 = "ms1\<lparr>phase := Collect (if ended then remove1 ch chs else chs)\<rparr>"
  have step: "read_step c ms ?ms1" by (rule read_step.read [OF Suc.prems(1,2) i c1])
  have inb: "inbox ?ms1 = (inbox ms)(ch := msgs)" using consume_msg_Ok [OF c1] by auto
  show ?case
  proof (cases ended)
    case True
    with step inb show ?thesis by (intro exI [of _ ?ms1]) auto
  next
    case False
    have "tick_waiting c msgs"
      using Suc.prems(3) i consume_msg_Ok [OF c1] False by (auto simp: tick_waiting_def)
    then obtain ms' where "(read_step c)\<^sup>*\<^sup>* ?ms1 ms'" "phase ms' = Collect (remove1 ch chs)"
      "\<forall>k. k \<noteq> ch \<longrightarrow> inbox ms' k = inbox ?ms1 k"
      using Suc.hyps(1) [of ?ms1] Suc.hyps(2) Suc.prems(2) inb i False by auto
    with step inb show ?thesis by (intro exI [of _ ms']) (auto intro: converse_rtranclp_into_rtranclp)
  qed
qed

lemma run_round:
  assumes "codec_safe c"
  shows "phase ms = Collect chs \<Longrightarrow> distinct chs \<Longrightarrow> \<forall>ch \<in> set chs. tick_waiting c (inbox ms ch) \<Longrightarrow>
    \<exists>ms'. (read_step c)\<^sup>*\<^sup>* ms ms' \<and> phase ms' = Collect []"
proof (induction chs arbitrary: ms)
  case (Cons ch chs)
  with run_channel [OF assms, of ms "ch # chs" ch] obtain ms1 where ms1: "(read_step c)\<^sup>*\<^sup>* ms ms1"
    "phase ms1 = Collect chs" "\<forall>k. k \<noteq> ch \<longrightarrow> inbox ms1 k = inbox ms k" by auto
  with Cons.prems have "\<forall>k \<in> set chs. tick_waiting c (inbox ms1 k)" by auto
  with Cons.IH [OF ms1(2)] Cons.prems(2) ms1(1) show ?case by (auto intro: rtranclp_trans)
qed auto

lemma local_run_ends: "snd (local_run c msgs buf t) \<longleftrightarrow> tick_waiting c msgs"
proof (induction msgs arbitrary: buf t)
  case (Cons msg msgs)
  have "length (decode1 c msg) \<le> 1" by (simp add: decode1_def split: outcome.split)
  with Cons show ?case by (cases "decode1 c msg") (auto simp: tick_waiting_def)
qed (simp add: tick_waiting_def)

text \<open>C7: a round comes to an end when every channel it reads has a tick waiting, whatever else the
  channels hold: there is one state the round ends in, and every schedule of the goroutines, stopped at
  any point, can still be completed to it.\<close>

theorem tt_round_completes:
  assumes "codec_safe c" and "phase ms = Collect chs" and "distinct chs"
    and "\<forall>ch \<in> set chs. tick_waiting c (inbox ms ch)"
  shows "\<exists>ms'. phase ms' = Collect [] \<and> (\<forall>x. (read_step c)\<^sup>*\<^sup>* ms x \<longrightarrow>
    (read_step c)\<^sup>*\<^sup>* x ms' \<and> (phase x = Collect [] \<longrightarrow> x = ms'))"
proof -
  obtain ms' where ms': "(read_step c)\<^sup>*\<^sup>* ms ms'" "phase ms' = Collect []"
    using run_round [OF assms] by blast
  have "(read_step c)\<^sup>*\<^sup>* x ms' \<and> (phase x = Collect [] \<longrightarrow> x = ms')" if x: "(read_step c)\<^sup>*\<^sup>* ms x" for x
  proof -
    obtain R where R: "round_inv c ms chs R x" using round_inv_run [OF x assms(2,3)] ..
    have "tick_waiting c (inbox x ch)" if "ch \<in> set R" for ch
    proof -
      from R that have "run_view c (view x ch) = run_view c (view ms ch)" "ch \<in> set chs"
        by (auto simp: round_inv_def fate_def)
      with assms(4) show ?thesis
        using local_run_ends by (metis (no_types, lifting) case_prod_conv run_view_def view_def)
    qed
    with R obtain y where y: "(read_step c)\<^sup>*\<^sup>* x y" "phase y = Collect []"
      using run_round [OF assms(1), of x R] by (auto simp: round_inv_def)
    from x y(1) have "(read_step c)\<^sup>*\<^sup>* ms y" by (rule rtranclp_trans)
    then have "y = ms'" using round_unique [OF _ ms'(1) assms(2,3) y(2) ms'(2)] by blast
    moreover have "phase x = Collect [] \<Longrightarrow> x = ms'"
      using round_unique [OF x ms'(1) assms(2,3) _ ms'(2)] by blast
    ultimately show ?thesis using y(1) by blast
  qed
  with ms'(2) show ?thesis by blast
qed

theorem tt_round_completes_witness:
  "\<exists>ms'. phase ms' = Collect [] \<and> (read_step sample_codec)\<^sup>*\<^sup>* (sample_tt\<lparr>phase := Collect [''a'']\<rparr>) ms'"
proof -
  have "tick_waiting sample_codec (inbox (sample_tt\<lparr>phase := Collect [''a'']\<rparr>) ''a'')"
    using sample_decode(2) sample_start by (auto simp: tick_waiting_def is_tick_def)
  then have "\<forall>ch \<in> set [''a'']. tick_waiting sample_codec (inbox (sample_tt\<lparr>phase := Collect [''a'']\<rparr>) ch)" by simp
  from tt_round_completes [OF _ _ _ this] show ?thesis by (auto simp: sample_codec_def)
qed

section \<open>Safety of the loop\<close>

definition good :: "TsMsg \<Rightarrow> bool" where
  "good m \<longleftrightarrow> headed m \<and> Position m \<noteq> None"

definition has_tick :: "TsMsg list \<Rightarrow> bool" where
  "has_tick ms \<longleftrightarrow> (\<exists>m \<in> set ms. is_tick m)"

lemma split_msgs_total:
  assumes "\<forall>m \<in> set msgs. headed m"
  shows "\<exists>sz. split_msgs c T msgs = Ok (ready T msgs, keep T msgs,
      (if filter is_tick msgs = [] then None else Some (last (filter is_tick msgs))), sz)"
proof -
  have "\<exists>x. foldO (split_body c T) s msgs = Ok x" for s
    by (rule foldO_returns) (use assms headed_type in \<open>auto simp: split_body_def split: prod.split\<close>)
  then obtain a k t sz where r: "foldO (split_body c T) ([], [], None, 0) msgs = Ok (a, k, t, sz)"
    by (metis prod_cases4)
  with split_msgs_Ok [of c T msgs a k t sz] show ?thesis by (simp add: split_msgs_def)
qed

lemma set_keep: "set (keep T ms) \<subseteq> set ms"
  by (auto simp: keep_def data_def)

lemma in_keep: "m \<in> set (keep T ms) \<Longrightarrow> m \<in> set ms"
  using set_keep by blast

lemma new_position_total:
  assumes "\<forall>m \<in> set msgs. good m" and "has_tick msgs"
  shows "\<exists>p. new_position sub T (keep T msgs)
     (if filter is_tick msgs = [] then None else Some (last (filter is_tick msgs))) = Ok (Some p)"
proof -
  have ne: "filter is_tick msgs \<noteq> []" using assms(2) by (auto simp: has_tick_def filter_empty_conv)
  then have "last (filter is_tick msgs) \<in> set msgs" using last_in_set [OF ne] by simp
  with assms(1) have t: "Position (last (filter is_tick msgs)) \<noteq> None" by (auto simp: good_def)
  show ?thesis
  proof (cases "keep T msgs")
    case (Cons m ms)
    with set_keep [of T msgs] assms(1) have "Position m \<noteq> None" by (auto simp: good_def)
    with Cons show ?thesis by (auto simp: new_position_def position_of_def)
  qed (use t ne in \<open>auto simp: new_position_def position_of_def\<close>)
qed

text \<open>Flushing a channel that has a tick, messages with headers and positions, and a position.\<close>

definition flushable :: "tt_stream \<Rightarrow> string \<Rightarrow> bool" where
  "flushable ms ch \<longleftrightarrow> (\<forall>m \<in> set (chanMsgBuf ms ch). good m) \<and> chanMsgPos ms ch \<noteq> None \<and> has_tick (chanMsgBuf ms ch)"

lemma flush_channel_total:
  assumes "flushable ms ch"
  shows "\<exists>ms' p. flush_channel c T ms ch = Ok ms' \<and> chanMsgPos ms' = (chanMsgPos ms)(ch \<mapsto> p)"
proof -
  have ne: "chanMsgBuf ms ch \<noteq> []" using assms by (auto simp: flushable_def has_tick_def)
  obtain p0 where p0: "chanMsgPos ms ch = Some p0" using assms by (auto simp: flushable_def)
  have "\<forall>m \<in> set (chanMsgBuf ms ch). headed m" using assms by (auto simp: flushable_def good_def)
  from split_msgs_total [OF this, of c T] obtain a k t sz where
    sp: "split_msgs c T (chanMsgBuf ms ch) = Ok (a, k, t, sz)" "k = keep T (chanMsgBuf ms ch)"
      "t = (if filter is_tick (chanMsgBuf ms ch) = [] then None else Some (last (filter is_tick (chanMsgBuf ms ch))))"
    by blast
  from new_position_total [of "chanMsgBuf ms ch" "subscription ms" T] assms obtain p where
    "new_position (subscription ms) T k t = Ok (Some p)"
    unfolding sp(2,3) by (auto simp: flushable_def)
  with sp(1) ne p0 show ?thesis by (auto simp: flush_channel_def Let_def)
qed

lemma flush_all_total:
  "distinct walk \<Longrightarrow> \<forall>ch \<in> set walk. flushable ms ch \<Longrightarrow>
   \<exists>ms'. foldO (flush_channel c T) ms walk = Ok ms' \<and>
     (\<forall>ch. chanMsgPos ms ch \<noteq> None \<longrightarrow> chanMsgPos ms' ch \<noteq> None)"
proof (induction walk arbitrary: ms)
  case (Cons ch walk)
  from flush_channel_total [of ms ch c T] Cons.prems obtain ms1 p where
    1: "flush_channel c T ms ch = Ok ms1" "chanMsgPos ms1 = (chanMsgPos ms)(ch \<mapsto> p)" by auto
  have "flushable ms1 k" if "k \<in> set walk" for k
    using flush_channel_Ok [OF 1(1)] 1(2) Cons.prems that by (auto simp: flushable_def flushed_def)
  with Cons.IH [of ms1] Cons.prems obtain ms' where
    2: "foldO (flush_channel c T) ms1 walk = Ok ms'" "\<forall>k. chanMsgPos ms1 k \<noteq> None \<longrightarrow> chanMsgPos ms' k \<noteq> None"
    by auto
  from 2(2) 1(2) have "chanMsgPos ms' k \<noteq> None" if "chanMsgPos ms k \<noteq> None" for k
    using that by (cases "k = ch") auto
  with 1(1) 2(1) show ?case by auto
qed simp

definition safe_inv :: "tt_stream \<Rightarrow> bool" where
  "safe_inv ms \<longleftrightarrow>
     (\<forall>ch \<in> set (consumers ms). (\<forall>m \<in> set (chanMsgBuf ms ch). good m) \<and> chanMsgPos ms ch \<noteq> None
        \<and> (frontier ms < chanTtMsgTime ms ch \<longrightarrow> has_tick (chanMsgBuf ms ch)))
     \<and> (\<forall>m \<in> set (timeTickBuf ms). headed m)
     \<and> (case phase ms of Collect _ \<Rightarrow> endTs ms = 0 | _ \<Rightarrow> True) \<and> turn_ok ms"

text \<open>In normal mode a flush only happens when every channel has read a tick since the last one.\<close>

lemma safe_barrier:
  assumes "safe_inv ms" and "phase ms = Collect chs" and "is_walk walk (set (consumers ms))"
  shows "\<exists>ms'. barrier c walk ms = Ok ms' \<and> (\<forall>ch. chanMsgPos ms ch \<noteq> None \<longrightarrow> chanMsgPos ms' ch \<noteq> None)"
proof -
  obtain T ok ms1 where a: "allChanReachSameTtMsg ms = ((T, ok), ms1)" by (metis surj_pair)
  have m1: "chanMsgPos ms1 = chanMsgPos ms" "chanMsgBuf ms1 = chanMsgBuf ms" "lastTimeStamp ms1 = lastTimeStamp ms"
    using a by (auto simp: allChanReachSameTtMsg_def split: if_splits)
  show ?thesis
  proof (cases "ok \<and> \<not> T \<le> lastTimeStamp ms1")
    case False
    with a m1 show ?thesis by (intro exI [of _ ms1]) (auto simp: barrier_def)
  next
    case True
    have "endTs ms = 0" using assms(1,2) by (simp add: safe_inv_def)
    then have fr: "frontier ms = lastTimeStamp ms" by (simp add: frontier_def)
    have T0: "0 < T" using True by (cases "T = 0") (auto simp: word_neq_0_conv)
    have "flushable (ms1\<lparr>endTs := T\<rparr>) ch" if "ch \<in> set walk" for ch
    proof -
      have ch: "ch \<in> set (consumers ms)" using that assms(3) by (simp add: is_walk_def)
      with all_reached [of ms T ms1] a True T0 have "chanTtMsgTime ms ch = T" by simp
      with True fr m1(3) have "frontier ms < chanTtMsgTime ms ch" by (simp add: not_le)
      with assms(1) ch m1 show ?thesis by (auto simp: safe_inv_def flushable_def)
    qed
    with flush_all_total [of walk "ms1\<lparr>endTs := T\<rparr>" c T] assms(3) obtain ms' where
      "foldO (flush_channel c T) (ms1\<lparr>endTs := T\<rparr>) walk = Ok ms'"
      "\<forall>ch. chanMsgPos ms ch \<noteq> None \<longrightarrow> chanMsgPos ms' ch \<noteq> None"
      using m1 by (auto simp: is_walk_def)
    with a True show ?thesis by (intro exI [of _ ms']) (auto simp: barrier_def)
  qed
qed

lemma safe_inv_push:
  assumes "safe_inv ms" and "good m" and "turn_ok ((push ch m (ms\<lparr>inbox := i\<rparr>))\<lparr>phase := Collect R\<rparr>)"
    and "phase ms = Collect chs"
  shows "safe_inv ((push ch m (ms\<lparr>inbox := i\<rparr>))\<lparr>phase := Collect R\<rparr>)"
proof -
  let ?ms' = "(push ch m (ms\<lparr>inbox := i\<rparr>))\<lparr>phase := Collect R\<rparr>"
  have fr: "frontier ?ms' = frontier ms" by (simp add: frontier_def)
  have "(\<forall>x \<in> set (chanMsgBuf ?ms' k). good x) \<and> chanMsgPos ?ms' k \<noteq> None
      \<and> (frontier ms < chanTtMsgTime ?ms' k \<longrightarrow> has_tick (chanMsgBuf ?ms' k))"
    if "k \<in> set (consumers ms)" for k
    using assms(1,2) that by (auto simp: safe_inv_def has_tick_def)
  moreover have "endTs ms = 0" using assms(1,4) by (simp add: safe_inv_def)
  ultimately show ?thesis using assms(1,3) by (simp add: safe_inv_def fr)
qed

lemma safe_inv_reach:
  assumes "safe_inv ms" and "phase ms = Collect chs" and "is_walk walk (set (consumers ms))"
    and "barrier c walk ms = Ok ms1" and "turn_ok (ms1\<lparr>phase := Guard\<rparr>)"
  shows "safe_inv (ms1\<lparr>phase := Guard\<rparr>)"
proof -
  from safe_barrier [OF assms(1-3), of c] assms(4)
  have pos: "\<And>ch. chanMsgPos ms ch \<noteq> None \<Longrightarrow> chanMsgPos ms1 ch \<noteq> None" by auto
  from barrier_Ok [OF assms(4,3)] show ?thesis
  proof
    assume n: "no_flush ms ms1"
    then have "frontier (ms1\<lparr>phase := Guard\<rparr>) = frontier ms" by (simp add: no_flush_def frame_def frontier_def)
    with n pos assms(1,5) show ?thesis by (auto simp: safe_inv_def no_flush_def frame_def)
  next
    assume "\<exists>T. flush_at T walk ms ms1"
    then obtain T where f: "flush_at T walk ms ms1" ..
    then have "frontier (ms1\<lparr>phase := Guard\<rparr>) = T" by (auto simp: flush_at_def frontier_def)
    moreover have "headed m" if "m \<in> set (timeTickBuf ms1)" for m
      using that f assms(1,3)
      by (auto simp: flush_at_def safe_inv_def is_walk_def ready_def data_def good_def)
    ultimately show ?thesis
      using f pos assms(1,5)
      by (auto simp: safe_inv_def flush_at_def frame_def dest: in_keep)
  qed
qed

lemma safe_inv_step:
  assumes "codec_safe c" and "\<not> EnablePursuitMode cf" and "safe_inv ms" and "tt_step cf c ms ms'"
  shows "safe_inv ms'"
proof -
  have "turn_ok ms" using assms(3) by (simp add: safe_inv_def)
  note ok' = turn_ok_step [OF this assms(4)]
  have same: "safe_inv ms'"
    if "consumers ms' = consumers ms" "chanTtMsgTime ms' = chanTtMsgTime ms" "frontier ms' = frontier ms"
      "chanMsgBuf ms' = chanMsgBuf ms" "chanMsgPos ms' = chanMsgPos ms"
      "set (timeTickBuf ms') \<subseteq> set (timeTickBuf ms)"
      "case phase ms' of Collect _ \<Rightarrow> endTs ms' = 0 | _ \<Rightarrow> True"
    using assms(3) ok' that by (auto simp: safe_inv_def)
  from assms(4) show ?thesis
  proof (cases rule: tt_step.cases)
    case outer
    with \<open>turn_ok ms\<close> show ?thesis by (intro same) (simp_all add: turn_ok_def frontier_def)
  next
    case (guard now)
    then have "endTs ms = 0" using assms(2) by (auto simp: continueBuffering_def split: if_splits)
    with guard show ?thesis by (intro same) (simp_all add: frontier_def)
  next
    case consume
    then show ?thesis
    proof (cases rule: read_step_cases)
      case (1 chs ch msg msgs)
      with assms(3) show ?thesis by (intro same) (simp_all add: frontier_def safe_inv_def)
    next
      case (2 chs ch msg msgs m)
      have "good m" using consume_msg_headed [OF assms(1) 2(4)] 2(6) by (simp add: good_def)
      from safe_inv_push [OF assms(3) this _ 2(1)] ok' show ?thesis unfolding 2(7) by blast
    qed
  next
    case (give_up chs ch)
    with assms(3) show ?thesis by (intro same) (simp_all add: frontier_def safe_inv_def)
  next
    case (chan_closed chs ch)
    with assms(3) show ?thesis by (intro same) (simp_all add: frontier_def safe_inv_def)
  next
    case (reach walk ms1)
    from safe_inv_reach [OF assms(3) reach(2,3,4)] ok' show ?thesis unfolding reach(1) by blast
  next
    case (send now walk1 walk2 ms1)
    from emit_Ok [OF send(6)] send(1) show ?thesis
      by (intro same) (auto simp: frontier_def word_neq_0_conv)
  next
    case cancel
    have "frontier ms' = frontier ms" unfolding cancel(1) frontier_def by simp
    moreover have "case phase ms' of Collect _ \<Rightarrow> endTs ms' = 0 | _ \<Rightarrow> True"
      using assms(3) unfolding cancel(1) safe_inv_def by (simp split: phase.splits)
    ultimately show ?thesis by (intro same) (simp_all add: cancel(1))
  qed (intro same; simp add: frontier_def)+
qed

lemma unique_msgs_total: "\<forall>m \<in> set ms. headed m \<Longrightarrow> \<exists>out. unique_msgs idset ms = Ok out"
proof (induction ms arbitrary: idset)
  case (Cons m ms)
  then have h: "headed m" by simp
  then obtain i where i: "ID m = Ok i" using headed_base [of m] by (auto simp: call_simps read_base_def)
  from Cons.IH [of idset] Cons.IH [of "Set_Insert idset [i]"] Cons.prems
  obtain o1 o2 where "unique_msgs idset ms = Ok o1" "unique_msgs (Set_Insert idset [i]) ms = Ok o2" by auto
  with i headed_type [OF h] show ?case by (auto simp: isDMLMsg_def)
qed simp

text \<open>A state in which the loop, or one of its goroutines, panics or fails at its next step.\<close>

definition tt_stuck :: "codec \<Rightarrow> tt_stream \<Rightarrow> bool" where
  "tt_stuck c ms \<longleftrightarrow>
     (\<exists>chs ch msg msgs. phase ms = Collect chs \<and> ch \<in> set chs \<and> inbox ms ch = msg # msgs
        \<and> \<not> is_Ok (consume_msg c ch msg (ms\<lparr>inbox := (inbox ms)(ch := msgs)\<rparr>)))
     \<or> (phase ms = Collect [] \<and> (\<exists>walk. is_walk walk (set (consumers ms)) \<and> \<not> is_Ok (barrier c walk ms)))
     \<or> (phase ms = Guard \<and> (\<exists>walk1 walk2. \<not> is_Ok (emit walk1 walk2 ms)))"

text \<open>C8: outside pursuit mode no reachable state of the loop panics: no goroutine trips over a message,
  whatever bytes the channels hold, the positions read at a flush are never nil, and the ids of the
  collected messages can always be read.\<close>

theorem tt_never_panics:
  assumes "codec_safe c" and "\<not> EnablePursuitMode cf" and "tt_run cf c s s'"
    and "phase s = Start" and "endTs s = 0" and "timeTickBuf s = []"
    and "\<forall>ch \<in> set (consumers s). (\<forall>m \<in> set (chanMsgBuf s ch). good m) \<and> chanMsgPos s ch \<noteq> None
        \<and> chanTtMsgTime s ch \<le> lastTimeStamp s"
  shows "\<not> tt_stuck c s'"
proof -
  have "safe_inv s"
    using assms(4-7) by (auto simp: safe_inv_def turn_ok_def frontier_def not_less)
  with assms(3) have inv: "safe_inv s'"
    by (rule tt_run_invariant) (rule safe_inv_step [OF assms(1,2)])
  have "is_Ok (consume_msg c ch msg x)" for ch msg x
    using consume_msg_total [OF assms(1), of ch msg x] by (auto simp: is_Ok_iff)
  moreover have "is_Ok (barrier c walk s')" if "phase s' = Collect []" "is_walk walk (set (consumers s'))" for walk
    using safe_barrier [OF inv that, of c] by (auto simp: is_Ok_iff)
  moreover have "is_Ok (emit w1 w2 s')" for w1 w2
    using unique_msgs_total [of "timeTickBuf s'" "NewSet []"] inv by (auto simp: emit_def safe_inv_def is_Ok_iff)
  ultimately show ?thesis by (auto simp: tt_stuck_def)
qed

theorem tt_never_panics_witness:
  "\<exists>s'. tt_run sample_cfg sample_codec sample_tt s' \<and> \<not> tt_stuck sample_codec s'"
proof -
  obtain s' where r: "tt_run sample_cfg sample_codec sample_tt s'" using sample_run by blast
  have "chanMsgPos sample_tt ''a'' \<noteq> None" by (simp add: sample_tt_def addConsumer_def)
  with tt_never_panics [OF _ _ r sample_start(5,2,4)] sample_start have "\<not> tt_stuck sample_codec s'"
    by (simp add: sample_codec_def sample_cfg_def)
  with r show ?thesis by blast
qed

end
