(* ===== verification/TtSeek.thy ===== *)
theory TtSeek
  imports TtStream
begin

text \<open>
  Resuming a time-tick stream: the position a flush leaves in \<open>chanMsgPos\<close> and the \<open>Seek\<close> of
  pkg/mq/msgstream/mq\_msgstream.go that starts from it. The definitions are those of the theory of the
  stream (\<open>new_position\<close>, \<open>seek_msg\<close>, \<open>seek_loop\<close>, \<open>tt_Seek\<close>); here is what they achieve together. A stream
  that stops after the tick \<open>T\<close> and one that seeks to the position of that tick hold the same messages,
  except for those whose own interval has \<open>T\<close> in it: \<open>Seek\<close> skips these, although they were never emitted.
\<close>

section \<open>One message of the loop\<close>

text \<open>The message a queue message decodes to.\<close>

definition msg_at :: "codec \<Rightarrow> Message \<Rightarrow> TsMsg" where
  "msg_at c msg = hd (decode1 c msg)"

text \<open>Two messages that differ at most in the trace context.\<close>

definition untraced :: "TsMsg \<Rightarrow> TsMsg" where
  "untraced m = m\<lparr>Ctx := None\<rparr>"

lemma decode1_msg_at: "decode1 c msg \<noteq> [] \<Longrightarrow> decode1 c msg = [msg_at c msg]"
  by (auto simp: decode1_def msg_at_def split: outcome.splits)

lemma decodes_map: "\<forall>msg \<in> set msgs. decode1 c msg \<noteq> [] \<Longrightarrow> decodes c msgs = map (msg_at c) msgs"
  by (induction msgs) (simp_all add: decode1_msg_at)

lemma ExtractCtx_headed: "headed m \<Longrightarrow> \<exists>x. ExtractCtx ex st m ps = Ok x"
  using headed_base [of m] headed_type [of m]
  by (auto simp: ExtractCtx_def allowTrace_def call_simps read_base_def)

lemma headed_SourceID: "headed m \<Longrightarrow> \<exists>x. SourceID m = Ok x"
  using headed_base [of m] by (auto simp: call_simps read_base_def)

lemma map_err_Ok_iff: "map_err f r = Ok x \<longleftrightarrow> r = Ok x"
  by (cases r) (simp_all add: map_err_def)

lemma getTsMsg_Ok:
  assumes "getTsMsgFromConsumerMsg c msg = Ok m"
  shows "\<exists>p b m0. msg_Payload msg = Some p \<and> pb_UnmarshalHeader c p = Ok (Some b)
    \<and> Dispatcher_Unmarshal NewUnmarshalDispatcher c (AnyBytes p) (mb_MsgType b) = Ok m0
    \<and> m = SetPosition m0 (position_at msg)"
proof (cases "msg_Payload msg")
  case (Some p)
  with assms obtain base where b: "pb_UnmarshalHeader c p = Ok base"
    by (auto simp: getTsMsgFromConsumerMsg_def outcome_simps map_err_Ok_iff)
  with assms Some show ?thesis
    by (cases base) (auto simp: getTsMsgFromConsumerMsg_def outcome_simps map_err_Ok_iff position_at_def)
qed (use assms in \<open>simp add: getTsMsgFromConsumerMsg_def\<close>)

definition seek_keeps :: "timestamp \<Rightarrow> TsMsg \<Rightarrow> bool" where
  "seek_keeps T m \<longleftrightarrow> T < BeginTs m"

definition seek_ends :: "timestamp \<Rightarrow> TsMsg \<Rightarrow> bool" where
  "seek_ends T m \<longleftrightarrow> is_tick m \<and> T \<le> BeginTs m"

lemma seek_msg_decoded:
  assumes "codec_safe c" and "decode1 c msg \<noteq> []"
  obtains kept where "seek_msg cl c T msg = Ok (kept, seek_ends T (msg_at c msg))"
    "map untraced kept = (if seek_ends T (msg_at c msg) then []
       else if seek_keeps T (msg_at c msg) then [untraced (msg_at c msg)] else [])"
proof -
  let ?m = "msg_at c msg"
  have dm: "decode1 c msg = [?m]" using decode1_msg_at [OF assms(2)] .
  then have g: "getTsMsgFromConsumerMsg c msg = Ok ?m" by (auto simp: decode1_def split: outcome.splits)
  have h: "headed ?m" using consume_msg_headed [OF assms(1) dm] .
  from getTsMsg_Ok [OF g] obtain p b m0 where d: "msg_Payload msg = Some p" "pb_UnmarshalHeader c p = Ok (Some b)"
    "Dispatcher_Unmarshal NewUnmarshalDispatcher c (AnyBytes p) (mb_MsgType b) = Ok m0"
    "?m = SetPosition m0 (position_at msg)"
    by blast
  from h have h0: "headed m0" by (simp add: headed_def d(4))
  from ExtractCtx_headed [OF h0] obtain x where
    x: "ExtractCtx (cl_Extract cl) (cl_StartSpan cl) m0 (msg_Properties msg) = Ok x" by blast
  from headed_SourceID [OF h0] obtain sid where sid: "SourceID m0 = Ok sid" by blast
  have t: "(type_of_request (Req m0) = MT_TimeTick) = is_tick m0" "is_tick ?m = is_tick m0" "BeginTs ?m = BeginTs m0"
    using headed_type [OF h0] by (simp_all add: is_tick_def d(4))
  have run: "seek_msg cl c T msg =
      (if is_tick m0 \<and> T \<le> BeginTs m0 then Ok ([], True)
       else if T < BeginTs m0 then Ok ([SetPosition (SetTraceCtx m0 x) (position_at msg)], False)
       else Ok ([], False))"
    using d(1-3) x sid headed_type [OF h0] t(1) by (simp add: seek_msg_def map_err_def)
  have "untraced (SetPosition (SetTraceCtx m0 x) (position_at msg)) = untraced ?m"
    by (simp add: untraced_def SetPosition_def SetTraceCtx_def d(4))
  with that [of "if is_tick m0 \<and> T \<le> BeginTs m0 then []
       else if T < BeginTs m0 then [SetPosition (SetTraceCtx m0 x) (position_at msg)] else []"] run t
  show thesis by (auto simp: seek_ends_def seek_keeps_def split: if_splits)
qed

section \<open>The loop\<close>

text \<open>The loop reads up to the first tick at or after the position and buffers what begins after it.\<close>

lemma seek_loop_run:
  assumes "codec_safe c" and "\<forall>msg \<in> set (pre @ [tk]). decode1 c msg \<noteq> []"
    and "\<forall>msg \<in> set pre. \<not> seek_ends T (msg_at c msg)" and "seek_ends T (msg_at c tk)"
  shows "\<exists>ms'. seek_loop cl c ch T (pre @ tk # rest) ms = (Ok True, ms') \<and> inbox ms' ch = rest
    \<and> map untraced (chanMsgBuf ms' ch) =
        map untraced (chanMsgBuf ms ch @ filter (seek_keeps T) (map (msg_at c) pre))
    \<and> consumers ms' = consumers ms \<and> chanMsgPos ms' = chanMsgPos ms \<and> chanTtMsgTime ms' = chanTtMsgTime ms
    \<and> lastTimeStamp ms' = lastTimeStamp ms"
  using assms(2,3)
proof (induction pre arbitrary: ms)
  case Nil
  from assms(4) Nil seek_msg_decoded [OF assms(1), of tk cl T] obtain kept where
    "seek_msg cl c T tk = Ok (kept, True)" "kept = []" by auto
  then show ?case by (simp add: Let_def)
next
  case (Cons msg pre)
  from Cons.prems seek_msg_decoded [OF assms(1), of msg cl T] obtain kept where
    k: "seek_msg cl c T msg = Ok (kept, False)"
      "map untraced kept = (if seek_keeps T (msg_at c msg) then [untraced (msg_at c msg)] else [])" by auto
  let ?m1 = "ms\<lparr>inbox := (inbox ms)(ch := pre @ tk # rest)\<rparr>"
  let ?m2 = "?m1\<lparr>chanMsgBuf := (chanMsgBuf ?m1)(ch := chanMsgBuf ?m1 ch @ kept)\<rparr>"
  from Cons.IH [of ?m2] Cons.prems k show ?case by (auto simp: Let_def)
qed

section \<open>Resuming\<close>

lemma Handle_first: "CheckCtxValid x now \<Longrightarrow> fn now w = ((b, None), now', w') \<Longrightarrow> 0 < attempts (apply_opts opts) \<Longrightarrow>
  Handle tie x fn opts now w = (None, now', w')"
  by (cases "attempts (apply_opts opts)") (simp_all add: Handle_def Let_def)

lemma Background_valid: "ctx_Err Background now = None"
  by (simp add: ctx_Err_def ctx_done_at_def Background_def)

lemma stream_retry_attempts: "0 < attempts (apply_opts stream_retry)"
  by (simp add: apply_opts_def stream_retry_def Attempts_def Sleep_def MaxSleepTime_def Let_def)

text \<open>What a consumer delivers after an inclusive seek to a message id.\<close>

definition seek_to :: "bytes \<Rightarrow> Message list \<Rightarrow> Message list" where
  "seek_to i log = dropWhile (\<lambda>msg. msg_ID msg \<noteq> i) log"

lemma seek_to_first:
  assumes "distinct (map msg_ID (xs @ y # zs))"
  shows "seek_to (msg_ID y) (xs @ y # zs) = y # zs"
  using assms by (induction xs) (auto simp: seek_to_def)

text \<open>A flush of the channel at \<open>T\<close> that leaves a position \<open>p\<close>: the messages read so far end with the tick
  \<open>tk\<close>, the position is computed from those kept and that tick.\<close>

definition flush_position :: "codec \<Rightarrow> string \<Rightarrow> timestamp \<Rightarrow> Message list \<Rightarrow> Message \<Rightarrow> MsgPosition \<Rightarrow> bool" where
  "flush_position c subName T xs tk p \<longleftrightarrow>
     new_position subName T (keep T (decodes c xs)) (Some (msg_at c tk)) = Ok (Some p)"

text \<open>Messages end no earlier than they begin, and earlier ticks are earlier.\<close>

definition well_timed :: "timestamp \<Rightarrow> TsMsg \<Rightarrow> bool" where
  "well_timed T m \<longleftrightarrow> (if is_tick m then BeginTs m < T else BeginTs m \<le> EndTs m)"

lemma msg_at_position: "codec_safe c \<Longrightarrow> decode1 c msg \<noteq> [] \<Longrightarrow> Position (msg_at c msg) = Some (position_at msg)"
  using decode1_msg_at [of c msg] getTsMsg_Position [of c msg "msg_at c msg"]
  by (auto simp: decode1_def split: outcome.splits)

lemma well_timed_keeps:
  "\<forall>m \<in> set ms. well_timed T m \<Longrightarrow> filter (seek_keeps T) ms = filter (seek_keeps T) (keep T ms)"
proof (induction ms)
  case (Cons m ms)
  then have "seek_keeps T m \<Longrightarrow> \<not> is_tick m \<and> \<not> EndTs m \<le> T"
    by (auto simp: well_timed_def seek_keeps_def split: if_splits)
  moreover have "filter (seek_keeps T) ms = filter (seek_keeps T) (keep T ms)" using Cons by simp
  moreover have "keep T (m # ms) = keep T [m] @ keep T ms" by (simp add: keep_def)
  ultimately show ?case by (auto simp: keep_def)
qed (simp add: keep_def)

lemma keep_map:
  "keep T (map (msg_at c) xs) = map (msg_at c) (filter (\<lambda>x. \<not> is_tick (msg_at c x) \<and> \<not> EndTs (msg_at c x) \<le> T) xs)"
  by (induction xs) (simp_all add: keep_def)

lemma resume_suffix:
  assumes "codec_safe c" and dec: "\<forall>msg \<in> set (xs @ [tk]). decode1 c msg \<noteq> []"
    and dist: "distinct (map msg_ID (xs @ tk # unread))" and "flush_position c subName T xs tk p"
  obtains pre where "seek_to (mp_MsgID p) (xs @ tk # unread) = pre @ tk # unread" "set pre \<subseteq> set xs"
    "keep T (decodes c xs) = keep T (map (msg_at c) pre)" "mp_Timestamp p = T"
proof (cases "keep T (decodes c xs)")
  case Nil
  with assms(4) dec msg_at_position [OF assms(1), of tk] have "mp_MsgID p = msg_ID tk" "mp_Timestamp p = T"
    by (auto simp: flush_position_def new_position_def position_of_def position_at_def)
  with that [of "[]"] seek_to_first [OF dist] Nil show thesis by (simp add: keep_def)
next
  case (Cons m ms)
  let ?P = "\<lambda>msg. \<not> is_tick (msg_at c msg) \<and> \<not> EndTs (msg_at c msg) \<le> T"
  have eq: "keep T (decodes c xs) = map (msg_at c) (filter ?P xs)"
    using dec decodes_map [of xs c] keep_map [of T c xs] by simp
  from Cons eq have "filter ?P xs \<noteq> []" by (simp del: filter_empty_conv) force
  then obtain us y vs where s: "xs = us @ y # vs" "\<forall>u \<in> set us. \<not> ?P u" "?P y"
    using filter_empty_conv [of ?P xs] split_list_first_prop [of xs ?P] by blast
  then have "filter ?P us = []" by (simp add: filter_empty_conv)
  with s Cons eq have m: "m = msg_at c y" by simp
  have "decode1 c y \<noteq> []" using dec s(1) by simp
  with assms(4) Cons m msg_at_position [OF assms(1)] have p: "mp_MsgID p = msg_ID y" "mp_Timestamp p = T"
    by (auto simp: flush_position_def new_position_def position_of_def position_at_def)
  have "seek_to (mp_MsgID p) (us @ y # (vs @ tk # unread)) = y # (vs @ tk # unread)"
    using seek_to_first [of us y "vs @ tk # unread"] dist s(1) p(1) by simp
  moreover have "filter ?P xs = filter ?P (y # vs)" using \<open>filter ?P us = []\<close> s(1) by simp
  then have "keep T (decodes c xs) = keep T (map (msg_at c) (y # vs))" by (simp only: eq keep_map)
  ultimately show thesis using that [of "y # vs"] s(1) p(2) by auto
qed

lemma seek_fn_found:
  assumes "mp_ChannelName p \<in> set (consumers ms)" and "cl_BytesToMsgID cl (mp_MsgID p) = Inr i"
    and "cl_Seek cl (mp_ChannelName p) i True w = (Inr msgs, w')"
  shows "seek_fn cl ignoreBad p now (ms, w) =
    ((False, None), now, (ms\<lparr>inbox := (inbox ms)(mp_ChannelName p := msgs)\<rparr>, w'))"
  using assms by (simp add: seek_fn_def Let_def)

text \<open>The state in which \<open>Seek\<close> starts to read.\<close>

definition seek_start :: "tt_stream \<Rightarrow> MsgPosition \<Rightarrow> Message list \<Rightarrow> tt_stream" where
  "seek_start ms p msgs =
     (let ch = mp_ChannelName p; ms1 = addConsumer (ms\<lparr>inbox := (inbox ms)(ch := msgs)\<rparr>) ch msgs
      in ms1\<lparr>chanMsgPos := (chanMsgPos ms1)(ch := Some p)\<rparr>)"

lemma seek_start_simps [simp]:
  "inbox (seek_start ms p msgs) (mp_ChannelName p) = msgs" "chanMsgBuf (seek_start ms p msgs) (mp_ChannelName p) = []"
  "chanMsgPos (seek_start ms p msgs) (mp_ChannelName p) = Some p"
  "chanTtMsgTime (seek_start ms p msgs) (mp_ChannelName p) = 0"
  by (simp_all add: seek_start_def addConsumer_def Let_def)

lemma tt_Seek_one:
  assumes "CheckCtxValid x now" and "mp_MsgID p \<noteq> []" and "mp_ChannelName p \<in> set (consumers ms)"
    and "cl_BytesToMsgID cl (mp_MsgID p) = Inr i" and "cl_Seek cl (mp_ChannelName p) i True w = (Inr msgs, w')"
    and "seek_loop cl c (mp_ChannelName p) (mp_Timestamp p) msgs (seek_start ms p msgs) = (Ok True, ms')"
  shows "tt_Seek cl c ignoreBad x [p] now (ms, w) = (Ok True, (ms', w'))"
proof -
  have "Handle (\<lambda>_. False) x (seek_fn cl ignoreBad p) stream_retry now (ms, w) =
      (None, now, (ms\<lparr>inbox := (inbox ms)(mp_ChannelName p := msgs)\<rparr>, w'))"
    by (rule Handle_first [where fn = "seek_fn cl ignoreBad p" and now = now, OF assms(1) seek_fn_found [OF assms(3-5)] stream_retry_attempts])
  moreover have "let ms0 = ms\<lparr>inbox := (inbox ms)(mp_ChannelName p := msgs)\<rparr>;
      ms1 = addConsumer ms0 (mp_ChannelName p) (inbox ms0 (mp_ChannelName p))
    in ms1\<lparr>chanMsgPos := (chanMsgPos ms1)(mp_ChannelName p := Some p)\<rparr> = seek_start ms p msgs"
    by (simp add: seek_start_def Let_def)
  moreover have "inbox (addConsumer ms0 ch msgs) ch = msgs" for ms0 ch by (simp add: addConsumer_def)
  ultimately show ?thesis using assms(2,6) by (simp add: Let_def)
qed

text \<open>C9: resuming from the position of a flush. A channel was read up to the tick \<open>T\<close>, where the flush kept
  the messages that end after \<open>T\<close> and left the position \<open>p\<close>. \<open>Seek\<close> to \<open>p\<close> in a fresh stream succeeds, has the
  channel continue with the messages after the tick, and buffers, in their order, exactly those of the kept
  messages that also begin after \<open>T\<close>: when no message has \<open>T\<close> inside its interval, nothing is lost and nothing
  is delivered twice.\<close>

theorem tt_Seek_resumes:
  assumes "codec_safe c" and "\<forall>msg \<in> set (xs @ [tk]). decode1 c msg \<noteq> []"
    and "distinct (map msg_ID (xs @ tk # unread))" and "flush_position c subName T xs tk p"
    and "\<forall>m \<in> set (decodes c xs). well_timed T m" and "is_tick (msg_at c tk)" and "BeginTs (msg_at c tk) = T"
    and "CheckCtxValid x now" and "mp_MsgID p \<noteq> []" and "mp_ChannelName p \<in> set (consumers ms)"
    and "cl_BytesToMsgID cl (mp_MsgID p) = Inr i"
    and "cl_Seek cl (mp_ChannelName p) i True w = (Inr (seek_to (mp_MsgID p) (xs @ tk # unread)), w')"
  shows "\<exists>ms'. tt_Seek cl c ignoreBad x [p] now (ms, w) = (Ok True, (ms', w'))
    \<and> inbox ms' (mp_ChannelName p) = unread
    \<and> map untraced (chanMsgBuf ms' (mp_ChannelName p)) = map untraced (filter (seek_keeps T) (keep T (decodes c xs)))
    \<and> chanMsgPos ms' (mp_ChannelName p) = Some p"
proof -
  let ?ch = "mp_ChannelName p"
  obtain pre where pre: "seek_to (mp_MsgID p) (xs @ tk # unread) = pre @ tk # unread" "set pre \<subseteq> set xs"
    "keep T (decodes c xs) = keep T (map (msg_at c) pre)" "mp_Timestamp p = T"
    by (rule resume_suffix [OF assms(1-4)])
  have ns: "\<forall>m \<in> set (map (msg_at c) pre). well_timed T m"
    using assms(2,5) pre(2) decodes_map [of xs c] by auto
  have dec: "\<forall>msg \<in> set (pre @ [tk]). decode1 c msg \<noteq> []" using assms(2) pre(2) by auto
  have stay: "\<forall>msg \<in> set pre. \<not> seek_ends T (msg_at c msg)"
    using ns by (auto simp: well_timed_def seek_ends_def)
  have stop: "seek_ends T (msg_at c tk)" using assms(6,7) by (simp add: seek_ends_def)
  obtain ms' where run: "seek_loop cl c ?ch T (pre @ tk # unread) (seek_start ms p (pre @ tk # unread)) = (Ok True, ms')"
    "inbox ms' ?ch = unread" "map untraced (chanMsgBuf ms' ?ch) = map untraced (filter (seek_keeps T) (map (msg_at c) pre))"
    "chanMsgPos ms' = chanMsgPos (seek_start ms p (pre @ tk # unread))"
    using seek_loop_run [OF assms(1) dec stay stop, of cl ?ch unread "seek_start ms p (pre @ tk # unread)"] by auto
  from tt_Seek_one [OF assms(8-11), of w "pre @ tk # unread" w' c ms'] assms(12) pre(1,4) run
    well_timed_keeps [OF ns] pre(3)
  show ?thesis by simp
qed

section \<open>Examples\<close>

definition resume_client :: "Message list \<Rightarrow> unit mq_client" where
  "resume_client msgs = sample_client\<lparr>cl_Seek := (\<lambda>ch i incl w. (Inr msgs, w))\<rparr>"

text \<open>A position that a flush of the sample channel leaves, and a tick at time 8: the sample delete message
  begins at 7 and ends at 9.\<close>

definition position_1 :: "bytes \<Rightarrow> timestamp \<Rightarrow> MsgPosition" where
  "position_1 i T = \<lparr>mp_ChannelName = ''a'', mp_MsgID = i, mp_MsgGroup = ''sub'', mp_Timestamp = T\<rparr>"

definition early_request :: request where
  "early_request = PlainReq TimeTickMsg \<lparr>pr_Base = Some (sample_base MT_TimeTick 8), pr_CollectionID = 0, pr_Content = []\<rparr>"

definition early_codec :: codec where
  "early_codec = table_codec [DeleteReq sample_delete, early_request]"

lemma sample_msg_at:
  "decode1 sample_codec data_message \<noteq> [] \<and> \<not> is_tick (msg_at sample_codec data_message)
     \<and> BeginTs (msg_at sample_codec data_message) = 7 \<and> EndTs (msg_at sample_codec data_message) = 9"
  "decode1 sample_codec tick_message \<noteq> [] \<and> is_tick (msg_at sample_codec tick_message)
     \<and> BeginTs (msg_at sample_codec tick_message) = 10"
  using sample_decode by (auto simp: msg_at_def is_tick_def)

lemma early_decode:
  "decode1 early_codec data_message \<noteq> [] \<and> \<not> is_tick (msg_at early_codec data_message)
     \<and> BeginTs (msg_at early_codec data_message) = 7 \<and> EndTs (msg_at early_codec data_message) = 9"
  "decode1 early_codec tick_message \<noteq> [] \<and> is_tick (msg_at early_codec tick_message)
     \<and> BeginTs (msg_at early_codec tick_message) = 8"
proof -
  have "carries early_codec data_message (DeleteReq sample_delete)"
    by (simp add: carries_def well_headed_def early_codec_def data_message_def table_codec_def)
      (simp add: sample_delete_def sample_base_def)
  from getTsMsg_carries [OF _ this] obtain m where
    "getTsMsgFromConsumerMsg early_codec data_message = Ok (SetPosition m (position_at data_message))"
    "Req m = normal (DeleteReq sample_delete)" "request_times (normal (DeleteReq sample_delete)) = Ok (BeginTs m, EndTs m)"
    by (auto simp: early_codec_def)
  then show "decode1 early_codec data_message \<noteq> [] \<and> \<not> is_tick (msg_at early_codec data_message)
     \<and> BeginTs (msg_at early_codec data_message) = 7 \<and> EndTs (msg_at early_codec data_message) = 9"
    by (simp add: decode1_def msg_at_def is_tick_def call_simps read_base_def fix_primary_keys_def sample_delete_def
        ts_range_def widen_def sample_base_def)
next
  have "carries early_codec tick_message early_request"
    by (simp add: carries_def well_headed_def early_codec_def tick_message_def table_codec_def)
      (simp add: early_request_def sample_base_def)
  from getTsMsg_carries [OF _ this] obtain m where
    "getTsMsgFromConsumerMsg early_codec tick_message = Ok (SetPosition m (position_at tick_message))"
    "Req m = normal early_request" "request_times (normal early_request) = Ok (BeginTs m, EndTs m)"
    by (auto simp: early_codec_def)
  then show "decode1 early_codec tick_message \<noteq> [] \<and> is_tick (msg_at early_codec tick_message)
     \<and> BeginTs (msg_at early_codec tick_message) = 8"
    by (simp add: decode1_def msg_at_def is_tick_def call_simps read_base_def early_request_def sample_base_def
        header_time_def)
qed

definition later_message :: Message where
  "later_message = data_message\<lparr>msg_ID := [2]\<rparr>"

theorem tt_Seek_resumes_witness:
  "\<exists>ms'. tt_Seek (resume_client [tick_message, later_message]) sample_codec False Background
        [position_1 [1] 10] 0 (sample_tt, ()) = (Ok True, (ms', ()))
     \<and> inbox ms' ''a'' = [later_message] \<and> chanMsgBuf ms' ''a'' = []"
proof -
  let ?cl = "resume_client [tick_message, later_message]" and ?p = "position_1 [1] 10"
  have k: "keep 10 (decodes sample_codec [data_message]) = []"
    using sample_msg_at(1) decode1_msg_at [of sample_codec data_message] by (simp add: keep_def)
  have pos: "Position (msg_at sample_codec tick_message) = Some (position_at tick_message)"
    using msg_at_position sample_msg_at(2) by (simp add: sample_codec_def)
  have "filepath_Base (msg_Topic tick_message) = ''a''" by (simp add: tick_message_def) code_simp
  with k pos have fp: "flush_position sample_codec ''sub'' 10 [data_message] tick_message ?p"
    by (simp add: flush_position_def new_position_def position_of_def position_at_def position_1_def)
      (simp add: tick_message_def)
  have ids: "msg_ID data_message = [0]" "msg_ID tick_message = [1]" "msg_ID later_message = [2]"
    by (simp_all add: data_message_def tick_message_def later_message_def)
  have "\<exists>ms'. tt_Seek ?cl sample_codec False Background [?p] 0 (sample_tt, ()) = (Ok True, (ms', ()))
      \<and> inbox ms' (mp_ChannelName ?p) = [later_message]
      \<and> map untraced (chanMsgBuf ms' (mp_ChannelName ?p)) =
          map untraced (filter (seek_keeps 10) (keep 10 (decodes sample_codec [data_message])))
      \<and> chanMsgPos ms' (mp_ChannelName ?p) = Some ?p"
  proof (rule tt_Seek_resumes [OF _ _ _ fp])
    show "codec_safe sample_codec" by (simp add: sample_codec_def)
    show "cl_BytesToMsgID ?cl (mp_MsgID ?p) = Inr EarliestMessageID"
      by (simp add: resume_client_def sample_client_def)
    show "cl_Seek ?cl (mp_ChannelName ?p) EarliestMessageID True () =
        (Inr (seek_to (mp_MsgID ?p) ([data_message] @ tick_message # [later_message])), ())"
      using ids by (simp add: resume_client_def sample_client_def seek_to_def position_1_def)
  qed (use sample_msg_at ids decode1_msg_at [of sample_codec data_message] sample_start(6) in
      \<open>simp_all add: well_timed_def position_1_def CheckCtxValid_def Background_valid\<close>)
  moreover have "mp_ChannelName ?p = ''a''" by (simp add: position_1_def)
  ultimately show ?thesis unfolding k by (auto simp del: tt_Seek.simps)
qed

text \<open>The position of a flush does not always resume it. With a tick at 8, the flush keeps the delete
  message that begins at 7 and ends at 9 and has the position point to it; \<open>Seek\<close> to that position reads
  the message first, skips it because it begins before the position's time stamp, and ends with an empty
  buffer. The message was not emitted before and is not delivered later.\<close>

lemma tt_Seek_loses_straddling:
  "flush_position early_codec ''sub'' 8 [data_message] tick_message (position_1 [0] 8)
   \<and> keep 8 (decodes early_codec [data_message]) = [msg_at early_codec data_message]
   \<and> (\<exists>ms'. tt_Seek (resume_client [data_message, tick_message]) early_codec False Background
          [position_1 [0] 8] 0 (sample_tt, ()) = (Ok True, (ms', ()))
        \<and> inbox ms' ''a'' = [] \<and> chanMsgBuf ms' ''a'' = [])"
proof -
  let ?cl = "resume_client [data_message, tick_message]" and ?p = "position_1 [0] 8"
  have k: "keep 8 (decodes early_codec [data_message]) = [msg_at early_codec data_message]"
    using early_decode(1) decode1_msg_at [of early_codec data_message] by (simp add: keep_def)
  have pos: "Position (msg_at early_codec data_message) = Some (position_at data_message)"
    using msg_at_position early_decode(1) by (simp add: early_codec_def)
  have "filepath_Base (msg_Topic data_message) = ''a''" by (simp add: data_message_def) code_simp
  with k pos have fp: "flush_position early_codec ''sub'' 8 [data_message] tick_message ?p"
    by (simp add: flush_position_def new_position_def position_of_def position_at_def position_1_def)
      (simp add: data_message_def)
  have safe: "codec_safe early_codec" by (simp add: early_codec_def)
  from seek_loop_run [OF safe, of "[data_message]" tick_message 8 ?cl "''a''" "[]"
      "seek_start sample_tt ?p [data_message, tick_message]"] early_decode
    seek_start_simps(2) [of sample_tt ?p "[data_message, tick_message]"]
  obtain ms' where
    run: "seek_loop ?cl early_codec ''a'' 8 [data_message, tick_message]
        (seek_start sample_tt ?p [data_message, tick_message]) = (Ok True, ms')"
      "inbox ms' ''a'' = []" "chanMsgBuf ms' ''a'' = []"
    by (auto simp: seek_ends_def seek_keeps_def position_1_def)
  have "tt_Seek ?cl early_codec False Background [?p] 0 (sample_tt, ()) = (Ok True, (ms', ()))"
  proof (rule tt_Seek_one [where i = EarliestMessageID and msgs = "[data_message, tick_message]"])
    show "seek_loop ?cl early_codec (mp_ChannelName ?p) (mp_Timestamp ?p) [data_message, tick_message]
        (seek_start sample_tt ?p [data_message, tick_message]) = (Ok True, ms')"
      using run(1) unfolding position_1_def by (simp only: MsgPosition.simps)
  qed (use sample_start(6) in
      \<open>simp_all add: position_1_def CheckCtxValid_def Background_valid resume_client_def sample_client_def\<close>)
  with k fp run show ?thesis by blast
qed

end
