(* ===== verification/TtProgress.thy ===== *)
theory TtProgress
  imports TtStream
begin

text \<open>
  Progress of the time-tick stream: when the next tick of every channel is the same, the loop can run through
  a whole turn, and the turn sends the pack that ends at that tick. One turn is traced through the step
  relation of the stream: the guard starts a goroutine for each channel, the round ends, the barrier flushes,
  the pack is sent.
\<close>

section \<open>The barrier when all channels have reached a tick\<close>

lemma flush_channel_finite:
  assumes "flush_channel c T ms ch = Ok ms'"
    and "finite (dom (startPositions ms))" and "finite (dom (endPositions ms))"
  shows "finite (dom (startPositions ms')) \<and> finite (dom (endPositions ms'))"
proof (cases "chanMsgBuf ms ch = []")
  case True
  with assms show ?thesis by (simp add: flush_channel_def)
next
  case False
  with assms show ?thesis
    by (auto simp: flush_channel_def outcome_simps Let_def split: option.splits)
qed

lemma flush_all_finite:
  "foldO (flush_channel c T) ms walk = Ok ms' \<Longrightarrow> finite (dom (startPositions ms)) \<Longrightarrow>
   finite (dom (endPositions ms)) \<Longrightarrow> finite (dom (startPositions ms')) \<and> finite (dom (endPositions ms'))"
proof (induction walk arbitrary: ms)
  case (Cons ch walk)
  then obtain ms1 where 1: "flush_channel c T ms ch = Ok ms1" "foldO (flush_channel c T) ms1 walk = Ok ms'"
    by (auto simp: outcome_simps)
  from flush_channel_finite [OF 1(1)] Cons.prems(2,3) Cons.IH [OF 1(2)] show ?case by blast
qed simp

lemma barrier_reached:
  assumes "barrier c walk ms = Ok ms'" and "is_walk walk (set (consumers ms))" and "consumers ms \<noteq> []"
    and "\<forall>ch \<in> set (consumers ms). chanTtMsgTime ms ch = T" and "lastTimeStamp ms < T"
    and "finite (dom (startPositions ms))" and "finite (dom (endPositions ms))"
  shows "flush_at T walk ms ms' \<and> (\<forall>ch \<in> set (consumers ms). \<not> chanTtMsgSync ms' ch)
    \<and> finite (dom (startPositions ms')) \<and> finite (dom (endPositions ms'))"
proof -
  let ?ms1 = "ms\<lparr>chanTtMsgSync := (\<lambda>ch. if ch \<in> set (consumers ms) then False else chanTtMsgSync ms ch)\<rparr>"
  have "set (map (chanTtMsgTime ms) (consumers ms)) \<subseteq> {T}" using assms(4) by auto
  then have "length (remdups (map (chanTtMsgTime ms) (consumers ms))) \<le> 1"
    unfolding length_remdups_le_1 by blast
  moreover have "maxTime ms = T"
  proof -
    have "chanTtMsgTime ms ` set (consumers ms) = {T}" using assms(3,4) by (auto simp: image_iff) (meson list.set_sel(1))
    then show ?thesis by (simp add: maxTime_eq max_def)
  qed
  ultimately have a: "allChanReachSameTtMsg ms = ((T, True), ?ms1)" by (simp add: allChanReachSameTtMsg_def)
  have "\<not> T \<le> lastTimeStamp ms" using assms(5) by simp
  with assms(1) a have f: "foldO (flush_channel c T) (?ms1\<lparr>endTs := T\<rparr>) walk = Ok ms'"
    by (simp add: barrier_def)
  have d: "distinct walk" "set walk = set (consumers ms)" using assms(2) by (simp_all add: is_walk_def)
  from flush_all_Ok [OF f d(1)] assms(3,4,5) d(2) have "flush_at T walk ms ms'"
    by (simp add: flush_at_def frame_def fun_eq_iff)
  moreover from flush_all_Ok [OF f d(1)] have "\<forall>ch \<in> set (consumers ms). \<not> chanTtMsgSync ms' ch" by simp
  moreover from flush_all_finite [OF f] assms(6,7) have
    "finite (dom (startPositions ms')) \<and> finite (dom (endPositions ms'))" by simp
  ultimately show ?thesis by blast
qed

section \<open>One turn\<close>

text \<open>A state between two turns in which every channel has the tick \<open>T\<close> coming next: \<open>rest\<close> is what each
  channel has behind it, \<open>buf\<close> its buffer once the tick is read.\<close>

definition tick_ahead ::
  "codec \<Rightarrow> tt_stream \<Rightarrow> timestamp \<Rightarrow> (string \<Rightarrow> Message list) \<Rightarrow> (string \<Rightarrow> TsMsg list) \<Rightarrow> bool" where
  "tick_ahead c s T rest buf \<longleftrightarrow> phase s = Outer \<and> \<not> ctx_cancelled s \<and> consumers s \<noteq> [] \<and> distinct (consumers s)
     \<and> lastTimeStamp s < T \<and> safe_inv s
     \<and> (\<forall>ch \<in> set (consumers s). \<not> chanTtMsgSync s ch \<and> run_view c (view s ch) = ((rest ch, buf ch, T), True))"

lemma erase_fields:
  assumes "erase a = erase b"
  shows "consumers a = consumers b" "lastTimeStamp a = lastTimeStamp b" "receiveBuf a = receiveBuf b"
    "endTs a = endTs b" "chanTtMsgSync a = chanTtMsgSync b" "ctx_cancelled a = ctx_cancelled b"
    "timeTickBuf a = timeTickBuf b" "startPositions a = startPositions b" "endPositions a = endPositions b"
proof -
  note e = assms [unfolded erase_def]
  show "consumers a = consumers b" using arg_cong [OF e, of consumers] by simp
  show "lastTimeStamp a = lastTimeStamp b" using arg_cong [OF e, of lastTimeStamp] by simp
  show "receiveBuf a = receiveBuf b" using arg_cong [OF e, of receiveBuf] by simp
  show "endTs a = endTs b" using arg_cong [OF e, of endTs] by simp
  show "chanTtMsgSync a = chanTtMsgSync b" using arg_cong [OF e, of chanTtMsgSync] by simp
  show "ctx_cancelled a = ctx_cancelled b" using arg_cong [OF e, of ctx_cancelled] by simp
  show "timeTickBuf a = timeTickBuf b" using arg_cong [OF e, of timeTickBuf] by simp
  show "startPositions a = startPositions b" using arg_cong [OF e, of startPositions] by simp
  show "endPositions a = endPositions b" using arg_cong [OF e, of endPositions] by simp
qed

lemma read_steps_run: "(read_step c)\<^sup>*\<^sup>* a b \<Longrightarrow> tt_run cf c a b"
  by (induction rule: rtranclp_induct) (auto intro: tt_step.consume rtranclp.rtrancl_into_rtrancl)

text \<open>The first half of a turn: all goroutines have ended.\<close>

lemma turn_collects:
  assumes "codec_safe c" and "tick_ahead c s T rest buf"
  obtains s3 where "tt_run cf c s s3" "phase s3 = Collect []" "erase s3 = erase (clear_turn s)"
    "\<forall>ch \<in> set (consumers s). view s3 ch = (rest ch, buf ch, T)"
proof -
  let ?s1 = "(clear_turn s)\<lparr>phase := Guard\<rparr>" and ?s2 = "(clear_turn s)\<lparr>phase := Collect (consumers s)\<rparr>"
  from assms(2) have a: "phase s = Outer" "\<not> ctx_cancelled s" "distinct (consumers s)"
    "\<And>ch. ch \<in> set (consumers s) \<Longrightarrow> \<not> chanTtMsgSync s ch"
    "\<And>ch. ch \<in> set (consumers s) \<Longrightarrow> run_view c (view s ch) = ((rest ch, buf ch, T), True)"
    by (auto simp: tick_ahead_def)
  have 1: "tt_step cf c s ?s1" using tt_step.outer [of s cf c] a(1,2) by simp
  have "filter (\<lambda>ch. \<not> chanTtMsgSync s ch) (consumers s) = consumers s" using a(4) by simp
  then have 2: "tt_step cf c ?s1 ?s2"
    using tt_step.guard [of ?s1 cf 0 c] a(2) by (simp add: continueBuffering_def)
  have "tick_waiting c (inbox ?s2 ch)" if "ch \<in> set (consumers s)" for ch
    using a(5) [OF that] local_run_ends [of c "inbox s ch" "chanMsgBuf s ch" "chanTtMsgTime s ch"]
    by (simp add: run_view_def view_def)
  with run_round [OF assms(1), of ?s2 "consumers s"] a(3) obtain s3 where
    3: "(read_step c)\<^sup>*\<^sup>* ?s2 s3" "phase s3 = Collect []" by auto
  have r: "run_view c (view ?s2 ch) = (view s3 ch, True)" if "ch \<in> set (consumers s)" for ch
    using round_end [OF 3(1) _ a(3) 3(2)] that by simp
  have "view s3 ch = (rest ch, buf ch, T)" if "ch \<in> set (consumers s)" for ch
    using r [OF that] a(5) [OF that] by (simp add: view_def)
  moreover have "erase s3 = erase (clear_turn s)" using round_end [OF 3(1) _ a(3) 3(2)] by simp
  moreover have "tt_run cf c s s3"
    using 1 2 read_steps_run [OF 3(1)] by (meson converse_rtranclp_into_rtranclp)
  ultimately show thesis using that 3(2) by blast
qed

lemma finite_walk: "finite (dom m) \<Longrightarrow> \<exists>walk. is_walk walk (dom m)"
  using finite_distinct_list [of "dom m"] by (auto simp: is_walk_def)

text \<open>A step outside pursuit mode is a step of pursuit mode, too: the clock may show that the stream has
  caught up.\<close>

lemma normal_step_pursuit:
  assumes "tt_step (cf\<lparr>EnablePursuitMode := False\<rparr>) c s s'"
  shows "tt_step cf c s s'"
  using assms
proof (cases rule: tt_step.cases)
  case (guard now)
  then have "continueBuffering cf now s" by (auto simp: continueBuffering_def split: if_splits)
  with guard show ?thesis using tt_step.guard by blast
next
  case (send now walk1 walk2 ms1)
  let ?now = "fst (ParseTS (endTs s)) + PursuitLag cf"
  have "\<not> continueBuffering cf ?now s" using send(3) by (auto simp: continueBuffering_def split: if_splits)
  with send show ?thesis using tt_step.send by blast
next
  case (send_done now)
  let ?now = "fst (ParseTS (endTs s)) + PursuitLag cf"
  have "\<not> continueBuffering cf ?now s" using send_done(4) by (simp add: continueBuffering_def)
  with send_done show ?thesis using tt_step.send_done by blast
next
  case started
  then show ?thesis using tt_step.started [of s cf c] by simp
qed (auto intro: tt_step.intros)

lemma normal_run_pursuit: "tt_run (cf\<lparr>EnablePursuitMode := False\<rparr>) c s s' \<Longrightarrow> tt_run cf c s s'"
  by (induction rule: rtranclp_induct) (auto intro: normal_step_pursuit rtranclp.rtrancl_into_rtrancl)

lemma turn_sends_normal:
  assumes "codec_safe c" and "\<not> EnablePursuitMode cf" and "tick_ahead c s T rest buf"
  shows "\<exists>g s' pk. tt_run cf c s g \<and> phase g = Guard \<and> endTs g = T \<and> \<not> ctx_cancelled g \<and> tt_step cf c g s'
    \<and> phase s' = Outer \<and> safe_inv s' \<and> \<not> ctx_cancelled s'
    \<and> consumers s' = consumers s \<and> lastTimeStamp s' = T \<and> receiveBuf s' = receiveBuf s @ [pk]
    \<and> Pack_BeginTs pk = lastTimeStamp s \<and> Pack_EndTs pk = T
    \<and> Msgs pk = dedupe (concat (map (\<lambda>ch. ready T (buf ch)) (consumers s)))
    \<and> (\<forall>ch \<in> set (consumers s). inbox s' ch = rest ch \<and> chanMsgBuf s' ch = keep T (buf ch)
         \<and> chanTtMsgTime s' ch = T \<and> \<not> chanTtMsgSync s' ch)"
proof -
  obtain s3 where 3: "tt_run cf c s s3" "phase s3 = Collect []" "erase s3 = erase (clear_turn s)"
    "\<forall>ch \<in> set (consumers s). view s3 ch = (rest ch, buf ch, T)"
    by (rule turn_collects [where cf = cf, OF assms(1,3)])
  from assms(3) have a: "\<not> ctx_cancelled s" "consumers s \<noteq> []" "distinct (consumers s)" "lastTimeStamp s < T" "safe_inv s"
    by (auto simp: tick_ahead_def)
  note e = erase_fields [OF 3(3)]
  have v: "inbox s3 ch = rest ch" "chanMsgBuf s3 ch = buf ch" "chanTtMsgTime s3 ch = T" if "ch \<in> set (consumers s)" for ch
    using 3(4) that by (simp_all add: view_def)
  have inv3: "safe_inv s3" using 3(1) a(5) by (rule tt_run_invariant) (rule safe_inv_step [OF assms(1,2)])
  have w: "is_walk (consumers s) (set (consumers s3))" using e(1) a(3) by (simp add: is_walk_def)
  obtain s4 where 4: "barrier c (consumers s) s3 = Ok s4" using safe_barrier [OF inv3 3(2) w] by blast
  have b: "flush_at T (consumers s) s3 s4 \<and> (\<forall>ch \<in> set (consumers s3). \<not> chanTtMsgSync s4 ch)
      \<and> finite (dom (startPositions s4)) \<and> finite (dom (endPositions s4))"
    by (rule barrier_reached [OF 4 w]) (use e v a in simp_all)
  note f = b [THEN conjunct1, unfolded flush_at_def frame_def]
  let ?s5 = "s4\<lparr>phase := Guard\<rparr>"
  have r5: "tt_run cf c s ?s5" using 3(1) tt_step.reach [OF 3(2) w 4, of cf] by (rule rtranclp.rtrancl_into_rtrancl)
  then have inv5: "safe_inv ?s5" using a(5) by (rule tt_run_invariant) (rule safe_inv_step [OF assms(1,2)])
  have "T \<noteq> 0" using a(4) by auto
  obtain walk1 walk2 where ws: "is_walk walk1 (dom (startPositions ?s5))" "is_walk walk2 (dom (endPositions ?s5))"
    using b finite_walk [of "startPositions s4"] finite_walk [of "endPositions s4"] by auto
  obtain out where "unique_msgs (NewSet []) (timeTickBuf ?s5) = Ok out"
    using unique_msgs_total [of "timeTickBuf ?s5" "NewSet []"] inv5 by (auto simp: safe_inv_def)
  then have "\<exists>s6. emit walk1 walk2 ?s5 = Ok s6" by (cases "0 < endTs ?s5") (simp_all add: emit_def)
  then obtain s6 where 6: "emit walk1 walk2 ?s5 = Ok s6" ..
  have "\<not> continueBuffering cf 0 ?s5" using assms(2) f \<open>T \<noteq> 0\<close> by (simp add: continueBuffering_def)
  from tt_step.send [OF _ this ws 6] have last: "tt_step cf c ?s5 ((clear_turn s6)\<lparr>phase := Outer\<rparr>)" by simp
  with r5 have run: "tt_run cf c s ((clear_turn s6)\<lparr>phase := Outer\<rparr>)" (is "tt_run cf c s ?s'")
    by (rule rtranclp.rtrancl_into_rtrancl)
  then have inv6: "safe_inv ?s'" using a(5) by (rule tt_run_invariant) (rule safe_inv_step [OF assms(1,2)])
  have s6: "s6 = ?s5\<lparr>receiveBuf := receiveBuf ?s5 @ [sent walk1 walk2 ?s5], lastTimeStamp := endTs ?s5\<rparr>"
    using emit_Ok [OF 6] f \<open>T \<noteq> 0\<close> by (simp add: word_neq_0_conv)
  have tb: "timeTickBuf s4 = concat (map (\<lambda>ch. ready T (buf ch)) (consumers s))"
    using f e v by (simp cong: map_cong)
  show ?thesis
  proof (rule exI [of _ ?s5], rule exI [of _ ?s'], rule exI [of _ "sent walk1 walk2 ?s5"], intro conjI)
    show "\<forall>ch \<in> set (consumers s). inbox ?s' ch = rest ch \<and> chanMsgBuf ?s' ch = keep T (buf ch)
         \<and> chanTtMsgTime ?s' ch = T \<and> \<not> chanTtMsgSync ?s' ch"
      using f b e v s6 by simp
  qed (use r5 last inv6 f e a s6 tb in \<open>simp_all add: sent_def\<close>)
qed

lemma turn_sends_pack:
  assumes "codec_safe c" and "tick_ahead c s T rest buf"
  shows "\<exists>g s' pk. tt_run cf c s g \<and> phase g = Guard \<and> endTs g = T
    \<and> (\<forall>now. continueBuffering cf now g \<longleftrightarrow>
         EnablePursuitMode cf \<and> buf_size g \<le> PursuitBufferSize cf \<and> PursuitLag cf < now - fst (ParseTS T))
    \<and> tt_step cf c g s' \<and> phase s' = Outer \<and> safe_inv s' \<and> \<not> ctx_cancelled s'
    \<and> consumers s' = consumers s \<and> lastTimeStamp s' = T \<and> receiveBuf s' = receiveBuf s @ [pk]
    \<and> Pack_BeginTs pk = lastTimeStamp s \<and> Pack_EndTs pk = T
    \<and> Msgs pk = dedupe (concat (map (\<lambda>ch. ready T (buf ch)) (consumers s)))
    \<and> (\<forall>ch \<in> set (consumers s). inbox s' ch = rest ch \<and> chanMsgBuf s' ch = keep T (buf ch)
         \<and> chanTtMsgTime s' ch = T \<and> \<not> chanTtMsgSync s' ch)"
proof -
  let ?cf = "cf\<lparr>EnablePursuitMode := False\<rparr>"
  have np: "\<not> EnablePursuitMode ?cf" by simp
  from turn_sends_normal [OF assms(1) np assms(2)] obtain g s' pk where
    g: "tt_run ?cf c s g" "phase g = Guard" "endTs g = T" "\<not> ctx_cancelled g" "tt_step ?cf c g s'"
    and s': "phase s' = Outer \<and> safe_inv s' \<and> \<not> ctx_cancelled s'
    \<and> consumers s' = consumers s \<and> lastTimeStamp s' = T \<and> receiveBuf s' = receiveBuf s @ [pk]
    \<and> Pack_BeginTs pk = lastTimeStamp s \<and> Pack_EndTs pk = T
    \<and> Msgs pk = dedupe (concat (map (\<lambda>ch. ready T (buf ch)) (consumers s)))
    \<and> (\<forall>ch \<in> set (consumers s). inbox s' ch = rest ch \<and> chanMsgBuf s' ch = keep T (buf ch)
         \<and> chanTtMsgTime s' ch = T \<and> \<not> chanTtMsgSync s' ch)" by blast
  have "T \<noteq> 0" using assms(2) by (auto simp: tick_ahead_def)
  then have "continueBuffering cf now g \<longleftrightarrow>
      EnablePursuitMode cf \<and> buf_size g \<le> PursuitBufferSize cf \<and> PursuitLag cf < now - fst (ParseTS T)" for now
    using g(3,4) by (auto simp: continueBuffering_def not_less)
  with normal_run_pursuit [OF g(1)] g(2,3) normal_step_pursuit [OF g(5)] s' show ?thesis by blast
qed

lemma turn_runs:
  assumes "codec_safe c" and "tick_ahead c s T rest buf"
  shows "\<exists>s' pk. tt_run cf c s s' \<and> phase s' = Outer \<and> safe_inv s' \<and> \<not> ctx_cancelled s'
    \<and> consumers s' = consumers s \<and> lastTimeStamp s' = T \<and> receiveBuf s' = receiveBuf s @ [pk]
    \<and> Pack_BeginTs pk = lastTimeStamp s \<and> Pack_EndTs pk = T
    \<and> (\<forall>ch \<in> set (consumers s). inbox s' ch = rest ch \<and> chanMsgBuf s' ch = keep T (buf ch)
         \<and> chanTtMsgTime s' ch = T \<and> \<not> chanTtMsgSync s' ch)"
proof -
  from turn_sends_pack [OF assms, of cf] obtain g s' pk where
    g: "tt_run cf c s g" "tt_step cf c g s'"
    and s': "phase s' = Outer \<and> safe_inv s' \<and> \<not> ctx_cancelled s'
    \<and> consumers s' = consumers s \<and> lastTimeStamp s' = T \<and> receiveBuf s' = receiveBuf s @ [pk]
    \<and> Pack_BeginTs pk = lastTimeStamp s \<and> Pack_EndTs pk = T
    \<and> (\<forall>ch \<in> set (consumers s). inbox s' ch = rest ch \<and> chanMsgBuf s' ch = keep T (buf ch)
         \<and> chanTtMsgTime s' ch = T \<and> \<not> chanTtMsgSync s' ch)" by blast
  from g have "tt_run cf c s s'" by (rule rtranclp.rtrancl_into_rtrancl)
  with s' show ?thesis by blast
qed

section \<open>Two turns of an example\<close>

definition tick_at :: "timestamp \<Rightarrow> request" where
  "tick_at t = PlainReq TimeTickMsg \<lparr>pr_Base = Some (sample_base MT_TimeTick t), pr_CollectionID = 0, pr_Content = []\<rparr>"

definition tick_A :: timestamp where "tick_A = 2 ^ 30"
definition tick_B :: timestamp where "tick_B = 2 ^ 31"

definition two_codec :: codec where
  "two_codec = table_codec [DeleteReq sample_delete, tick_at tick_A, tick_at tick_B]"

definition payload_message :: "bytes \<Rightarrow> Message" where
  "payload_message p = \<lparr>msg_Topic = ''t/a'', msg_ID = p, msg_Payload = Some p, msg_Properties = []\<rparr>"

abbreviation "two_messages \<equiv> [payload_message [], payload_message [0], payload_message [0, 0]]"

definition two_start :: tt_stream where
  "two_start = addConsumer (NewMqTtMsgStream True) ''a'' two_messages"

lemma two_carries:
  "carries two_codec (payload_message []) (DeleteReq sample_delete)"
  "carries two_codec (payload_message [0]) (tick_at tick_A)"
  "carries two_codec (payload_message [0, 0]) (tick_at tick_B)"
  by (simp_all add: carries_def well_headed_def two_codec_def payload_message_def table_codec_def tick_at_def
      tick_A_def tick_B_def)
    (simp_all add: sample_delete_def sample_base_def)

lemma carries_decode:
  assumes "codec_laws c" and "carries c msg r"
  shows "\<exists>m. decode1 c msg = [m] \<and> Req m = normal r \<and> request_times (normal r) = Ok (BeginTs m, EndTs m)"
  using getTsMsg_carries [OF assms] by (auto simp: decode1_def)

lemma tick_decode:
  assumes "codec_laws c" and "carries c msg (tick_at t)"
  shows "\<exists>m. decode1 c msg = [m] \<and> is_tick m \<and> tick_time m = t"
  using carries_decode [OF assms]
  by (auto simp: is_tick_def tick_time_def tick_at_def call_simps read_base_def sample_base_def)

lemma two_laws [simp]: "codec_laws two_codec" "codec_safe two_codec"
  by (simp_all add: two_codec_def)

lemma two_data: "\<exists>m. decode1 two_codec (payload_message []) = [m] \<and> \<not> is_tick m \<and> BeginTs m = 7 \<and> EndTs m = 9
    \<and> Req m = normal (DeleteReq sample_delete)"
  using carries_decode [OF two_laws(1) two_carries(1)]
  by (auto simp: is_tick_def call_simps read_base_def fix_primary_keys_def sample_delete_def ts_range_def widen_def
      sample_base_def)

lemma two_ticks:
  "\<exists>m. decode1 two_codec (payload_message [0]) = [m] \<and> is_tick m \<and> tick_time m = tick_A"
  "\<exists>m. decode1 two_codec (payload_message [0, 0]) = [m] \<and> is_tick m \<and> tick_time m = tick_B"
  using tick_decode [OF two_laws(1) two_carries(2)] tick_decode [OF two_laws(1) two_carries(3)] by auto

lemma two_start_simps:
  "receiveBuf two_start = []" "endTs two_start = 0" "lastTimeStamp two_start = 0" "timeTickBuf two_start = []"
  "phase two_start = Start" "consumers two_start = [''a'']" "chanTtMsgTime two_start ''a'' = 0"
  "inbox two_start ''a'' = two_messages" "chanMsgBuf two_start ''a'' = []" "\<not> ctx_cancelled two_start"
  "\<not> chanTtMsgSync two_start ''a''" "chanMsgPos two_start ''a'' \<noteq> None" "syncConsumer_tokens two_start = 1"
  by (simp_all add: two_start_def addConsumer_def NewMqTtMsgStream_def NewMqMsgStream_def stream.defs set_key_def)

lemma two_turns:
  "\<exists>s' p1 p2. tt_run sample_cfg two_codec two_start s' \<and> receiveBuf s' = [p1, p2]
     \<and> Pack_BeginTs p1 = 0 \<and> Pack_EndTs p1 = tick_A \<and> Pack_BeginTs p2 = tick_A \<and> Pack_EndTs p2 = tick_B"
proof -
  obtain m0 where m0: "decode1 two_codec (payload_message []) = [m0]" "\<not> is_tick m0" using two_data by blast
  obtain mA where mA: "decode1 two_codec (payload_message [0]) = [mA]" "is_tick mA" "tick_time mA = tick_A"
    using two_ticks(1) by blast
  obtain mB where mB: "decode1 two_codec (payload_message [0, 0]) = [mB]" "is_tick mB" "tick_time mB = tick_B"
    using two_ticks(2) by blast
  let ?s1 = "two_start\<lparr>syncConsumer_tokens := syncConsumer_tokens two_start - 1, phase := Outer\<rparr>"
  note s = two_start_simps
  have run1: "tt_run sample_cfg two_codec two_start ?s1"
    using tt_step.started [of two_start sample_cfg two_codec] s(5,13) by simp
  have inv1: "safe_inv ?s1"
    using s by (simp add: safe_inv_def turn_ok_def frontier_def)
  have A: "tick_ahead two_codec ?s1 tick_A (\<lambda>_. [payload_message [0, 0]]) (\<lambda>_. [m0, mA])"
    using s inv1 m0 mA by (simp add: tick_ahead_def run_view_def view_def tick_A_def)
  obtain s2 p1 where 2: "tt_run sample_cfg two_codec ?s1 s2" "phase s2 = Outer" "safe_inv s2" "\<not> ctx_cancelled s2"
    "consumers s2 = consumers ?s1" "lastTimeStamp s2 = tick_A" "receiveBuf s2 = receiveBuf ?s1 @ [p1]"
    "Pack_BeginTs p1 = lastTimeStamp ?s1" "Pack_EndTs p1 = tick_A"
    "\<forall>ch \<in> set (consumers ?s1). inbox s2 ch = [payload_message [0, 0]] \<and> chanMsgBuf s2 ch = keep tick_A [m0, mA]
         \<and> chanTtMsgTime s2 ch = tick_A \<and> \<not> chanTtMsgSync s2 ch"
    using turn_runs [OF two_laws(2) A, of sample_cfg] by blast
  have B: "tick_ahead two_codec s2 tick_B (\<lambda>_. []) (\<lambda>_. keep tick_A [m0, mA] @ [mB])"
    using 2(2-6,10) s(6) mB by (simp add: tick_ahead_def run_view_def view_def tick_A_def tick_B_def)
  obtain s3 p2 where 3: "tt_run sample_cfg two_codec s2 s3" "receiveBuf s3 = receiveBuf s2 @ [p2]"
    "Pack_BeginTs p2 = lastTimeStamp s2" "Pack_EndTs p2 = tick_B"
    using turn_runs [OF two_laws(2) B, of sample_cfg] by blast
  from run1 2(1) 3(1) have "tt_run sample_cfg two_codec two_start s3" by (meson rtranclp_trans)
  moreover have "receiveBuf ?s1 = []" "lastTimeStamp ?s1 = 0" using s(1,3) by simp_all
  ultimately show ?thesis using 2(6-9) 3(2-4) by (intro exI [of _ s3] exI [of _ p1] exI [of _ p2]) simp
qed

section \<open>Property\<close>

text \<open>C5: the stream makes progress. From any state between two turns in which the context is alive and the
  next tick of every channel is the same \<open>T\<close>, later than the last pack, the loop can run to the guard with
  the turn collected, in every configuration. There it buffers on only when pursuit mode is on, the collected
  messages fit the buffer limit and the clock is further than the lag behind \<open>T\<close>; otherwise it sends the pack
  from the end of the last one to \<open>T\<close> that holds, without duplicates, the messages read up to that tick that
  end by then. Afterwards each channel continues behind its tick with the messages that were kept, and the
  stream is ready for the next turn.\<close>

theorem tt_turn_sends:
  assumes "codec_safe c" and "tick_ahead c s T rest buf"
  shows "\<exists>g s' pk. tt_run cf c s g \<and> phase g = Guard \<and> endTs g = T
    \<and> (\<forall>now. continueBuffering cf now g \<longleftrightarrow>
         EnablePursuitMode cf \<and> buf_size g \<le> PursuitBufferSize cf \<and> PursuitLag cf < now - fst (ParseTS T))
    \<and> tt_step cf c g s' \<and> phase s' = Outer \<and> safe_inv s' \<and> \<not> ctx_cancelled s'
    \<and> consumers s' = consumers s \<and> lastTimeStamp s' = T \<and> receiveBuf s' = receiveBuf s @ [pk]
    \<and> Pack_BeginTs pk = lastTimeStamp s \<and> Pack_EndTs pk = T
    \<and> Msgs pk = dedupe (concat (map (\<lambda>ch. ready T (buf ch)) (consumers s)))
    \<and> (\<forall>ch \<in> set (consumers s). inbox s' ch = rest ch \<and> chanMsgBuf s' ch = keep T (buf ch)
         \<and> chanTtMsgTime s' ch = T \<and> \<not> chanTtMsgSync s' ch)"
  by (rule turn_sends_pack [OF assms])

definition pursuit_cfg :: cfg where
  "pursuit_cfg = \<lparr>EnablePursuitMode = True, PursuitBufferSize = 8, PursuitLag = 10000000000\<rparr>"

theorem tt_turn_sends_witness:
  "\<exists>s' pk. tt_run pursuit_cfg two_codec (two_start\<lparr>phase := Outer\<rparr>) s' \<and> receiveBuf s' = [pk]
     \<and> Pack_EndTs pk = tick_A \<and> inbox s' ''a'' = [payload_message [0, 0]]"
proof -
  obtain m0 where m0: "decode1 two_codec (payload_message []) = [m0]" "\<not> is_tick m0" using two_data by blast
  obtain mA where mA: "decode1 two_codec (payload_message [0]) = [mA]" "is_tick mA" "tick_time mA = tick_A"
    using two_ticks(1) by blast
  let ?s = "two_start\<lparr>phase := Outer\<rparr>"
  have "tick_ahead two_codec ?s tick_A (\<lambda>_. [payload_message [0, 0]]) (\<lambda>_. [m0, mA])"
    using two_start_simps m0 mA
    by (simp add: tick_ahead_def run_view_def view_def tick_A_def safe_inv_def turn_ok_def frontier_def)
  from tt_turn_sends [OF two_laws(2) this, of pursuit_cfg] obtain g s' pk where
    "tt_run pursuit_cfg two_codec ?s g" "tt_step pursuit_cfg two_codec g s'" "receiveBuf s' = receiveBuf ?s @ [pk]"
    "Pack_EndTs pk = tick_A" "\<forall>ch \<in> set (consumers ?s). inbox s' ch = [payload_message [0, 0]]" by auto
  moreover from this(1,2) have "tt_run pursuit_cfg two_codec ?s s'" by (rule rtranclp.rtrancl_into_rtrancl)
  ultimately show ?thesis using two_start_simps(1,6) by (intro exI [of _ s'] exI [of _ pk]) simp
qed

end
