(* ===== verification/Recover.thy ===== *)
theory Recover
  imports TtSeek TtProgress
begin

text \<open>
  The program itself, cmd/main.go: it reads a collection's channel from a given position on and replays the
  insertions and deletions into a running server, until it reaches messages younger than its own start or
  the collection's drop. \<open>ToPhysicalChannel\<close> is of pkg/util/funcutil/func.go.

  The server's client is library code: the record \<open>milvus\<close> holds the four functions used of it, over a world
  of type \<open>'w\<close> and columns of type \<open>'c\<close>. Decoding a position from its bytes is a parameter, too. Base64 is
  the decoder of Go's standard library (\<open>StdEncoding\<close>, not strict). \<open>recover_msg\<close>, \<open>recover_msgs\<close> and
  \<open>recover_packs\<close> are the nested loops of \<open>main\<close>, \<open>main_setup\<close> what comes before them.
\<close>

section \<open>Setting up\<close>

record flags =
  collectionName :: string
  collectionID :: int
  topic :: string
  sub_pos :: string
  subName :: string
  autoIDFieldName :: string

definition base64_digit :: "char \<Rightarrow> nat option" where
  "base64_digit ch =
     (let n = of_char ch :: nat
      in if 65 \<le> n \<and> n \<le> 90 then Some (n - 65)
         else if 97 \<le> n \<and> n \<le> 122 then Some (n - 97 + 26)
         else if 48 \<le> n \<and> n \<le> 57 then Some (n - 48 + 52)
         else if n = 43 then Some 62 else if n = 47 then Some 63 else None)"

text \<open>The bytes of a group of four digits, as one number of 24 bits.\<close>

definition base64_bytes :: "nat \<Rightarrow> nat \<Rightarrow> nat \<Rightarrow> nat \<Rightarrow> bytes" where
  "base64_bytes a b c d =
     (let v = a * 262144 + b * 4096 + c * 64 + d
      in [of_nat (v div 65536), of_nat (v div 256 mod 256), of_nat (v mod 256)])"

fun base64_groups :: "string \<Rightarrow> bytes option" where
  "base64_groups [] = Some []"
| "base64_groups (a # b # c # d # rest) =
     (case (base64_digit a, base64_digit b, base64_digit c, base64_digit d) of
        (Some a', Some b', Some c', Some d') \<Rightarrow>
          (case base64_groups rest of None \<Rightarrow> None | Some bs \<Rightarrow> Some (base64_bytes a' b' c' d' @ bs))
      | (Some a', Some b', Some c', None) \<Rightarrow>
          (if d = CHR ''='' \<and> rest = [] then Some (take 2 (base64_bytes a' b' c' 0)) else None)
      | (Some a', Some b', None, None) \<Rightarrow>
          (if c = CHR ''='' \<and> d = CHR ''='' \<and> rest = [] then Some (take 1 (base64_bytes a' b' 0 0)) else None)
      | _ \<Rightarrow> None)"
| "base64_groups _ = None"

definition DecodeString :: "string \<Rightarrow> bytes option" where
  "DecodeString s = base64_groups (filter (\<lambda>ch. ch \<noteq> CHR 0x0A \<and> ch \<noteq> CHR 0x0D) s)"

fun LastIndex :: "string \<Rightarrow> char \<Rightarrow> nat option" where
  "LastIndex [] ch = None"
| "LastIndex (x # xs) ch =
     (case LastIndex xs ch of Some i \<Rightarrow> Some (Suc i) | None \<Rightarrow> if x = ch then Some 0 else None)"

definition ToPhysicalChannel :: "string \<Rightarrow> string" where
  "ToPhysicalChannel vchannel =
     (case LastIndex vchannel (CHR ''_'') of None \<Rightarrow> vchannel | Some index \<Rightarrow> take index vchannel)"

text \<open>Everything before the loop; every failure of it is a panic. \<open>unmarshal_position\<close> decodes the position,
  \<open>ttMsgEnabled\<close> and \<open>ignoreBad\<close> are configuration, \<open>now\<close> and \<open>now2\<close> the times of the two calls, \<open>stream_err\<close>
  and \<open>client_err\<close> the errors of the two constructors. The flag of the result is false when \<open>Seek\<close> is still
  waiting for messages.\<close>

definition main_setup ::
  "flags \<Rightarrow> (bytes \<Rightarrow> go_error + MsgPosition) \<Rightarrow> go_error option \<Rightarrow> go_error option \<Rightarrow> 'w mq_client \<Rightarrow> codec \<Rightarrow>
     bool \<Rightarrow> bool \<Rightarrow> int \<Rightarrow> int \<Rightarrow> 'w \<Rightarrow> bool res \<times> (tt_stream \<times> 'w)" where
  "main_setup fl unmarshal_position stream_err client_err cl c ttMsgEnabled ignoreBad now now2 w =
     (let stream = NewMqTtMsgStream ttMsgEnabled
      in case DecodeString (sub_pos fl) of
           None \<Rightarrow> (Panic ''decode pos failed!, '', (stream, w))
         | Some positionByte \<Rightarrow>
        (case unmarshal_position positionByte of
           Inl err \<Rightarrow> (Panic ''unmarshal position failed!, '', (stream, w))
         | Inr position \<Rightarrow>
        (let pChan = ToPhysicalChannel (mp_ChannelName position)
         in if pChan \<noteq> topic fl then (Panic ''topic not consistent with pos'', (stream, w))
            else if stream_err \<noteq> None then (Panic ''init msg stream failed!, '', (stream, w))
            else if length (sub_pos fl) = 0 then (Panic ''empty pos!'', (stream, w))
            else case tt_AsConsumer cl Background [topic fl] (subName fl) SubscriptionPositionUnknown now (stream, w) of
                (Err err, st) \<Rightarrow> (Panic ''asConsumer failed!, '', st)
              | (Panic p, st) \<Rightarrow> (Panic p, st)
              | (Ok _, st) \<Rightarrow>
                  (case tt_Seek cl c ignoreBad Background [position\<lparr>mp_ChannelName := pChan\<rparr>] now2 st of
                     (Err err, (ms, w')) \<Rightarrow>
                       (case tt_Close ms of
                          Ok (_, ms') \<Rightarrow> (Panic ''seek failed!, '', (ms', w'))
                        | _ \<Rightarrow> (Panic ''close of closed channel'', (ms, w')))
                   | (Panic p, st') \<Rightarrow> (Panic p, st')
                   | (Ok found, st') \<Rightarrow>
                       (if found \<and> client_err \<noteq> None
                        then (Panic ''init milvus go client failed, '', st') else (Ok found, st'))))))"

section \<open>Replaying\<close>

record ('c, 'w) milvus =
  FieldDataColumn :: "FieldData option \<Rightarrow> int \<Rightarrow> int \<Rightarrow> go_error + 'c"
  IDColumns :: "IDs option \<Rightarrow> int \<Rightarrow> int \<Rightarrow> go_error + 'c"
  client_Insert :: "string \<Rightarrow> string \<Rightarrow> 'c list \<Rightarrow> 'w \<Rightarrow> go_error option \<times> 'w"
  client_DeleteByPks :: "string \<Rightarrow> string \<Rightarrow> 'c \<Rightarrow> 'w \<Rightarrow> go_error option \<times> 'w"

text \<open>The conversion of an unsigned 64-bit count to a signed one.\<close>

definition int_of_count :: "nat \<Rightarrow> int" where
  "int_of_count n = sint (of_nat n :: uint64)"

definition GetFieldName :: "FieldData option \<Rightarrow> string" where
  "GetFieldName fd = (case fd of None \<Rightarrow> [] | Some f \<Rightarrow> fd_FieldName f)"

fun columns_of :: "('c, 'w) milvus \<Rightarrow> string \<Rightarrow> int \<Rightarrow> FieldData option list \<Rightarrow> go_error + 'c list" where
  "columns_of sdk autoID numRows [] = Inr []"
| "columns_of sdk autoID numRows (fd # fds) =
     (if length autoID \<noteq> 0 \<and> autoID \<noteq> GetFieldName fd
      then (case FieldDataColumn sdk fd 0 numRows of
              Inl err \<Rightarrow> Inl err
            | Inr colume \<Rightarrow>
                (case columns_of sdk autoID numRows fds of Inl err \<Rightarrow> Inl err | Inr cs \<Rightarrow> Inr (colume # cs)))
      else columns_of sdk autoID numRows fds)"

definition recover_insert :: "flags \<Rightarrow> ('c, 'w) milvus \<Rightarrow> InsertRequest \<Rightarrow> 'w \<Rightarrow> 'w" where
  "recover_insert fl sdk imsg w =
     (if collectionID fl \<noteq> ir_CollectionID imsg \<or> collectionName fl \<noteq> ir_CollectionName imsg then w
      else case columns_of sdk (autoIDFieldName fl) (int_of_count (ir_NumRows imsg)) (ir_FieldsData imsg) of
             Inl convertErr \<Rightarrow> w
           | Inr columes \<Rightarrow> snd (client_Insert sdk (ir_CollectionName imsg) (ir_PartitionName imsg) columes w))"

definition recover_delete :: "flags \<Rightarrow> ('c, 'w) milvus \<Rightarrow> DeleteRequest \<Rightarrow> 'w \<Rightarrow> 'w" where
  "recover_delete fl sdk dmsg w =
     (if collectionID fl \<noteq> dr_CollectionID dmsg \<or> collectionName fl \<noteq> dr_CollectionName dmsg then w
      else case IDColumns sdk (dr_PrimaryKeys dmsg) 0 (dr_NumRows dmsg) of
             Inl err \<Rightarrow> w
           | Inr colume \<Rightarrow> snd (client_DeleteByPks sdk (dr_CollectionName dmsg) (dr_PartitionName dmsg) colume w))"

text \<open>One message; the flag says whether \<open>main\<close> returns.\<close>

definition recover_msg :: "flags \<Rightarrow> ('c, 'w) milvus \<Rightarrow> TsMsg \<Rightarrow> 'w \<Rightarrow> (bool \<times> 'w) res" where
  "recover_msg fl sdk msg w =
     bindO (msg_Type msg) (\<lambda>t.
       if t = MT_Insert
       then (case Req msg of InsertReq imsg \<Rightarrow> Ok (False, recover_insert fl sdk imsg w)
             | _ \<Rightarrow> Panic ''interface conversion'')
       else if t = MT_Delete
       then (case Req msg of DeleteReq dmsg \<Rightarrow> Ok (False, recover_delete fl sdk dmsg w)
             | _ \<Rightarrow> Panic ''interface conversion'')
       else if t = MT_DropCollection
       then (case Req msg of PlainReq DropCollectionMsg dropmsg \<Rightarrow> Ok (collectionID fl = pr_CollectionID dropmsg, w)
             | _ \<Rightarrow> Panic ''interface conversion'')
       else Ok (False, w))"

fun recover_msgs :: "flags \<Rightarrow> ('c, 'w) milvus \<Rightarrow> TsMsg list \<Rightarrow> 'w \<Rightarrow> (bool \<times> 'w) res" where
  "recover_msgs fl sdk [] w = Ok (False, w)"
| "recover_msgs fl sdk (msg # msgs) w =
     bindO (recover_msg fl sdk msg w) (\<lambda>(stop, w').
       if stop then Ok (True, w') else recover_msgs fl sdk msgs w')"

definition Unix_of :: "timestamp \<Rightarrow> int" where
  "Unix_of ts = fst (ParseTS ts) div 1000000000"

datatype recovery = Done | Collection_dropped | No_more_packs

fun recover_packs ::
  "flags \<Rightarrow> ('c, 'w) milvus \<Rightarrow> int \<Rightarrow> MsgPack list \<Rightarrow> 'w \<Rightarrow> (recovery \<times> 'w) res" where
  "recover_packs fl sdk startTime [] w = Ok (No_more_packs, w)"
| "recover_packs fl sdk startTime (msgs # packs) w =
     (if Unix_of (Pack_BeginTs msgs) \<ge> startTime then Ok (Done, w)
      else bindO (recover_msgs fl sdk (Msgs msgs) w) (\<lambda>(stop, w').
             if stop then Ok (Collection_dropped, w') else recover_packs fl sdk startTime packs w'))"

section \<open>What is replayed\<close>

text \<open>The calls to the server, recorded beside its world.\<close>

datatype 'c call = Insert_call string string "'c list" | Delete_call string string 'c

definition recording_sdk :: "('c, 'w) milvus \<Rightarrow> ('c, 'c call list \<times> 'w) milvus" where
  "recording_sdk sdk = \<lparr>
     FieldDataColumn = FieldDataColumn sdk,
     IDColumns = IDColumns sdk,
     client_Insert = (\<lambda>coll part cs (log, w).
        case client_Insert sdk coll part cs w of (e, w') \<Rightarrow> (e, (log @ [Insert_call coll part cs], w'))),
     client_DeleteByPks = (\<lambda>coll part c (log, w).
        case client_DeleteByPks sdk coll part c w of (e, w') \<Rightarrow> (e, (log @ [Delete_call coll part c], w')))\<rparr>"

text \<open>The calls one message asks for: an insertion of this collection one \<open>Insert\<close> with a column for every
  field but the one named by the flag, if they all convert; a deletion one \<open>DeleteByPks\<close>.\<close>

definition wanted :: "flags \<Rightarrow> InsertRequest \<Rightarrow> FieldData option list" where
  "wanted fl r = filter (\<lambda>fd. autoIDFieldName fl \<noteq> [] \<and> GetFieldName fd \<noteq> autoIDFieldName fl) (ir_FieldsData r)"

abbreviation converts :: "go_error + 'c \<Rightarrow> bool" where
  "converts r \<equiv> \<not> isl r"

definition calls_of :: "flags \<Rightarrow> ('c, 'w) milvus \<Rightarrow> TsMsg \<Rightarrow> 'c call list" where
  "calls_of fl sdk m =
     (case Req m of
        InsertReq r \<Rightarrow>
          (let cols = map (\<lambda>fd. FieldDataColumn sdk fd 0 (int_of_count (ir_NumRows r))) (wanted fl r)
           in if ir_CollectionID r = collectionID fl \<and> ir_CollectionName r = collectionName fl \<and> list_all converts cols
              then [Insert_call (collectionName fl) (ir_PartitionName r) (map projr cols)] else [])
      | DeleteReq r \<Rightarrow>
          (let col = IDColumns sdk (dr_PrimaryKeys r) 0 (dr_NumRows r)
           in if dr_CollectionID r = collectionID fl \<and> dr_CollectionName r = collectionName fl \<and> converts col
              then [Delete_call (collectionName fl) (dr_PartitionName r) (projr col)] else [])
      | PlainReq _ _ \<Rightarrow> [])"

definition drops :: "flags \<Rightarrow> TsMsg \<Rightarrow> bool" where
  "drops fl m = (case Req m of
     PlainReq k r \<Rightarrow> k = DropCollectionMsg \<and> pr_CollectionID r = collectionID fl | _ \<Rightarrow> False)"

definition young :: "int \<Rightarrow> MsgPack \<Rightarrow> bool" where
  "young startTime p \<longleftrightarrow> startTime \<le> Unix_of (Pack_BeginTs p)"

definition replayed :: "int \<Rightarrow> MsgPack list \<Rightarrow> TsMsg list" where
  "replayed startTime packs = concat (map Msgs (takeWhile (\<lambda>p. \<not> young startTime p) packs))"

lemma columns_of_eq:
  "columns_of sdk autoID n fds =
     (let cols = map (\<lambda>fd. FieldDataColumn sdk fd 0 n) (filter (\<lambda>fd. autoID \<noteq> [] \<and> GetFieldName fd \<noteq> autoID) fds)
      in if list_all converts cols then Inr (map projr cols) else Inl (projl (hd (filter (\<lambda>x. \<not> converts x) cols))))"
  by (induction fds) (auto simp: Let_def split: sum.splits)

lemma recording_columns [simp]: "columns_of (recording_sdk sdk) = columns_of sdk"
proof (intro ext)
  fix autoID n fds
  show "columns_of (recording_sdk sdk) autoID n fds = columns_of sdk autoID n fds"
    by (simp add: columns_of_eq recording_sdk_def)
qed

lemma recover_insert_calls:
  "\<exists>w'. recover_insert fl (recording_sdk sdk) r (log, w) = (log @ calls_of fl sdk (m\<lparr>Req := InsertReq r\<rparr>), w')"
  by (auto simp: recover_insert_def calls_of_def columns_of_eq wanted_def Let_def)
    (auto simp: recording_sdk_def split: prod.splits)

lemma recover_delete_calls:
  "\<exists>w'. recover_delete fl (recording_sdk sdk) r (log, w) = (log @ calls_of fl sdk (m\<lparr>Req := DeleteReq r\<rparr>), w')"
  by (auto simp: recover_delete_def calls_of_def Let_def recording_sdk_def split: prod.splits sum.splits)

text \<open>One message of a well-formed header: what it asks for is called, and a drop of the collection stops.\<close>

lemma recover_msg_calls:
  assumes "headed m"
  shows "\<exists>w'. recover_msg fl (recording_sdk sdk) m (log, w) = Ok (drops fl m, (log @ calls_of fl sdk m, w'))"
proof (cases "Req m")
  case (InsertReq r)
  with headed_type [OF assms] recover_insert_calls [of fl sdk r log w m] show ?thesis
    by (simp add: recover_msg_def drops_def calls_of_def)
next
  case (DeleteReq r)
  with headed_type [OF assms] recover_delete_calls [of fl sdk r log w m] show ?thesis
    by (simp add: recover_msg_def drops_def calls_of_def)
next
  case (PlainReq k r)
  with headed_type [OF assms] show ?thesis
    by (cases k) (auto simp: recover_msg_def drops_def calls_of_def)
qed

lemma drop_calls: "drops fl m \<Longrightarrow> calls_of fl sdk m = []"
  by (auto simp: drops_def calls_of_def split: request.splits)

lemma recover_msgs_calls:
  "\<forall>m \<in> set ms. headed m \<Longrightarrow>
   \<exists>w'. recover_msgs fl (recording_sdk sdk) ms (log, w) =
     Ok (\<exists>m \<in> set ms. drops fl m,
         (log @ concat (map (calls_of fl sdk) (takeWhile (\<lambda>m. \<not> drops fl m) ms)), w'))"
proof (induction ms arbitrary: log w)
  case (Cons m ms)
  obtain w1 where 1: "recover_msg fl (recording_sdk sdk) m (log, w) = Ok (drops fl m, (log @ calls_of fl sdk m, w1))"
    using recover_msg_calls Cons.prems by force
  with 1 Cons.IH [of "log @ calls_of fl sdk m" w1] Cons.prems drop_calls [of fl m sdk] show ?case by auto
qed simp

lemma takeWhile_append_split:
  "takeWhile P (xs @ ys) = (if \<forall>x \<in> set xs. P x then xs @ takeWhile P ys else takeWhile P xs)"
  by (simp add: takeWhile_append)

lemma recover_packs_calls:
  "\<forall>p \<in> set packs. \<forall>m \<in> set (Msgs p). headed m \<Longrightarrow>
   \<exists>w'. recover_packs fl (recording_sdk sdk) startTime packs (log, w) =
     Ok (if \<exists>m \<in> set (replayed startTime packs). drops fl m then Collection_dropped
         else if \<exists>p \<in> set packs. young startTime p then Done else No_more_packs,
         (log @ concat (map (calls_of fl sdk) (takeWhile (\<lambda>m. \<not> drops fl m) (replayed startTime packs))), w'))"
proof (induction packs arbitrary: log w)
  case (Cons p packs)
  show ?case
  proof (cases "young startTime p")
    case False
    obtain w1 where 1: "recover_msgs fl (recording_sdk sdk) (Msgs p) (log, w) =
        Ok (\<exists>m \<in> set (Msgs p). drops fl m,
            (log @ concat (map (calls_of fl sdk) (takeWhile (\<lambda>m. \<not> drops fl m) (Msgs p))), w1))"
      using recover_msgs_calls [of "Msgs p" fl sdk log w] Cons.prems by auto
    show ?thesis
    proof (cases "\<exists>m \<in> set (Msgs p). drops fl m")
      case True
      with 1 False show ?thesis by (auto simp: young_def replayed_def takeWhile_append_split)
    next
      case no: False
      then have "takeWhile (\<lambda>m. \<not> drops fl m) (Msgs p) = Msgs p" by (simp add: takeWhile_eq_all_conv)
      with 1 no False have run: "recover_packs fl (recording_sdk sdk) startTime (p # packs) (log, w) =
          recover_packs fl (recording_sdk sdk) startTime packs (log @ concat (map (calls_of fl sdk) (Msgs p)), w1)"
        by (simp add: young_def)
      have rp: "replayed startTime (p # packs) = Msgs p @ replayed startTime packs"
        using False by (simp add: replayed_def)
      have d: "(\<exists>m \<in> set (Msgs p @ replayed startTime packs). drops fl m) \<longleftrightarrow>
          (\<exists>m \<in> set (replayed startTime packs). drops fl m)" using no by auto
      have y: "(\<exists>q \<in> set (p # packs). young startTime q) \<longleftrightarrow> (\<exists>q \<in> set packs. young startTime q)"
        using False by simp
      have t: "takeWhile (\<lambda>m. \<not> drops fl m) (Msgs p @ replayed startTime packs) =
          Msgs p @ takeWhile (\<lambda>m. \<not> drops fl m) (replayed startTime packs)" using no by simp
      from Cons.IH [of "log @ concat (map (calls_of fl sdk) (Msgs p))" w1] Cons.prems show ?thesis
        unfolding run rp d y t by simp
    qed
  qed (simp add: young_def replayed_def)
qed (simp add: replayed_def)

section \<open>Nothing old is missed\<close>

lemma Unix_of_mono: "a \<le> b \<Longrightarrow> Unix_of a \<le> Unix_of b"
  by (simp add: Unix_of_def ParseTS_eq zdiv_mono1 phys_def word_le_nat_alt div_le_mono)

lemma takeWhile_up_set:
  assumes "sorted_wrt R xs" and "\<And>x y. R x y \<Longrightarrow> Q x \<Longrightarrow> Q y"
  shows "takeWhile (\<lambda>x. \<not> Q x) xs = filter (\<lambda>x. \<not> Q x) xs"
  using assms(1)
proof (induction xs)
  case (Cons a xs)
  show ?case
  proof (cases "Q a")
    case True
    then have "\<forall>x \<in> set xs. Q x" using Cons.prems assms(2) by auto
    with True show ?thesis by (simp add: filter_empty_conv)
  qed (use Cons in simp)
qed simp

lemma replayed_chain:
  assumes "chained b packs e"
  shows "set (replayed startTime packs) = (\<Union>p \<in> {p \<in> set packs. \<not> young startTime p}. set (Msgs p))"
proof -
  have "takeWhile (\<lambda>p. \<not> young startTime p) packs = filter (\<lambda>p. \<not> young startTime p) packs"
    using chained_begins [OF assms]
    by (intro takeWhile_up_set [where R = "\<lambda>p q. Pack_BeginTs p < Pack_BeginTs q"])
      (auto simp: young_def dest!: less_imp_le Unix_of_mono)
  then show ?thesis by (simp add: replayed_def)
qed

text \<open>A data message that ends before the start of the recovery is in a pack that is not young.\<close>

lemma old_message_packed:
  assumes "origin_inv c D s'" and "chain_inv b s'" and "p \<in> set (receiveBuf s')" and "young startTime p"
    and "m \<in># D" and "Unix_of (EndTs m) < startTime"
  shows "\<exists>q \<in> set (receiveBuf s'). \<not> young startTime q \<and> id_of m \<in> id_of ` set (Msgs q)"
proof -
  from assms(1) obtain pre where inv: "mark_inv c s'" and pre: "map Msgs (receiveBuf s') = map dedupe pre"
    "all_data c s' pre = D" "list_all2 (\<lambda>p xs. \<forall>m \<in> set xs. Pack_BeginTs p < EndTs m) (receiveBuf s') pre"
    by (auto simp: origin_inv_def)
  have "Pack_BeginTs p < lastTimeStamp s'"
    using chained_begins [of b "receiveBuf s'" "lastTimeStamp s'"] assms(2,3) by (auto simp: chain_inv_def)
  have late: "\<not> lastTimeStamp s' < EndTs m"
  proof
    assume "lastTimeStamp s' < EndTs m"
    with \<open>Pack_BeginTs p < lastTimeStamp s'\<close> have "Unix_of (Pack_BeginTs p) \<le> Unix_of (EndTs m)"
      by (intro Unix_of_mono) simp
    with assms(4,6) show False by (simp add: young_def)
  qed
  have "m \<notin># (\<Sum>ch \<in> set (consumers s'). pending_of c s' ch)"
    using mark_inv_later [OF inv] late by (auto simp: set_mset_sum)
  moreover have "m \<notin> set (timeTickBuf s')" using inv late by (auto simp: mark_inv_def)
  ultimately have "m \<in> set (concat pre)" using assms(5) unfolding pre(2) [symmetric] all_data_def by simp
  then obtain i where i: "i < length pre" "m \<in> set (pre ! i)" by (metis UN_E in_set_conv_nth set_concat)
  let ?q = "receiveBuf s' ! i"
  have len: "length (receiveBuf s') = length pre" using pre(3) by (rule list_all2_lengthD)
  with i pre(3) have "Pack_BeginTs ?q < EndTs m" by (auto simp: list_all2_conv_all_nth)
  then have "Unix_of (Pack_BeginTs ?q) \<le> Unix_of (EndTs m)" by (intro Unix_of_mono) simp
  with assms(6) have "\<not> young startTime ?q" by (simp add: young_def)
  moreover have "Msgs ?q = dedupe (pre ! i)" using pre(1) i(1) len by (metis nth_map)
  then have "id_of m \<in> id_of ` set (Msgs ?q)" using i(2) dedupe_ids [of "pre ! i"] by auto
  ultimately show ?thesis using i(1) len by (intro bexI [of _ ?q]) auto
qed

text \<open>What a pack holds was in the channels; what was in the channels has a header.\<close>

lemma packed_data:
  assumes "origin_inv c D s'" and "p \<in> set (receiveBuf s')" and "m \<in> set (Msgs p)"
  shows "m \<in># D"
proof -
  from assms(1) obtain pre where pre: "map Msgs (receiveBuf s') = map dedupe pre" "all_data c s' pre = D"
    by (auto simp: origin_inv_def)
  have "Msgs p \<in> set (map Msgs (receiveBuf s'))" using assms(2) by simp
  then obtain xs where "xs \<in> set pre" "Msgs p = dedupe xs" unfolding pre(1) by auto
  with assms(3) have "m \<in> set (concat pre)" using dedupe_set [of xs] by auto
  then show ?thesis unfolding pre(2) [symmetric] all_data_def by simp
qed

lemma all_data_headed:
  assumes "codec_safe c" and "timeTickBuf s = []"
    and "\<And>ch m. ch \<in> set (consumers s) \<Longrightarrow> m \<in> set (data (chanMsgBuf s ch)) \<Longrightarrow> headed m"
  shows "\<forall>m \<in># all_data c s []. headed m"
proof
  fix m
  assume "m \<in># all_data c s []"
  with assms(2) obtain ch where ch: "ch \<in> set (consumers s)" "m \<in># pending_of c s ch"
    by (auto simp: all_data_def set_mset_sum)
  then consider "m \<in> set (data (decodes c (inbox s ch)))" | "m \<in> set (data (chanMsgBuf s ch))"
    by (auto simp: pending_of_def)
  then show "headed m"
  proof cases
    case 1
    then obtain msg where "m \<in> set (decode1 c msg)" by (auto simp: data_def decodes_def)
    moreover from this have "decode1 c msg = [m]" by (auto simp: decode1_def split: outcome.splits)
    ultimately show ?thesis using consume_msg_headed [OF assms(1)] by blast
  qed (use assms(3) ch(1) in blast)
qed

lemma recovered_invs:
  assumes "tt_run cf c s s'"
    and "receiveBuf s = []" and "timeTickBuf s = []" and "phase s = Start" and "endTs s = 0"
    and "\<forall>ch \<in> set (consumers s). ticks_ok (chanTtMsgTime s ch) (decodes c (inbox s ch))
        \<and> lastTimeStamp s \<le> chanTtMsgTime s ch
        \<and> (\<forall>m \<in> set (data (chanMsgBuf s ch)). lastTimeStamp s < EndTs m)"
  shows "origin_inv c (all_data c s []) s' \<and> chain_inv (lastTimeStamp s) s'"
proof
  have "mark_inv c s" using assms(2-6) by (simp add: mark_inv_def turn_ok_def frontier_def)
  then have "origin_inv c (all_data c s []) s" using assms(2) by (simp add: origin_inv_def)
  with assms(1) show "origin_inv c (all_data c s []) s'"
    by (rule tt_run_invariant) (rule origin_inv_step)
  have "chain_inv (lastTimeStamp s) s" using assms(2,5) by (simp add: chain_inv_def)
  with assms(1) show "chain_inv (lastTimeStamp s) s'"
    by (rule tt_run_invariant) (rule chain_inv_step)
qed

text \<open>A message of the replayed packs: its calls are made, or the recovery stopped before it.\<close>

lemma recover_packs_old:
  assumes "\<forall>p \<in> set packs. \<forall>m \<in> set (Msgs p). headed m" and "m \<in> set (replayed startTime packs)"
    and "\<exists>p \<in> set packs. young startTime p"
  shows "\<exists>r log w'. recover_packs fl (recording_sdk sdk) startTime packs ([], w) = Ok (r, (log, w'))
    \<and> (r = Done \<or> r = Collection_dropped \<and> (\<exists>d \<in> set (replayed startTime packs). drops fl d))
    \<and> ((\<exists>before after. log = before @ calls_of fl sdk m @ after)
       \<or> (r = Collection_dropped \<and> (\<exists>first d rest. replayed startTime packs = first @ d # rest
            \<and> drops fl d \<and> m \<in> set rest)))"
proof -
  let ?R = "replayed startTime packs" and ?kept = "takeWhile (\<lambda>m. \<not> drops fl m) (replayed startTime packs)"
  let ?log = "concat (map (calls_of fl sdk) ?kept)"
  let ?r = "if \<exists>m \<in> set ?R. drops fl m then Collection_dropped else Done"
  obtain w' where run: "recover_packs fl (recording_sdk sdk) startTime packs ([], w) = Ok (?r, (?log, w'))"
    using recover_packs_calls [OF assms(1), of fl sdk startTime "[]" w] by (auto simp only: assms(3) if_True append_Nil)
  have "(\<exists>before after. ?log = before @ calls_of fl sdk m @ after)
      \<or> (?r = Collection_dropped \<and> (\<exists>first d rest. ?R = first @ d # rest \<and> drops fl d \<and> m \<in> set rest))"
  proof (cases "m \<in> set ?kept")
    case True
    then obtain before after where "?kept = before @ m # after" by (meson split_list)
    then have "?log = concat (map (calls_of fl sdk) before) @ calls_of fl sdk m @ concat (map (calls_of fl sdk) after)"
      by simp
    then show ?thesis by blast
  next
    case False
    have split: "?R = ?kept @ dropWhile (\<lambda>m. \<not> drops fl m) ?R" by simp
    with False assms(2) have in_rest: "m \<in> set (dropWhile (\<lambda>m. \<not> drops fl m) ?R)" by (metis Un_iff set_append)
    then obtain d rest where d: "dropWhile (\<lambda>m. \<not> drops fl m) ?R = d # rest"
      by (cases "dropWhile (\<lambda>m. \<not> drops fl m) ?R") auto
    then have dd: "drops fl d" by (metis hd_dropWhile list.sel(1) list.distinct(1))
    show ?thesis
    proof (cases "m = d")
      case True
      then have "?log = ?log @ calls_of fl sdk m @ []" using dd by (simp add: drop_calls)
      then show ?thesis by blast
    next
      case False
      then have "m \<in> set rest" using in_rest d by simp
      moreover have R: "?R = ?kept @ d # rest" using split d by simp
      moreover have "\<exists>x \<in> set ?R. drops fl x" using dd by (subst R) simp
      ultimately show ?thesis using dd by auto
    qed
  qed
  with run show ?thesis by (intro exI [of _ ?r] exI [of _ ?log] exI [of _ w']) auto
qed

section \<open>Properties\<close>

text \<open>C4: what the recovery does to the server. It replays the packs that begin before it was started, in
  their order, up to the first drop of the collection: the calls are exactly those the messages ask for, one
  after another, and nothing is called for messages of other collections or for other kinds of messages. It
  says how it ended.\<close>

theorem recover_replays:
  assumes "\<forall>p \<in> set packs. \<forall>m \<in> set (Msgs p). headed m"
  shows "\<exists>w'. recover_packs fl (recording_sdk sdk) startTime packs ([], w) =
     Ok (if \<exists>m \<in> set (replayed startTime packs). drops fl m then Collection_dropped
         else if \<exists>p \<in> set packs. young startTime p then Done else No_more_packs,
         (concat (map (calls_of fl sdk) (takeWhile (\<lambda>m. \<not> drops fl m) (replayed startTime packs))), w'))"
  using recover_packs_calls [OF assms, of fl sdk startTime "[]" w] by simp

lemma sample_headed: "\<exists>m. decode1 sample_codec data_message = [m] \<and> headed m"
  using sample_decode(1) consume_msg_headed [of sample_codec data_message] by (auto simp: sample_codec_def)

definition sample_sdk :: "(nat, unit) milvus" where
  "sample_sdk = \<lparr>FieldDataColumn = (\<lambda>fd i n. Inr (length (GetFieldName fd))), IDColumns = (\<lambda>ids i n. Inr (nat n)),
     client_Insert = (\<lambda>coll part cs w. (None, w)), client_DeleteByPks = (\<lambda>coll part c w. (None, w))\<rparr>"

definition sample_flags :: flags where
  "sample_flags = \<lparr>collectionName = dr_CollectionName sample_delete, collectionID = dr_CollectionID sample_delete,
     topic = ''a'', sub_pos = ''CgFh'', subName = ''sub'', autoIDFieldName = ''id''\<rparr>"

definition sample_pack :: "timestamp \<Rightarrow> TsMsg list \<Rightarrow> MsgPack" where
  "sample_pack b ms = \<lparr>Pack_BeginTs = b, Pack_EndTs = b + 1, Msgs = ms, StartPositions = [], EndPositions = []\<rparr>"

definition sample_deletion :: TsMsg where
  "sample_deletion = new_msg (DeleteReq sample_delete)"

theorem recover_replays_witness:
  "\<exists>w'. recover_packs sample_flags (recording_sdk sample_sdk) 1
      [sample_pack 0 [sample_deletion], sample_pack tick_A [sample_deletion]] ([], ()) =
     Ok (Done, ([Delete_call (dr_CollectionName sample_delete) (dr_PartitionName sample_delete)
                   (nat (dr_NumRows sample_delete))], w'))"
proof -
  let ?packs = "[sample_pack 0 [sample_deletion], sample_pack tick_A [sample_deletion]]"
  have h: "\<forall>p \<in> set ?packs. \<forall>m \<in> set (Msgs p). headed m"
    by (simp add: sample_pack_def sample_deletion_def new_msg_def headed_def well_headed_def sample_delete_def
        sample_base_def)
  have y: "\<not> young 1 (sample_pack 0 [sample_deletion])" "young 1 (sample_pack tick_A [sample_deletion])"
    by (simp_all add: young_def sample_pack_def Unix_of_def ParseTS_eq phys_def tick_A_def)
  have d: "\<not> drops sample_flags sample_deletion"
    by (simp add: drops_def sample_deletion_def new_msg_def)
  have c: "calls_of sample_flags sample_sdk sample_deletion = [Delete_call (dr_CollectionName sample_delete)
      (dr_PartitionName sample_delete) (nat (dr_NumRows sample_delete))]"
    by (simp add: calls_of_def sample_deletion_def new_msg_def sample_flags_def sample_sdk_def)
  have r: "replayed 1 ?packs = [sample_deletion]" using y by (simp add: replayed_def sample_pack_def)
  from recover_replays [OF h, of sample_flags sample_sdk 1 "()"] show ?thesis
    unfolding r by (simp add: d c y)
qed

text \<open>C3: the recovery misses nothing old, end to end. Let the time-tick stream run, under the senders' promise
  about ticks, until its packs include one that begins at or after the start of the program, and let the
  recovery replay those packs. Then the recovery ends, at that pack or at a drop of the collection, and for every
  data message that was in the channels and ends before the start of the program the calls it asks for (or
  those of another message of the channels with its id) are among the calls made, unless the recovery has
  stopped at a drop of the collection that stands before it in the packs.\<close>

theorem recover_misses_nothing_old:
  assumes "codec_safe c" and "tt_run cf c s s'"
    and "receiveBuf s = []" and "timeTickBuf s = []" and "phase s = Start" and "endTs s = 0"
    and "\<forall>ch \<in> set (consumers s). ticks_ok (chanTtMsgTime s ch) (decodes c (inbox s ch))
        \<and> lastTimeStamp s \<le> chanTtMsgTime s ch
        \<and> (\<forall>m \<in> set (data (chanMsgBuf s ch)). headed m \<and> lastTimeStamp s < EndTs m)"
    and "\<exists>p \<in> set (receiveBuf s'). young startTime p"
    and "m \<in># all_data c s []" and "Unix_of (EndTs m) < startTime"
  shows "\<exists>r log w' m'. recover_packs fl (recording_sdk sdk) startTime (receiveBuf s') ([], w) = Ok (r, (log, w'))
    \<and> (r = Done \<or> r = Collection_dropped \<and> (\<exists>d \<in> set (replayed startTime (receiveBuf s')). drops fl d))
    \<and> m' \<in># all_data c s [] \<and> id_of m' = id_of m
    \<and> ((\<exists>before after. log = before @ calls_of fl sdk m' @ after)
       \<or> (r = Collection_dropped \<and> (\<exists>first d rest. replayed startTime (receiveBuf s') = first @ d # rest
            \<and> drops fl d \<and> m' \<in> set rest)))"
proof -
  let ?D = "all_data c s []"
  have "\<forall>ch \<in> set (consumers s). ticks_ok (chanTtMsgTime s ch) (decodes c (inbox s ch))
        \<and> lastTimeStamp s \<le> chanTtMsgTime s ch
        \<and> (\<forall>m \<in> set (data (chanMsgBuf s ch)). lastTimeStamp s < EndTs m)" using assms(7) by blast
  from recovered_invs [OF assms(2-6) this] have o: "origin_inv c ?D s'" and ch: "chain_inv (lastTimeStamp s) s'" by auto
  from assms(8) obtain p where "p \<in> set (receiveBuf s')" "young startTime p" by blast
  from old_message_packed [OF o ch this assms(9,10)] obtain q m' where
    q: "q \<in> set (receiveBuf s')" "\<not> young startTime q" "m' \<in> set (Msgs q)" "id_of m' = id_of m" by auto
  with replayed_chain [of "lastTimeStamp s" "receiveBuf s'" "lastTimeStamp s'" startTime] ch
  have m': "m' \<in> set (replayed startTime (receiveBuf s'))" "id_of m' = id_of m" by (auto simp: chain_inv_def)
  then have D: "m' \<in># ?D" using packed_data [OF o] by (auto simp: replayed_def dest: set_takeWhileD)
  have "\<forall>x \<in># ?D. headed x" using all_data_headed [OF assms(1), of s] assms(4,7) by auto
  then have "\<forall>p \<in> set (receiveBuf s'). \<forall>x \<in> set (Msgs p). headed x" using packed_data [OF o] by blast
  from recover_packs_old [OF this m'(1) assms(8), of fl sdk w] show ?thesis using D m'(2) by blast
qed

theorem recover_misses_nothing_old_witness:
  "\<exists>s' p1 p2 w'. tt_run sample_cfg two_codec two_start s' \<and> receiveBuf s' = [p1, p2]
     \<and> (\<exists>before after. recover_packs sample_flags (recording_sdk sample_sdk) 1 [p1, p2] ([], ()) =
          Ok (Done, (before @ [Delete_call (dr_CollectionName sample_delete) (dr_PartitionName sample_delete) 2] @ after, w')))"
proof -
  obtain s' p1 p2 where r: "tt_run sample_cfg two_codec two_start s'" "receiveBuf s' = [p1, p2]"
    "Pack_BeginTs p1 = 0" "Pack_BeginTs p2 = tick_A" using two_turns by blast
  obtain m0 where m0: "decode1 two_codec (payload_message []) = [m0]" "\<not> is_tick m0" "BeginTs m0 = 7" "EndTs m0 = 9"
    "Req m0 = normal (DeleteReq sample_delete)" using two_data by blast
  obtain mA where mA: "decode1 two_codec (payload_message [0]) = [mA]" "is_tick mA" "tick_time mA = tick_A"
    using two_ticks(1) by blast
  obtain mB where mB: "decode1 two_codec (payload_message [0, 0]) = [mB]" "is_tick mB" "tick_time mB = tick_B"
    using two_ticks(2) by blast
  note s = two_start_simps
  have ticks: "\<forall>ch \<in> set (consumers two_start). ticks_ok (chanTtMsgTime two_start ch) (decodes two_codec (inbox two_start ch))
        \<and> lastTimeStamp two_start \<le> chanTtMsgTime two_start ch
        \<and> (\<forall>m \<in> set (data (chanMsgBuf two_start ch)). headed m \<and> lastTimeStamp two_start < EndTs m)"
    using s m0 mA mB by (simp add: tick_A_def tick_B_def)
  have y: "\<not> young 1 p1" "young 1 p2"
    by (simp_all add: young_def r(3,4) Unix_of_def ParseTS_eq phys_def tick_A_def)
  have D: "all_data two_codec two_start [] = {#m0#}"
    using s m0 mA mB by (simp add: all_data_def pending_of_def)
  have "Unix_of (EndTs m0) < 1" by (simp add: m0(4) Unix_of_def ParseTS_eq phys_def)
  moreover have "\<exists>p \<in> set (receiveBuf s'). young 1 p" using r(2) y by simp
  moreover have "m0 \<in># all_data two_codec two_start []" using D by simp
  ultimately obtain out log w' m' where run0:
    "recover_packs sample_flags (recording_sdk sample_sdk) 1 (receiveBuf s') ([], ()) = Ok (out, (log, w'))"
    "out = Done \<or> out = Collection_dropped \<and> (\<exists>d \<in> set (replayed 1 (receiveBuf s')). drops sample_flags d)"
    "m' \<in># all_data two_codec two_start []"
    "(\<exists>before after. log = before @ calls_of sample_flags sample_sdk m' @ after)
       \<or> (out = Collection_dropped \<and> (\<exists>first d rest. replayed 1 (receiveBuf s') = first @ d # rest
            \<and> drops sample_flags d \<and> m' \<in> set rest))"
    using recover_misses_nothing_old [OF two_laws(2) r(1) s(1,4,5,2) ticks, of 1 m0 sample_flags sample_sdk "()"]
    by blast
  then have "m' = m0" using D by simp
  note run = run0(1,2) run0(4) [unfolded \<open>m' = m0\<close>]
  have "\<forall>ch \<in> set (consumers two_start). ticks_ok (chanTtMsgTime two_start ch) (decodes two_codec (inbox two_start ch))
        \<and> lastTimeStamp two_start \<le> chanTtMsgTime two_start ch
        \<and> (\<forall>m \<in> set (data (chanMsgBuf two_start ch)). lastTimeStamp two_start < EndTs m)" using ticks by blast
  from recovered_invs [OF r(1) s(1,4,5,2) this] D have "origin_inv two_codec {#m0#} s'" by simp
  then have "x = m0" if "x \<in> set (replayed 1 (receiveBuf s'))" for x
    using that packed_data [of two_codec "{#m0#}" s' _ x] by (auto simp: replayed_def dest!: set_takeWhileD)
  moreover have "\<not> drops sample_flags m0" using m0(5) by (simp add: drops_def)
  ultimately have no: "\<not> (\<exists>d \<in> set (replayed 1 (receiveBuf s')). drops sample_flags d)" by blast
  then have "out = Done" using run(2) by blast
  moreover have "calls_of sample_flags sample_sdk m0 = [Delete_call (dr_CollectionName sample_delete)
      (dr_PartitionName sample_delete) 2]"
    using m0(5) by (simp add: calls_of_def sample_flags_def sample_sdk_def fix_primary_keys_def sample_delete_def)
  ultimately obtain before after where "log = before @ [Delete_call (dr_CollectionName sample_delete)
      (dr_PartitionName sample_delete) 2] @ after" using run(3) by auto
  with run(1) \<open>out = Done\<close> have "recover_packs sample_flags (recording_sdk sample_sdk) 1 [p1, p2] ([], ()) =
      Ok (Done, (before @ [Delete_call (dr_CollectionName sample_delete) (dr_PartitionName sample_delete) 2] @ after, w'))"
    unfolding r(2) by blast
  with r(1,2) show ?thesis by blast
qed

text \<open>Without the flag \<open>auto\_id\_field\_name\<close>, which is empty by default, every insertion is replayed
  without any column: no row of it reaches the server.\<close>

theorem recover_without_flag_inserts_nothing:
  "wanted (fl\<lparr>autoIDFieldName := []\<rparr>) r = []
   \<and> calls_of (fl\<lparr>autoIDFieldName := []\<rparr>) sdk (new_msg (InsertReq r)) =
       (if ir_CollectionID r = collectionID fl \<and> ir_CollectionName r = collectionName fl
        then [Insert_call (collectionName fl) (ir_PartitionName r) []] else [])
   \<and> columns_of sdk [] (int_of_count (ir_NumRows r)) (ir_FieldsData r) = Inr []"
  by (simp add: wanted_def calls_of_def new_msg_def columns_of_eq Let_def)

end
