(* ===== verification/ConfigEvents.thy ===== *)
theory ConfigEvents
  imports Prelude
begin

text \<open>
  pkg/config: the keys of the configuration and their filters (config.go, manager.go), the events that say
  what a refresh has changed (event.go) and the dispatcher that calls the handlers registered for a key or
  for a prefix of keys (event\_dispatcher.go).

  A Go map is a HOL map; the order in which Go walks it is not fixed, so an operation that walks a map takes
  the walk, a list of its keys, as an argument (\<open>walk_of\<close> says which lists are walks). A handler is its
  identifier and an opaque callback; what a call of \<open>Dispatch\<close> does is the list of the handlers it calls.
\<close>

section \<open>Walks of a map\<close>

definition walk_of :: "('k \<rightharpoonup> 'v) \<Rightarrow> 'k list \<Rightarrow> bool" where
  "walk_of m ks \<longleftrightarrow> distinct ks \<and> set ks = dom m"

section \<open>Keys\<close>

text \<open>\<open>formatKey\<close> without its cache, and with the cache, a map from keys to results that only grows.\<close>

definition format_key :: "string \<Rightarrow> string" where
  "format_key key = filter (\<lambda>c. c \<notin> set ''/_.'') (ToLower key)"

definition formatKey :: "string \<Rightarrow> (string \<rightharpoonup> string) \<Rightarrow> string \<times> (string \<rightharpoonup> string)" where
  "formatKey key formattedKeys =
     (case formattedKeys key of
        Some cached \<Rightarrow> (cached, formattedKeys)
      | None \<Rightarrow> (let result = format_key key in (result, formattedKeys(key \<mapsto> result))))"

definition cache_ok :: "(string \<rightharpoonup> string) \<Rightarrow> bool" where
  "cache_ok cache \<longleftrightarrow> (\<forall>k v. cache k = Some v \<longrightarrow> v = format_key k)"

lemma cache_ok_empty [simp]: "cache_ok Map.empty"
  by (simp add: cache_ok_def)

text \<open>The cache is sound and invisible, so the other operations use \<open>format_key\<close>.\<close>

lemma formatKey_eq: "cache_ok cache \<Longrightarrow> fst (formatKey key cache) = format_key key \<and> cache_ok (snd (formatKey key cache))"
  by (auto simp: formatKey_def cache_ok_def Let_def split: option.splits)

lemma format_key_idem [simp]: "format_key (format_key key) = format_key key"
proof -
  have "lower_char c \<notin> set ''/_.'' \<Longrightarrow> lower_char (lower_char c) = lower_char c" for c by simp
  then have "map lower_char (format_key key) = format_key key"
    by (simp add: format_key_def ToLower_def filter_map comp_def)
  then show ?thesis by (simp add: format_key_def ToLower_def)
qed

section \<open>Filters\<close>

type_synonym key_filter = "string \<Rightarrow> string \<times> bool"

definition WithSubstr :: "string \<Rightarrow> key_filter" where
  "WithSubstr substring = (let substring = ToLower substring in (\<lambda>key. (key, strings_Contains key substring)))"

definition WithPrefix :: "string \<Rightarrow> key_filter" where
  "WithPrefix prefix = (let prefix = ToLower prefix in (\<lambda>key. (key, is_prefix_of prefix key)))"

fun one_of_prefixes :: "string list \<Rightarrow> key_filter" where
  "one_of_prefixes [] key = (key, False)"
| "one_of_prefixes (prefix # prefixs) key =
     (if is_prefix_of prefix key then (key, True) else one_of_prefixes prefixs key)"

definition WithOneOfPrefixs :: "string list \<Rightarrow> key_filter" where
  "WithOneOfPrefixs prefixs = one_of_prefixes (map ToLower prefixs)"

definition RemovePrefix :: "string \<Rightarrow> key_filter" where
  "RemovePrefix prefix = (let prefix = ToLower prefix in (\<lambda>key. (remove_first key prefix, True)))"

fun filterate_loop :: "string \<Rightarrow> bool \<Rightarrow> key_filter list \<Rightarrow> string \<times> bool" where
  "filterate_loop key ok [] = (key, ok)"
| "filterate_loop key ok (f # fs) =
     (case f key of (key', ok') \<Rightarrow> if \<not> ok' then (key', ok') else filterate_loop key' ok' fs)"

definition filterate :: "string \<Rightarrow> key_filter list \<Rightarrow> string \<times> bool" where
  "filterate key filters = filterate_loop key False filters"

lemma filterate_prefix_removed:
  "filterate key [WithPrefix p, RemovePrefix p] = (k, True) \<longleftrightarrow> key = ToLower p @ k"
  by (auto simp: filterate_def WithPrefix_def RemovePrefix_def is_prefix_of_iff)

section \<open>Events\<close>

datatype event_type = UpdateType | DeleteType | CreateType

record Event =
  EventSource :: string
  EventType :: event_type
  Key :: string
  Value :: string
  HasUpdated :: bool

definition newEvent :: "string \<Rightarrow> event_type \<Rightarrow> string \<Rightarrow> string \<Rightarrow> Event" where
  "newEvent eventSource eventType key value =
     \<lparr>EventSource = eventSource, EventType = eventType, Key = key, Value = value, HasUpdated = False\<rparr>"

text \<open>The two loops of \<open>PopulateEvents\<close>, with the walks Go chooses; a walk that names a key the map has not
  skips it.\<close>

definition created_or_updated :: "string \<Rightarrow> (string \<rightharpoonup> string) \<Rightarrow> (string \<rightharpoonup> string) \<Rightarrow> string \<Rightarrow> Event list" where
  "created_or_updated src currentConfig updatedConfig key =
     (case updatedConfig key of
        None \<Rightarrow> []
      | Some v \<Rightarrow>
          (case currentConfig key of
             None \<Rightarrow> [newEvent src CreateType key v]
           | Some currentValue \<Rightarrow> if currentValue \<noteq> v then [newEvent src UpdateType key v] else []))"

definition deleted :: "string \<Rightarrow> (string \<rightharpoonup> string) \<Rightarrow> (string \<rightharpoonup> string) \<Rightarrow> string \<Rightarrow> Event list" where
  "deleted src currentConfig updatedConfig key =
     (case currentConfig key of
        None \<Rightarrow> []
      | Some v \<Rightarrow> (case updatedConfig key of None \<Rightarrow> [newEvent src DeleteType key v] | Some _ \<Rightarrow> []))"

definition PopulateEvents ::
  "string \<Rightarrow> (string \<rightharpoonup> string) \<Rightarrow> (string \<rightharpoonup> string) \<Rightarrow> string list \<Rightarrow> string list \<Rightarrow> Event list" where
  "PopulateEvents src currentConfig updatedConfig walk_updated walk_current =
     concat (map (created_or_updated src currentConfig updatedConfig) walk_updated)
     @ concat (map (deleted src currentConfig updatedConfig) walk_current)"

text \<open>What an event says about a configuration.\<close>

definition apply_event :: "(string \<rightharpoonup> string) \<Rightarrow> Event \<Rightarrow> (string \<rightharpoonup> string)" where
  "apply_event config e =
     (case EventType e of DeleteType \<Rightarrow> config(Key e := None) | _ \<Rightarrow> config(Key e \<mapsto> Value e))"

text \<open>Everything the proofs need about the events of a refresh: which events there are, and that no key has
  two.\<close>

lemma created_or_updated_iff:
  "e \<in> set (created_or_updated src cur upd key) \<longleftrightarrow>
     (\<exists>v. upd key = Some v \<and> cur key \<noteq> Some v
        \<and> e = newEvent src (if cur key = None then CreateType else UpdateType) key v)"
  by (cases "upd key"; cases "cur key") (auto simp: created_or_updated_def)

lemma deleted_iff:
  "e \<in> set (deleted src cur upd key) \<longleftrightarrow>
     (\<exists>v. cur key = Some v \<and> upd key = None \<and> e = newEvent src DeleteType key v)"
  by (cases "upd key"; cases "cur key") (auto simp: deleted_def)

lemma newEvent_fields [simp]:
  "EventSource (newEvent s t k v) = s" "EventType (newEvent s t k v) = t" "Key (newEvent s t k v) = k"
  "Value (newEvent s t k v) = v" "HasUpdated (newEvent s t k v) = False"
  by (simp_all add: newEvent_def)

lemma PopulateEvents_iff:
  assumes "walk_of upd ku" "walk_of cur kc"
  shows "e \<in> set (PopulateEvents src cur upd ku kc) \<longleftrightarrow>
    (\<exists>k v. upd k = Some v \<and> cur k \<noteq> Some v
        \<and> e = newEvent src (if cur k = None then CreateType else UpdateType) k v)
    \<or> (\<exists>k v. cur k = Some v \<and> upd k = None \<and> e = newEvent src DeleteType k v)"
proof -
  have "set ku = {k. \<exists>v. upd k = Some v}" "set kc = {k. \<exists>v. cur k = Some v}"
    using assms by (auto simp: walk_of_def)
  then show ?thesis by (simp add: PopulateEvents_def created_or_updated_iff deleted_iff split del: if_split) blast
qed

lemma distinct_concat_keys:
  assumes "distinct ks" and "\<And>k. distinct (map Key (f k))" and "\<And>k e. e \<in> set (f k) \<Longrightarrow> Key e = k"
  shows "distinct (map Key (concat (map f ks)))"
  using assms(1)
proof (induction ks)
  case (Cons k ks)
  have "Key ` set (f k) \<inter> Key ` (\<Union>k'\<in>set ks. set (f k')) = {}"
    using Cons.prems assms(3) by fastforce
  then show ?case using Cons assms(2) by (auto simp: image_Union)
qed simp

lemma PopulateEvents_distinct:
  assumes "walk_of upd ku" "walk_of cur kc"
  shows "distinct (map Key (PopulateEvents src cur upd ku kc))"
proof -
  have "distinct (map Key (concat (map (created_or_updated src cur upd) ku)))"
    using assms(1) by (intro distinct_concat_keys)
      (auto simp: walk_of_def created_or_updated_iff, auto simp: created_or_updated_def split: option.splits)
  moreover have "distinct (map Key (concat (map (deleted src cur upd) kc)))"
    using assms(2) by (intro distinct_concat_keys)
      (auto simp: walk_of_def deleted_iff, auto simp: deleted_def split: option.splits)
  ultimately show ?thesis
    by (auto simp: PopulateEvents_def created_or_updated_iff deleted_iff)
qed

lemma foldl_apply_event_other:
  "k \<notin> Key ` set es \<Longrightarrow> foldl apply_event c es k = c k"
  by (induction es arbitrary: c) (auto simp: apply_event_def split: event_type.splits)

lemma foldl_apply_event_key:
  assumes "distinct (map Key es)" "e \<in> set es"
  shows "foldl apply_event c es (Key e) = (if EventType e = DeleteType then None else Some (Value e))"
  using assms
proof (induction es arbitrary: c)
  case (Cons e' es)
  show ?case
  proof (cases "e = e'")
    case True
    with Cons.prems have "Key e \<notin> Key ` set es" by auto
    then show ?thesis using True
      by (simp add: foldl_apply_event_other) (simp add: apply_event_def split: event_type.splits)
  next
    case False
    then show ?thesis using Cons by simp
  qed
qed simp

lemma PopulateEvents_exact:
  assumes "walk_of updated walk_updated" and "walk_of current walk_current"
  shows "foldl apply_event current (PopulateEvents src current updated walk_updated walk_current) = updated
    \<and> distinct (map Key (PopulateEvents src current updated walk_updated walk_current))"
proof
  let ?es = "PopulateEvents src current updated walk_updated walk_current"
  show d: "distinct (map Key ?es)" by (rule PopulateEvents_distinct [OF assms])
  note iff = PopulateEvents_iff [OF assms]
  show "foldl apply_event current ?es = updated"
  proof
    fix k
    show "foldl apply_event current ?es k = updated k"
    proof (cases "k \<in> Key ` set ?es")
      case True
      then obtain e where e: "e \<in> set ?es" "k = Key e" by blast
      show ?thesis using e foldl_apply_event_key [OF d e(1)] by (auto simp: iff split: if_splits)
    next
      case False
      then have "current k = updated k"
        by (cases "current k"; cases "updated k") (force simp: iff image_iff)+
      then show ?thesis by (simp add: foldl_apply_event_other [OF False])
    qed
  qed
qed

text \<open>C17: The events of a refresh carry exactly the change: whatever order Go walks the two maps in, applying
  the events to the old configuration gives the new one, and no key has more than one event.\<close>

theorem PopulateEvents_complete:
  assumes "walk_of updated walk_updated" and "walk_of current walk_current"
  shows "foldl apply_event current (PopulateEvents src current updated walk_updated walk_current) = updated
    \<and> distinct (map Key (PopulateEvents src current updated walk_updated walk_current))"
  using assms by (rule PopulateEvents_exact)

lemma PopulateEvents_complete_witness:
  "foldl apply_event [''a'' \<mapsto> ''1'', ''b'' \<mapsto> ''2'']
     (PopulateEvents ''FileSource'' [''a'' \<mapsto> ''1'', ''b'' \<mapsto> ''2''] [''b'' \<mapsto> ''3'', ''c'' \<mapsto> ''4'']
        [''c'', ''b''] [''a'', ''b'']) = [''b'' \<mapsto> ''3'', ''c'' \<mapsto> ''4'']"
  by (rule PopulateEvents_complete [THEN conjunct1]) (auto simp: walk_of_def)

section \<open>The dispatcher\<close>

record 'h handler =
  identity :: string
  onEvent :: 'h

definition NewHandler :: "string \<Rightarrow> 'h \<Rightarrow> 'h handler" where
  "NewHandler ident f = \<lparr>identity = ident, onEvent = f\<rparr>"

record 'h EventDispatcher =
  registry :: "string \<rightharpoonup> 'h handler list"
  keyPrefix :: "string list"

definition NewEventDispatcher :: "'h EventDispatcher" where
  "NewEventDispatcher = \<lparr>registry = Map.empty, keyPrefix = []\<rparr>"

definition Dispatcher_Get :: "'h EventDispatcher \<Rightarrow> string \<Rightarrow> 'h handler list" where
  "Dispatcher_Get ed key = (case registry ed (format_key key) of None \<Rightarrow> [] | Some hs \<Rightarrow> hs)"

text \<open>The handlers \<open>Dispatch\<close> calls, in order.\<close>

definition Dispatch :: "'h EventDispatcher \<Rightarrow> Event \<Rightarrow> 'h handler list" where
  "Dispatch ed event =
     (let realKey = format_key (Key event)
      in case registry ed realKey of
           Some hs \<Rightarrow> hs
         | None \<Rightarrow> foldl (\<lambda>hs v. if is_prefix_of v realKey
                              then (case registry ed v of Some gs \<Rightarrow> hs @ gs | None \<Rightarrow> hs) else hs)
                     [] (keyPrefix ed))"

definition Register :: "'h EventDispatcher \<Rightarrow> string \<Rightarrow> 'h handler \<Rightarrow> 'h EventDispatcher" where
  "Register ed key0 handler =
     (let key = format_key key0
      in case registry ed key of
           Some v \<Rightarrow> ed\<lparr>registry := (registry ed)(key \<mapsto> v @ [handler])\<rparr>
         | None \<Rightarrow> ed\<lparr>registry := (registry ed)(key \<mapsto> [handler])\<rparr>)"

definition RegisterForKeyPrefix :: "'h EventDispatcher \<Rightarrow> string \<Rightarrow> 'h handler \<Rightarrow> 'h EventDispatcher" where
  "RegisterForKeyPrefix ed prefix0 handler =
     (let prefix = format_key prefix0;
          ed' = (case registry ed prefix of
                   Some v \<Rightarrow> ed\<lparr>registry := (registry ed)(prefix \<mapsto> v @ [handler])\<rparr>
                 | None \<Rightarrow> ed\<lparr>registry := (registry ed)(prefix \<mapsto> [handler])\<rparr>)
      in ed'\<lparr>keyPrefix := keyPrefix ed' @ [prefix]\<rparr>)"

fun other_handlers :: "'h handler list \<Rightarrow> 'h handler \<Rightarrow> 'h handler list" where
  "other_handlers [] handler = []"
| "other_handlers (eh # v) handler =
     (if identity eh = identity handler then other_handlers v handler else eh # other_handlers v handler)"

definition Unregister :: "'h EventDispatcher \<Rightarrow> string \<Rightarrow> 'h handler \<Rightarrow> 'h EventDispatcher" where
  "Unregister ed key0 handler =
     (let key = format_key key0
      in case registry ed key of
           None \<Rightarrow> ed
         | Some v \<Rightarrow> ed\<lparr>registry := (registry ed)(key \<mapsto> other_handlers v handler)\<rparr>)"

lemma other_handlers_eq: "other_handlers v h = filter (\<lambda>eh. identity eh \<noteq> identity h) v"
  by (induction v) auto

lemmas dispatcher_defs =
  Dispatch_def Register_def RegisterForKeyPrefix_def Unregister_def NewEventDispatcher_def Let_def

text \<open>A handler registered for the key of an event is called, after those registered before it; once a handler
  is unregistered no handler of its name is called for the key, and the others are called as before.\<close>

lemma Dispatch_registered:
  "Dispatch (Register ed (Key event) h) event =
     (case registry ed (format_key (Key event)) of Some hs \<Rightarrow> hs @ [h] | None \<Rightarrow> [h])"
  by (auto simp: dispatcher_defs split: option.splits)

lemma Dispatch_unregistered:
  "registry ed (format_key (Key event)) = Some hs \<Longrightarrow>
     Dispatch (Unregister ed (Key event) h) event = filter (\<lambda>eh. identity eh \<noteq> identity h) hs"
  by (auto simp: dispatcher_defs other_handlers_eq split: option.splits)

text \<open>Two faults of prefix registration. Two handlers registered for the same prefix are each called twice
  for a key below it, since the prefix is listed once for each of them and stands for both. And a handler that
  is registered for a key and unregistered again leaves an empty group behind, which hides the handlers of the
  prefix from the events of that key.\<close>

theorem RegisterForKeyPrefix_faults:
  assumes "is_prefix_of (format_key p) (format_key (Key event))"
    and "format_key p \<noteq> format_key (Key event)"
  shows "Dispatch (RegisterForKeyPrefix (RegisterForKeyPrefix NewEventDispatcher p h1) p h2) event
           = [h1, h2, h1, h2]
    \<and> Dispatch (RegisterForKeyPrefix NewEventDispatcher p h1) event = [h1]
    \<and> Dispatch (Unregister (Register (RegisterForKeyPrefix NewEventDispatcher p h1) (Key event) h2)
                 (Key event) h2) event = []"
  using assms by (auto simp: dispatcher_defs)

lemma RegisterForKeyPrefix_faults_witness:
  "Dispatch (RegisterForKeyPrefix (RegisterForKeyPrefix NewEventDispatcher ''trace.'' (NewHandler ''a'' ()))
               ''trace.'' (NewHandler ''b'' ())) (newEvent ''FileSource'' UpdateType ''trace.exporter'' ''noop'')
     = [NewHandler ''a'' (), NewHandler ''b'' (), NewHandler ''a'' (), NewHandler ''b'' ()]"
  by (rule RegisterForKeyPrefix_faults [THEN conjunct1])
    (simp_all add: format_key_def ToLower_def lower_char_def)

end
