(* ===== verification/ConfigSource.thy ===== *)
theory ConfigSource
  imports ConfigEvents
begin

text \<open>
  pkg/config: the sources of the configuration (source.go, env\_source.go, file\_source.go) and the refresher
  that polls a source (refresher.go).

  \<^item> \<open>Source\<close> is what the manager sees of a source, and what its implementations keep: name, priority, the
    configuration read last, whether an event handler is set, and the files of a file source.
  \<^item> The environment is a list of byte strings. Go cuts an entry into runes with an index counted in bytes, so
    the model decodes UTF-8 (\<open>runes\<close>).
  \<^item> Reading a YAML file is a parameter \<open>viper\<close>: the file is missing, broken, or gives keys with values.
  \<^item> The refresher is a step relation: the goroutine that polls and any number of callers of \<open>stop\<close>.
\<close>

datatype config_error =
  KeyNotFound string | ErrKeyNotFound | ErrIgnoreChange | DuplicateSource | InvalidSource
  | ReadConfigFailed string | FailedToLoad string config_error

abbreviation HighPriority :: int where "HighPriority \<equiv> 1"
abbreviation NormalPriority :: int where "NormalPriority \<equiv> HighPriority + 10"
abbreviation LowPriority :: int where "LowPriority \<equiv> NormalPriority + 10"

section \<open>The environment\<close>

text \<open>The bytes of the first rune of a non-empty string, and whether they are valid UTF-8; an invalid byte is
  a rune of its own.\<close>

definition cont_byte :: "nat \<Rightarrow> nat \<Rightarrow> string \<Rightarrow> bool" where
  "cont_byte lo hi s = (case s of [] \<Rightarrow> False | c # _ \<Rightarrow> lo \<le> (of_char c :: nat) \<and> (of_char c :: nat) \<le> hi)"

definition first_rune :: "char \<Rightarrow> string \<Rightarrow> nat \<times> bool" where
  "first_rune c s =
     (let b = of_char c :: nat;
          more = (\<lambda>n. cont_byte 128 191 (drop n s))
      in if b < 128 then (1, True)
         else if 194 \<le> b \<and> b \<le> 223 \<and> more 0 then (2, True)
         else if 224 \<le> b \<and> b \<le> 239 \<and> more 1
                 \<and> cont_byte (if b = 224 then 160 else 128) (if b = 237 then 159 else 191) s then (3, True)
         else if 240 \<le> b \<and> b \<le> 244 \<and> more 1 \<and> more 2
                 \<and> cont_byte (if b = 240 then 144 else 128) (if b = 244 then 143 else 191) s then (4, True)
         else (1, False))"

text \<open>\<open>[]rune(s)\<close>, each rune as the bytes \<open>string\<close> makes of it: an invalid byte becomes the replacement
  character.\<close>

definition rune_error :: string where
  "rune_error = [CHR 0xEF, CHR 0xBF, CHR 0xBD]"

fun runes :: "string \<Rightarrow> string list" where
  "runes [] = []"
| "runes (c # s) =
     (case first_rune c s of
        (w, True) \<Rightarrow> take w (c # s) # runes (drop (w - 1) s)
      | (w, False) \<Rightarrow> rune_error # runes (drop (w - 1) s))"

definition string_of_runes :: "string list \<Rightarrow> string" where
  "string_of_runes rs = concat rs"

text \<open>\<open>strings.Index(s, "=")\<close>, counted in bytes.\<close>

fun byte_index :: "char \<Rightarrow> string \<Rightarrow> int" where
  "byte_index x [] = - 1"
| "byte_index x (c # s) = (if c = x then 0 else if byte_index x s < 0 then - 1 else byte_index x s + 1)"

definition env_entry :: "(string \<Rightarrow> string) \<Rightarrow> (string \<rightharpoonup> string) \<Rightarrow> string \<Rightarrow>
    (config_error, string \<rightharpoonup> string) outcome" where
  "env_entry KeyFormatter configs value =
     (let rs = runes value; i = byte_index (CHR ''='') value
      in bindO (go_slice rs 0 i) (\<lambda>k.
         bindO (go_slice rs (i + 1) (int (length rs))) (\<lambda>v.
           let key = string_of_runes k; val = string_of_runes v; envKey = KeyFormatter key
           in Ok (configs(key \<mapsto> val, envKey \<mapsto> val)))))"

record Source =
  GetSourceName :: string
  GetPriority :: int
  src_configs :: "string \<rightharpoonup> string"
  src_eh :: bool
  src_files :: "string list option"

definition NewEnvSource :: "(string \<Rightarrow> string) \<Rightarrow> string list \<Rightarrow> (config_error, Source) outcome" where
  "NewEnvSource KeyFormatter environ =
     bindO (foldO (env_entry KeyFormatter) Map.empty environ) (\<lambda>configs.
       Ok \<lparr>GetSourceName = ''EnvironmentSource'', GetPriority = NormalPriority, src_configs = configs,
           src_eh = False, src_files = None\<rparr>)"

lemma runes_ascii: "\<forall>c\<in>set s. (of_char c :: nat) < 128 \<Longrightarrow> runes (s @ t) = map (\<lambda>c. [c]) s @ runes t"
  by (induction s) (auto simp: first_rune_def)

lemma index_of_eq: "x \<notin> set s \<Longrightarrow> byte_index x (s @ x # t) = int (length s)"
  by (induction s) auto

text \<open>An entry with an ASCII name and a valid value is read as it should be.\<close>

lemma env_entry_ascii:
  assumes "\<forall>c\<in>set k. (of_char c :: nat) < 128" and "CHR ''='' \<notin> set k" and "concat (runes v) = v"
  shows "env_entry f configs (k @ ''='' @ v) = Ok (configs(k \<mapsto> v, f k \<mapsto> v))"
proof -
  have rs: "runes (k @ ''='' @ v) = map (\<lambda>c. [c]) k @ [''=''] @ runes v"
    using runes_ascii [OF assms(1), of "''='' @ v"] by (simp add: first_rune_def)
  have i: "byte_index (CHR ''='') (k @ ''='' @ v) = int (length k)"
    using index_of_eq [OF assms(2), of v] by simp
  have k: "concat (map (\<lambda>c. [c]) k) = k" by (induction k) auto
  show ?thesis
    unfolding env_entry_def rs i Let_def go_slice_def string_of_runes_def by (simp add: assms(3) k nat_add_distrib)
qed

definition good_entry :: "string \<times> string \<Rightarrow> bool" where
  "good_entry = (\<lambda>(k, v). (\<forall>c\<in>set k. (of_char c :: nat) < 128) \<and> CHR ''='' \<notin> set k \<and> concat (runes v) = v)"

definition set_var :: "(string \<Rightarrow> string) \<Rightarrow> (string \<rightharpoonup> string) \<Rightarrow> string \<times> string \<Rightarrow> (string \<rightharpoonup> string)" where
  "set_var f configs = (\<lambda>(k, v). configs(k \<mapsto> v, f k \<mapsto> v))"

lemma env_entries_ascii:
  "\<forall>e\<in>set es. good_entry e \<Longrightarrow>
     foldO (env_entry f) configs (map (\<lambda>(k, v). k @ ''='' @ v) es) = Ok (foldl (set_var f) configs es)"
proof (induction es arbitrary: configs)
  case (Cons e es)
  obtain k v where e: "e = (k, v)" by (cases e)
  then have "env_entry f configs (k @ ''='' @ v) = Ok (set_var f configs (k, v))"
    using Cons.prems env_entry_ascii [of k v f configs] by (simp add: good_entry_def set_var_def)
  then show ?case using Cons e by simp
qed simp

text \<open>The Latin small letter e with an acute accent, two bytes.\<close>

definition e_acute :: string where
  "e_acute = [CHR 0xC3, CHR 0xA9]"

text \<open>An environment whose names are ASCII and whose values are valid UTF-8 is read without a panic: every
  entry sets its name and its formatted name, later entries over earlier ones. But the index of the equals sign
  is counted in bytes and used to cut runes: a name with one two-byte letter takes the equals sign into the key
  and loses the value, and with two of them the program panics while it starts.\<close>

theorem NewEnvSource_reads:
  assumes "\<forall>e\<in>set es. good_entry e"
  shows "NewEnvSource f (map (\<lambda>(k, v). k @ ''='' @ v) es)
           = Ok \<lparr>GetSourceName = ''EnvironmentSource'', GetPriority = 11,
                 src_configs = foldl (set_var f) Map.empty es, src_eh = False, src_files = None\<rparr>
    \<and> env_entry f Map.empty (e_acute @ ''=v'') = Ok [e_acute @ ''='' \<mapsto> '''', f (e_acute @ ''='') \<mapsto> '''']
    \<and> is_Panic (NewEnvSource f [e_acute @ e_acute @ ''=v''])"
  using env_entries_ascii [OF assms]
  by (simp add: NewEnvSource_def env_entry_def e_acute_def first_rune_def cont_byte_def go_slice_def
      string_of_runes_def Let_def)

lemma format_key_sample: "format_key ''A_B'' = ''ab''"
  by code_simp

lemma NewEnvSource_reads_witness:
  "NewEnvSource format_key [''A_B=1=2'']
     = Ok \<lparr>GetSourceName = ''EnvironmentSource'', GetPriority = 11,
           src_configs = [''A_B'' \<mapsto> ''1=2'', ''ab'' \<mapsto> ''1=2''], src_eh = False, src_files = None\<rparr>"
  using NewEnvSource_reads [of "[(''A_B'', ''1=2'')]" format_key]
  by (simp add: good_entry_def set_var_def format_key_sample first_rune_def)

section \<open>Files\<close>

text \<open>What viper finds in a file: a value that casts to a string, a list whose items may fail to cast, or
  something else.\<close>

datatype yaml_value = Scalar string | Items "string option list" | Other

datatype yaml_file = Missing | Broken | Keys "(string \<times> yaml_value) list"

definition join_item :: "string \<Rightarrow> string option \<Rightarrow> string" where
  "join_item str item =
     (let ss = (case item of Some ss \<Rightarrow> ss | None \<Rightarrow> '''')
      in if str = '''' then ss else str @ '','' @ ss)"

fun yaml_string :: "yaml_value \<Rightarrow> string option" where
  "yaml_string (Scalar str) = Some str"
| "yaml_string (Items items) = Some (foldl join_item '''' items)"
| "yaml_string Other = None"

definition load_key :: "(string \<rightharpoonup> string) \<Rightarrow> string \<times> yaml_value \<Rightarrow> (string \<rightharpoonup> string)" where
  "load_key newConfig = (\<lambda>(key, val).
     case yaml_string val of
       None \<Rightarrow> newConfig
     | Some str \<Rightarrow> newConfig(key \<mapsto> str, format_key key \<mapsto> str))"

definition load_file ::
  "(string \<Rightarrow> yaml_file) \<Rightarrow> (string \<rightharpoonup> string) \<Rightarrow> string \<Rightarrow> (config_error, string \<rightharpoonup> string) outcome" where
  "load_file viper newConfig configFile =
     (case viper configFile of
        Missing \<Rightarrow> Ok newConfig
      | Broken \<Rightarrow> Err (ReadConfigFailed configFile)
      | Keys kvs \<Rightarrow> Ok (foldl load_key newConfig kvs))"

definition load_files :: "(string \<Rightarrow> yaml_file) \<Rightarrow> string list \<Rightarrow> (config_error, string \<rightharpoonup> string) outcome" where
  "load_files viper configFiles = foldO (load_file viper) Map.empty configFiles"

definition NewFileSource :: "string list \<Rightarrow> Source" where
  "NewFileSource fs =
     \<lparr>GetSourceName = ''FileSource'', GetPriority = LowPriority, src_configs = Map.empty, src_eh = False,
      src_files = Some fs\<rparr>"

definition GetConfigurationByKey :: "Source \<Rightarrow> string \<Rightarrow> (config_error, string) outcome" where
  "GetConfigurationByKey s key =
     (case src_configs s key of None \<Rightarrow> Err (KeyNotFound key) | Some v \<Rightarrow> Ok v)"

text \<open>The configuration a source reads when it is asked for all of it: a file source reads its files.\<close>

definition fetch :: "(string \<Rightarrow> yaml_file) \<Rightarrow> Source \<Rightarrow> (config_error, string \<rightharpoonup> string) outcome" where
  "fetch viper s = (case src_files s of None \<Rightarrow> Ok (src_configs s) | Some fs \<Rightarrow> load_files viper fs)"

text \<open>\<open>fireEvents\<close>: the events the handler is given, none without a handler.\<close>

definition fireEvents :: "Source \<Rightarrow> (string \<rightharpoonup> string) \<Rightarrow> string list \<Rightarrow> string list \<Rightarrow> Event list" where
  "fireEvents s target walk_updated walk_current =
     (if src_eh s then PopulateEvents (GetSourceName s) (src_configs s) target walk_updated walk_current else [])"

definition UpdateOptions :: "string list option \<Rightarrow> Source \<Rightarrow> Source" where
  "UpdateOptions opt s =
     (case (src_files s, opt) of (Some _, Some fs) \<Rightarrow> s\<lparr>src_files := Some fs\<rparr> | _ \<Rightarrow> s)"

lemma load_files_skips_missing:
  "load_files viper (filter (\<lambda>f. viper f \<noteq> Missing) fs) = load_files viper fs"
proof -
  have "foldO (load_file viper) c (filter (\<lambda>f. viper f \<noteq> Missing) fs) = foldO (load_file viper) c fs" for c
    by (induction fs arbitrary: c) (auto simp: load_file_def)
  then show ?thesis by (simp add: load_files_def)
qed

end
