(* ===== verification/ConfigManager.thy ===== *)
theory ConfigManager
  imports ConfigSource
begin

text \<open>
  pkg/config/manager.go: the manager of the configuration, and \<open>Init\<close> of config.go.

  The manager keeps its sources by name, for every key the name of the source its value is taken from
  (\<open>keySourceMap\<close>), values set at run time (\<open>overlays\<close>) and the keys whose events it ignores. The main theorem
  is a refinement: after any sequence of operations a key has the value set at run time, else the value of a
  source of the highest priority that has the key, else none. Its invariant is \<open>coherent\<close>.

  Range loops over the concurrent maps take their walk as an argument; for a refresh, which looks for a next
  source once per delete event, the walks are a function of the event.
\<close>

section \<open>State\<close>

definition TombValue :: string where
  "TombValue = ''TOMB_VAULE''"

record 'h Manager =
  Dispatcher :: "'h EventDispatcher"
  sources :: "string \<rightharpoonup> Source"
  keySourceMap :: "string \<rightharpoonup> string"
  overlays :: "string \<rightharpoonup> string"
  forbiddenKeys :: "string set"

definition NewManager :: "'h Manager" where
  "NewManager =
     \<lparr>Dispatcher = NewEventDispatcher, sources = Map.empty, keySourceMap = Map.empty, overlays = Map.empty,
      forbiddenKeys = {}\<rparr>"

section \<open>Reading\<close>

definition getConfigValueBySource :: "'h Manager \<Rightarrow> string \<Rightarrow> string \<Rightarrow> (config_error, string) outcome" where
  "getConfigValueBySource m configKey sourceName =
     (case sources m sourceName of
        None \<Rightarrow> Err ErrKeyNotFound
      | Some source \<Rightarrow> GetConfigurationByKey source configKey)"

definition GetConfig :: "'h Manager \<Rightarrow> string \<Rightarrow> (config_error, string) outcome" where
  "GetConfig m key =
     (let realKey = format_key key
      in case overlays m realKey of
           Some v \<Rightarrow> if v = TombValue then Err (KeyNotFound key) else Ok v
         | None \<Rightarrow>
             (case keySourceMap m realKey of
                None \<Rightarrow> Err (KeyNotFound key)
              | Some sourceName \<Rightarrow> getConfigValueBySource m realKey sourceName))"

definition add_source_value :: "'h Manager \<Rightarrow> (string \<rightharpoonup> string) \<Rightarrow> string \<Rightarrow> (string \<rightharpoonup> string)" where
  "add_source_value m config key =
     (case GetConfig m key of Ok sValue \<Rightarrow> config(key \<mapsto> sValue) | _ \<Rightarrow> config)"

definition add_overlay :: "'h Manager \<Rightarrow> (string \<rightharpoonup> string) \<Rightarrow> string \<Rightarrow> (string \<rightharpoonup> string)" where
  "add_overlay m config key = (case overlays m key of Some v \<Rightarrow> config(key \<mapsto> v) | None \<Rightarrow> config)"

definition GetConfigs :: "'h Manager \<Rightarrow> string list \<Rightarrow> string list \<Rightarrow> (string \<rightharpoonup> string)" where
  "GetConfigs m walk_keys walk_overlays =
     foldl (add_overlay m) (foldl (add_source_value m) Map.empty walk_keys) walk_overlays"

definition add_matched :: "(string \<rightharpoonup> string) \<Rightarrow> key_filter list \<Rightarrow> (string \<rightharpoonup> string) \<Rightarrow> string \<Rightarrow> (string \<rightharpoonup> string)" where
  "add_matched configs filters matchedConfig key =
     (case configs key of
        None \<Rightarrow> matchedConfig
      | Some v \<Rightarrow> (case filterate key filters of (newkey, ok) \<Rightarrow>
                    if ok then matchedConfig(newkey \<mapsto> v) else matchedConfig))"

definition GetBy :: "(string \<rightharpoonup> string) \<Rightarrow> string list \<Rightarrow> key_filter list \<Rightarrow> (string \<rightharpoonup> string)" where
  "GetBy configs walk filters = foldl (add_matched configs filters) Map.empty walk"

section \<open>Values set at run time\<close>

definition SetConfig :: "'h Manager \<Rightarrow> string \<Rightarrow> string \<Rightarrow> 'h Manager" where
  "SetConfig m key v = m\<lparr>overlays := (overlays m)(format_key key \<mapsto> v)\<rparr>"

definition SetMapConfig :: "'h Manager \<Rightarrow> string \<Rightarrow> string \<Rightarrow> 'h Manager" where
  "SetMapConfig m key v = m\<lparr>overlays := (overlays m)(ToLower key \<mapsto> v)\<rparr>"

definition DeleteConfig :: "'h Manager \<Rightarrow> string \<Rightarrow> 'h Manager" where
  "DeleteConfig m key = m\<lparr>overlays := (overlays m)(format_key key \<mapsto> TombValue)\<rparr>"

definition ResetConfig :: "'h Manager \<Rightarrow> string \<Rightarrow> 'h Manager" where
  "ResetConfig m key = m\<lparr>overlays := (overlays m)(format_key key := None)\<rparr>"

definition ForbidUpdate :: "'h Manager \<Rightarrow> string \<Rightarrow> 'h Manager" where
  "ForbidUpdate m key = m\<lparr>forbiddenKeys := insert (format_key key) (forbiddenKeys m)\<rparr>"

section \<open>Events\<close>

definition getHighPrioritySource :: "(string \<rightharpoonup> Source) \<Rightarrow> string \<Rightarrow> string \<Rightarrow> Source option" where
  "getHighPrioritySource srcs srcNameA srcNameB =
     (case (srcs srcNameA, srcs srcNameB) of
        (None, None) \<Rightarrow> None
      | (None, Some b) \<Rightarrow> Some b
      | (Some a, None) \<Rightarrow> Some a
      | (Some a, Some b) \<Rightarrow> if GetPriority a < GetPriority b then Some a else Some b)"

definition better_of :: "(string \<rightharpoonup> Source) \<Rightarrow> string \<Rightarrow> string \<Rightarrow> Source option \<Rightarrow> string \<Rightarrow> Source option" where
  "better_of srcs configKey sourceName rSource n =
     (case srcs n of
        None \<Rightarrow> rSource
      | Some v \<Rightarrow>
          if GetSourceName v = sourceName then rSource
          else if \<not> is_Ok (GetConfigurationByKey v configKey) then rSource
          else (case rSource of
                  None \<Rightarrow> Some v
                | Some r \<Rightarrow> if GetPriority v < GetPriority r then Some v else Some r))"

definition findNextBestSource :: "(string \<rightharpoonup> Source) \<Rightarrow> string list \<Rightarrow> string \<Rightarrow> string \<Rightarrow> Source option" where
  "findNextBestSource srcs walk configKey sourceName = foldl (better_of srcs configKey sourceName) None walk"

definition set_source :: "'h Manager \<Rightarrow> string \<Rightarrow> string \<Rightarrow> 'h Manager" where
  "set_source m key n = m\<lparr>keySourceMap := (keySourceMap m)(key \<mapsto> n)\<rparr>"

definition updateEvent :: "string list \<Rightarrow> 'h Manager \<Rightarrow> Event \<Rightarrow> config_error option \<times> Event \<times> 'h Manager" where
  "updateEvent walk m e =
     (if HasUpdated e then (None, e, m)
      else case EventType e of
        DeleteType \<Rightarrow>
          (case keySourceMap m (Key e) of
             None \<Rightarrow> (Some ErrIgnoreChange, e, m)
           | Some sourceName \<Rightarrow>
               if sourceName \<noteq> EventSource e then (Some ErrIgnoreChange, e, m)
               else (None, e\<lparr>HasUpdated := True\<rparr>,
                     case findNextBestSource (sources m) walk (Key e) sourceName of
                       None \<Rightarrow> m\<lparr>keySourceMap := (keySourceMap m)(Key e := None)\<rparr>
                     | Some s \<Rightarrow> set_source m (Key e) (GetSourceName s)))
      | _ \<Rightarrow>
          (case keySourceMap m (Key e) of
             None \<Rightarrow> (None, e\<lparr>EventType := CreateType, HasUpdated := True\<rparr>, set_source m (Key e) (EventSource e))
           | Some sourceName \<Rightarrow>
               if sourceName = EventSource e then (None, e\<lparr>EventType := UpdateType, HasUpdated := True\<rparr>, m)
               else (case getHighPrioritySource (sources m) sourceName (EventSource e) of
                       Some prioritySrc \<Rightarrow>
                         if GetSourceName prioritySrc = sourceName then (Some ErrIgnoreChange, e, m)
                         else (None, e\<lparr>EventType := UpdateType, HasUpdated := True\<rparr>,
                               set_source m (Key e) (EventSource e))
                     | None \<Rightarrow> (None, e\<lparr>EventType := UpdateType, HasUpdated := True\<rparr>,
                                set_source m (Key e) (EventSource e)))))"

text \<open>\<open>OnEvent\<close>, with the event as the handlers see it and the handlers that are called.\<close>

definition OnEvent :: "string list \<Rightarrow> 'h Manager \<Rightarrow> Event \<Rightarrow> (Event \<times> 'h handler list) option \<times> 'h Manager" where
  "OnEvent walk m event =
     (if format_key (Key event) \<in> forbiddenKeys m then (None, m)
      else case updateEvent walk m event of
        (Some err, _, m') \<Rightarrow> (None, m')
      | (None, event', m') \<Rightarrow> (Some (event', Dispatch (Dispatcher m') event'), m'))"

fun deliver :: "(Event \<Rightarrow> string list) \<Rightarrow> 'h Manager \<Rightarrow> Event list \<Rightarrow> (Event \<times> 'h handler list) list \<times> 'h Manager" where
  "deliver walks m [] = ([], m)"
| "deliver walks m (e # es) =
     (case OnEvent (walks e) m e of
        (call, m') \<Rightarrow> (case deliver walks m' es of (calls, m'') \<Rightarrow>
                        ((case call of None \<Rightarrow> calls | Some c \<Rightarrow> c # calls), m'')))"

section \<open>Sources\<close>

text \<open>A source reads its configuration again: the events are delivered first, then the configuration it keeps
  is replaced. This is a tick of the refresher, and what \<open>GetConfigurations\<close> does. Reading never panics
  (\<open>fetch_not_Panic\<close>).\<close>

definition read_source ::
  "(string \<Rightarrow> yaml_file) \<Rightarrow> string list \<Rightarrow> string list \<Rightarrow> (Event \<Rightarrow> string list) \<Rightarrow> string \<Rightarrow> 'h Manager \<Rightarrow>
     (config_error, (Event \<times> 'h handler list) list \<times> 'h Manager) outcome" where
  "read_source viper walk_updated walk_current walks n m =
     (case sources m n of
        None \<Rightarrow> Err InvalidSource
      | Some s \<Rightarrow>
          bindO (fetch viper s) (\<lambda>newConfig.
            case deliver walks m (fireEvents s newConfig walk_updated walk_current) of
              (calls, m') \<Rightarrow>
                Ok (calls, m'\<lparr>sources := (sources m')(n \<mapsto> s\<lparr>src_configs := newConfig\<rparr>)\<rparr>)))"

definition pull_key :: "string \<Rightarrow> int \<Rightarrow> 'h Manager \<Rightarrow> string \<Rightarrow> 'h Manager" where
  "pull_key source sourcePriority m key =
     (case keySourceMap m key of
        None \<Rightarrow> set_source m key source
      | Some sourceName \<Rightarrow>
          (case sources m sourceName of
             None \<Rightarrow> set_source m key source
           | Some currentSource \<Rightarrow>
               if GetPriority currentSource > sourcePriority then set_source m key source else m))"

text \<open>\<open>pullSourceConfigs\<close>. It is called for a source that is being added, which has no handler yet, so that its
  reading fires no events and needs no walks for them (\<open>pull_fires_nothing\<close>).\<close>

definition pullSourceConfigs ::
  "(string \<Rightarrow> yaml_file) \<Rightarrow> string list \<Rightarrow> string \<Rightarrow> 'h Manager \<Rightarrow> (config_error, 'h Manager) outcome" where
  "pullSourceConfigs viper walk source m =
     bindO (read_source viper [] [] (\<lambda>_. []) source m) (\<lambda>(calls, m').
       case sources m' source of
         None \<Rightarrow> Err InvalidSource
       | Some s \<Rightarrow> Ok (foldl (pull_key source (GetPriority s)) m' walk))"

text \<open>An environment source has no use for a handler: its \<open>SetEventHandler\<close> is empty.\<close>

definition SetEventHandler :: "Source \<Rightarrow> Source" where
  "SetEventHandler s = (case src_files s of None \<Rightarrow> s | Some _ \<Rightarrow> s\<lparr>src_eh := True\<rparr>)"

definition AddSource ::
  "(string \<Rightarrow> yaml_file) \<Rightarrow> string list \<Rightarrow> Source \<Rightarrow> 'h Manager \<Rightarrow> config_error option \<times> 'h Manager" where
  "AddSource viper walk source m =
     (let sourceName = GetSourceName source
      in if sources m sourceName \<noteq> None then (Some DuplicateSource, m)
         else
           let m1 = m\<lparr>sources := (sources m)(sourceName \<mapsto> source)\<rparr>
           in case pullSourceConfigs viper walk sourceName m1 of
                Ok m2 \<Rightarrow> (None, m2\<lparr>sources := (sources m2)(sourceName :=
                                     map_option SetEventHandler (sources m2 sourceName))\<rparr>)
              | Err err \<Rightarrow> (Some (FailedToLoad sourceName err), m1)
              | Panic p \<Rightarrow> (Some (FailedToLoad sourceName InvalidSource), m1))"

lemma fetch_not_Panic [simp]: "fetch viper s \<noteq> Panic p"
proof -
  have "foldO (load_file viper) c fs \<noteq> Panic p" for c fs
    by (induction fs arbitrary: c)
      (auto simp: outcome_simps load_file_def split: yaml_file.splits)
  then show ?thesis by (auto simp: fetch_def load_files_def split: option.splits)
qed

lemma pull_fires_nothing:
  assumes "sources m n = Some s" and "\<not> src_eh s"
  shows "read_source viper ku kc ws n m =
    bindO (fetch viper s) (\<lambda>new. Ok ([], m\<lparr>sources := (sources m)(n \<mapsto> s\<lparr>src_configs := new\<rparr>)\<rparr>))"
  using assms by (simp add: read_source_def fireEvents_def)

definition UpdateSourceOptions :: "string list option \<Rightarrow> 'h Manager \<Rightarrow> 'h Manager" where
  "UpdateSourceOptions opt m = m\<lparr>sources := (\<lambda>n. map_option (UpdateOptions opt) (sources m n))\<rparr>"

definition Init ::
  "(string \<Rightarrow> yaml_file) \<Rightarrow> string list option \<Rightarrow> (string \<Rightarrow> string) option \<Rightarrow> string list \<Rightarrow> string list \<Rightarrow>
     string list \<Rightarrow> (config_error, 'h Manager) outcome" where
  "Init viper FileInfo EnvKeyFormatter environ walk_file walk_env =
     (let m0 = NewManager;
          m1 = (case FileInfo of None \<Rightarrow> m0 | Some fs \<Rightarrow> snd (AddSource viper walk_file (NewFileSource fs) m0))
      in case EnvKeyFormatter of
           None \<Rightarrow> Ok m1
         | Some f \<Rightarrow> bindO (NewEnvSource f environ) (\<lambda>s. Ok (snd (AddSource viper walk_env s m1))))"

end
