(* ===== verification/ConfigCoherence.thy ===== *)
theory ConfigCoherence
  imports ConfigManager
begin

text \<open>
  The invariant of the configuration manager and the refinement it gives. \<open>coherent\<close> says that the source
  recorded for a key is a source of the highest priority among those that have the key, and that a key is
  recorded when some source has it; keys whose events are ignored are exempt. Every operation keeps it
  (\<open>manager_step\<close>, \<open>coherent_step\<close>), so \<open>GetConfig\<close> implements the layered reading it promises.
\<close>

section \<open>The invariant\<close>

definition candidate :: "(string \<rightharpoonup> Source) \<Rightarrow> string \<Rightarrow> string \<Rightarrow> Source \<Rightarrow> bool" where
  "candidate srcs key n s \<longleftrightarrow> srcs n = Some s \<and> src_configs s key \<noteq> None"

definition best_source :: "(string \<rightharpoonup> Source) \<Rightarrow> string \<Rightarrow> string \<Rightarrow> bool" where
  "best_source srcs key n \<longleftrightarrow>
     (\<exists>s. candidate srcs key n s \<and> (\<forall>n' s'. candidate srcs key n' s' \<longrightarrow> GetPriority s \<le> GetPriority s'))"

definition coherent_at :: "(string \<rightharpoonup> Source) \<Rightarrow> string option \<Rightarrow> string \<Rightarrow> bool" where
  "coherent_at srcs cur key \<longleftrightarrow>
     (case cur of Some n \<Rightarrow> best_source srcs key n | None \<Rightarrow> \<forall>n s. \<not> candidate srcs key n s)"

definition named :: "(string \<rightharpoonup> Source) \<Rightarrow> bool" where
  "named srcs \<longleftrightarrow> (\<forall>n s. srcs n = Some s \<longrightarrow> GetSourceName s = n)"

definition coherent :: "'h Manager \<Rightarrow> bool" where
  "coherent m \<longleftrightarrow> named (sources m)
     \<and> (\<forall>key. format_key key \<notin> forbiddenKeys m \<longrightarrow> coherent_at (sources m) (keySourceMap m key) key)"

section \<open>The choice of the next source\<close>

definition skips :: "(string \<rightharpoonup> Source) \<Rightarrow> string \<Rightarrow> string \<Rightarrow> string \<Rightarrow> bool" where
  "skips srcs key n w \<longleftrightarrow> w = n \<or> (\<forall>s. \<not> candidate srcs key w s)"

lemma better_of_skip: "named srcs \<Longrightarrow> skips srcs key n w \<Longrightarrow> better_of srcs key n acc w = acc"
  by (auto simp: skips_def better_of_def candidate_def named_def GetConfigurationByKey_def split: option.splits)

lemma better_of_take:
  "named srcs \<Longrightarrow> w \<noteq> n \<Longrightarrow> candidate srcs key w v \<Longrightarrow>
     better_of srcs key n acc w =
       (case acc of None \<Rightarrow> Some v | Some r \<Rightarrow> if GetPriority v < GetPriority r then Some v else Some r)"
  by (auto simp: better_of_def candidate_def named_def GetConfigurationByKey_def)

lemma skips_cases:
  obtains "skips srcs key n w" | v where "w \<noteq> n" "candidate srcs key w v"
  by (auto simp: skips_def)


lemma next_best_in:
  assumes "named srcs" and "foldl (better_of srcs key n) acc walk = Some r"
  shows "acc = Some r \<or> (\<exists>w\<in>set walk. w \<noteq> n \<and> candidate srcs key w r)"
  using assms(2)
proof (induction walk arbitrary: acc)
  case (Cons w walk)
  show ?case
  proof (cases rule: skips_cases [of srcs key n w])
    case 1
    then show ?thesis using Cons assms(1) by (auto simp: better_of_skip)
  next
    case (2 v)
    then show ?thesis
      using Cons.IH [of "better_of srcs key n acc w"] Cons.prems better_of_take [OF assms(1) 2, of acc]
      by (auto split: option.splits if_splits)
  qed
qed simp

lemma next_best_min:
  assumes "named srcs"
    and "acc = Some s \<or> (\<exists>w\<in>set walk. w \<noteq> n \<and> candidate srcs key w s)"
  shows "\<exists>r. foldl (better_of srcs key n) acc walk = Some r \<and> GetPriority r \<le> GetPriority s"
  using assms(2)
proof (induction walk arbitrary: acc s)
  case (Cons w walk)
  have "\<exists>s'. (better_of srcs key n acc w = Some s' \<or> (\<exists>w'\<in>set walk. w' \<noteq> n \<and> candidate srcs key w' s'))
      \<and> GetPriority s' \<le> GetPriority s"
  proof (cases rule: skips_cases [of srcs key n w])
    case 1
    then show ?thesis using Cons.prems assms(1) by (auto simp: better_of_skip skips_def)
  next
    case (2 v)
    then have v: "candidate srcs key w s \<longleftrightarrow> s = v" by (auto simp: candidate_def)
    show ?thesis
    proof (cases "\<exists>w'\<in>set walk. w' \<noteq> n \<and> candidate srcs key w' s")
      case False
      then have "acc = Some s \<or> s = v" using Cons.prems v by auto
      moreover have "\<exists>b. better_of srcs key n acc w = Some b \<and> GetPriority b \<le> GetPriority v
          \<and> (acc = Some s \<longrightarrow> GetPriority b \<le> GetPriority s)"
        using better_of_take [OF assms(1) 2, of acc] by (cases acc) auto
      ultimately show ?thesis by blast
    qed blast
  qed
  then obtain s' where s': "better_of srcs key n acc w = Some s'
        \<or> (\<exists>w'\<in>set walk. w' \<noteq> n \<and> candidate srcs key w' s')" "GetPriority s' \<le> GetPriority s" by blast
  obtain r where "foldl (better_of srcs key n) (better_of srcs key n acc w) walk = Some r"
    "GetPriority r \<le> GetPriority s'" using Cons.IH [OF s'(1)] by blast
  then show ?case using s'(2) by (intro exI [of _ r]) simp
qed simp

lemma findNextBestSource_None:
  assumes "named srcs" "walk_of srcs walk"
  shows "findNextBestSource srcs walk key n = None \<longleftrightarrow> (\<forall>w s. w \<noteq> n \<longrightarrow> \<not> candidate srcs key w s)"
proof
  assume none: "findNextBestSource srcs walk key n = None"
  show "\<forall>w s. w \<noteq> n \<longrightarrow> \<not> candidate srcs key w s"
  proof (intro allI impI notI)
    fix w s assume "w \<noteq> n" "candidate srcs key w s"
    moreover from this have "w \<in> set walk" using assms(2) by (auto simp: walk_of_def candidate_def)
    ultimately show False
      using next_best_min [OF assms(1), of None s walk n key] none by (auto simp: findNextBestSource_def)
  qed
next
  assume "\<forall>w s. w \<noteq> n \<longrightarrow> \<not> candidate srcs key w s"
  then show "findNextBestSource srcs walk key n = None"
    using next_best_in [OF assms(1), of key n None walk] by (cases "findNextBestSource srcs walk key n")
      (auto simp: findNextBestSource_def)
qed

lemma findNextBestSource_Some:
  assumes "named srcs" "walk_of srcs walk" "findNextBestSource srcs walk key n = Some r"
  shows "GetSourceName r \<noteq> n" "candidate srcs key (GetSourceName r) r"
    "w \<noteq> n \<Longrightarrow> candidate srcs key w s \<Longrightarrow> GetPriority r \<le> GetPriority s"
proof -
  obtain w0 where "w0 \<noteq> n" "candidate srcs key w0 r"
    using next_best_in [OF assms(1)] assms(3) unfolding findNextBestSource_def by blast
  then show "GetSourceName r \<noteq> n" "candidate srcs key (GetSourceName r) r"
    using assms(1) by (auto simp: candidate_def named_def)
  assume ws: "w \<noteq> n" "candidate srcs key w s"
  then have "w \<in> set walk" using assms(2) by (auto simp: walk_of_def candidate_def)
  then show "GetPriority r \<le> GetPriority s"
    using next_best_min [OF assms(1), of None s walk n key] ws assms(3) by (auto simp: findNextBestSource_def)
qed

section \<open>What an event does to the source of its key\<close>

definition next_source :: "(string \<rightharpoonup> Source) \<Rightarrow> string list \<Rightarrow> Event \<Rightarrow> string option \<Rightarrow> string option" where
  "next_source srcs walk e cur =
     (case EventType e of
        DeleteType \<Rightarrow>
          if cur = Some (EventSource e)
          then map_option GetSourceName (findNextBestSource srcs walk (Key e) (EventSource e)) else cur
      | _ \<Rightarrow>
          (case cur of
             None \<Rightarrow> Some (EventSource e)
           | Some n \<Rightarrow>
               if n = EventSource e then cur
               else if map_option GetSourceName (getHighPrioritySource srcs n (EventSource e)) = Some n then cur
               else Some (EventSource e)))"

lemma OnEvent_effect:
  assumes "\<not> HasUpdated e"
  shows "sources (snd (OnEvent walk m e)) = sources m" "overlays (snd (OnEvent walk m e)) = overlays m"
    "forbiddenKeys (snd (OnEvent walk m e)) = forbiddenKeys m"
    "Dispatcher (snd (OnEvent walk m e)) = Dispatcher m"
    "keySourceMap (snd (OnEvent walk m e)) = (keySourceMap m)(Key e :=
       if format_key (Key e) \<in> forbiddenKeys m then keySourceMap m (Key e)
       else next_source (sources m) walk e (keySourceMap m (Key e)))"
  using assms
  by (auto simp: OnEvent_def updateEvent_def next_source_def set_source_def fun_eq_iff
      split: event_type.splits option.splits)

lemma deliver_effect:
  assumes "distinct (map Key es)" and "\<forall>e\<in>set es. \<not> HasUpdated e"
  shows "sources (snd (deliver ws m es)) = sources m \<and> overlays (snd (deliver ws m es)) = overlays m
    \<and> forbiddenKeys (snd (deliver ws m es)) = forbiddenKeys m
    \<and> (\<forall>k. k \<notin> Key ` set es \<longrightarrow> keySourceMap (snd (deliver ws m es)) k = keySourceMap m k)
    \<and> (\<forall>e\<in>set es. format_key (Key e) \<notin> forbiddenKeys m \<longrightarrow> keySourceMap (snd (deliver ws m es)) (Key e)
         = next_source (sources m) (ws e) e (keySourceMap m (Key e)))"
  using assms
proof (induction es arbitrary: m)
  case (Cons e es)
  obtain c m' where m': "OnEvent (ws e) m e = (c, m')" by force
  have eff: "sources m' = sources m" "overlays m' = overlays m" "forbiddenKeys m' = forbiddenKeys m"
    "keySourceMap m' = (keySourceMap m)(Key e :=
       if format_key (Key e) \<in> forbiddenKeys m then keySourceMap m (Key e)
       else next_source (sources m) (ws e) e (keySourceMap m (Key e)))"
    using OnEvent_effect [of e "ws e" m] Cons.prems(2) by (simp_all add: m')
  have d: "snd (deliver ws m (e # es)) = snd (deliver ws m' es)"
    by (simp add: m' split: prod.splits)
  have keys: "Key e \<notin> Key ` set es" "\<And>x. x \<in> set es \<Longrightarrow> Key x \<noteq> Key e"
    using Cons.prems(1) by (auto simp: image_iff)
  show ?case
    using Cons.IH [of m'] Cons.prems keys unfolding d by (auto simp: eff)
qed simp

section \<open>Refreshing a source\<close>

definition replaced :: "(string \<rightharpoonup> Source) \<Rightarrow> string \<Rightarrow> Source \<Rightarrow> (string \<rightharpoonup> string) \<Rightarrow> (string \<rightharpoonup> Source)" where
  "replaced srcs n s new = srcs(n \<mapsto> s\<lparr>src_configs := new\<rparr>)"

lemma candidate_replaced:
  "candidate (replaced srcs n s new) key w t \<longleftrightarrow>
     (if w = n then t = s\<lparr>src_configs := new\<rparr> \<and> new key \<noteq> None else candidate srcs key w t)"
  by (auto simp: candidate_def replaced_def)

lemma named_replaced: "named srcs \<Longrightarrow> srcs n = Some s \<Longrightarrow> named (replaced srcs n s new)"
  by (auto simp: named_def replaced_def)

lemma best_sourceI:
  "candidate srcs key n s \<Longrightarrow> (\<And>n' s'. candidate srcs key n' s' \<Longrightarrow> GetPriority s \<le> GetPriority s') \<Longrightarrow>
     best_source srcs key n"
  by (auto simp: best_source_def)

lemma coherent_at_unchanged:
  assumes "coherent_at srcs cur key" and "srcs n = Some s" and "new key = None \<longleftrightarrow> src_configs s key = None"
  shows "coherent_at (replaced srcs n s new) cur key"
proof (cases cur)
  case None
  then have "\<not> candidate srcs key w t" for w t using assms(1) by (simp add: coherent_at_def)
  moreover have "new key = None" using assms calculation [of n s] by (simp add: candidate_def)
  ultimately show ?thesis by (simp add: coherent_at_def None candidate_replaced)
next
  case (Some c)
  then obtain sc where sc: "candidate srcs key c sc"
    and best: "\<And>n' s'. candidate srcs key n' s' \<Longrightarrow> GetPriority sc \<le> GetPriority s'"
    using assms(1) by (auto simp: coherent_at_def best_source_def)
  have cand_n: "new key \<noteq> None \<longleftrightarrow> candidate srcs key n s" using assms(2,3) by (auto simp: candidate_def)
  have "best_source (replaced srcs n s new) key c"
  proof (cases "c = n")
    case True
    with sc have "sc = s" using assms(2) by (simp add: candidate_def)
    then show ?thesis using True sc best cand_n
      by (intro best_sourceI [of _ _ _ "s\<lparr>src_configs := new\<rparr>"]) (auto simp: candidate_replaced split: if_splits)
  next
    case False
    then show ?thesis using sc best cand_n
      by (intro best_sourceI [of _ _ _ sc]) (auto simp: candidate_replaced split: if_splits)
  qed
  then show ?thesis by (simp add: coherent_at_def Some)
qed

lemma coherent_at_set:
  assumes "named srcs" "srcs n = Some s" "coherent_at srcs cur key" and "new key = Some v"
    and "EventSource e = n" "EventType e \<noteq> DeleteType"
  shows "coherent_at (replaced srcs n s new) (next_source srcs walk e cur) key"
proof (cases cur)
  case None
  then have "best_source (replaced srcs n s new) key n"
    using assms(3,4) by (intro best_sourceI [of _ _ _ "s\<lparr>src_configs := new\<rparr>"])
      (auto simp: candidate_replaced coherent_at_def split: if_splits)
  then show ?thesis using None assms(5,6) by (simp add: next_source_def coherent_at_def split: event_type.splits)
next
  case (Some c)
  then obtain sc where sc: "candidate srcs key c sc"
    and best: "\<And>n' s'. candidate srcs key n' s' \<Longrightarrow> GetPriority sc \<le> GetPriority s'"
    using assms(3) by (auto simp: coherent_at_def best_source_def)
  let ?stays = "c \<noteq> n \<and> GetPriority sc < GetPriority s"
  have names: "srcs c = Some sc" "GetSourceName sc = c" "GetSourceName s = n"
    using sc assms(1,2) by (auto simp: candidate_def named_def)
  have nxt: "next_source srcs walk e cur = Some (if ?stays then c else n)"
    using assms(2,5,6) names by (auto simp: next_source_def Some getHighPrioritySource_def split: event_type.splits)
  have "best_source (replaced srcs n s new) key (if ?stays then c else n)"
  proof (cases ?stays)
    case True
    then show ?thesis using sc best
      by simp (intro best_sourceI [of _ _ _ sc]; auto simp: candidate_replaced split: if_splits)
  next
    case False
    have "c = n \<Longrightarrow> sc = s" using names(1) assms(2) by (metis option.inject)
    with False have le: "GetPriority s \<le> GetPriority sc" by fastforce
    have "best_source (replaced srcs n s new) key n"
    proof (rule best_sourceI [of _ _ _ "s\<lparr>src_configs := new\<rparr>"])
      show "candidate (replaced srcs n s new) key n (s\<lparr>src_configs := new\<rparr>)"
        using assms(4) by (simp add: candidate_replaced)
      fix n' s' assume "candidate (replaced srcs n s new) key n' s'"
      then show "GetPriority (s\<lparr>src_configs := new\<rparr>) \<le> GetPriority s'"
        using best [of n' s'] le by (simp add: candidate_replaced split: if_splits)
    qed
    then show ?thesis by (simp only: if_not_P [OF False])
  qed
  then show ?thesis by (simp add: coherent_at_def nxt)
qed

lemma coherent_at_deleted:
  assumes "named srcs" "srcs n = Some s" "coherent_at srcs cur key" and "new key = None"
    and "EventSource e = n" "EventType e = DeleteType" "Key e = key" and "walk_of srcs walk"
  shows "coherent_at (replaced srcs n s new) (next_source srcs walk e cur) key"
proof (cases "cur = Some n")
  case True
  then have nxt: "next_source srcs walk e cur = map_option GetSourceName (findNextBestSource srcs walk key n)"
    using assms(5-7) by (simp add: next_source_def)
  show ?thesis
  proof (cases "findNextBestSource srcs walk key n")
    case None
    then show ?thesis using findNextBestSource_None [OF assms(1,8), of key n] assms(4)
      by (auto simp: nxt coherent_at_def candidate_replaced)
  next
    case (Some r)
    note spec = findNextBestSource_Some [OF assms(1,8) Some]
    have "best_source (replaced srcs n s new) key (GetSourceName r)"
      using spec assms(4) by (intro best_sourceI [of _ _ _ r]) (auto simp: candidate_replaced split: if_splits)
    then show ?thesis by (simp add: nxt Some coherent_at_def)
  qed
next
  case False
  then have "next_source srcs walk e cur = cur" using assms(5,6) by (simp add: next_source_def)
  moreover have "coherent_at (replaced srcs n s new) cur key"
  proof (cases cur)
    case None
    then show ?thesis using assms(3,4) by (auto simp: coherent_at_def candidate_replaced)
  next
    case (Some c)
    then have "best_source srcs key c" "c \<noteq> n" using assms(3) False by (auto simp: coherent_at_def)
    then have "best_source (replaced srcs n s new) key c"
      using assms(4) by (auto simp: best_source_def candidate_replaced)
    then show ?thesis by (simp add: coherent_at_def Some)
  qed
  ultimately show ?thesis by simp
qed

lemma coherent_read_source:
  assumes coh: "coherent m" and s: "sources m n = Some s" "src_eh s"
    and walks: "\<And>new. fetch viper s = Ok new \<Longrightarrow> walk_of new ku" "walk_of (src_configs s) kc"
      "\<And>e. walk_of (sources m) (walks e)"
    and run: "read_source viper ku kc walks n m = Ok (calls, m')"
  shows "coherent m'"
proof -
  obtain new where new: "fetch viper s = Ok new" using run s by (auto simp: read_source_def outcome_simps)
  let ?es = "PopulateEvents (GetSourceName s) (src_configs s) new ku kc"
  let ?m = "snd (deliver walks m ?es)"
  have named: "named (sources m)" and name: "GetSourceName s = n"
    using coh s(1) by (auto simp: coherent_def named_def)
  note iff = PopulateEvents_iff [OF walks(1) [OF new] walks(2), of _ "GetSourceName s"]
  have "\<forall>e\<in>set ?es. \<not> HasUpdated e" by (auto simp: iff)
  note eff = deliver_effect [OF PopulateEvents_distinct [OF walks(1) [OF new] walks(2)] this, of walks m]
  have m': "sources m' = replaced (sources m) n s new" "keySourceMap m' = keySourceMap ?m"
    "forbiddenKeys m' = forbiddenKeys m"
    using run s new eff by (auto simp: read_source_def fireEvents_def replaced_def split: prod.splits)
  have "coherent_at (sources m') (keySourceMap m' key) key" if free: "format_key key \<notin> forbiddenKeys m" for key
  proof -
    have old: "coherent_at (sources m) (keySourceMap m key) key" using coh free by (simp add: coherent_def)
    show ?thesis
    proof (cases "key \<in> Key ` set ?es")
      case False
      then have "src_configs s key = new key"
        by (cases "src_configs s key"; cases "new key") (force simp: iff image_iff)+
      then show ?thesis
        using coherent_at_unchanged [OF old s(1), of new] False eff by (simp add: m')
    next
      case True
      then obtain e where e: "e \<in> set ?es" "Key e = key" by blast
      then have next_s: "keySourceMap ?m key = next_source (sources m) (walks e) e (keySourceMap m key)"
        using eff free by blast
      have src: "EventSource e = n" using e(1) name by (auto simp: iff)
      show ?thesis
      proof (cases "EventType e = DeleteType")
        case True
        then have "new key = None" using e by (auto simp: iff split: if_splits)
        then show ?thesis unfolding m' next_s
          by (intro coherent_at_deleted [OF named s(1) old _ src True e(2) walks(3)])
      next
        case False
        then obtain v where "new key = Some v" using e by (auto simp: iff)
        then show ?thesis unfolding m' next_s by (intro coherent_at_set [OF named s(1) old _ src False])
      qed
    qed
  qed
  then show ?thesis using named_replaced [OF named s(1)] by (simp add: coherent_def m')
qed

section \<open>Adding a source\<close>

text \<open>A source as its constructor leaves it.\<close>

definition fresh_source :: "Source \<Rightarrow> bool" where
  "fresh_source s \<longleftrightarrow> \<not> src_eh s \<and> (src_files s \<noteq> None \<longrightarrow> src_configs s = Map.empty)"

lemma fresh_NewFileSource [simp]: "fresh_source (NewFileSource fs)"
  by (simp add: fresh_source_def NewFileSource_def)

lemma fresh_NewEnvSource: "NewEnvSource f environ = Ok s \<Longrightarrow> fresh_source s"
  by (auto simp: fresh_source_def NewEnvSource_def outcome_simps)

definition pulled :: "(string \<rightharpoonup> Source) \<Rightarrow> string \<Rightarrow> int \<Rightarrow> string option \<Rightarrow> string option" where
  "pulled srcs source p cur =
     (case cur of
        None \<Rightarrow> Some source
      | Some n \<Rightarrow> (case srcs n of
                    None \<Rightarrow> Some source
                  | Some c \<Rightarrow> if GetPriority c > p then Some source else cur))"

lemma pull_key_effect:
  "sources (pull_key n p m k) = sources m" "overlays (pull_key n p m k) = overlays m"
  "forbiddenKeys (pull_key n p m k) = forbiddenKeys m"
  "keySourceMap (pull_key n p m k) = (keySourceMap m)(k := pulled (sources m) n p (keySourceMap m k))"
  by (auto simp: pull_key_def pulled_def set_source_def fun_eq_iff split: option.splits)

lemma pull_keys_effect:
  "distinct ks \<Longrightarrow>
     sources (foldl (pull_key n p) m ks) = sources m \<and> overlays (foldl (pull_key n p) m ks) = overlays m
   \<and> forbiddenKeys (foldl (pull_key n p) m ks) = forbiddenKeys m
   \<and> (\<forall>k. keySourceMap (foldl (pull_key n p) m ks) k =
        (if k \<in> set ks then pulled (sources m) n p (keySourceMap m k) else keySourceMap m k))"
  by (induction ks arbitrary: m) (auto simp: pull_key_effect)

lemma coherent_at_pulled:
  assumes "srcs n = None" "coherent_at srcs cur key" "src_configs s key \<noteq> None"
  shows "coherent_at (srcs(n \<mapsto> s)) (pulled (srcs(n \<mapsto> s)) n (GetPriority s) cur) key"
proof -
  have cand: "candidate (srcs(n \<mapsto> s)) key w t \<longleftrightarrow> (if w = n then t = s else candidate srcs key w t)" for w t
    using assms(3) by (auto simp: candidate_def)
  show ?thesis
  proof (cases cur)
    case None
    then show ?thesis using assms(2)
      by (auto simp: pulled_def coherent_at_def cand intro!: best_sourceI [of _ _ _ s] split: if_splits)
  next
    case (Some c)
    then obtain sc where sc: "candidate srcs key c sc"
      and best: "\<And>n' s'. candidate srcs key n' s' \<Longrightarrow> GetPriority sc \<le> GetPriority s'"
      using assms(2) by (auto simp: coherent_at_def best_source_def)
    have c: "c \<noteq> n" "srcs c = Some sc" using sc assms(1) by (auto simp: candidate_def)
    show ?thesis
    proof (cases "GetPriority sc > GetPriority s")
      case True
      then have "best_source (srcs(n \<mapsto> s)) key n"
        by (intro best_sourceI [of _ _ _ s]) (auto simp: cand split: if_splits dest: best)
      then show ?thesis using True c by (simp add: pulled_def Some coherent_at_def)
    next
      case False
      then have "best_source (srcs(n \<mapsto> s)) key c"
        using c sc by (intro best_sourceI [of _ _ _ sc]) (auto simp: cand split: if_splits dest: best)
      then show ?thesis using False c by (simp add: pulled_def Some coherent_at_def)
    qed
  qed
qed

text \<open>Coherence looks at the priorities and configurations of the sources only.\<close>

lemma coherent_at_view:
  assumes "\<And>w. map_option (\<lambda>s. (GetPriority s, src_configs s)) (srcs' w)
         = map_option (\<lambda>s. (GetPriority s, src_configs s)) (srcs w)"
    and "coherent_at srcs cur key"
  shows "coherent_at srcs' cur key"
proof -
  have to: "\<exists>t. candidate srcs key w t \<and> GetPriority t = GetPriority t'" if "candidate srcs' key w t'" for w t'
    using assms(1) [of w] that by (cases "srcs w"; cases "srcs' w") (auto simp: candidate_def)
  have fro: "\<exists>t'. candidate srcs' key w t' \<and> GetPriority t' = GetPriority t" if "candidate srcs key w t" for w t
    using assms(1) [of w] that by (cases "srcs w"; cases "srcs' w") (auto simp: candidate_def)
  show ?thesis
  proof (cases cur)
    case None
    then show ?thesis using assms(2) to by (fastforce simp: coherent_at_def)
  next
    case (Some c)
    then obtain sc where sc: "candidate srcs key c sc"
      and best: "\<And>n' s'. candidate srcs key n' s' \<Longrightarrow> GetPriority sc \<le> GetPriority s'"
      using assms(2) by (auto simp: coherent_at_def best_source_def)
    obtain sc' where sc': "candidate srcs' key c sc'" "GetPriority sc' = GetPriority sc" using fro [OF sc] by blast
    have "best_source srcs' key c"
      using sc'(1) by (rule best_sourceI) (metis to best sc'(2))
    then show ?thesis by (simp add: coherent_at_def Some)
  qed
qed

lemma AddSource_effect:
  assumes "fresh_source src" "sources m (GetSourceName src) = None"
    and "\<forall>new. fetch viper src = Ok new \<longrightarrow> distinct walk"
  shows "case fetch viper src of
      Ok new \<Rightarrow>
        (let n = GetSourceName src; s = src\<lparr>src_configs := new\<rparr>; m' = snd (AddSource viper walk src m)
         in fst (AddSource viper walk src m) = None \<and> sources m' = (sources m)(n \<mapsto> SetEventHandler s)
          \<and> overlays m' = overlays m \<and> forbiddenKeys m' = forbiddenKeys m
          \<and> (\<forall>k. keySourceMap m' k =
               (if k \<in> set walk then pulled ((sources m)(n \<mapsto> s)) n (GetPriority src) (keySourceMap m k)
                else keySourceMap m k)))
    | _ \<Rightarrow> snd (AddSource viper walk src m) = m\<lparr>sources := (sources m)(GetSourceName src \<mapsto> src)\<rparr>
        \<and> fst (AddSource viper walk src m) \<noteq> None"
proof -
  let ?n = "GetSourceName src"
  let ?m1 = "m\<lparr>sources := (sources m)(?n \<mapsto> src)\<rparr>"
  have pull: "pullSourceConfigs viper walk ?n ?m1 =
      bindO (fetch viper src) (\<lambda>new. Ok (foldl (pull_key ?n (GetPriority src))
        (?m1\<lparr>sources := (sources ?m1)(?n \<mapsto> src\<lparr>src_configs := new\<rparr>)\<rparr>) walk))"
    using assms(1) pull_fires_nothing [of ?m1 ?n src viper "[]" "[]" "\<lambda>_. []"]
    by (cases "fetch viper src") (simp_all add: pullSourceConfigs_def fresh_source_def)
  show ?thesis
  proof (cases "fetch viper src")
    case (Ok new)
    let ?m2 = "?m1\<lparr>sources := (sources ?m1)(?n \<mapsto> src\<lparr>src_configs := new\<rparr>)\<rparr>"
    have "distinct walk" using assms(3) Ok by blast
    note eff = pull_keys_effect [OF this, of ?n "GetPriority src" ?m2]
    then show ?thesis using pull assms(2) by (simp add: Ok AddSource_def Let_def)
  qed (use pull assms(2) in \<open>simp_all add: AddSource_def Let_def\<close>)
qed

lemma SetEventHandler_fields [simp]:
  "GetPriority (SetEventHandler s) = GetPriority s" "src_configs (SetEventHandler s) = src_configs s"
  "GetSourceName (SetEventHandler s) = GetSourceName s"
  by (auto simp: SetEventHandler_def split: option.splits)

lemma coherent_at_no_candidate:
  assumes "srcs n = None" "coherent_at srcs cur key" "src_configs s key = None"
  shows "coherent_at (srcs(n \<mapsto> s)) cur key"
proof -
  have "candidate (srcs(n \<mapsto> s)) key = candidate srcs key"
    using assms(1,3) by (auto simp: candidate_def fun_eq_iff)
  then show ?thesis using assms(2) by (simp add: coherent_at_def best_source_def split: option.splits)
qed

lemma coherent_AddSource:
  assumes coh: "coherent m" and fresh: "fresh_source src"
    and walk: "\<And>new. fetch viper src = Ok new \<Longrightarrow> walk_of new walk"
  shows "coherent (snd (AddSource viper walk src m))"
proof (cases "sources m (GetSourceName src)")
  case (Some s)
  then show ?thesis using coh by (simp add: AddSource_def)
next
  case None
  have "\<forall>new. fetch viper src = Ok new \<longrightarrow> distinct walk" using walk by (auto simp: walk_of_def)
  note eff = AddSource_effect [OF fresh None this]
  have named: "named (sources m)" using coh by (simp add: coherent_def)
  show ?thesis
  proof (cases "\<exists>new. fetch viper src = Ok new")
    case True
    then obtain new where new: "fetch viper src = Ok new" by blast
    let ?n = "GetSourceName src" and ?s = "src\<lparr>src_configs := new\<rparr>" and ?m' = "snd (AddSource viper walk src m)"
    have m': "sources ?m' = (sources m)(?n \<mapsto> SetEventHandler ?s)" "forbiddenKeys ?m' = forbiddenKeys m"
      "keySourceMap ?m' k = (if k \<in> set walk then pulled ((sources m)(?n \<mapsto> ?s)) ?n (GetPriority ?s) (keySourceMap m k)
                else keySourceMap m k)" for k
      using eff by (simp_all add: new Let_def)
    have dom: "k \<in> set walk \<longleftrightarrow> src_configs ?s k \<noteq> None" for k
      using walk [OF new] by (auto simp: walk_of_def)
    have added: "coherent_at ((sources m)(?n \<mapsto> ?s)) (keySourceMap ?m' key) key"
      if "coherent_at (sources m) (keySourceMap m key) key" for key
      using coherent_at_pulled [OF None that, of ?s] coherent_at_no_candidate [OF None that, of ?s]
      by (cases "src_configs ?s key = None") (simp_all add: m'(3) dom)
    have "coherent_at ((sources m)(?n \<mapsto> SetEventHandler ?s)) (keySourceMap ?m' key) key"
      if "coherent_at (sources m) (keySourceMap m key) key" for key
      by (rule coherent_at_view [OF _ added [OF that]]) simp
    then show ?thesis using coh named
      by (simp add: coherent_def m'(1,2)) (simp add: named_def)
  next
    case False
    then have m': "snd (AddSource viper walk src m) = m\<lparr>sources := (sources m)(GetSourceName src \<mapsto> src)\<rparr>"
      using eff by (auto split: outcome.splits)
    have "src_files src \<noteq> None" using False by (cases "src_files src") (auto simp: fetch_def)
    then have "src_configs src = Map.empty" using fresh by (simp add: fresh_source_def)
    then have "coherent_at ((sources m)(GetSourceName src \<mapsto> src)) cur key"
      if "coherent_at (sources m) cur key" for cur key
      by (intro coherent_at_no_candidate [OF None that]) simp
    then show ?thesis using coh named by (simp add: coherent_def m') (simp add: named_def)
  qed
qed

section \<open>Runs\<close>

text \<open>The operations of the manager. A source is added as its constructor made it; a refresh is a tick of the
  refresher of a source with a handler, and walks are walks of the maps they range over.\<close>

inductive manager_step :: "'h Manager \<Rightarrow> 'h Manager \<Rightarrow> bool" where
  add: "fresh_source src \<Longrightarrow> (\<And>new. fetch viper src = Ok new \<Longrightarrow> walk_of new walk) \<Longrightarrow>
     manager_step m (snd (AddSource viper walk src m))"
| refresh: "sources m n = Some s \<Longrightarrow> src_eh s \<Longrightarrow>
     (\<And>new. fetch viper s = Ok new \<Longrightarrow> walk_of new ku) \<Longrightarrow> walk_of (src_configs s) kc \<Longrightarrow>
     (\<And>e. walk_of (sources m) (walks e)) \<Longrightarrow>
     read_source viper ku kc walks n m = Ok (calls, m') \<Longrightarrow> manager_step m m'"
| options: "manager_step m (UpdateSourceOptions opt m)"
| set: "manager_step m (SetConfig m key v)"
| set_map: "manager_step m (SetMapConfig m key v)"
| delete: "manager_step m (DeleteConfig m key)"
| reset: "manager_step m (ResetConfig m key)"
| forbid: "manager_step m (ForbidUpdate m key)"
| register: "manager_step m (m\<lparr>Dispatcher := Register (Dispatcher m) key h\<rparr>)"
| register_prefix: "manager_step m (m\<lparr>Dispatcher := RegisterForKeyPrefix (Dispatcher m) key h\<rparr>)"
| unregister: "manager_step m (m\<lparr>Dispatcher := Unregister (Dispatcher m) key h\<rparr>)"

lemma coherent_NewManager [simp]: "coherent NewManager"
  by (simp add: coherent_def NewManager_def named_def coherent_at_def candidate_def)

lemma coherent_options:
  assumes "coherent m" shows "coherent (UpdateSourceOptions opt m)"
proof -
  have view: "map_option (\<lambda>s. (GetPriority s, src_configs s)) (map_option (UpdateOptions opt) (sources m w))
      = map_option (\<lambda>s. (GetPriority s, src_configs s)) (sources m w)" for w
    by (cases "sources m w") (auto simp: UpdateOptions_def split: option.splits)
  have "named (\<lambda>n. map_option (UpdateOptions opt) (sources m n))"
    using assms by (auto simp: coherent_def named_def UpdateOptions_def split: option.splits)
  moreover have "coherent_at (\<lambda>n. map_option (UpdateOptions opt) (sources m n)) cur key"
    if "coherent_at (sources m) cur key" for cur key
    using view that by (rule coherent_at_view [where srcs = "sources m"])
  ultimately show ?thesis
    using assms unfolding coherent_def UpdateSourceOptions_def by simp
qed

lemma coherent_step: "manager_step m m' \<Longrightarrow> coherent m \<Longrightarrow> coherent m'"
proof (induction rule: manager_step.induct)
  case (add src viper walk m)
  show ?case by (rule coherent_AddSource [OF add(3) add(1) add(2)])
next
  case (refresh m n s viper ku kc walks calls m')
  show ?case by (rule coherent_read_source [OF refresh(7) refresh(1-6)])
next
  case (options m opt)
  then show ?case by (rule coherent_options)
qed (simp_all add: coherent_def SetConfig_def SetMapConfig_def DeleteConfig_def ResetConfig_def ForbidUpdate_def)

lemma coherent_run: "manager_step\<^sup>*\<^sup>* m m' \<Longrightarrow> coherent m \<Longrightarrow> coherent m'"
  by (induction rule: rtranclp_induct) (auto intro: coherent_step)

section \<open>The layered reading\<close>

text \<open>What \<open>GetConfig\<close> promises, without \<open>keySourceMap\<close>: the value set at run time, which may be that the key is
  deleted; else the value some source of the highest priority with this key has; else an error.\<close>

definition layered :: "'h Manager \<Rightarrow> string \<Rightarrow> (config_error, string) outcome \<Rightarrow> bool" where
  "layered m key r \<longleftrightarrow>
     (let k = format_key key
      in case overlays m k of
           Some v \<Rightarrow> r = (if v = TombValue then Err (KeyNotFound key) else Ok v)
         | None \<Rightarrow>
             if \<exists>n s. candidate (sources m) k n s
             then \<exists>n s v. candidate (sources m) k n s \<and> src_configs s k = Some v \<and> r = Ok v
                   \<and> (\<forall>n' s'. candidate (sources m) k n' s' \<longrightarrow> GetPriority s \<le> GetPriority s')
             else r = Err (KeyNotFound key))"

lemma layered_value:
  assumes "layered m key r" "overlays m (format_key key) = None"
    and "candidate (sources m) (format_key key) n s" "src_configs s (format_key key) = Some v"
    and "\<And>n' s'. candidate (sources m) (format_key key) n' s' \<Longrightarrow> s' = s \<or> GetPriority s < GetPriority s'"
  shows "r = Ok v"
proof -
  have "\<exists>n s. candidate (sources m) (format_key key) n s" using assms(3) by blast
  then obtain n1 s1 v1 where 1: "candidate (sources m) (format_key key) n1 s1"
      "src_configs s1 (format_key key) = Some v1" "r = Ok v1"
    and least: "\<And>n' s'. candidate (sources m) (format_key key) n' s' \<Longrightarrow> GetPriority s1 \<le> GetPriority s'"
    using assms(1) unfolding layered_def Let_def assms(2) option.case by auto
  have "s1 = s" using assms(5) [OF 1(1)] least [OF assms(3)] by auto
  then show ?thesis using 1 assms(4) by simp
qed

lemma layered_none:
  assumes "layered m key r" "overlays m (format_key key) = None"
    and "\<And>n s. \<not> candidate (sources m) (format_key key) n s"
  shows "r = Err (KeyNotFound key)"
  using assms unfolding layered_def Let_def assms(2) option.case by auto

lemma coherent_layered:
  assumes "coherent m" and "format_key key \<notin> forbiddenKeys m"
  shows "layered m key (GetConfig m key)"
proof (cases "overlays m (format_key key)")
  case None
  have coh: "coherent_at (sources m) (keySourceMap m (format_key key)) (format_key key)"
    using assms by (simp add: coherent_def)
  show ?thesis
  proof (cases "keySourceMap m (format_key key)")
    case k: None
    then show ?thesis using coh by (simp add: layered_def None GetConfig_def coherent_at_def)
  next
    case (Some n)
    then obtain s where s: "candidate (sources m) (format_key key) n s"
      "\<And>n' s'. candidate (sources m) (format_key key) n' s' \<Longrightarrow> GetPriority s \<le> GetPriority s'"
      using coh by (auto simp: coherent_at_def best_source_def)
    then obtain v where v: "src_configs s (format_key key) = Some v" "sources m n = Some s"
      by (auto simp: candidate_def)
    then have "GetConfig m key = Ok v"
      by (simp add: GetConfig_def None Some getConfigValueBySource_def GetConfigurationByKey_def)
    then show ?thesis using s v unfolding layered_def None Let_def option.case by auto
  qed
qed (simp add: layered_def GetConfig_def)

text \<open>C10: After any sequence of operations - adding sources, refreshes that fire events, overlays, deletions,
  new options, registrations - \<open>GetConfig\<close> of a key whose updates are not forbidden reads the layers as they
  are promised: the value set at run time, else the value of a source of the highest priority among those that
  have the key now, else an error.\<close>

theorem GetConfig_layered:
  assumes "manager_step\<^sup>*\<^sup>* NewManager m" and "format_key key \<notin> forbiddenKeys m"
  shows "layered m key (GetConfig m key)"
  using coherent_run [OF assms(1)] assms(2) by (simp add: coherent_layered)

text \<open>Two sources, the second with the higher priority.\<close>

lemma two_source_layers:
  assumes coh: "coherent m" and none: "overlays m = Map.empty" "forbiddenKeys m = {}"
    and srcs: "sources m = [a \<mapsto> s, b \<mapsto> t]" and prio: "a \<noteq> b" "GetPriority t < GetPriority s"
  shows "GetConfig m key =
    (case src_configs t (format_key key) of
       Some v \<Rightarrow> Ok v
     | None \<Rightarrow> (case src_configs s (format_key key) of Some v \<Rightarrow> Ok v | None \<Rightarrow> Err (KeyNotFound key)))"
proof -
  have cand: "candidate (sources m) k n r \<longleftrightarrow>
      (n = a \<and> r = s \<and> src_configs s k \<noteq> None) \<or> (n = b \<and> r = t \<and> src_configs t k \<noteq> None)" for k n r
    using prio(1) by (auto simp: candidate_def srcs)
  have lay: "layered m key (GetConfig m key)" using coh none(2) by (intro coherent_layered) simp_all
  show ?thesis
  proof (cases "src_configs t (format_key key)")
    case (Some v)
    have "GetConfig m key = Ok v"
    proof (rule layered_value [OF lay])
      show "candidate (sources m) (format_key key) b t" by (simp add: cand Some)
    qed (use Some none(1) prio(2) in \<open>auto simp: cand\<close>)
    then show ?thesis by (simp add: Some)
  next
    case None
    then show ?thesis
      using layered_value [OF lay, of a s] layered_none [OF lay] none(1)
      by (cases "src_configs s (format_key key)") (simp_all add: cand)
  qed
qed

section \<open>The configuration the program starts with\<close>

lemma Init_steps:
  assumes "NewEnvSource f environ = Ok e"
    and "\<And>c. load_files viper fs = Ok c \<Longrightarrow> walk_of c wfs" and "walk_of (src_configs e) we"
  obtains m1 m where "m1 = snd (AddSource viper wfs (NewFileSource fs) NewManager)"
    and "m = snd (AddSource viper we e m1)"
    and "Init viper (Some fs) (Some f) environ wfs we = Ok m"
    and "manager_step\<^sup>*\<^sup>* NewManager m"
proof -
  let ?m1 = "snd (AddSource viper wfs (NewFileSource fs) NewManager)"
  let ?m = "snd (AddSource viper we e ?m1)"
  have "src_files e = None" using assms(1) by (auto simp: NewEnvSource_def outcome_simps)
  then have "manager_step NewManager ?m1" "manager_step ?m1 ?m"
    using assms(2,3) fresh_NewEnvSource [OF assms(1)]
    by (auto intro!: manager_step.add simp: fetch_def NewFileSource_def fresh_source_def)
  then have "manager_step\<^sup>*\<^sup>* NewManager ?m" by (meson converse_rtranclp_into_rtranclp r_into_rtranclp)
  then show ?thesis using that [OF refl refl] assms(1) by (simp add: Init_def)
qed

lemma AddSource_file:
  assumes "\<And>c. load_files viper fs = Ok c \<Longrightarrow> walk_of c wfs" and "sources m ''FileSource'' = None"
  shows "\<exists>eh. sources (snd (AddSource viper wfs (NewFileSource fs) m)) = (sources m)(''FileSource'' \<mapsto>
      (NewFileSource fs)\<lparr>src_configs := (case load_files viper fs of Ok c \<Rightarrow> c | _ \<Rightarrow> Map.empty), src_eh := eh\<rparr>)"
    and "overlays (snd (AddSource viper wfs (NewFileSource fs) m)) = overlays m"
    and "forbiddenKeys (snd (AddSource viper wfs (NewFileSource fs) m)) = forbiddenKeys m"
proof -
  let ?m' = "snd (AddSource viper wfs (NewFileSource fs) m)"
  have name: "GetSourceName (NewFileSource fs) = ''FileSource''" by (simp add: NewFileSource_def)
  have "\<forall>new. fetch viper (NewFileSource fs) = Ok new \<longrightarrow> distinct wfs"
    using assms by (auto simp: fetch_def NewFileSource_def walk_of_def)
  note eff = AddSource_effect [where m = m, OF fresh_NewFileSource _ this, unfolded name, OF assms(2)]
  have eq: "fetch viper (NewFileSource fs) = load_files viper fs" by (simp add: fetch_def NewFileSource_def)
  show "\<exists>eh. sources ?m' = (sources m)(''FileSource'' \<mapsto>
      (NewFileSource fs)\<lparr>src_configs := (case load_files viper fs of Ok c \<Rightarrow> c | _ \<Rightarrow> Map.empty), src_eh := eh\<rparr>)"
    "overlays ?m' = overlays m" "forbiddenKeys ?m' = forbiddenKeys m"
    using eff unfolding eq
    by (auto simp: NewFileSource_def SetEventHandler_def Let_def split: outcome.splits
        cong del: outcome.case_cong_weak)
qed

text \<open>What the program starts with: \<open>Init\<close> never fails on account of the files, and a key then has the
  value of the environment, else the value of the files, else no value. When a file cannot be read the error of
  \<open>AddSource\<close> is dropped and the files count as empty, so that the program runs with the environment alone.\<close>

theorem Init_layers:
  assumes env: "NewEnvSource f environ = Ok e"
    and walks: "\<forall>c. load_files viper fs = Ok c \<longrightarrow> walk_of c wfs" "walk_of (src_configs e) we"
  shows "\<exists>m :: 'h Manager. Init viper (Some fs) (Some f) environ wfs we = Ok m \<and> manager_step\<^sup>*\<^sup>* NewManager m
    \<and> (\<forall>key. GetConfig m key =
         (case src_configs e (format_key key) of
            Some v \<Rightarrow> Ok v
          | None \<Rightarrow> (case load_files viper fs of
                      Ok files \<Rightarrow> (case files (format_key key) of Some v \<Rightarrow> Ok v | None \<Rightarrow> Err (KeyNotFound key))
                    | _ \<Rightarrow> Err (KeyNotFound key))))"
proof -
  have file_walk: "\<And>c. load_files viper fs = Ok c \<Longrightarrow> walk_of c wfs" using walks(1) by blast
  obtain m1 m :: "'h Manager" where m1: "m1 = snd (AddSource viper wfs (NewFileSource fs) NewManager)"
    and m: "m = snd (AddSource viper we e m1)" "Init viper (Some fs) (Some f) environ wfs we = Ok m"
    and run: "manager_step\<^sup>*\<^sup>* NewManager m"
    using Init_steps [OF env file_walk walks(2)] by blast
  let ?files = "case load_files viper fs of Ok c \<Rightarrow> c | _ \<Rightarrow> Map.empty"
  obtain eh where s1: "sources m1 = [''FileSource'' \<mapsto> (NewFileSource fs)\<lparr>src_configs := ?files, src_eh := eh\<rparr>]"
    using AddSource_file(1) [OF file_walk, where m = NewManager] m1 by (auto simp: NewManager_def)
  have e: "GetSourceName e = ''EnvironmentSource''" "GetPriority e = 11" "fetch viper e = Ok (src_configs e)"
    "SetEventHandler e = e"
    using env by (auto simp: NewEnvSource_def outcome_simps fetch_def SetEventHandler_def)
  have "distinct we" "sources m1 (GetSourceName e) = None" using walks(2) s1 e by (simp_all add: walk_of_def)
  then have eff: "sources m = (sources m1)(''EnvironmentSource'' \<mapsto> e)" "overlays m = overlays m1"
    "forbiddenKeys m = forbiddenKeys m1"
    using AddSource_effect [OF fresh_NewEnvSource [OF env], where m = m1 and viper = viper and walk = we] m(1) e
    by (simp_all add: Let_def)
  then have none: "overlays m = Map.empty" "forbiddenKeys m = {}"
    using AddSource_file(2,3) [OF file_walk, where m = NewManager] m1 by (simp_all add: NewManager_def)
  have srcs: "sources m = [''FileSource'' \<mapsto> (NewFileSource fs)\<lparr>src_configs := ?files, src_eh := eh\<rparr>,
      ''EnvironmentSource'' \<mapsto> e]" by (simp add: eff(1) s1)
  have get: "GetConfig m key = (case src_configs e (format_key key) of Some v \<Rightarrow> Ok v
      | None \<Rightarrow> (case ?files (format_key key) of Some v \<Rightarrow> Ok v | None \<Rightarrow> Err (KeyNotFound key)))" for key
    using two_source_layers [OF coherent_run [OF run] none srcs] e(2) by (simp add: NewFileSource_def cong: option.case_cong)
  have flat: "(case (case r of Ok c \<Rightarrow> c | _ \<Rightarrow> Map.empty) k of Some v \<Rightarrow> Ok v | None \<Rightarrow> Err x)
      = (case r of Ok files \<Rightarrow> (case files k of Some v \<Rightarrow> Ok v | None \<Rightarrow> Err x) | _ \<Rightarrow> Err x)"
    for r :: "(config_error, string \<rightharpoonup> string) outcome" and k and x :: config_error
    by (cases r) simp_all
  show ?thesis
    using m(2) run get [unfolded flat] by blast
qed

text \<open>A file and an environment.\<close>

definition sample_file :: "string \<Rightarrow> yaml_file" where
  "sample_file name =
     (if name = ''milvus.yaml'' then Keys [(''a.b'', Scalar ''file''), (''c'', Items [Some ''x'', None, Some ''y''])]
      else Missing)"

lemma sample_keys [simp]: "format_key ''a.b'' = ''ab''" "format_key ''c'' = ''c''" "format_key ''C'' = ''c''"
  by code_simp+

lemma sample_load: "load_files sample_file [''milvus.yaml'', ''user.yaml'']
    = Ok [''a.b'' \<mapsto> ''file'', ''ab'' \<mapsto> ''file'', ''c'' \<mapsto> ''x,,y'']"
  by (simp add: load_files_def load_file_def sample_file_def load_key_def join_item_def fun_upd_twist)

lemma sample_load_walk:
  "load_files sample_file [''milvus.yaml'', ''user.yaml''] = Ok c \<Longrightarrow> walk_of c [''a.b'', ''ab'', ''c'']"
  unfolding sample_load by (auto simp: walk_of_def split: if_splits)

lemma sample_env: "NewEnvSource format_key [''A_B=env''] = Ok
    \<lparr>GetSourceName = ''EnvironmentSource'', GetPriority = 11, src_configs = [''A_B'' \<mapsto> ''env'', ''ab'' \<mapsto> ''env''],
     src_eh = False, src_files = None\<rparr>"
  by (simp add: NewEnvSource_def env_entry_def first_rune_def go_slice_def string_of_runes_def Let_def
      format_key_sample)

lemma sample_env_walk: "walk_of [''A_B'' \<mapsto> ''env'', ''ab'' \<mapsto> ''env''] [''A_B'', ''ab'']"
  by (auto simp: walk_of_def)

lemma Init_layers_witness:
  "\<exists>m :: unit Manager. Init sample_file (Some [''milvus.yaml'', ''user.yaml'']) (Some format_key) [''A_B=env'']
         [''a.b'', ''ab'', ''c''] [''A_B'', ''ab''] = Ok m
     \<and> GetConfig m ''a.b'' = Ok ''env'' \<and> GetConfig m ''C'' = Ok ''x,,y''"
proof -
  obtain m :: "unit Manager"
    where "Init sample_file (Some [''milvus.yaml'', ''user.yaml'']) (Some format_key) [''A_B=env'']
         [''a.b'', ''ab'', ''c''] [''A_B'', ''ab''] = Ok m"
    and get: "\<forall>key. GetConfig m key =
       (case [''A_B'' \<mapsto> ''env'', ''ab'' \<mapsto> ''env''] (format_key key) of
            Some v \<Rightarrow> Ok v
          | None \<Rightarrow> (case load_files sample_file [''milvus.yaml'', ''user.yaml''] of
                      Ok files \<Rightarrow> (case files (format_key key) of Some v \<Rightarrow> Ok v | None \<Rightarrow> Err (KeyNotFound key))
                    | _ \<Rightarrow> Err (KeyNotFound key)))"
    using Init_layers [OF sample_env, unfolded Source.simps, OF _ sample_env_walk] sample_load_walk by blast
  then show ?thesis
    using get [THEN spec, of "''a.b''"] get [THEN spec, of "''C''"] by (intro exI [of _ m]) (simp add: sample_load)
qed

definition sample_manager :: "unit Manager" where
  "sample_manager = snd (AddSource sample_file [''a.b'', ''ab'', ''c'']
     (NewFileSource [''milvus.yaml'', ''user.yaml'']) NewManager)"

lemma sample_manager_run: "manager_step\<^sup>*\<^sup>* NewManager sample_manager"
  unfolding sample_manager_def
  by (rule r_into_rtranclp, rule manager_step.add)
    (auto simp: fetch_def NewFileSource_def fresh_source_def dest: sample_load_walk)

lemma GetConfig_layered_witness:
  "layered (DeleteConfig sample_manager ''C'') ''a.b'' (GetConfig (DeleteConfig sample_manager ''C'') ''a.b'')
   \<and> layered (DeleteConfig sample_manager ''C'') ''c'' (GetConfig (DeleteConfig sample_manager ''C'') ''c'')"
proof -
  have run: "manager_step\<^sup>*\<^sup>* NewManager (DeleteConfig sample_manager ''C'')"
    using sample_manager_run manager_step.delete by (rule rtranclp.rtrancl_into_rtrancl)
  have "forbiddenKeys (DeleteConfig sample_manager ''C'') = {}"
    using AddSource_file(3) [OF sample_load_walk, where m = NewManager]
    by (simp add: sample_manager_def DeleteConfig_def NewManager_def)
  then show ?thesis using GetConfig_layered [OF run] by simp
qed

section \<open>What the layers do not promise\<close>

text \<open>\<open>GetConfigs\<close> hands out the mark of a deleted key as its value.\<close>

lemma GetConfigs_value:
  assumes "walk_of (keySourceMap m) wk" "walk_of (overlays m) wo"
  shows "GetConfigs m wk wo k =
    (case overlays m k of
       Some v \<Rightarrow> Some v
     | None \<Rightarrow> if keySourceMap m k \<noteq> None
               then (case GetConfig m k of Ok v \<Rightarrow> Some v | _ \<Rightarrow> None) else None)"
proof -
  have overlay: "foldl (add_overlay m) c ks k = (if k \<in> set ks \<and> overlays m k \<noteq> None then overlays m k else c k)" for c ks
    by (induction ks arbitrary: c) (auto simp: add_overlay_def split: option.splits)
  have val: "foldl (add_source_value m) c ks k =
      (if k \<in> set ks \<and> is_Ok (GetConfig m k) then (case GetConfig m k of Ok v \<Rightarrow> Some v | _ \<Rightarrow> None) else c k)" for c ks
    by (induction ks arbitrary: c) (auto simp: add_source_value_def split: outcome.splits)
  show ?thesis
    using assms by (auto simp: GetConfigs_def overlay val walk_of_def split: option.splits outcome.splits)
qed

lemma GetConfigs_deleted:
  assumes "walk_of (keySourceMap m) wk" "walk_of (overlays (DeleteConfig m key)) wo"
  shows "GetConfigs (DeleteConfig m key) wk wo (format_key key) = Some TombValue
    \<and> GetConfig (DeleteConfig m key) key = Err (KeyNotFound key)"
proof
  have w: "walk_of (keySourceMap (DeleteConfig m key)) wk" using assms(1) by (simp add: DeleteConfig_def)
  show "GetConfigs (DeleteConfig m key) wk wo (format_key key) = Some TombValue"
    unfolding GetConfigs_value [OF w assms(2)] by (simp add: DeleteConfig_def)
qed (simp add: GetConfig_def DeleteConfig_def)

text \<open>Reading a group of parameters: the configurations filtered by a prefix, with the prefix removed, are
  exactly the configurations of the keys that begin with the lower-case prefix, under the rest of the key; the
  order in which Go walks the configurations does not matter.\<close>

theorem GetBy_prefix:
  assumes "walk_of configs walk"
  shows "GetBy configs walk [WithPrefix p, RemovePrefix p] = (\<lambda>k. configs (ToLower p @ k))"
proof
  fix n
  have "foldl (add_matched configs [WithPrefix p, RemovePrefix p]) acc ks n =
      (if ToLower p @ n \<in> set ks \<and> configs (ToLower p @ n) \<noteq> None then configs (ToLower p @ n) else acc n)" for acc ks
  proof (induction ks arbitrary: acc)
    case (Cons k ks)
    obtain n' ok where f: "filterate k [WithPrefix p, RemovePrefix p] = (n', ok)" by force
    have "(n' = n \<and> ok) \<longleftrightarrow> k = ToLower p @ n"
      using f filterate_prefix_removed [of k p n] by auto
    then show ?case
      using Cons by (auto simp: add_matched_def f split: option.splits)
  qed simp
  then show "GetBy configs walk [WithPrefix p, RemovePrefix p] n = configs (ToLower p @ n)"
    using assms by (auto simp: GetBy_def walk_of_def)
qed

lemma GetBy_prefix_witness:
  "GetBy [''kafka.a'' \<mapsto> ''1'', ''kafkab'' \<mapsto> ''2'', ''x'' \<mapsto> ''3''] [''x'', ''kafkab'', ''kafka.a'']
     [WithPrefix ''kafka.'', RemovePrefix ''kafka.''] ''a''
   = [''kafka.a'' \<mapsto> ''1'', ''kafkab'' \<mapsto> ''2'', ''x'' \<mapsto> ''3''] (ToLower ''kafka.'' @ ''a'')"
  by (rule GetBy_prefix [THEN fun_cong]) (auto simp: walk_of_def split: if_splits)

end
