(* ===== verification/ConfigRefresher.thy ===== *)
theory ConfigRefresher
  imports Prelude
begin

text \<open>
  pkg/config/refresher.go as a step relation. One goroutine polls (\<open>refreshPeriodically\<close>); \<open>stop\<close> may be called
  by any number of other goroutines (\<open>Close\<close> of the source) and by the polling goroutine itself when a fetch
  fails. A caller of \<open>stop\<close> that finds \<open>stopOnce\<close> unused closes \<open>intervalDone\<close> and waits for the wait group
  inside the once; any other caller blocks until the first one has returned (sync.Once).
\<close>

datatype poller = NotStarted | Selecting | Fetching | InStop | Exited

datatype caller = Poller | Closer nat

datatype once_state = Unused | Running caller | Done

datatype closer_pc = Calling | Returned

record refresher =
  gor :: poller
  intervalDone_closed :: bool
  intervalInitOnce :: bool
  stopOnce :: once_state
  wg :: nat
  closers :: "nat \<rightharpoonup> closer_pc"

definition newRefresher :: refresher where
  "newRefresher =
     \<lparr>gor = NotStarted, intervalDone_closed = False, intervalInitOnce = False, stopOnce = Unused, wg = 0,
      closers = Map.empty\<rparr>"

definition start :: "int \<Rightarrow> refresher \<Rightarrow> refresher" where
  "start refreshInterval r =
     (if refreshInterval > 0 \<and> \<not> intervalInitOnce r
      then r\<lparr>intervalInitOnce := True, wg := wg r + 1, gor := Selecting\<rparr>
      else r)"

text \<open>The two halves of \<open>stop\<close>: entering the once, and returning from it.\<close>

definition enter_stop :: "caller \<Rightarrow> refresher \<Rightarrow> refresher" where
  "enter_stop c r =
     (if stopOnce r = Unused then r\<lparr>stopOnce := Running c, intervalDone_closed := True\<rparr> else r)"

definition may_return :: "caller \<Rightarrow> refresher \<Rightarrow> bool" where
  "may_return c r \<longleftrightarrow> stopOnce r = Done \<or> (stopOnce r = Running c \<and> wg r = 0)"

inductive refresher_step :: "int \<Rightarrow> refresher \<Rightarrow> refresher \<Rightarrow> bool" for refreshInterval :: int where
  start: "refresher_step refreshInterval r (start refreshInterval r)"
| tick: "gor r = Selecting \<Longrightarrow> refresher_step refreshInterval r (r\<lparr>gor := Fetching\<rparr>)"
| fetched: "gor r = Fetching \<Longrightarrow> refresher_step refreshInterval r (r\<lparr>gor := Selecting\<rparr>)"
| fetch_failed: "gor r = Fetching \<Longrightarrow>
     refresher_step refreshInterval r (enter_stop Poller (r\<lparr>gor := InStop\<rparr>))"
| poller_returns: "gor r = InStop \<Longrightarrow> may_return Poller r \<Longrightarrow>
     refresher_step refreshInterval r (r\<lparr>gor := Selecting, stopOnce := Done\<rparr>)"
| interval_done: "gor r = Selecting \<Longrightarrow> intervalDone_closed r \<Longrightarrow>
     refresher_step refreshInterval r (r\<lparr>gor := Exited, wg := wg r - 1\<rparr>)"
| close_call: "closers r i = None \<Longrightarrow>
     refresher_step refreshInterval r (enter_stop (Closer i) (r\<lparr>closers := (closers r)(i \<mapsto> Calling)\<rparr>))"
| close_return: "closers r i = Some Calling \<Longrightarrow> may_return (Closer i) r \<Longrightarrow>
     refresher_step refreshInterval r (r\<lparr>closers := (closers r)(i \<mapsto> Returned), stopOnce := Done\<rparr>)"

inductive_cases refresher_stepE: "refresher_step n r r'"

text \<open>The wait group counts the polling goroutine, a caller inside the once has called, and before the once has
  been used nothing is closed.\<close>

definition refresher_inv :: "refresher \<Rightarrow> bool" where
  "refresher_inv r \<longleftrightarrow>
     wg r = (if gor r = NotStarted \<or> gor r = Exited then 0 else 1)
   \<and> (gor r = NotStarted \<longleftrightarrow> \<not> intervalInitOnce r)
   \<and> (intervalDone_closed r \<longleftrightarrow> stopOnce r \<noteq> Unused)
   \<and> (stopOnce r = Running Poller \<longrightarrow> gor r = InStop)
   \<and> (gor r = InStop \<longrightarrow> stopOnce r \<noteq> Unused)
   \<and> (\<forall>i. stopOnce r = Running (Closer i) \<longrightarrow> closers r i = Some Calling)
   \<and> (\<forall>i. closers r i \<noteq> None \<longrightarrow> stopOnce r \<noteq> Unused)"

lemma refresher_inv_new [simp]: "refresher_inv newRefresher"
  by (simp add: refresher_inv_def newRefresher_def)

lemma refresher_inv_step: "refresher_step n r r' \<Longrightarrow> refresher_inv r \<Longrightarrow> refresher_inv r'"
  by (erule refresher_stepE)
    (auto simp: refresher_inv_def start_def enter_stop_def may_return_def split: if_splits)

lemma refresher_inv_run: "(refresher_step n)\<^sup>*\<^sup>* r r' \<Longrightarrow> refresher_inv r \<Longrightarrow> refresher_inv r'"
  by (induction rule: rtranclp_induct) (auto intro: refresher_inv_step)

text \<open>The deadlock: the polling goroutine waits in its own \<open>stop\<close> for a wait group that counts it.\<close>

definition stuck :: "refresher \<Rightarrow> bool" where
  "stuck r \<longleftrightarrow> gor r = InStop \<and> stopOnce r \<noteq> Done"

lemma stuck_step:
  assumes "refresher_step n r r'" "refresher_inv r" "stuck r"
  shows "stuck r' \<and> (\<forall>i. closers r' i = Some Returned \<longrightarrow> closers r i = Some Returned)"
  using assms
  by (elim refresher_stepE)
    (auto simp: refresher_inv_def stuck_def start_def enter_stop_def may_return_def split: if_splits)

lemma stuck_run:
  "(refresher_step n)\<^sup>*\<^sup>* r r' \<Longrightarrow> refresher_inv r \<Longrightarrow> stuck r \<Longrightarrow>
     stuck r' \<and> (\<forall>i. closers r' i = Some Returned \<longrightarrow> closers r i = Some Returned)"
proof (induction rule: rtranclp_induct)
  case (step r' r'')
  then show ?case using stuck_step [OF step.hyps(2)] refresher_inv_run [OF step.hyps(1)] by blast
qed simp

text \<open>C11: A failing fetch ends the refresher for good. From the moment a poll that no finished \<open>Close\<close> has
  preceded fails, the polling goroutine never leaves its own call of \<open>stop\<close>, since it waits for a wait group
  that counts itself; it neither polls again nor exits, and no call of \<open>Close\<close> that has not returned by then
  ever returns.\<close>

theorem refresher_stop_deadlock:
  assumes "(refresher_step n)\<^sup>*\<^sup>* newRefresher r" and "gor r = Fetching" and "stopOnce r \<noteq> Done"
    and "(refresher_step n)\<^sup>*\<^sup>* (enter_stop Poller (r\<lparr>gor := InStop\<rparr>)) r'"
  shows "gor r' = InStop \<and> wg r' = 1
    \<and> (\<forall>i. closers r' i = Some Returned \<longrightarrow> closers r i = Some Returned)"
proof -
  let ?f = "enter_stop Poller (r\<lparr>gor := InStop\<rparr>)"
  have "refresher_inv r" by (rule refresher_inv_run [OF assms(1)]) simp
  then have inv: "refresher_inv ?f" using assms(2) by (intro refresher_inv_step [OF refresher_step.fetch_failed])
  have "stuck ?f" using assms(3) by (simp add: stuck_def enter_stop_def)
  then have "stuck r' \<and> (\<forall>i. closers r' i = Some Returned \<longrightarrow> closers ?f i = Some Returned)"
    by (rule stuck_run [OF assms(4) inv])
  moreover have "closers ?f = closers r" by (simp add: enter_stop_def)
  ultimately show ?thesis using refresher_inv_run [OF assms(4) inv] by (simp add: stuck_def refresher_inv_def)
qed

text \<open>A run to a failing poll, and a call of \<open>Close\<close> after it.\<close>

definition polled :: refresher where
  "polled = (start 5 newRefresher)\<lparr>gor := Fetching\<rparr>"

lemma polled_run: "(refresher_step 5)\<^sup>*\<^sup>* newRefresher polled"
proof -
  have "refresher_step 5 newRefresher (start 5 newRefresher)" by (rule refresher_step.start)
  moreover have "refresher_step 5 (start 5 newRefresher) polled"
    unfolding polled_def by (rule refresher_step.tick) (simp add: start_def newRefresher_def)
  ultimately show ?thesis by (meson converse_rtranclp_into_rtranclp r_into_rtranclp)
qed

lemma refresher_stop_deadlock_witness:
  "gor (enter_stop (Closer 0) ((enter_stop Poller (polled\<lparr>gor := InStop\<rparr>))\<lparr>closers := [0 \<mapsto> Calling]\<rparr>)) = InStop"
proof -
  let ?f = "enter_stop Poller (polled\<lparr>gor := InStop\<rparr>)"
  have cl: "closers ?f = Map.empty" by (simp add: polled_def enter_stop_def start_def newRefresher_def)
  have "refresher_step 5 ?f (enter_stop (Closer 0) (?f\<lparr>closers := (closers ?f)(0 \<mapsto> Calling)\<rparr>))"
    by (rule refresher_step.close_call) (simp add: cl)
  then have "(refresher_step 5)\<^sup>*\<^sup>* ?f (enter_stop (Closer 0) (?f\<lparr>closers := [0 \<mapsto> Calling]\<rparr>))"
    unfolding cl by (rule r_into_rtranclp)
  then show ?thesis
    using refresher_stop_deadlock [OF polled_run]
    by (simp add: polled_def start_def newRefresher_def)
qed

text \<open>Without a failing fetch \<open>Close\<close> ends the goroutine and returns: whenever the goroutine is at its select
  there are steps to that end.\<close>

lemma close_returns:
  assumes "gor r = Selecting" "wg r = 1" "stopOnce r = Unused" "closers r i = None"
  shows "\<exists>r'. (refresher_step n)\<^sup>*\<^sup>* r r' \<and> gor r' = Exited \<and> closers r' i = Some Returned"
proof -
  define r1 where "r1 = enter_stop (Closer i) (r\<lparr>closers := (closers r)(i \<mapsto> Calling)\<rparr>)"
  define r2 where "r2 = r1\<lparr>gor := Exited, wg := wg r1 - 1\<rparr>"
  define r3 where "r3 = r2\<lparr>closers := (closers r2)(i \<mapsto> Returned), stopOnce := Done\<rparr>"
  have "refresher_step n r r1" unfolding r1_def by (rule refresher_step.close_call) (rule assms(4))
  moreover have "refresher_step n r1 r2" unfolding r2_def
    by (rule refresher_step.interval_done) (simp_all add: r1_def enter_stop_def assms)
  moreover have "refresher_step n r2 r3" unfolding r3_def
    by (rule refresher_step.close_return) (simp_all add: r2_def r1_def enter_stop_def may_return_def assms)
  moreover have "gor r3 = Exited \<and> closers r3 i = Some Returned" by (simp add: r3_def r2_def)
  ultimately show ?thesis by (meson converse_rtranclp_into_rtranclp r_into_rtranclp)
qed

end
