(* ===== verification/SkipList.thy ===== *)
theory SkipList
  imports Prelude
begin

text \<open>
  pkg/util/typeutil/skip\_list.go, at the level of its pointers. The nodes live in a store from references to
  nodes; reference 0 is the head, \<open>fresh\<close> the next reference \<open>new\<close> gives. Reading or writing through a nil
  reference or past the end of a \<open>next\<close> slice panics. The loops that follow \<open>next\<close> pointers are partial
  functions, \<open>None\<close> is a loop that does not end; a list of nodes tied into a cycle would make them so.

  The order on keys is a linear order (which excludes floating point keys that are not a number). A draw of
  \<open>rand.Int\<close> is an argument. The lock of the list makes every operation atomic.
\<close>

section \<open>State\<close>

record ('k, 'v) skipListNode =
  node_key :: 'k
  node_value :: 'v
  nexts :: "nat option list"

record ('k, 'v) SkipList =
  heap :: "nat \<rightharpoonup> ('k, 'v) skipListNode"
  fresh :: nat
  maxLevel :: nat
  skip :: nat
  level :: nat
  sl_length :: nat

type_synonym ('k, 'v) store = "nat \<rightharpoonup> ('k, 'v) skipListNode"
type_synonym 'a run = "(unit, 'a) outcome option"

abbreviation (input) head :: nat where "head \<equiv> 0"

definition bindR :: "'a run \<Rightarrow> ('a \<Rightarrow> 'b run) \<Rightarrow> 'b run" where
  "bindR m k =
     Option.bind m (\<lambda>r. case r of Ok a \<Rightarrow> k a | Err e \<Rightarrow> Some (Err e) | Panic p \<Rightarrow> Some (Panic p))"

lemma bindR_simps [simp]:
  "bindR (Some (Ok a)) k = k a" "bindR (Some (Panic p)) k = Some (Panic p)" "bindR None k = None"
  by (simp_all add: bindR_def)

lemma bindR_mono [partial_function_mono]:
  assumes "mono_option B" and "\<And>y. mono_option (\<lambda>f. C y f)"
  shows "mono_option (\<lambda>f. bindR (B f) (\<lambda>y. C y f))"
  unfolding bindR_def
  apply (rule bind_mono [OF assms(1)])
  subgoal for r by (cases r) (simp_all add: assms(2) option.const_mono)
  done

definition node_at :: "('k, 'v) store \<Rightarrow> nat option \<Rightarrow> ('k, 'v) skipListNode run" where
  "node_at h r = (case r of None \<Rightarrow> Some (Panic ''nil pointer dereference'')
     | Some r \<Rightarrow> (case h r of None \<Rightarrow> Some (Panic ''nil pointer dereference'') | Some n \<Rightarrow> Some (Ok n)))"

definition next_at :: "('k, 'v) store \<Rightarrow> nat option \<Rightarrow> nat \<Rightarrow> nat option run" where
  "next_at h r i = bindR (node_at h r) (\<lambda>n.
     if i < length (nexts n) then Some (Ok (nexts n ! i)) else Some (Panic ''index out of range''))"

definition set_next :: "('k, 'v) store \<Rightarrow> nat option \<Rightarrow> nat \<Rightarrow> nat option \<Rightarrow> ('k, 'v) store run" where
  "set_next h r i x = bindR (node_at h r) (\<lambda>n.
     if i < length (nexts n) then Some (Ok (h(the r \<mapsto> n\<lparr>nexts := (nexts n)[i := x]\<rparr>)))
     else Some (Panic ''index out of range''))"

section \<open>Operations\<close>

text \<open>\<open>randomLevel\<close>: the loop counter starts at 1; the n-th draw decides whether it goes on.\<close>

function random_from :: "nat \<Rightarrow> nat \<Rightarrow> (nat \<Rightarrow> nat) \<Rightarrow> nat \<Rightarrow> nat" where
  "random_from max_level skp draws i =
     (if i < max_level then (if draws i mod skp \<noteq> 0 then i else random_from max_level skp draws (i + 1)) else i)"
  by auto
termination by (relation "measure (\<lambda>(m, _, _, i). m - i)") auto

declare random_from.simps [simp del]

definition randomLevel :: "('k, 'v) SkipList \<Rightarrow> (nat \<Rightarrow> nat) \<Rightarrow> nat" where
  "randomLevel sl draws = random_from (maxLevel sl) (skip sl) draws 1"

text \<open>The inner loop of \<open>search\<close> on one level, the loop over the levels, and \<open>search\<close>.\<close>

partial_function (option) walk :: "('k :: linorder, 'v) store \<Rightarrow> 'k \<Rightarrow> nat \<Rightarrow> nat option \<Rightarrow> nat option run" where
  "walk h key i current =
     bindR (next_at h current i) (\<lambda>nx.
       case nx of
         None \<Rightarrow> Some (Ok current)
       | Some r \<Rightarrow> bindR (node_at h nx) (\<lambda>n. if node_key n < key then walk h key i nx else Some (Ok current)))"

fun search_levels ::
  "('k :: linorder, 'v) store \<Rightarrow> 'k \<Rightarrow> nat \<Rightarrow> nat option \<Rightarrow> nat option list \<Rightarrow> (nat option \<times> nat option list) run" where
  "search_levels h key 0 current path = Some (Ok (current, path))"
| "search_levels h key (Suc i) current path =
     bindR (walk h key i current) (\<lambda>current'.
       if i < length path then search_levels h key i current' (path[i := current'])
       else Some (Panic ''index out of range''))"

definition search ::
  "('k :: linorder, 'v) SkipList \<Rightarrow> 'k \<Rightarrow> (nat option \<times> nat option list \<times> bool) run" where
  "search sl key =
     (let path = map (\<lambda>i. if level sl \<le> i then Some head else None) [0..<maxLevel sl]
      in bindR (search_levels (heap sl) key (level sl) (Some head) path) (\<lambda>(current, path).
         bindR (next_at (heap sl) current 0) (\<lambda>current.
           case current of
             None \<Rightarrow> Some (Ok (None, path, False))
           | Some r \<Rightarrow> bindR (node_at (heap sl) current) (\<lambda>n.
               if node_key n = key then Some (Ok (current, path, True)) else Some (Ok (None, path, False))))))"

definition Get :: "('k :: linorder, 'v) SkipList \<Rightarrow> 'k \<Rightarrow> 'v option run" where
  "Get sl key = bindR (search sl key) (\<lambda>(ele, _, ok).
     if ok then bindR (node_at (heap sl) ele) (\<lambda>n. Some (Ok (Some (node_value n)))) else Some (Ok None))"

text \<open>The loop of \<open>Upsert\<close> that links a new node, level by level.\<close>

fun link_levels :: "nat option list \<Rightarrow> nat \<Rightarrow> nat list \<Rightarrow> ('k, 'v) store \<Rightarrow> ('k, 'v) store run" where
  "link_levels path element [] h = Some (Ok h)"
| "link_levels path element (i # is) h =
     (if i < length path
      then bindR (next_at h (path ! i) i) (\<lambda>nx.
           bindR (set_next h (Some element) i nx) (\<lambda>h.
           bindR (set_next h (path ! i) i (Some element)) (\<lambda>h. link_levels path element is h)))
      else Some (Panic ''index out of range''))"

definition Upsert ::
  "('k :: linorder, 'v) SkipList \<Rightarrow> (nat \<Rightarrow> nat) \<Rightarrow> 'k \<Rightarrow> 'v \<Rightarrow> ('k, 'v) SkipList run" where
  "Upsert sl draws key val =
     bindR (search sl key) (\<lambda>(element, path, found).
       if found
       then bindR (node_at (heap sl) element) (\<lambda>n.
              Some (Ok (sl\<lparr>heap := (heap sl)(the element \<mapsto> n\<lparr>node_value := val\<rparr>)\<rparr>)))
       else
         let lvl = randomLevel sl draws;
             h = (heap sl)(fresh sl \<mapsto> \<lparr>node_key = key, node_value = val, nexts = replicate lvl None\<rparr>)
         in bindR (link_levels path (fresh sl) [0..<lvl] h) (\<lambda>h'.
              Some (Ok (sl\<lparr>heap := h', fresh := fresh sl + 1, level := max (level sl) lvl,
                           sl_length := sl_length sl + 1\<rparr>))))"

fun refresh_from :: "nat option list \<Rightarrow> nat" where
  "refresh_from [] = 0"
| "refresh_from (n # ns) = (if n = None then 0 else Suc (refresh_from ns))"

text \<open>\<open>refreshLevel\<close>; the slice \<open>next\<close> of the head has \<open>maxLevel\<close> entries.\<close>

definition refreshLevel :: "('k, 'v) SkipList \<Rightarrow> ('k, 'v) SkipList run" where
  "refreshLevel sl = bindR (node_at (heap sl) (Some head)) (\<lambda>n.
     Some (Ok (sl\<lparr>level := refresh_from (take (maxLevel sl) (nexts n))\<rparr>)))"

fun unlink_levels :: "nat option list \<Rightarrow> nat option \<Rightarrow> nat list \<Rightarrow> ('k, 'v) store \<Rightarrow> ('k, 'v) store run" where
  "unlink_levels path element [] h = Some (Ok h)"
| "unlink_levels path element (i # is) h =
     (if i < length path
      then bindR (next_at h element i) (\<lambda>nx.
           bindR (set_next h (path ! i) i nx) (\<lambda>h. unlink_levels path element is h))
      else Some (Panic ''index out of range''))"

definition Delete :: "('k :: linorder, 'v) SkipList \<Rightarrow> 'k \<Rightarrow> ('v option \<times> ('k, 'v) SkipList) run" where
  "Delete sl key =
     bindR (search sl key) (\<lambda>(element, path, found).
       if \<not> found then Some (Ok (None, sl))
       else bindR (node_at (heap sl) element) (\<lambda>n.
            bindR (unlink_levels path element [0..<length (nexts n)] (heap sl)) (\<lambda>h.
            bindR (refreshLevel (sl\<lparr>heap := h\<rparr>)) (\<lambda>sl'. Some (Ok (Some (node_value n), sl'))))))"

partial_function (option) list_from :: "('k, 'v) store \<Rightarrow> nat option \<Rightarrow> 'v list \<Rightarrow> 'v list run" where
  "list_from h element vs =
     bindR (next_at h element 0) (\<lambda>nx.
       case nx of
         None \<Rightarrow> Some (Ok vs)
       | Some r \<Rightarrow> bindR (node_at h nx) (\<lambda>n. list_from h nx (vs @ [node_value n])))"

definition ListAfter :: "('k :: linorder, 'v) SkipList \<Rightarrow> 'k \<Rightarrow> bool \<Rightarrow> 'v list run" where
  "ListAfter sl key incl =
     bindR (search sl key) (\<lambda>(element, path, ok).
       if \<not> ok then (if path = [] then Some (Panic ''index out of range'') else list_from (heap sl) (path ! 0) [])
       else bindR (node_at (heap sl) element) (\<lambda>n.
              list_from (heap sl) element (if incl then [node_value n] else [])))"

fun truncate_levels :: "nat option list \<Rightarrow> nat list \<Rightarrow> ('k, 'v) store \<Rightarrow> ('k, 'v) store run" where
  "truncate_levels path [] h = Some (Ok h)"
| "truncate_levels path (i # is) h =
     bindR (next_at h (path ! i) i) (\<lambda>nx.
     bindR (set_next h (Some head) i nx) (\<lambda>h. truncate_levels path is h))"

definition TruncateBefore :: "('k :: linorder, 'v) SkipList \<Rightarrow> 'k \<Rightarrow> ('k, 'v) SkipList run" where
  "TruncateBefore sl key =
     bindR (search sl key) (\<lambda>(_, path, _).
     bindR (truncate_levels path [0..<length path] (heap sl)) (\<lambda>h. refreshLevel (sl\<lparr>heap := h\<rparr>)))"

text \<open>The options and the constructor; the key and value of the head are Go's zero values.\<close>

record skipListOpt =
  opt_maxLevel :: int
  opt_skip :: int

definition WithMaxLevel :: "int \<Rightarrow> skipListOpt \<Rightarrow> skipListOpt" where
  "WithMaxLevel n opt = opt\<lparr>opt_maxLevel := n\<rparr>"

definition WithSkip :: "int \<Rightarrow> skipListOpt \<Rightarrow> skipListOpt" where
  "WithSkip n opt = opt\<lparr>opt_skip := n\<rparr>"

definition NewSkipList ::
  "'k \<Rightarrow> 'v \<Rightarrow> (skipListOpt \<Rightarrow> skipListOpt) list \<Rightarrow> (string, ('k, 'v) SkipList) outcome" where
  "NewSkipList zero_key zero_value opts =
     (let opt = foldl (\<lambda>o' f. f o') \<lparr>opt_maxLevel = 16, opt_skip = 4\<rparr> opts
      in if opt_maxLevel opt < 1 then Err (''invalid maxlevel '' @ string_of_int (opt_maxLevel opt))
         else if opt_skip opt < 1 then Err (''invalid skip '' @ string_of_int (opt_skip opt))
         else Ok \<lparr>heap = [head \<mapsto> \<lparr>node_key = zero_key, node_value = zero_value,
                                   nexts = replicate (nat (opt_maxLevel opt)) None\<rparr>],
                  fresh = 1, maxLevel = nat (opt_maxLevel opt), skip = nat (opt_skip opt), level = 0, sl_length = 0\<rparr>)"

end
