(* ===== verification/SkipListMap.thy ===== *)
theory SkipListMap
  imports SkipList
begin

text \<open>
  The skip list implements a sorted map. \<open>repr sl rs\<close> says that the nodes \<open>rs\<close>, in ascending order of their
  keys, are linked from the head on level 0, and that the chain of every higher level is the sublist of the
  nodes that are high enough. Every operation is shown to keep this and to answer as the map does, so no
  sequence of operations panics or loops, whatever levels are drawn (\<open>skip_list_implements_map\<close>).
\<close>

section \<open>Chains\<close>

fun seg :: "(nat \<Rightarrow> nat option) \<Rightarrow> nat list \<Rightarrow> nat option \<Rightarrow> bool" where
  "seg f [] y = True"
| "seg f (r # rs) y = (f r = (if rs = [] then y else Some (hd rs)) \<and> seg f rs y)"

lemma seg_append: "seg f (xs @ ys) y \<longleftrightarrow> seg f xs (if ys = [] then y else Some (hd ys)) \<and> seg f ys y"
  by (induction xs) auto

lemma seg_cong: "(\<And>r. r \<in> set xs \<Longrightarrow> f r = g r) \<Longrightarrow> seg f xs y = seg g xs y"
  by (induction xs) auto

lemma seg_last: "seg f xs y \<Longrightarrow> xs \<noteq> [] \<Longrightarrow> f (last xs) = y"
  by (induction xs) (auto split: if_splits)

lemma seg_redirect: "seg f xs y \<Longrightarrow> xs \<noteq> [] \<Longrightarrow> distinct xs \<Longrightarrow> seg (f(last xs := z)) xs z"
proof (induction xs)
  case (Cons r rs)
  show ?case
  proof (cases rs)
    case (Cons r' rs')
    then have "last rs \<in> set rs" "last (r # rs) = last rs" by auto
    then show ?thesis using Cons.IH Cons.prems Cons by auto
  qed (use Cons in auto)
qed simp

lemma seg_insert:
  assumes "seg f (C @ H) None" "distinct (C @ H)" "C \<noteq> []" "e \<notin> set (C @ H)"
  shows "seg (f(last C := Some e, e := f (last C))) (C @ e # H) None"
proof -
  have 1: "seg f C (if H = [] then None else Some (hd H))" "seg f H None"
    using assms(1) by (simp_all add: seg_append)
  then have "seg (f(last C := Some e)) C (Some e)" using assms(2,3) by (intro seg_redirect) auto
  moreover have "last C \<in> set C" using assms(3) by simp
  ultimately have "seg (f(last C := Some e, e := f (last C))) C (Some e)"
    using assms(4) by (subst seg_cong [where g = "f(last C := Some e)"]) auto
  moreover have "seg (f(last C := Some e, e := f (last C))) H None"
    using 1(2) assms(2,4) \<open>last C \<in> set C\<close> by (subst seg_cong [where g = f]) auto
  moreover have "f (last C) = (if H = [] then None else Some (hd H))" by (rule seg_last [OF 1(1) assms(3)])
  ultimately show ?thesis by (simp add: seg_append)
qed

lemma seg_remove:
  assumes "seg f (C @ e # H) None" "distinct (C @ e # H)" "C \<noteq> []"
  shows "seg (f(last C := f e)) (C @ H) None"
proof -
  have 1: "seg f C (Some e)" "f e = (if H = [] then None else Some (hd H))" "seg f H None"
    using assms(1) by (simp_all add: seg_append)
  have "last C \<in> set C" using assms(3) by simp
  then have "seg (f(last C := f e)) H None"
    using 1(3) assms(2) by (subst seg_cong [where g = f]) auto
  then show ?thesis
    using seg_redirect [OF 1(1) assms(3), of "f e"] assms(2) 1(2) by (simp add: seg_append)
qed

lemma seg_drop:
  assumes "seg f (C @ H) None" "distinct (C @ H)" "C \<noteq> []"
  shows "seg (f(hd C := f (last C))) (hd C # H) None"
proof -
  have "f (last C) = (if H = [] then None else Some (hd H))" "seg f H None" "hd C \<in> set C"
    using assms seg_last [of f C] by (auto simp: seg_append)
  moreover from this have "seg (f(hd C := f (last C))) H None"
    using assms(2) by (subst seg_cong [where g = f]) auto
  ultimately show ?thesis by simp
qed

section \<open>The representation\<close>

definition nxt :: "('k, 'v) store \<Rightarrow> nat \<Rightarrow> nat \<Rightarrow> nat option" where
  "nxt h i r = nexts (the (h r)) ! i"

definition height :: "('k, 'v) store \<Rightarrow> nat \<Rightarrow> nat" where
  "height h r = length (nexts (the (h r)))"

definition keyof :: "('k, 'v) store \<Rightarrow> nat \<Rightarrow> 'k" where
  "keyof h r = node_key (the (h r))"

definition valof :: "('k, 'v) store \<Rightarrow> nat \<Rightarrow> 'v" where
  "valof h r = node_value (the (h r))"

definition tall :: "('k, 'v) store \<Rightarrow> nat \<Rightarrow> nat list \<Rightarrow> nat list" where
  "tall h i rs = filter (\<lambda>r. i < height h r) rs"

definition repr :: "('k :: linorder, 'v) SkipList \<Rightarrow> nat list \<Rightarrow> bool" where
  "repr sl rs \<longleftrightarrow>
     0 < maxLevel sl \<and> 0 < skip sl \<and> 0 < fresh sl
   \<and> heap sl head \<noteq> None \<and> height (heap sl) head = maxLevel sl
   \<and> (\<forall>r\<in>set rs. 0 < r \<and> r < fresh sl \<and> heap sl r \<noteq> None \<and> 0 < height (heap sl) r
        \<and> height (heap sl) r \<le> maxLevel sl)
   \<and> sorted_wrt (\<lambda>a b. keyof (heap sl) a < keyof (heap sl) b) rs
   \<and> (\<forall>i<maxLevel sl. seg (nxt (heap sl) i) (head # tall (heap sl) i rs) None)
   \<and> level sl \<le> maxLevel sl
   \<and> (\<forall>i. i < level sl \<longleftrightarrow> (\<exists>r\<in>set rs. i < height (heap sl) r))"

text \<open>The map a list of nodes stands for.\<close>

definition content :: "('k, 'v) store \<Rightarrow> nat list \<Rightarrow> ('k \<rightharpoonup> 'v)" where
  "content h rs = map_of (map (\<lambda>r. (keyof h r, valof h r)) rs)"

definition low :: "('k :: linorder, 'v) store \<Rightarrow> 'k \<Rightarrow> nat list \<Rightarrow> nat list" where
  "low h k rs = filter (\<lambda>r. keyof h r < k) rs"

definition high :: "('k :: linorder, 'v) store \<Rightarrow> 'k \<Rightarrow> nat list \<Rightarrow> nat list" where
  "high h k rs = filter (\<lambda>r. \<not> keyof h r < k) rs"

definition pred_at :: "('k :: linorder, 'v) store \<Rightarrow> 'k \<Rightarrow> nat list \<Rightarrow> nat \<Rightarrow> nat" where
  "pred_at h k rs i = last (head # tall h i (low h k rs))"

lemma low_high:
  "sorted_wrt (\<lambda>a b. keyof h a < keyof h b) rs \<Longrightarrow> rs = low h k rs @ high h k rs"
proof (induction rs)
  case (Cons r rs)
  show ?case
  proof (cases "keyof h r < k")
    case True
    then show ?thesis using Cons by (simp add: low_def high_def)
  next
    case False
    then have none: "\<not> keyof h a < k" if "a \<in> set (r # rs)" for a
      using Cons.prems that by (auto dest: less_trans)
    then have "low h k (r # rs) = []" "high h k (r # rs) = r # rs"
      by (auto simp: low_def high_def filter_empty_conv filter_id_conv)
    then show ?thesis by simp
  qed
qed (simp add: low_def high_def)

lemma tall_Cons: "tall h i (r # rs) = (if i < height h r then r # tall h i rs else tall h i rs)"
  by (simp add: tall_def)

lemma tall_append [simp]: "tall h i (xs @ ys) = tall h i xs @ tall h i ys"
  by (simp add: tall_def)

lemma tall_subset: "r \<in> set (tall h i rs) \<longleftrightarrow> r \<in> set rs \<and> i < height h r"
  by (auto simp: tall_def)

lemma sorted_distinct: "sorted_wrt (\<lambda>a b. keyof h a < (keyof h b :: 'k :: linorder)) rs \<Longrightarrow> distinct rs"
  by (induction rs) auto

definition valid :: "('k, 'v) store \<Rightarrow> nat \<Rightarrow> nat \<Rightarrow> bool" where
  "valid h r i \<longleftrightarrow> h r \<noteq> None \<and> i < height h r"

lemma node_at_Some [simp]: "h r \<noteq> None \<Longrightarrow> node_at h (Some r) = Some (Ok (the (h r)))"
  by (auto simp: node_at_def)

lemma next_at_valid [simp]: "valid h r i \<Longrightarrow> next_at h (Some r) i = Some (Ok (nxt h i r))"
  by (auto simp: valid_def next_at_def height_def nxt_def)

section \<open>Searching\<close>

lemma walk_seg:
  assumes "seg (nxt h i) (cur # Q @ H) None"
    and "\<forall>r\<in>set (cur # Q). valid h r i" and "\<forall>r\<in>set Q. keyof h r < k"
    and "H \<noteq> [] \<Longrightarrow> h (hd H) \<noteq> None \<and> \<not> keyof h (hd H) < k"
  shows "walk h k i (Some cur) = Some (Ok (Some (last (cur # Q))))"
  using assms(1-3)
proof (induction Q arbitrary: cur)
  case Nil
  then show ?case using assms(4) by (cases H) (simp_all add: walk.simps keyof_def)
next
  case (Cons r Q)
  have "walk h k i (Some cur) = walk h k i (Some r)"
    using Cons.prems by (subst walk.simps) (simp add: keyof_def valid_def [of h r])
  then show ?case using Cons by simp
qed

lemma repr_split: "repr sl rs \<Longrightarrow> rs = low (heap sl) k rs @ high (heap sl) k rs"
  by (intro low_high) (simp add: repr_def)

lemma repr_distinct: "repr sl rs \<Longrightarrow> distinct (head # rs)"
  using sorted_distinct by (fastforce simp: repr_def)

lemma repr_chain:
  assumes "repr sl rs" "i < maxLevel sl"
  shows "seg (nxt (heap sl) i)
    ((head # tall (heap sl) i (low (heap sl) k rs)) @ tall (heap sl) i (high (heap sl) k rs)) None"
proof -
  have "tall (heap sl) i rs = tall (heap sl) i (low (heap sl) k rs) @ tall (heap sl) i (high (heap sl) k rs)"
    by (subst repr_split [OF assms(1), of k]) simp
  then have eq: "head # tall (heap sl) i rs
      = (head # tall (heap sl) i (low (heap sl) k rs)) @ tall (heap sl) i (high (heap sl) k rs)" by simp
  have "seg (nxt (heap sl) i) (head # tall (heap sl) i rs) None" using assms unfolding repr_def by blast
  then show ?thesis unfolding eq .
qed

lemma repr_chain_distinct:
  "repr sl rs \<Longrightarrow>
     distinct ((head # tall (heap sl) i (low (heap sl) k rs)) @ tall (heap sl) i (high (heap sl) k rs))"
  using repr_distinct [of sl rs] by (auto simp: tall_def low_def high_def)

lemma repr_valid:
  "repr sl rs \<Longrightarrow> i < maxLevel sl \<Longrightarrow> r \<in> set (head # tall (heap sl) i rs) \<Longrightarrow> valid (heap sl) r i"
  by (auto simp: repr_def valid_def tall_subset)

lemma tall_low: "r \<in> set (tall h i (low h k rs)) \<longleftrightarrow> r \<in> set (tall h i rs) \<and> keyof h r < k"
  by (auto simp: tall_subset low_def)

lemma tall_high: "r \<in> set (tall h i (high h k rs)) \<longleftrightarrow> r \<in> set (tall h i rs) \<and> \<not> keyof h r < k"
  by (auto simp: tall_subset high_def)

lemma pred_at_in: "pred_at h k rs i \<in> set (head # tall h i (low h k rs))"
  unfolding pred_at_def by (rule last_in_set) simp

lemma walk_correct:
  assumes rep: "repr sl rs" and i: "i < maxLevel sl"
    and cur: "cur \<in> set (head # tall (heap sl) i (low (heap sl) k rs))"
  shows "walk (heap sl) k i (Some cur) = Some (Ok (Some (pred_at (heap sl) k rs i)))"
proof -
  let ?L = "tall (heap sl) i (low (heap sl) k rs)" and ?H = "tall (heap sl) i (high (heap sl) k rs)"
  obtain P Q where split: "head # ?L = P @ cur # Q" using split_list [OF cur] by blast
  have sub: "set Q \<subseteq> set ?L" "set (cur # Q) \<subseteq> set (head # ?L)"
    using split by (cases P; auto) (unfold split, auto)
  have "walk (heap sl) k i (Some cur) = Some (Ok (Some (last (cur # Q))))"
  proof (rule walk_seg)
    show "seg (nxt (heap sl) i) (cur # Q @ ?H) None"
      using repr_chain [OF rep i, of k] unfolding split by (simp add: seg_append)
    show "\<forall>r\<in>set (cur # Q). valid (heap sl) r i"
    proof
      fix r assume "r \<in> set (cur # Q)"
      then have "r \<in> set (head # tall (heap sl) i rs)" using sub(2) tall_low by (metis list.set_intros(1,2) set_ConsD subsetD)
      then show "valid (heap sl) r i" by (rule repr_valid [OF rep i])
    qed
    show "\<forall>r\<in>set Q. keyof (heap sl) r < k" using sub(1) by (auto simp: tall_low)
    assume "?H \<noteq> []"
    then have "hd ?H \<in> set ?H" by simp
    then show "heap sl (hd ?H) \<noteq> None \<and> \<not> keyof (heap sl) (hd ?H) < k"
      using repr_valid [OF rep i, of "hd ?H"] by (simp add: tall_high valid_def)
  qed
  moreover have "last (cur # Q) = pred_at (heap sl) k rs i" unfolding pred_at_def split by simp
  ultimately show ?thesis by simp
qed

lemma search_levels_correct:
  assumes rep: "repr sl rs" and "n \<le> maxLevel sl" "length path = maxLevel sl"
    and "n > 0 \<longrightarrow> cur \<in> set (head # tall (heap sl) (n - 1) (low (heap sl) k rs))"
  shows "search_levels (heap sl) k n (Some cur) path =
    Some (Ok (Some (if n = 0 then cur else pred_at (heap sl) k rs 0),
      map (\<lambda>i. if i < n then Some (pred_at (heap sl) k rs i) else path ! i) [0..<maxLevel sl]))"
  using assms(2-4)
proof (induction n arbitrary: cur path)
  case 0
  then show ?case using map_nth [of path] by simp
next
  case (Suc n)
  let ?p = "pred_at (heap sl) k rs n"
  have walk: "walk (heap sl) k n (Some cur) = Some (Ok (Some ?p))"
    using Suc.prems by (intro walk_correct [OF rep]) simp_all
  have "n > 0 \<longrightarrow> ?p \<in> set (head # tall (heap sl) (n - 1) (low (heap sl) k rs))"
    using pred_at_in [of "heap sl" k rs n] by (auto simp: tall_subset)
  then have "search_levels (heap sl) k n (Some ?p) (path[n := Some ?p]) =
      Some (Ok (Some (if n = 0 then ?p else pred_at (heap sl) k rs 0),
      map (\<lambda>i. if i < n then Some (pred_at (heap sl) k rs i) else (path[n := Some ?p]) ! i) [0..<maxLevel sl]))"
    using Suc.prems by (intro Suc.IH) simp_all
  moreover have "map (\<lambda>i. if i < n then Some (pred_at (heap sl) k rs i) else (path[n := Some ?p]) ! i) [0..<maxLevel sl]
      = map (\<lambda>i. if i < Suc n then Some (pred_at (heap sl) k rs i) else path ! i) [0..<maxLevel sl]"
    using Suc.prems by (auto simp: less_Suc_eq nth_list_update)
  ultimately show ?case using Suc.prems walk by simp
qed

text \<open>What \<open>search\<close> finds: the first node whose key is not smaller, when its key is the one searched; and on
  every level the last node with a smaller key.\<close>

definition found_at :: "('k :: linorder, 'v) store \<Rightarrow> 'k \<Rightarrow> nat list \<Rightarrow> nat option" where
  "found_at h k rs = (case high h k rs of [] \<Rightarrow> None | r # _ \<Rightarrow> if keyof h r = k then Some r else None)"

lemma tall_zero: "repr sl rs \<Longrightarrow> set xs \<subseteq> set rs \<Longrightarrow> tall (heap sl) 0 xs = xs"
  unfolding tall_def repr_def by (intro filter_True) auto

lemma search_correct:
  assumes rep: "repr sl rs"
  shows "search sl k = Some (Ok (found_at (heap sl) k rs,
    map (\<lambda>i. Some (pred_at (heap sl) k rs i)) [0..<maxLevel sl], found_at (heap sl) k rs \<noteq> None))"
proof -
  let ?path = "map (\<lambda>i. if level sl \<le> i then Some head else None) [0..<maxLevel sl]"
  let ?H = "high (heap sl) k rs"
  have lev: "level sl \<le> maxLevel sl" "0 < maxLevel sl" using rep by (auto simp: repr_def)
  have empty: "tall (heap sl) i rs = []" if "\<not> i < level sl" for i
    using rep that by (auto simp: repr_def tall_def filter_empty_conv)
  have head: "pred_at (heap sl) k rs i = head" if "\<not> i < level sl" for i
    using empty [OF that] pred_at_in [of "heap sl" k rs i] by (auto simp: tall_low)
  have "search_levels (heap sl) k (level sl) (Some head) ?path =
      Some (Ok (Some (if level sl = 0 then head else pred_at (heap sl) k rs 0),
        map (\<lambda>i. if i < level sl then Some (pred_at (heap sl) k rs i) else ?path ! i) [0..<maxLevel sl]))"
    by (rule search_levels_correct [OF rep lev(1)]) simp_all
  moreover have "map (\<lambda>i. if i < level sl then Some (pred_at (heap sl) k rs i) else ?path ! i) [0..<maxLevel sl]
      = map (\<lambda>i. Some (pred_at (heap sl) k rs i)) [0..<maxLevel sl]"
    by (auto simp: head)
  moreover have "(if level sl = 0 then head else pred_at (heap sl) k rs 0) = pred_at (heap sl) k rs 0"
    by (simp add: head)
  moreover have "nxt (heap sl) 0 (pred_at (heap sl) k rs 0) = (if ?H = [] then None else Some (hd ?H))"
  proof -
    have "tall (heap sl) 0 ?H = ?H" using rep by (rule tall_zero) (auto simp: high_def)
    then have "seg (nxt (heap sl) 0) (head # tall (heap sl) 0 (low (heap sl) k rs))
        (if ?H = [] then None else Some (hd ?H))"
      using repr_chain [OF rep lev(2), of k] by (simp only: seg_append)
    then show ?thesis unfolding pred_at_def by (rule seg_last) simp
  qed
  moreover have "valid (heap sl) (pred_at (heap sl) k rs 0) 0"
    using pred_at_in [of "heap sl" k rs 0] repr_valid [OF rep lev(2)] by (auto simp: tall_low)
  moreover have "heap sl r \<noteq> None" if "r \<in> set ?H" for r
    using rep that by (auto simp: repr_def high_def)
  ultimately show ?thesis
    unfolding search_def Let_def by (cases ?H) (simp_all add: found_at_def keyof_def)
qed

section \<open>Reading\<close>

lemma found_at_iff:
  assumes rep: "repr sl rs"
  shows "found_at (heap sl) k rs = Some r \<longleftrightarrow> r \<in> set rs \<and> keyof (heap sl) r = k"
proof -
  let ?h = "heap sl"
  have sorted: "sorted_wrt (\<lambda>a b. keyof ?h a < keyof ?h b) (high ?h k rs)"
    using rep by (auto simp: repr_def high_def intro: sorted_wrt_filter)
  have in_high: "r \<in> set rs \<and> keyof ?h r = k \<longleftrightarrow> r \<in> set (high ?h k rs) \<and> keyof ?h r = k"
    by (auto simp: high_def)
  show ?thesis
  proof (cases "high ?h k rs")
    case Nil
    then show ?thesis unfolding in_high by (simp add: found_at_def)
  next
    case (Cons a as)
    have "a \<in> set (high ?h k rs)" by (simp add: Cons)
    then have "\<not> keyof ?h a < k" by (simp add: high_def)
    moreover have "keyof ?h a < k" if "r \<in> set as" "keyof ?h r = k" using sorted that by (auto simp: Cons)
    ultimately show ?thesis unfolding in_high by (auto simp: found_at_def Cons)
  qed
qed

lemma content_lookup:
  assumes "repr sl rs"
  shows "content (heap sl) rs k = map_option (valof (heap sl)) (found_at (heap sl) k rs)"
proof -
  let ?h = "heap sl"
  have "distinct (map (keyof ?h) rs)"
    using assms by (auto simp: repr_def sorted_wrt_map strict_sorted_iff simp flip: sorted_wrt_map)
  then have dist: "distinct (map fst (map (\<lambda>r. (keyof ?h r, valof ?h r)) rs))" by (simp add: comp_def)
  show ?thesis
  proof (cases "found_at ?h k rs")
    case None
    then have "k \<notin> keyof ?h ` set rs" using found_at_iff [OF assms, of k] by auto
    then show ?thesis unfolding None content_def by (auto simp: map_of_eq_None_iff)
  next
    case (Some r)
    then have "r \<in> set rs" "keyof ?h r = k" using found_at_iff [OF assms] by blast+
    then have "(k, valof ?h r) \<in> set (map (\<lambda>r. (keyof ?h r, valof ?h r)) rs)" by auto
    then show ?thesis using map_of_eq_Some_iff [OF dist] unfolding Some content_def by simp
  qed
qed

lemma Get_correct:
  assumes "repr sl rs"
  shows "Get sl k = Some (Ok (content (heap sl) rs k))"
proof (cases "found_at (heap sl) k rs")
  case (Some r)
  then have "heap sl r \<noteq> None" using found_at_iff [OF assms] assms by (auto simp: repr_def)
  then show ?thesis using Some by (simp add: Get_def search_correct [OF assms] content_lookup [OF assms] valof_def)
qed (simp add: Get_def search_correct [OF assms] content_lookup [OF assms])

lemma list_from_seg:
  assumes "seg (nxt h 0) (cur # rs) None" and "\<forall>r\<in>set (cur # rs). valid h r 0"
  shows "list_from h (Some cur) vs = Some (Ok (vs @ map (valof h) rs))"
  using assms
proof (induction rs arbitrary: cur vs)
  case Nil
  then show ?case by (simp add: list_from.simps)
next
  case (Cons r rs)
  then have "list_from h (Some cur) vs = list_from h (Some r) (vs @ [valof h r])"
    by (subst list_from.simps) (simp add: valof_def valid_def [of h r])
  then show ?case using Cons by simp
qed

text \<open>The values a map lists after a key, in ascending order of the keys.\<close>

definition values_after :: "('k :: linorder \<rightharpoonup> 'v) \<Rightarrow> 'k \<Rightarrow> bool \<Rightarrow> 'v list" where
  "values_after m k incl = map (\<lambda>k'. the (m k')) (sorted_list_of_set {k'. m k' \<noteq> None \<and> (k < k' \<or> (incl \<and> k' = k))})"

lemma content_at:
  assumes "repr sl rs" "r \<in> set rs"
  shows "content (heap sl) rs (keyof (heap sl) r) = Some (valof (heap sl) r)"
  using assms content_lookup [OF assms(1)] found_at_iff [OF assms(1)] by auto

lemma content_dom: "content h rs k \<noteq> None \<longleftrightarrow> k \<in> keyof h ` set rs"
  by (force simp: content_def map_of_eq_None_iff)

lemma sorted_list_of_set_strict: "sorted_wrt (<) xs \<Longrightarrow> sorted_list_of_set (set xs) = xs"
  by (simp add: strict_sorted_iff sorted_list_of_set.idem_if_sorted_distinct)

lemma values_after_eq:
  assumes rep: "repr sl rs"
  shows "values_after (content (heap sl) rs) k incl =
    map (valof (heap sl)) (filter (\<lambda>r. k < keyof (heap sl) r \<or> (incl \<and> keyof (heap sl) r = k)) rs)"
proof -
  let ?h = "heap sl" and ?sel = "filter (\<lambda>r. k < keyof (heap sl) r \<or> (incl \<and> keyof (heap sl) r = k)) rs"
  have "sorted_wrt (\<lambda>a b. keyof ?h a < keyof ?h b) ?sel" using rep by (auto simp: repr_def intro: sorted_wrt_filter)
  then have "sorted_wrt (<) (map (keyof ?h) ?sel)" by (simp add: sorted_wrt_map)
  then have "sorted_list_of_set (set (map (keyof ?h) ?sel)) = map (keyof ?h) ?sel"
    by (rule sorted_list_of_set_strict)
  moreover have "{k'. content ?h rs k' \<noteq> None \<and> (k < k' \<or> (incl \<and> k' = k))} = set (map (keyof ?h) ?sel)"
    unfolding content_dom by auto
  ultimately show ?thesis
    unfolding values_after_def using content_at [OF rep] by (auto simp: comp_def)
qed

lemma pred_zero_seg:
  assumes rep: "repr sl rs"
  shows "seg (nxt (heap sl) 0) (pred_at (heap sl) k rs 0 # high (heap sl) k rs) None"
    and "\<forall>r\<in>set (pred_at (heap sl) k rs 0 # high (heap sl) k rs). valid (heap sl) r 0"
proof -
  let ?h = "heap sl"
  let ?C = "head # tall ?h 0 (low ?h k rs)"
  have pos: "0 < maxLevel sl" using rep by (simp add: repr_def)
  have high: "tall ?h 0 (high ?h k rs) = high ?h k rs" by (rule tall_zero [OF rep]) (auto simp: high_def)
  have chain: "seg (nxt ?h 0) (?C @ high ?h k rs) None" using repr_chain [OF rep pos, of k] unfolding high .
  have C: "?C = butlast ?C @ [pred_at ?h k rs 0]" unfolding pred_at_def by (rule append_butlast_last_id [symmetric]) simp
  show "seg (nxt ?h 0) (pred_at ?h k rs 0 # high ?h k rs) None"
    using chain by (subst (asm) C) (simp add: seg_append)
  show "\<forall>r\<in>set (pred_at ?h k rs 0 # high ?h k rs). valid ?h r 0"
  proof
    fix r assume "r \<in> set (pred_at ?h k rs 0 # high ?h k rs)"
    then have "r \<in> set (?C @ tall ?h 0 (high ?h k rs))" using pred_at_in [of ?h k rs 0] unfolding high by auto
    then have "r \<in> set (head # tall ?h 0 rs)" by (auto simp: tall_low tall_high)
    then show "valid ?h r 0" by (rule repr_valid [OF rep pos])
  qed
qed

lemma ListAfter_correct:
  assumes rep: "repr sl rs"
  shows "ListAfter sl k incl = Some (Ok (values_after (content (heap sl) rs) k incl))"
proof -
  let ?h = "heap sl" and ?H = "high (heap sl) k rs"
  have pos: "0 < maxLevel sl" using rep by (simp add: repr_def)
  have sorted: "sorted_wrt (\<lambda>a b. keyof ?h a < keyof ?h b) ?H"
    using rep by (auto simp: repr_def high_def intro: sorted_wrt_filter)
  have vals: "values_after (content ?h rs) k incl =
      map (valof ?h) (filter (\<lambda>r. k < keyof ?h r \<or> (incl \<and> keyof ?h r = k)) ?H)"
    unfolding values_after_eq [OF rep] high_def filter_filter
    by (rule arg_cong [where f = "map (valof ?h)"], rule filter_cong) auto
  show ?thesis
  proof (cases "found_at ?h k rs")
    case None
    have "filter (\<lambda>r. k < keyof ?h r \<or> (incl \<and> keyof ?h r = k)) ?H = ?H"
    proof (rule filter_True, rule ballI)
      fix r assume "r \<in> set ?H"
      then have "keyof ?h r \<noteq> k" "\<not> keyof ?h r < k"
        using None found_at_iff [OF rep, of k r] by (auto simp: high_def)
      then show "k < keyof ?h r \<or> (incl \<and> keyof ?h r = k)" by auto
    qed
    then show ?thesis
      using list_from_seg [OF pred_zero_seg [OF rep, of k], of "[]"] None pos vals
      by (simp add: ListAfter_def search_correct [OF rep])
  next
    case (Some r)
    then obtain as where H: "?H = r # as" and k: "keyof ?h r = k"
      by (auto simp: found_at_def split: list.splits if_splits)
    have "k < keyof ?h a" if "a \<in> set as" for a using sorted that by (simp add: H k)
    then have "filter (\<lambda>r. k < keyof ?h r \<or> (incl \<and> keyof ?h r = k)) ?H = (if incl then r # as else as)"
      using k by (auto simp: H filter_id_conv)
    moreover have "list_from ?h (Some r) vs = Some (Ok (vs @ map (valof ?h) as))" for vs
      using pred_zero_seg [OF rep, of k] by (intro list_from_seg) (simp_all add: H)
    moreover have "heap sl r \<noteq> None" using pred_zero_seg(2) [OF rep, of k] by (simp add: H valid_def)
    ultimately show ?thesis
      using Some vals by (simp add: ListAfter_def search_correct [OF rep] valof_def)
  qed
qed

section \<open>Writing\<close>

text \<open>Two stores with the same nodes, but for the \<open>next\<close> references; and what setting one does.\<close>

definition same_nodes :: "('k, 'v) store \<Rightarrow> ('k, 'v) store \<Rightarrow> bool" where
  "same_nodes h h' \<longleftrightarrow> (\<forall>r. (h' r = None \<longleftrightarrow> h r = None) \<and> height h' r = height h r
     \<and> keyof h' r = keyof h r \<and> valof h' r = valof h r)"

lemma same_nodes_refl [simp]: "same_nodes h h"
  by (simp add: same_nodes_def)

lemma same_nodes_trans: "same_nodes h h' \<Longrightarrow> same_nodes h' h'' \<Longrightarrow> same_nodes h h''"
  by (simp add: same_nodes_def)

lemma same_nodes_valid: "same_nodes h h' \<Longrightarrow> valid h' r i = valid h r i"
  by (simp add: same_nodes_def valid_def)

lemma set_next_valid:
  assumes "valid h r i"
  shows "\<exists>h'. set_next h (Some r) i x = Some (Ok h') \<and> same_nodes h h'
    \<and> (\<forall>j s. nxt h' j s = (if s = r \<and> j = i then x else nxt h j s))"
proof -
  let ?h = "h(r \<mapsto> (the (h r))\<lparr>nexts := (nexts (the (h r)))[i := x]\<rparr>)"
  have "set_next h (Some r) i x = Some (Ok ?h)"
    using assms by (simp add: set_next_def valid_def height_def)
  moreover have "same_nodes h ?h"
    using assms by (auto simp: same_nodes_def height_def keyof_def valof_def valid_def)
  moreover have "nxt ?h j s = (if s = r \<and> j = i then x else nxt h j s)" for j s
    using assms by (auto simp: nxt_def valid_def height_def)
  ultimately show ?thesis by blast
qed

lemma link_levels_effect:
  assumes "distinct is" and "\<forall>i\<in>set is. i < length path \<and> path ! i = Some (p i) \<and> p i \<noteq> e \<and> valid h (p i) i \<and> valid h e i"
  shows "\<exists>h'. link_levels path e is h = Some (Ok h') \<and> same_nodes h h'
    \<and> (\<forall>i. nxt h' i = (if i \<in> set is then (nxt h i)(p i := Some e, e := nxt h i (p i)) else nxt h i))"
  using assms
proof (induction "is" arbitrary: h)
  case (Cons i "is")
  then have i: "i < length path" "path ! i = Some (p i)" "p i \<noteq> e" "valid h (p i) i" "valid h e i" by simp_all
  obtain h1 where h1: "set_next h (Some e) i (nxt h i (p i)) = Some (Ok h1)" "same_nodes h h1"
      "\<forall>j s. nxt h1 j s = (if s = e \<and> j = i then nxt h i (p i) else nxt h j s)"
    using set_next_valid [OF i(5)] by blast
  then have "valid h1 (p i) i" using i(4) same_nodes_valid by blast
  then obtain h2 where h2: "set_next h1 (Some (p i)) i (Some e) = Some (Ok h2)" "same_nodes h1 h2"
      "\<forall>j s. nxt h2 j s = (if s = p i \<and> j = i then Some e else nxt h1 j s)"
    using set_next_valid by blast
  have same: "same_nodes h h2" using h1(2) h2(2) by (rule same_nodes_trans)
  have "\<forall>j\<in>set is. j < length path \<and> path ! j = Some (p j) \<and> p j \<noteq> e \<and> valid h2 (p j) j \<and> valid h2 e j"
    using Cons.prems(2) same_nodes_valid [OF same] by simp
  then obtain h' where h': "link_levels path e is h2 = Some (Ok h')" "same_nodes h2 h'"
      "\<forall>j. nxt h' j = (if j \<in> set is then (nxt h2 j)(p j := Some e, e := nxt h2 j (p j)) else nxt h2 j)"
    using Cons.IH [of h2] Cons.prems(1) by auto
  have "nxt h2 j = (if j = i then (nxt h i)(p i := Some e, e := nxt h i (p i)) else nxt h j)" for j
    using h1(3) h2(3) i(3) by (auto simp: fun_eq_iff)
  then have "nxt h' j = (if j \<in> set (i # is) then (nxt h j)(p j := Some e, e := nxt h j (p j)) else nxt h j)" for j
    using h'(3) Cons.prems(1) by auto
  moreover have "link_levels path e (i # is) h = Some (Ok h')" using i h1(1) h2(1) h'(1) by simp
  ultimately show ?case using same_nodes_trans [OF same h'(2)] by blast
qed simp

lemma unlink_levels_effect:
  assumes "distinct is" and "\<forall>i\<in>set is. i < length path \<and> path ! i = Some (p i) \<and> valid h (p i) i \<and> valid h e i"
  shows "\<exists>h'. unlink_levels path (Some e) is h = Some (Ok h') \<and> same_nodes h h'
    \<and> (\<forall>i. nxt h' i = (if i \<in> set is then (nxt h i)(p i := nxt h i e) else nxt h i))"
  using assms
proof (induction "is" arbitrary: h)
  case (Cons i "is")
  then have i: "i < length path" "path ! i = Some (p i)" "valid h (p i) i" "valid h e i" by simp_all
  obtain h1 where h1: "set_next h (Some (p i)) i (nxt h i e) = Some (Ok h1)" "same_nodes h h1"
      "\<forall>j s. nxt h1 j s = (if s = p i \<and> j = i then nxt h i e else nxt h j s)"
    using set_next_valid [OF i(3)] by blast
  have "\<forall>j\<in>set is. j < length path \<and> path ! j = Some (p j) \<and> valid h1 (p j) j \<and> valid h1 e j"
    using Cons.prems(2) same_nodes_valid [OF h1(2)] by simp
  then obtain h' where h': "unlink_levels path (Some e) is h1 = Some (Ok h')" "same_nodes h1 h'"
      "\<forall>j. nxt h' j = (if j \<in> set is then (nxt h1 j)(p j := nxt h1 j e) else nxt h1 j)"
    using Cons.IH [of h1] Cons.prems(1) by auto
  have "nxt h1 j = (if j = i then (nxt h i)(p i := nxt h i e) else nxt h j)" for j
    using h1(3) by (auto simp: fun_eq_iff)
  then have "nxt h' j = (if j \<in> set (i # is) then (nxt h j)(p j := nxt h j e) else nxt h j)" for j
    using h'(3) Cons.prems(1) by auto
  moreover have "unlink_levels path (Some e) (i # is) h = Some (Ok h')" using i h1(1) h'(1) by simp
  ultimately show ?case using same_nodes_trans [OF h1(2) h'(2)] by blast
qed simp

lemma truncate_levels_effect:
  assumes "distinct is" and "\<forall>i\<in>set is. path ! i = Some (p i) \<and> valid h (p i) i \<and> valid h head i"
  shows "\<exists>h'. truncate_levels path is h = Some (Ok h') \<and> same_nodes h h'
    \<and> (\<forall>i. nxt h' i = (if i \<in> set is then (nxt h i)(head := nxt h i (p i)) else nxt h i))"
  using assms
proof (induction "is" arbitrary: h)
  case (Cons i "is")
  then have i: "path ! i = Some (p i)" "valid h (p i) i" "valid h head i" by simp_all
  obtain h1 where h1: "set_next h (Some head) i (nxt h i (p i)) = Some (Ok h1)" "same_nodes h h1"
      "\<forall>j s. nxt h1 j s = (if s = head \<and> j = i then nxt h i (p i) else nxt h j s)"
    using set_next_valid [OF i(3)] by blast
  have "\<forall>j\<in>set is. path ! j = Some (p j) \<and> valid h1 (p j) j \<and> valid h1 head j"
    using Cons.prems(2) same_nodes_valid [OF h1(2)] by simp
  then obtain h' where h': "truncate_levels path is h1 = Some (Ok h')" "same_nodes h1 h'"
      "\<forall>j. nxt h' j = (if j \<in> set is then (nxt h1 j)(head := nxt h1 j (p j)) else nxt h1 j)"
    using Cons.IH [of h1] Cons.prems(1) by auto
  have "nxt h1 j = (if j = i then (nxt h i)(head := nxt h i (p i)) else nxt h j)" for j
    using h1(3) by (auto simp: fun_eq_iff)
  then have "nxt h' j = (if j \<in> set (i # is) then (nxt h j)(head := nxt h j (p j)) else nxt h j)" for j
    using h'(3) Cons.prems(1) by auto
  moreover have "truncate_levels path (i # is) h = Some (Ok h')" using i h1(1) h'(1) by simp
  ultimately show ?case using same_nodes_trans [OF h1(2) h'(2)] by blast
qed simp

section \<open>The operations keep the representation\<close>

lemma content_iff:
  assumes "repr sl rs"
  shows "content (heap sl) rs k = Some v \<longleftrightarrow> (\<exists>r\<in>set rs. keyof (heap sl) r = k \<and> valof (heap sl) r = v)"
  unfolding content_lookup [OF assms] using found_at_iff [OF assms] by auto

lemma map_eqI: "(\<And>k v. m k = Some v \<longleftrightarrow> m' k = Some v) \<Longrightarrow> m = m'"
  by (rule ext) (metis option.exhaust)

lemma random_from_bounds: "i \<le> m \<Longrightarrow> i \<le> random_from m s draws i \<and> random_from m s draws i \<le> m"
proof (induction m s draws i rule: random_from.induct)
  case (1 m s draws i)
  then show ?case by (subst (1 2) random_from.simps) fastforce
qed

lemma randomLevel_bounds: "0 < maxLevel sl \<Longrightarrow> 0 < randomLevel sl draws \<and> randomLevel sl draws \<le> maxLevel sl"
  using random_from_bounds [of 1 "maxLevel sl" "skip sl" draws] by (simp add: randomLevel_def)

lemma Upsert_found:
  assumes rep: "repr sl rs" and found: "found_at (heap sl) k rs = Some r"
  shows "\<exists>sl'. Upsert sl draws k v = Some (Ok sl') \<and> repr sl' rs
    \<and> content (heap sl') rs = (content (heap sl) rs)(k \<mapsto> v)"
proof -
  let ?h = "(heap sl)(r \<mapsto> (the (heap sl r))\<lparr>node_value := v\<rparr>)"
  have r: "r \<in> set rs" "keyof (heap sl) r = k" "heap sl r \<noteq> None"
    using found found_at_iff [OF rep] rep by (auto simp: repr_def)
  have ops: "Upsert sl draws k v = Some (Ok (sl\<lparr>heap := ?h\<rparr>))"
    using r(3) found by (simp add: Upsert_def search_correct [OF rep])
  have same: "nxt ?h = nxt (heap sl)" "height ?h = height (heap sl)" "keyof ?h = keyof (heap sl)"
      "(?h s \<noteq> None) = (heap sl s \<noteq> None)" "valof ?h s = (if s = r then v else valof (heap sl) s)" for s
    using r(3) by (auto simp: nxt_def height_def keyof_def valof_def fun_eq_iff)
  have rep': "repr (sl\<lparr>heap := ?h\<rparr>) rs"
    using rep unfolding repr_def tall_def by (simp add: same del: fun_upd_apply not_None_eq)
  moreover have "content ?h rs = (content (heap sl) rs)(k \<mapsto> v)"
  proof (rule map_eqI)
    fix k' v'
    have "content ?h rs k' = Some v' \<longleftrightarrow> (\<exists>s\<in>set rs. keyof (heap sl) s = k' \<and> (if s = r then v else valof (heap sl) s) = v')"
      using content_iff [OF rep', of k' v'] by (simp add: same del: fun_upd_apply)
    moreover have "s = r" if "s \<in> set rs" "keyof (heap sl) s = k" for s
      using found_at_iff [OF rep, of k s] that found by simp
    ultimately show "content ?h rs k' = Some v' \<longleftrightarrow> ((content (heap sl) rs)(k \<mapsto> v)) k' = Some v'"
      using r content_iff [OF rep, of k' v'] by (cases "k' = k") fastforce+
  qed
  ultimately show ?thesis using ops by auto
qed

lemma not_found_keys:
  "repr sl rs \<Longrightarrow> found_at (heap sl) k rs = None \<Longrightarrow> r \<in> set rs \<Longrightarrow> keyof (heap sl) r \<noteq> k"
  using found_at_iff [of sl rs k r] by auto

lemma sorted_insert:
  assumes "repr sl rs" "found_at (heap sl) k rs = None" "keyof h e = k"
    and "\<And>r. r \<in> set rs \<Longrightarrow> keyof h r = keyof (heap sl) r"
  shows "sorted_wrt (\<lambda>a b. keyof h a < keyof h b) (low (heap sl) k rs @ e # high (heap sl) k rs)"
proof -
  have "sorted_wrt (\<lambda>a b. keyof (heap sl) a < keyof (heap sl) b) rs" using assms(1) by (simp add: repr_def)
  then have "sorted_wrt (\<lambda>a b. keyof h a < keyof h b) rs" by (rule sorted_wrt_mono_rel [rotated]) (simp add: assms(4))
  then have "sorted_wrt (\<lambda>a b. keyof h a < keyof h b) (low (heap sl) k rs @ high (heap sl) k rs)"
    using repr_split [OF assms(1), of k] by simp
  moreover have "\<forall>r\<in>set (low (heap sl) k rs). keyof h r < k"
    using assms(4) by (auto simp: low_def)
  moreover have "\<forall>r\<in>set (high (heap sl) k rs). k < keyof h r"
    using assms(4) not_found_keys [OF assms(1,2)] by (fastforce simp: high_def)
  ultimately show ?thesis using assms(3) by (simp add: sorted_wrt_append)
qed

lemma Upsert_new:
  assumes rep: "repr sl rs" and none: "found_at (heap sl) k rs = None"
  shows "\<exists>sl' rs'. Upsert sl draws k v = Some (Ok sl') \<and> repr sl' rs'
    \<and> content (heap sl') rs' = (content (heap sl) rs)(k \<mapsto> v)"
proof -
  let ?h = "heap sl" and ?e = "fresh sl" and ?lvl = "randomLevel sl draws" and ?p = "pred_at (heap sl) k rs"
  let ?L = "low ?h k rs" and ?H = "high ?h k rs"
  define h1 where "h1 = ?h(?e \<mapsto> \<lparr>node_key = k, node_value = v, nexts = replicate ?lvl None\<rparr>)"
  have facts: "0 < maxLevel sl" "0 < skip sl" "0 < ?e" "?h head \<noteq> None" "height ?h head = maxLevel sl"
    "level sl \<le> maxLevel sl" "\<forall>i. i < level sl \<longleftrightarrow> (\<exists>r\<in>set rs. i < height ?h r)"
    using rep by (simp_all add: repr_def)
  have node: "0 < r \<and> r < ?e \<and> ?h r \<noteq> None \<and> 0 < height ?h r \<and> height ?h r \<le> maxLevel sl" if "r \<in> set rs" for r
    using rep that by (simp add: repr_def)
  have e: "?e \<notin> set (head # rs)" using node facts(3) by auto
  have lvl: "0 < ?lvl" "?lvl \<le> maxLevel sl" using randomLevel_bounds [OF facts(1)] by auto
  have h1: "nxt h1 i r = nxt ?h i r" "height h1 r = height ?h r" "keyof h1 r = keyof ?h r" "valof h1 r = valof ?h r"
      "h1 r = None \<longleftrightarrow> ?h r = None" if "r \<in> set (head # rs)" for r i
    using that e unfolding h1_def nxt_def height_def keyof_def valof_def by (metis fun_upd_other)+
  have h1e: "height h1 ?e = ?lvl" "keyof h1 ?e = k" "valof h1 ?e = v" "h1 ?e \<noteq> None"
    by (simp_all add: h1_def height_def keyof_def valof_def)
  have "?p i \<in> set (head # tall ?h i rs)" for i using pred_at_in [of ?h k rs i] by (auto simp: tall_low)
  moreover from this have "?p i \<in> set (head # rs)" for i by (auto simp: tall_subset)
  ultimately have p_in: "?p i \<in> set (head # rs)" "?p i \<in> set (head # tall ?h i rs)" for i by blast+
  have p_ne: "?p i \<noteq> ?e" for i using p_in(1) [of i] e by metis
  have valid_p: "valid h1 (?p i) i" if "i < ?lvl" for i
    using repr_valid [OF rep, of i "?p i"] p_in that lvl h1(2,5) [OF p_in(1)] by (simp add: valid_def)
  have "\<forall>i\<in>set [0..<?lvl]. i < length (map (\<lambda>i. Some (?p i)) [0..<maxLevel sl])
      \<and> map (\<lambda>i. Some (?p i)) [0..<maxLevel sl] ! i = Some (?p i) \<and> ?p i \<noteq> ?e \<and> valid h1 (?p i) i \<and> valid h1 ?e i"
    using lvl(2) p_ne valid_p h1e(1,4) by (auto simp: valid_def [of h1 ?e])
  from link_levels_effect [OF distinct_upt this]
  obtain h' where h': "link_levels (map (\<lambda>i. Some (?p i)) [0..<maxLevel sl]) ?e [0..<?lvl] h1 = Some (Ok h')"
    "same_nodes h1 h'"
    "\<forall>i. nxt h' i = (if i < ?lvl then (nxt h1 i)(?p i := Some ?e, ?e := nxt h1 i (?p i)) else nxt h1 i)"
    by auto
  let ?sl = "sl\<lparr>heap := h', fresh := ?e + 1, level := max (level sl) ?lvl, sl_length := sl_length sl + 1\<rparr>"
  let ?rs = "?L @ ?e # ?H"
  have ops: "Upsert sl draws k v = Some (Ok ?sl)"
    using h'(1) by (simp add: Upsert_def search_correct [OF rep] none h1_def Let_def)
  have set: "set ?rs = insert ?e (set rs)" by (auto simp: low_def high_def)
  have old: "height h' r = height ?h r" "keyof h' r = keyof ?h r" "valof h' r = valof ?h r" "h' r = None \<longleftrightarrow> ?h r = None"
    if "r \<in> set (head # rs)" for r using h'(2) h1 [OF that] by (simp_all add: same_nodes_def)
  have new: "height h' ?e = ?lvl" "keyof h' ?e = k" "valof h' ?e = v" "h' ?e \<noteq> None"
    using h'(2) h1e by (simp_all add: same_nodes_def)
  have tall: "tall h' i ?L = tall ?h i ?L" "tall h' i ?H = tall ?h i ?H" for i
    unfolding tall_def by (rule filter_cong; use old(1) in \<open>simp add: low_def high_def\<close>)+
  have seg: "seg (nxt h' i) (head # tall h' i ?rs) None" if i: "i < maxLevel sl" for i
  proof -
    let ?C = "head # tall ?h i ?L" and ?D = "tall ?h i ?H"
    have in_rs: "r \<in> set (head # rs)" if "r \<in> set (?C @ ?D)" for r
      using that by (auto simp: tall_subset low_def high_def)
    have chain: "seg (nxt h1 i) (?C @ ?D) None"
      using repr_chain [OF rep i, of k] h1(1) in_rs by (subst seg_cong [where g = "nxt ?h i"]) blast+
    have dist: "distinct (?C @ ?D)"
      by (rule repr_chain_distinct [OF rep])
    show ?thesis
    proof (cases "i < ?lvl")
      case True
      have "?e \<notin> set (?C @ ?D)" using in_rs e by blast
      from seg_insert [OF chain dist _ this]
      have "seg (nxt h' i) (?C @ ?e # ?D) None" using h'(3) True by (simp add: pred_at_def)
      moreover have "head # tall h' i ?rs = ?C @ ?e # ?D" using tall new(1) True by (simp add: tall_Cons)
      ultimately show ?thesis by simp
    next
      case False
      then have "nxt h' i = nxt h1 i" using h'(3) by simp
      moreover have "head # tall h' i ?rs = ?C @ ?D" using tall new(1) False by (simp add: tall_Cons)
      ultimately show ?thesis using chain by simp
    qed
  qed
  have rep': "repr ?sl ?rs"
    unfolding repr_def
  proof (intro conjI)
    show "sorted_wrt (\<lambda>a b. keyof (heap ?sl) a < keyof (heap ?sl) b) ?rs"
      using sorted_insert [OF rep none new(2)] old(2) by simp
    show "\<forall>i. i < level ?sl \<longleftrightarrow> (\<exists>r\<in>set ?rs. i < height (heap ?sl) r)"
      using facts(7) old(1) new(1) unfolding set by (auto simp: less_max_iff_disj)
    show "\<forall>r\<in>set ?rs. 0 < r \<and> r < fresh ?sl \<and> heap ?sl r \<noteq> None \<and> 0 < height (heap ?sl) r
        \<and> height (heap ?sl) r \<le> maxLevel ?sl"
      using node old new lvl facts(3) unfolding set by (fastforce simp: less_Suc_eq)
  qed (use facts old lvl seg in simp_all)
  have "content h' ?rs = (content ?h rs)(k \<mapsto> v)"
  proof (rule map_eqI)
    fix k' v'
    have "content h' ?rs k' = Some v' \<longleftrightarrow> (k = k' \<and> v = v') \<or> (\<exists>r\<in>set rs. keyof ?h r = k' \<and> valof ?h r = v')"
      using content_iff [OF rep', of k' v'] unfolding set using old new by simp
    then show "content h' ?rs k' = Some v' \<longleftrightarrow> ((content ?h rs)(k \<mapsto> v)) k' = Some v'"
      using content_iff [OF rep, of k' v'] not_found_keys [OF rep none] by auto
  qed
  then show ?thesis using ops rep' by (intro exI [of _ ?sl] exI [of _ ?rs]) simp
qed

text \<open>Deleting and truncating leave some of the nodes, untouched but for the references on each level, and
  recompute the level.\<close>

lemma refresh_from_eq:
  "(\<And>i. Suc i < length ns \<Longrightarrow> ns ! i = None \<Longrightarrow> ns ! Suc i = None) \<Longrightarrow>
     refresh_from ns \<le> length ns \<and> (\<forall>i. i < refresh_from ns \<longleftrightarrow> i < length ns \<and> ns ! i \<noteq> None)"
proof (induction ns)
  case (Cons n ns)
  have IH: "refresh_from ns \<le> length ns \<and> (\<forall>i. i < refresh_from ns \<longleftrightarrow> i < length ns \<and> ns ! i \<noteq> None)"
    using Cons.IH Cons.prems [of "Suc _"] by simp
  show ?case
  proof (cases "n = None")
    case True
    have "(n # ns) ! i = None" if "i < length (n # ns)" for i
      using that by (induction i) (use True Cons.prems in auto)
    then show ?thesis using True by auto
  next
    case False
    then show ?thesis using IH by (auto simp: nth_Cons split: nat.splits)
  qed
qed simp

lemma repr_shrunk:
  assumes rep: "repr sl rs" and same: "same_nodes (heap sl) h"
    and sub: "set rs' \<subseteq> set rs" and sorted: "sorted_wrt (\<lambda>a b. keyof (heap sl) a < keyof (heap sl) b) rs'"
    and segs: "\<And>i. i < maxLevel sl \<Longrightarrow> seg (nxt h i) (head # tall (heap sl) i rs') None"
  shows "\<exists>sl'. refreshLevel (sl\<lparr>heap := h\<rparr>) = Some (Ok sl') \<and> repr sl' rs'
    \<and> (\<forall>k v. content (heap sl') rs' k = Some v
         \<longleftrightarrow> (\<exists>r\<in>set rs'. keyof (heap sl) r = k \<and> valof (heap sl) r = v))"
proof -
  have facts: "0 < maxLevel sl" "0 < skip sl" "0 < fresh sl" "heap sl head \<noteq> None"
    "height (heap sl) head = maxLevel sl" using rep by (simp_all add: repr_def)
  have node: "0 < r \<and> r < fresh sl \<and> heap sl r \<noteq> None \<and> 0 < height (heap sl) r \<and> height (heap sl) r \<le> maxLevel sl"
    if "r \<in> set rs'" for r using rep sub that by (auto simp: repr_def)
  have eq: "height h = height (heap sl)" "keyof h = keyof (heap sl)" "valof h = valof (heap sl)"
      "h r = None \<longleftrightarrow> heap sl r = None" for r using same by (auto simp: same_nodes_def fun_eq_iff)
  have tall: "tall h i xs = tall (heap sl) i xs" for i xs by (simp add: tall_def eq)
  let ?ns = "nexts (the (h head))" and ?lvl = "refresh_from (nexts (the (h head)))"
  have "height h head = maxLevel sl" by (simp add: eq facts(5))
  then have len: "length ?ns = maxLevel sl" by (simp add: height_def)
  have first: "?ns ! i = None \<longleftrightarrow> tall (heap sl) i rs' = []" if "i < maxLevel sl" for i
    using segs [OF that] by (simp add: nxt_def split: if_splits)
  have "?lvl \<le> length ?ns \<and> (\<forall>i. i < ?lvl \<longleftrightarrow> i < length ?ns \<and> ?ns ! i \<noteq> None)"
  proof (rule refresh_from_eq)
    fix i assume "Suc i < length ?ns" "?ns ! i = None"
    then show "?ns ! Suc i = None" using first [of i] first [of "Suc i"] len
      by (auto simp: tall_def filter_empty_conv)
  qed
  moreover have "i < maxLevel sl" if "r \<in> set rs'" "i < height (heap sl) r" for i r
    using node [OF that(1)] that(2) by simp
  ultimately have lvl: "?lvl \<le> maxLevel sl" "i < ?lvl \<longleftrightarrow> (\<exists>r\<in>set rs'. i < height (heap sl) r)" for i
    using first [of i] unfolding len by (auto simp: tall_def filter_empty_conv)
  let ?sl = "sl\<lparr>heap := h, level := ?lvl\<rparr>"
  have run: "refreshLevel (sl\<lparr>heap := h\<rparr>) = Some (Ok ?sl)"
    using facts(4) eq(4) [of head] len by (simp add: refreshLevel_def)
  have rep': "repr ?sl rs'"
    unfolding repr_def using facts node sorted segs lvl by (simp add: eq tall)
  show ?thesis
    using run rep' content_iff [OF rep'] by (intro exI [of _ ?sl]) (simp add: eq)
qed

lemma Delete_correct:
  assumes rep: "repr sl rs"
  shows "\<exists>sl' rs'. Delete sl k = Some (Ok (content (heap sl) rs k, sl')) \<and> repr sl' rs'
    \<and> content (heap sl') rs' = (content (heap sl) rs)(k := None)"
proof (cases "found_at (heap sl) k rs")
  case None
  then have "content (heap sl) rs k = None" using content_lookup [OF rep] by simp
  then show ?thesis using None rep
    by (intro exI [of _ sl] exI [of _ rs]) (simp add: Delete_def search_correct [OF rep] fun_upd_idem)
next
  case (Some e)
  let ?h = "heap sl" and ?p = "pred_at (heap sl) k rs" and ?L = "low (heap sl) k rs"
  obtain H where H: "high ?h k rs = e # H" and ek: "keyof ?h e = k"
    using Some by (auto simp: found_at_def split: list.splits if_splits)
  have rs: "rs = ?L @ e # H" using repr_split [OF rep, of k] by (simp add: H)
  have "e \<in> set rs" using found_at_iff [OF rep, of k e] Some by simp
  then have e: "?h e \<noteq> None" "height ?h e \<le> maxLevel sl" using rep by (simp_all add: repr_def)
  let ?n = "height ?h e"
  have "?p i \<in> set (head # tall ?h i rs)" for i using pred_at_in [of ?h k rs i] by (auto simp: tall_low)
  then have "valid ?h (?p i) i" if "i < ?n" for i using repr_valid [OF rep, of i "?p i"] that e(2) by auto
  then have "\<forall>i\<in>set [0..<?n]. i < length (map (\<lambda>i. Some (?p i)) [0..<maxLevel sl])
      \<and> map (\<lambda>i. Some (?p i)) [0..<maxLevel sl] ! i = Some (?p i) \<and> valid ?h (?p i) i \<and> valid ?h e i"
    using e by (auto simp: valid_def [of ?h e])
  from unlink_levels_effect [OF distinct_upt this]
  obtain h' where h': "unlink_levels (map (\<lambda>i. Some (?p i)) [0..<maxLevel sl]) (Some e) [0..<?n] ?h = Some (Ok h')"
    "same_nodes ?h h'" "\<forall>i. nxt h' i = (if i < ?n then (nxt ?h i)(?p i := nxt ?h i e) else nxt ?h i)" by auto
  have "seg (nxt h' i) (head # tall ?h i (?L @ H)) None" if i: "i < maxLevel sl" for i
  proof -
    let ?C = "head # tall ?h i ?L"
    have chain: "seg (nxt ?h i) (?C @ tall ?h i (e # H)) None" "distinct (?C @ tall ?h i (e # H))"
      using repr_chain [OF rep i, of k] repr_chain_distinct [OF rep, of i k] by (simp_all only: H)
    show ?thesis
    proof (cases "i < ?n")
      case True
      then have "tall ?h i (e # H) = e # tall ?h i H" by (simp add: tall_Cons)
      then have "seg ((nxt ?h i)(?p i := nxt ?h i e)) (?C @ tall ?h i H) None"
        using chain seg_remove [of "nxt ?h i" ?C e "tall ?h i H"] by (simp only: pred_at_def) simp
      then show ?thesis using h'(3) True by simp
    next
      case False
      then show ?thesis using chain(1) h'(3) by (simp add: tall_Cons)
    qed
  qed
  moreover have "sorted_wrt (\<lambda>a b. keyof ?h a < keyof ?h b) (?L @ H)"
    using rep arg_cong [OF rs, of "sorted_wrt (\<lambda>a b. keyof ?h a < keyof ?h b)"]
    by (auto simp: repr_def sorted_wrt_append)
  moreover have "set (?L @ H) \<subseteq> set rs" by (subst (2) rs) auto
  ultimately obtain sl' where sl': "refreshLevel (sl\<lparr>heap := h'\<rparr>) = Some (Ok sl')" "repr sl' (?L @ H)"
    "\<forall>k v. content (heap sl') (?L @ H) k = Some v \<longleftrightarrow> (\<exists>r\<in>set (?L @ H). keyof ?h r = k \<and> valof ?h r = v)"
    using repr_shrunk [OF rep h'(2), of "?L @ H"] by blast
  have "distinct rs" using repr_distinct [OF rep] by simp
  then have "set (?L @ H) = set rs - {e}" using arg_cong [OF rs, of set] arg_cong [OF rs, of distinct] by auto
  moreover have "r = e \<longleftrightarrow> r \<in> set rs \<and> keyof ?h r = k" for r using found_at_iff [OF rep, of k r] Some by auto
  ultimately have rest: "set (?L @ H) = {r \<in> set rs. keyof ?h r \<noteq> k}" by blast
  have "content (heap sl') (?L @ H) = (content ?h rs)(k := None)"
  proof (rule map_eqI)
    fix k' v'
    show "content (heap sl') (?L @ H) k' = Some v' \<longleftrightarrow> ((content ?h rs)(k := None)) k' = Some v'"
      using sl'(3) content_iff [OF rep, of k' v'] unfolding rest by auto
  qed
  moreover have "Delete sl k = Some (Ok (content ?h rs k, sl'))"
    using h'(1) sl'(1) e(1) Some content_lookup [OF rep, of k]
    by (simp add: Delete_def search_correct [OF rep] height_def valof_def)
  ultimately show ?thesis using sl'(2) by blast
qed

lemma TruncateBefore_correct:
  assumes rep: "repr sl rs"
  shows "\<exists>sl' rs'. TruncateBefore sl k = Some (Ok sl') \<and> repr sl' rs'
    \<and> content (heap sl') rs' = (content (heap sl) rs) |` {k..}"
proof -
  let ?h = "heap sl" and ?p = "pred_at (heap sl) k rs" and ?H = "high (heap sl) k rs"
  have "?p i \<in> set (head # tall ?h i rs)" for i using pred_at_in [of ?h k rs i] by (auto simp: tall_low)
  then have "valid ?h (?p i) i" "valid ?h head i" if "i < maxLevel sl" for i
    using repr_valid [OF rep that] by auto
  then have "\<forall>i\<in>set [0..<maxLevel sl]. map (\<lambda>i. Some (?p i)) [0..<maxLevel sl] ! i = Some (?p i)
      \<and> valid ?h (?p i) i \<and> valid ?h head i" by simp
  from truncate_levels_effect [OF distinct_upt this]
  obtain h' where h': "truncate_levels (map (\<lambda>i. Some (?p i)) [0..<maxLevel sl]) [0..<maxLevel sl] ?h = Some (Ok h')"
    "same_nodes ?h h'" "\<forall>i. nxt h' i = (if i < maxLevel sl then (nxt ?h i)(head := nxt ?h i (?p i)) else nxt ?h i)"
    by auto
  have "seg (nxt h' i) (head # tall ?h i ?H) None" if i: "i < maxLevel sl" for i
  proof -
    let ?C = "head # tall ?h i (low ?h k rs)"
    have "nxt h' i = (nxt ?h i)(hd ?C := nxt ?h i (last ?C))" using h'(3) i by (simp add: pred_at_def)
    moreover have "seg ((nxt ?h i)(hd ?C := nxt ?h i (last ?C))) (hd ?C # tall ?h i ?H) None"
      by (rule seg_drop [OF repr_chain [OF rep i] repr_chain_distinct [OF rep]]) simp
    ultimately show ?thesis by (simp only: list.sel(1))
  qed
  moreover have "sorted_wrt (\<lambda>a b. keyof ?h a < keyof ?h b) ?H"
    using rep by (auto simp: repr_def high_def intro: sorted_wrt_filter)
  moreover have "set ?H \<subseteq> set rs" by (auto simp: high_def)
  ultimately obtain sl' where sl': "refreshLevel (sl\<lparr>heap := h'\<rparr>) = Some (Ok sl')" "repr sl' ?H"
    "\<forall>k v. content (heap sl') ?H k = Some v \<longleftrightarrow> (\<exists>r\<in>set ?H. keyof ?h r = k \<and> valof ?h r = v)"
    using repr_shrunk [OF rep h'(2), of ?H] by blast
  have "content (heap sl') ?H = (content ?h rs) |` {k..}"
  proof (rule map_eqI)
    fix k' v'
    show "content (heap sl') ?H k' = Some v' \<longleftrightarrow> ((content ?h rs) |` {k..}) k' = Some v'"
      using sl'(3) content_iff [OF rep, of k' v'] by (auto simp: high_def restrict_map_def)
  qed
  then show ?thesis using h'(1) sl'(1,2) by (auto simp: TruncateBefore_def search_correct [OF rep])
qed

section \<open>Any sequence of operations\<close>

datatype ('k, 'v) list_op =
  OpGet 'k | OpUpsert "nat \<Rightarrow> nat" 'k 'v | OpDelete 'k | OpListAfter 'k bool | OpTruncateBefore 'k

datatype 'v reply = Val "'v option" | Vals "'v list" | Nothing

fun exec :: "('k :: linorder, 'v) SkipList \<Rightarrow> ('k, 'v) list_op \<Rightarrow> ('v reply \<times> ('k, 'v) SkipList) run" where
  "exec sl (OpGet k) = bindR (Get sl k) (\<lambda>v. Some (Ok (Val v, sl)))"
| "exec sl (OpUpsert draws k v) = bindR (Upsert sl draws k v) (\<lambda>sl'. Some (Ok (Nothing, sl')))"
| "exec sl (OpDelete k) = bindR (Delete sl k) (\<lambda>(v, sl'). Some (Ok (Val v, sl')))"
| "exec sl (OpListAfter k incl) = bindR (ListAfter sl k incl) (\<lambda>vs. Some (Ok (Vals vs, sl)))"
| "exec sl (OpTruncateBefore k) = bindR (TruncateBefore sl k) (\<lambda>sl'. Some (Ok (Nothing, sl')))"

fun exec_all :: "('k :: linorder, 'v) SkipList \<Rightarrow> ('k, 'v) list_op list \<Rightarrow> ('v reply list \<times> ('k, 'v) SkipList) run" where
  "exec_all sl [] = Some (Ok ([], sl))"
| "exec_all sl (c # cs) =
     bindR (exec sl c) (\<lambda>(r, sl'). bindR (exec_all sl' cs) (\<lambda>(rs, sl''). Some (Ok (r # rs, sl''))))"

text \<open>The specification: the same operations on a map.\<close>

fun map_op :: "('k :: linorder \<rightharpoonup> 'v) \<Rightarrow> ('k, 'v) list_op \<Rightarrow> 'v reply \<times> ('k \<rightharpoonup> 'v)" where
  "map_op m (OpGet k) = (Val (m k), m)"
| "map_op m (OpUpsert draws k v) = (Nothing, m(k \<mapsto> v))"
| "map_op m (OpDelete k) = (Val (m k), m(k := None))"
| "map_op m (OpListAfter k incl) = (Vals (values_after m k incl), m)"
| "map_op m (OpTruncateBefore k) = (Nothing, m |` {k..})"

fun map_ops :: "('k :: linorder \<rightharpoonup> 'v) \<Rightarrow> ('k, 'v) list_op list \<Rightarrow> 'v reply list" where
  "map_ops m [] = []"
| "map_ops m (c # cs) = (case map_op m c of (r, m') \<Rightarrow> r # map_ops m' cs)"

lemma exec_correct:
  assumes rep: "repr sl rs"
  shows "\<exists>sl' rs'. exec sl c = Some (Ok (fst (map_op (content (heap sl) rs) c), sl')) \<and> repr sl' rs'
    \<and> content (heap sl') rs' = snd (map_op (content (heap sl) rs) c)"
proof (cases c)
  case (OpGet k)
  then show ?thesis using rep Get_correct [OF rep] by auto
next
  case (OpUpsert draws k v)
  have "\<exists>sl' rs'. Upsert sl draws k v = Some (Ok sl') \<and> repr sl' rs'
      \<and> content (heap sl') rs' = (content (heap sl) rs)(k \<mapsto> v)"
    using Upsert_found [OF rep, of k _ draws v] Upsert_new [OF rep, of k draws v]
    by (cases "found_at (heap sl) k rs") blast+
  then show ?thesis by (auto simp: OpUpsert)
next
  case (OpDelete k)
  then show ?thesis using Delete_correct [OF rep, of k] by auto
next
  case (OpListAfter k incl)
  then show ?thesis using rep ListAfter_correct [OF rep] by auto
next
  case (OpTruncateBefore k)
  then show ?thesis using TruncateBefore_correct [OF rep, of k] by auto
qed

lemma exec_all_correct:
  "repr sl rs \<Longrightarrow> \<exists>sl'. exec_all sl cs = Some (Ok (map_ops (content (heap sl) rs) cs, sl'))"
proof (induction cs arbitrary: sl rs)
  case (Cons c cs)
  obtain sl1 rs1 where 1: "exec sl c = Some (Ok (fst (map_op (content (heap sl) rs) c), sl1))" "repr sl1 rs1"
    "content (heap sl1) rs1 = snd (map_op (content (heap sl) rs) c)"
    using exec_correct [OF Cons.prems] by blast
  then show ?case using Cons.IH [OF 1(2)] by (auto split: prod.splits)
qed simp

lemma NewSkipList_repr:
  assumes "NewSkipList zero_key zero_value opts = Ok sl"
  shows "repr sl [] \<and> content (heap sl) [] = Map.empty"
  using assms
  by (auto simp: NewSkipList_def Let_def repr_def height_def nxt_def tall_def content_def split: if_splits)

text \<open>C21: A skip list is a sorted map: from a new list, whatever its options, every sequence of operations,
  whatever levels are drawn, runs to its end without a panic, a dangling pointer or an endless loop, and answers
  exactly as the map does: look-ups and deletions the value of the key, listings the values of the keys from
  the given one on, in ascending order.\<close>

theorem skip_list_implements_map:
  assumes "NewSkipList zero_key zero_value opts = Ok sl"
  shows "\<exists>sl'. exec_all sl cs = Some (Ok (map_ops Map.empty cs, sl'))"
  using exec_all_correct [of sl "[]" cs] NewSkipList_repr [OF assms] by simp

lemma skip_list_implements_map_witness:
  "\<exists>sl sl'. NewSkipList (0 :: nat) '''' [WithMaxLevel 2] = Ok sl
     \<and> exec_all sl [OpUpsert (\<lambda>_. 0) 5 ''a'', OpUpsert (\<lambda>_. 1) 3 ''b'', OpUpsert (\<lambda>_. 4) 4 ''c'', OpDelete 5,
                    OpTruncateBefore 4, OpListAfter 0 True, OpGet 3]
         = Some (Ok ([Nothing, Nothing, Nothing, Val (Some ''a''), Nothing, Vals [''c''], Val None], sl'))"
proof -
  obtain sl :: "(nat, string) SkipList" where sl: "NewSkipList 0 '''' [WithMaxLevel 2] = Ok sl"
    by (simp add: NewSkipList_def WithMaxLevel_def)
  have "{k'. ([3 \<mapsto> ''b'', 4 \<mapsto> ''c''] |` {4..}) k' \<noteq> None \<and> (0 < k' \<or> (True \<and> k' = 0))} = {4 :: nat}"
    by (auto simp: restrict_map_def split: if_splits)
  then have vals: "values_after ([3 \<mapsto> ''b'', 4 \<mapsto> ''c''] |` {4 :: nat..}) 0 True = [''c'']"
    by (simp add: values_after_def restrict_map_def)
  have upd: "[5 \<mapsto> ''a'', 3 \<mapsto> ''b'', 4 \<mapsto> ''c''](5 := None) = [3 :: nat \<mapsto> ''b'', 4 \<mapsto> ''c'']"
    by (auto simp: fun_eq_iff)
  show ?thesis
    using skip_list_implements_map [OF sl, of "[OpUpsert (\<lambda>_. 0) 5 ''a'', OpUpsert (\<lambda>_. 1) 3 ''b'',
      OpUpsert (\<lambda>_. 4) 4 ''c'', OpDelete 5, OpTruncateBefore 4, OpListAfter 0 True, OpGet 3]"] sl
    by (simp only: map_ops.simps map_op.simps prod.case upd vals) (auto simp: restrict_map_def)
qed

end
