(* ===== verification/Paramtable.thy ===== *)
theory Paramtable
  imports ConfigCoherence Strconv
begin

text \<open>
  pkg/util/paramtable: parameters and how their values are read and converted (param\_item.go), and the table
  they are read from (base\_table.go). A parameter keeps a reference to the manager of the configuration, so its
  operations take the manager as an argument, \<open>None\<close> before \<open>Init\<close>. The conversions follow strconv: a text that
  does not parse, or whose number is out of range, gives the default; converting to a narrower type wraps.
  Floating point numbers are a parameter.
\<close>

section \<open>Conversions\<close>

definition getAndConvert :: "string \<Rightarrow> (string \<Rightarrow> 'a option) \<Rightarrow> 'a \<Rightarrow> 'a" where
  "getAndConvert v converter defaultValue = (case converter v of None \<Rightarrow> defaultValue | Some t \<Rightarrow> t)"

definition getAsStrings :: "string \<Rightarrow> string list" where
  "getAsStrings v = getAndConvert v (\<lambda>s. Some (strings_Split s (CHR '',''))) []"

definition getAsBool :: "string \<Rightarrow> bool" where
  "getAsBool v = getAndConvert v ParseBool False"

definition getAsInt :: "string \<Rightarrow> int" where
  "getAsInt v = getAndConvert v ParseInt 0"

definition getAsInt64 :: "string \<Rightarrow> int" where
  "getAsInt64 v = getAndConvert v ParseInt 0"

definition getAsUint64 :: "string \<Rightarrow> uint64" where
  "getAsUint64 v = of_nat (getAndConvert v ParseUint 0)"

text \<open>Floating point numbers: parsing, \<open>time.Duration(f * float64(unit))\<close>, the quotient of two integers,
  comparison, arithmetic and \<open>fmt.Sprintf("%f", f)\<close>.\<close>

record 'f go_float =
  ParseFloat :: "string \<Rightarrow> 'f option"
  float_zero :: 'f
  times_unit :: "'f \<Rightarrow> int \<Rightarrow> int"
  MaxFloat64 :: 'f
  float_const :: "int \<Rightarrow> int \<Rightarrow> 'f"
  fl_less :: "'f \<Rightarrow> 'f \<Rightarrow> bool"
  fl_leq :: "'f \<Rightarrow> 'f \<Rightarrow> bool"
  fl_minus :: "'f \<Rightarrow> 'f \<Rightarrow> 'f"
  fl_times :: "'f \<Rightarrow> 'f \<Rightarrow> 'f"
  fl_divide :: "'f \<Rightarrow> 'f \<Rightarrow> 'f"
  fl_Abs :: "'f \<Rightarrow> 'f"
  Sprintf_f :: "'f \<Rightarrow> string"

definition getAsFloat :: "'f go_float \<Rightarrow> string \<Rightarrow> 'f" where
  "getAsFloat fl v = getAndConvert v (ParseFloat fl) (float_zero fl)"

definition getAsDuration :: "'f go_float \<Rightarrow> string \<Rightarrow> int \<Rightarrow> int" where
  "getAsDuration fl v unit =
     getAndConvert v (\<lambda>value. case ParseInt value of
       Some n \<Rightarrow> Some (wrap64 (n * unit))
     | None \<Rightarrow> (case ParseFloat fl value of None \<Rightarrow> None | Some fv \<Rightarrow> Some (times_unit fl fv unit))) 0"

section \<open>Parameters\<close>

record ParamItem =
  pi_Key :: string
  DefaultValue :: string
  FallbackKeys :: "string list"
  PanicIfEmpty :: bool
  Formatter :: "(string \<Rightarrow> (config_error, string) outcome) option"
  Forbidden :: bool
  tempValue :: "string option"

definition ParamItem_Init :: "ParamItem \<Rightarrow> 'h Manager \<Rightarrow> 'h Manager" where
  "ParamItem_Init pi manager = (if Forbidden pi then ForbidUpdate manager (pi_Key pi) else manager)"

text \<open>The loop over the fallback keys stops at the first that is found.\<close>

fun first_config :: "'h Manager \<Rightarrow> string list \<Rightarrow> (config_error, string) outcome \<Rightarrow> (config_error, string) outcome" where
  "first_config m [] r = r"
| "first_config m (key # keys) r =
     (case GetConfig m key of Ok v \<Rightarrow> Ok v | r' \<Rightarrow> first_config m keys r')"

definition get :: "'h Manager option \<Rightarrow> ParamItem \<Rightarrow> (config_error, string) outcome" where
  "get manager pi =
     (case tempValue pi of
        Some s \<Rightarrow> Ok s
      | None \<Rightarrow>
          (case manager of
             None \<Rightarrow> Panic (''manager is nil '' @ pi_Key pi)
           | Some m \<Rightarrow>
               let r = (case GetConfig m (pi_Key pi) of Ok v \<Rightarrow> Ok v | e \<Rightarrow> first_config m (FallbackKeys pi) e);
                   ret = (case r of Ok v \<Rightarrow> v | _ \<Rightarrow> DefaultValue pi);
                   formatted = (case Formatter pi of None \<Rightarrow> Ok ret | Some f \<Rightarrow> f ret)
               in bindO formatted (\<lambda>ret. if ret = '''' \<and> PanicIfEmpty pi then Panic (pi_Key pi @ '' is empty'') else Ok ret)))"

text \<open>A formatter may read other parameters and so may panic, but it returns no error. Go's
  \<open>get\<close> also hands on the error of the last look-up; \<open>GetValue\<close> drops it, so it is not kept here.\<close>

definition SwapTempValue :: "ParamItem \<Rightarrow> string \<Rightarrow> string option \<times> ParamItem" where
  "SwapTempValue pi s = (tempValue pi, pi\<lparr>tempValue := (if s = '''' then None else Some s)\<rparr>)"

definition GetAsStrings :: "'h Manager option \<Rightarrow> ParamItem \<Rightarrow> (config_error, string list) outcome" where
  "GetAsStrings m pi = bindO (get m pi) (\<lambda>v. Ok (getAsStrings v))"

definition GetAsBool :: "'h Manager option \<Rightarrow> ParamItem \<Rightarrow> (config_error, bool) outcome" where
  "GetAsBool m pi = bindO (get m pi) (\<lambda>v. Ok (getAsBool v))"

definition GetAsInt :: "'h Manager option \<Rightarrow> ParamItem \<Rightarrow> (config_error, int) outcome" where
  "GetAsInt m pi = bindO (get m pi) (\<lambda>v. Ok (getAsInt v))"

definition GetAsInt64 :: "'h Manager option \<Rightarrow> ParamItem \<Rightarrow> (config_error, int) outcome" where
  "GetAsInt64 m pi = bindO (get m pi) (\<lambda>v. Ok (getAsInt64 v))"

definition GetAsInt32 :: "'h Manager option \<Rightarrow> ParamItem \<Rightarrow> (config_error, int) outcome" where
  "GetAsInt32 m pi = bindO (get m pi) (\<lambda>v. Ok (sint (word_of_int (getAsInt64 v) :: 32 word)))"

definition GetAsUint64 :: "'h Manager option \<Rightarrow> ParamItem \<Rightarrow> (config_error, uint64) outcome" where
  "GetAsUint64 m pi = bindO (get m pi) (\<lambda>v. Ok (getAsUint64 v))"

definition GetAsUint32 :: "'h Manager option \<Rightarrow> ParamItem \<Rightarrow> (config_error, uint32) outcome" where
  "GetAsUint32 m pi = bindO (get m pi) (\<lambda>v. Ok (ucast (getAsUint64 v)))"

definition GetAsUint16 :: "'h Manager option \<Rightarrow> ParamItem \<Rightarrow> (config_error, 16 word) outcome" where
  "GetAsUint16 m pi = bindO (get m pi) (\<lambda>v. Ok (ucast (getAsUint64 v)))"

definition GetAsFloat :: "'f go_float \<Rightarrow> 'h Manager option \<Rightarrow> ParamItem \<Rightarrow> (config_error, 'f) outcome" where
  "GetAsFloat fl m pi = bindO (get m pi) (\<lambda>v. Ok (getAsFloat fl v))"

definition GetAsDuration :: "'f go_float \<Rightarrow> 'h Manager option \<Rightarrow> ParamItem \<Rightarrow> int \<Rightarrow> (config_error, int) outcome" where
  "GetAsDuration fl m pi unit = bindO (get m pi) (\<lambda>v. Ok (getAsDuration fl v unit))"

text \<open>A value composed of several parameters, and a group of parameters with a prefix.\<close>

record CompositeParamItem =
  Items :: "ParamItem list"
  Format :: "(string \<rightharpoonup> string) \<Rightarrow> string"

definition Composite_GetValue :: "'h Manager option \<Rightarrow> CompositeParamItem \<Rightarrow> (config_error, string) outcome" where
  "Composite_GetValue m cpi =
     bindO (foldO (\<lambda>kvs v. bindO (get m v) (\<lambda>s. Ok (kvs(pi_Key v \<mapsto> s)))) Map.empty (Items cpi))
       (\<lambda>kvs. Ok (Format cpi kvs))"

record ParamGroup =
  KeyPrefix :: string
  GetFunc :: "(string \<rightharpoonup> string) option"

definition Group_GetValue ::
  "'h Manager \<Rightarrow> string list \<Rightarrow> string list \<Rightarrow> string list \<Rightarrow> ParamGroup \<Rightarrow> (string \<rightharpoonup> string)" where
  "Group_GetValue m walk_keys walk_overlays walk pg =
     (case GetFunc pg of
        Some r \<Rightarrow> r
      | None \<Rightarrow> GetBy (GetConfigs m walk_keys walk_overlays) walk
                  [WithPrefix (KeyPrefix pg), RemovePrefix (KeyPrefix pg)])"

section \<open>The table\<close>

record baseTableConfig =
  configDir :: string
  skipEnv :: bool
  yamlFiles :: "string list"

definition trim_prefix :: "string \<Rightarrow> string \<Rightarrow> string" where
  "trim_prefix p s = (if is_prefix_of p s then drop (length p) s else s)"

text \<open>The formatter of environment names.\<close>

definition env_formatter :: "string \<Rightarrow> string" where
  "env_formatter key = filter (\<lambda>c. c \<notin> set ''/_.'') (trim_prefix ''milvus.'' (ToLower key))"

definition initConfigsFromLocal ::
  "(string \<Rightarrow> yaml_file) \<Rightarrow> (string \<Rightarrow> string \<Rightarrow> string) \<Rightarrow> string list \<Rightarrow> baseTableConfig \<Rightarrow> 'h Manager \<Rightarrow> 'h Manager" where
  "initConfigsFromLocal viper path_Join walk cfg mgr =
     snd (AddSource viper walk (NewFileSource (map (path_Join (configDir cfg)) (yamlFiles cfg))) mgr)"

text \<open>\<open>BaseTable.init\<close>. A second source with the name of one the manager has cannot occur here, so adding the
  environment never fails, and the files follow.\<close>

definition BaseTable_init ::
  "(string \<Rightarrow> yaml_file) \<Rightarrow> (string \<Rightarrow> string \<Rightarrow> string) \<Rightarrow> string list \<Rightarrow> string list \<Rightarrow> string list \<Rightarrow>
     baseTableConfig \<Rightarrow> (config_error, 'h Manager) outcome" where
  "BaseTable_init viper path_Join environ walk_env walk_file cfg =
     bindO (Init viper None None [] [] []) (\<lambda>mgr.
       if \<not> skipEnv cfg
       then bindO (NewEnvSource env_formatter environ) (\<lambda>s.
              case AddSource viper walk_env s mgr of
                (Some err, mgr') \<Rightarrow> Ok mgr'
              | (None, mgr') \<Rightarrow> Ok (initConfigsFromLocal viper path_Join walk_file cfg mgr'))
       else Ok (initConfigsFromLocal viper path_Join walk_file cfg mgr))"

definition GetWithDefault :: "'h Manager option \<Rightarrow> string \<Rightarrow> string \<Rightarrow> string" where
  "GetWithDefault mgr key defaultValue =
     (case mgr of
        None \<Rightarrow> defaultValue
      | Some m \<Rightarrow> (case GetConfig m key of Ok str \<Rightarrow> str | _ \<Rightarrow> defaultValue))"

definition SaveGroup :: "'h Manager \<Rightarrow> (string \<rightharpoonup> string) \<Rightarrow> string list \<Rightarrow> 'h Manager" where
  "SaveGroup m kvs walk =
     foldl (\<lambda>m key. case kvs key of Some v \<Rightarrow> SetMapConfig m key v | None \<Rightarrow> m) m walk"

section \<open>Numbers come back\<close>

text \<open>A number written in decimal is read back: as a 64-bit integer exactly when it fits, else as 0; as a
  32-bit integer it is first read with 64 bits and then cut, so that a number between the two ranges comes out
  as a different number and not as the default.\<close>

theorem GetAsInt_reads_back:
  assumes "get m pi = Ok (string_of_int i)"
  shows "GetAsInt64 m pi = Ok (if - (2 ^ 63) \<le> i \<and> i < 2 ^ 63 then i else 0)
    \<and> (- (2 ^ 31) \<le> i \<and> i < 2 ^ 31 \<longrightarrow> GetAsInt32 m pi = Ok i)
    \<and> (i = 2 ^ 32 + 1 \<longrightarrow> GetAsInt32 m pi = Ok 1)"
proof -
  have i32: "sint (word_of_int i :: 32 word) = i" if "- (2 ^ 31) \<le> i" "i < 2 ^ 31"
    using that by (simp add: signed_take_bit_int_eq_self sint_sbintrunc')
  have wide: "- (2 ^ 63) \<le> i \<and> i < 2 ^ 63" if "- (2 ^ 31) \<le> i" "i < 2 ^ 31" using that by auto
  show ?thesis
    using assms i32 wide
    by (auto simp: GetAsInt64_def GetAsInt32_def getAsInt64_def getAndConvert_def ParseInt_string_of_int
        split: if_splits)
qed

definition dim_param :: ParamItem where
  "dim_param = \<lparr>pi_Key = ''proxy.maxDimension'', DefaultValue = ''32768'', FallbackKeys = [''dim''],
     PanicIfEmpty = True, Formatter = None, Forbidden = False, tempValue = None\<rparr>"

lemma string_of_int_samples: "string_of_int 4294967297 = ''4294967297''"
proof -
  have "map digit_char [4, 2, 9, 4, 9, 6, 7, 2, 9, 7] = ''4294967297''" by code_simp
  then show ?thesis by (simp add: string_of_int_def string_of_nat.simps del: digit_char.simps)
qed

lemma GetAsInt_reads_back_witness:
  "GetAsInt64 (Some (SetConfig (NewManager :: unit Manager) ''a.b'' ''4294967297''))
     (dim_param\<lparr>pi_Key := ''a.b''\<rparr>) = Ok 4294967297
   \<and> GetAsInt32 (Some (SetConfig (NewManager :: unit Manager) ''a.b'' ''4294967297''))
     (dim_param\<lparr>pi_Key := ''a.b''\<rparr>) = Ok 1"
proof -
  have "get (Some (SetConfig (NewManager :: unit Manager) ''a.b'' ''4294967297'')) (dim_param\<lparr>pi_Key := ''a.b''\<rparr>)
      = Ok (string_of_int 4294967297)"
    by (simp add: get_def dim_param_def GetConfig_def SetConfig_def TombValue_def string_of_int_samples)
  from GetAsInt_reads_back [OF this] show ?thesis by simp
qed

section \<open>What a parameter is at the start\<close>

text \<open>The value of the first key that has one, in a layered table.\<close>

fun first_value :: "(string \<rightharpoonup> string) \<Rightarrow> string list \<Rightarrow> string option" where
  "first_value table [] = None"
| "first_value table (key # keys) = (case table (format_key key) of Some v \<Rightarrow> Some v | None \<Rightarrow> first_value table keys)"

lemma first_config_eq:
  assumes "\<And>key. GetConfig m key = (case table (format_key key) of Some v \<Rightarrow> Ok v | None \<Rightarrow> Err (KeyNotFound key))"
  shows "(case GetConfig m key of Ok v \<Rightarrow> Ok v | e \<Rightarrow> first_config m keys e) =
    (case first_value table (key # keys) of Some v \<Rightarrow> Ok v | None \<Rightarrow> Err (KeyNotFound (last (key # keys))))"
proof (induction keys arbitrary: key)
  case Nil
  then show ?case by (simp add: assms split: option.splits)
next
  case (Cons k keys)
  have "first_config m (k # keys) (Err (KeyNotFound key)) =
      (case GetConfig m k of Ok v \<Rightarrow> Ok v | e \<Rightarrow> first_config m keys e)"
    by simp
  then show ?case using Cons by (simp add: assms split: option.splits)
qed

lemma BaseTable_steps:
  assumes env: "NewEnvSource env_formatter environ = Ok e"
    and files: "\<And>c. load_files viper (map (path_Join (configDir cfg)) (yamlFiles cfg)) = Ok c \<Longrightarrow> walk_of c wfs"
    and "walk_of (src_configs e) we" "\<not> skipEnv cfg"
  shows "\<exists>m :: 'h Manager. BaseTable_init viper path_Join environ we wfs cfg = Ok m \<and> coherent m
    \<and> overlays m = Map.empty \<and> forbiddenKeys m = {}
    \<and> (\<exists>eh. sources m = [''EnvironmentSource'' \<mapsto> e, ''FileSource'' \<mapsto>
        (NewFileSource (map (path_Join (configDir cfg)) (yamlFiles cfg)))
          \<lparr>src_configs := (case load_files viper (map (path_Join (configDir cfg)) (yamlFiles cfg)) of
              Ok c \<Rightarrow> c | _ \<Rightarrow> Map.empty), src_eh := eh\<rparr>])"
proof -
  let ?fs = "map (path_Join (configDir cfg)) (yamlFiles cfg)"
  let ?m1 = "snd (AddSource viper we e (NewManager :: 'h Manager))"
  have e: "GetSourceName e = ''EnvironmentSource''" "fetch viper e = Ok (src_configs e)" "SetEventHandler e = e"
    using env by (auto simp: NewEnvSource_def outcome_simps fetch_def SetEventHandler_def)
  have new: "sources (NewManager :: 'h Manager) (GetSourceName e) = None" "overlays (NewManager :: 'h Manager) = Map.empty"
    "forbiddenKeys (NewManager :: 'h Manager) = {}" "sources (NewManager :: 'h Manager) = Map.empty"
    by (simp_all add: NewManager_def)
  have "distinct we" using assms(3) by (simp add: walk_of_def)
  then have m1: "fst (AddSource viper we e (NewManager :: 'h Manager)) = None"
    "sources ?m1 = [''EnvironmentSource'' \<mapsto> e]" "overlays ?m1 = Map.empty" "forbiddenKeys ?m1 = {}"
    using AddSource_effect [OF fresh_NewEnvSource [OF env] new(1), of viper we] e new
    by (simp_all add: Let_def)
  let ?m = "snd (AddSource viper wfs (NewFileSource ?fs) ?m1)"
  have coh1: "coherent ?m1"
    by (rule coherent_AddSource [OF coherent_NewManager fresh_NewEnvSource [OF env]]) (use e(2) assms(3) in auto)
  have coh: "coherent ?m"
    by (rule coherent_AddSource [OF coh1 fresh_NewFileSource]) (auto intro: files simp: fetch_def NewFileSource_def)
  have "sources ?m1 ''FileSource'' = None" by (simp add: m1(2))
  note added = AddSource_file [OF files this]
  have "BaseTable_init viper path_Join environ we wfs cfg = Ok ?m"
    using m1(1) assms(4) env
    by (cases "AddSource viper we e (NewManager :: 'h Manager)")
      (simp add: BaseTable_init_def Init_def initConfigsFromLocal_def Let_def)
  then show ?thesis using coh added m1 by (intro exI [of _ ?m]) simp
qed

text \<open>C22: What a parameter is worth when the program starts: the environment and the files are layered key by
  key, the parameter takes the value of its own key, else of the first fallback key that has one, else its
  default - so a key in a file comes before a fallback key in the environment - and the formatter is applied to
  whatever comes out. It panics exactly when that is empty and must not be.\<close>

theorem param_at_start:
  assumes "NewEnvSource env_formatter environ = Ok e" and "\<not> skipEnv cfg"
    and "\<forall>c. load_files viper (map (path_Join (configDir cfg)) (yamlFiles cfg)) = Ok c \<longrightarrow> walk_of c wfs"
    and "walk_of (src_configs e) we"
    and "table = (case load_files viper (map (path_Join (configDir cfg)) (yamlFiles cfg)) of
                    Ok files \<Rightarrow> files ++ src_configs e | _ \<Rightarrow> src_configs e)"
  shows "\<exists>m :: 'h Manager. BaseTable_init viper path_Join environ we wfs cfg = Ok m
    \<and> (\<forall>pi. tempValue pi = None \<longrightarrow>
         (let raw = (case first_value table (pi_Key pi # FallbackKeys pi) of Some v \<Rightarrow> v | None \<Rightarrow> DefaultValue pi);
              formatted = (case Formatter pi of Some f \<Rightarrow> f raw | None \<Rightarrow> Ok raw)
          in get (Some m) pi = bindO formatted (\<lambda>ret.
               if ret = '''' \<and> PanicIfEmpty pi then Panic (pi_Key pi @ '' is empty'') else Ok ret)))"
proof -
  let ?load = "load_files viper (map (path_Join (configDir cfg)) (yamlFiles cfg))"
  let ?files = "case ?load of Ok c \<Rightarrow> c | _ \<Rightarrow> Map.empty"
  obtain m :: "'h Manager" and eh where m: "BaseTable_init viper path_Join environ we wfs cfg = Ok m" "coherent m"
      "overlays m = Map.empty" "forbiddenKeys m = {}"
    and srcs: "sources m = [''EnvironmentSource'' \<mapsto> e, ''FileSource'' \<mapsto>
        (NewFileSource (map (path_Join (configDir cfg)) (yamlFiles cfg)))\<lparr>src_configs := ?files, src_eh := eh\<rparr>]"
    using BaseTable_steps [OF assms(1) _ assms(4,2)] assms(3) by blast
  have swap: "sources m = [''FileSource'' \<mapsto>
        (NewFileSource (map (path_Join (configDir cfg)) (yamlFiles cfg)))\<lparr>src_configs := ?files, src_eh := eh\<rparr>,
        ''EnvironmentSource'' \<mapsto> e]"
    unfolding srcs by (rule fun_upd_twist) simp
  have prio: "GetPriority e = 11" using assms(1) by (auto simp: NewEnvSource_def outcome_simps)
  have layers: "GetConfig m key = (case src_configs e (format_key key) of Some v \<Rightarrow> Ok v
      | None \<Rightarrow> (case ?files (format_key key) of Some v \<Rightarrow> Ok v | None \<Rightarrow> Err (KeyNotFound key)))" for key
    using two_source_layers [OF m(2-4) swap] prio by (simp add: NewFileSource_def cong: option.case_cong)
  have "table = ?files ++ src_configs e" unfolding assms(5) by (cases ?load) simp_all
  then have lookup: "GetConfig m key = (case table (format_key key) of Some v \<Rightarrow> Ok v | None \<Rightarrow> Err (KeyNotFound key))" for key
    unfolding layers by (simp add: map_add_def split: option.splits)
  have "get (Some m) pi = (let raw = (case first_value table (pi_Key pi # FallbackKeys pi) of Some v \<Rightarrow> v | None \<Rightarrow> DefaultValue pi);
              formatted = (case Formatter pi of Some f \<Rightarrow> f raw | None \<Rightarrow> Ok raw)
          in bindO formatted (\<lambda>ret. if ret = '''' \<and> PanicIfEmpty pi then Panic (pi_Key pi @ '' is empty'') else Ok ret))"
    if "tempValue pi = None" for pi
    by (simp only: get_def that option.case first_config_eq [OF lookup] Let_def)
      (simp del: first_value.simps split: option.splits)
  then show ?thesis using m(1) by (intro exI [of _ m]) (simp add: Let_def)
qed

lemma param_at_start_witness:
  "\<exists>m :: unit Manager. BaseTable_init sample_file (\<lambda>dir file. file) [''A_B=7''] [''A_B'', ''ab''] [''a.b'', ''ab'', ''c'']
       \<lparr>configDir = ''configs'', skipEnv = False, yamlFiles = [''milvus.yaml'']\<rparr> = Ok m
     \<and> get (Some m) (dim_param\<lparr>FallbackKeys := [''A.b'']\<rparr>) = Ok ''7''
     \<and> get (Some m) dim_param = Ok ''32768''"
proof -
  let ?e = "\<lparr>GetSourceName = ''EnvironmentSource'', GetPriority = 11,
    src_configs = [''A_B'' \<mapsto> ''7'', ''ab'' \<mapsto> ''7''], src_eh = False, src_files = None\<rparr>"
  let ?cfg = "\<lparr>configDir = ''configs'', skipEnv = False, yamlFiles = [''milvus.yaml'']\<rparr>"
  have keys: "env_formatter ''A_B'' = ''ab''" "format_key ''A.b'' = ''ab''" "format_key ''dim'' = ''dim''"
    "format_key ''proxy.maxDimension'' = ''proxymaxdimension''" by code_simp+
  have env: "NewEnvSource env_formatter [''A_B=7''] = Ok ?e"
    by (simp add: NewEnvSource_def env_entry_def first_rune_def go_slice_def string_of_runes_def Let_def keys)
  have load: "load_files sample_file [''milvus.yaml''] = Ok [''a.b'' \<mapsto> ''file'', ''ab'' \<mapsto> ''file'', ''c'' \<mapsto> ''x,,y'']"
    by (simp add: load_files_def load_file_def sample_file_def load_key_def join_item_def fun_upd_twist)
  have wf: "walk_of [''a.b'' \<mapsto> ''file'', ''ab'' \<mapsto> ''file'', ''c'' \<mapsto> ''x,,y''] [''a.b'', ''ab'', ''c'']"
    "walk_of [''A_B'' \<mapsto> ''7'', ''ab'' \<mapsto> ''7''] [''A_B'', ''ab'']"
    by (auto simp: walk_of_def split: if_splits)
  obtain m :: "unit Manager" where m: "BaseTable_init sample_file (\<lambda>dir file. file) [''A_B=7''] [''A_B'', ''ab'']
      [''a.b'', ''ab'', ''c''] ?cfg = Ok m"
    and get: "\<forall>pi. tempValue pi = None \<longrightarrow>
         (let raw = (case first_value ([''a.b'' \<mapsto> ''file'', ''ab'' \<mapsto> ''file'', ''c'' \<mapsto> ''x,,y''] ++
                [''A_B'' \<mapsto> ''7'', ''ab'' \<mapsto> ''7'']) (pi_Key pi # FallbackKeys pi) of Some v \<Rightarrow> v | None \<Rightarrow> DefaultValue pi);
              formatted = (case Formatter pi of Some f \<Rightarrow> f raw | None \<Rightarrow> Ok raw)
          in get (Some m) pi = bindO formatted (\<lambda>ret.
               if ret = '''' \<and> PanicIfEmpty pi then Panic (pi_Key pi @ '' is empty'') else Ok ret))"
    using param_at_start [OF env, of ?cfg sample_file "\<lambda>dir file. file" "[''a.b'', ''ab'', ''c'']" "[''A_B'', ''ab'']",
        OF _ _ _ refl] wf by (auto simp: load)
  show ?thesis
    using m get [THEN spec, of "dim_param\<lparr>FallbackKeys := [''A.b'']\<rparr>"] get [THEN spec, of dim_param]
    by (intro exI [of _ m]) (simp add: dim_param_def keys Let_def)
qed

end
