(* ===== verification/Schema.thy ===== *)
theory Schema
  imports FieldData Strconv
begin

text \<open>
  The schema of a collection (pkg/util/typeutil/schema.go, get\_dim.go, gen\_empty\_field\_data.go,
  kv\_pair\_helper.go): predicates on data types, the helper that finds a field by name, id or role, estimated
  sizes, dimensions, and the columns that are prepared for a result or generated empty.
\<close>

section \<open>Schemas\<close>

record FieldSchema =
  FieldID :: int
  Name :: string
  IsPrimaryKey :: bool
  fs_DataType :: DataType
  TypeParams :: "(string \<times> string) list"
  IndexParams :: "(string \<times> string) list"
  IsDynamic :: bool
  IsPartitionKey :: bool
  ElementType :: DataType

record CollectionSchema =
  Fields :: "FieldSchema list"

section \<open>Data types\<close>

definition IsVectorType :: "DataType \<Rightarrow> bool" where
  "IsVectorType t \<longleftrightarrow> t \<in> {DT_FloatVector, DT_BinaryVector}"

definition IsIntegerType :: "DataType \<Rightarrow> bool" where
  "IsIntegerType t \<longleftrightarrow> t \<in> {DT_Int8, DT_Int16, DT_Int32, DT_Int64}"

definition IsJSONType :: "DataType \<Rightarrow> bool" where
  "IsJSONType t \<longleftrightarrow> t = DT_JSON"

definition IsArrayType :: "DataType \<Rightarrow> bool" where
  "IsArrayType t \<longleftrightarrow> t = DT_Array"

definition IsFloatingType :: "DataType \<Rightarrow> bool" where
  "IsFloatingType t \<longleftrightarrow> t \<in> {DT_Float, DT_Double}"

definition IsArithmetic :: "DataType \<Rightarrow> bool" where
  "IsArithmetic t \<longleftrightarrow> IsIntegerType t \<or> IsFloatingType t"

definition IsBoolType :: "DataType \<Rightarrow> bool" where
  "IsBoolType t \<longleftrightarrow> t = DT_Bool"

definition IsStringType :: "DataType \<Rightarrow> bool" where
  "IsStringType t \<longleftrightarrow> t \<in> {DT_String, DT_VarChar}"

definition IsVariableDataType :: "DataType \<Rightarrow> bool" where
  "IsVariableDataType t \<longleftrightarrow> IsStringType t \<or> IsArrayType t \<or> IsJSONType t"

definition IsPrimaryFieldType :: "DataType \<Rightarrow> bool" where
  "IsPrimaryFieldType t \<longleftrightarrow> t = DT_Int64 \<or> t = DT_VarChar"

text \<open>Every data type but the unset one and unknown ones is in exactly one of the classes.\<close>

lemma data_type_classes:
  "length (filter (\<lambda>P. P t) [IsVectorType, IsIntegerType, IsJSONType, IsArrayType, IsFloatingType, IsBoolType, IsStringType])
     = (case t of DT_None \<Rightarrow> 0 | DT_Other _ \<Rightarrow> 0 | _ \<Rightarrow> 1)"
  by (cases t) (simp_all add: IsVectorType_def IsIntegerType_def IsJSONType_def IsArrayType_def IsFloatingType_def
      IsBoolType_def IsStringType_def)

section \<open>Key-value parameters\<close>

text \<open>\<open>NewKvPairs\<close> and its \<open>Get\<close>: a later pair replaces an earlier one. A loop over the pairs that stops at
  the first match reads the earlier one.\<close>

definition NewKvPairs :: "(string \<times> string) list \<Rightarrow> (string \<rightharpoonup> string)" where
  "NewKvPairs kvs = foldl (\<lambda>m (k, v). m(k \<mapsto> v)) Map.empty kvs"

fun first_param :: "string \<Rightarrow> (string \<times> string) list \<Rightarrow> string option" where
  "first_param key [] = None"
| "first_param key ((k, v) # kvs) = (if k = key then Some v else first_param key kvs)"

definition Atoi :: "string \<Rightarrow> int res" where
  "Atoi s = (case ParseInt s of None \<Rightarrow> Err (ErrorString ''strconv.Atoi: parsing'') | Some i \<Rightarrow> Ok i)"

definition GetDim :: "FieldSchema \<Rightarrow> int res" where
  "GetDim field =
     (if \<not> IsVectorType (fs_DataType field) then Err (ErrorString ''is not of vector type'')
      else case NewKvPairs (IndexParams field @ TypeParams field) ''dim'' of
        None \<Rightarrow> Err (ErrorString ''dim not found'')
      | Some dimStr \<Rightarrow>
          (case Atoi dimStr of Ok dim \<Rightarrow> Ok dim | _ \<Rightarrow> Err (ErrorString (''invalid dimension: '' @ dimStr))))"

lemma NewKvPairs_eq: "NewKvPairs kvs = map_of (rev kvs)"
proof -
  have "foldl (\<lambda>m (k, v). m(k \<mapsto> v)) m kvs = m ++ map_of (rev kvs)" for m :: "string \<rightharpoonup> string"
    by (induction kvs arbitrary: m) (auto simp: map_add_def fun_eq_iff split: option.splits)
  then show ?thesis by (simp add: NewKvPairs_def)
qed

section \<open>Estimated sizes\<close>

definition DynamicFieldMaxLength :: int where
  "DynamicFieldMaxLength = 512"

definition GetAvgLengthOfVarLengthField :: "FieldSchema \<Rightarrow> int res" where
  "GetAvgLengthOfVarLengthField fieldSchema =
     (let paramsMap = NewKvPairs (TypeParams fieldSchema)
      in case fs_DataType fieldSchema of
           DT_VarChar \<Rightarrow>
             (case paramsMap ''max_length'' of
                None \<Rightarrow> Err (ErrorString ''the max_length was not specified'')
              | Some v \<Rightarrow> bindO (Atoi v) (\<lambda>maxLength. Ok (if maxLength > 256 then 256 else maxLength)))
         | DT_Array \<Rightarrow> Ok DynamicFieldMaxLength
         | DT_JSON \<Rightarrow> Ok DynamicFieldMaxLength
         | _ \<Rightarrow> Err (ErrorString ''is not a variable-length type''))"

definition vector_bytes :: "(int \<Rightarrow> int) \<Rightarrow> FieldSchema \<Rightarrow> int res" where
  "vector_bytes f fs =
     (case first_param ''dim'' (TypeParams fs) of
        None \<Rightarrow> Ok 0
      | Some v \<Rightarrow> bindO (Atoi v) (\<lambda>dim. Ok (f dim)))"

definition record_bytes :: "FieldSchema \<Rightarrow> int res" where
  "record_bytes fs =
     (case fs_DataType fs of
        DT_Bool \<Rightarrow> Ok 1 | DT_Int8 \<Rightarrow> Ok 1 | DT_Int16 \<Rightarrow> Ok 2 | DT_Int32 \<Rightarrow> Ok 4 | DT_Float \<Rightarrow> Ok 4
      | DT_Int64 \<Rightarrow> Ok 8 | DT_Double \<Rightarrow> Ok 8
      | DT_VarChar \<Rightarrow> GetAvgLengthOfVarLengthField fs
      | DT_Array \<Rightarrow> GetAvgLengthOfVarLengthField fs
      | DT_JSON \<Rightarrow> GetAvgLengthOfVarLengthField fs
      | DT_BinaryVector \<Rightarrow> vector_bytes (\<lambda>v. v sdiv 8) fs
      | DT_FloatVector \<Rightarrow> vector_bytes (\<lambda>v. wrap64 (v * 4)) fs
      | _ \<Rightarrow> Ok 0)"

definition EstimateSizePerRecord :: "CollectionSchema \<Rightarrow> int res" where
  "EstimateSizePerRecord schema =
     foldO (\<lambda>r fs. bindO (record_bytes fs) (\<lambda>n. Ok (wrap64 (r + n)))) 0 (Fields schema)"

text \<open>The bytes of the data of a column; the elements of an array are columns of the element type.\<close>

fun scalar_bytes :: "DataType \<Rightarrow> ScalarField \<Rightarrow> int" where
  "scalar_bytes DT_Bool s = int (length (GetBoolData s))"
| "scalar_bytes DT_Int8 s = int (length (GetIntData s))"
| "scalar_bytes DT_Int16 s = int (length (GetIntData s)) * 2"
| "scalar_bytes DT_Int32 s = int (length (GetIntData s)) * 4"
| "scalar_bytes DT_Int64 s = int (length (GetLongData s)) * 8"
| "scalar_bytes DT_Float s = int (length (GetFloatData s)) * 4"
| "scalar_bytes DT_Double s = int (length (GetDoubleData s)) * 8"
| "scalar_bytes DT_VarChar s = sum_list (map (\<lambda>x. int (length x)) (GetStringData s))"
| "scalar_bytes DT_Array (ArrayData xs t) = sum_list (map (scalar_bytes t) xs)"
| "scalar_bytes DT_JSON s = sum_list (map (\<lambda>x. int (length x)) (GetJsonData s))"
| "scalar_bytes _ s = 0"

definition GetScalars :: "FieldData \<Rightarrow> ScalarField" where
  "GetScalars fd = (case fd_Field fd of Scalars s \<Rightarrow> s | _ \<Rightarrow> SF_None)"

definition CalcColumnSize :: "FieldData \<Rightarrow> int" where
  "CalcColumnSize column = scalar_bytes (fd_Type column) (GetScalars column)"

definition GetVectors_Dim :: "FieldData \<Rightarrow> int" where
  "GetVectors_Dim fd = (case fd_Field fd of Vectors dim _ \<Rightarrow> dim | _ \<Rightarrow> 0)"

definition row_of :: "'a list \<Rightarrow> int \<Rightarrow> 'a res" where
  "row_of xs rowOffset =
     (if rowOffset \<ge> int (length xs) then Err (ErrorString ''offset out range of field datas'')
      else go_index xs rowOffset)"

definition entity_bytes :: "int \<Rightarrow> FieldData \<Rightarrow> int res" where
  "entity_bytes rowOffset fs =
     (case fd_Type fs of
        DT_Bool \<Rightarrow> Ok 1 | DT_Int8 \<Rightarrow> Ok 1 | DT_Int16 \<Rightarrow> Ok 2 | DT_Int32 \<Rightarrow> Ok 4 | DT_Float \<Rightarrow> Ok 4
      | DT_Int64 \<Rightarrow> Ok 8 | DT_Double \<Rightarrow> Ok 8
      | DT_VarChar \<Rightarrow> bindO (row_of (GetStringData (GetScalars fs)) rowOffset) (\<lambda>x. Ok (int (length x)))
      | DT_Array \<Rightarrow>
          (case GetScalars fs of
             ArrayData xs t \<Rightarrow> bindO (row_of xs rowOffset) (\<lambda>array. Ok (scalar_bytes t array))
           | _ \<Rightarrow> bindO (row_of ([] :: ScalarField list) rowOffset) (\<lambda>array. Ok (scalar_bytes DT_None array)))
      | DT_JSON \<Rightarrow> bindO (row_of (GetJsonData (GetScalars fs)) rowOffset) (\<lambda>x. Ok (int (length x)))
      | DT_BinaryVector \<Rightarrow> Ok (GetVectors_Dim fs)
      | DT_FloatVector \<Rightarrow> Ok (wrap64 (GetVectors_Dim fs * 4))
      | _ \<Rightarrow> Ok 0)"

definition EstimateEntitySize :: "FieldData list \<Rightarrow> int \<Rightarrow> int res" where
  "EstimateEntitySize fieldsData rowOffset =
     foldO (\<lambda>r fs. bindO (entity_bytes rowOffset fs) (\<lambda>n. Ok (wrap64 (r + n)))) 0 fieldsData"

section \<open>The schema helper\<close>

record SchemaHelper =
  sh_schema :: CollectionSchema
  nameOffset :: "string \<rightharpoonup> nat"
  idOffset :: "int \<rightharpoonup> nat"
  primaryKeyOffset :: int
  partitionKeyOffset :: int

definition add_field :: "SchemaHelper \<Rightarrow> nat \<times> FieldSchema \<Rightarrow> SchemaHelper res" where
  "add_field schemaHelper = (\<lambda>(offset, field).
     if nameOffset schemaHelper (Name field) \<noteq> None
     then Err (ErrorString (''duplicated fieldName: '' @ Name field))
     else if idOffset schemaHelper (FieldID field) \<noteq> None
     then Err (ErrorString (''duplicated fieldID: '' @ string_of_int (FieldID field)))
     else if IsPrimaryKey field \<and> primaryKeyOffset schemaHelper \<noteq> - 1
     then Err (ErrorString ''primary key is not unique'')
     else if IsPartitionKey field \<and> partitionKeyOffset schemaHelper \<noteq> - 1
     then Err (ErrorString ''partition key is not unique'')
     else Ok (schemaHelper\<lparr>
       nameOffset := (nameOffset schemaHelper)(Name field \<mapsto> offset),
       idOffset := (idOffset schemaHelper)(FieldID field \<mapsto> offset),
       primaryKeyOffset := (if IsPrimaryKey field then int offset else primaryKeyOffset schemaHelper),
       partitionKeyOffset := (if IsPartitionKey field then int offset else partitionKeyOffset schemaHelper)\<rparr>))"

definition CreateSchemaHelper :: "CollectionSchema option \<Rightarrow> SchemaHelper res" where
  "CreateSchemaHelper schema =
     (case schema of
        None \<Rightarrow> Err (ErrorString ''schema is nil'')
      | Some s \<Rightarrow>
          foldO add_field \<lparr>sh_schema = s, nameOffset = Map.empty, idOffset = Map.empty, primaryKeyOffset = - 1,
                          partitionKeyOffset = - 1\<rparr> (enumerate 0 (Fields s)))"

definition GetPrimaryKeyField :: "SchemaHelper \<Rightarrow> FieldSchema res" where
  "GetPrimaryKeyField helper =
     (if primaryKeyOffset helper = - 1
      then Err (ErrorString ''failed to get primary key field: no primary in schema'')
      else go_index (Fields (sh_schema helper)) (primaryKeyOffset helper))"

definition GetPartitionKeyField :: "SchemaHelper \<Rightarrow> FieldSchema res" where
  "GetPartitionKeyField helper =
     (if partitionKeyOffset helper = - 1
      then Err (ErrorString ''failed to get partition key field: no partition key in schema'')
      else go_index (Fields (sh_schema helper)) (partitionKeyOffset helper))"

definition GetFieldFromName :: "SchemaHelper \<Rightarrow> string \<Rightarrow> FieldSchema res" where
  "GetFieldFromName helper fieldName =
     (case nameOffset helper fieldName of
        None \<Rightarrow> Err (ErrorString ''failed to get field schema by name'')
      | Some offset \<Rightarrow> go_index (Fields (sh_schema helper)) (int offset))"

definition getDefaultJSONField :: "SchemaHelper \<Rightarrow> string \<Rightarrow> FieldSchema res" where
  "getDefaultJSONField helper fieldName =
     (case find (\<lambda>f. fs_DataType f = DT_JSON \<and> IsDynamic f) (Fields (sh_schema helper)) of
        Some f \<Rightarrow> Ok f
      | None \<Rightarrow> Err (ErrorString (''field '' @ fieldName @ '' not exist'')))"

definition GetFieldFromNameDefaultJSON :: "SchemaHelper \<Rightarrow> string \<Rightarrow> FieldSchema res" where
  "GetFieldFromNameDefaultJSON helper fieldName =
     (case nameOffset helper fieldName of
        None \<Rightarrow> getDefaultJSONField helper fieldName
      | Some offset \<Rightarrow> go_index (Fields (sh_schema helper)) (int offset))"

definition GetFieldFromID :: "SchemaHelper \<Rightarrow> int \<Rightarrow> FieldSchema res" where
  "GetFieldFromID helper fieldID =
     (case idOffset helper fieldID of
        None \<Rightarrow> Err (ErrorString (''fieldID('' @ string_of_int fieldID @ '') not found''))
      | Some offset \<Rightarrow> go_index (Fields (sh_schema helper)) (int offset))"

definition GetVectorDimFromID :: "SchemaHelper \<Rightarrow> int \<Rightarrow> int res" where
  "GetVectorDimFromID helper fieldID =
     bindO (GetFieldFromID helper fieldID) (\<lambda>sch.
       if \<not> IsVectorType (fs_DataType sch) then Err (ErrorString ''not has dim'')
       else case first_param ''dim'' (TypeParams sch) of
         None \<Rightarrow> Err (ErrorString ''not has dim'')
       | Some v \<Rightarrow> Atoi v)"

section \<open>Finding fields and their data\<close>

definition GetVectorFieldSchema :: "CollectionSchema \<Rightarrow> FieldSchema res" where
  "GetVectorFieldSchema schema =
     (case find (\<lambda>f. IsVectorType (fs_DataType f)) (Fields schema) of
        Some f \<Rightarrow> Ok f | None \<Rightarrow> Err (ErrorString ''vector field is not found''))"

definition GetPrimaryFieldSchema :: "CollectionSchema \<Rightarrow> FieldSchema res" where
  "GetPrimaryFieldSchema schema =
     (case find IsPrimaryKey (Fields schema) of
        Some f \<Rightarrow> Ok f | None \<Rightarrow> Err (ErrorString ''primary field is not found''))"

definition GetPartitionKeyFieldSchema :: "CollectionSchema \<Rightarrow> FieldSchema res" where
  "GetPartitionKeyFieldSchema schema =
     (case find IsPartitionKey (Fields schema) of
        Some f \<Rightarrow> Ok f | None \<Rightarrow> Err (ErrorString ''partition key field is not found''))"

definition HasPartitionKey :: "CollectionSchema \<Rightarrow> bool" where
  "HasPartitionKey schema \<longleftrightarrow> list_ex IsPartitionKey (Fields schema)"

definition find_primary :: "FieldData list \<Rightarrow> FieldSchema \<Rightarrow> FieldData option" where
  "find_primary datas primaryFieldSchema =
     find (\<lambda>field. fd_FieldId field = FieldID primaryFieldSchema \<or> fd_FieldName field = Name primaryFieldSchema) datas"

definition GetPrimaryFieldData :: "FieldData list \<Rightarrow> FieldSchema \<Rightarrow> FieldData res" where
  "GetPrimaryFieldData datas primaryFieldSchema =
     (case find_primary datas primaryFieldSchema of
        None \<Rightarrow> Err (ErrorString (''can't find data for primary field: '' @ Name primaryFieldSchema))
      | Some d \<Rightarrow> Ok d)"

definition IsPrimaryFieldDataExist :: "FieldData list \<Rightarrow> FieldSchema \<Rightarrow> bool" where
  "IsPrimaryFieldDataExist datas primaryFieldSchema \<longleftrightarrow> find_primary datas primaryFieldSchema \<noteq> None"

definition GetField :: "CollectionSchema \<Rightarrow> int \<Rightarrow> FieldSchema option" where
  "GetField schema fieldID = find (\<lambda>f. FieldID f = fieldID) (Fields schema)"

section \<open>The helper finds every field\<close>

text \<open>The map holds the position of the element with each key; the offset of a role is the position of an element
  that has it, and \<open>- 1\<close> when none has.\<close>

definition indexed :: "('a \<Rightarrow> 'k) \<Rightarrow> ('k \<rightharpoonup> nat) \<Rightarrow> 'a list \<Rightarrow> bool" where
  "indexed key m xs \<longleftrightarrow> (\<forall>k i. m k = Some i \<longleftrightarrow> i < length xs \<and> key (xs ! i) = k)"

definition role_at :: "('a \<Rightarrow> bool) \<Rightarrow> 'a list \<Rightarrow> int \<Rightarrow> bool" where
  "role_at P xs off \<longleftrightarrow>
     (if off = - 1 then filter P xs = [] else 0 \<le> off \<and> nat off < length xs \<and> P (xs ! nat off))"

definition proper :: "FieldSchema list \<Rightarrow> bool" where
  "proper xs \<longleftrightarrow> distinct (map Name xs) \<and> distinct (map FieldID xs)
     \<and> length (filter IsPrimaryKey xs) \<le> 1 \<and> length (filter IsPartitionKey xs) \<le> 1"

definition indexes :: "SchemaHelper \<Rightarrow> FieldSchema list \<Rightarrow> bool" where
  "indexes h xs \<longleftrightarrow> indexed Name (nameOffset h) xs \<and> indexed FieldID (idOffset h) xs
   \<and> role_at IsPrimaryKey xs (primaryKeyOffset h) \<and> role_at IsPartitionKey xs (partitionKeyOffset h)"

lemma indexed_None:
  assumes "indexed key m xs"
  shows "m k = None \<longleftrightarrow> k \<notin> set (map key xs)"
proof -
  have "m k \<noteq> None \<longleftrightarrow> (\<exists>i. i < length xs \<and> key (xs ! i) = k)"
    using assms by (simp add: indexed_def)
  moreover have "(\<exists>i. i < length xs \<and> key (xs ! i) = k) \<longleftrightarrow> k \<in> set (map key xs)"
    unfolding in_set_conv_nth by auto
  ultimately show ?thesis by blast
qed

lemma indexed_snoc:
  assumes "indexed key m xs" and "m (key x) = None"
  shows "indexed key (m(key x \<mapsto> length xs)) (xs @ [x])"
  unfolding indexed_def
proof (intro allI)
  fix k i
  have eq: "m k = Some i \<longleftrightarrow> i < length xs \<and> key (xs ! i) = k" for k i using assms(1) by (simp add: indexed_def)
  have "key (xs ! i) \<noteq> key x" if "i < length xs" for i using assms(2) eq [of "key x" i] that by auto
  then show "(m(key x \<mapsto> length xs)) k = Some i \<longleftrightarrow> i < length (xs @ [x]) \<and> key ((xs @ [x]) ! i) = k"
    by (cases "i < length xs"; cases "k = key x") (auto simp: nth_append eq)
qed

lemma role_at_None: "role_at P xs off \<Longrightarrow> off = - 1 \<longleftrightarrow> filter P xs = []"
  by (auto simp: role_at_def filter_empty_conv split: if_splits)

lemma role_at_snoc:
  assumes "role_at P xs off"
  shows "role_at P (xs @ [x]) (if P x then int (length xs) else off)"
  using assms by (auto simp: role_at_def nth_append split: if_splits)

lemma length_filter_snoc: "length (filter P (xs @ [f])) \<le> 1 \<longleftrightarrow>
    length (filter P xs) \<le> 1 \<and> \<not> (P f \<and> filter P xs \<noteq> [])"
  by (cases "filter P xs") auto

lemma proper_snoc:
  "proper (xs @ [f]) \<longleftrightarrow> proper xs \<and> Name f \<notin> set (map Name xs) \<and> FieldID f \<notin> set (map FieldID xs)
     \<and> \<not> (IsPrimaryKey f \<and> filter IsPrimaryKey xs \<noteq> []) \<and> \<not> (IsPartitionKey f \<and> filter IsPartitionKey xs \<noteq> [])"
  unfolding proper_def length_filter_snoc by auto

lemma add_field_step:
  assumes "indexes h xs" "proper xs"
  shows "is_Ok (add_field h (length xs, f)) \<longleftrightarrow> proper (xs @ [f])"
    and "add_field h (length xs, f) = Ok h' \<Longrightarrow> indexes h' (xs @ [f]) \<and> sh_schema h' = sh_schema h"
proof -
  have ix: "indexed Name (nameOffset h) xs" "indexed FieldID (idOffset h) xs"
    "role_at IsPrimaryKey xs (primaryKeyOffset h)" "role_at IsPartitionKey xs (partitionKeyOffset h)"
    using assms(1) by (simp_all add: indexes_def)
  show "is_Ok (add_field h (length xs, f)) \<longleftrightarrow> proper (xs @ [f])"
    using assms(2) indexed_None [OF ix(1)] indexed_None [OF ix(2)] role_at_None [OF ix(3)] role_at_None [OF ix(4)]
    by (simp add: proper_snoc add_field_def)
  assume "add_field h (length xs, f) = Ok h'"
  then have h': "nameOffset h (Name f) = None" "idOffset h (FieldID f) = None"
    "h' = h\<lparr>nameOffset := (nameOffset h)(Name f \<mapsto> length xs), idOffset := (idOffset h)(FieldID f \<mapsto> length xs),
       primaryKeyOffset := (if IsPrimaryKey f then int (length xs) else primaryKeyOffset h),
       partitionKeyOffset := (if IsPartitionKey f then int (length xs) else partitionKeyOffset h)\<rparr>"
    by (auto simp: add_field_def split: if_splits)
  show "indexes h' (xs @ [f]) \<and> sh_schema h' = sh_schema h"
    unfolding h'(3) indexes_def
    using indexed_snoc [OF ix(1) h'(1)] indexed_snoc [OF ix(2) h'(2)] role_at_snoc [OF ix(3), of f] role_at_snoc [OF ix(4), of f]
    by simp
qed

definition empty_helper :: "CollectionSchema \<Rightarrow> SchemaHelper" where
  "empty_helper s = \<lparr>sh_schema = s, nameOffset = Map.empty, idOffset = Map.empty, primaryKeyOffset = - 1,
     partitionKeyOffset = - 1\<rparr>"

lemma indexes_empty: "indexes (empty_helper s) []"
  by (simp add: empty_helper_def indexes_def indexed_def role_at_def)

lemma add_fields:
  "(is_Ok (foldO add_field (empty_helper s) (enumerate 0 xs)) \<longleftrightarrow> proper xs)
   \<and> (\<forall>h. foldO add_field (empty_helper s) (enumerate 0 xs) = Ok h \<longrightarrow> indexes h xs \<and> sh_schema h = s)"
proof (induction xs rule: rev_induct)
  case Nil
  show ?case using indexes_empty by (simp add: proper_def) (simp add: empty_helper_def)
next
  case (snoc f xs)
  have fold: "foldO add_field (empty_helper s) (enumerate 0 (xs @ [f]))
      = bindO (foldO add_field (empty_helper s) (enumerate 0 xs)) (\<lambda>h. add_field h (length xs, f))"
  proof -
    have "bindO m Ok = m" for m :: "SchemaHelper res" by (cases m) simp_all
    then show ?thesis by (simp add: enumerate_append_eq foldO_append)
  qed
  show ?case
  proof (cases "foldO add_field (empty_helper s) (enumerate 0 xs)")
    case (Ok h)
    then have h: "indexes h xs" "proper xs" "sh_schema h = s" using snoc by auto
    show ?thesis unfolding fold Ok using add_field_step [OF h(1,2), of f] h(3) by simp
  next
    case (Err e)
    then show ?thesis using snoc by (simp add: fold proper_snoc)
  next
    case (Panic p)
    then show ?thesis using snoc by (simp add: fold proper_snoc)
  qed
qed

lemma CreateSchemaHelper_Some: "CreateSchemaHelper (Some s) = foldO add_field (empty_helper s) (enumerate 0 (Fields s))"
  by (simp add: CreateSchemaHelper_def empty_helper_def)

lemma by_key:
  assumes "indexed key m xs"
  shows "(case m k of None \<Rightarrow> Err e | Some i \<Rightarrow> go_index xs (int i)) = Ok f \<longleftrightarrow> f \<in> set xs \<and> key f = k"
proof (cases "m k")
  case None
  then show ?thesis using indexed_None [OF assms, of k] by auto
next
  case (Some i)
  then have i: "i < length xs" "key (xs ! i) = k" using assms by (auto simp: indexed_def)
  moreover have "f = xs ! i" if "f \<in> set xs" "key f = k"
    using that assms Some unfolding indexed_def in_set_conv_nth by (metis option.inject)
  ultimately show ?thesis using Some by (auto simp: go_index_def)
qed

lemma by_role:
  assumes "role_at P xs off" and "length (filter P xs) \<le> 1"
  shows "(if off = - 1 then Err e else go_index xs off) = Ok f \<longleftrightarrow> f \<in> set xs \<and> P f"
proof (cases "off = - 1")
  case True
  then show ?thesis using role_at_None [OF assms(1)] by (auto simp: filter_empty_conv)
next
  case False
  then have off: "0 \<le> off" "nat off < length xs" "P (xs ! nat off)" using assms(1) by (auto simp: role_at_def)
  have "f = xs ! nat off" if "f \<in> set xs" "P f"
  proof -
    have "xs ! nat off \<in> set (filter P xs)" "f \<in> set (filter P xs)" using off that by simp_all
    then show ?thesis using assms(2) by (cases "filter P xs") auto
  qed
  then show ?thesis using False off by (auto simp: go_index_def)
qed

text \<open>C23: The schema helper is created exactly when the names of the fields are distinct, their ids are distinct, and
  at most one field is the primary key and at most one the partition key; and then it finds every field by its name,
  by its id and by each of the two roles, and nothing else.\<close>

theorem SchemaHelper_finds:
  "case CreateSchemaHelper (Some s) of
     Ok h \<Rightarrow> proper (Fields s)
       \<and> (\<forall>n f. GetFieldFromName h n = Ok f \<longleftrightarrow> f \<in> set (Fields s) \<and> Name f = n)
       \<and> (\<forall>i f. GetFieldFromID h i = Ok f \<longleftrightarrow> f \<in> set (Fields s) \<and> FieldID f = i)
       \<and> (\<forall>f. GetPrimaryKeyField h = Ok f \<longleftrightarrow> f \<in> set (Fields s) \<and> IsPrimaryKey f)
       \<and> (\<forall>f. GetPartitionKeyField h = Ok f \<longleftrightarrow> f \<in> set (Fields s) \<and> IsPartitionKey f)
   | _ \<Rightarrow> \<not> proper (Fields s)"
proof (cases "CreateSchemaHelper (Some s)")
  case (Ok h)
  then have h: "proper (Fields s)" "indexes h (Fields s)" "sh_schema h = s"
    using add_fields [of s "Fields s"] by (simp_all add: CreateSchemaHelper_Some)
  then have ix: "indexed Name (nameOffset h) (Fields s)" "indexed FieldID (idOffset h) (Fields s)"
    "role_at IsPrimaryKey (Fields s) (primaryKeyOffset h)" "role_at IsPartitionKey (Fields s) (partitionKeyOffset h)"
    "length (filter IsPrimaryKey (Fields s)) \<le> 1" "length (filter IsPartitionKey (Fields s)) \<le> 1"
    by (simp_all add: indexes_def proper_def)
  have "GetFieldFromName h n = Ok f \<longleftrightarrow> f \<in> set (Fields s) \<and> Name f = n" for n f
    unfolding GetFieldFromName_def h(3) by (rule by_key [OF ix(1)])
  moreover have "GetFieldFromID h i = Ok f \<longleftrightarrow> f \<in> set (Fields s) \<and> FieldID f = i" for i f
    unfolding GetFieldFromID_def h(3) by (rule by_key [OF ix(2)])
  moreover have "GetPrimaryKeyField h = Ok f \<longleftrightarrow> f \<in> set (Fields s) \<and> IsPrimaryKey f" for f
    unfolding GetPrimaryKeyField_def h(3) by (rule by_role [OF ix(3,5)])
  moreover have "GetPartitionKeyField h = Ok f \<longleftrightarrow> f \<in> set (Fields s) \<and> IsPartitionKey f" for f
    unfolding GetPartitionKeyField_def h(3) by (rule by_role [OF ix(4,6)])
  ultimately show ?thesis by (simp add: Ok h(1))
qed (use add_fields [of s "Fields s"] in \<open>simp_all add: CreateSchemaHelper_Some\<close>)

end
