(* ===== verification/Columns.thy ===== *)
theory Columns
  imports Schema "HOL-Library.List_Lexorder" "HOL-Library.Char_ord" "HOL-Library.Product_Lexorder"
begin

text \<open>
  Whole columns and primary keys (pkg/util/typeutil/schema.go, gen\_empty\_field\_data.go): merging columns, the
  empty columns of a result or of a schema, the primary keys of a result, and the selection of the least primary
  key when several sorted results are reduced to one.

  The order of HOL-Library's \<open>List_Lexorder\<close> and \<open>Char_ord\<close> on strings is Go's, which compares bytes.
\<close>

section \<open>Merging columns\<close>

fun merge_scalar :: "ScalarField \<Rightarrow> ScalarField \<Rightarrow> ScalarField option" where
  "merge_scalar d (BoolData xs) = Some (BoolData (GetBoolData d @ xs))"
| "merge_scalar d (IntData xs) = Some (IntData (GetIntData d @ xs))"
| "merge_scalar d (LongData xs) = Some (LongData (GetLongData d @ xs))"
| "merge_scalar d (FloatData xs) = Some (FloatData (GetFloatData d @ xs))"
| "merge_scalar d (DoubleData xs) = Some (DoubleData (GetDoubleData d @ xs))"
| "merge_scalar d (StringData xs) = Some (StringData (GetStringData d @ xs))"
| "merge_scalar d (ArrayData xs t) =
     Some (case d of ArrayData ys t' \<Rightarrow> ArrayData (ys @ xs) t' | _ \<Rightarrow> ArrayData xs t)"
| "merge_scalar d (JsonData xs) = Some (JsonData (GetJsonData d @ xs))"
| "merge_scalar d (BytesData xs) = Some (BytesData (GetBytesData d @ xs))"
| "merge_scalar d SF_None = None"

fun merge_vector :: "VectorData \<Rightarrow> VectorData \<Rightarrow> VectorData option" where
  "merge_vector d (BinaryVector bs) = Some (BinaryVector (GetBinaryVector d @ bs))"
| "merge_vector d (FloatVector fs) = Some (FloatVector (GetFloatVector d @ fs))"
| "merge_vector d VF_None = None"

text \<open>The data of the destination column after the merge, \<open>None\<close> where the type is not supported. A destination
  that holds a vector where the source is scalar, or the other way round, is a nil dereference.\<close>

fun merge_data :: "Field \<Rightarrow> Field \<Rightarrow> Field option res" where
  "merge_data (Scalars d) (Scalars s) = Ok (map_option Scalars (merge_scalar d s))"
| "merge_data d (Scalars s) = (if s = SF_None then Ok None else Panic ''nil pointer dereference'')"
| "merge_data (Vectors k d) (Vectors dim v) = Ok (map_option (Vectors k) (merge_vector d v))"
| "merge_data d (Vectors dim v) = (if v = VF_None then Ok None else Panic ''nil pointer dereference'')"
| "merge_data d F_None = Ok (Some d)"

text \<open>\<open>fieldID2Data\<close> holds, for an id, the last of the columns that have it; a column that is not there is
  appended.\<close>

definition last_pos :: "int \<Rightarrow> FieldData list \<Rightarrow> nat option" where
  "last_pos fieldId cols = find (\<lambda>i. fd_FieldId (cols ! i) = fieldId) (rev [0..<length cols])"

definition fresh_column :: "FieldData \<Rightarrow> FieldData" where
  "fresh_column s = s\<lparr>fd_IsDynamic := False,
     fd_Field := (case fd_Field s of Scalars _ \<Rightarrow> Scalars SF_None | Vectors dim _ \<Rightarrow> Vectors dim VF_None | F_None \<Rightarrow> F_None)\<rparr>"

definition merge_column :: "FieldData list \<Rightarrow> FieldData \<Rightarrow> (FieldData list \<times> go_error option) res" where
  "merge_column cols s =
     (if fd_Field s = F_None then Ok (cols, None)
      else let (cols', i) = (case last_pos (fd_FieldId s) cols of
                               Some i \<Rightarrow> (cols, i)
                             | None \<Rightarrow> (cols @ [fresh_column s], length cols))
           in bindO (merge_data (fd_Field (cols' ! i)) (fd_Field s)) (\<lambda>r. case r of
                None \<Rightarrow> Ok (cols', Some (ErrorString ''unsupported data type''))
              | Some f \<Rightarrow> Ok (cols'[i := (cols' ! i)\<lparr>fd_Field := f\<rparr>], None)))"

fun merge_columns :: "FieldData list \<Rightarrow> FieldData list \<Rightarrow> (FieldData list \<times> go_error option) res" where
  "merge_columns cols [] = Ok (cols, None)"
| "merge_columns cols (s # ss) =
     bindO (merge_column cols s) (\<lambda>(cols', e). case e of
        None \<Rightarrow> merge_columns cols' ss
      | Some _ \<Rightarrow> Ok (cols', e))"

text \<open>\<open>dst\<close> is passed by value: the caller's slice keeps its length, whatever columns the function appends to its
  own copy of it.\<close>

definition MergeFieldData :: "FieldData list \<Rightarrow> FieldData list \<Rightarrow> (FieldData list \<times> go_error option) res" where
  "MergeFieldData dst src = bindO (merge_columns dst src) (\<lambda>(cols, e). Ok (take (length dst) cols, e))"

section \<open>Empty columns\<close>

fun empty_scalar :: "ScalarField \<Rightarrow> ScalarField" where
  "empty_scalar (BoolData _) = BoolData []"
| "empty_scalar (IntData _) = IntData []"
| "empty_scalar (LongData _) = LongData []"
| "empty_scalar (FloatData _) = FloatData []"
| "empty_scalar (DoubleData _) = DoubleData []"
| "empty_scalar (StringData _) = StringData []"
| "empty_scalar (JsonData _) = JsonData []"
| "empty_scalar (ArrayData _ t) = ArrayData [] t"
| "empty_scalar _ = SF_None"

fun empty_vector :: "VectorData \<Rightarrow> VectorData" where
  "empty_vector (FloatVector _) = FloatVector []"
| "empty_vector (BinaryVector _) = BinaryVector []"
| "empty_vector VF_None = VF_None"

text \<open>The capacities are those of \<open>make\<close>, which panics on a negative one.\<close>

fun field_capacity :: "int \<Rightarrow> Field \<Rightarrow> int" where
  "field_capacity topK (Scalars s) = (if empty_scalar s = SF_None then 0 else topK)"
| "field_capacity topK (Vectors dim (FloatVector _)) = dim * topK"
| "field_capacity topK (Vectors dim (BinaryVector _)) = topK * dim sdiv 8"
| "field_capacity topK _ = 0"

definition prepare_column :: "int \<Rightarrow> FieldData \<Rightarrow> FieldData res" where
  "prepare_column topK fieldData =
     (if field_capacity topK (fd_Field fieldData) < 0 then Panic ''makeslice: cap out of range''
      else Ok (fieldData\<lparr>fd_Field :=
        (case fd_Field fieldData of
           Scalars s \<Rightarrow> Scalars (empty_scalar s)
         | Vectors dim v \<Rightarrow> Vectors dim (empty_vector v)
         | F_None \<Rightarrow> F_None)\<rparr>))"

fun PrepareResultFieldData :: "FieldData list \<Rightarrow> int \<Rightarrow> FieldData list res" where
  "PrepareResultFieldData [] topK = Ok []"
| "PrepareResultFieldData (fd # fds) topK =
     bindO (prepare_column topK fd) (\<lambda>c. bindO (PrepareResultFieldData fds topK) (\<lambda>cs. Ok (c # cs)))"

definition gen_empty :: "FieldSchema \<Rightarrow> Field \<Rightarrow> FieldData" where
  "gen_empty field f =
     \<lparr>fd_Type = fs_DataType field, fd_FieldName = Name field, fd_FieldId = FieldID field,
      fd_IsDynamic = IsDynamic field, fd_Field = f\<rparr>"

definition GenEmptyFieldData :: "FieldSchema \<Rightarrow> FieldData res" where
  "GenEmptyFieldData field =
     (case fs_DataType field of
        DT_Bool \<Rightarrow> Ok (gen_empty field (Scalars (BoolData [])))
      | DT_Int8 \<Rightarrow> Ok (gen_empty field (Scalars (IntData [])))
      | DT_Int16 \<Rightarrow> Ok (gen_empty field (Scalars (IntData [])))
      | DT_Int32 \<Rightarrow> Ok (gen_empty field (Scalars (IntData [])))
      | DT_Int64 \<Rightarrow> Ok (gen_empty field (Scalars (LongData [])))
      | DT_Float \<Rightarrow> Ok (gen_empty field (Scalars (FloatData [])))
      | DT_Double \<Rightarrow> Ok (gen_empty field (Scalars (DoubleData [])))
      | DT_VarChar \<Rightarrow> Ok (gen_empty field (Scalars (StringData [])))
      | DT_Array \<Rightarrow> Ok (gen_empty field (Scalars (ArrayData [] (ElementType field))))
      | DT_JSON \<Rightarrow> Ok (gen_empty field (Scalars (JsonData [])))
      | DT_BinaryVector \<Rightarrow> bindO (GetDim field) (\<lambda>dim. Ok (gen_empty field (Vectors dim (BinaryVector []))))
      | DT_FloatVector \<Rightarrow> bindO (GetDim field) (\<lambda>dim. Ok (gen_empty field (Vectors dim (FloatVector []))))
      | _ \<Rightarrow> Err (ErrorString ''unsupported data type''))"

section \<open>Primary keys\<close>

datatype PK = PK_nil | PK_Int int | PK_Str string

fun AppendIDs :: "IDs \<Rightarrow> IDs \<Rightarrow> int \<Rightarrow> IDs res" where
  "AppendIDs dst (IntId xs) idx =
     bindO (go_index xs idx) (\<lambda>x. case dst of
        IDs_None \<Rightarrow> Ok (IntId [x]) | IntId ys \<Rightarrow> Ok (IntId (ys @ [x])) | StrId _ \<Rightarrow> Panic ''nil pointer dereference'')"
| "AppendIDs dst (StrId xs) idx =
     bindO (go_index xs idx) (\<lambda>x. case dst of
        IDs_None \<Rightarrow> Ok (StrId [x]) | StrId ys \<Rightarrow> Ok (StrId (ys @ [x])) | IntId _ \<Rightarrow> Panic ''nil pointer dereference'')"
| "AppendIDs dst IDs_None idx = Ok dst"

definition GetPKSize :: "FieldData \<Rightarrow> nat" where
  "GetPKSize fieldData =
     (case fd_Type fieldData of
        DT_Int64 \<Rightarrow> length (GetLongData (GetScalars fieldData))
      | DT_VarChar \<Rightarrow> length (GetStringData (GetScalars fieldData))
      | _ \<Rightarrow> 0)"

definition GetPK :: "IDs option \<Rightarrow> int \<Rightarrow> PK res" where
  "GetPK data idx =
     bindO (GetSizeOfIDs data) (\<lambda>n.
       if int n \<le> idx then Ok PK_nil
       else case data of
         Some (IntId xs) \<Rightarrow> bindO (go_index xs idx) (\<lambda>x. Ok (PK_Int x))
       | Some (StrId xs) \<Rightarrow> bindO (go_index xs idx) (\<lambda>x. Ok (PK_Str x))
       | _ \<Rightarrow> Ok PK_nil)"

fun AppendPKs :: "IDs \<Rightarrow> PK \<Rightarrow> IDs" where
  "AppendPKs (IntId xs) (PK_Int k) = IntId (xs @ [k])"
| "AppendPKs _ (PK_Int k) = IntId [k]"
| "AppendPKs (StrId xs) (PK_Str k) = StrId (xs @ [k])"
| "AppendPKs _ (PK_Str k) = StrId [k]"
| "AppendPKs pks PK_nil = pks"

definition swap_at :: "'a list \<Rightarrow> int \<Rightarrow> int \<Rightarrow> 'a list res" where
  "swap_at xs i j =
     bindO (go_index xs j) (\<lambda>y. bindO (go_index xs i) (\<lambda>x. Ok (xs[nat i := y, nat j := x])))"

fun SwapPK :: "IDs \<Rightarrow> int \<Rightarrow> int \<Rightarrow> IDs res" where
  "SwapPK (IntId xs) i j = bindO (swap_at xs i j) (\<lambda>ys. Ok (IntId ys))"
| "SwapPK (StrId xs) i j = bindO (swap_at xs i j) (\<lambda>ys. Ok (StrId ys))"
| "SwapPK IDs_None i j = Ok IDs_None"

definition less_at :: "'a::linorder list \<Rightarrow> int \<Rightarrow> int \<Rightarrow> bool res" where
  "less_at xs i j = bindO (go_index xs i) (\<lambda>x. bindO (go_index xs j) (\<lambda>y. Ok (x < y)))"

fun ComparePKInSlice :: "IDs \<Rightarrow> int \<Rightarrow> int \<Rightarrow> bool res" where
  "ComparePKInSlice (IntId xs) i j = less_at xs i j"
| "ComparePKInSlice (StrId xs) i j = less_at xs i j"
| "ComparePKInSlice IDs_None i j = Ok False"

fun ComparePK :: "PK \<Rightarrow> PK \<Rightarrow> bool res" where
  "ComparePK (PK_Int a) (PK_Int b) = Ok (a < b)"
| "ComparePK (PK_Str a) (PK_Str b) = Ok (a < b)"
| "ComparePK PK_nil _ = Ok False"
| "ComparePK _ _ = Panic ''interface conversion''"

datatype AnyData =
    AD_nil | AD_Bool bool | AD_Int32 int | AD_Int64 int | AD_Float32 uint32 | AD_Float64 uint64 | AD_String string
  | AD_Floats "uint32 list" | AD_Bytes bytes

definition GetData :: "FieldData \<Rightarrow> int \<Rightarrow> AnyData res" where
  "GetData field idx =
     (let s = GetScalars field;
          (dim, v) = (case fd_Field field of Vectors dim v \<Rightarrow> (dim, v) | _ \<Rightarrow> (0, VF_None));
          ints = bindO (go_index (GetIntData s) idx) (\<lambda>x. Ok (AD_Int32 x))
      in case fd_Type field of
           DT_Bool \<Rightarrow> bindO (go_index (GetBoolData s) idx) (\<lambda>x. Ok (AD_Bool x))
         | DT_Int8 \<Rightarrow> ints | DT_Int16 \<Rightarrow> ints | DT_Int32 \<Rightarrow> ints
         | DT_Int64 \<Rightarrow> bindO (go_index (GetLongData s) idx) (\<lambda>x. Ok (AD_Int64 x))
         | DT_Float \<Rightarrow> bindO (go_index (GetFloatData s) idx) (\<lambda>x. Ok (AD_Float32 x))
         | DT_Double \<Rightarrow> bindO (go_index (GetDoubleData s) idx) (\<lambda>x. Ok (AD_Float64 x))
         | DT_VarChar \<Rightarrow> bindO (go_index (GetStringData s) idx) (\<lambda>x. Ok (AD_String x))
         | DT_FloatVector \<Rightarrow>
             bindO (go_slice (GetFloatVector v) (idx * dim) ((idx + 1) * dim)) (\<lambda>x. Ok (AD_Floats x))
         | DT_BinaryVector \<Rightarrow>
             (let dataBytes = dim sdiv 8
              in bindO (go_slice (GetBinaryVector v) (idx * dataBytes) ((idx + 1) * dataBytes)) (\<lambda>x. Ok (AD_Bytes x)))
         | _ \<Rightarrow> Ok AD_nil)"

section \<open>Selecting the least primary key\<close>

text \<open>The methods of the type parameter \<open>T\<close>.\<close>

record PKResult =
  GetIds :: "IDs option"
  GetHasMoreResult :: bool
  GetTimestamps :: "int list"

definition MaxInt64 :: int where
  "MaxInt64 = 9223372036854775807"

record Selection =
  sel :: int
  drainResult :: bool
  maxTimestamp :: int
  minIntPK :: int
  firstStr :: bool
  minStrPK :: string

definition initial_selection :: Selection where
  "initial_selection = \<lparr>sel = - 1, drainResult = False, maxTimestamp = 0, minIntPK = MaxInt64, firstStr = True, minStrPK = []\<rparr>"

definition select_step :: "PKResult list \<Rightarrow> Selection \<Rightarrow> nat \<times> int \<Rightarrow> Selection res" where
  "select_step results st = (\<lambda>(i, cursor).
     bindO (go_index results (int i)) (\<lambda>r.
     bindO (GetSizeOfIDs (GetIds r)) (\<lambda>n.
       if int n \<le> cursor \<and> GetHasMoreResult r then Ok (st\<lparr>drainResult := True\<rparr>)
       else bindO (GetPK (GetIds r) cursor) (\<lambda>pk. case pk of
           PK_Str k \<Rightarrow>
             Ok (if firstStr st \<or> k < minStrPK st then st\<lparr>firstStr := False, minStrPK := k, sel := int i\<rparr> else st)
         | PK_Int k \<Rightarrow> Ok (if k < minIntPK st then st\<lparr>minIntPK := k, sel := int i\<rparr> else st)
         | PK_nil \<Rightarrow> Ok st))))"

definition SelectMinPK :: "PKResult list \<Rightarrow> int list \<Rightarrow> (int \<times> bool) res" where
  "SelectMinPK results cursors =
     bindO (foldO (select_step results) initial_selection (enumerate 0 cursors)) (\<lambda>st. Ok (sel st, drainResult st))"

definition select_ts_step :: "PKResult list \<Rightarrow> Selection \<Rightarrow> nat \<times> int \<Rightarrow> Selection res" where
  "select_ts_step results st = (\<lambda>(i, cursor).
     bindO (go_index results (int i)) (\<lambda>r.
     bindO (GetSizeOfIDs (GetIds r)) (\<lambda>n.
       if int n \<le> cursor \<and> GetHasMoreResult r then Ok (st\<lparr>drainResult := True\<rparr>)
       else bindO (GetPK (GetIds r) cursor) (\<lambda>pk. case pk of
           PK_Str k \<Rightarrow>
             bindO (go_index (GetTimestamps r) cursor) (\<lambda>ts.
               Ok (if firstStr st \<or> k < minStrPK st \<or> (k = minStrPK st \<and> ts > maxTimestamp st)
                   then st\<lparr>firstStr := False, minStrPK := k, sel := int i, maxTimestamp := ts\<rparr> else st))
         | PK_Int k \<Rightarrow>
             bindO (go_index (GetTimestamps r) cursor) (\<lambda>ts.
               Ok (if k < minIntPK st \<or> (k = minIntPK st \<and> ts > maxTimestamp st)
                   then st\<lparr>minIntPK := k, sel := int i, maxTimestamp := ts\<rparr> else st))
         | PK_nil \<Rightarrow> Ok st))))"

definition SelectMinPKWithTimestamp :: "PKResult list \<Rightarrow> int list \<Rightarrow> (int \<times> bool) res" where
  "SelectMinPKWithTimestamp results cursors =
     bindO (foldO (select_ts_step results) initial_selection (enumerate 0 cursors)) (\<lambda>st. Ok (sel st, drainResult st))"

section \<open>The rows of a column\<close>

fun drop_scalar :: "nat \<Rightarrow> ScalarField \<Rightarrow> ScalarField" where
  "drop_scalar k (BoolData xs) = BoolData (drop k xs)"
| "drop_scalar k (IntData xs) = IntData (drop k xs)"
| "drop_scalar k (LongData xs) = LongData (drop k xs)"
| "drop_scalar k (FloatData xs) = FloatData (drop k xs)"
| "drop_scalar k (DoubleData xs) = DoubleData (drop k xs)"
| "drop_scalar k (StringData xs) = StringData (drop k xs)"
| "drop_scalar k (BytesData xs) = BytesData (drop k xs)"
| "drop_scalar k (ArrayData xs t) = ArrayData (drop k xs) t"
| "drop_scalar k (JsonData xs) = JsonData (drop k xs)"
| "drop_scalar k SF_None = SF_None"

fun drop_vector :: "nat \<Rightarrow> int \<Rightarrow> VectorData \<Rightarrow> VectorData" where
  "drop_vector k dim (FloatVector fs) = FloatVector (drop (k * nat dim) fs)"
| "drop_vector k dim (BinaryVector bs) = BinaryVector (drop (k * nat (dim div 8)) bs)"
| "drop_vector k dim VF_None = VF_None"

definition rows_upto :: "nat \<Rightarrow> FieldData \<Rightarrow> FieldData" where
  "rows_upto k fd = fd\<lparr>fd_Field := (case fd_Field fd of
     Scalars s \<Rightarrow> Scalars (take_scalar k s) | Vectors dim v \<Rightarrow> Vectors dim (take_vector k dim v) | F_None \<Rightarrow> F_None)\<rparr>"

definition rows_from :: "nat \<Rightarrow> FieldData \<Rightarrow> FieldData" where
  "rows_from k fd = fd\<lparr>fd_Field := (case fd_Field fd of
     Scalars s \<Rightarrow> Scalars (drop_scalar k s) | Vectors dim v \<Rightarrow> Vectors dim (drop_vector k dim v) | F_None \<Rightarrow> F_None)\<rparr>"

text \<open>A column whose data is set, or that has none of either kind.\<close>

definition has_data :: "FieldData \<Rightarrow> bool" where
  "has_data fd \<longleftrightarrow> (case fd_Field fd of Scalars s \<Rightarrow> s \<noteq> SF_None | Vectors _ v \<Rightarrow> v \<noteq> VF_None | F_None \<Rightarrow> True)"

lemma merge_scalar_take_drop:
  "s \<noteq> SF_None \<Longrightarrow> merge_scalar (take_scalar k s) (drop_scalar k s) = Some s"
  by (cases s) simp_all

lemma merge_vector_take_drop:
  "v \<noteq> VF_None \<Longrightarrow> merge_vector (take_vector k dim v) (drop_vector k dim v) = Some v"
  by (cases v) simp_all

lemma merge_data_take_drop:
  "has_data fd \<Longrightarrow> merge_data (fd_Field (rows_upto k fd)) (fd_Field (rows_from k fd)) = Ok (Some (fd_Field fd))"
  by (auto simp: has_data_def rows_upto_def rows_from_def merge_scalar_take_drop merge_vector_take_drop
      split: Field.splits)

lemma rows_fields [simp]:
  "fd_FieldId (rows_upto k fd) = fd_FieldId fd" "fd_FieldId (rows_from k fd) = fd_FieldId fd"
  "fd_Field (rows_from k fd) = F_None \<longleftrightarrow> fd_Field fd = F_None"
  "(rows_upto k fd)\<lparr>fd_Field := fd_Field fd\<rparr> = fd"
  by (auto simp: rows_upto_def rows_from_def split: Field.splits)

lemma rows_upto_no_data [simp]: "fd_Field fd = F_None \<Longrightarrow> rows_upto k fd = fd"
  by (simp add: rows_upto_def)

section \<open>Merging puts the rows back\<close>

lemma find_last: "find P (xs @ [x]) = (case find P xs of None \<Rightarrow> if P x then Some x else None | Some y \<Rightarrow> Some y)"
  by (induction xs) auto

lemma last_pos_unique:
  assumes "distinct (map fd_FieldId cols)" and "i < length cols"
  shows "last_pos (fd_FieldId (cols ! i)) cols = Some i"
proof -
  have "find (\<lambda>j. fd_FieldId (cols ! j) = fd_FieldId (cols ! i)) xs = (if i \<in> set xs then Some i else None)"
    if "set xs \<subseteq> {..<length cols}" for xs
    using that assms by (induction xs) (auto simp: distinct_conv_nth)
  moreover have "set (rev [0..<length cols]) \<subseteq> {..<length cols}" by auto
  ultimately show ?thesis using assms(2) by (simp add: last_pos_def)
qed

lemma last_pos_None: "fieldId \<notin> set (map fd_FieldId cols) \<Longrightarrow> last_pos fieldId cols = None"
  by (auto simp: last_pos_def find_None_iff)

lemma merge_column_at:
  assumes "distinct (map fd_FieldId (pre @ rows_upto k fd # post))" and "has_data fd"
  shows "merge_column (pre @ rows_upto k fd # post) (rows_from k fd) = Ok (pre @ fd # post, None)"
proof (cases "fd_Field fd = F_None")
  case False
  have "last_pos (fd_FieldId fd) (pre @ rows_upto k fd # post) = Some (length pre)"
    using last_pos_unique [OF assms(1), of "length pre"] by simp
  with False show ?thesis by (simp add: merge_column_def merge_data_take_drop [OF assms(2)])
qed (simp add: merge_column_def)

lemma merge_columns_split:
  assumes "distinct (map fd_FieldId (pre @ cols))" and "\<forall>fd \<in> set cols. has_data fd"
  shows "merge_columns (pre @ map (rows_upto k) cols) (map (rows_from k) cols) = Ok (pre @ cols, None)"
  using assms
proof (induction cols arbitrary: pre)
  case (Cons fd cols)
  have ids: "map fd_FieldId (map (rows_upto k) cols) = map fd_FieldId cols" by simp
  have "merge_column (pre @ rows_upto k fd # map (rows_upto k) cols) (rows_from k fd)
      = Ok (pre @ fd # map (rows_upto k) cols, None)"
    using Cons.prems by (intro merge_column_at) (simp_all add: comp_def)
  then show ?case using Cons.IH [of "pre @ [fd]"] Cons.prems by simp
qed simp

text \<open>C25: Merging puts split columns back together: when the rows of columns with distinct ids are cut in two at any
  row, merging the columns of the second part into those of the first gives exactly the columns, whatever their
  kinds (arrays and vectors included), and no error.\<close>

theorem MergeFieldData_joins_split:
  assumes "distinct (map fd_FieldId cols)" and "list_all has_data cols"
  shows "MergeFieldData (map (rows_upto k) cols) (map (rows_from k) cols) = Ok (cols, None)"
  using merge_columns_split [of "[]" cols k] assms by (simp add: MergeFieldData_def list_all_iff)

theorem MergeFieldData_joins_split_witness:
  "MergeFieldData (map (rows_upto 1) sample_cols) (map (rows_from 1) sample_cols) = Ok (sample_cols, None)"
  by (rule MergeFieldData_joins_split) (simp_all add: sample_cols_def has_data_def)

text \<open>A column of the source whose id the destination does not have is merged into a column that the caller never
  sees: its rows are lost without an error.\<close>

lemma MergeFieldData_loses_new_column:
  assumes "fd_FieldId s \<notin> set (map fd_FieldId dst)" and "has_data s"
  shows "MergeFieldData dst [s] = Ok (dst, None)"
proof (cases "fd_Field s")
  case (Scalars x)
  then have "x \<noteq> SF_None" using assms(2) by (simp add: has_data_def)
  then show ?thesis using Scalars assms(1)
    by (cases x) (simp_all add: MergeFieldData_def merge_column_def last_pos_None fresh_column_def)
next
  case (Vectors dim v)
  then have "v \<noteq> VF_None" using assms(2) by (simp add: has_data_def)
  then show ?thesis using Vectors assms(1)
    by (cases v) (simp_all add: MergeFieldData_def merge_column_def last_pos_None fresh_column_def)
qed (simp add: MergeFieldData_def merge_column_def)

section \<open>Collecting the rows of a result\<close>

lemma empty_is_upto_0:
  assumes "GetNumRowOfFieldData fd = Ok n" and "0 \<le> topK"
  shows "prepare_column topK fd = Ok (rows_upto 0 fd)"
proof (cases "fd_Field fd")
  case (Scalars s)
  with assms show ?thesis
    by (cases s) (auto simp: prepare_column_def rows_upto_def GetNumRowOfFieldData.simps not_supported_def)
next
  case (Vectors dim v)
  with assms show ?thesis
    by (cases v) (auto simp: prepare_column_def rows_upto_def GetNumRowOfFieldData.simps not_supported_def
        float_rows binary_rows sdiv_nonneg not_less pos_imp_zdiv_nonneg_iff)
qed (use assms in \<open>simp add: GetNumRowOfFieldData.simps not_supported_def\<close>)

lemma Prepare_upto_0:
  "aligned n fds \<Longrightarrow> 0 \<le> topK \<Longrightarrow> PrepareResultFieldData fds topK = Ok (map (rows_upto 0) fds)"
  by (induction fds) (auto simp: empty_is_upto_0)

lemma append_field_upto:
  assumes "GetNumRowOfFieldData fd = Ok n" and "k < n"
  shows "\<exists>sz. append_field (Some (rows_upto k fd)) fd (int k) = Ok (Some (rows_upto (Suc k) fd), sz)"
proof (cases "fd_Field fd")
  case (Scalars s)
  with append_scalar_take [OF assms(1) Scalars assms(2)] show ?thesis
    by (auto simp: append_field_def rows_upto_def)
next
  case (Vectors dim v)
  with append_vector_take [OF assms(1) Vectors assms(2)] show ?thesis
    by (auto simp: append_field_def rows_upto_def)
qed (use assms in \<open>simp add: GetNumRowOfFieldData.simps not_supported_def\<close>)

lemma AppendFieldData_upto:
  "aligned n fds \<Longrightarrow> k < n \<Longrightarrow>
   \<exists>sz. AppendFieldData (map (Some \<circ> rows_upto k) fds) fds (int k) = Ok (map (Some \<circ> rows_upto (Suc k)) fds, sz)"
proof (induction fds)
  case (Cons fd fds)
  then obtain sz where "append_field (Some (rows_upto k fd)) fd (int k) = Ok (Some (rows_upto (Suc k) fd), sz)"
    using append_field_upto [of fd n k] by auto
  with Cons show ?case by auto
qed simp

definition collect_rows :: "FieldData list \<Rightarrow> int \<Rightarrow> nat \<Rightarrow> FieldData option list res" where
  "collect_rows fds topK k =
     bindO (PrepareResultFieldData fds topK) (\<lambda>cols.
       foldO (\<lambda>dst i. bindO (AppendFieldData dst fds (int i)) (\<lambda>(dst', _). Ok dst')) (map Some cols) [0..<k])"

lemma collect_rows_upto:
  assumes "aligned n fds" and "0 \<le> topK" and "k \<le> n"
  shows "collect_rows fds topK k = Ok (map (Some \<circ> rows_upto k) fds)"
  using assms(3)
proof (induction k)
  case 0
  show ?case by (simp add: collect_rows_def Prepare_upto_0 [OF assms(1,2)])
next
  case (Suc k)
  with AppendFieldData_upto [OF assms(1), of k] show ?case
    by (auto simp: collect_rows_def Prepare_upto_0 [OF assms(1,2)] foldO_append simp del: map_map comp_apply)
qed

lemma rows_upto_all:
  assumes "GetNumRowOfFieldData fd = Ok n"
  shows "rows_upto n fd = fd"
proof (cases "fd_Field fd")
  case (Scalars s)
  with assms show ?thesis
    by (cases s) (auto simp: rows_upto_def GetNumRowOfFieldData.simps not_supported_def fd_Field_upd_id)
next
  case (Vectors dim v)
  with assms show ?thesis
    by (cases v) (auto simp: rows_upto_def GetNumRowOfFieldData.simps not_supported_def float_rows binary_rows
        fd_Field_upd_id)
qed (use assms in \<open>simp add: GetNumRowOfFieldData.simps not_supported_def\<close>)

text \<open>The columns prepared for a result collect its rows: starting from \<open>PrepareResultFieldData\<close> and appending
  the rows 0, 1, ... of the sample gives after \<open>n\<close> appends exactly the sample, dynamic marks included.\<close>

theorem PrepareResultFieldData_collects:
  assumes "aligned n fds" and "0 \<le> topK"
  shows "collect_rows fds topK n = Ok (map Some fds)"
  using collect_rows_upto [OF assms, of n] assms(1) by (auto simp: aligned_def rows_upto_all)

theorem PrepareResultFieldData_collects_witness:
  "collect_rows sample_cols 10 2 = Ok (map Some sample_cols)"
  by (rule PrepareResultFieldData_collects [OF aligned_sample]) simp

section \<open>The selection picks the least head\<close>

text \<open>\<open>s\<close> is the first position of the least of the heads below the limit, \<open>- 1\<close> when there is none.\<close>

definition picks :: "(nat \<Rightarrow> 'k::linorder option) \<Rightarrow> 'k \<Rightarrow> nat \<Rightarrow> int \<Rightarrow> bool" where
  "picks head limit n s \<longleftrightarrow>
     (if s = - 1 then \<forall>j k. j < n \<longrightarrow> head j = Some k \<longrightarrow> limit \<le> k
      else \<exists>i k. i < n \<and> s = int i \<and> head i = Some k \<and> k < limit
        \<and> (\<forall>j k'. j < n \<longrightarrow> head j = Some k' \<longrightarrow> k \<le> k') \<and> (\<forall>j<i. head j \<noteq> Some k))"

text \<open>Both selections are the same loop: a state with the position selected so far and the key it was selected for,
  and a step that takes the i-th head when it is a candidate with a smaller key.\<close>

locale least_selection =
  fixes step :: "'s \<Rightarrow> nat \<Rightarrow> 's"
    and selected :: "'s \<Rightarrow> int"
    and best :: "'s \<Rightarrow> 'k::linorder"
    and drained :: "'s \<Rightarrow> bool"
    and head :: "nat \<Rightarrow> 'k option"
    and stops :: "nat \<Rightarrow> bool"
  assumes step_selected: "selected (step st i) = (case head i of None \<Rightarrow> selected st
      | Some k \<Rightarrow> if k < best st then int i else selected st)"
    and step_best: "best (step st i) = (case head i of None \<Rightarrow> best st
      | Some k \<Rightarrow> if k < best st then k else best st)"
    and step_drained: "drained (step st i) \<longleftrightarrow> drained st \<or> stops i"
begin

definition selects :: "'k \<Rightarrow> nat \<Rightarrow> 's \<Rightarrow> bool" where
  "selects limit n st \<longleftrightarrow>
     (\<forall>j k. j < n \<longrightarrow> head j = Some k \<longrightarrow> best st \<le> k)
   \<and> (if selected st = - 1 then best st = limit
      else best st < limit \<and> (\<exists>i<n. selected st = int i \<and> head i = Some (best st) \<and> (\<forall>j<i. head j \<noteq> Some (best st))))"

lemma selects_step:
  assumes "selects limit n st"
  shows "selects limit (Suc n) (step st n)"
proof (cases "\<exists>k. head n = Some k \<and> k < best st")
  case True
  then obtain k where k: "head n = Some k" "k < best st" by blast
  then have st': "selected (step st n) = int n" "best (step st n) = k"
    by (simp_all add: step_selected step_best)
  have low: "k < k'" if "j < n" "head j = Some k'" for j k'
    using assms that k(2) unfolding selects_def by (meson order_less_le_trans)
  have "k < limit" using assms k(2) by (auto simp: selects_def split: if_splits)
  moreover have "k \<le> k'" if "j < Suc n" "head j = Some k'" for j k'
    using low [of j k'] that k(1) by (auto simp: less_Suc_eq)
  moreover have "head j \<noteq> Some k" if "j < n" for j using low [of j k] that by auto
  ultimately show ?thesis unfolding selects_def st' using k(1) by auto
next
  case False
  then have st': "selected (step st n) = selected st" "best (step st n) = best st"
    by (auto simp: step_selected step_best split: option.splits)
  have "best st \<le> k" if "j < Suc n" "head j = Some k" for j k
    using assms that False by (auto simp: selects_def less_Suc_eq not_less)
  then show ?thesis using assms unfolding selects_def st' by (auto intro: less_SucI)
qed

lemma selects_loop:
  assumes "selected st = - 1"
  shows "selects (best st) n (foldl step st [0..<n])"
proof (induction n)
  case 0
  show ?case using assms by (simp add: selects_def)
next
  case (Suc n)
  then show ?case by (simp add: selects_step)
qed

lemma picks_loop:
  assumes "selected st = - 1"
  shows "picks head (best st) n (selected (foldl step st [0..<n]))"
  using selects_loop [OF assms, of n] unfolding selects_def picks_def by (auto split: if_splits)

lemma drained_loop: "drained (foldl step st [0..<n]) \<longleftrightarrow> drained st \<or> (\<exists>i<n. stops i)"
  by (induction n) (auto simp: step_drained less_Suc_eq)

end

lemma enumerate_upt: "enumerate 0 xs = map (\<lambda>i. (i, xs ! i)) [0..<length xs]"
  by (rule nth_equalityI) (simp_all add: nth_enumerate_eq)

lemma foldO_enumerate:
  assumes "\<forall>i < length xs. \<forall>st. f st (i, xs ! i) = Ok (g st i)"
  shows "foldO f st (enumerate 0 xs) = Ok (foldl g st [0..<length xs])"
proof -
  have "foldO f st (map (\<lambda>i. (i, xs ! i)) is) = Ok (foldl g st is)" if "\<forall>i \<in> set is. i < length xs" for "is"
    using that assms by (induction "is" arbitrary: st) auto
  then show ?thesis by (simp add: enumerate_upt)
qed

text \<open>The heads of results whose primary keys are integers, and of results whose primary keys are strings. A string
  key is marked by \<open>False\<close>, below the mark \<open>True\<close> under which the selection starts without any string.\<close>

fun int_ids :: "IDs option \<Rightarrow> int list" where
  "int_ids (Some (IntId xs)) = xs"
| "int_ids _ = []"

fun str_ids :: "IDs option \<Rightarrow> string list" where
  "str_ids (Some (StrId xs)) = xs"
| "str_ids _ = []"

definition row_at :: "'k list \<Rightarrow> int \<Rightarrow> 'k option" where
  "row_at xs cursor = (if cursor < int (length xs) then Some (xs ! nat cursor) else None)"

definition int_head :: "PKResult list \<Rightarrow> int list \<Rightarrow> nat \<Rightarrow> int option" where
  "int_head rs cs i = row_at (int_ids (GetIds (rs ! i))) (cs ! i)"

definition str_head :: "PKResult list \<Rightarrow> int list \<Rightarrow> nat \<Rightarrow> (bool \<times> string) option" where
  "str_head rs cs i = map_option (\<lambda>k. (False, k)) (row_at (str_ids (GetIds (rs ! i))) (cs ! i))"

text \<open>With timestamps the key is the primary key and, for equal primary keys, the negated timestamp.\<close>

definition with_ts :: "PKResult list \<Rightarrow> int list \<Rightarrow> (nat \<Rightarrow> 'k option) \<Rightarrow> nat \<Rightarrow> ('k \<times> int) option" where
  "with_ts rs cs head i = map_option (\<lambda>k. (k, - (GetTimestamps (rs ! i) ! nat (cs ! i)))) (head i)"

definition runs_dry :: "PKResult list \<Rightarrow> (nat \<Rightarrow> 'k option) \<Rightarrow> nat \<Rightarrow> bool" where
  "runs_dry rs head i \<longleftrightarrow> head i = None \<and> GetHasMoreResult (rs ! i)"

lemma with_ts_None [simp]: "with_ts rs cs head i = None \<longleftrightarrow> head i = None"
  by (simp add: with_ts_def)

lemma runs_dry_with_ts [simp]: "runs_dry rs (with_ts rs cs head) i \<longleftrightarrow> runs_dry rs head i"
  by (simp add: runs_dry_def)

text \<open>The steps over heads. \<open>take_int\<close> and the others record what was selected.\<close>

definition head_step :: "PKResult list \<Rightarrow> (nat \<Rightarrow> 'k option) \<Rightarrow> (Selection \<Rightarrow> 'k::linorder) \<Rightarrow>
    (Selection \<Rightarrow> nat \<Rightarrow> 'k \<Rightarrow> Selection) \<Rightarrow> Selection \<Rightarrow> nat \<Rightarrow> Selection" where
  "head_step rs head least pick st i =
     (case head i of
        None \<Rightarrow> if GetHasMoreResult (rs ! i) then st\<lparr>drainResult := True\<rparr> else st
      | Some k \<Rightarrow> if k < least st then pick st i k else st)"

definition take_int :: "Selection \<Rightarrow> nat \<Rightarrow> int \<Rightarrow> Selection" where
  "take_int st i k = st\<lparr>minIntPK := k, sel := int i\<rparr>"

definition take_str :: "Selection \<Rightarrow> nat \<Rightarrow> bool \<times> string \<Rightarrow> Selection" where
  "take_str st i k = st\<lparr>firstStr := fst k, minStrPK := snd k, sel := int i\<rparr>"

definition take_ts :: "(Selection \<Rightarrow> nat \<Rightarrow> 'k \<Rightarrow> Selection) \<Rightarrow> Selection \<Rightarrow> nat \<Rightarrow> 'k \<times> int \<Rightarrow> Selection" where
  "take_ts pick st i k = (pick st i (fst k))\<lparr>maxTimestamp := - snd k\<rparr>"

abbreviation least_str :: "Selection \<Rightarrow> bool \<times> string" where
  "least_str st \<equiv> (firstStr st, minStrPK st)"

abbreviation least_ts :: "(Selection \<Rightarrow> 'k) \<Rightarrow> Selection \<Rightarrow> 'k \<times> int" where
  "least_ts least st \<equiv> (least st, - maxTimestamp st)"

abbreviation int_step :: "PKResult list \<Rightarrow> int list \<Rightarrow> Selection \<Rightarrow> nat \<Rightarrow> Selection" where
  "int_step rs cs \<equiv> head_step rs (int_head rs cs) minIntPK take_int"

abbreviation str_step :: "PKResult list \<Rightarrow> int list \<Rightarrow> Selection \<Rightarrow> nat \<Rightarrow> Selection" where
  "str_step rs cs \<equiv> head_step rs (str_head rs cs) least_str take_str"

abbreviation int_ts_step :: "PKResult list \<Rightarrow> int list \<Rightarrow> Selection \<Rightarrow> nat \<Rightarrow> Selection" where
  "int_ts_step rs cs \<equiv> head_step rs (with_ts rs cs (int_head rs cs)) (least_ts minIntPK) (take_ts take_int)"

abbreviation str_ts_step :: "PKResult list \<Rightarrow> int list \<Rightarrow> Selection \<Rightarrow> nat \<Rightarrow> Selection" where
  "str_ts_step rs cs \<equiv> head_step rs (with_ts rs cs (str_head rs cs)) (least_ts least_str) (take_ts take_str)"

interpretation int_sel: least_selection "int_step rs cs" sel minIntPK drainResult "int_head rs cs" "runs_dry rs (int_head rs cs)"
  for rs :: "PKResult list" and cs :: "int list"
  by unfold_locales (auto simp: head_step_def take_int_def runs_dry_def split: option.splits)

interpretation str_sel: least_selection "str_step rs cs" sel least_str drainResult "str_head rs cs" "runs_dry rs (str_head rs cs)"
  for rs :: "PKResult list" and cs :: "int list"
  by unfold_locales (auto simp: head_step_def take_str_def runs_dry_def simp del: less_prod_simp with_ts_None runs_dry_with_ts split: option.splits)

interpretation int_ts_sel: least_selection "int_ts_step rs cs" sel "least_ts minIntPK" drainResult
    "with_ts rs cs (int_head rs cs)" "runs_dry rs (with_ts rs cs (int_head rs cs))"
  for rs :: "PKResult list" and cs :: "int list"
  by unfold_locales (auto simp: head_step_def take_ts_def take_int_def runs_dry_def simp del: less_prod_simp with_ts_None runs_dry_with_ts split: option.splits)

interpretation str_ts_sel: least_selection "str_ts_step rs cs" sel "least_ts least_str" drainResult
    "with_ts rs cs (str_head rs cs)" "runs_dry rs (with_ts rs cs (str_head rs cs))"
  for rs :: "PKResult list" and cs :: "int list"
  by unfold_locales (auto simp: head_step_def take_ts_def take_str_def runs_dry_def simp del: less_prod_simp with_ts_None runs_dry_with_ts split: option.splits)

text \<open>Results whose keys are all of one kind, one for each cursor, with no cursor before the first row. The second
  condition is for the selection with timestamps: a timestamp for every row.\<close>

definition cursors_ok :: "PKResult list \<Rightarrow> int list \<Rightarrow> bool" where
  "cursors_ok rs cs \<longleftrightarrow> length cs \<le> length rs \<and> (\<forall>c \<in> set cs. 0 \<le> c)"

fun has_int_ids :: "IDs option \<Rightarrow> bool" where
  "has_int_ids (Some (IntId xs)) = True" | "has_int_ids _ = False"

fun has_str_ids :: "IDs option \<Rightarrow> bool" where
  "has_str_ids (Some (StrId xs)) = True" | "has_str_ids _ = False"

definition int_results :: "PKResult list \<Rightarrow> int list \<Rightarrow> bool" where
  "int_results rs cs \<longleftrightarrow> cursors_ok rs cs \<and> (\<forall>r \<in> set rs. has_int_ids (GetIds r))"

definition str_results :: "PKResult list \<Rightarrow> int list \<Rightarrow> bool" where
  "str_results rs cs \<longleftrightarrow> cursors_ok rs cs \<and> (\<forall>r \<in> set rs. has_str_ids (GetIds r))"

definition timestamped :: "PKResult list \<Rightarrow> bool" where
  "timestamped rs \<longleftrightarrow> (\<forall>r \<in> set rs. length (int_ids (GetIds r) ) + length (str_ids (GetIds r)) \<le> length (GetTimestamps r))"

lemma cursors_okD:
  assumes "cursors_ok rs cs" and "i < length cs"
  shows "go_index rs (int i) = Ok (rs ! i)" "0 \<le> cs ! i" "rs ! i \<in> set rs"
  using assms by (auto simp: cursors_ok_def go_index_def)

lemma has_ids:
  "has_int_ids v \<Longrightarrow> \<exists>xs. v = Some (IntId xs)" "has_str_ids v \<Longrightarrow> \<exists>xs. v = Some (StrId xs)"
  by (cases v rule: has_int_ids.cases; simp) (cases v rule: has_str_ids.cases; simp)

lemma row_go_index: "0 \<le> c \<Longrightarrow> c < int (length xs) \<Longrightarrow> go_index xs c = Ok (xs ! nat c)"
  by (simp add: go_index_def)

lemma timestamp_at:
  assumes "timestamped rs" and "r \<in> set rs" and "0 \<le> c"
    and "c < int (length (int_ids (GetIds r)) + length (str_ids (GetIds r)))"
  shows "go_index (GetTimestamps r) c = Ok (GetTimestamps r ! nat c)"
  using assms by (intro row_go_index) (force simp: timestamped_def)+

lemma select_step_int:
  assumes "int_results rs cs" and "i < length cs"
  shows "select_step rs st (i, cs ! i) = Ok (int_step rs cs st i)"
proof -
  have ok: "cursors_ok rs cs" using assms(1) by (simp add: int_results_def)
  note r = cursors_okD [OF ok assms(2)]
  obtain xs where xs: "GetIds (rs ! i) = Some (IntId xs)" using has_ids(1) r(3) assms(1) unfolding int_results_def by blast
  show ?thesis
  proof (cases "cs ! i < int (length xs)")
    case True
    then show ?thesis
      by (simp add: select_step_def head_step_def int_head_def row_at_def take_int_def GetPK_def r(1) xs row_go_index [OF r(2) True])
  qed (simp add: select_step_def head_step_def int_head_def row_at_def take_int_def GetPK_def r(1) xs)
qed

lemma select_step_str:
  assumes "str_results rs cs" and "i < length cs"
  shows "select_step rs st (i, cs ! i) = Ok (str_step rs cs st i)"
proof -
  have ok: "cursors_ok rs cs" using assms(1) by (simp add: str_results_def)
  note r = cursors_okD [OF ok assms(2)]
  obtain xs where xs: "GetIds (rs ! i) = Some (StrId xs)" using has_ids(2) r(3) assms(1) unfolding str_results_def by blast
  show ?thesis
  proof (cases "cs ! i < int (length xs)")
    case True
    then show ?thesis
      by (simp add: select_step_def head_step_def str_head_def row_at_def take_str_def GetPK_def r(1) xs row_go_index [OF r(2) True])
  qed (simp add: select_step_def head_step_def str_head_def row_at_def take_str_def GetPK_def r(1) xs)
qed

lemma later_ts: "(k, - t) < (b, - m) \<longleftrightarrow> k < b \<or> k = b \<and> m < t" for k b t m :: int
  by auto

lemma select_ts_step_int:
  assumes "int_results rs cs" and "timestamped rs" and "i < length cs"
  shows "select_ts_step rs st (i, cs ! i) = Ok (int_ts_step rs cs st i)"
proof -
  have ok: "cursors_ok rs cs" using assms(1) by (simp add: int_results_def)
  note r = cursors_okD [OF ok assms(3)]
  obtain xs where xs: "GetIds (rs ! i) = Some (IntId xs)" using has_ids(1) r(3) assms(1) unfolding int_results_def by blast
  show ?thesis
  proof (cases "cs ! i < int (length xs)")
    case True
    then have "cs ! i < int (length (int_ids (GetIds (rs ! i))) + length (str_ids (GetIds (rs ! i))))" by (simp add: xs)
    note at = timestamp_at [OF assms(2) r(3,2) this] row_go_index [OF r(2) True]
    show ?thesis using True
      by (simp add: select_ts_step_def head_step_def with_ts_def int_head_def row_at_def take_ts_def take_int_def
        GetPK_def r(1) xs later_ts at del: less_prod_simp)
  qed (simp add: select_ts_step_def head_step_def with_ts_def int_head_def row_at_def GetPK_def r(1) xs)
qed

lemma select_ts_step_str:
  assumes "str_results rs cs" and "timestamped rs" and "i < length cs"
  shows "select_ts_step rs st (i, cs ! i) = Ok (str_ts_step rs cs st i)"
proof -
  have ok: "cursors_ok rs cs" using assms(1) by (simp add: str_results_def)
  note r = cursors_okD [OF ok assms(3)]
  obtain xs where xs: "GetIds (rs ! i) = Some (StrId xs)" using has_ids(2) r(3) assms(1) unfolding str_results_def by blast
  have key: "((False, k), - t) < (least_str st, - maxTimestamp st) \<longleftrightarrow>
      firstStr st \<or> k < minStrPK st \<or> k = minStrPK st \<and> t > maxTimestamp st" for k t
    by (cases "firstStr st") auto
  show ?thesis
  proof (cases "cs ! i < int (length xs)")
    case True
    then have "cs ! i < int (length (int_ids (GetIds (rs ! i))) + length (str_ids (GetIds (rs ! i))))" by (simp add: xs)
    note at = timestamp_at [OF assms(2) r(3,2) this] row_go_index [OF r(2) True]
    show ?thesis using True
      by (simp add: select_ts_step_def head_step_def with_ts_def str_head_def row_at_def take_ts_def take_str_def
        GetPK_def r(1) xs key at del: less_prod_simp)
  qed (simp add: select_ts_step_def head_step_def with_ts_def str_head_def row_at_def GetPK_def r(1) xs)
qed

lemma SelectMinPK_heads:
  "int_results rs cs \<Longrightarrow> SelectMinPK rs cs =
     (let st = foldl (int_step rs cs) initial_selection [0..<length cs] in Ok (sel st, drainResult st))"
  "str_results rs cs \<Longrightarrow> SelectMinPK rs cs =
     (let st = foldl (str_step rs cs) initial_selection [0..<length cs] in Ok (sel st, drainResult st))"
  using foldO_enumerate [of cs "select_step rs" "int_step rs cs"] foldO_enumerate [of cs "select_step rs" "str_step rs cs"]
  by (simp_all add: SelectMinPK_def Let_def select_step_int select_step_str)

lemma SelectMinPKWithTimestamp_heads:
  "int_results rs cs \<Longrightarrow> timestamped rs \<Longrightarrow> SelectMinPKWithTimestamp rs cs =
     (let st = foldl (int_ts_step rs cs) initial_selection [0..<length cs] in Ok (sel st, drainResult st))"
  "str_results rs cs \<Longrightarrow> timestamped rs \<Longrightarrow> SelectMinPKWithTimestamp rs cs =
     (let st = foldl (str_ts_step rs cs) initial_selection [0..<length cs] in Ok (sel st, drainResult st))"
  using foldO_enumerate [of cs "select_ts_step rs" "int_ts_step rs cs"]
    foldO_enumerate [of cs "select_ts_step rs" "str_ts_step rs cs"]
  by (simp_all add: SelectMinPKWithTimestamp_def Let_def select_ts_step_int select_ts_step_str)

lemma initial_selection_fields [simp]:
  "sel initial_selection = - 1" "drainResult initial_selection = False" "minIntPK initial_selection = MaxInt64"
  "maxTimestamp initial_selection = 0" "firstStr initial_selection = True" "minStrPK initial_selection = []"
  by (simp_all add: initial_selection_def)

text \<open>C24: Reducing sorted results, the position selected is that of the first of the results whose key at its cursor is
  the least. The keys are all integers or all strings, there is a result for each cursor, no cursor is before
  the first row, and the selection with timestamps has a timestamp for every row. Integer keys have a limit: without
  timestamps only keys below the largest 64-bit integer are candidates, and with them that key, too, where its
  timestamp is positive; string keys have none. The position is \<open>- 1\<close> when no result has a candidate. The
  reduction is told to stop exactly when a result has no row left at its cursor and has more to fetch. With
  timestamps, the least key with the largest timestamp is selected. No index is out of range.\<close>

theorem SelectMinPK_first_least:
  shows "(int_results rs cs \<longrightarrow>
      (\<exists>s. SelectMinPK rs cs = Ok (s, \<exists>i<length cs. runs_dry rs (int_head rs cs) i)
         \<and> picks (int_head rs cs) MaxInt64 (length cs) s)
      \<and> (timestamped rs \<longrightarrow> (\<exists>s. SelectMinPKWithTimestamp rs cs = Ok (s, \<exists>i<length cs. runs_dry rs (int_head rs cs) i)
         \<and> picks (with_ts rs cs (int_head rs cs)) (MaxInt64, 0) (length cs) s)))
    \<and> (str_results rs cs \<longrightarrow>
      (\<exists>s. SelectMinPK rs cs = Ok (s, \<exists>i<length cs. runs_dry rs (str_head rs cs) i)
         \<and> picks (str_head rs cs) (True, []) (length cs) s)
      \<and> (timestamped rs \<longrightarrow> (\<exists>s. SelectMinPKWithTimestamp rs cs = Ok (s, \<exists>i<length cs. runs_dry rs (str_head rs cs) i)
         \<and> picks (with_ts rs cs (str_head rs cs)) ((True, []), 0) (length cs) s)))"
  using int_sel.picks_loop [of initial_selection rs cs "length cs"] int_sel.drained_loop [of rs cs initial_selection "length cs"]
    int_ts_sel.picks_loop [of initial_selection rs cs "length cs"] int_ts_sel.drained_loop [of rs cs initial_selection "length cs"]
    str_sel.picks_loop [of initial_selection rs cs "length cs"] str_sel.drained_loop [of rs cs initial_selection "length cs"]
    str_ts_sel.picks_loop [of initial_selection rs cs "length cs"] str_ts_sel.drained_loop [of rs cs initial_selection "length cs"]
  by (simp add: SelectMinPK_heads SelectMinPKWithTimestamp_heads Let_def)

definition sample_results :: "PKResult list" where
  "sample_results =
     [\<lparr>GetIds = Some (IntId [3, 5]), GetHasMoreResult = False, GetTimestamps = [10, 10]\<rparr>,
      \<lparr>GetIds = Some (IntId [2, 5]), GetHasMoreResult = False, GetTimestamps = [10, 20]\<rparr>,
      \<lparr>GetIds = Some (IntId [1]), GetHasMoreResult = True, GetTimestamps = [10]\<rparr>]"

definition sample_str_results :: "PKResult list" where
  "sample_str_results =
     [\<lparr>GetIds = Some (StrId [''a'', ''c'']), GetHasMoreResult = False, GetTimestamps = [10, 10]\<rparr>,
      \<lparr>GetIds = Some (StrId [''b'']), GetHasMoreResult = True, GetTimestamps = [10]\<rparr>]"

theorem SelectMinPK_first_least_witness:
  "(\<exists>s. SelectMinPK sample_results [1, 1, 1] = Ok (s, \<exists>i<3. runs_dry sample_results (int_head sample_results [1, 1, 1]) i)
      \<and> picks (int_head sample_results [1, 1, 1]) MaxInt64 3 s)
   \<and> (\<exists>s. SelectMinPKWithTimestamp sample_str_results [1, 0] =
        Ok (s, \<exists>i<2. runs_dry sample_str_results (str_head sample_str_results [1, 0]) i)
      \<and> picks (with_ts sample_str_results [1, 0] (str_head sample_str_results [1, 0])) ((True, []), 0) 2 s)"
proof -
  have "int_results sample_results [1, 1, 1]" "str_results sample_str_results [1, 0]" "timestamped sample_str_results"
    by (simp_all add: int_results_def str_results_def timestamped_def cursors_ok_def sample_results_def sample_str_results_def)
  with SelectMinPK_first_least [of sample_results "[1, 1, 1]"] SelectMinPK_first_least [of sample_str_results "[1, 0]"]
  show ?thesis by (simp add: eval_nat_numeral)
qed

text \<open>The first of two equal keys is selected without timestamps, the later one with them; the largest integer is
  not selected without timestamps.\<close>

lemma SelectMinPK_sample:
  "SelectMinPK sample_results [1, 1, 1] = Ok (0, True)"
  "SelectMinPKWithTimestamp sample_results [1, 1, 1] = Ok (1, True)"
  "SelectMinPK sample_str_results [1, 0] = Ok (1, False)"
  "SelectMinPK [\<lparr>GetIds = Some (IntId [MaxInt64]), GetHasMoreResult = False, GetTimestamps = []\<rparr>] [0] = Ok (- 1, False)"
  "SelectMinPKWithTimestamp [\<lparr>GetIds = Some (IntId [MaxInt64]), GetHasMoreResult = False, GetTimestamps = [1]\<rparr>] [0] = Ok (0, False)"
  by code_simp+

end
