(* ===== verification/MerrWrap.thy ===== *)
theory MerrWrap
  imports Merr
begin

text \<open>
  The constructors of package \<open>merr\<close> (pkg/util/merr/utils.go): one \<open>WrapErr...\<close> function per situation, which
  puts the arguments into the message of a leaf error and, when the caller gives further messages, wraps the
  result with them; and the checks of a component's state.

  The arguments of type \<open>any\<close> are \<open>go_value\<close>s: what the format \<open>%v\<close> prints for them. A floating point number
  is its rendering. A variadic \<open>msg\<close> is a list.
\<close>

section \<open>Fields\<close>

datatype go_value = Str string | Num int | Nums "int list" | Rendered string

fun strings_Join :: "string list \<Rightarrow> string \<Rightarrow> string" where
  "strings_Join [] sep = []"
| "strings_Join [s] sep = s"
| "strings_Join (s # ss) sep = s @ sep @ strings_Join ss sep"

fun format_v :: "go_value \<Rightarrow> string" where
  "format_v (Str s) = s"
| "format_v (Num i) = string_of_int i"
| "format_v (Nums ns) = ''['' @ strings_Join (map string_of_int ns) '' '' @ '']''"
| "format_v (Rendered s) = s"

definition value_field :: "string \<Rightarrow> go_value \<Rightarrow> string" where
  "value_field name v = name @ ''='' @ format_v v"

definition bound_field :: "string \<Rightarrow> go_value \<Rightarrow> go_value \<Rightarrow> go_value \<Rightarrow> string" where
  "bound_field name v lower upper =
     format_v v @ '' out of range '' @ format_v lower @ '' <= '' @ name @ '' <= '' @ format_v upper"

text \<open>The leaf error of a name of the table.\<close>

definition leaf :: "string \<Rightarrow> milvusError" where
  "leaf name = (case map_of merr_table name of Some e \<Rightarrow> e | None \<Rightarrow> errUnexpected)"

text \<open>The further messages, joined, become a prefix.\<close>

definition join_msg :: "string \<Rightarrow> go_error \<Rightarrow> string list \<Rightarrow> go_error" where
  "join_msg sep err msg = (if msg \<noteq> [] then WrapErr (strings_Join msg sep) err else err)"

section \<open>Constructors\<close>

definition WrapErrServiceNotReady ::
  "string \<Rightarrow> int \<Rightarrow> string \<Rightarrow> string list \<Rightarrow> go_error" where
  "WrapErrServiceNotReady role sessionID state msg =
     join_msg ''->'' (wrapFieldsWithDesc (leaf ''ErrServiceNotReady'') state [value_field role (Num sessionID)]) msg"

definition WrapErrServiceUnavailable :: "string \<Rightarrow> string list \<Rightarrow> go_error" where
  "WrapErrServiceUnavailable reason msg =
     join_msg ''->'' (wrapFieldsWithDesc (leaf ''ErrServiceUnavailable'') reason []) msg"

definition WrapErrServiceMemoryLimitExceeded ::
  "go_value \<Rightarrow> go_value \<Rightarrow> string list \<Rightarrow> go_error" where
  "WrapErrServiceMemoryLimitExceeded predict limit msg =
     join_msg ''->'' (wrapFields (leaf ''ErrServiceMemoryLimitExceeded'')
        [value_field ''predict'' predict, value_field ''limit'' limit]) msg"

definition WrapErrServiceRequestLimitExceeded :: "int \<Rightarrow> string list \<Rightarrow> go_error" where
  "WrapErrServiceRequestLimitExceeded limit msg =
     join_msg ''->'' (wrapFields (leaf ''ErrServiceRequestLimitExceeded'') [value_field ''limit'' (Num limit)]) msg"

definition WrapErrServiceInternal :: "string \<Rightarrow> string list \<Rightarrow> go_error" where
  "WrapErrServiceInternal reason msg =
     join_msg ''->'' (wrapFieldsWithDesc (leaf ''ErrServiceInternal'') reason []) msg"

definition WrapErrServiceCrossClusterRouting ::
  "string \<Rightarrow> string \<Rightarrow> string list \<Rightarrow> go_error" where
  "WrapErrServiceCrossClusterRouting expectedCluster actualCluster msg =
     join_msg ''->'' (wrapFields (leaf ''ErrServiceCrossClusterRouting'')
        [value_field ''expectedCluster'' (Str expectedCluster), value_field ''actualCluster'' (Str actualCluster)]) msg"

definition WrapErrServiceDiskLimitExceeded ::
  "go_value \<Rightarrow> go_value \<Rightarrow> string list \<Rightarrow> go_error" where
  "WrapErrServiceDiskLimitExceeded predict limit msg =
     join_msg ''->'' (wrapFields (leaf ''ErrServiceDiskLimitExceeded'')
        [value_field ''predict'' predict, value_field ''limit'' limit]) msg"

definition WrapErrServiceRateLimit :: "go_value \<Rightarrow> string list \<Rightarrow> go_error" where
  "WrapErrServiceRateLimit rate msg =
     join_msg ''->'' (wrapFields (leaf ''ErrServiceRateLimit'') [value_field ''rate'' rate]) msg"

definition WrapErrServiceQuotaExceeded :: "string \<Rightarrow> string list \<Rightarrow> go_error" where
  "WrapErrServiceQuotaExceeded reason msg =
     join_msg ''->'' (wrapFields (leaf ''ErrServiceQuotaExceeded'') [value_field ''reason'' (Str reason)]) msg"

definition WrapErrDatabaseNotFound :: "go_value \<Rightarrow> string list \<Rightarrow> go_error" where
  "WrapErrDatabaseNotFound database msg =
     join_msg ''->'' (wrapFields (leaf ''ErrDatabaseNotFound'') [value_field ''database'' database]) msg"

definition WrapErrDatabaseNumLimitExceeded :: "int \<Rightarrow> string list \<Rightarrow> go_error" where
  "WrapErrDatabaseNumLimitExceeded limit msg =
     join_msg ''->'' (wrapFields (leaf ''ErrDatabaseNumLimitExceeded'') [value_field ''limit'' (Num limit)]) msg"

definition WrapErrDatabaseNameInvalid :: "go_value \<Rightarrow> string list \<Rightarrow> go_error" where
  "WrapErrDatabaseNameInvalid database msg =
     join_msg ''->'' (wrapFields (leaf ''ErrDatabaseInvalidName'') [value_field ''database'' database]) msg"

definition WrapErrCollectionNotFound :: "go_value \<Rightarrow> string list \<Rightarrow> go_error" where
  "WrapErrCollectionNotFound collection msg =
     join_msg ''->'' (wrapFields (leaf ''ErrCollectionNotFound'') [value_field ''collection'' collection]) msg"

definition WrapErrCollectionNotFoundWithDB ::
  "go_value \<Rightarrow> go_value \<Rightarrow> string list \<Rightarrow> go_error" where
  "WrapErrCollectionNotFoundWithDB db collection msg =
     join_msg ''->'' (wrapFields (leaf ''ErrCollectionNotFound'')
        [value_field ''database'' db, value_field ''collection'' collection]) msg"

definition WrapErrCollectionNotLoaded :: "go_value \<Rightarrow> string list \<Rightarrow> go_error" where
  "WrapErrCollectionNotLoaded collection msg =
     join_msg ''->'' (wrapFields (leaf ''ErrCollectionNotLoaded'') [value_field ''collection'' collection]) msg"

definition WrapErrCollectionNumLimitExceeded :: "int \<Rightarrow> string list \<Rightarrow> go_error" where
  "WrapErrCollectionNumLimitExceeded limit msg =
     join_msg ''->'' (wrapFields (leaf ''ErrCollectionNumLimitExceeded'') [value_field ''limit'' (Num limit)]) msg"

definition WrapErrCollectionIDOfAliasNotFound :: "int \<Rightarrow> string list \<Rightarrow> go_error" where
  "WrapErrCollectionIDOfAliasNotFound collectionID msg =
     join_msg ''; '' (wrapFields (leaf ''ErrCollectionIDOfAliasNotFound'')
        [value_field ''collectionID'' (Num collectionID)]) msg"

definition WrapErrCollectionNotFullyLoaded :: "go_value \<Rightarrow> string list \<Rightarrow> go_error" where
  "WrapErrCollectionNotFullyLoaded collection msg =
     join_msg ''->'' (wrapFields (leaf ''ErrCollectionNotFullyLoaded'') [value_field ''collection'' collection]) msg"

definition WrapErrAliasNotFound ::
  "go_value \<Rightarrow> go_value \<Rightarrow> string list \<Rightarrow> go_error" where
  "WrapErrAliasNotFound db alias msg =
     join_msg ''->'' (wrapFields (leaf ''ErrAliasNotFound'')
        [value_field ''database'' db, value_field ''alias'' alias]) msg"

definition WrapErrAliasCollectionNameConflict ::
  "go_value \<Rightarrow> go_value \<Rightarrow> string list \<Rightarrow> go_error" where
  "WrapErrAliasCollectionNameConflict db alias msg =
     join_msg ''->'' (wrapFields (leaf ''ErrAliasCollectionNameConfilct'')
        [value_field ''database'' db, value_field ''alias'' alias]) msg"

definition WrapErrAliasAlreadyExist ::
  "go_value \<Rightarrow> go_value \<Rightarrow> string list \<Rightarrow> go_error" where
  "WrapErrAliasAlreadyExist db alias msg =
     join_msg ''->'' (wrapFields (leaf ''ErrAliasAlreadyExist'')
        [value_field ''database'' db, value_field ''alias'' alias]) msg"

definition WrapErrPartitionNotFound :: "go_value \<Rightarrow> string list \<Rightarrow> go_error" where
  "WrapErrPartitionNotFound partition' msg =
     join_msg ''->'' (wrapFields (leaf ''ErrPartitionNotFound'') [value_field ''partition'' partition']) msg"

definition WrapErrPartitionNotLoaded :: "go_value \<Rightarrow> string list \<Rightarrow> go_error" where
  "WrapErrPartitionNotLoaded partition' msg =
     join_msg ''->'' (wrapFields (leaf ''ErrPartitionNotLoaded'') [value_field ''partition'' partition']) msg"

definition WrapErrPartitionNotFullyLoaded :: "go_value \<Rightarrow> string list \<Rightarrow> go_error" where
  "WrapErrPartitionNotFullyLoaded partition' msg =
     join_msg ''->'' (wrapFields (leaf ''ErrPartitionNotFullyLoaded'') [value_field ''partition'' partition']) msg"

definition WrapGeneralCapacityExceed ::
  "go_value \<Rightarrow> go_value \<Rightarrow> string list \<Rightarrow> go_error" where
  "WrapGeneralCapacityExceed newGeneralSize generalCapacity msg =
     join_msg ''->'' (wrapFields (leaf ''ErrGeneralCapacityExceeded'')
        [value_field ''newGeneralSize'' newGeneralSize, value_field ''generalCapacity'' generalCapacity]) msg"

definition WrapErrResourceGroupNotFound :: "go_value \<Rightarrow> string list \<Rightarrow> go_error" where
  "WrapErrResourceGroupNotFound rg msg =
     join_msg ''->'' (wrapFields (leaf ''ErrResourceGroupNotFound'') [value_field ''rg'' rg]) msg"

definition WrapErrReplicaNotFound :: "int \<Rightarrow> string list \<Rightarrow> go_error" where
  "WrapErrReplicaNotFound id' msg =
     join_msg ''->'' (wrapFields (leaf ''ErrReplicaNotFound'') [value_field ''replica'' (Num id')]) msg"

definition WrapErrReplicaNotAvailable :: "int \<Rightarrow> string list \<Rightarrow> go_error" where
  "WrapErrReplicaNotAvailable id' msg =
     join_msg ''->'' (wrapFields (leaf ''ErrReplicaNotAvailable'') [value_field ''replica'' (Num id')]) msg"

definition WrapErrChannelNotFound :: "string \<Rightarrow> string list \<Rightarrow> go_error" where
  "WrapErrChannelNotFound name msg =
     join_msg ''->'' (wrapFields (leaf ''ErrChannelNotFound'') [value_field ''channel'' (Str name)]) msg"

definition WrapErrChannelLack :: "string \<Rightarrow> string list \<Rightarrow> go_error" where
  "WrapErrChannelLack name msg =
     join_msg ''->'' (wrapFields (leaf ''ErrChannelLack'') [value_field ''channel'' (Str name)]) msg"

definition WrapErrChannelReduplicate :: "string \<Rightarrow> string list \<Rightarrow> go_error" where
  "WrapErrChannelReduplicate name msg =
     join_msg ''->'' (wrapFields (leaf ''ErrChannelReduplicate'') [value_field ''channel'' (Str name)]) msg"

definition WrapErrChannelNotAvailable :: "string \<Rightarrow> string list \<Rightarrow> go_error" where
  "WrapErrChannelNotAvailable name msg =
     join_msg ''->'' (wrapFields (leaf ''ErrChannelNotAvailable'') [value_field ''channel'' (Str name)]) msg"

definition WrapErrSegmentNotFound :: "int \<Rightarrow> string list \<Rightarrow> go_error" where
  "WrapErrSegmentNotFound id' msg =
     join_msg ''->'' (wrapFields (leaf ''ErrSegmentNotFound'') [value_field ''segment'' (Num id')]) msg"

definition WrapErrSegmentsNotFound :: "int list \<Rightarrow> string list \<Rightarrow> go_error" where
  "WrapErrSegmentsNotFound ids msg =
     join_msg ''->'' (wrapFields (leaf ''ErrSegmentNotFound'') [value_field ''segments'' (Nums ids)]) msg"

definition WrapErrSegmentNotLoaded :: "int \<Rightarrow> string list \<Rightarrow> go_error" where
  "WrapErrSegmentNotLoaded id' msg =
     join_msg ''->'' (wrapFields (leaf ''ErrSegmentNotLoaded'') [value_field ''segment'' (Num id')]) msg"

definition WrapErrSegmentLack :: "int \<Rightarrow> string list \<Rightarrow> go_error" where
  "WrapErrSegmentLack id' msg =
     join_msg ''->'' (wrapFields (leaf ''ErrSegmentLack'') [value_field ''segment'' (Num id')]) msg"

definition WrapErrSegmentReduplicate :: "int \<Rightarrow> string list \<Rightarrow> go_error" where
  "WrapErrSegmentReduplicate id' msg =
     join_msg ''->'' (wrapFields (leaf ''ErrSegmentReduplicate'') [value_field ''segment'' (Num id')]) msg"

definition WrapErrIndexNotFound :: "string \<Rightarrow> string list \<Rightarrow> go_error" where
  "WrapErrIndexNotFound indexName msg =
     join_msg ''->'' (wrapFields (leaf ''ErrIndexNotFound'') [value_field ''indexName'' (Str indexName)]) msg"

definition WrapErrIndexNotFoundForSegment :: "int \<Rightarrow> string list \<Rightarrow> go_error" where
  "WrapErrIndexNotFoundForSegment segmentID msg =
     join_msg ''->'' (wrapFields (leaf ''ErrIndexNotFound'') [value_field ''segmentID'' (Num segmentID)]) msg"

definition WrapErrIndexNotFoundForCollection :: "string \<Rightarrow> string list \<Rightarrow> go_error" where
  "WrapErrIndexNotFoundForCollection collection msg =
     join_msg ''->'' (wrapFields (leaf ''ErrIndexNotFound'') [value_field ''collection'' (Str collection)]) msg"

definition WrapErrIndexNotSupported :: "string \<Rightarrow> string list \<Rightarrow> go_error" where
  "WrapErrIndexNotSupported indexType msg =
     join_msg ''->'' (wrapFields (leaf ''ErrIndexNotSupported'') [value_field ''indexType'' (Str indexType)]) msg"

definition WrapErrIndexDuplicate :: "string \<Rightarrow> string list \<Rightarrow> go_error" where
  "WrapErrIndexDuplicate indexName msg =
     join_msg ''->'' (wrapFields (leaf ''ErrIndexDuplicate'') [value_field ''indexName'' (Str indexName)]) msg"

definition WrapErrNodeNotFound :: "int \<Rightarrow> string list \<Rightarrow> go_error" where
  "WrapErrNodeNotFound id' msg =
     join_msg ''->'' (wrapFields (leaf ''ErrNodeNotFound'') [value_field ''node'' (Num id')]) msg"

definition WrapErrNodeOffline :: "int \<Rightarrow> string list \<Rightarrow> go_error" where
  "WrapErrNodeOffline id' msg =
     join_msg ''->'' (wrapFields (leaf ''ErrNodeOffline'') [value_field ''node'' (Num id')]) msg"

definition WrapErrNodeLack :: "int \<Rightarrow> int \<Rightarrow> string list \<Rightarrow> go_error" where
  "WrapErrNodeLack expectedNum actualNum msg =
     join_msg ''->'' (wrapFields (leaf ''ErrNodeLack'')
        [value_field ''expectedNum'' (Num expectedNum), value_field ''actualNum'' (Num actualNum)]) msg"

definition WrapErrNodeNotAvailable :: "int \<Rightarrow> string list \<Rightarrow> go_error" where
  "WrapErrNodeNotAvailable id' msg =
     join_msg ''->'' (wrapFields (leaf ''ErrNodeNotAvailable'') [value_field ''node'' (Num id')]) msg"

definition WrapErrNodeStateUnexpected ::
  "int \<Rightarrow> string \<Rightarrow> string list \<Rightarrow> go_error" where
  "WrapErrNodeStateUnexpected id' state msg =
     join_msg ''->'' (wrapFields (leaf ''ErrNodeStateUnexpected'')
        [value_field ''node'' (Num id'), value_field ''state'' (Str state)]) msg"

definition WrapErrNodeNotMatch :: "int \<Rightarrow> int \<Rightarrow> string list \<Rightarrow> go_error" where
  "WrapErrNodeNotMatch expectedNodeID actualNodeID msg =
     join_msg ''->'' (wrapFields (leaf ''ErrNodeNotMatch'')
        [value_field ''expectedNodeID'' (Num expectedNodeID), value_field ''actualNodeID'' (Num actualNodeID)]) msg"

definition WrapErrIoKeyNotFound :: "string \<Rightarrow> string list \<Rightarrow> go_error" where
  "WrapErrIoKeyNotFound key msg =
     join_msg ''->'' (wrapFields (leaf ''ErrIoKeyNotFound'') [value_field ''key'' (Str key)]) msg"

definition WrapErrIoFailedReason :: "string \<Rightarrow> string list \<Rightarrow> go_error" where
  "WrapErrIoFailedReason reason msg =
     join_msg ''->'' (wrapFieldsWithDesc (leaf ''ErrIoFailed'') reason []) msg"

definition WrapErrParameterInvalid ::
  "go_value \<Rightarrow> go_value \<Rightarrow> string list \<Rightarrow> go_error" where
  "WrapErrParameterInvalid expected actual msg =
     join_msg ''->'' (wrapFields (leaf ''ErrParameterInvalid'')
        [value_field ''expected'' expected, value_field ''actual'' actual]) msg"

definition WrapErrParameterInvalidRange ::
  "go_value \<Rightarrow> go_value \<Rightarrow> go_value \<Rightarrow> string list \<Rightarrow> go_error" where
  "WrapErrParameterInvalidRange lower upper actual msg =
     join_msg ''->'' (wrapFields (leaf ''ErrParameterInvalid'') [bound_field ''value'' actual lower upper]) msg"

definition WrapErrParameterMissing :: "go_value \<Rightarrow> string list \<Rightarrow> go_error" where
  "WrapErrParameterMissing param msg =
     join_msg ''->'' (wrapFields (leaf ''ErrParameterMissing'') [value_field ''missing_param'' param]) msg"

definition WrapErrMetricNotFound :: "string \<Rightarrow> string list \<Rightarrow> go_error" where
  "WrapErrMetricNotFound name msg =
     join_msg ''->'' (wrapFields (leaf ''ErrMetricNotFound'') [value_field ''metric'' (Str name)]) msg"

definition WrapErrMqTopicNotFound :: "string \<Rightarrow> string list \<Rightarrow> go_error" where
  "WrapErrMqTopicNotFound name msg =
     join_msg ''->'' (wrapFields (leaf ''ErrMqTopicNotFound'') [value_field ''topic'' (Str name)]) msg"

definition WrapErrMqTopicNotEmpty :: "string \<Rightarrow> string list \<Rightarrow> go_error" where
  "WrapErrMqTopicNotEmpty name msg =
     join_msg ''->'' (wrapFields (leaf ''ErrMqTopicNotEmpty'') [value_field ''topic'' (Str name)]) msg"

definition WrapErrSegcore :: "int \<Rightarrow> string list \<Rightarrow> go_error" where
  "WrapErrSegcore code msg =
     join_msg ''->'' (wrapFields (leaf ''ErrSegcore'') [value_field ''segcoreCode'' (Num code)]) msg"

definition WrapErrFieldNotFound :: "go_value \<Rightarrow> string list \<Rightarrow> go_error" where
  "WrapErrFieldNotFound field msg =
     join_msg ''->'' (wrapFields (leaf ''ErrFieldNotFound'') [value_field ''field'' field]) msg"

definition WrapErrFieldNameInvalid :: "go_value \<Rightarrow> string list \<Rightarrow> go_error" where
  "WrapErrFieldNameInvalid field msg =
     join_msg ''->'' (wrapFields (leaf ''ErrFieldInvalidName'') [value_field ''field'' field]) msg"

text \<open>The constructors of another shape: without fields, with the text of another error, or with a format that
  the caller's library renders. A nil error is \<open>None\<close>.\<close>

definition WrapErrServiceUnimplemented :: "go_error \<Rightarrow> go_error" where
  "WrapErrServiceUnimplemented grpcErr = wrapFieldsWithDesc (leaf ''ErrServiceUnimplemented'') (Error_string grpcErr) []"

definition WrapErrNodeLackAny :: "string list \<Rightarrow> go_error" where
  "WrapErrNodeLackAny msg = join_msg ''->'' (MilvusErr (leaf ''ErrNodeLack'')) msg"

definition WrapErrIoFailed :: "string \<Rightarrow> go_error option \<Rightarrow> go_error option" where
  "WrapErrIoFailed key err =
     map_option (\<lambda>e. wrapFieldsWithDesc (leaf ''ErrIoFailed'') (Error_string e) [value_field ''key'' (Str key)]) err"

definition WrapErrIoUnexpectEOF :: "string \<Rightarrow> go_error option \<Rightarrow> go_error option" where
  "WrapErrIoUnexpectEOF key err =
     map_option (\<lambda>e. wrapFieldsWithDesc (leaf ''ErrIoUnexpectEOF'') (Error_string e) [value_field ''key'' (Str key)]) err"

definition WrapErrParameterInvalidMsg :: "string \<Rightarrow> go_error" where
  "WrapErrParameterInvalidMsg rendered = WrapErr rendered (MilvusErr (leaf ''ErrParameterInvalid''))"

definition WrapErrMqInternal :: "go_error \<Rightarrow> string list \<Rightarrow> go_error" where
  "WrapErrMqInternal err msg =
     join_msg ''->'' (wrapFieldsWithDesc (leaf ''ErrMqInternal'') (Error_string err) []) msg"

definition WrapErrPrivilegeNotAuthenticated :: "string \<Rightarrow> go_error" where
  "WrapErrPrivilegeNotAuthenticated rendered = WrapErr rendered (MilvusErr (leaf ''ErrPrivilegeNotAuthenticated''))"

definition WrapErrPrivilegeNotPermitted :: "string \<Rightarrow> go_error" where
  "WrapErrPrivilegeNotPermitted rendered = WrapErr rendered (MilvusErr (leaf ''ErrPrivilegeNotPermitted''))"

definition WrapErrImportFailed :: "string list \<Rightarrow> go_error" where
  "WrapErrImportFailed msg = join_msg ''->'' (MilvusErr (leaf ''ErrImportFailed'')) msg"

definition WrapErrInconsistentRequery :: "string list \<Rightarrow> go_error" where
  "WrapErrInconsistentRequery msg = join_msg ''->'' (MilvusErr (leaf ''ErrInconsistentRequery'')) msg"

section \<open>Statuses and the state of a component\<close>

datatype rpc_response = NilResponse | HasStatus Status | NoStatus

definition CheckRPCCall :: "rpc_response \<Rightarrow> go_error option \<Rightarrow> go_error option" where
  "CheckRPCCall resp err =
     (case err of
        Some e \<Rightarrow> Some e
      | None \<Rightarrow> (case resp of
          NilResponse \<Rightarrow> Some (MilvusErr errUnexpected)
        | HasStatus status \<Rightarrow> Status_Error status
        | NoStatus \<Rightarrow> None))"

definition Success :: "string list \<Rightarrow> Status" where
  "Success reason = (mk_Status None)\<lparr>st_Reason := strings_Join reason '' ''\<rparr>"

definition StatusWithErrorCode :: "go_error option \<Rightarrow> ErrorCode \<Rightarrow> Status" where
  "StatusWithErrorCode err code =
     (case err of
        None \<Rightarrow> mk_Status None
      | Some e \<Rightarrow> \<lparr>st_Code = Code err, st_Reason = Error_string e, st_ErrorCode = code, st_Retriable = False,
                   st_Detail = []\<rparr>)"

definition SegcoreError :: "int \<Rightarrow> string \<Rightarrow> milvusError" where
  "SegcoreError code msg = newMilvusError msg code False"

datatype StateCode = Initializing | Healthy | Abnormal | StandBy | Stopping | SC_Other string

fun state_string :: "StateCode \<Rightarrow> string" where
  "state_string Initializing = ''Initializing''"
| "state_string Healthy = ''Healthy''"
| "state_string Abnormal = ''Abnormal''"
| "state_string StandBy = ''StandBy''"
| "state_string Stopping = ''Stopping''"
| "state_string (SC_Other s) = s"

text \<open>The role and the id of the node are those of the parameter table.\<close>

definition CheckHealthy :: "string \<Rightarrow> int \<Rightarrow> StateCode \<Rightarrow> go_error option" where
  "CheckHealthy role nodeID state =
     (if state \<noteq> Healthy then Some (WrapErrServiceNotReady role nodeID (state_string state) []) else None)"

definition CheckHealthyStandby :: "string \<Rightarrow> int \<Rightarrow> StateCode \<Rightarrow> go_error option" where
  "CheckHealthyStandby role nodeID state =
     (if state \<noteq> Healthy \<and> state \<noteq> StandBy
      then Some (WrapErrServiceNotReady role nodeID (state_string state) []) else None)"

definition IsHealthy :: "string \<Rightarrow> int \<Rightarrow> StateCode \<Rightarrow> go_error option" where
  "IsHealthy role nodeID stateCode = (if stateCode = Healthy then None else CheckHealthy role nodeID stateCode)"

definition IsHealthyOrStopping :: "string \<Rightarrow> int \<Rightarrow> StateCode \<Rightarrow> go_error option" where
  "IsHealthyOrStopping role nodeID stateCode =
     (if stateCode = Healthy \<or> stateCode = Stopping then None else CheckHealthy role nodeID stateCode)"

definition AnalyzeState :: "string \<Rightarrow> int \<Rightarrow> Status \<Rightarrow> StateCode \<Rightarrow> go_error option" where
  "AnalyzeState role nodeID status state =
     (case Status_Error status of
        Some err \<Rightarrow> Some (WrapErr (role @ ''='' @ string_of_int nodeID @ '' not healthy'') err)
      | None \<Rightarrow> if state \<noteq> Healthy then Some (WrapErrServiceNotReady role nodeID (state_string state) []) else None)"

definition CheckTargetID :: "int \<Rightarrow> int \<Rightarrow> go_error option" where
  "CheckTargetID nodeID targetID = (if targetID \<noteq> nodeID then Some (WrapErrNodeNotMatch nodeID targetID []) else None)"

section \<open>What a constructor keeps of its leaf error\<close>

text \<open>The constructors that take further messages, with the name of the leaf each stands for.\<close>

definition wrappers ::
  "string \<Rightarrow> string \<Rightarrow> go_value \<Rightarrow> go_value \<Rightarrow> go_value \<Rightarrow> int \<Rightarrow> int \<Rightarrow> int list \<Rightarrow> go_error \<Rightarrow>
     (string \<times> (string list \<Rightarrow> go_error)) list" where
  "wrappers s t v u x i k js e = [
    (''ErrServiceNotReady'', WrapErrServiceNotReady s i t),
    (''ErrServiceUnavailable'', WrapErrServiceUnavailable s),
    (''ErrServiceMemoryLimitExceeded'', WrapErrServiceMemoryLimitExceeded v u),
    (''ErrServiceRequestLimitExceeded'', WrapErrServiceRequestLimitExceeded i),
    (''ErrServiceInternal'', WrapErrServiceInternal s),
    (''ErrServiceCrossClusterRouting'', WrapErrServiceCrossClusterRouting s t),
    (''ErrServiceDiskLimitExceeded'', WrapErrServiceDiskLimitExceeded v u),
    (''ErrServiceRateLimit'', WrapErrServiceRateLimit v),
    (''ErrServiceQuotaExceeded'', WrapErrServiceQuotaExceeded s),
    (''ErrDatabaseNotFound'', WrapErrDatabaseNotFound v),
    (''ErrDatabaseNumLimitExceeded'', WrapErrDatabaseNumLimitExceeded i),
    (''ErrDatabaseInvalidName'', WrapErrDatabaseNameInvalid v),
    (''ErrCollectionNotFound'', WrapErrCollectionNotFound v),
    (''ErrCollectionNotFound'', WrapErrCollectionNotFoundWithDB v u),
    (''ErrCollectionNotLoaded'', WrapErrCollectionNotLoaded v),
    (''ErrCollectionNumLimitExceeded'', WrapErrCollectionNumLimitExceeded i),
    (''ErrCollectionIDOfAliasNotFound'', WrapErrCollectionIDOfAliasNotFound i),
    (''ErrCollectionNotFullyLoaded'', WrapErrCollectionNotFullyLoaded v),
    (''ErrAliasNotFound'', WrapErrAliasNotFound v u),
    (''ErrAliasCollectionNameConfilct'', WrapErrAliasCollectionNameConflict v u),
    (''ErrAliasAlreadyExist'', WrapErrAliasAlreadyExist v u),
    (''ErrPartitionNotFound'', WrapErrPartitionNotFound v),
    (''ErrPartitionNotLoaded'', WrapErrPartitionNotLoaded v),
    (''ErrPartitionNotFullyLoaded'', WrapErrPartitionNotFullyLoaded v),
    (''ErrGeneralCapacityExceeded'', WrapGeneralCapacityExceed v u),
    (''ErrResourceGroupNotFound'', WrapErrResourceGroupNotFound v),
    (''ErrReplicaNotFound'', WrapErrReplicaNotFound i),
    (''ErrReplicaNotAvailable'', WrapErrReplicaNotAvailable i),
    (''ErrChannelNotFound'', WrapErrChannelNotFound s),
    (''ErrChannelLack'', WrapErrChannelLack s),
    (''ErrChannelReduplicate'', WrapErrChannelReduplicate s),
    (''ErrChannelNotAvailable'', WrapErrChannelNotAvailable s),
    (''ErrSegmentNotFound'', WrapErrSegmentNotFound i),
    (''ErrSegmentNotFound'', WrapErrSegmentsNotFound js),
    (''ErrSegmentNotLoaded'', WrapErrSegmentNotLoaded i),
    (''ErrSegmentLack'', WrapErrSegmentLack i),
    (''ErrSegmentReduplicate'', WrapErrSegmentReduplicate i),
    (''ErrIndexNotFound'', WrapErrIndexNotFound s),
    (''ErrIndexNotFound'', WrapErrIndexNotFoundForSegment i),
    (''ErrIndexNotFound'', WrapErrIndexNotFoundForCollection s),
    (''ErrIndexNotSupported'', WrapErrIndexNotSupported s),
    (''ErrIndexDuplicate'', WrapErrIndexDuplicate s),
    (''ErrNodeNotFound'', WrapErrNodeNotFound i),
    (''ErrNodeOffline'', WrapErrNodeOffline i),
    (''ErrNodeLack'', WrapErrNodeLack i k),
    (''ErrNodeNotAvailable'', WrapErrNodeNotAvailable i),
    (''ErrNodeStateUnexpected'', WrapErrNodeStateUnexpected i s),
    (''ErrNodeNotMatch'', WrapErrNodeNotMatch i k),
    (''ErrIoKeyNotFound'', WrapErrIoKeyNotFound s),
    (''ErrIoFailed'', WrapErrIoFailedReason s),
    (''ErrParameterInvalid'', WrapErrParameterInvalid v u),
    (''ErrParameterInvalid'', WrapErrParameterInvalidRange v u x),
    (''ErrParameterMissing'', WrapErrParameterMissing v),
    (''ErrMetricNotFound'', WrapErrMetricNotFound s),
    (''ErrMqTopicNotFound'', WrapErrMqTopicNotFound s),
    (''ErrMqTopicNotEmpty'', WrapErrMqTopicNotEmpty s),
    (''ErrSegcore'', WrapErrSegcore i),
    (''ErrFieldNotFound'', WrapErrFieldNotFound v),
    (''ErrFieldInvalidName'', WrapErrFieldNameInvalid v),
    (''ErrNodeLack'', WrapErrNodeLackAny),
    (''ErrMqInternal'', WrapErrMqInternal e),
    (''ErrImportFailed'', WrapErrImportFailed),
    (''ErrInconsistentRequery'', WrapErrInconsistentRequery)]"

text \<open>The constructors that take no further messages, with the texts they wrap their leaf with: the arguments of the
  last three are the format's, rendered.\<close>

definition plain_wrappers :: "string \<Rightarrow> go_error \<Rightarrow> (string \<times> string list \<times> go_error option) list" where
  "plain_wrappers s e = [
    (''ErrServiceUnimplemented'', [], Some (WrapErrServiceUnimplemented e)),
    (''ErrIoFailed'', [], WrapErrIoFailed s (Some e)),
    (''ErrIoUnexpectEOF'', [], WrapErrIoUnexpectEOF s (Some e)),
    (''ErrParameterInvalid'', [s], Some (WrapErrParameterInvalidMsg s)),
    (''ErrPrivilegeNotAuthenticated'', [s], Some (WrapErrPrivilegeNotAuthenticated s)),
    (''ErrPrivilegeNotPermitted'', [s], Some (WrapErrPrivilegeNotPermitted s))]"

lemmas wrapper_defs =
  WrapErrServiceNotReady_def WrapErrServiceUnavailable_def WrapErrServiceMemoryLimitExceeded_def
  WrapErrServiceRequestLimitExceeded_def WrapErrServiceInternal_def WrapErrServiceCrossClusterRouting_def
  WrapErrServiceDiskLimitExceeded_def WrapErrServiceRateLimit_def WrapErrServiceQuotaExceeded_def
  WrapErrDatabaseNotFound_def WrapErrDatabaseNumLimitExceeded_def WrapErrDatabaseNameInvalid_def
  WrapErrCollectionNotFound_def WrapErrCollectionNotFoundWithDB_def WrapErrCollectionNotLoaded_def
  WrapErrCollectionNumLimitExceeded_def WrapErrCollectionIDOfAliasNotFound_def
  WrapErrCollectionNotFullyLoaded_def WrapErrAliasNotFound_def WrapErrAliasCollectionNameConflict_def
  WrapErrAliasAlreadyExist_def WrapErrPartitionNotFound_def WrapErrPartitionNotLoaded_def
  WrapErrPartitionNotFullyLoaded_def WrapGeneralCapacityExceed_def WrapErrResourceGroupNotFound_def
  WrapErrReplicaNotFound_def WrapErrReplicaNotAvailable_def WrapErrChannelNotFound_def WrapErrChannelLack_def
  WrapErrChannelReduplicate_def WrapErrChannelNotAvailable_def WrapErrSegmentNotFound_def
  WrapErrSegmentsNotFound_def WrapErrSegmentNotLoaded_def WrapErrSegmentLack_def WrapErrSegmentReduplicate_def
  WrapErrIndexNotFound_def WrapErrIndexNotFoundForSegment_def WrapErrIndexNotFoundForCollection_def
  WrapErrIndexNotSupported_def WrapErrIndexDuplicate_def WrapErrNodeNotFound_def WrapErrNodeOffline_def
  WrapErrNodeLack_def WrapErrNodeNotAvailable_def WrapErrNodeStateUnexpected_def WrapErrNodeNotMatch_def
  WrapErrIoKeyNotFound_def WrapErrIoFailedReason_def WrapErrParameterInvalid_def
  WrapErrParameterInvalidRange_def WrapErrParameterMissing_def WrapErrMetricNotFound_def
  WrapErrMqTopicNotFound_def WrapErrMqTopicNotEmpty_def WrapErrSegcore_def WrapErrFieldNotFound_def
  WrapErrFieldNameInvalid_def WrapErrNodeLackAny_def WrapErrMqInternal_def WrapErrImportFailed_def
  WrapErrInconsistentRequery_def

lemmas plain_wrapper_defs =
  WrapErrServiceUnimplemented_def WrapErrIoFailed_def WrapErrIoUnexpectEOF_def WrapErrParameterInvalidMsg_def
  WrapErrPrivilegeNotAuthenticated_def WrapErrPrivilegeNotPermitted_def

lemma merr_names: "distinct (map fst merr_table)"
  unfolding merr_table_def by (simp only: list.map fst_conv) code_simp

lemma merr_codes: "distinct (map (me_errCode \<circ> snd) merr_table)"
proof -
  have codes: "map (me_errCode \<circ> snd) merr_table = map (\<lambda>(n, e). me_errCode e) merr_table"
    by (auto simp: case_prod_beta)
  show ?thesis unfolding codes using merr_table_codes_unique by (rule conjunct1)
qed

lemma merr_detail: "list_all (\<lambda>(n, m). me_detail m = me_msg m) merr_table"
  by (simp add: merr_table_def newMilvusError_def)

text \<open>Entries of the table are told apart by their codes.\<close>

lemma same_code:
  assumes "(n, m) \<in> set merr_table" "(n', m') \<in> set merr_table"
  shows "me_errCode m = me_errCode m' \<longleftrightarrow> n' = n"
proof
  assume "me_errCode m = me_errCode m'"
  then have "(me_errCode \<circ> snd) (n, m) = (me_errCode \<circ> snd) (n', m')" by simp
  then show "n' = n" using merr_codes assms unfolding distinct_map inj_on_def by blast
next
  assume "n' = n"
  then show "me_errCode m = me_errCode m'" using merr_names assms by (metis eq_key_imp_eq_value)
qed

text \<open>No text of an entry begins with the text of another, so a text with fields or a description is not the text of
  another entry.\<close>

fun begins_with :: "string \<Rightarrow> string \<Rightarrow> bool" where
  "begins_with xs [] = True"
| "begins_with [] (c # cs) = False"
| "begins_with (x # xs) (c # cs) = (if x = c then begins_with xs cs else False)"

lemma begins_with_refl [simp]: "begins_with (xs @ ext) xs"
  by (induction xs) auto

lemma begins_with_self [simp]: "begins_with xs xs"
  using begins_with_refl [of xs "[]"] by simp

lemma begins_with_append: "begins_with a xs \<Longrightarrow> begins_with (a @ ext) xs"
  by (induction a xs rule: begins_with.induct) (auto split: if_splits)

fun clash_free :: "string list \<Rightarrow> bool" where
  "clash_free [] = True"
| "clash_free (t # ts) =
     (if list_ex (\<lambda>t'. begins_with t' t) ts then False
      else if list_ex (begins_with t) ts then False else clash_free ts)"

lemma clash_freeD:
  "clash_free (map f xs) \<Longrightarrow> x \<in> set xs \<Longrightarrow> y \<in> set xs \<Longrightarrow> begins_with (f y) (f x) \<Longrightarrow> y = x"
  by (induction xs) (auto simp: list_ex_iff split: if_splits)

lemma merr_texts: "clash_free (map (me_msg \<circ> snd) merr_table)"
  by code_simp

lemma no_other_text:
  assumes "(n, m) \<in> set merr_table" "(n', m') \<in> set merr_table" "begins_with (me_msg m') (me_msg m)"
  shows "n' = n"
  using clash_freeD [OF merr_texts assms(1,2)] assms(3) by simp

lemma errors_Is_leaf:
  "errors_Is (MilvusErr m) (MilvusErr m') \<longleftrightarrow> me_errCode m = me_errCode m' \<or> me_msg m = me_msg m'"
  by (auto simp: milvusError_Is_def)

definition keeps_leaf :: "string \<Rightarrow> string list \<Rightarrow> go_error \<Rightarrow> bool" where
  "keeps_leaf name msg err \<longleftrightarrow>
     (\<exists>m. map_of merr_table name = Some m \<and> Code (Some err) = me_errCode m
        \<and> (IsRetryableErr (Some err) \<longleftrightarrow> me_retriable m \<and> msg = [])
        \<and> list_all (\<lambda>(n', m'). errors_Is err (MilvusErr m') \<longleftrightarrow> n' = name) merr_table)"

lemma begins_fields: "begins_with (fold (\<lambda>f acc. acc @ ''['' @ f @ '']'') flds xs) xs"
proof (induction flds rule: rev_induct)
  case (snoc f flds)
  from begins_with_append [OF this, of "''['' @ f @ '']''"] show ?case by simp
qed simp

lemma keeps_leafI:
  assumes "map_of merr_table name = Some m" and "me_errCode x = me_errCode m" "me_retriable x = me_retriable m"
    and "begins_with (me_msg x) (me_msg m)"
  shows "keeps_leaf name msg (join_msg sep (MilvusErr x) msg)"
proof -
  have mem: "(name, m) \<in> set merr_table" using assms(1) by (rule map_of_SomeD)
  have "errors_Is (MilvusErr x) (MilvusErr m') \<longleftrightarrow> n' = name" if m': "(n', m') \<in> set merr_table" for n' m'
  proof -
    have "me_msg x = me_msg m' \<Longrightarrow> n' = name" using assms(4) no_other_text [OF mem m'] by auto
    then show ?thesis unfolding errors_Is_leaf assms(2) using same_code [OF mem m'] by blast
  qed
  then show ?thesis
    using assms by (auto simp: keeps_leaf_def join_msg_def list_all_iff)
qed

lemma keeps_leaf_wrap:
  assumes "name \<in> set (map fst merr_table)"
  shows "keeps_leaf name msg (join_msg sep (wrapFields (leaf name) flds) msg)"
    "keeps_leaf name msg (join_msg sep (wrapFieldsWithDesc (leaf name) desc flds) msg)"
    "keeps_leaf name msg (join_msg sep (MilvusErr (leaf name)) msg)"
proof -
  obtain m where m: "map_of merr_table name = Some m" using assms by (metis image_set map_of_eq_None_iff not_Some_eq)
  then have leaf: "leaf name = m" by (simp add: leaf_def)
  show "keeps_leaf name msg (join_msg sep (wrapFields (leaf name) flds) msg)"
    "keeps_leaf name msg (join_msg sep (wrapFieldsWithDesc (leaf name) desc flds) msg)"
    "keeps_leaf name msg (join_msg sep (MilvusErr (leaf name)) msg)"
    by (simp_all add: wrapFields_def wrapFieldsWithDesc_def Let_def leaf)
      (rule keeps_leafI [OF m]; simp add: begins_with_append begins_fields [simplified])+
qed

lemma keeps_leaf_plain:
  assumes "name \<in> set (map fst merr_table)"
  shows "keeps_leaf name [] (wrapFieldsWithDesc (leaf name) desc flds)"
    "keeps_leaf name [what] (WrapErr what (MilvusErr (leaf name)))"
  using keeps_leaf_wrap(2) [OF assms, of "[]" sep desc flds for sep]
    keeps_leaf_wrap(3) [OF assms, of "[what]" "[]"]
  by (simp_all add: join_msg_def)

lemma wrapper_names:
  "list_all (\<lambda>n. n \<in> set (map fst merr_table)) (map fst (wrappers s t v u x i k js e))"
  "list_all (\<lambda>n. n \<in> set (map fst merr_table)) (map fst (plain_wrappers s e))"
  unfolding wrappers_def plain_wrappers_def merr_table_def list.map fst_conv by code_simp+

text \<open>C26: Every constructor keeps its leaf error. For every \<open>WrapErr\<close> function and all its arguments the error it
  returns has the code of the leaf, \<open>errors.Is\<close> recognises it as that leaf and as none of the other leaf errors
  of the table, and it is retriable exactly when the leaf is and the constructor did not wrap it with a further
  message: a retriable error with one more message is not retriable. The two constructors that are given an
  input-output error answer no error with none.\<close>

theorem WrapErr_keeps_leaf:
  "list_all (\<lambda>(name, W). keeps_leaf name msg (W msg)) (wrappers s t v u x i k js e)
   \<and> list_all (\<lambda>(name, texts, r). \<exists>err. r = Some err \<and> keeps_leaf name texts err) (plain_wrappers s e)
   \<and> WrapErrIoFailed s None = None \<and> WrapErrIoUnexpectEOF s None = None"
  using wrapper_names(1) [of s t v u x i k js e] wrapper_names(2) [of s e]
  by (simp add: wrappers_def wrapper_defs keeps_leaf_wrap plain_wrappers_def plain_wrapper_defs keeps_leaf_plain)

text \<open>An error that is answered from a state is \<open>nil\<close> in the healthy state only, apart from the states that the
  check allows besides; otherwise it is the retriable "service not ready".\<close>

lemma CheckHealthy_nil:
  "CheckHealthy role nodeID state = None \<longleftrightarrow> state = Healthy"
  "CheckHealthyStandby role nodeID state = None \<longleftrightarrow> state \<in> {Healthy, StandBy}"
  "IsHealthy role nodeID state = None \<longleftrightarrow> state = Healthy"
  "IsHealthyOrStopping role nodeID state = None \<longleftrightarrow> state \<in> {Healthy, Stopping}"
  "AnalyzeState role nodeID status state = None \<longleftrightarrow> Status_Ok status \<and> state = Healthy"
  by (auto simp: CheckHealthy_def CheckHealthyStandby_def IsHealthy_def IsHealthyOrStopping_def AnalyzeState_def
      Status_Error_def split: option.splits)

lemma CheckHealthy_keeps_leaf:
  assumes "CheckHealthy role nodeID state = Some e \<or> CheckHealthyStandby role nodeID state = Some e
    \<or> IsHealthy role nodeID state = Some e \<or> IsHealthyOrStopping role nodeID state = Some e"
  shows "keeps_leaf ''ErrServiceNotReady'' [] e"
proof -
  have mem: "''ErrServiceNotReady'' \<in> set (map fst merr_table)" by (simp add: merr_table_def)
  have "keeps_leaf ''ErrServiceNotReady'' [] (WrapErrServiceNotReady role nodeID (state_string state) [])"
    unfolding WrapErrServiceNotReady_def by (rule keeps_leaf_wrap(2) [OF mem])
  then show ?thesis using assms
    by (auto simp: CheckHealthy_def CheckHealthyStandby_def IsHealthy_def IsHealthyOrStopping_def split: if_splits)
qed

text \<open>An error that crosses a call as a status is seen with its code by the caller that checks the response, and by
  the check of the component's state.\<close>

lemma status_code_kept:
  assumes "Code err \<noteq> 0"
  shows "Code (CheckRPCCall (HasStatus (mk_Status err)) None) = Code err"
    "Code (AnalyzeState role nodeID (mk_Status err) state) = Code err"
  using assms
  by (cases err; simp add: CheckRPCCall_def AnalyzeState_def Status_Error_def mk_Status_def Status_Ok_def
      newMilvusErrorWithDetail_def)+

end
