(* ===== verification/Factory.thy ===== *)
theory Factory
  imports TtStream
begin

text \<open>
  The stream factories (pkg/mq/msgstream/common\_mq\_factory.go, mq\_factory.go, msgstream\_util.go): making plain and
  time-tick streams over a client, disposing of subscriptions, and asking for the latest message of a channel.

  Making the client, authentication, the admin client and the parsing of topic names are the Pulsar library's and
  are parameters. Go's \<open>make(chan, n)\<close> panics for a negative \<open>n\<close>.
\<close>

section \<open>The common factory\<close>

record 'w CommonFactory =
  Newer :: "ctx \<Rightarrow> go_error + 'w mq_client"
  ReceiveBufSize :: int
  MQBufSize :: int

definition wrapError :: "string \<Rightarrow> 'a res \<Rightarrow> 'a res" where
  "wrapError method r = (case r of Err e \<Rightarrow> Err (WrapErr (''in method: '' @ method) e) | _ \<Rightarrow> r)"

definition buffered :: "int \<Rightarrow> 'a \<Rightarrow> 'a res" where
  "buffered receiveBufSize s = (if receiveBufSize < 0 then Panic ''makechan: size out of range'' else Ok s)"

definition NewMsgStream :: "bool \<Rightarrow> 'w CommonFactory \<Rightarrow> ctx \<Rightarrow> ('w mq_client \<times> stream) res" where
  "NewMsgStream ttMsgEnabled f ctx =
     wrapError ''NewMsgStream''
       (case Newer f ctx of
          Inl err \<Rightarrow> Err err
        | Inr cli \<Rightarrow> buffered (ReceiveBufSize f) (cli, NewMqMsgStream ttMsgEnabled))"

definition NewTtMsgStream :: "bool \<Rightarrow> 'w CommonFactory \<Rightarrow> ctx \<Rightarrow> ('w mq_client \<times> tt_stream) res" where
  "NewTtMsgStream ttMsgEnabled f ctx =
     wrapError ''NewTtMsgStream''
       (case Newer f ctx of
          Inl err \<Rightarrow> Err err
        | Inr cli \<Rightarrow> buffered (ReceiveBufSize f) (cli, NewMqTtMsgStream ttMsgEnabled))"

text \<open>The disposer subscribes and closes; the error of \<open>AsConsumer\<close> is not looked at.\<close>

definition NewMsgStreamDisposer ::
  "bool \<Rightarrow> 'w CommonFactory \<Rightarrow> ctx \<Rightarrow> string list \<Rightarrow> string \<Rightarrow> int \<Rightarrow> 'w \<Rightarrow> string list res \<times> 'w" where
  "NewMsgStreamDisposer ttMsgEnabled f ctx channels subName now w =
     (case wrapError ''NewMsgStreamDisposer'' (NewMsgStream ttMsgEnabled f ctx) of
        Ok (cl, msgs) \<Rightarrow>
          (case AsConsumer cl ctx channels subName SubscriptionPositionUnknown now (msgs, w) of
             (Panic p, (msgs', w')) \<Rightarrow> (Panic p, w')
           | (_, (msgs', w')) \<Rightarrow> (Ok (fst (Close msgs')), w'))
      | Err e \<Rightarrow> (Err e, w)
      | Panic p \<Rightarrow> (Panic p, w))"

section \<open>The Pulsar factory\<close>

record PmsFactory =
  PulsarAddress :: string
  PulsarWebAddress :: string
  pms_ReceiveBufSize :: int
  pms_MQBufSize :: int
  PulsarAuthPlugin :: string
  PulsarAuthParams :: string
  PulsarTenant :: string
  PulsarNameSpace :: string
  RequestTimeout :: int
  metricRegisterer :: bool

record 'a ClientOptions =
  co_URL :: string
  co_Authentication :: 'a
  co_OperationTimeout :: int
  co_MetricsRegisterer :: bool

definition client_timeout :: "string \<Rightarrow> PmsFactory \<Rightarrow> ctx \<Rightarrow> int \<Rightarrow> int res" where
  "client_timeout method f ctx now =
     (case ctx_deadline ctx of
        None \<Rightarrow> Ok (RequestTimeout f)
      | Some deadline \<Rightarrow>
          if deadline < now then Err (ErrorString (''context timeout when '' @ method)) else Ok (deadline - now))"

definition getAuthentication :: "(string \<Rightarrow> string \<Rightarrow> go_error + 'a) \<Rightarrow> PmsFactory \<Rightarrow> 'a res" where
  "getAuthentication pulsar_NewAuthentication f =
     (case pulsar_NewAuthentication (PulsarAuthPlugin f) (PulsarAuthParams f) of
        Inl err \<Rightarrow> Err (ErrorString ''build authencation from config failed'')
      | Inr auth \<Rightarrow> Ok auth)"

text \<open>The part that both methods share: the client, from the package variables of the Pulsar wrapper.\<close>

definition pms_client ::
  "(string \<Rightarrow> string \<Rightarrow> go_error + 'a) \<Rightarrow> ('a ClientOptions \<Rightarrow> go_error + 'k) \<Rightarrow> string \<Rightarrow> PmsFactory \<Rightarrow> ctx \<Rightarrow> int \<Rightarrow>
     'k client_vars \<Rightarrow> 'k pulsarClient option res \<times> 'k client_vars" where
  "pms_client pulsar_NewAuthentication pulsar_NewClient method f ctx now vars =
     (case bindO (client_timeout method f ctx now) (\<lambda>timeout.
           bindO (getAuthentication pulsar_NewAuthentication f) (\<lambda>auth.
             Ok \<lparr>co_URL = PulsarAddress f, co_Authentication = auth, co_OperationTimeout = timeout,
                 co_MetricsRegisterer = metricRegisterer f\<rparr>)) of
        Ok clientOpts \<Rightarrow>
          (case NewClient pulsar_NewClient (PulsarTenant f) (PulsarNameSpace f) clientOpts vars of
             ((c, Some err), vars') \<Rightarrow> (Err err, vars')
           | ((c, None), vars') \<Rightarrow> (Ok c, vars'))
      | Err e \<Rightarrow> (Err e, vars)
      | Panic p \<Rightarrow> (Panic p, vars))"

definition Pms_NewMsgStream ::
  "(string \<Rightarrow> string \<Rightarrow> go_error + 'a) \<Rightarrow> ('a ClientOptions \<Rightarrow> go_error + 'k) \<Rightarrow> bool \<Rightarrow> PmsFactory \<Rightarrow> ctx \<Rightarrow> int \<Rightarrow>
     'k client_vars \<Rightarrow> ('k pulsarClient option \<times> stream) res \<times> 'k client_vars" where
  "Pms_NewMsgStream pulsar_NewAuthentication pulsar_NewClient ttMsgEnabled f ctx now vars =
     (let (r, vars') = pms_client pulsar_NewAuthentication pulsar_NewClient ''NewMsgStream'' f ctx now vars
      in (bindO r (\<lambda>c. buffered (pms_ReceiveBufSize f) (c, NewMqMsgStream ttMsgEnabled)), vars'))"

definition Pms_NewTtMsgStream ::
  "(string \<Rightarrow> string \<Rightarrow> go_error + 'a) \<Rightarrow> ('a ClientOptions \<Rightarrow> go_error + 'k) \<Rightarrow> bool \<Rightarrow> PmsFactory \<Rightarrow> ctx \<Rightarrow> int \<Rightarrow>
     'k client_vars \<Rightarrow> ('k pulsarClient option \<times> tt_stream) res \<times> 'k client_vars" where
  "Pms_NewTtMsgStream pulsar_NewAuthentication pulsar_NewClient ttMsgEnabled f ctx now vars =
     (let (r, vars') = pms_client pulsar_NewAuthentication pulsar_NewClient ''NewTtMsgStream'' f ctx now vars
      in (bindO r (\<lambda>c. buffered (pms_ReceiveBufSize f) (c, NewMqTtMsgStream ttMsgEnabled)), vars'))"

text \<open>What the admin client answers to the deletion of a subscription: success, an error of its own with a reason, or
  any other error. The second component collects the subscriptions asked to be deleted.\<close>

datatype delete_answer = Deleted | CliError string | OtherError go_error

fun delete_subscriptions ::
  "(string \<Rightarrow> string res) \<Rightarrow> (string \<Rightarrow> string \<Rightarrow> delete_answer) \<Rightarrow> PmsFactory \<Rightarrow> string list \<Rightarrow> string \<Rightarrow>
     unit res \<times> (string \<times> string) list" where
  "delete_subscriptions utils_GetTopicName admin f [] subname = (Ok (), [])"
| "delete_subscriptions utils_GetTopicName admin f (channel # channels) subname =
     (case GetFullTopicName (PulsarTenant f) (PulsarNameSpace f) channel of
        Ok fullTopicName \<Rightarrow>
          (case utils_GetTopicName fullTopicName of
             Ok topic \<Rightarrow>
               (let (r, asked) = delete_subscriptions utils_GetTopicName admin f channels subname
                in case admin topic subname of
                     CliError reason \<Rightarrow>
                       (if strings_Contains reason ''Subscription not found'' then (Ok (), [(topic, subname)])
                        else (r, (topic, subname) # asked))
                   | _ \<Rightarrow> (r, (topic, subname) # asked))
           | Err err \<Rightarrow> (case Unrecoverable (Some err) of Some u \<Rightarrow> (Err u, []) | None \<Rightarrow> (Ok (), []))
           | Panic p \<Rightarrow> (Panic p, []))
      | Err err \<Rightarrow> (Err err, [])
      | Panic p \<Rightarrow> (Panic p, []))"

definition Pms_NewMsgStreamDisposer ::
  "(string \<Rightarrow> string \<Rightarrow> string \<Rightarrow> go_error + (string \<Rightarrow> string \<Rightarrow> delete_answer)) \<Rightarrow> (string \<Rightarrow> string res) \<Rightarrow> PmsFactory \<Rightarrow>
     string list \<Rightarrow> string \<Rightarrow> unit res \<times> (string \<times> string) list" where
  "Pms_NewMsgStreamDisposer newAdminClient utils_GetTopicName f channels subname =
     (case newAdminClient (PulsarWebAddress f) (PulsarAuthPlugin f) (PulsarAuthParams f) of
        Inl err \<Rightarrow> (Err err, [])
      | Inr admin \<Rightarrow> delete_subscriptions utils_GetTopicName admin f channels subname)"

section \<open>Helpers\<close>

text \<open>\<open>UnsubscribeChannels\<close> panics with the error of the disposer.\<close>

definition UnsubscribeChannels :: "unit res \<Rightarrow> unit res" where
  "UnsubscribeChannels disposed = (case disposed of Err err \<Rightarrow> Panic (Error_string err) | r \<Rightarrow> r)"

text \<open>\<open>r\<close> is the number drawn for the name of the subscription. The result is the serialized id; the second
  component names the handles closed when the function returns.\<close>

definition GetChannelLatestMsgID ::
  "id_codec \<Rightarrow> bool \<Rightarrow> 'w CommonFactory \<Rightarrow> ctx \<Rightarrow> string \<Rightarrow> int \<Rightarrow> int \<Rightarrow> 'w \<Rightarrow> bytes res \<times> string list" where
  "GetChannelLatestMsgID ic ttMsgEnabled f ctx channelName r now w =
     (case NewMsgStream ttMsgEnabled f ctx of
        Err err \<Rightarrow> (Err err, [])
      | Panic p \<Rightarrow> (Panic p, [])
      | Ok (cl, dmlStream) \<Rightarrow>
          (let subName = ''get-latest_msg_id-'' @ channelName @ ''-'' @ string_of_int r;
               (res, (dmlStream', w')) = AsConsumer cl ctx [channelName] subName SubscriptionPositionUnknown now (dmlStream, w)
           in (bindO res (\<lambda>_.
                 bindO (stream_GetLatestMsgID cl channelName dmlStream' w') (\<lambda>i. Ok (Serialize ic i))),
               fst (Close dmlStream'))))"

section \<open>What the factories do\<close>

text \<open>Once a client has been tried, every stream of the process has the client of that first call, whatever address,
  authentication or timeout the factory has; after a failed first call it is nil.\<close>

lemma pms_client_once:
  assumes "once_done vars" and "client_timeout method f ctx now = Ok t" and "getAuthentication auth f = Ok a"
  shows "pms_client auth new method f ctx now vars = (Ok (sc vars), vars)"
  using assms by (simp add: pms_client_def NewClient_def)

lemma pms_client_failed:
  assumes "\<not> once_done vars" "sc vars = None" and "new \<lparr>co_URL = PulsarAddress f, co_Authentication = a,
      co_OperationTimeout = RequestTimeout f, co_MetricsRegisterer = metricRegisterer f\<rparr> = Inl err"
    and "getAuthentication auth f = Ok a" and "0 \<le> pms_ReceiveBufSize f"
  shows "let (r, vars') = Pms_NewMsgStream auth new tt f Background now vars
         in r = Err err \<and> fst (Pms_NewMsgStream auth new tt f Background now vars') = Ok (None, NewMqMsgStream tt)"
  using assms
  by (simp add: Pms_NewMsgStream_def pms_client_def NewClient_def client_timeout_def Background_def buffered_def)

text \<open>C28: Disposing of a subscription on several channels asks the broker for the channels in order up to and including
  the first where the subscription does not exist, and answers with success: the subscriptions of the channels after
  it are left in place. Any other failure of a deletion is skipped.\<close>

theorem disposer_stops_at_missing:
  assumes "PulsarTenant f \<noteq> []" and "PulsarNameSpace f \<noteq> []" and "[] \<notin> set channels"
    and "\<And>channel. utils_GetTopicName (PulsarTenant f @ ''/'' @ PulsarNameSpace f @ ''/'' @ channel) = Ok (topic channel)"
  shows "delete_subscriptions utils_GetTopicName admin f channels subname =
    (let missing = (\<lambda>channel. case admin (topic channel) subname of
                      CliError reason \<Rightarrow> strings_Contains reason ''Subscription not found'' | _ \<Rightarrow> False)
     in (Ok (), map (\<lambda>channel. (topic channel, subname))
                  (takeWhile (\<lambda>c. \<not> missing c) channels @ take 1 (dropWhile (\<lambda>c. \<not> missing c) channels))))"
  using assms(3)
proof (induction channels)
  case (Cons channel channels)
  define missing where "missing = (\<lambda>channel. case admin (topic channel) subname of
      CliError reason \<Rightarrow> strings_Contains reason ''Subscription not found'' | _ \<Rightarrow> False)"
  have full: "GetFullTopicName (PulsarTenant f) (PulsarNameSpace f) channel
      = Ok (PulsarTenant f @ ''/'' @ PulsarNameSpace f @ ''/'' @ channel)"
    using assms(1,2) Cons.prems by (auto simp: GetFullTopicName_def)
  have rest: "delete_subscriptions utils_GetTopicName admin f channels subname =
      (Ok (), map (\<lambda>channel. (topic channel, subname))
        (takeWhile (\<lambda>c. \<not> missing c) channels @ take 1 (dropWhile (\<lambda>c. \<not> missing c) channels)))"
    using Cons unfolding missing_def Let_def by simp
  have "delete_subscriptions utils_GetTopicName admin f (channel # channels) subname =
      (if missing channel then (Ok (), [(topic channel, subname)])
       else (Ok (), (topic channel, subname) # map (\<lambda>channel. (topic channel, subname))
         (takeWhile (\<lambda>c. \<not> missing c) channels @ take 1 (dropWhile (\<lambda>c. \<not> missing c) channels))))"
    unfolding delete_subscriptions.simps full outcome.case assms(4) rest
    by (simp add: missing_def split: delete_answer.split)
  then show ?case unfolding missing_def [symmetric] Let_def by simp
qed simp

definition sample_pms :: PmsFactory where
  "sample_pms = \<lparr>PulsarAddress = ''pulsar://localhost'', PulsarWebAddress = [], pms_ReceiveBufSize = 16,
     pms_MQBufSize = 16, PulsarAuthPlugin = [], PulsarAuthParams = [], PulsarTenant = ''public'',
     PulsarNameSpace = ''default'', RequestTimeout = 60, metricRegisterer = False\<rparr>"

theorem disposer_stops_at_missing_witness:
  "delete_subscriptions Ok (\<lambda>topic sub. if topic = ''public/default/b'' then CliError ''Subscription not found'' else Deleted)
     sample_pms [''a'', ''b'', ''c''] ''s'' = (Ok (), [(''public/default/a'', ''s''), (''public/default/b'', ''s'')])"
proof -
  have "strings_Contains ''Subscription not found'' ''Subscription not found''" by code_simp
  then show ?thesis
    using disposer_stops_at_missing [of sample_pms "[''a'', ''b'', ''c'']" Ok "\<lambda>c. ''public/default/'' @ c"
        "\<lambda>topic sub. if topic = ''public/default/b'' then CliError ''Subscription not found'' else Deleted" "''s''"]
    by (simp add: sample_pms_def)
qed

lemma Do_first_call:
  assumes "CheckCtxValid ctx now" and "fn now w = (None, now', w')"
  shows "Do tie ctx fn stream_retry now w = (None, now', w')"
  using assms by (simp add: Do_def stream_retry_def apply_opts_def newDefaultConfig_def Attempts_def Sleep_def
      MaxSleepTime_def wrap64_id numeral_eq_Suc)

text \<open>Asking for the latest message of a channel over a working client gives the serialized id the client has for
  it, and leaves nothing open: the consumer made for the question is closed when the function returns.\<close>

theorem GetChannelLatestMsgID_asks:
  assumes "Newer f ctx = Inr cl" and "0 \<le> ReceiveBufSize f" and "CheckCtxValid ctx now"
    and "cl_Subscribe cl channel (''get-latest_msg_id-'' @ channel @ ''-'' @ string_of_int r)
           SubscriptionPositionUnknown w = (Inr (Some msgs), w1)"
    and "cl_GetLatestMsgID cl channel w1 = (Inr i, w2)"
  shows "GetChannelLatestMsgID ic tt f ctx channel r now w = (Ok (Serialize ic i), [channel])"
proof -
  let ?sub = "''get-latest_msg_id-'' @ channel @ ''-'' @ string_of_int r"
  let ?s = "add_consumer ((NewMqMsgStream tt)\<lparr>subscription := ?sub\<rparr>) channel msgs"
  have "Do (\<lambda>_. False) ctx (consumer_fn add_consumer cl ?sub SubscriptionPositionUnknown channel) stream_retry now
      (NewMqMsgStream tt, w) = (None, now, (?s, w1))"
    using assms(3,4) by (intro Do_first_call) (simp_all add: consumer_fn_def)
  then have "AsConsumer cl ctx [channel] ?sub SubscriptionPositionUnknown now (NewMqMsgStream tt, w) = (Ok (), (?s, w1))"
    by (simp add: AsConsumer_def NewMqMsgStream_def)
  then show ?thesis
    using assms(1,2,5)
    by (simp add: GetChannelLatestMsgID_def NewMsgStream_def wrapError_def buffered_def add_consumer_def set_key_def
        stream_GetLatestMsgID_def Close_def) (simp add: NewMqMsgStream_def)
qed

definition sample_factory :: "unit CommonFactory" where
  "sample_factory = \<lparr>Newer = (\<lambda>_. Inr (sample_client\<lparr>cl_GetLatestMsgID := \<lambda>channel w. (Inr EarliestMessageID, w)\<rparr>)),
     ReceiveBufSize = 16, MQBufSize = 16\<rparr>"

theorem GetChannelLatestMsgID_asks_witness:
  "GetChannelLatestMsgID unary_codec True sample_factory Background ''a'' 7 0 ()
     = (Ok (Serialize unary_codec EarliestMessageID), [''a''])"
  using GetChannelLatestMsgID_asks [of sample_factory Background
      "sample_client\<lparr>cl_GetLatestMsgID := \<lambda>channel w. (Inr EarliestMessageID, w)\<rparr>" 0 "''a''" 7 "()" "[]" "()"
      EarliestMessageID "()" unary_codec True]
  by (simp add: sample_factory_def sample_client_def CheckCtxValid_def ctx_Err_def ctx_done_at_def Background_def)

end
