(* ===== verification/IndexParam.thy ===== *)
theory IndexParam
  imports Schema MerrWrap
begin

text \<open>
  Package \<open>indexparamcheck\<close> (pkg/util/indexparamcheck) and the metric names (pkg/util/metric): what parameters an
  index may be built with. The embedding of one checker struct in another is the use of its functions; a method
  that is not overridden is that of the embedded struct, with the embedded struct's own methods.

  A checker's method answers \<open>None\<close> for a nil error. The parameters are a map; \<open>SetDefaultMetricTypeIfNotExist\<close>
  writes to the caller's map and so returns it.
\<close>

section \<open>Constants\<close>

type_synonym params = "string \<rightharpoonup> string"

definition L2 :: string where "L2 = ''L2''"
definition IP :: string where "IP = ''IP''"
definition COSINE :: string where "COSINE = ''COSINE''"
definition HAMMING :: string where "HAMMING = ''HAMMING''"
definition JACCARD :: string where "JACCARD = ''JACCARD''"
definition SUBSTRUCTURE :: string where "SUBSTRUCTURE = ''SUBSTRUCTURE''"
definition SUPERSTRUCTURE :: string where "SUPERSTRUCTURE = ''SUPERSTRUCTURE''"

lemmas metric_names = L2_def IP_def COSINE_def HAMMING_def JACCARD_def SUBSTRUCTURE_def SUPERSTRUCTURE_def

definition METRICS :: "string list" where "METRICS = [L2, IP, COSINE]"
definition BinIDMapMetrics :: "string list" where "BinIDMapMetrics = [HAMMING, JACCARD, SUBSTRUCTURE, SUPERSTRUCTURE]"
definition BinIvfMetrics :: "string list" where "BinIvfMetrics = [HAMMING, JACCARD]"
definition HnswMetrics :: "string list" where "HnswMetrics = [L2, IP, COSINE, HAMMING, JACCARD]"

text \<open>Bounds (constraints.go): of the dimension, of \<open>nlist\<close>, and of the parameters of HNSW.\<close>

definition dim_bounds :: "int \<times> int" where "dim_bounds = (1, 32768)"
definition nlist_bounds :: "int \<times> int" where "nlist_bounds = (1, 65536)"
definition ef_bounds :: "int \<times> int" where "ef_bounds = (1, 2147483647)"
definition hnswm_bounds :: "int \<times> int" where "hnswm_bounds = (1, 2048)"
definition DefaultNBits :: int where "DefaultNBits = 8"

lemmas bounds_defs = dim_bounds_def nlist_bounds_def ef_bounds_def hnswm_bounds_def DefaultNBits_def

text \<open>\<open>PositivelyRelated\<close> compares in upper case.\<close>

definition upper_char :: "char \<Rightarrow> char" where
  "upper_char c = (let n = of_char c :: nat in if 97 \<le> n \<and> n \<le> 122 then char_of (n - 32) else c)"

definition ToUpper :: "string \<Rightarrow> string" where
  "ToUpper s = map upper_char s"

definition PositivelyRelated :: "string \<Rightarrow> bool" where
  "PositivelyRelated metricType \<longleftrightarrow>
     (let mUpper = ToUpper metricType in mUpper = ToUpper IP \<or> mUpper = ToUpper COSINE)"

section \<open>Checks on parameters\<close>

definition CheckIntByRange :: "params \<Rightarrow> string \<Rightarrow> int \<times> int \<Rightarrow> bool" where
  "CheckIntByRange params key = (\<lambda>(lo, hi).
     case params key of
       None \<Rightarrow> False
     | Some valueStr \<Rightarrow> (case Atoi valueStr of Ok v \<Rightarrow> lo \<le> v \<and> v \<le> hi | _ \<Rightarrow> False))"

definition SliceContain :: "'a list \<Rightarrow> 'a \<Rightarrow> bool" where
  "SliceContain s item = list_ex (\<lambda>x. x = item) s"

definition CheckStrByValues :: "params \<Rightarrow> string \<Rightarrow> string list \<Rightarrow> bool" where
  "CheckStrByValues params key container =
     (case params key of None \<Rightarrow> False | Some v \<Rightarrow> SliceContain container v)"

definition errOutOfRange :: "string \<Rightarrow> int \<times> int \<Rightarrow> go_error" where
  "errOutOfRange x = (\<lambda>(lb, ub).
     ErrorString (x @ '' out of range: ['' @ string_of_int lb @ '', '' @ string_of_int ub @ '']''))"

definition setDefaultIfNotExist :: "params \<Rightarrow> string \<Rightarrow> string \<Rightarrow> params" where
  "setDefaultIfNotExist params key defaultValue = (if params key = None then params(key \<mapsto> defaultValue) else params)"

text \<open>\<open>require b e k\<close>: the error \<open>e\<close> unless \<open>b\<close>, then \<open>k\<close>.\<close>

definition require :: "bool \<Rightarrow> go_error \<Rightarrow> go_error option \<Rightarrow> go_error option" where
  "require b e k = (if b then k else Some e)"

definition and_then :: "go_error option \<Rightarrow> go_error option \<Rightarrow> go_error option" where
  "and_then r k = (case r of Some e \<Rightarrow> Some e | None \<Rightarrow> k)"

lemma require_None [simp]: "require b e k = None \<longleftrightarrow> b \<and> k = None"
  by (simp add: require_def)

lemma and_then_None [simp]: "and_then r k = None \<longleftrightarrow> r = None \<and> k = None"
  by (cases r) (simp_all add: and_then_def)

section \<open>The checkers\<close>

record IndexChecker =
  CheckTrain :: "params \<Rightarrow> go_error option"
  CheckValidDataType :: "DataType \<Rightarrow> go_error option"
  SetDefaultMetricTypeIfNotExist :: "params \<Rightarrow> params"
  StaticCheck :: "params \<Rightarrow> go_error option"

definition metric_error :: "string list \<Rightarrow> go_error" where
  "metric_error supported =
     ErrorString (''metric type not found or not supported, supported: ['' @ strings_Join supported '' '' @ '']'')"

definition baseChecker :: IndexChecker where
  "baseChecker = \<lparr>
     CheckTrain = (\<lambda>params. require (CheckIntByRange params ''dim'' dim_bounds) (errOutOfRange ''dim'' dim_bounds) None),
     CheckValidDataType = (\<lambda>dType. None),
     SetDefaultMetricTypeIfNotExist = (\<lambda>m. m),
     StaticCheck = (\<lambda>params. Some (ErrorString ''unsupported index type''))\<rparr>"

definition float_staticCheck :: "params \<Rightarrow> go_error option" where
  "float_staticCheck params = require (CheckStrByValues params ''metric_type'' METRICS) (metric_error METRICS) None"

definition floatVectorBaseChecker :: IndexChecker where
  "floatVectorBaseChecker = baseChecker\<lparr>
     CheckTrain := (\<lambda>params. and_then (CheckTrain baseChecker params) (float_staticCheck params)),
     CheckValidDataType := (\<lambda>dType. require (dType = DT_FloatVector) (ErrorString ''float vector are only supported'') None),
     SetDefaultMetricTypeIfNotExist := (\<lambda>params. setDefaultIfNotExist params ''metric_type'' COSINE)\<rparr>"

definition binary_staticCheck :: "params \<Rightarrow> go_error option" where
  "binary_staticCheck params = require (CheckStrByValues params ''metric_type'' BinIDMapMetrics) (metric_error BinIDMapMetrics) None"

definition binaryVectorBaseChecker :: IndexChecker where
  "binaryVectorBaseChecker = baseChecker\<lparr>
     CheckTrain := (\<lambda>params. and_then (CheckTrain baseChecker params) (binary_staticCheck params)),
     CheckValidDataType := (\<lambda>dType. require (dType = DT_BinaryVector) (ErrorString ''binary vector is only supported'') None),
     SetDefaultMetricTypeIfNotExist := (\<lambda>params. setDefaultIfNotExist params ''metric_type'' HAMMING)\<rparr>"

definition ivf_StaticCheck :: "params \<Rightarrow> go_error option" where
  "ivf_StaticCheck params =
     require (CheckIntByRange params ''nlist'' nlist_bounds) (errOutOfRange ''nlist'' nlist_bounds)
       (float_staticCheck params)"

definition ivfBaseChecker :: IndexChecker where
  "ivfBaseChecker = floatVectorBaseChecker\<lparr>
     StaticCheck := ivf_StaticCheck,
     CheckTrain := (\<lambda>params. and_then (ivf_StaticCheck params) (CheckTrain floatVectorBaseChecker params))\<rparr>"

text \<open>Reading a number parameter that must be there.\<close>

definition checkPQParams :: "(int \<Rightarrow> int \<Rightarrow> go_error option) \<Rightarrow> bool \<Rightarrow> params \<Rightarrow> go_error option" where
  "checkPQParams check zero_ok params =
     (case params ''dim'' of
        None \<Rightarrow> Some (ErrorString ''dimension not found'')
      | Some dimStr \<Rightarrow>
          (case Atoi dimStr of
             Ok dimension \<Rightarrow>
               require (case params ''nbits'' of None \<Rightarrow> True | Some nbitsStr \<Rightarrow> is_Ok (Atoi nbitsStr))
                 (ErrorString (''invalid nbits: '' @ (case params ''nbits'' of None \<Rightarrow> [] | Some nbitsStr \<Rightarrow> nbitsStr)))
                 (case params ''m'' of
                    None \<Rightarrow> Some (ErrorString ''parameter `m` not found'')
                  | Some mStr \<Rightarrow>
                      (case Atoi mStr of
                         Ok m \<Rightarrow> if m = 0 \<and> \<not> zero_ok then Some (ErrorString (''invalid `m`: '' @ mStr)) else check dimension m
                       | _ \<Rightarrow> Some (ErrorString (''invalid `m`: '' @ mStr))))
           | _ \<Rightarrow> Some (ErrorString (''invalid dimension: '' @ dimStr))))"

definition not_divided :: "int \<Rightarrow> int \<Rightarrow> go_error" where
  "not_divided dimension m =
     ErrorString (''dimension must be able to be divided by `m`, dimension: '' @ string_of_int dimension @ '', m: '' @ string_of_int m)"

definition checkCPUPQParams :: "int \<Rightarrow> int \<Rightarrow> go_error option" where
  "checkCPUPQParams dimension m =
     require (dimension smod m = 0) (not_divided dimension m) None"

definition ivfPQChecker :: IndexChecker where
  "ivfPQChecker = ivfBaseChecker\<lparr>
     CheckTrain := (\<lambda>params. and_then (CheckTrain ivfBaseChecker params) (checkPQParams checkCPUPQParams False params))\<rparr>"

definition raft_check :: "int \<Rightarrow> int \<Rightarrow> go_error option" where
  "raft_check dimension m =
     (if m = 0 then None
      else require (dimension smod m = 0) (not_divided dimension m) None)"

definition raftIVFPQChecker :: IndexChecker where
  "raftIVFPQChecker = ivfBaseChecker\<lparr>
     CheckTrain := (\<lambda>params. and_then (CheckTrain ivfBaseChecker params) (checkPQParams raft_check True params))\<rparr>"

definition checkNBits :: "params \<Rightarrow> go_error option" where
  "checkNBits params =
     (case params ''nbits'' of
        None \<Rightarrow> None
      | Some _ \<Rightarrow> require (CheckIntByRange params ''nbits'' (DefaultNBits, DefaultNBits))
                   (ErrorString ''nbits can be only set to 8 for IVF_SQ'') None)"

definition ivfSQChecker :: IndexChecker where
  "ivfSQChecker = ivfBaseChecker\<lparr>
     CheckTrain := (\<lambda>params. and_then (checkNBits params) (CheckTrain ivfBaseChecker params))\<rparr>"

definition checkScaNNParams :: "params \<Rightarrow> go_error option" where
  "checkScaNNParams params =
     (case params ''dim'' of
        None \<Rightarrow> Some (ErrorString ''dimension not found'')
      | Some dimStr \<Rightarrow>
          (case Atoi dimStr of
             Ok dimension \<Rightarrow> require (dimension smod 2 = 0) (ErrorString (''dimension must be able to be divided by 2, dimension: '' @ string_of_int dimension)) None
           | _ \<Rightarrow> Some (ErrorString (''invalid dimension: '' @ dimStr))))"

definition scaNNChecker :: IndexChecker where
  "scaNNChecker = ivfBaseChecker\<lparr>
     CheckTrain := (\<lambda>params. and_then (CheckTrain ivfBaseChecker params) (checkScaNNParams params))\<rparr>"

definition flatChecker :: IndexChecker where
  "flatChecker = floatVectorBaseChecker\<lparr>StaticCheck := float_staticCheck\<rparr>"

definition diskannChecker :: IndexChecker where
  "diskannChecker = floatVectorBaseChecker\<lparr>StaticCheck := float_staticCheck\<rparr>"

definition binFlatChecker :: IndexChecker where
  "binFlatChecker = binaryVectorBaseChecker\<lparr>
     CheckTrain := CheckTrain binaryVectorBaseChecker, StaticCheck := binary_staticCheck\<rparr>"

definition binIVFFlat_StaticCheck :: "params \<Rightarrow> go_error option" where
  "binIVFFlat_StaticCheck params =
     require (CheckStrByValues params ''metric_type'' BinIvfMetrics) (metric_error BinIvfMetrics)
       (require (CheckIntByRange params ''nlist'' nlist_bounds) (errOutOfRange ''nlist'' nlist_bounds) None)"

definition binIVFFlatChecker :: IndexChecker where
  "binIVFFlatChecker = binaryVectorBaseChecker\<lparr>
     CheckTrain := (\<lambda>params. and_then (CheckTrain binaryVectorBaseChecker params) (binIVFFlat_StaticCheck params)),
     StaticCheck := binIVFFlat_StaticCheck\<rparr>"

definition hnsw_StaticCheck :: "params \<Rightarrow> go_error option" where
  "hnsw_StaticCheck params =
     require (CheckIntByRange params ''efConstruction'' ef_bounds) (errOutOfRange ''efConstruction'' ef_bounds)
       (require (CheckIntByRange params ''M'' hnswm_bounds) (errOutOfRange ''M'' hnswm_bounds)
         (require (CheckStrByValues params ''metric_type'' HnswMetrics) (metric_error HnswMetrics) None))"

definition hnswChecker :: IndexChecker where
  "hnswChecker = floatVectorBaseChecker\<lparr>
     StaticCheck := hnsw_StaticCheck,
     CheckTrain := (\<lambda>params. and_then (hnsw_StaticCheck params) (CheckTrain baseChecker params)),
     CheckValidDataType := (\<lambda>dType. require (dType = DT_FloatVector \<or> dType = DT_BinaryVector)
       (ErrorString ''only support float vector or binary vector'') None)\<rparr>"

text \<open>The manager registers one checker for each type of index; there is none for the other GPU indexes.\<close>

definition IsGpuIndex :: "string \<Rightarrow> bool" where
  "IsGpuIndex indexType \<longleftrightarrow> indexType \<in> {''GPU_BRUTE_FORCE'', ''GPU_IVF_FLAT'', ''GPU_IVF_PQ'', ''GPU_CAGRA''}"

definition registerIndexChecker :: "string \<rightharpoonup> IndexChecker" where
  "registerIndexChecker = [
     ''GPU_IVF_FLAT'' \<mapsto> ivfBaseChecker, ''GPU_IVF_PQ'' \<mapsto> raftIVFPQChecker, ''FLAT'' \<mapsto> flatChecker,
     ''IVF_FLAT'' \<mapsto> ivfBaseChecker, ''IVF_PQ'' \<mapsto> ivfPQChecker, ''SCANN'' \<mapsto> scaNNChecker,
     ''IVF_SQ8'' \<mapsto> ivfSQChecker, ''BIN_FLAT'' \<mapsto> binFlatChecker, ''BIN_IVF_FLAT'' \<mapsto> binIVFFlatChecker,
     ''HNSW'' \<mapsto> hnswChecker, ''DISKANN'' \<mapsto> diskannChecker]"

definition GetChecker :: "string \<Rightarrow> IndexChecker res" where
  "GetChecker indexType =
     (case registerIndexChecker indexType of
        Some adapter \<Rightarrow> Ok adapter
      | None \<Rightarrow> Err (ErrorString (''Can not find conf adapter: '' @ indexType)))"

section \<open>What every checker promises\<close>

text \<open>The interface of the checkers with what its users rely on: what passes before training passes the static check,
  has a dimension and a supported metric, and the default metric is a supported one.\<close>

locale index_checker =
  fixes c :: IndexChecker
    and metrics :: "string list"
    and default_metric :: string
    and types :: "DataType set"
  assumes train_static: "CheckTrain c p = None \<Longrightarrow> StaticCheck c p = None"
    and train_dim: "CheckTrain c p = None \<Longrightarrow> CheckIntByRange p ''dim'' dim_bounds"
    and train_metric: "CheckTrain c p = None \<Longrightarrow> CheckStrByValues p ''metric_type'' metrics"
    and set_default: "SetDefaultMetricTypeIfNotExist c p = setDefaultIfNotExist p ''metric_type'' default_metric"
    and default_supported: "default_metric \<in> set metrics"
    and valid_type: "CheckValidDataType c t = None \<longleftrightarrow> t \<in> types"
begin

lemma default_idem:
  "SetDefaultMetricTypeIfNotExist c (SetDefaultMetricTypeIfNotExist c p) = SetDefaultMetricTypeIfNotExist c p"
  by (simp add: set_default setDefaultIfNotExist_def)

lemma default_metric_accepted:
  "p ''metric_type'' = None \<Longrightarrow> CheckStrByValues (SetDefaultMetricTypeIfNotExist c p) ''metric_type'' metrics"
  using default_supported
  by (auto simp: set_default setDefaultIfNotExist_def CheckStrByValues_def SliceContain_def list_ex_iff)

lemma default_keeps: "key \<noteq> ''metric_type'' \<Longrightarrow> SetDefaultMetricTypeIfNotExist c p key = p key"
  by (simp add: set_default setDefaultIfNotExist_def)

lemma train_vector: "CheckTrain c p = None \<Longrightarrow> p ''metric_type'' \<noteq> None"
  using train_metric [of p] by (auto simp: CheckStrByValues_def split: option.splits)

end

lemmas checker_defs = baseChecker_def floatVectorBaseChecker_def binaryVectorBaseChecker_def ivfBaseChecker_def
  ivfPQChecker_def raftIVFPQChecker_def ivfSQChecker_def scaNNChecker_def flatChecker_def diskannChecker_def
  binFlatChecker_def binIVFFlatChecker_def hnswChecker_def

lemmas static_defs = float_staticCheck_def binary_staticCheck_def ivf_StaticCheck_def binIVFFlat_StaticCheck_def
  hnsw_StaticCheck_def

lemmas metric_lists = METRICS_def BinIDMapMetrics_def BinIvfMetrics_def HnswMetrics_def

interpretation flat: index_checker flatChecker METRICS COSINE "{DT_FloatVector}"
  by unfold_locales (simp_all add: checker_defs static_defs metric_lists)

interpretation diskann: index_checker diskannChecker METRICS COSINE "{DT_FloatVector}"
  by unfold_locales (simp_all add: checker_defs static_defs metric_lists)

interpretation ivf: index_checker ivfBaseChecker METRICS COSINE "{DT_FloatVector}"
  by unfold_locales (simp_all add: checker_defs static_defs metric_lists)

interpretation ivf_pq: index_checker ivfPQChecker METRICS COSINE "{DT_FloatVector}"
  by unfold_locales (simp_all add: checker_defs static_defs metric_lists)

interpretation raft_ivf_pq: index_checker raftIVFPQChecker METRICS COSINE "{DT_FloatVector}"
  by unfold_locales (simp_all add: checker_defs static_defs metric_lists)

interpretation ivf_sq: index_checker ivfSQChecker METRICS COSINE "{DT_FloatVector}"
  by unfold_locales (simp_all add: checker_defs static_defs metric_lists)

interpretation scann: index_checker scaNNChecker METRICS COSINE "{DT_FloatVector}"
  by unfold_locales (simp_all add: checker_defs static_defs metric_lists)

interpretation bin_flat: index_checker binFlatChecker BinIDMapMetrics HAMMING "{DT_BinaryVector}"
  by unfold_locales (simp_all add: checker_defs static_defs metric_lists)

interpretation bin_ivf: index_checker binIVFFlatChecker BinIvfMetrics HAMMING "{DT_BinaryVector}"
  by unfold_locales (simp_all add: checker_defs static_defs metric_lists)

interpretation hnsw: index_checker hnswChecker HnswMetrics COSINE "{DT_FloatVector, DT_BinaryVector}"
  by unfold_locales (auto simp: checker_defs static_defs metric_lists)

section \<open>Which parameters an index may be built with\<close>

definition int_param :: "params \<Rightarrow> string \<Rightarrow> int \<Rightarrow> bool" where
  "int_param p key v \<longleftrightarrow> (\<exists>s. p key = Some s \<and> ParseInt s = Some v)"

definition int_within :: "params \<Rightarrow> string \<Rightarrow> int \<Rightarrow> int \<Rightarrow> bool" where
  "int_within p key lo hi \<longleftrightarrow> (\<exists>v. int_param p key v \<and> lo \<le> v \<and> v \<le> hi)"

definition one_of :: "params \<Rightarrow> string \<Rightarrow> string list \<Rightarrow> bool" where
  "one_of p key vs \<longleftrightarrow> (\<exists>v \<in> set vs. p key = Some v)"

definition metrics_of :: "string \<Rightarrow> string list" where
  "metrics_of t = (if t = ''BIN_FLAT'' \<or> t = ''BIN_IVF_FLAT'' then
       (if t = ''BIN_FLAT'' then [HAMMING, JACCARD, SUBSTRUCTURE, SUPERSTRUCTURE] else [HAMMING, JACCARD])
     else if t = ''HNSW'' then [L2, IP, COSINE, HAMMING, JACCARD] else [L2, IP, COSINE])"

definition index_types :: "string list" where
  "index_types = [''FLAT'', ''DISKANN'', ''IVF_FLAT'', ''GPU_IVF_FLAT'', ''IVF_PQ'', ''GPU_IVF_PQ'', ''IVF_SQ8'', ''SCANN'',
     ''BIN_FLAT'', ''BIN_IVF_FLAT'', ''HNSW'']"

definition clustered :: "string \<Rightarrow> bool" where
  "clustered t \<longleftrightarrow> t \<in> {''IVF_FLAT'', ''GPU_IVF_FLAT'', ''IVF_PQ'', ''GPU_IVF_PQ'', ''IVF_SQ8'', ''SCANN'', ''BIN_IVF_FLAT''}"

text \<open>The parameters a type may be built with: product quantisation cuts a vector of dimension \<open>d\<close> into \<open>m\<close> equal
  parts, of which there is at least one (the GPU library chooses their number itself when \<open>m\<close> is 0).\<close>

definition cuts_into :: "int \<Rightarrow> int \<Rightarrow> bool" where
  "cuts_into d m \<longleftrightarrow> 0 < m \<and> (\<exists>k. d = m * k)"

definition buildable :: "string \<Rightarrow> params \<Rightarrow> bool" where
  "buildable t p \<longleftrightarrow>
     int_within p ''dim'' 1 32768
   \<and> one_of p ''metric_type'' (metrics_of t)
   \<and> (clustered t \<longrightarrow> int_within p ''nlist'' 1 65536)
   \<and> (t = ''IVF_PQ'' \<longrightarrow> (\<exists>d m. int_param p ''dim'' d \<and> int_param p ''m'' m \<and> cuts_into d m))
   \<and> (t = ''GPU_IVF_PQ'' \<longrightarrow> (\<exists>d m. int_param p ''dim'' d \<and> int_param p ''m'' m \<and> (m = 0 \<or> cuts_into d m)))
   \<and> (t = ''IVF_PQ'' \<or> t = ''GPU_IVF_PQ'' \<longrightarrow> p ''nbits'' = None \<or> (\<exists>n. int_param p ''nbits'' n))
   \<and> (t = ''IVF_SQ8'' \<longrightarrow> p ''nbits'' = None \<or> int_param p ''nbits'' 8)
   \<and> (t = ''SCANN'' \<longrightarrow> (\<exists>d. int_param p ''dim'' d \<and> even d))
   \<and> (t = ''HNSW'' \<longrightarrow> int_within p ''efConstruction'' 1 2147483647 \<and> int_within p ''M'' 1 2048)"

definition negative_m :: "string \<Rightarrow> params \<Rightarrow> bool" where
  "negative_m t p \<longleftrightarrow> (t = ''IVF_PQ'' \<or> t = ''GPU_IVF_PQ'') \<and> (\<exists>m. int_param p ''m'' m \<and> m < 0)"

definition vector_types :: "string \<Rightarrow> DataType set" where
  "vector_types t = (if t = ''HNSW'' then {DT_FloatVector, DT_BinaryVector}
     else if t = ''BIN_FLAT'' \<or> t = ''BIN_IVF_FLAT'' then {DT_BinaryVector} else {DT_FloatVector})"

text \<open>The condition the checks amount to.\<close>

definition passes :: "string \<Rightarrow> params \<Rightarrow> bool" where
  "passes t p \<longleftrightarrow>
     int_within p ''dim'' 1 32768
   \<and> one_of p ''metric_type'' (metrics_of t)
   \<and> (clustered t \<longrightarrow> int_within p ''nlist'' 1 65536)
   \<and> (t = ''IVF_PQ'' \<longrightarrow> (\<exists>d m. int_param p ''dim'' d \<and> int_param p ''m'' m \<and> m \<noteq> 0 \<and> m dvd d))
   \<and> (t = ''GPU_IVF_PQ'' \<longrightarrow> (\<exists>d m. int_param p ''dim'' d \<and> int_param p ''m'' m \<and> (m = 0 \<or> m dvd d)))
   \<and> (t = ''IVF_PQ'' \<or> t = ''GPU_IVF_PQ'' \<longrightarrow> p ''nbits'' = None \<or> (\<exists>n. int_param p ''nbits'' n))
   \<and> (t = ''IVF_SQ8'' \<longrightarrow> p ''nbits'' = None \<or> int_param p ''nbits'' 8)
   \<and> (t = ''SCANN'' \<longrightarrow> (\<exists>d. int_param p ''dim'' d \<and> even d))
   \<and> (t = ''HNSW'' \<longrightarrow> int_within p ''efConstruction'' 1 2147483647 \<and> int_within p ''M'' 1 2048)"

lemma Atoi_Ok [simp]: "Atoi s = Ok v \<longleftrightarrow> ParseInt s = Some v"
  by (simp add: Atoi_def split: option.splits)

lemma is_Ok_Atoi: "is_Ok (Atoi s) \<longleftrightarrow> (\<exists>v. ParseInt s = Some v)"
  by (auto simp: Atoi_def split: option.splits)

lemma range_check: "CheckIntByRange p key (lo, hi) \<longleftrightarrow> int_within p key lo hi"
  by (auto simp: CheckIntByRange_def int_within_def int_param_def Atoi_def split: option.splits)

lemma value_check: "CheckStrByValues p key vs \<longleftrightarrow> one_of p key vs"
  by (auto simp: CheckStrByValues_def one_of_def SliceContain_def list_ex_iff split: option.splits)

lemma smod_zero_dvd: "m \<noteq> 0 \<Longrightarrow> (d::int) smod m = 0 \<longleftrightarrow> m dvd d"
  by (auto simp: signed_modulo_int_def sgn_if abs_if dvd_eq_mod_eq_0 [symmetric] mod_eq_0_iff_dvd)

lemma pq_check:
  "checkPQParams checkCPUPQParams False p = None \<longleftrightarrow>
     (\<exists>d m. int_param p ''dim'' d \<and> int_param p ''m'' m \<and> m \<noteq> 0 \<and> m dvd d)
     \<and> (p ''nbits'' = None \<or> (\<exists>n. int_param p ''nbits'' n))"
  "checkPQParams raft_check True p = None \<longleftrightarrow>
     (\<exists>d m. int_param p ''dim'' d \<and> int_param p ''m'' m \<and> (m = 0 \<or> m dvd d))
     \<and> (p ''nbits'' = None \<or> (\<exists>n. int_param p ''nbits'' n))"
  by (auto simp: checkPQParams_def checkCPUPQParams_def raft_check_def int_param_def is_Ok_Atoi Atoi_def smod_zero_dvd
      split: option.splits)

lemma nbits_check: "checkNBits p = None \<longleftrightarrow> p ''nbits'' = None \<or> int_param p ''nbits'' 8"
  by (auto simp: checkNBits_def range_check DefaultNBits_def int_within_def int_param_def split: option.splits)

lemma scann_check: "checkScaNNParams p = None \<longleftrightarrow> (\<exists>d. int_param p ''dim'' d \<and> even d)"
  by (auto simp: checkScaNNParams_def int_param_def Atoi_def smod_zero_dvd split: option.splits)

lemma one_of_sub: "one_of p key vs \<Longrightarrow> set vs \<subseteq> set ws \<Longrightarrow> one_of p key ws"
  by (auto simp: one_of_def)

lemmas check_simps = range_check value_check pq_check nbits_check scann_check bounds_defs

lemma train_float:
  "CheckTrain floatVectorBaseChecker p = None \<longleftrightarrow> int_within p ''dim'' 1 32768 \<and> one_of p ''metric_type'' METRICS"
  by (simp add: floatVectorBaseChecker_def baseChecker_def float_staticCheck_def check_simps)

lemma train_binary:
  "CheckTrain binaryVectorBaseChecker p = None \<longleftrightarrow> int_within p ''dim'' 1 32768 \<and> one_of p ''metric_type'' BinIDMapMetrics"
  by (simp add: binaryVectorBaseChecker_def baseChecker_def binary_staticCheck_def check_simps)

lemma train_ivf:
  "CheckTrain ivfBaseChecker p = None \<longleftrightarrow>
     int_within p ''dim'' 1 32768 \<and> one_of p ''metric_type'' METRICS \<and> int_within p ''nlist'' 1 65536"
  by (auto simp: ivfBaseChecker_def ivf_StaticCheck_def float_staticCheck_def train_float check_simps)

lemma train_others:
  "CheckTrain flatChecker p = None \<longleftrightarrow> CheckTrain floatVectorBaseChecker p = None"
  "CheckTrain diskannChecker p = None \<longleftrightarrow> CheckTrain floatVectorBaseChecker p = None"
  "CheckTrain binFlatChecker p = None \<longleftrightarrow> CheckTrain binaryVectorBaseChecker p = None"
  "CheckTrain binIVFFlatChecker p = None \<longleftrightarrow>
     int_within p ''dim'' 1 32768 \<and> one_of p ''metric_type'' BinIvfMetrics \<and> int_within p ''nlist'' 1 65536"
  "CheckTrain hnswChecker p = None \<longleftrightarrow> int_within p ''dim'' 1 32768 \<and> one_of p ''metric_type'' HnswMetrics
     \<and> int_within p ''efConstruction'' 1 2147483647 \<and> int_within p ''M'' 1 2048"
proof -
  show "CheckTrain binIVFFlatChecker p = None \<longleftrightarrow>
      int_within p ''dim'' 1 32768 \<and> one_of p ''metric_type'' BinIvfMetrics \<and> int_within p ''nlist'' 1 65536"
    using one_of_sub [of p "''metric_type''" BinIvfMetrics BinIDMapMetrics]
    by (auto simp: binIVFFlatChecker_def binIVFFlat_StaticCheck_def train_binary check_simps BinIvfMetrics_def
        BinIDMapMetrics_def)
  show "CheckTrain hnswChecker p = None \<longleftrightarrow> int_within p ''dim'' 1 32768 \<and> one_of p ''metric_type'' HnswMetrics
      \<and> int_within p ''efConstruction'' 1 2147483647 \<and> int_within p ''M'' 1 2048"
    by (auto simp: hnswChecker_def hnsw_StaticCheck_def baseChecker_def check_simps)
qed (simp_all add: flatChecker_def diskannChecker_def binFlatChecker_def)

lemma train_pq:
  "CheckTrain ivfPQChecker p = None \<longleftrightarrow> CheckTrain ivfBaseChecker p = None \<and> checkPQParams checkCPUPQParams False p = None"
  "CheckTrain raftIVFPQChecker p = None \<longleftrightarrow> CheckTrain ivfBaseChecker p = None \<and> checkPQParams raft_check True p = None"
  "CheckTrain ivfSQChecker p = None \<longleftrightarrow> CheckTrain ivfBaseChecker p = None \<and> checkNBits p = None"
  "CheckTrain scaNNChecker p = None \<longleftrightarrow> CheckTrain ivfBaseChecker p = None \<and> checkScaNNParams p = None"
  by (auto simp: ivfPQChecker_def raftIVFPQChecker_def ivfSQChecker_def scaNNChecker_def)

lemmas train_simps = train_pq train_others train_ivf train_float train_binary pq_check nbits_check scann_check

lemma GetChecker_cases:
  assumes "GetChecker t = Ok c"
  obtains "t = ''FLAT''" "c = flatChecker" | "t = ''DISKANN''" "c = diskannChecker"
    | "t = ''IVF_FLAT''" "c = ivfBaseChecker" | "t = ''GPU_IVF_FLAT''" "c = ivfBaseChecker"
    | "t = ''IVF_PQ''" "c = ivfPQChecker" | "t = ''GPU_IVF_PQ''" "c = raftIVFPQChecker"
    | "t = ''IVF_SQ8''" "c = ivfSQChecker" | "t = ''SCANN''" "c = scaNNChecker"
    | "t = ''BIN_FLAT''" "c = binFlatChecker" | "t = ''BIN_IVF_FLAT''" "c = binIVFFlatChecker" | "t = ''HNSW''" "c = hnswChecker"
proof -
  have "t \<in> set index_types"
    using assms by (rule contrapos_pp) (simp add: GetChecker_def registerIndexChecker_def index_types_def)
  with assms that show thesis
    unfolding index_types_def list.set insert_iff empty_iff
    by (elim disjE) (simp_all add: GetChecker_def registerIndexChecker_def)
qed

lemma train_passes: "GetChecker t = Ok c \<Longrightarrow> CheckTrain c p = None \<longleftrightarrow> passes t p"
  by (erule GetChecker_cases; hypsubst; simp add: train_simps passes_def metrics_of_def clustered_def metric_lists
      conj_commute conj_left_commute)

lemma passes_buildable:
  "buildable t p \<Longrightarrow> passes t p" "passes t p \<Longrightarrow> buildable t p \<or> negative_m t p"
proof -
  have cuts: "cuts_into d m \<Longrightarrow> m \<noteq> 0 \<and> m dvd d" "m dvd d \<Longrightarrow> m < 0 \<or> m = 0 \<or> cuts_into d m" for d m
    by (auto simp: cuts_into_def)
  show "passes t p" if h: "buildable t p"
  proof -
    have 1: "\<exists>d m. int_param p ''dim'' d \<and> int_param p ''m'' m \<and> m \<noteq> 0 \<and> m dvd d" if t: "t = ''IVF_PQ''"
    proof -
      from h t obtain d m where "int_param p ''dim'' d" "int_param p ''m'' m" "cuts_into d m" by (auto simp: buildable_def)
      then show ?thesis using cuts(1) by blast
    qed
    have 2: "\<exists>d m. int_param p ''dim'' d \<and> int_param p ''m'' m \<and> (m = 0 \<or> m dvd d)" if t: "t = ''GPU_IVF_PQ''"
    proof -
      from h t obtain d m where "int_param p ''dim'' d" "int_param p ''m'' m" "m = 0 \<or> cuts_into d m"
        by (auto simp: buildable_def)
      then show ?thesis using cuts(1) by blast
    qed
    from h 1 2 show ?thesis by (simp add: buildable_def passes_def)
  qed
  show "buildable t p \<or> negative_m t p" if h: "passes t p"
  proof (cases "negative_m t p")
    case False
    have 1: "\<exists>d m. int_param p ''dim'' d \<and> int_param p ''m'' m \<and> cuts_into d m" if t: "t = ''IVF_PQ''"
    proof -
      from h t obtain d m where m: "int_param p ''dim'' d" "int_param p ''m'' m" "m \<noteq> 0" "m dvd d"
        by (auto simp: passes_def)
      moreover from False t m(2) have "\<not> m < 0" by (auto simp: negative_m_def)
      ultimately show ?thesis using cuts(2) by blast
    qed
    have 2: "\<exists>d m. int_param p ''dim'' d \<and> int_param p ''m'' m \<and> (m = 0 \<or> cuts_into d m)" if t: "t = ''GPU_IVF_PQ''"
    proof -
      from h t obtain d m where m: "int_param p ''dim'' d" "int_param p ''m'' m" "m = 0 \<or> m dvd d"
        by (auto simp: passes_def)
      moreover from False t m(2) have "\<not> m < 0" by (auto simp: negative_m_def)
      ultimately show ?thesis using cuts(2) by blast
    qed
    from h 1 2 have "buildable t p" by (simp add: buildable_def passes_def)
    then show ?thesis ..
  qed simp
qed

lemma default_of: "GetChecker t = Ok c \<Longrightarrow> \<exists>v. SetDefaultMetricTypeIfNotExist c p = setDefaultIfNotExist p ''metric_type'' v"
  by (erule GetChecker_cases; hypsubst; rule exI; rule flat.set_default diskann.set_default ivf.set_default
      ivf_pq.set_default raft_ivf_pq.set_default ivf_sq.set_default scann.set_default bin_flat.set_default
      bin_ivf.set_default hnsw.set_default)

lemma metrics_named:
  "metrics_of t = (if t = ''BIN_FLAT'' then BinIDMapMetrics else if t = ''BIN_IVF_FLAT'' then BinIvfMetrics
     else if t = ''HNSW'' then HnswMetrics else METRICS)"
  by (simp add: metrics_of_def metric_lists)

text \<open>What the users of a checker rely on, for each type the interface's facts about its checker.\<close>

lemma checker_promises:
  assumes "GetChecker t = Ok c"
  shows "CheckTrain c p = None \<Longrightarrow> StaticCheck c p = None"
    and "CheckValidDataType c d = None \<longleftrightarrow> d \<in> vector_types t"
    and "p ''metric_type'' = None \<Longrightarrow> one_of (SetDefaultMetricTypeIfNotExist c p) ''metric_type'' (metrics_of t)"
    and "p ''metric_type'' = None \<Longrightarrow> SetDefaultMetricTypeIfNotExist c p =
           p(''metric_type'' \<mapsto> the (SetDefaultMetricTypeIfNotExist c p ''metric_type''))"
    and "p ''metric_type'' \<noteq> None \<Longrightarrow> SetDefaultMetricTypeIfNotExist c p = p"
proof -
  show "CheckTrain c p = None \<Longrightarrow> StaticCheck c p = None"
    using assms by (rule GetChecker_cases) (simp_all add: flat.train_static diskann.train_static ivf.train_static
        ivf_pq.train_static raft_ivf_pq.train_static ivf_sq.train_static scann.train_static bin_flat.train_static
        bin_ivf.train_static hnsw.train_static)
  show "CheckValidDataType c d = None \<longleftrightarrow> d \<in> vector_types t"
    using assms by (rule GetChecker_cases) (simp_all add: vector_types_def flat.valid_type diskann.valid_type ivf.valid_type
        ivf_pq.valid_type raft_ivf_pq.valid_type ivf_sq.valid_type scann.valid_type bin_flat.valid_type
        bin_ivf.valid_type hnsw.valid_type)
  show "p ''metric_type'' = None \<Longrightarrow> one_of (SetDefaultMetricTypeIfNotExist c p) ''metric_type'' (metrics_of t)"
    unfolding value_check [symmetric]
    using assms by (rule GetChecker_cases) (simp_all add: metrics_named
        flat.default_metric_accepted diskann.default_metric_accepted ivf.default_metric_accepted
        ivf_pq.default_metric_accepted raft_ivf_pq.default_metric_accepted ivf_sq.default_metric_accepted
        scann.default_metric_accepted bin_flat.default_metric_accepted bin_ivf.default_metric_accepted
        hnsw.default_metric_accepted)
  note d = default_of [OF assms, of p]
  from d show "p ''metric_type'' = None \<Longrightarrow> SetDefaultMetricTypeIfNotExist c p =
           p(''metric_type'' \<mapsto> the (SetDefaultMetricTypeIfNotExist c p ''metric_type''))"
    by (auto simp: setDefaultIfNotExist_def)
  from d show "p ''metric_type'' \<noteq> None \<Longrightarrow> SetDefaultMetricTypeIfNotExist c p = p"
    by (auto simp: setDefaultIfNotExist_def)
qed


definition sample_pq :: "string \<Rightarrow> params" where
  "sample_pq m = [''dim'' \<mapsto> ''128'', ''metric_type'' \<mapsto> ''L2'', ''nlist'' \<mapsto> ''1024'', ''m'' \<mapsto> m]"

lemma sample_numbers:
  "ParseInt ''128'' = Some 128" "ParseInt ''1024'' = Some 1024" "ParseInt ''-4'' = Some (- 4)" "ParseInt ''4'' = Some 4"
  by (simp_all add: ParseInt_def ParseUint_def)

lemmas sample_pq_simps = sample_pq_def sample_numbers int_within_def int_param_def one_of_def metrics_of_def clustered_def
  metric_names


text \<open>A negative \<open>m\<close> does pass: only zero is excluded.\<close>

lemma negative_m_accepted:
  "CheckTrain ivfPQChecker (sample_pq ''-4'') = None \<and> \<not> buildable ''IVF_PQ'' (sample_pq ''-4'')"
proof -
  have "GetChecker ''IVF_PQ'' = Ok ivfPQChecker" by (simp add: GetChecker_def registerIndexChecker_def)
  moreover have "passes ''IVF_PQ'' (sample_pq ''-4'')" by (simp add: passes_def sample_pq_simps)
  moreover have "\<not> buildable ''IVF_PQ'' (sample_pq ''-4'')"
    by (simp add: buildable_def cuts_into_def sample_pq_simps)
  ultimately show ?thesis by (simp add: train_passes)
qed

end
