(* ===== verification/Parallel.thy ===== *)
theory Parallel
  imports Merr "HOL-Library.Sublist"
begin

text \<open>
  pkg/util/funcutil/parallel.go: \<open>ProcessFuncParallel\<close> and \<open>ProcessTaskParallel\<close> run a function over the indices
  below \<open>total\<close>, cut into batches, one goroutine for each batch, and stop at the first error.

  The function \<open>f\<close> of the caller answers for an index with nil or an error. The program is a step relation: the
  main routine and the goroutines take turns in any order; a send on an unbuffered channel and the receipt by the
  main loop are one step, and so is the choice of a closed \<open>quit\<close> channel. \<open>rt_calls\<close> records the indices for which
  a goroutine has called \<open>f\<close>. \<open>wg.Wait\<close> waits for every goroutine to end. The sum from which the size of a batch
  is computed wraps at 64 bits; the later sums do not when this one does not (the last batch ends below it).
\<close>

section \<open>Batches\<close>

definition nPerBatch :: "int \<Rightarrow> int \<Rightarrow> nat" where
  "nPerBatch tot maxParallel =
     (let mp = (if maxParallel \<le> 0 then 1 else maxParallel) in nat (wrap64 (tot + mp - 1) sdiv mp))"

definition fits64 :: "int \<Rightarrow> int \<Rightarrow> bool" where
  "fits64 tot maxParallel \<longleftrightarrow> tot + max 1 maxParallel - 1 < 2 ^ 63"

text \<open>When the sum wraps it is negative and the size of a batch is 0 or negative. With 0 the loop of \<open>begin\<close> starts
  goroutines without end; a negative size is taken for 0 here (\<open>begin\<close> only grows again after it has wrapped).

  The first index of the batches from \<open>b\<close> on, with the index after the last.\<close>

function batches :: "nat \<Rightarrow> nat \<Rightarrow> nat \<Rightarrow> (nat \<times> nat) list" where
  "batches tot n b = (if b < tot \<and> 0 < n then (b, min tot (b + n)) # batches tot n (b + n) else [])"
  by auto
termination by (relation "measure (\<lambda>(tot, n, b). tot - b)") auto

declare batches.simps [simp del]

lemma nPerBatch_pos:
  assumes "0 < tot" and "fits64 tot maxParallel"
  shows "0 < nPerBatch tot maxParallel"
proof -
  define mp where "mp = (if maxParallel \<le> 0 then 1 else maxParallel)"
  have "1 \<le> mp" by (simp add: mp_def)
  have "tot + mp - 1 < 2 ^ 63" using assms(2) by (auto simp: fits64_def mp_def max_def split: if_splits)
  then have w: "wrap64 (tot + mp - 1) = tot + mp - 1" using assms(1) \<open>1 \<le> mp\<close> by (intro wrap64_id) simp_all
  have "mp \<le> tot + mp - 1" "0 \<le> tot + mp - 1" using assms(1) \<open>1 \<le> mp\<close> by simp_all
  then have "1 \<le> (tot + mp - 1) div mp" using \<open>1 \<le> mp\<close> by (simp add: zdiv_mono1 [of mp "tot + mp - 1" mp, simplified])
  then show ?thesis using \<open>1 \<le> mp\<close> \<open>0 \<le> tot + mp - 1\<close>
    by (simp add: nPerBatch_def mp_def [symmetric] sdiv_nonneg Let_def w)
qed

lemma batches_cover:
  assumes "0 < n" and "b \<le> tot"
  shows "concat (map (\<lambda>(i, j). [i..<j]) (batches tot n b)) = [b..<tot]"
  using assms
proof (induction tot n b rule: batches.induct)
  case (1 tot n b)
  show ?case
  proof (cases "b < tot")
    case True
    show ?thesis
    proof (cases "b + n \<le> tot")
      case le: True
      then have "concat (map (\<lambda>(i, j). [i..<j]) (batches tot n (b + n))) = [b + n..<tot]"
        using 1 True by simp
      moreover have "[b..<tot] = [b..<b + n] @ [b + n..<tot]" using le by (metis le_add1 upt_add_eq_append le_add_diff_inverse)
      ultimately show ?thesis using True 1(2) le by (subst batches.simps) (simp add: min_def)
    next
      case False
      then have "batches tot n (b + n) = []" by (subst batches.simps) simp
      then show ?thesis using True 1(2) False by (subst batches.simps) (simp add: min_def)
    qed
  next
    case False
    then show ?thesis using 1(3) by (subst batches.simps) simp
  qed
qed

lemma batches_ordered: "(i, j) \<in> set (batches tot n b) \<Longrightarrow> i < j \<and> j \<le> tot"
proof (induction tot n b rule: batches.induct)
  case (1 tot n b)
  show ?case
  proof (cases "b < tot \<and> 0 < n")
    case True
    then have "(i, j) = (b, min tot (b + n)) \<or> (i, j) \<in> set (batches tot n (b + n))"
      using 1(2) by (subst (asm) batches.simps) simp
    then show ?thesis using 1(1) True by auto
  next
    case False
    then show ?thesis using 1(2) by (subst (asm) batches.simps) (simp only: if_False, simp)
  qed
qed

section \<open>The routines\<close>

datatype 'e status = Fresh | Working nat | Sending "'e option" | Finished

record 'e routine =
  rt_begin :: nat
  rt_end :: nat
  rt_status :: "'e status"
  rt_calls :: "nat list"

datatype 'e main = Spawning nat | Waiting nat | Joining "'e option" | Returned "'e option"

record 'e par =
  routines :: "'e routine list"
  main :: "'e main"
  quit :: bool

definition initial :: "'e par" where
  "initial = \<lparr>routines = [], main = Spawning 0, quit = False\<rparr>"

definition set_status :: "'e par \<Rightarrow> nat \<Rightarrow> 'e status \<Rightarrow> 'e par" where
  "set_status s i st = s\<lparr>routines := (routines s)[i := (routines s ! i)\<lparr>rt_status := st\<rparr>]\<rparr>"

definition par_call :: "(nat \<Rightarrow> 'e option) \<Rightarrow> 'e par \<Rightarrow> nat \<Rightarrow> nat \<Rightarrow> 'e par" where
  "par_call f s i idx =
     (let r = routines s ! i;
          st = (case f idx of None \<Rightarrow> Working (idx + 1) | Some err \<Rightarrow> Sending (Some err))
      in s\<lparr>routines := (routines s)[i := r\<lparr>rt_status := st, rt_calls := rt_calls r @ [idx]\<rparr>]\<rparr>)"

definition par_received :: "'e par \<Rightarrow> nat \<Rightarrow> nat \<Rightarrow> 'e option \<Rightarrow> 'e par" where
  "par_received s i cnt r =
     (case r of
        Some err \<Rightarrow> (set_status s i Finished)\<lparr>main := Joining (Some err), quit := True\<rparr>
      | None \<Rightarrow> (set_status s i Finished)\<lparr>main :=
                  (if cnt + 1 = length (routines s) then Joining None else Waiting (cnt + 1))\<rparr>)"

inductive par_step :: "nat \<Rightarrow> nat \<Rightarrow> (nat \<Rightarrow> 'e option) \<Rightarrow> 'e par \<Rightarrow> 'e par \<Rightarrow> bool" for tot n f where
  spawn: "main s = Spawning b \<Longrightarrow> b < tot \<Longrightarrow>
    par_step tot n f s (s\<lparr>routines := routines s @ [\<lparr>rt_begin = b, rt_end = min tot (b + n), rt_status = Fresh, rt_calls = []\<rparr>],
      main := Spawning (b + n)\<rparr>)"
| spawned: "main s = Spawning b \<Longrightarrow> \<not> b < tot \<Longrightarrow>
    par_step tot n f s (s\<lparr>main := (if routines s = [] then Returned None else Waiting 0)\<rparr>)"
| start: "i < length (routines s) \<Longrightarrow> rt_status (routines s ! i) = Fresh \<Longrightarrow>
    par_step tot n f s (set_status s i (if quit s then Finished else Working (rt_begin (routines s ! i))))"
| calls: "i < length (routines s) \<Longrightarrow> rt_status (routines s ! i) = Working idx \<Longrightarrow> idx < rt_end (routines s ! i) \<Longrightarrow>
    par_step tot n f s (par_call f s i idx)"
| worked: "i < length (routines s) \<Longrightarrow> rt_status (routines s ! i) = Working idx \<Longrightarrow> \<not> idx < rt_end (routines s ! i) \<Longrightarrow>
    par_step tot n f s (set_status s i (Sending None))"
| send: "i < length (routines s) \<Longrightarrow> rt_status (routines s ! i) = Sending r \<Longrightarrow> main s = Waiting cnt \<Longrightarrow>
    par_step tot n f s (par_received s i cnt r)"
| quits: "i < length (routines s) \<Longrightarrow> rt_status (routines s ! i) = Sending r \<Longrightarrow> quit s \<Longrightarrow>
    par_step tot n f s (set_status s i Finished)"
| join: "main s = Joining r \<Longrightarrow> \<forall>i < length (routines s). rt_status (routines s ! i) = Finished \<Longrightarrow>
    par_step tot n f s (s\<lparr>main := Returned r\<rparr>)"

text \<open>The two functions: every run from the initial state, with the batch size of the arguments.\<close>

definition ProcessFuncParallel :: "int \<Rightarrow> int \<Rightarrow> (nat \<Rightarrow> 'e option) \<Rightarrow> 'e par \<Rightarrow> 'e par \<Rightarrow> bool" where
  "ProcessFuncParallel tot maxParallel f = par_step (nat tot) (nPerBatch tot maxParallel) f"

definition ProcessTaskParallel :: "int \<Rightarrow> 'e option list \<Rightarrow> 'e par \<Rightarrow> 'e par \<Rightarrow> bool" where
  "ProcessTaskParallel maxParallel tasks = ProcessFuncParallel (int (length tasks)) maxParallel (\<lambda>i. tasks ! i)"

section \<open>The invariant\<close>

text \<open>What a goroutine has called, by its status; \<open>q\<close> tells that \<open>quit\<close> has been closed.\<close>

definition none_failed :: "(nat \<Rightarrow> 'e option) \<Rightarrow> nat list \<Rightarrow> bool" where
  "none_failed f js \<longleftrightarrow> list_all (\<lambda>j. f j = None) js"

definition has_failed :: "(nat \<Rightarrow> 'e option) \<Rightarrow> 'e \<Rightarrow> 'e routine \<Rightarrow> bool" where
  "has_failed f err r \<longleftrightarrow> list_ex (\<lambda>j. f j = Some err) (rt_calls r)"

definition calls_upto :: "'e routine \<Rightarrow> nat \<Rightarrow> bool" where
  "calls_upto r k \<longleftrightarrow> rt_begin r \<le> k \<and> k \<le> rt_end r \<and> rt_calls r = [rt_begin r..<k]"

definition completed :: "(nat \<Rightarrow> 'e option) \<Rightarrow> 'e routine \<Rightarrow> bool" where
  "completed f r \<longleftrightarrow> calls_upto r (rt_end r) \<and> none_failed f (rt_calls r)"

definition routine_ok :: "(nat \<Rightarrow> 'e option) \<Rightarrow> bool \<Rightarrow> 'e routine \<Rightarrow> bool" where
  "routine_ok f q r \<longleftrightarrow> rt_begin r < rt_end r \<and> (\<exists>k. calls_upto r k) \<and>
     (case rt_status r of
        Fresh \<Rightarrow> rt_calls r = []
      | Working idx \<Rightarrow> calls_upto r idx \<and> none_failed f (rt_calls r)
      | Sending None \<Rightarrow> completed f r
      | Sending (Some err) \<Rightarrow> has_failed f err r
      | Finished \<Rightarrow> \<not> q \<longrightarrow> completed f r)"

definition finished :: "'e par \<Rightarrow> nat" where
  "finished s = length (filter (\<lambda>r. rt_status r = Finished) (routines s))"

definition spans :: "'e par \<Rightarrow> (nat \<times> nat) list" where
  "spans s = map (\<lambda>r. (rt_begin r, rt_end r)) (routines s)"

definition failed_with :: "(nat \<Rightarrow> 'e option) \<Rightarrow> 'e par \<Rightarrow> 'e \<Rightarrow> bool" where
  "failed_with f s err \<longleftrightarrow> list_ex (has_failed f err) (routines s)"

fun joined :: "(nat \<Rightarrow> 'e option) \<Rightarrow> 'e par \<Rightarrow> 'e option \<Rightarrow> bool" where
  "joined f s None \<longleftrightarrow> \<not> quit s \<and> finished s = length (routines s)"
| "joined f s (Some err) \<longleftrightarrow> quit s \<and> failed_with f s err"

definition main_ok :: "nat \<Rightarrow> nat \<Rightarrow> (nat \<Rightarrow> 'e option) \<Rightarrow> 'e par \<Rightarrow> bool" where
  "main_ok tot n f s \<longleftrightarrow>
     (case main s of
        Spawning b \<Rightarrow> \<not> quit s \<and> batches tot n 0 = spans s @ batches tot n b
      | Waiting c \<Rightarrow> \<not> quit s \<and> finished s = c \<and> c < length (routines s) \<and> spans s = batches tot n 0
      | Joining r \<Rightarrow> joined f s r \<and> spans s = batches tot n 0
      | Returned r \<Rightarrow> joined f s r \<and> finished s = length (routines s) \<and> spans s = batches tot n 0)"

definition par_ok :: "nat \<Rightarrow> nat \<Rightarrow> (nat \<Rightarrow> 'e option) \<Rightarrow> 'e par \<Rightarrow> bool" where
  "par_ok tot n f s \<longleftrightarrow> list_all (routine_ok f (quit s)) (routines s) \<and> main_ok tot n f s
     \<and> ((\<exists>b. main s = Spawning b) \<longrightarrow> finished s = 0)"


lemma filter_update_same:
  "i < length xs \<Longrightarrow> P x = P (xs ! i) \<Longrightarrow> length (filter P (xs[i := x])) = length (filter P xs)"
  by (induction xs arbitrary: i) (auto split: nat.splits)

lemma filter_update_more:
  "i < length xs \<Longrightarrow> P x \<Longrightarrow> \<not> P (xs ! i) \<Longrightarrow> length (filter P (xs[i := x])) = Suc (length (filter P xs))"
  by (induction xs arbitrary: i) (auto split: nat.splits)

lemma filter_all_length: "length (filter P xs) = length xs \<longleftrightarrow> list_all P xs"
  by (metis (no_types, lifting) Ball_set filter_True length_filter_less linorder_not_less order_refl)

lemma list_all_update: "list_all P xs \<Longrightarrow> P x \<Longrightarrow> list_all P (xs[i := x])"
  by (induction xs arbitrary: i) (auto split: nat.splits)

lemma list_ex_update: "list_ex P xs \<Longrightarrow> i < length xs \<Longrightarrow> (P (xs ! i) \<Longrightarrow> P x) \<Longrightarrow> list_ex P (xs[i := x])"
  by (induction xs arbitrary: i) (auto split: nat.splits)

lemma spans_update:
  assumes "rt_begin r = rt_begin (routines s ! i)" "rt_end r = rt_end (routines s ! i)"
  shows "spans (s\<lparr>routines := (routines s)[i := r]\<rparr>) = spans s"
  using assms
  by (cases "i < length (routines s)") (auto simp: spans_def map_update list_update_same_conv list_update_beyond linorder_not_less)

lemma par_more [simp]:
  "spans (s\<lparr>main := m\<rparr>) = spans s" "spans (s\<lparr>quit := q\<rparr>) = spans s"
  "finished (s\<lparr>main := m\<rparr>) = finished s" "finished (s\<lparr>quit := q\<rparr>) = finished s"
  "failed_with f (s\<lparr>main := m\<rparr>) = failed_with f s" "failed_with f (s\<lparr>quit := q\<rparr>) = failed_with f s"
  by (simp_all add: spans_def finished_def failed_with_def fun_eq_iff)

lemma routine_ok_quit: "routine_ok f q r \<Longrightarrow> routine_ok f True r"
  by (auto simp: routine_ok_def split: status.splits option.splits)

text \<open>A step of a goroutine changes only its own record; it ends on its own only when \<open>quit\<close> is closed.\<close>

lemma routine_moves:
  assumes ok: "par_ok tot n f s" and i: "i < length (routines s)"
    and unfinished: "rt_status (routines s ! i) \<noteq> Finished"
    and same: "rt_begin r = rt_begin (routines s ! i)" "rt_end r = rt_end (routines s ! i)"
    and r: "routine_ok f (quit s) r" "rt_status r \<noteq> Finished \<or> quit s"
    and failed: "\<And>err. has_failed f err (routines s ! i) \<Longrightarrow> has_failed f err r"
  shows "par_ok tot n f (s\<lparr>routines := (routines s)[i := r]\<rparr>)"
proof -
  let ?s = "s\<lparr>routines := (routines s)[i := r]\<rparr>"
  have spans: "spans ?s = spans s" using same by (rule spans_update)
  have routines: "list_all (routine_ok f (quit s)) ((routines s)[i := r])"
    using ok r(1) by (simp add: par_ok_def list_all_update)
  have keeps: "failed_with f s err \<Longrightarrow> failed_with f ?s err" for err
    using i failed by (simp add: failed_with_def list_ex_update)
  have few: "finished s < length (routines s)"
    unfolding finished_def using i unfinished by (intro length_filter_less [of "routines s ! i"]) simp_all
  have fin: "finished ?s = finished s" if "\<not> quit s"
    unfolding finished_def using that i unfinished r(2) by (simp add: filter_update_same)
  show ?thesis
  proof (cases "main s")
    case (Joining e)
    then show ?thesis using ok spans routines keeps few by (cases e) (simp_all add: par_ok_def main_ok_def)
  qed (use ok spans routines few fin in \<open>simp_all add: par_ok_def main_ok_def\<close>)
qed


lemma routine_at:
  assumes "par_ok tot n f s" and "i < length (routines s)"
  shows "routine_ok f (quit s) (routines s ! i)"
  using assms by (simp add: par_ok_def list_all_length)

lemma calls_upto_Suc:
  assumes "calls_upto r k" "k < rt_end r"
  shows "calls_upto (r\<lparr>rt_status := st, rt_calls := rt_calls r @ [k]\<rparr>) (Suc k)"
  using assms by (simp add: calls_upto_def)

lemma calls_ok:
  assumes "routine_ok f q r" "rt_status r = Working idx" "idx < rt_end r"
  shows "routine_ok f q (r\<lparr>rt_status := (case f idx of None \<Rightarrow> Working (idx + 1) | Some err \<Rightarrow> Sending (Some err)),
    rt_calls := rt_calls r @ [idx]\<rparr>)" (is "routine_ok f q ?r")
proof -
  have "calls_upto ?r (Suc idx)" using assms by (intro calls_upto_Suc) (simp_all add: routine_ok_def)
  then show ?thesis using assms
    by (cases "f idx") (auto simp: routine_ok_def none_failed_def has_failed_def)
qed

lemma par_ok_initial: "par_ok tot n f initial"
  by (simp add: par_ok_def main_ok_def initial_def finished_def spans_def)

lemma finished_all: "finished s = length (routines s) \<longleftrightarrow> (\<forall>i < length (routines s). rt_status (routines s ! i) = Finished)"
  by (simp add: finished_def filter_all_length list_all_length)

lemma par_received_ok:
  assumes ok: "par_ok tot n f s" and i: "i < length (routines s)" "rt_status (routines s ! i) = Sending r"
    and m: "main s = Waiting cnt"
  shows "par_ok tot n f (par_received s i cnt r)"
proof -
  let ?r = "(routines s ! i)\<lparr>rt_status := Finished\<rparr>"
  let ?s = "s\<lparr>routines := (routines s)[i := ?r]\<rparr>"
  have main: "\<not> quit s" "finished s = cnt" "cnt < length (routines s)" "spans s = batches tot n 0"
    using ok m by (simp_all add: par_ok_def main_ok_def)
  have spans: "spans ?s = spans s" by (rule spans_update) simp_all
  have fin: "finished ?s = Suc (finished s)"
    unfolding finished_def using i by (simp add: filter_update_more)
  have r: "routine_ok f False (routines s ! i)" using routine_at [OF ok i(1)] main by simp
  show ?thesis
  proof (cases r)
    case None
    then have "routine_ok f False ?r" using r i(2) by (auto simp: routine_ok_def completed_def calls_upto_def)
    then have "list_all (routine_ok f False) ((routines s)[i := ?r])"
      using ok main by (simp add: par_ok_def list_all_update)
    then show ?thesis
      using None main spans fin by (simp add: par_received_def set_status_def par_ok_def main_ok_def)
  next
    case (Some err)
    have "routine_ok f True ?r" using r i(2) by (auto simp: routine_ok_def calls_upto_def)
    moreover have "list_all (routine_ok f True) (routines s)"
      using ok by (auto simp: par_ok_def list_all_iff intro: routine_ok_quit)
    ultimately have "list_all (routine_ok f True) ((routines s)[i := ?r])" by (simp add: list_all_update)
    moreover have "failed_with f ?s err"
    proof -
      have "has_failed f err ?r" using r i(2) Some by (simp add: routine_ok_def has_failed_def)
      then show ?thesis using i(1) by (auto simp: failed_with_def list_ex_iff set_update_memI)
    qed
    ultimately show ?thesis
      using Some main spans by (simp add: par_received_def set_status_def par_ok_def main_ok_def)
  qed
qed

lemma par_ok_step:
  assumes "par_step tot n f s s'" and ok: "par_ok tot n f s" and n: "0 < tot \<Longrightarrow> 0 < n"
  shows "par_ok tot n f s'"
  using assms(1)
proof cases
  case (spawn b)
  let ?r = "\<lparr>rt_begin = b, rt_end = min tot (b + n), rt_status = Fresh, rt_calls = []\<rparr>"
  have n: "0 < n" using spawn(3) n by simp
  have "routine_ok f False ?r" using spawn(3) n by (auto simp: routine_ok_def calls_upto_def)
  moreover have "batches tot n b = (b, min tot (b + n)) # batches tot n (b + n)"
    using spawn(3) n by (subst batches.simps) simp
  moreover have "\<not> quit s" using ok spawn(2) by (simp add: par_ok_def main_ok_def)
  ultimately show ?thesis using ok spawn(2)
    by (simp add: spawn(1) par_ok_def main_ok_def spans_def finished_def)
next
  case (spawned b)
  then have "batches tot n b = []" by (subst batches.simps) simp
  then show ?thesis using ok spawned(2)
    by (simp add: spawned(1) par_ok_def main_ok_def) (auto simp: finished_def)
next
  case (start i)
  show ?thesis unfolding start(1) set_status_def
    using start routine_at [OF ok start(2)]
    by (intro routine_moves [OF ok]) (auto simp: routine_ok_def calls_upto_def has_failed_def none_failed_def)
next
  case (calls i idx)
  show ?thesis unfolding calls(1) par_call_def Let_def
    using calls routine_at [OF ok calls(2)]
    by (intro routine_moves [OF ok]) (simp_all add: calls_ok has_failed_def split: option.splits)
next
  case (worked i idx)
  show ?thesis unfolding worked(1) set_status_def
    using worked routine_at [OF ok worked(2)]
    by (intro routine_moves [OF ok]) (auto simp: routine_ok_def completed_def calls_upto_def has_failed_def)
next
  case (send i r cnt)
  then show ?thesis using par_received_ok [OF ok] by simp
next
  case (quits i r)
  show ?thesis unfolding quits(1) set_status_def
    using quits routine_at [OF ok quits(2)]
    by (intro routine_moves [OF ok]) (auto simp: routine_ok_def calls_upto_def has_failed_def)
next
  case (join r)
  then show ?thesis using ok by (cases r) (auto simp: par_ok_def main_ok_def finished_all)
qed


section \<open>Every run ends\<close>

fun status_weight :: "'e routine \<Rightarrow> 'e status \<Rightarrow> nat" where
  "status_weight r Fresh = rt_end r - rt_begin r + 3"
| "status_weight r (Working idx) = rt_end r - idx + 2"
| "status_weight r (Sending e) = 1"
| "status_weight r Finished = 0"

fun main_weight :: "nat \<Rightarrow> nat \<Rightarrow> 'e main \<Rightarrow> nat" where
  "main_weight tot n (Spawning b) = (\<Sum>(i, j)\<leftarrow>batches tot n b. j - i + 4) + 3"
| "main_weight tot n (Waiting c) = 2"
| "main_weight tot n (Joining r) = 1"
| "main_weight tot n (Returned r) = 0"

definition weight :: "nat \<Rightarrow> nat \<Rightarrow> 'e par \<Rightarrow> nat" where
  "weight tot n s = (\<Sum>r\<leftarrow>routines s. status_weight r (rt_status r)) + main_weight tot n (main s)"

lemma sum_update_less:
  "i < length xs \<Longrightarrow> (g x :: nat) < g (xs ! i) \<Longrightarrow> (\<Sum>y\<leftarrow>xs[i := x]. g y) < (\<Sum>y\<leftarrow>xs. g y)"
  by (induction xs arbitrary: i) (auto split: nat.splits)

lemma weight_update:
  assumes "i < length (routines s)"
    and "status_weight r (rt_status r) < status_weight (routines s ! i) (rt_status (routines s ! i))"
  shows "weight tot n (s\<lparr>routines := (routines s)[i := r]\<rparr>) < weight tot n s"
  using sum_update_less [of i "routines s" "\<lambda>r. status_weight r (rt_status r)" r] assms by (simp add: weight_def)

lemma weight_decreases:
  assumes "par_step tot n f s s'" and n: "0 < tot \<Longrightarrow> 0 < n"
  shows "weight tot n s' < weight tot n s"
  using assms(1)
proof cases
  case (spawn b)
  then have "batches tot n b = (b, min tot (b + n)) # batches tot n (b + n)"
    using n by (subst batches.simps) simp
  then show ?thesis using spawn by (simp add: weight_def)
next
  case (start i)
  then show ?thesis unfolding start(1) set_status_def by (intro weight_update) simp_all
next
  case (calls i idx)
  then show ?thesis unfolding calls(1) par_call_def Let_def
    by (intro weight_update) (auto split: option.split)
next
  case (worked i idx)
  then show ?thesis unfolding worked(1) set_status_def by (intro weight_update) simp_all
next
  case (send i r cnt)
  have "weight tot n (set_status s i Finished) < weight tot n s"
    unfolding set_status_def using send by (intro weight_update) simp_all
  then show ?thesis using send by (simp add: par_received_def weight_def set_status_def split: option.split)
next
  case (quits i r)
  then show ?thesis unfolding quits(1) set_status_def by (intro weight_update) simp_all
qed (simp_all add: weight_def)

lemma par_steps_bounded:
  assumes "(par_step tot n f ^^ k) s s'" and n: "0 < tot \<Longrightarrow> 0 < n"
  shows "weight tot n s' + k \<le> weight tot n s"
  using assms(1)
proof (induction k arbitrary: s')
  case (Suc k)
  then obtain u where "(par_step tot n f ^^ k) s u" "par_step tot n f u s'" by auto
  then show ?case using Suc.IH [of u] weight_decreases [of tot n f u s'] n by simp
qed simp

text \<open>No deadlock.\<close>

lemma par_progress:
  assumes ok: "par_ok tot n f s" and m: "\<And>r. main s \<noteq> Returned r"
  shows "\<exists>s'. par_step tot n f s s'"
proof (cases "finished s = length (routines s)")
  case True
  show ?thesis
  proof (cases "main s")
    case (Spawning b)
    then show ?thesis using par_step.spawn par_step.spawned by blast
  next
    case (Waiting c)
    then have "finished s < length (routines s)" using ok by (simp add: par_ok_def main_ok_def)
    then show ?thesis using True by simp
  next
    case (Joining r)
    then show ?thesis using True unfolding finished_all by (blast intro: par_step.join)
  qed (use m in simp)
next
  case False
  then obtain i where i: "i < length (routines s)" "rt_status (routines s ! i) \<noteq> Finished"
    unfolding finished_all by blast
  show ?thesis
  proof (cases "rt_status (routines s ! i)")
    case Fresh
    then show ?thesis using i par_step.start by blast
  next
    case (Working idx)
    then show ?thesis using i par_step.calls par_step.worked by blast
  next
    case (Sending r)
    show ?thesis
    proof (cases "main s")
      case (Spawning b)
      then show ?thesis using par_step.spawn par_step.spawned by blast
    next
      case (Waiting c)
      then show ?thesis using i Sending par_step.send by blast
    next
      case (Joining e)
      then have "quit s" using ok False by (cases e) (simp_all add: par_ok_def main_ok_def)
      then show ?thesis using i Sending par_step.quits by blast
    qed (use m in simp)
  qed (use i in simp)
qed


section \<open>The result\<close>

lemma batches_weight: "0 < n \<Longrightarrow> (\<Sum>(i, j)\<leftarrow>batches tot n b. j - i + 4) = (tot - b) + 4 * length (batches tot n b)"
proof (induction tot n b rule: batches.induct)
  case (1 tot n b)
  then show ?case by (cases "b < tot") (subst (1 2) batches.simps, simp)+
qed

lemma batches_number: "0 < n \<Longrightarrow> tot - b \<le> n * k \<Longrightarrow> length (batches tot n b) \<le> k"
proof (induction tot n b arbitrary: k rule: batches.induct)
  case (1 tot n b)
  show ?case
  proof (cases "b < tot")
    case True
    then obtain k' where k: "k = Suc k'" using 1(2,3) by (cases k) simp_all
    then have "tot - (b + n) \<le> n * k'" using 1(3) by simp
    then have "length (batches tot n (b + n)) \<le> k'" using 1 True by simp
    then show ?thesis using True 1(2) k by (subst batches.simps) simp
  qed (subst batches.simps, simp)
qed

text \<open>At most \<open>maxParallel\<close> goroutines are started.\<close>

lemma batches_parallel:
  assumes "0 < tot" and "1 \<le> mp" and "fits64 tot mp"
  shows "length (batches (nat tot) (nPerBatch tot mp) 0) \<le> nat mp"
proof -
  have "tot + mp - 1 < ((tot + mp - 1) div mp + 1) * mp"
    using assms(2) by (simp add: algebra_simps) (smt (verit) minus_mod_eq_mult_div pos_mod_bound)
  then have "tot \<le> ((tot + mp - 1) div mp) * mp" by (simp add: algebra_simps)
  moreover have "int (nPerBatch tot mp) = (tot + mp - 1) div mp"
    using assms by (simp add: nPerBatch_def fits64_def wrap64_id sdiv_nonneg pos_imp_zdiv_nonneg_iff)
  ultimately have "int (nat tot) \<le> int (nPerBatch tot mp) * int (nat mp)" using assms by simp
  then have "nat tot \<le> nPerBatch tot mp * nat mp" by (metis of_nat_le_iff of_nat_mult)
  then show ?thesis using nPerBatch_pos [OF assms(1,3)] by (intro batches_number) simp_all
qed

lemma batch_size: "fits64 tot maxParallel \<Longrightarrow> 0 < nat tot \<Longrightarrow> 0 < nPerBatch tot maxParallel"
  by (rule nPerBatch_pos) simp_all

text \<open>With batches of size 0 the main routine never gets past the loop that starts the goroutines.\<close>

lemma spawn_forever:
  assumes "(par_step tot 0 f)\<^sup>*\<^sup>* initial s" and "0 < tot"
  shows "main s = Spawning 0 \<and> (\<exists>s'. par_step tot 0 f s s')"
proof -
  from assms have "main s = Spawning 0"
  proof (induction rule: rtranclp_induct)
    case (step s s')
    then show ?case by (auto elim!: par_step.cases simp: set_status_def par_call_def Let_def)
  qed (simp add: initial_def)
  with par_step.spawn [of s 0 tot 0 f] assms(2) show ?thesis by blast
qed

lemma par_ok_reached:
  assumes "(ProcessFuncParallel tot maxParallel f)\<^sup>*\<^sup>* initial s"
    and "0 < nat tot \<Longrightarrow> 0 < nPerBatch tot maxParallel"
  shows "par_ok (nat tot) (nPerBatch tot maxParallel) f s"
  using assms(1)
proof (induction rule: rtranclp_induct)
  case (step s s')
  then show ?case unfolding ProcessFuncParallel_def by (metis par_ok_step assms(2))
qed (rule par_ok_initial)

lemma returned_batch_size:
  assumes "(ProcessFuncParallel tot maxParallel f)\<^sup>*\<^sup>* initial s" and "main s = Returned r" and "0 < nat tot"
  shows "0 < nPerBatch tot maxParallel"
proof (rule ccontr)
  assume "\<not> 0 < nPerBatch tot maxParallel"
  then have "(par_step (nat tot) 0 f)\<^sup>*\<^sup>* initial s" using assms(1) by (simp add: ProcessFuncParallel_def)
  with spawn_forever [OF this assms(3)] assms(2) show False by simp
qed

lemma calls_subseq:
  assumes "list_all (routine_ok f q) rs"
  shows "subseq (concat (map rt_calls rs)) (concat (map (\<lambda>(i, j). [i..<j]) (map (\<lambda>r. (rt_begin r, rt_end r)) rs)))"
  using assms
proof (induction rs)
  case (Cons r rs)
  then obtain k where "calls_upto r k" by (auto simp: routine_ok_def)
  then have "[rt_begin r..<rt_end r] = rt_calls r @ [k..<rt_end r]"
    unfolding calls_upto_def by (metis le_add_diff_inverse upt_add_eq_append)
  then have "prefix (rt_calls r) [rt_begin r..<rt_end r]" by simp
  then show ?case using Cons by (auto intro: list_emb_append_mono prefix_imp_subseq)
qed simp

lemma calls_complete:
  assumes "list_all (completed f) rs"
  shows "concat (map rt_calls rs) = concat (map (\<lambda>(i, j). [i..<j]) (map (\<lambda>r. (rt_begin r, rt_end r)) rs))"
    "none_failed f (concat (map rt_calls rs))"
  using assms by (induction rs) (auto simp: completed_def calls_upto_def none_failed_def)

lemma batches_all:
  assumes "0 < nat tot \<Longrightarrow> 0 < nPerBatch tot mp"
  shows "concat (map (\<lambda>(i, j). [i..<j]) (batches (nat tot) (nPerBatch tot mp) 0)) = [0..<nat tot]"
proof (cases "0 < tot")
  case True
  then show ?thesis using assms by (simp add: batches_cover)
qed (subst batches.simps, simp)


lemma par_stuck:
  assumes ok: "par_ok tot n f s" and m: "main s = Returned r"
  shows "\<not> par_step tot n f s s'"
proof
  have fin: "\<forall>i < length (routines s). rt_status (routines s ! i) = Finished"
    using ok m by (simp add: par_ok_def main_ok_def flip: finished_all)
  assume "par_step tot n f s s'"
  then show False using m fin by cases auto
qed

lemma par_steps_star: "(par_step tot n f ^^ k) s s' \<Longrightarrow> (par_step tot n f)\<^sup>*\<^sup>* s s'"
  by (rule relpowp_imp_rtranclp)

lemma nPerBatch_max: "nPerBatch tot (max 1 maxParallel) = nPerBatch tot maxParallel"
  "fits64 tot (max 1 maxParallel) = fits64 tot maxParallel"
  by (auto simp: nPerBatch_def fits64_def max_def)

lemma batches_none: "batches 0 n b = []"
  by (subst batches.simps) simp

lemma routines_number:
  assumes "par_ok (nat tot) (nPerBatch tot maxParallel) f s" and "fits64 tot maxParallel"
  shows "length (routines s) \<le> nat (max 1 maxParallel)"
proof -
  let ?batches = "batches (nat tot) (nPerBatch tot maxParallel) 0"
  have "length (spans s) \<le> length ?batches"
    using assms(1) by (auto simp: par_ok_def main_ok_def split: main.splits)
  moreover have "length ?batches \<le> nat (max 1 maxParallel)"
    using batches_parallel [of tot "max 1 maxParallel"] assms(2)
    by (cases "0 < tot") (simp_all add: nPerBatch_max batches_none)
  ultimately show ?thesis by (simp add: spans_def)
qed

lemma initial_weight:
  assumes "fits64 tot maxParallel"
  shows "weight (nat tot) (nPerBatch tot maxParallel) initial \<le> nat tot + 4 * nat (max 1 maxParallel) + 3"
proof (cases "0 < tot")
  case True
  then have "length (batches (nat tot) (nPerBatch tot maxParallel) 0) \<le> nat (max 1 maxParallel)"
    using batches_parallel [of tot "max 1 maxParallel"] assms by (simp add: nPerBatch_max)
  then show ?thesis using nPerBatch_pos [OF True assms] by (simp add: weight_def initial_def batches_weight)
qed (simp add: weight_def initial_def batches_none)

text \<open>C30: The parallel loop never deadlocks and always ends, when the number of indices and of goroutines asked for sum
  up to less than \<open>2 ^ 63\<close>: at most \<open>maxParallel\<close> goroutines are started (one when that is not positive), a run
  from the initial state has at most as many steps as there are indices, four for each goroutine and three, and it
  can be continued exactly as long as the function has not returned.\<close>

theorem ProcessFuncParallel_returns:
  assumes "fits64 tot maxParallel" and "(ProcessFuncParallel tot maxParallel f ^^ k) initial s"
  shows "k \<le> nat tot + 4 * nat (max 1 maxParallel) + 3
    \<and> length (routines s) \<le> nat (max 1 maxParallel)
    \<and> ((\<exists>s'. ProcessFuncParallel tot maxParallel f s s') \<longleftrightarrow> (\<forall>r. main s \<noteq> Returned r))"
proof (intro conjI)
  have ok: "par_ok (nat tot) (nPerBatch tot maxParallel) f s"
    using assms by (intro par_ok_reached relpowp_imp_rtranclp batch_size)
  have "k \<le> weight (nat tot) (nPerBatch tot maxParallel) (initial :: 'a par)"
    using par_steps_bounded [OF assms(2) [unfolded ProcessFuncParallel_def] batch_size [OF assms(1)]] by simp
  also note initial_weight [OF assms(1)]
  finally show "k \<le> nat tot + 4 * nat (max 1 maxParallel) + 3" .
  show "length (routines s) \<le> nat (max 1 maxParallel)" using ok assms(1) by (rule routines_number)
  show "(\<exists>s'. ProcessFuncParallel tot maxParallel f s s') \<longleftrightarrow> (\<forall>r. main s \<noteq> Returned r)"
    unfolding ProcessFuncParallel_def using par_progress [OF ok] par_stuck [OF ok] by blast
qed

text \<open>Asked for the largest number of goroutines, the function does not return, whatever the number of indices from 2
  on: the sum has wrapped, the size of a batch is 0 and the first loop does not end.\<close>

lemma ProcessFuncParallel_overflow:
  assumes "2 \<le> tot" and "tot < 2 ^ 63" and "(ProcessFuncParallel tot (2 ^ 63 - 1) f)\<^sup>*\<^sup>* initial s"
  shows "main s = Spawning 0 \<and> (\<exists>s'. ProcessFuncParallel tot (2 ^ 63 - 1) f s s')"
proof -
  have "wrap64 (tot + (2 ^ 63 - 1) - 1) = tot - 2 - 2 ^ 63"
    using assms(1,2) wrap64_add [of "tot - 2 - 2 ^ 63"] by (simp add: wrap64_id algebra_simps)
  then have "nPerBatch tot (2 ^ 63 - 1) = 0"
    using assms(1,2) by (simp add: nPerBatch_def signed_divide_int_def sgn_if div_nonneg_neg_le0 zdiv_mono1)
  with assms(1,3) show ?thesis using spawn_forever [of "nat tot" f s] by (simp add: ProcessFuncParallel_def)
qed

text \<open>A run over one index.\<close>

definition sample_par :: "string routine list \<Rightarrow> string main \<Rightarrow> string par" where
  "sample_par rs m = \<lparr>routines = rs, main = m, quit = False\<rparr>"

definition sample_routine :: "string status \<Rightarrow> nat list \<Rightarrow> string routine" where
  "sample_routine st cs = \<lparr>rt_begin = 0, rt_end = 1, rt_status = st, rt_calls = cs\<rparr>"

lemma sample_routines_run:
  "(ProcessFuncParallel 1 1 (\<lambda>_. None) ^^ 7) initial (sample_par [sample_routine Finished [0]] (Returned None))"
proof -
  let ?step = "par_step 1 1 (\<lambda>_. None :: string option)"
  note defs = sample_par_def sample_routine_def
  have "?step initial (sample_par [sample_routine Fresh []] (Spawning 1))"
    using par_step.spawn [of initial 0 1 1 "\<lambda>_. None"] by (simp add: initial_def defs)
  moreover have "?step (sample_par [sample_routine Fresh []] (Spawning 1)) (sample_par [sample_routine Fresh []] (Waiting 0))"
    using par_step.spawned [of "sample_par [sample_routine Fresh []] (Spawning 1)" 1 1 1 "\<lambda>_. None"] by (simp add: defs)
  moreover have "?step (sample_par [sample_routine Fresh []] (Waiting 0)) (sample_par [sample_routine (Working 0) []] (Waiting 0))"
    using par_step.start [of 0 "sample_par [sample_routine Fresh []] (Waiting 0)" 1 1 "\<lambda>_. None"]
    by (simp add: defs set_status_def)
  moreover have "?step (sample_par [sample_routine (Working 0) []] (Waiting 0)) (sample_par [sample_routine (Working 1) [0]] (Waiting 0))"
    using par_step.calls [of 0 "sample_par [sample_routine (Working 0) []] (Waiting 0)" 0 1 1 "\<lambda>_. None"]
    by (simp add: defs par_call_def)
  moreover have "?step (sample_par [sample_routine (Working 1) [0]] (Waiting 0)) (sample_par [sample_routine (Sending None) [0]] (Waiting 0))"
    using par_step.worked [of 0 "sample_par [sample_routine (Working 1) [0]] (Waiting 0)" 1 1 1 "\<lambda>_. None"]
    by (simp add: defs set_status_def)
  moreover have "?step (sample_par [sample_routine (Sending None) [0]] (Waiting 0)) (sample_par [sample_routine Finished [0]] (Joining None))"
    using par_step.send [of 0 "sample_par [sample_routine (Sending None) [0]] (Waiting 0)" None 0 1 1 "\<lambda>_. None"]
    by (simp add: defs set_status_def par_received_def)
  moreover have "?step (sample_par [sample_routine Finished [0]] (Joining None)) (sample_par [sample_routine Finished [0]] (Returned None))"
    using par_step.join [of "sample_par [sample_routine Finished [0]] (Joining None)" None 1 1 "\<lambda>_. None"] by (simp add: defs)
  ultimately show ?thesis
    unfolding ProcessFuncParallel_def
    by (simp add: nPerBatch_def wrap64_id numeral_eq_Suc) (blast intro: relcomppI)
qed

theorem ProcessFuncParallel_returns_witness:
  "(7::nat) \<le> nat 1 + 4 * nat (max 1 1) + 3
    \<and> \<not> (\<exists>s'. ProcessFuncParallel 1 1 (\<lambda>_. None) (sample_par [sample_routine Finished [0]] (Returned None)) s')"
  using ProcessFuncParallel_returns [OF _ sample_routines_run] by (simp add: sample_par_def fits64_def)

text \<open>C29: When the function returns, all its goroutines have ended and every index has been given to the caller's function
  at most once, in the order of its batch. It returns nil exactly when every index has been called and none failed;
  an error it returns is one that a call has answered with.\<close>

theorem ProcessFuncParallel_result:
  assumes "(ProcessFuncParallel tot maxParallel f)\<^sup>*\<^sup>* initial s" and "main s = Returned r"
  shows "list_all (\<lambda>r. rt_status r = Finished) (routines s)
    \<and> subseq (concat (map rt_calls (routines s))) [0..<nat tot]
    \<and> (case r of
         None \<Rightarrow> concat (map rt_calls (routines s)) = [0..<nat tot] \<and> list_all (\<lambda>i. f i = None) [0..<nat tot]
       | Some err \<Rightarrow> list_ex (\<lambda>i. f i = Some err) (concat (map rt_calls (routines s))))"
proof (intro conjI)
  note size = returned_batch_size [OF assms]
  have ok: "par_ok (nat tot) (nPerBatch tot maxParallel) f s" using assms(1) size by (rule par_ok_reached)
  then have main: "joined f s r" "finished s = length (routines s)"
      "spans s = batches (nat tot) (nPerBatch tot maxParallel) 0"
    using assms(2) by (simp_all add: par_ok_def main_ok_def)
  have all: "concat (map (\<lambda>(i, j). [i..<j]) (map (\<lambda>r. (rt_begin r, rt_end r)) (routines s))) = [0..<nat tot]"
    using main(3) unfolding spans_def [symmetric] by (simp only: batches_all [OF size])
  have rs: "list_all (routine_ok f (quit s)) (routines s)" using ok by (simp add: par_ok_def)
  show fin: "list_all (\<lambda>r. rt_status r = Finished) (routines s)"
    using main(2) by (simp add: finished_def filter_all_length)
  show "subseq (concat (map rt_calls (routines s))) [0..<nat tot]"
    using calls_subseq [OF rs] unfolding all .
  show "case r of
         None \<Rightarrow> concat (map rt_calls (routines s)) = [0..<nat tot] \<and> list_all (\<lambda>i. f i = None) [0..<nat tot]
       | Some err \<Rightarrow> list_ex (\<lambda>i. f i = Some err) (concat (map rt_calls (routines s)))"
  proof (cases r)
    case None
    then have "list_all (completed f) (routines s)"
      using rs fin main(1) by (auto simp: list_all_iff routine_ok_def)
    then show ?thesis using calls_complete [of f "routines s"] None unfolding all by (simp add: none_failed_def)
  next
    case (Some err)
    then show ?thesis using main(1) by (auto simp: failed_with_def has_failed_def list_ex_iff)
  qed
qed

theorem ProcessFuncParallel_result_witness:
  "list_all (\<lambda>i. (\<lambda>_. None :: string option) i = None) [0..<nat 1]"
  using ProcessFuncParallel_result [OF relpowp_imp_rtranclp [OF sample_routines_run], of None] by (simp add: sample_par_def)

end
