(* ===== verification/ParamComponent.thy ===== *)
theory ParamComponent
  imports Paramtable
begin

text \<open>
  The parameters of the components (pkg/util/paramtable/component\_param.go, http\_param.go): each with its key, its
  default, the keys it falls back to, whether it must not be empty, whether updates are forbidden, and how its text is
  formatted. A table lists the fields of a Go struct in the order in which its \<open>init\<close> sets them.

  \<open>Version\<close>, \<open>Doc\<close> and \<open>Export\<close>, which are only read when the documentation is generated, and the tag
  \<open>refreshable\<close> are left out. A formatter may read other parameters: \<open>m\<close> is the manager they are read from. \<open>disk\<close> is
  the total size of the device of a path, \<open>None\<close> when it cannot be had; \<open>log.Fatal\<close> ends the program and is a panic
  here.
\<close>

section \<open>Items and tables\<close>

definition item :: "string \<Rightarrow> string \<Rightarrow> ParamItem" where
  "item key dflt = \<lparr>pi_Key = key, DefaultValue = dflt, FallbackKeys = [], PanicIfEmpty = False, Formatter = None,
     Forbidden = False, tempValue = None\<rparr>"

definition init_table :: "(string \<times> ParamItem) list \<Rightarrow> 'h Manager \<Rightarrow> 'h Manager" where
  "init_table table m = foldl (\<lambda>m (field, pi). ParamItem_Init pi m) m table"

lemma item_simps [simp]:
  "pi_Key (item key dflt) = key" "DefaultValue (item key dflt) = dflt" "FallbackKeys (item key dflt) = []"
  "PanicIfEmpty (item key dflt) = False" "Formatter (item key dflt) = None" "Forbidden (item key dflt) = False"
  "tempValue (item key dflt) = None"
  by (simp_all add: item_def)

lemma bindO_Ok_right [simp]: "bindO r Ok = r"
  by (cases r) simp_all

text \<open>A parameter that may be empty is its formatted text, whatever is configured.\<close>

lemma get_formatted:
  assumes "tempValue pi = None" "Formatter pi = Some f" "\<not> PanicIfEmpty pi"
  shows "\<exists>raw. get (Some m) pi = f raw"
  using assms by (auto simp: get_def Let_def)

lemma get_plain:
  assumes "tempValue pi = None" "Formatter pi = None" "\<not> PanicIfEmpty pi"
  shows "\<exists>raw. get (Some m) pi = Ok raw"
  using assms by (auto simp: get_def Let_def)

text \<open>A manager that answers no key gives every parameter its default.\<close>

definition unconfigured :: "'h Manager \<Rightarrow> bool" where
  "unconfigured m \<longleftrightarrow> (\<forall>key. \<exists>e. GetConfig m key = Err e)"

lemma first_config_unconfigured: "unconfigured m \<Longrightarrow> \<exists>e'. first_config m keys (Err e) = Err e'"
proof (induction keys arbitrary: e)
  case (Cons key keys)
  then obtain e' where "GetConfig m key = Err e'" unfolding unconfigured_def by blast
  then show ?case using Cons by simp
qed simp

lemma get_unconfigured:
  assumes "unconfigured m" "tempValue pi = None"
  shows "get (Some m) pi = bindO (case Formatter pi of None \<Rightarrow> Ok (DefaultValue pi) | Some f \<Rightarrow> f (DefaultValue pi))
    (\<lambda>ret. if ret = [] \<and> PanicIfEmpty pi then Panic (pi_Key pi @ '' is empty'') else Ok ret)"
proof -
  obtain e where e: "GetConfig m (pi_Key pi) = Err e" using assms(1) unfolding unconfigured_def by blast
  obtain e' where "first_config m (FallbackKeys pi) (Err e) = Err e'"
    using first_config_unconfigured [OF assms(1)] by blast
  then show ?thesis using assms(2) e by (cases "Formatter pi") (simp_all add: get_def Let_def)
qed

lemma unconfigured_NewManager: "unconfigured NewManager"
  by (auto simp: unconfigured_def GetConfig_def NewManager_def)

section \<open>Common parameters\<close>

definition ClusterPrefix :: ParamItem where
  "ClusterPrefix =
     (item ''msgChannel.chanNamePrefix.cluster'' ''by-dev'')\<lparr>FallbackKeys := [''common.chanNamePrefix.cluster''],
       PanicIfEmpty := True, Forbidden := True\<rparr>"

definition chanNamePrefix :: "'h Manager option \<Rightarrow> string \<Rightarrow> (config_error, string) outcome" where
  "chanNamePrefix m prefix = bindO (get m ClusterPrefix) (\<lambda>cluster. Ok (cluster @ ''-'' @ prefix))"

definition EntityExpirationTTL_format :: "string \<Rightarrow> (config_error, string) outcome" where
  "EntityExpirationTTL_format v = (let ttl = getAsInt v in if ttl < 0 then Ok ''-1'' else Ok (string_of_int ttl))"

definition common_params_1 :: "'h Manager option \<Rightarrow> (string \<times> ParamItem) list" where
  "common_params_1 m = [
     (''ClusterPrefix'', ClusterPrefix),
     (''RootCoordTimeTick'',
       (item ''msgChannel.chanNamePrefix.rootCoordTimeTick'' '''')\<lparr>FallbackKeys := [''common.chanNamePrefix.rootCoordTimeTick''],
       PanicIfEmpty := True, Formatter := Some (chanNamePrefix m)\<rparr>),
     (''RootCoordStatistics'',
       (item ''msgChannel.chanNamePrefix.rootCoordStatistics'' '''')\<lparr>FallbackKeys := [''common.chanNamePrefix.rootCoordStatistics''],
       PanicIfEmpty := True, Formatter := Some (chanNamePrefix m)\<rparr>),
     (''RootCoordDml'',
       (item ''msgChannel.chanNamePrefix.rootCoordDml'' '''')\<lparr>FallbackKeys := [''common.chanNamePrefix.rootCoordDml''],
       PanicIfEmpty := True, Formatter := Some (chanNamePrefix m)\<rparr>),
     (''ReplicateMsgChannel'',
       (item ''msgChannel.chanNamePrefix.replicateMsg'' '''')\<lparr>FallbackKeys := [''common.chanNamePrefix.replicateMsg''],
       PanicIfEmpty := True, Formatter := Some (chanNamePrefix m)\<rparr>),
     (''QueryCoordTimeTick'',
       (item ''msgChannel.chanNamePrefix.queryTimeTick'' '''')\<lparr>FallbackKeys := [''common.chanNamePrefix.queryTimeTick''],
       PanicIfEmpty := True, Formatter := Some (chanNamePrefix m)\<rparr>),
     (''DataCoordTimeTick'',
       (item ''msgChannel.chanNamePrefix.dataCoordTimeTick'' '''')\<lparr>FallbackKeys := [''common.chanNamePrefix.dataCoordTimeTick''],
       PanicIfEmpty := True, Formatter := Some (chanNamePrefix m)\<rparr>),
     (''DataCoordSegmentInfo'',
       (item ''msgChannel.chanNamePrefix.dataCoordSegmentInfo'' '''')\<lparr>FallbackKeys := [''common.chanNamePrefix.dataCoordSegmentInfo''],
       PanicIfEmpty := True, Formatter := Some (chanNamePrefix m)\<rparr>),
     (''DataCoordSubName'',
       (item ''msgChannel.subNamePrefix.dataCoordSubNamePrefix'' '''')\<lparr>FallbackKeys := [''common.subNamePrefix.dataCoordSubNamePrefix''],
       PanicIfEmpty := True, Formatter := Some (chanNamePrefix m)\<rparr>),
     (''DataCoordWatchSubPath'',
       (item ''msgChannel.subNamePrefix.dataCoordWatchSubPath'' ''channelwatch'')\<lparr>PanicIfEmpty := True\<rparr>),
     (''DataCoordTicklePath'',
       (item ''msgChannel.subNamePrefix.dataCoordWatchSubPath'' ''tickle'')\<lparr>PanicIfEmpty := True\<rparr>),
     (''DataNodeSubName'',
       (item ''msgChannel.subNamePrefix.dataNodeSubNamePrefix'' '''')\<lparr>FallbackKeys := [''common.subNamePrefix.dataNodeSubNamePrefix''],
       PanicIfEmpty := True, Formatter := Some (chanNamePrefix m)\<rparr>),
     (''DefaultPartitionName'',
       (item ''common.defaultPartitionName'' ''_default'')\<lparr>Forbidden := True\<rparr>),
     (''DefaultIndexName'', item ''common.defaultIndexName'' ''_default_idx'')]"

definition common_params_2 :: "(string \<times> ParamItem) list" where
  "common_params_2 = [
     (''EntityExpirationTTL'',
       (item ''common.entityExpiration'' ''-1'')\<lparr>Formatter := Some EntityExpirationTTL_format\<rparr>),
     (''SimdType'', (item ''common.simdType'' ''auto'')\<lparr>FallbackKeys := [''knowhere.simdType'']\<rparr>),
     (''IndexSliceSize'', item ''common.indexSliceSize'' ''16''),
     (''MaxDegree'', item ''common.DiskIndex.MaxDegree'' ''56''),
     (''SearchListSize'', item ''common.DiskIndex.SearchListSize'' ''100''),
     (''PQCodeBudgetGBRatio'', item ''common.DiskIndex.PQCodeBudgetGBRatio'' ''0.125000''),
     (''BuildNumThreadsRatio'', item ''common.DiskIndex.BuildNumThreadsRatio'' ''1''),
     (''SearchCacheBudgetGBRatio'', item ''common.DiskIndex.SearchCacheBudgetGBRatio'' ''0.100000''),
     (''LoadNumThreadRatio'', item ''common.DiskIndex.LoadNumThreadRatio'' ''8''),
     (''BeamWidthRatio'', item ''common.DiskIndex.BeamWidthRatio'' ''4''),
     (''ConsistencyLevelUsedInDelete'', item ''common.consistencyLevelUsedInDelete'' ''Bounded''),
     (''GracefulTime'', item ''common.gracefulTime'' ''5000''),
     (''GracefulStopTimeout'', item ''common.gracefulStopTimeout'' ''1800''),
     (''StorageType'', item ''common.storageType'' ''remote''),
     (''HighPriorityThreadCoreCoefficient'', item ''common.threadCoreCoefficient.highPriority'' ''10'')]"

definition common_params_3 :: "(string \<times> ParamItem) list" where
  "common_params_3 = [
     (''MiddlePriorityThreadCoreCoefficient'', item ''common.threadCoreCoefficient.middlePriority'' ''5''),
     (''LowPriorityThreadCoreCoefficient'', item ''common.threadCoreCoefficient.lowPriority'' ''1''),
     (''AuthorizationEnabled'', item ''common.security.authorizationEnabled'' ''false''),
     (''SuperUsers'', item ''common.security.superUsers'' ''''),
     (''ClusterName'', item ''common.cluster.name'' ''''),
     (''SessionTTL'', item ''common.session.ttl'' ''60''),
     (''SessionRetryTimes'', item ''common.session.retryTimes'' ''30''),
     (''PreCreatedTopicEnabled'', item ''common.preCreatedTopic.enabled'' ''false''),
     (''TopicNames'', item ''common.preCreatedTopic.names'' ''''),
     (''TimeTicker'', item ''common.preCreatedTopic.timeticker'' ''''),
     (''JSONMaxLength'', item ''common.JSONMaxLength'' ''65536''),
     (''ImportMaxFileSize'', item ''common.ImportMaxFileSize'' ''17179869184''),
     (''MetricsPort'', item ''common.MetricsPort'' ''9091''),
     (''EnableLockMetrics'', item ''common.locks.metrics.enable'' ''false''),
     (''LockSlowLogInfoThreshold'', item ''common.locks.threshold.info'' ''500''),
     (''LockSlowLogWarnThreshold'', item ''common.locks.threshold.warn'' ''1000''),
     (''TTMsgEnabled'', item ''common.ttMsgEnabled'' ''true''),
     (''TraceLogMode'', item ''common.traceLogMode'' ''0'')]"

definition common_params_4 :: "(string \<times> ParamItem) list" where
  "common_params_4 = [
     (''BloomFilterSize'', item ''common.bloomFilterSize'' ''100000''),
     (''MaxBloomFalsePositive'', item ''common.maxBloomFalsePositive'' ''0.05''),
     (''BloomFilterApplyBatchSize'', item ''common.bloomFilterApplyBatchSize'' ''1000'')]"

definition common_params :: "'h Manager option \<Rightarrow> (string \<times> ParamItem) list" where
  "common_params m = common_params_1 m @ common_params_2 @ common_params_3 @ common_params_4"

section \<open>Tracing and logging\<close>

definition trace_params :: "(string \<times> ParamItem) list" where
  "trace_params = [
     (''Exporter'', item ''trace.exporter'' ''''),
     (''SampleFraction'', item ''trace.sampleFraction'' ''0''),
     (''JaegerURL'', item ''trace.jaeger.url'' ''''),
     (''OtlpEndpoint'', item ''trace.otlp.endpoint'' ''''),
     (''OtlpSecure'', item ''trace.otlp.secure'' ''true'')]"

definition log_params :: "(string \<times> ParamItem) list" where
  "log_params = [
     (''Level'', item ''log.level'' ''info''),
     (''RootPath'', item ''log.file.rootPath'' ''''),
     (''MaxSize'', item ''log.file.maxSize'' ''300''),
     (''MaxAge'', item ''log.file.maxAge'' ''10''),
     (''MaxBackups'', item ''log.file.maxBackups'' ''20''),
     (''Format'', item ''log.format'' ''text''),
     (''Stdout'', item ''log.stdout'' ''true''),
     (''GrpcLogLevel'', item ''grpc.log.level'' ''WARNING'')]"

section \<open>Root coordinator and proxy\<close>

definition MaxGeneralCapacity_format :: "string \<Rightarrow> (config_error, string) outcome" where
  "MaxGeneralCapacity_format v = (if getAsInt v < 512 then Ok ''512'' else Ok v)"

definition rootCoord_params :: "(string \<times> ParamItem) list" where
  "rootCoord_params = [
     (''DmlChannelNum'', (item ''rootCoord.dmlChannelNum'' ''16'')\<lparr>Forbidden := True\<rparr>),
     (''MaxPartitionNum'', item ''rootCoord.maxPartitionNum'' ''4096''),
     (''MinSegmentSizeToEnableIndex'', item ''rootCoord.minSegmentSizeToEnableIndex'' ''1024''),
     (''ImportTaskExpiration'', item ''rootCoord.importTaskExpiration'' ''900''),
     (''ImportTaskRetention'', item ''rootCoord.importTaskRetention'' ''86400''),
     (''ImportTaskSubPath'', item ''rootCoord.ImportTaskSubPath'' ''importtask''),
     (''ImportMaxPendingTaskCount'', item ''rootCoord.importMaxPendingTaskCount'' ''65535''),
     (''EnableActiveStandby'', item ''rootCoord.enableActiveStandby'' ''false''),
     (''MaxDatabaseNum'', item ''rootCoord.maxDatabaseNum'' ''64''),
     (''MaxGeneralCapacity'',
       (item ''rootCoord.maxGeneralCapacity'' ''65536'')\<lparr>Formatter := Some MaxGeneralCapacity_format\<rparr>),
     (''GracefulStopTimeout'', item ''rootCoord.gracefulStopTimeout'' ''5'')]"

definition proxy_params_1 :: "(string \<times> ParamItem) list" where
  "proxy_params_1 = [
     (''TimeTickInterval'', (item ''proxy.timeTickInterval'' ''200'')\<lparr>PanicIfEmpty := True\<rparr>),
     (''HealthCheckTimeout'',
       (item ''proxy.healthCheckTimeout'' ''3000'')\<lparr>FallbackKeys := [''proxy.healthCheckTimetout''],
       PanicIfEmpty := True\<rparr>),
     (''MsgStreamTimeTickBufSize'',
       (item ''proxy.msgStream.timeTick.bufSize'' ''512'')\<lparr>PanicIfEmpty := True\<rparr>),
     (''MaxNameLength'', (item ''proxy.maxNameLength'' ''255'')\<lparr>PanicIfEmpty := True\<rparr>),
     (''MinPasswordLength'', (item ''proxy.minPasswordLength'' ''6'')\<lparr>PanicIfEmpty := True\<rparr>),
     (''MaxUsernameLength'', (item ''proxy.maxUsernameLength'' ''32'')\<lparr>PanicIfEmpty := True\<rparr>),
     (''MaxPasswordLength'', (item ''proxy.maxPasswordLength'' ''256'')\<lparr>PanicIfEmpty := True\<rparr>),
     (''MaxFieldNum'', (item ''proxy.maxFieldNum'' ''64'')\<lparr>PanicIfEmpty := True\<rparr>),
     (''MaxShardNum'', (item ''proxy.maxShardNum'' ''16'')\<lparr>PanicIfEmpty := True\<rparr>),
     (''MaxDimension'', (item ''proxy.maxDimension'' ''32768'')\<lparr>PanicIfEmpty := True\<rparr>),
     (''MaxTaskNum'', item ''proxy.maxTaskNum'' ''10000''),
     (''GinLogging'', item ''proxy.ginLogging'' ''true''),
     (''GinLogSkipPaths'', item ''proxy.ginLogSkipPaths'' ''/''),
     (''MaxUserNum'', (item ''proxy.maxUserNum'' ''100'')\<lparr>PanicIfEmpty := True\<rparr>),
     (''MaxRoleNum'', (item ''proxy.maxRoleNum'' ''10'')\<lparr>PanicIfEmpty := True\<rparr>),
     (''SoPath'', item ''proxy.soPath'' '''')]"

definition proxy_params_2 :: "(string \<times> ParamItem) list" where
  "proxy_params_2 = [
     (''AccessLog.Enable'', item ''proxy.accessLog.enable'' ''false''),
     (''AccessLog.MinioEnable'', item ''proxy.accessLog.minioEnable'' ''false''),
     (''AccessLog.LocalPath'', item ''proxy.accessLog.localPath'' ''/tmp/milvus_access''),
     (''AccessLog.Filename'', item ''proxy.accessLog.filename'' ''''),
     (''AccessLog.MaxSize'', item ''proxy.accessLog.maxSize'' ''64''),
     (''AccessLog.CacheSize'', item ''proxy.accessLog.cacheSize'' ''10240''),
     (''AccessLog.MaxBackups'', item ''proxy.accessLog.maxBackups'' ''8''),
     (''AccessLog.RotatedTime'', item ''proxy.accessLog.rotatedTime'' ''0''),
     (''AccessLog.RemotePath'', item ''proxy.accessLog.remotePath'' ''access_log/''),
     (''AccessLog.RemoteMaxTime'', item ''proxy.accessLog.remoteMaxTime'' ''0''),
     (''ShardLeaderCacheInterval'', item ''proxy.shardLeaderCacheInterval'' ''3''),
     (''ReplicaSelectionPolicy'', item ''proxy.replicaSelectionPolicy'' ''look_aside''),
     (''CheckQueryNodeHealthInterval'', item ''proxy.checkQueryNodeHealthInterval'' ''1000''),
     (''CostMetricsExpireTime'', item ''proxy.costMetricsExpireTime'' ''1000''),
     (''RetryTimesOnReplica'', item ''proxy.retryTimesOnReplica'' ''2''),
     (''RetryTimesOnHealthCheck'', item ''proxy.retryTimesOnHealthCheck'' ''3''),
     (''PartitionNameRegexp'', item ''proxy.partitionNameRegexp'' ''false'')]"

definition proxy_params_3 :: "(string \<times> ParamItem) list" where
  "proxy_params_3 = [
     (''SkipAutoIDCheck'', item ''proxy.skipAutoIDCheck'' ''false''),
     (''SkipPartitionKeyCheck'', item ''proxy.skipPartitionKeyCheck'' ''false''),
     (''GracefulStopTimeout'', item ''proxy.gracefulStopTimeout'' ''30''),
     (''SlowQuerySpanInSeconds'', item ''proxy.slowQuerySpanInSeconds'' ''5''),
     (''ConnectionCheckIntervalSeconds'', item ''proxy.connectionCheckIntervalSeconds'' ''120''),
     (''ConnectionClientInfoTTLSeconds'', item ''proxy.connectionClientInfoTTLSeconds'' ''86400''),
     (''MaxConnectionNum'', item ''proxy.maxConnectionNum'' ''10000'')]"

definition proxy_params :: "(string \<times> ParamItem) list" where
  "proxy_params = proxy_params_1 @ proxy_params_2 @ proxy_params_3"

definition AccessLog_Formatter :: ParamGroup where
  "AccessLog_Formatter = \<lparr>KeyPrefix = ''proxy.accessLog.formatters.'', GetFunc = None\<rparr>"

section \<open>Query coordinator and query node\<close>

definition queryCoord_params_1 :: "(string \<times> ParamItem) list" where
  "queryCoord_params_1 = [
     (''RetryNum'', item ''queryCoord.task.retrynum'' ''5''),
     (''RetryInterval'', item ''queryCoord.task.retryinterval'' ''10000000000''),
     (''TaskMergeCap'', item ''queryCoord.taskMergeCap'' ''1''),
     (''TaskExecutionCap'', item ''queryCoord.taskExecutionCap'' ''256''),
     (''AutoHandoff'', (item ''queryCoord.autoHandoff'' ''true'')\<lparr>PanicIfEmpty := True\<rparr>),
     (''AutoBalance'', (item ''queryCoord.autoBalance'' ''true'')\<lparr>PanicIfEmpty := True\<rparr>),
     (''AutoBalanceChannel'',
       (item ''queryCoord.autoBalanceChannel'' ''true'')\<lparr>PanicIfEmpty := True\<rparr>),
     (''Balancer'', item ''queryCoord.balancer'' ''ScoreBasedBalancer''),
     (''GlobalRowCountFactor'',
       (item ''queryCoord.globalRowCountFactor'' ''0.1'')\<lparr>PanicIfEmpty := True\<rparr>),
     (''ScoreUnbalanceTolerationFactor'',
       (item ''queryCoord.scoreUnbalanceTolerationFactor'' ''0.05'')\<lparr>PanicIfEmpty := True\<rparr>),
     (''ReverseUnbalanceTolerationFactor'',
       (item ''queryCoord.reverseUnBalanceTolerationFactor'' ''1.3'')\<lparr>PanicIfEmpty := True\<rparr>),
     (''OverloadedMemoryThresholdPercentage'',
       (item ''queryCoord.overloadedMemoryThresholdPercentage'' ''90'')\<lparr>PanicIfEmpty := True\<rparr>),
     (''BalanceIntervalSeconds'',
       (item ''queryCoord.balanceIntervalSeconds'' ''60'')\<lparr>PanicIfEmpty := True\<rparr>),
     (''GrowingRowCountWeight'',
       (item ''queryCoord.growingRowCountWeight'' ''4.0'')\<lparr>PanicIfEmpty := True\<rparr>),
     (''DelegatorMemoryOverloadFactor'',
       (item ''queryCoord.delegatorMemoryOverloadFactor'' ''0.1'')\<lparr>PanicIfEmpty := True\<rparr>),
     (''MemoryUsageMaxDifferencePercentage'',
       (item ''queryCoord.memoryUsageMaxDifferencePercentage'' ''30'')\<lparr>PanicIfEmpty := True\<rparr>)]"

definition queryCoord_params_2 :: "(string \<times> ParamItem) list" where
  "queryCoord_params_2 = [
     (''CheckInterval'', (item ''queryCoord.checkInterval'' ''10000'')\<lparr>PanicIfEmpty := True\<rparr>),
     (''SegmentCheckInterval'',
       (item ''queryCoord.checkSegmentInterval'' ''1000'')\<lparr>PanicIfEmpty := True\<rparr>),
     (''ChannelCheckInterval'',
       (item ''queryCoord.checkChannelInterval'' ''1000'')\<lparr>PanicIfEmpty := True\<rparr>),
     (''BalanceCheckInterval'',
       (item ''queryCoord.checkBalanceInterval'' ''10000'')\<lparr>PanicIfEmpty := True\<rparr>),
     (''IndexCheckInterval'',
       (item ''queryCoord.checkIndexInterval'' ''10000'')\<lparr>PanicIfEmpty := True\<rparr>),
     (''ChannelTaskTimeout'',
       (item ''queryCoord.channelTaskTimeout'' ''60000'')\<lparr>PanicIfEmpty := True\<rparr>),
     (''SegmentTaskTimeout'',
       (item ''queryCoord.segmentTaskTimeout'' ''120000'')\<lparr>PanicIfEmpty := True\<rparr>),
     (''DistPullInterval'', (item ''queryCoord.distPullInterval'' ''500'')\<lparr>PanicIfEmpty := True\<rparr>),
     (''LoadTimeoutSeconds'',
       (item ''queryCoord.loadTimeoutSeconds'' ''600'')\<lparr>PanicIfEmpty := True\<rparr>),
     (''HeartbeatAvailableInterval'',
       (item ''queryCoord.heartbeatAvailableInterval'' ''10000'')\<lparr>PanicIfEmpty := True\<rparr>),
     (''CheckHandoffInterval'',
       (item ''queryCoord.checkHandoffInterval'' ''5000'')\<lparr>PanicIfEmpty := True\<rparr>),
     (''EnableActiveStandby'', item ''queryCoord.enableActiveStandby'' ''false''),
     (''NextTargetSurviveTime'',
       (item ''queryCoord.NextTargetSurviveTime'' ''300'')\<lparr>PanicIfEmpty := True\<rparr>),
     (''UpdateNextTargetInterval'',
       (item ''queryCoord.UpdateNextTargetInterval'' ''10'')\<lparr>PanicIfEmpty := True\<rparr>),
     (''CheckNodeInReplicaInterval'',
       (item ''queryCoord.checkNodeInReplicaInterval'' ''60'')\<lparr>PanicIfEmpty := True\<rparr>),
     (''CheckResourceGroupInterval'',
       (item ''queryCoord.checkResourceGroupInterval'' ''10'')\<lparr>PanicIfEmpty := True\<rparr>)]"

definition queryCoord_params_3 :: "(string \<times> ParamItem) list" where
  "queryCoord_params_3 = [
     (''LeaderViewUpdateInterval'',
       (item ''queryCoord.leaderViewUpdateInterval'' ''1'')\<lparr>PanicIfEmpty := True\<rparr>),
     (''EnableRGAutoRecover'',
       (item ''queryCoord.enableRGAutoRecover'' ''true'')\<lparr>PanicIfEmpty := True\<rparr>),
     (''CheckHealthInterval'',
       (item ''queryCoord.checkHealthInterval'' ''3000'')\<lparr>PanicIfEmpty := True\<rparr>),
     (''CheckHealthRPCTimeout'',
       (item ''queryCoord.checkHealthRPCTimeout'' ''2000'')\<lparr>PanicIfEmpty := True\<rparr>),
     (''BrokerTimeout'', (item ''queryCoord.brokerTimeout'' ''5000'')\<lparr>PanicIfEmpty := True\<rparr>),
     (''CollectionRecoverTimesLimit'',
       (item ''queryCoord.collectionRecoverTimes'' ''3'')\<lparr>PanicIfEmpty := True\<rparr>),
     (''ObserverTaskParallel'',
       (item ''queryCoord.observerTaskParallel'' ''16'')\<lparr>PanicIfEmpty := True\<rparr>),
     (''CheckAutoBalanceConfigInterval'',
       (item ''queryCoord.checkAutoBalanceConfigInterval'' ''10'')\<lparr>PanicIfEmpty := True\<rparr>),
     (''CheckNodeSessionInterval'',
       (item ''queryCoord.checkNodeSessionInterval'' ''60'')\<lparr>PanicIfEmpty := True\<rparr>),
     (''DistributionRequestTimeout'', item ''queryCoord.distRequestTimeout'' ''5000''),
     (''HeartBeatWarningLag'', item ''queryCoord.heatbeatWarningLag'' ''5000''),
     (''GracefulStopTimeout'', item ''queryCoord.gracefulStopTimeout'' ''5''),
     (''CollectionObserverInterval'', item ''queryCoord.collectionObserverInterval'' ''200''),
     (''CheckExecutedFlagInterval'', item ''queryCoord.checkExecutedFlagInterval'' ''100'')]"

definition queryCoord_params :: "(string \<times> ParamItem) list" where
  "queryCoord_params = queryCoord_params_1 @ queryCoord_params_2 @ queryCoord_params_3"

definition InterimIndexNlist :: ParamItem where
  "InterimIndexNlist =
     item ''queryNode.segcore.interimIndex.nlist'' ''128''"

definition ChunkRows_format :: "string \<Rightarrow> (config_error, string) outcome" where
  "ChunkRows_format v = (if getAsInt v < 128 then Ok ''128'' else Ok v)"

definition InterimIndexNProbe_format :: "'h Manager option \<Rightarrow> string \<Rightarrow> (config_error, string) outcome" where
  "InterimIndexNProbe_format m v =
     bindO (GetAsInt64 m InterimIndexNlist) (\<lambda>nlist.
       let defaultNprobe = nlist sdiv 8;
           nprobe = getAsInt64 v;
           nprobe = (if nprobe = 0 then defaultNprobe else nprobe)
       in if nprobe > nlist then get m InterimIndexNlist else Ok (string_of_int nprobe))"

definition percentage :: "'f go_float \<Rightarrow> string \<Rightarrow> (config_error, string) outcome" where
  "percentage fl v = Ok (Sprintf_f fl (fl_divide fl (getAsFloat fl v) (float_const fl 100 1)))"

definition gigabytes :: "string \<Rightarrow> string" where
  "gigabytes v = string_of_int (wrap64 (getAsInt64 v * 1024 * 1024 * 1024))"

definition DiskCapacityLimit_format ::
  "(string \<Rightarrow> nat option) \<Rightarrow> 'h Manager option \<Rightarrow> string \<Rightarrow> (config_error, string) outcome" where
  "DiskCapacityLimit_format disk m v =
     (if v = [] then
        (case disk (GetWithDefault m ''localStorage.path'' []) of
           None \<Rightarrow> Panic ''failed to get disk usage''
         | Some bytes_total \<Rightarrow> Ok (string_of_nat bytes_total))
      else Ok (gigabytes v))"

definition queryNode_params_1 :: "'f go_float \<Rightarrow> (string \<Rightarrow> nat option) \<Rightarrow> 'h Manager option \<Rightarrow> (string \<times> ParamItem) list" where
  "queryNode_params_1 fl disk m = [
     (''SoPath'', item ''queryNode.soPath'' ''''),
     (''FlowGraphMaxQueueLength'', item ''queryNode.dataSync.flowGraph.maxQueueLength'' ''16''),
     (''FlowGraphMaxParallelism'', item ''queryNode.dataSync.flowGraph.maxParallelism'' ''1024''),
     (''StatsPublishInterval'', item ''queryNode.stats.publishInterval'' ''1000''),
     (''KnowhereThreadPoolSize'', item ''queryNode.segcore.knowhereThreadPoolNumRatio'' ''4''),
     (''ChunkRows'',
       (item ''queryNode.segcore.chunkRows'' ''128'')\<lparr>Formatter := Some ChunkRows_format\<rparr>),
     (''EnableInterimSegmentIndex'', item ''queryNode.segcore.interimIndex.enableIndex'' ''false''),
     (''KnowhereScoreConsistency'', item ''queryNode.segcore.knowhereScoreConsistency'' ''false''),
     (''InterimIndexNlist'', InterimIndexNlist),
     (''InterimIndexMemExpandRate'', item ''queryNode.segcore.interimIndex.memExpansionRate'' ''1.15''),
     (''InterimIndexBuildParallelRate'', item ''queryNode.segcore.interimIndex.buildParallelRate'' ''0.5''),
     (''InterimIndexNProbe'',
       (item ''queryNode.segcore.interimIndex.nprobe'' '''')\<lparr>Formatter := Some (InterimIndexNProbe_format m)\<rparr>),
     (''LoadMemoryUsageFactor'',
       (item ''queryNode.loadMemoryUsageFactor'' ''2'')\<lparr>PanicIfEmpty := True\<rparr>),
     (''OverloadedMemoryThresholdPercentage'',
       (item ''queryCoord.overloadedMemoryThresholdPercentage'' ''90'')\<lparr>PanicIfEmpty := True,
       Formatter := Some (percentage fl)\<rparr>)]"

definition queryNode_params_2 :: "'f go_float \<Rightarrow> (string \<Rightarrow> nat option) \<Rightarrow> 'h Manager option \<Rightarrow> (string \<times> ParamItem) list" where
  "queryNode_params_2 fl disk m = [
     (''CacheMemoryLimit'',
       (item ''queryNode.cache.memoryLimit'' ''2147483648'')\<lparr>PanicIfEmpty := True\<rparr>),
     (''CacheEnabled'', item ''queryNode.cache.enabled'' ''''),
     (''MmapDirPath'', item ''queryNode.mmapDirPath'' ''''),
     (''ReadAheadPolicy'', item ''queryNode.cache.readAheadPolicy'' ''willneed''),
     (''ChunkCacheWarmingUp'', item ''queryNode.cache.warmup'' ''async''),
     (''GroupEnabled'', item ''queryNode.grouping.enabled'' ''true''),
     (''MaxReceiveChanSize'', item ''queryNode.scheduler.receiveChanSize'' ''10240''),
     (''MaxReadConcurrency'', item ''queryNode.scheduler.maxReadConcurrentRatio'' ''1.0''),
     (''MaxGpuReadConcurrency'', item ''queryNode.scheduler.maxGpuReadConcurrency'' ''6''),
     (''MaxUnsolvedQueueSize'', item ''queryNode.scheduler.unsolvedQueueSize'' ''10240''),
     (''MaxGroupNQ'', item ''queryNode.grouping.maxNQ'' ''1000''),
     (''TopKMergeRatio'', item ''queryNode.grouping.topKMergeRatio'' ''20.0''),
     (''CPURatio'', item ''queryNode.scheduler.cpuRatio'' ''10''),
     (''EnableDisk'', item ''queryNode.enableDisk'' ''false''),
     (''DiskCapacityLimit'',
       (item ''LOCAL_STORAGE_SIZE'' '''')\<lparr>Formatter := Some (DiskCapacityLimit_format disk m)\<rparr>)]"

definition queryNode_params_3 :: "'f go_float \<Rightarrow> (string \<Rightarrow> nat option) \<Rightarrow> 'h Manager option \<Rightarrow> (string \<times> ParamItem) list" where
  "queryNode_params_3 fl disk m = [
     (''MaxDiskUsagePercentage'', (item ''queryNode.maxDiskUsagePercentage'' ''95'')\<lparr>PanicIfEmpty := True,
       Formatter := Some (percentage fl)\<rparr>),
     (''MaxTimestampLag'', item ''queryNode.scheduler.maxTimestampLag'' ''86400''),
     (''GCEnabled'', item ''queryNode.gcenabled'' ''true''),
     (''GCHelperEnabled'', item ''queryNode.gchelper.enabled'' ''true''),
     (''MaximumGOGCConfig'', item ''queryNode.gchelper.maximumGoGC'' ''200''),
     (''MinimumGOGCConfig'', item ''queryNode.gchelper.minimumGoGC'' ''30''),
     (''GracefulStopTimeout'',
       (item ''queryNode.gracefulStopTimeout'' '''')\<lparr>FallbackKeys := [''common.gracefulStopTimeout'']\<rparr>),
     (''MaxSegmentDeleteBuffer'', item ''queryNode.maxSegmentDeleteBuffer'' ''10000000''),
     (''DeleteBufferBlockSize'', item ''queryNode.deleteBufferBlockSize'' ''1048576''),
     (''IoPoolSize'', item ''queryNode.ioPoolSize'' ''0''),
     (''SchedulePolicyName'', item ''queryNode.scheduler.scheduleReadPolicy.name'' ''fifo''),
     (''SchedulePolicyTaskQueueExpire'', item ''queryNode.scheduler.scheduleReadPolicy.taskQueueExpire'' ''60''),
     (''SchedulePolicyEnableCrossUserGrouping'', item ''queryNode.scheduler.scheduleReadPolicy.enableCrossUserGrouping'' ''false''),
     (''SchedulePolicyMaxPendingTaskPerUser'', item ''queryNode.scheduler.scheduleReadPolicy.maxPendingTaskPerUser'' ''1024''),
     (''CGOPoolSizeRatio'', item ''queryNode.segcore.cgoPoolSizeRatio'' ''2.0''),
     (''EnableWorkerSQCostMetrics'', item ''queryNode.enableWorkerSQCostMetrics'' ''false''),
     (''MemoryIndexLoadPredictMemoryUsageFactor'', item ''queryNode.memoryIndexLoadPredictMemoryUsageFactor'' ''2.5''),
     (''BloomFilterApplyParallelFactor'', item ''queryNode.bloomFilterApplyBatchSize'' ''4'')]"

definition queryNode_params :: "'f go_float \<Rightarrow> (string \<Rightarrow> nat option) \<Rightarrow> 'h Manager option \<Rightarrow> (string \<times> ParamItem) list" where
  "queryNode_params fl disk m = queryNode_params_1 fl disk m @ queryNode_params_2 fl disk m @ queryNode_params_3 fl disk m"

section \<open>Data coordinator, data node and index node\<close>

definition dataCoord_params_1 :: "(string \<times> ParamItem) list" where
  "dataCoord_params_1 = [
     (''WatchTimeoutInterval'', item ''dataCoord.channel.watchTimeoutInterval'' ''120''),
     (''ChannelBalanceSilentDuration'', item ''dataCoord.channel.balanceSilentDuration'' ''300''),
     (''ChannelBalanceInterval'', item ''dataCoord.channel.balanceInterval'' ''360''),
     (''ChannelOperationRPCTimeout'', item ''dataCoord.channel.notifyChannelOperationTimeout'' ''5''),
     (''SegmentMaxSize'', item ''dataCoord.segment.maxSize'' ''512''),
     (''DiskSegmentMaxSize'', item ''dataCoord.segment.diskSegmentMaxSize'' ''512''),
     (''SegmentSealProportion'', item ''dataCoord.segment.sealProportion'' ''0.23''),
     (''SegAssignmentExpiration'', item ''dataCoord.segment.assignmentExpiration'' ''2000''),
     (''AllocLatestExpireAttempt'', item ''dataCoord.segment.allocLatestExpireAttempt'' ''200''),
     (''SegmentMaxLifetime'', item ''dataCoord.segment.maxLife'' ''86400''),
     (''SegmentMaxIdleTime'', item ''dataCoord.segment.maxIdleTime'' ''600''),
     (''SegmentMinSizeFromIdleToSealed'', item ''dataCoord.segment.minSizeFromIdleToSealed'' ''16.0''),
     (''SegmentMaxBinlogFileNumber'', item ''dataCoord.segment.maxBinlogFileNumber'' ''32''),
     (''EnableCompaction'', item ''dataCoord.enableCompaction'' ''true''),
     (''EnableAutoCompaction'', item ''dataCoord.compaction.enableAutoCompaction'' ''true''),
     (''IndexBasedCompaction'', item ''dataCoord.compaction.indexBasedCompaction'' ''true'')]"

definition dataCoord_params_2 :: "(string \<times> ParamItem) list" where
  "dataCoord_params_2 = [
     (''CompactionRPCTimeout'', item ''dataCoord.compaction.rpcTimeout'' ''10''),
     (''CompactionMaxParallelTasks'', item ''dataCoord.compaction.maxParallelTaskNum'' ''10''),
     (''CompactionWorkerParalleTasks'', item ''dataCoord.compaction.workerMaxParallelTaskNum'' ''2''),
     (''MinSegmentToMerge'', item ''dataCoord.compaction.min.segment'' ''3''),
     (''MaxSegmentToMerge'', item ''dataCoord.compaction.max.segment'' ''30''),
     (''SegmentSmallProportion'', item ''dataCoord.segment.smallProportion'' ''0.5''),
     (''SegmentCompactableProportion'', item ''dataCoord.segment.compactableProportion'' ''0.85''),
     (''SegmentExpansionRate'', item ''dataCoord.segment.expansionRate'' ''1.25''),
     (''CompactionTimeoutInSeconds'', item ''dataCoord.compaction.timeout'' ''900''),
     (''CompactionCheckIntervalInSeconds'', item ''dataCoord.compaction.check.interval'' ''10''),
     (''SingleCompactionRatioThreshold'', item ''dataCoord.compaction.single.ratio.threshold'' ''0.2''),
     (''SingleCompactionDeltaLogMaxSize'', item ''dataCoord.compaction.single.deltalog.maxsize'' ''2097152''),
     (''SingleCompactionExpiredLogMaxSize'', item ''dataCoord.compaction.single.expiredlog.maxsize'' ''10485760''),
     (''SingleCompactionDeltalogMaxNum'', item ''dataCoord.compaction.single.deltalog.maxnum'' ''200''),
     (''GlobalCompactionInterval'', item ''dataCoord.compaction.global.interval'' ''60''),
     (''EnableGarbageCollection'', item ''dataCoord.enableGarbageCollection'' ''true''),
     (''GCInterval'', item ''dataCoord.gc.interval'' ''3600''),
     (''GCScanIntervalInHour'', item ''dataCoord.gc.scanInterval'' ''168'')]"

definition dataCoord_params_3 :: "(string \<times> ParamItem) list" where
  "dataCoord_params_3 = [
     (''GCMissingTolerance'', item ''dataCoord.gc.missingTolerance'' ''3600''),
     (''GCDropTolerance'', item ''dataCoord.gc.dropTolerance'' ''10800''),
     (''GCRemoveConcurrent'', item ''dataCoord.gc.removeConcurrent'' ''32''),
     (''EnableActiveStandby'', item ''dataCoord.enableActiveStandby'' ''false''),
     (''MinSegmentNumRowsToEnableIndex'', item ''indexCoord.segment.minSegmentNumRowsToEnableIndex'' ''1024''),
     (''BindIndexNodeMode'', item ''indexCoord.bindIndexNodeMode.enable'' ''false''),
     (''IndexNodeAddress'', item ''indexCoord.bindIndexNodeMode.address'' ''localhost:22930''),
     (''WithCredential'', item ''indexCoord.bindIndexNodeMode.withCred'' ''false''),
     (''IndexNodeID'', item ''indexCoord.bindIndexNodeMode.nodeID'' ''0''),
     (''IndexTaskSchedulerInterval'', item ''indexCoord.scheduler.interval'' ''1000''),
     (''AutoBalance'', (item ''dataCoord.autoBalance'' ''true'')\<lparr>PanicIfEmpty := True\<rparr>),
     (''CheckAutoBalanceConfigInterval'',
       (item ''dataCoord.checkAutoBalanceConfigInterval'' ''10'')\<lparr>PanicIfEmpty := True\<rparr>),
     (''AutoUpgradeSegmentIndex'',
       (item ''dataCoord.autoUpgradeSegmentIndex'' ''false'')\<lparr>PanicIfEmpty := True\<rparr>),
     (''GracefulStopTimeout'', item ''dataCoord.gracefulStopTimeout'' ''5'')]"

definition dataCoord_params :: "(string \<times> ParamItem) list" where
  "dataCoord_params = dataCoord_params_1 @ dataCoord_params_2 @ dataCoord_params_3"

text \<open>\<open>mode\<close> is the environment variable of the mode of deployment.\<close>

definition MemoryWatermark :: "string \<Rightarrow> ParamItem" where
  "MemoryWatermark mode =
     (if mode = ''STANDALONE'' then item ''datanode.memory.watermarkStandalone'' ''0.2''
      else if mode = ''DISTRIBUTED'' then item ''datanode.memory.watermarkCluster'' ''0.5''
      else item ''datanode.memory.watermarkCluster'' ''0.5'')"

definition dataNode_params_1 :: "string \<Rightarrow> (string \<times> ParamItem) list" where
  "dataNode_params_1 mode = [
     (''FlowGraphMaxQueueLength'', item ''dataNode.dataSync.flowGraph.maxQueueLength'' ''16''),
     (''FlowGraphMaxParallelism'', item ''dataNode.dataSync.flowGraph.maxParallelism'' ''1024''),
     (''FlowGraphSkipModeEnable'', item ''datanode.dataSync.skipMode.enable'' ''true''),
     (''FlowGraphSkipModeSkipNum'', item ''datanode.dataSync.skipMode.skipNum'' ''4''),
     (''FlowGraphSkipModeColdTime'', item ''datanode.dataSync.skipMode.coldTime'' ''60''),
     (''MaxParallelSyncTaskNum'', item ''dataNode.dataSync.maxParallelSyncTaskNum'' ''6''),
     (''FlushInsertBufferSize'',
       (item ''dataNode.segment.insertBufSize'' ''16777216'')\<lparr>FallbackKeys := [''DATA_NODE_IBUFSIZE''],
       PanicIfEmpty := True\<rparr>),
     (''MemoryForceSyncEnable'', item ''datanode.memory.forceSyncEnable'' ''true''),
     (''MemoryForceSyncSegmentNum'', item ''datanode.memory.forceSyncSegmentNum'' ''1''),
     (''MemoryWatermark'', MemoryWatermark mode),
     (''FlushDeleteBufferBytes'', item ''dataNode.segment.deleteBufBytes'' ''67108864''),
     (''BinLogMaxSize'', item ''dataNode.segment.binlog.maxsize'' ''67108864''),
     (''SyncPeriod'', item ''dataNode.segment.syncPeriod'' ''600''),
     (''WatchEventTicklerInterval'', item ''datanode.segment.watchEventTicklerInterval'' ''15''),
     (''IOConcurrency'', item ''dataNode.dataSync.ioConcurrency'' ''16'')]"

definition dataNode_params_2 :: "(string \<times> ParamItem) list" where
  "dataNode_params_2 = [
     (''FileReadConcurrency'', item ''dataNode.multiRead.concurrency'' ''16''),
     (''DataNodeTimeTickByRPC'', item ''datanode.timetick.byRPC'' ''true''),
     (''DataNodeTimeTickInterval'', item ''datanode.timetick.interval'' ''500''),
     (''SkipBFStatsLoad'', item ''dataNode.skip.BFStats.Load'' ''false''),
     (''BulkInsertTimeoutSeconds'', item ''datanode.bulkinsert.timeout.seconds'' ''18000''),
     (''BulkInsertReadBufferSize'', item ''datanode.bulkinsert.readBufferSize'' ''16777216''),
     (''BulkInsertMaxMemorySize'', item ''datanode.bulkinsert.maxMemorySize'' ''6442450944''),
     (''ChannelWorkPoolSize'', item ''datanode.channel.workPoolSize'' ''-1''),
     (''UpdateChannelCheckpointMaxParallel'', item ''datanode.channel.updateChannelCheckpointMaxParallel'' ''10''),
     (''UpdateChannelCheckpointInterval'', item ''datanode.channel.updateChannelCheckpointInterval'' ''60''),
     (''UpdateChannelCheckpointRPCTimeout'', item ''datanode.channel.updateChannelCheckpointRPCTimeout'' ''20''),
     (''MaxChannelCheckpointsPerRPC'', item ''datanode.channel.maxChannelCheckpointsPerPRC'' ''128''),
     (''ChannelCheckpointUpdateTickInSeconds'', item ''datanode.channel.channelCheckpointUpdateTickInSeconds'' ''10''),
     (''GracefulStopTimeout'', item ''datanode.gracefulStopTimeout'' ''1800''),
     (''FlushMgrCleanInterval'', item ''datanode.flushMgrCleanInterval'' ''300''),
     (''BloomFilterApplyParallelFactor'', item ''datanode.bloomFilterApplyBatchSize'' ''4'')]"

definition dataNode_params :: "string \<Rightarrow> (string \<times> ParamItem) list" where
  "dataNode_params mode = dataNode_params_1 mode @ dataNode_params_2"

definition indexNode_DiskCapacityLimit_format :: "(string \<Rightarrow> nat option) \<Rightarrow> string \<Rightarrow> (config_error, string) outcome" where
  "indexNode_DiskCapacityLimit_format disk v =
     (if v = [] then (case disk ''/'' of None \<Rightarrow> Panic ''disk usage'' | Some bytes_total \<Rightarrow> Ok (string_of_nat bytes_total))
      else Ok (gigabytes v))"

definition indexNode_params :: "'f go_float \<Rightarrow> (string \<Rightarrow> nat option) \<Rightarrow> (string \<times> ParamItem) list" where
  "indexNode_params fl disk = [
     (''BuildParallel'', item ''indexNode.scheduler.buildParallel'' ''1''),
     (''EnableDisk'', (item ''indexNode.enableDisk'' ''false'')\<lparr>PanicIfEmpty := True\<rparr>),
     (''DiskCapacityLimit'',
       (item ''LOCAL_STORAGE_SIZE'' '''')\<lparr>Formatter := Some (indexNode_DiskCapacityLimit_format disk)\<rparr>),
     (''MaxDiskUsagePercentage'', (item ''indexNode.maxDiskUsagePercentage'' ''95'')\<lparr>PanicIfEmpty := True,
       Formatter := Some (percentage fl)\<rparr>),
     (''GracefulStopTimeout'',
       (item ''indexNode.gracefulStopTimeout'' '''')\<lparr>FallbackKeys := [''common.gracefulStopTimeout'']\<rparr>)]"

definition integrationTest_params :: "(string \<times> ParamItem) list" where
  "integrationTest_params = [
     (''IntegrationMode'', (item ''integration.test.mode'' ''false'')\<lparr>PanicIfEmpty := True\<rparr>)]"

section \<open>The HTTP server\<close>

definition http_params :: "(string \<times> ParamItem) list" where
  "http_params = [
     (''Enabled'', item ''proxy.http.enabled'' ''true''),
     (''DebugMode'', item ''proxy.http.debug_mode'' ''false''),
     (''Port'', item ''proxy.http.port'' ''''),
     (''AcceptTypeAllowInt64'', item ''proxy.http.acceptTypeAllowInt64'' ''true''),
     (''EnablePprof'', item ''proxy.http.enablePprof'' ''true'')]"

end
