(* ===== verification/ParamQuota.thy ===== *)
theory ParamQuota
  imports ParamComponent
begin

text \<open>
  The parameters of quotas and limits (pkg/util/paramtable/quota\_param.go). Most of them have a formatter that replaces
  values that make no sense and that reads other parameters of the table: whether a kind of limit is enabled, and the
  upper limit that a lower limit must not exceed. Formatters of the same text are one definition here.

  Floating point numbers are those of \<open>go_float\<close>; \<open>float_laws\<close> states what of them the theorems need.
\<close>

section \<open>Formatters\<close>

definition MBSize :: "'f go_float \<Rightarrow> 'f" where
  "MBSize fl = float_const fl 1048576 1"

definition defaultDiskQuotaInMB :: "'f go_float \<Rightarrow> 'f" where
  "defaultDiskQuotaInMB fl = fl_divide fl (MaxFloat64 fl) (MBSize fl)"

definition megaBytes2Bytes :: "'f go_float \<Rightarrow> 'f \<Rightarrow> 'f" where
  "megaBytes2Bytes fl f = fl_times fl f (MBSize fl)"

definition checkMinMaxLegal :: "'f go_float \<Rightarrow> 'f \<Rightarrow> 'f \<Rightarrow> bool" where
  "checkMinMaxLegal fl lo hi \<longleftrightarrow> \<not> fl_less fl hi lo"

definition max_text :: "'f go_float \<Rightarrow> string" where "max_text fl = Sprintf_f fl (MaxFloat64 fl)"
definition min_text :: "'f go_float \<Rightarrow> string" where "min_text fl = Sprintf_f fl (float_zero fl)"
definition lowWaterLevel :: "'f go_float \<Rightarrow> string" where "lowWaterLevel fl = Sprintf_f fl (float_const fl 85 100)"
definition highWaterLevel :: "'f go_float \<Rightarrow> string" where "highWaterLevel fl = Sprintf_f fl (float_const fl 95 100)"
definition quota_text :: "'f go_float \<Rightarrow> string" where "quota_text fl = Sprintf_f fl (defaultDiskQuotaInMB fl)"
definition MaxInt64_text :: string where "MaxInt64_text = ''9223372036854775807''"

text \<open>\<open>off\<close> while the parameter \<open>enabled\<close> is false.\<close>

definition when_enabled ::
  "'h Manager option \<Rightarrow> ParamItem \<Rightarrow> string \<Rightarrow> (config_error, string) outcome \<Rightarrow> (config_error, string) outcome" where
  "when_enabled m enabled off k = bindO (GetAsBool m enabled) (\<lambda>on. if \<not> on then Ok off else k)"

definition QuotaCenterCollectInterval_format :: "string \<Rightarrow> (config_error, string) outcome" where
  "QuotaCenterCollectInterval_format v = (if getAsInt v \<le> 0 \<or> getAsInt v \<ge> 65536 then Ok ''3.0'' else Ok v)"

definition limit_int ::
  "'f go_float \<Rightarrow> 'h Manager option \<Rightarrow> ParamItem \<Rightarrow> string \<Rightarrow> (config_error, string) outcome" where
  "limit_int fl m enabled v =
     when_enabled m enabled (max_text fl) (if getAsInt v < 0 then Ok (max_text fl) else Ok v)"

definition limit_float ::
  "'f go_float \<Rightarrow> 'h Manager option \<Rightarrow> ParamItem \<Rightarrow> string \<Rightarrow> (config_error, string) outcome" where
  "limit_float fl m enabled v =
     when_enabled m enabled (max_text fl)
       (if fl_less fl (getAsFloat fl v) (float_zero fl) then Ok (max_text fl) else Ok v)"

definition limit_float_of ::
  "'f go_float \<Rightarrow> 'h Manager option \<Rightarrow> ParamItem \<Rightarrow> ParamItem \<Rightarrow> string \<Rightarrow> (config_error, string) outcome" where
  "limit_float_of fl m enabled of_all v =
     when_enabled m enabled (max_text fl)
       (if fl_less fl (getAsFloat fl v) (float_zero fl) then get m of_all else Ok v)"

definition least_rate ::
  "'f go_float \<Rightarrow> 'h Manager option \<Rightarrow> ParamItem \<Rightarrow> ParamItem \<Rightarrow> string \<Rightarrow> (config_error, string) outcome" where
  "least_rate fl m enabled limit v =
     when_enabled m enabled (min_text fl)
       (let rate = getAsFloat fl v
        in if fl_less fl rate (float_zero fl) then Ok (min_text fl)
           else bindO (GetAsFloat fl m limit) (\<lambda>most.
             if \<not> checkMinMaxLegal fl rate most then Ok (min_text fl) else Ok v))"

text \<open>Whether a rate is not the default, which means no limit.\<close>

definition is_set :: "'f go_float \<Rightarrow> 'f \<Rightarrow> bool" where
  "is_set fl rate \<longleftrightarrow> fl_less fl (float_const fl 1 1000) (fl_Abs fl (fl_minus fl rate (MaxFloat64 fl)))"

definition rate_bytes :: "'f go_float \<Rightarrow> 'f \<Rightarrow> 'f" where
  "rate_bytes fl rate = (if is_set fl rate then megaBytes2Bytes fl rate else rate)"

definition limit_megabytes ::
  "'f go_float \<Rightarrow> 'h Manager option \<Rightarrow> ParamItem \<Rightarrow> string \<Rightarrow> (config_error, string) outcome" where
  "limit_megabytes fl m enabled v =
     when_enabled m enabled (max_text fl)
       (let rate = rate_bytes fl (getAsFloat fl v)
        in if fl_less fl rate (float_zero fl) then Ok (max_text fl) else Ok (Sprintf_f fl rate))"

definition limit_megabytes_of ::
  "'f go_float \<Rightarrow> 'h Manager option \<Rightarrow> ParamItem \<Rightarrow> ParamItem \<Rightarrow> string \<Rightarrow> (config_error, string) outcome" where
  "limit_megabytes_of fl m enabled of_all v =
     when_enabled m enabled (max_text fl)
       (let rate = rate_bytes fl (getAsFloat fl v)
        in if fl_less fl rate (float_zero fl) then get m of_all else Ok (Sprintf_f fl rate))"

definition least_megabytes ::
  "'f go_float \<Rightarrow> 'h Manager option \<Rightarrow> ParamItem \<Rightarrow> ParamItem \<Rightarrow> string \<Rightarrow> (config_error, string) outcome" where
  "least_megabytes fl m enabled limit v =
     when_enabled m enabled (min_text fl)
       (let rate = megaBytes2Bytes fl (getAsFloat fl v)
        in if fl_less fl rate (float_zero fl) then Ok (min_text fl)
           else bindO (GetAsFloat fl m limit) (\<lambda>most.
             if \<not> checkMinMaxLegal fl rate most then Ok (min_text fl) else Ok (Sprintf_f fl rate)))"

definition MaxTimeTickDelay_format ::
  "'f go_float \<Rightarrow> 'h Manager option \<Rightarrow> ParamItem \<Rightarrow> string \<Rightarrow> (config_error, string) outcome" where
  "MaxTimeTickDelay_format fl m enabled v =
     when_enabled m enabled MaxInt64_text
       (let delay = getAsFloat fl v
        in if fl_leq fl delay (float_zero fl) \<or> fl_leq fl (float_const fl 65536 1) delay then Ok ''300.0''
           else Ok (Sprintf_f fl delay))"

text \<open>A level that is outside (0, 1].\<close>

definition off_scale :: "'f go_float \<Rightarrow> 'f \<Rightarrow> bool" where
  "off_scale fl level \<longleftrightarrow> fl_leq fl level (float_zero fl) \<or> fl_less fl (float_const fl 1 1) level"

definition proportion :: "'f go_float \<Rightarrow> string \<Rightarrow> string \<Rightarrow> (config_error, string) outcome" where
  "proportion fl dflt v = (if off_scale fl (getAsFloat fl v) then Ok dflt else Ok v)"

definition low_water ::
  "'f go_float \<Rightarrow> 'h Manager option \<Rightarrow> ParamItem \<Rightarrow> string \<Rightarrow> (config_error, string) outcome" where
  "low_water fl m enabled v =
     when_enabled m enabled (lowWaterLevel fl)
       (if off_scale fl (getAsFloat fl v) then Ok (lowWaterLevel fl) else Ok v)"

definition high_water ::
  "'f go_float \<Rightarrow> 'h Manager option \<Rightarrow> string \<Rightarrow> ParamItem \<Rightarrow> ParamItem \<Rightarrow> string \<Rightarrow> (config_error, string) outcome" where
  "high_water fl m off enabled low v =
     when_enabled m enabled off
       (if off_scale fl (getAsFloat fl v) then Ok (highWaterLevel fl)
        else bindO (GetAsFloat fl m low) (\<lambda>l.
          if \<not> checkMinMaxLegal fl l (getAsFloat fl v) then Ok (highWaterLevel fl) else Ok v))"

definition GrowingSegmentsSizeHighWaterLevel_format ::
  "'f go_float \<Rightarrow> 'h Manager option \<Rightarrow> ParamItem \<Rightarrow> string \<Rightarrow> (config_error, string) outcome" where
  "GrowingSegmentsSizeHighWaterLevel_format fl m low v =
     (if off_scale fl (getAsFloat fl v) then Ok ''0.4''
      else bindO (GetAsFloat fl m low) (\<lambda>l.
        if \<not> checkMinMaxLegal fl l (getAsFloat fl v) then Ok ''0.4'' else Ok v))"

definition DiskQuota_format ::
  "'f go_float \<Rightarrow> 'h Manager option \<Rightarrow> ParamItem \<Rightarrow> string \<Rightarrow> (config_error, string) outcome" where
  "DiskQuota_format fl m enabled v =
     when_enabled m enabled (max_text fl)
       (let level = getAsFloat fl v
        in if fl_leq fl level (float_zero fl) then Ok (max_text fl) else Ok (Sprintf_f fl (megaBytes2Bytes fl level)))"

definition DiskQuotaPerCollection_format ::
  "'f go_float \<Rightarrow> 'h Manager option \<Rightarrow> ParamItem \<Rightarrow> ParamItem \<Rightarrow> string \<Rightarrow> (config_error, string) outcome" where
  "DiskQuotaPerCollection_format fl m enabled of_all v =
     when_enabled m enabled (max_text fl)
       (let level = getAsFloat fl v
        in if fl_leq fl level (float_zero fl) then get m of_all else Ok (Sprintf_f fl (megaBytes2Bytes fl level)))"

definition NQInQueueThreshold_format ::
  "'f go_float \<Rightarrow> 'h Manager option \<Rightarrow> ParamItem \<Rightarrow> string \<Rightarrow> (config_error, string) outcome" where
  "NQInQueueThreshold_format fl m enabled v =
     when_enabled m enabled MaxInt64_text
       (if fl_less fl (getAsFloat fl v) (float_zero fl) then Ok MaxInt64_text else Ok v)"

definition MaxReadResultRate_format ::
  "'f go_float \<Rightarrow> 'h Manager option \<Rightarrow> ParamItem \<Rightarrow> string \<Rightarrow> (config_error, string) outcome" where
  "MaxReadResultRate_format fl m enabled v =
     when_enabled m enabled (max_text fl)
       (let rate = getAsFloat fl v
        in if is_set fl rate then Ok (Sprintf_f fl (megaBytes2Bytes fl rate))
           else if fl_less fl rate (float_zero fl) then Ok (max_text fl) else Ok v)"

section \<open>The parameters\<close>

definition QuotaAndLimitsEnabled :: "ParamItem" where
  "QuotaAndLimitsEnabled =
     item ''quotaAndLimits.enabled'' ''false''"

definition QuotaCenterCollectInterval :: "ParamItem" where
  "QuotaCenterCollectInterval =
     (item ''quotaAndLimits.quotaCenterCollectInterval'' ''3.0'')\<lparr>Formatter := Some QuotaCenterCollectInterval_format\<rparr>"

definition DDLLimitEnabled :: "ParamItem" where
  "DDLLimitEnabled =
     item ''quotaAndLimits.ddl.enabled'' ''false''"

definition DDLCollectionRate :: "'f go_float \<Rightarrow> 'h Manager option \<Rightarrow> ParamItem" where
  "DDLCollectionRate fl m =
     (item ''quotaAndLimits.ddl.collectionRate'' (max_text fl))\<lparr>Formatter := Some (limit_int fl m DDLLimitEnabled)\<rparr>"

definition DDLPartitionRate :: "'f go_float \<Rightarrow> 'h Manager option \<Rightarrow> ParamItem" where
  "DDLPartitionRate fl m =
     (item ''quotaAndLimits.ddl.partitionRate'' (max_text fl))\<lparr>Formatter := Some (limit_int fl m DDLLimitEnabled)\<rparr>"

definition IndexLimitEnabled :: "ParamItem" where
  "IndexLimitEnabled =
     item ''quotaAndLimits.indexRate.enabled'' ''false''"

definition MaxIndexRate :: "'f go_float \<Rightarrow> 'h Manager option \<Rightarrow> ParamItem" where
  "MaxIndexRate fl m =
     (item ''quotaAndLimits.indexRate.max'' (max_text fl))\<lparr>Formatter := Some (limit_float fl m IndexLimitEnabled)\<rparr>"

definition FlushLimitEnabled :: "ParamItem" where
  "FlushLimitEnabled =
     item ''quotaAndLimits.flushRate.enabled'' ''false''"

definition MaxFlushRate :: "'f go_float \<Rightarrow> 'h Manager option \<Rightarrow> ParamItem" where
  "MaxFlushRate fl m =
     (item ''quotaAndLimits.flushRate.max'' (max_text fl))\<lparr>Formatter := Some (limit_int fl m FlushLimitEnabled)\<rparr>"

definition MaxFlushRatePerCollection :: "'f go_float \<Rightarrow> 'h Manager option \<Rightarrow> ParamItem" where
  "MaxFlushRatePerCollection fl m =
     (item ''quotaAndLimits.flushRate.collection.max'' ''-1'')\<lparr>Formatter := Some (limit_int fl m FlushLimitEnabled)\<rparr>"

definition CompactionLimitEnabled :: "ParamItem" where
  "CompactionLimitEnabled =
     item ''quotaAndLimits.compactionRate.enabled'' ''false''"

definition MaxCompactionRate :: "'f go_float \<Rightarrow> 'h Manager option \<Rightarrow> ParamItem" where
  "MaxCompactionRate fl m =
     (item ''quotaAndLimits.compactionRate.max'' (max_text fl))\<lparr>Formatter := Some (limit_int fl m CompactionLimitEnabled)\<rparr>"

definition DMLLimitEnabled :: "ParamItem" where
  "DMLLimitEnabled =
     item ''quotaAndLimits.dml.enabled'' ''false''"

definition DMLMaxInsertRate :: "'f go_float \<Rightarrow> 'h Manager option \<Rightarrow> ParamItem" where
  "DMLMaxInsertRate fl m =
     (item ''quotaAndLimits.dml.insertRate.max'' (max_text fl))\<lparr>Formatter := Some (limit_megabytes fl m DMLLimitEnabled)\<rparr>"

definition DMLMinInsertRate :: "'f go_float \<Rightarrow> 'h Manager option \<Rightarrow> ParamItem" where
  "DMLMinInsertRate fl m =
     (item ''quotaAndLimits.dml.insertRate.min'' (min_text fl))\<lparr>Formatter := Some (least_megabytes fl m DMLLimitEnabled (DMLMaxInsertRate fl m))\<rparr>"

definition DMLMaxInsertRatePerCollection :: "'f go_float \<Rightarrow> 'h Manager option \<Rightarrow> ParamItem" where
  "DMLMaxInsertRatePerCollection fl m =
     (item ''quotaAndLimits.dml.insertRate.collection.max'' (max_text fl))\<lparr>Formatter := Some (limit_megabytes_of fl m DMLLimitEnabled (DMLMaxInsertRate fl m))\<rparr>"

definition DMLMinInsertRatePerCollection :: "'f go_float \<Rightarrow> 'h Manager option \<Rightarrow> ParamItem" where
  "DMLMinInsertRatePerCollection fl m =
     (item ''quotaAndLimits.dml.insertRate.collection.min'' (min_text fl))\<lparr>Formatter := Some (least_megabytes fl m DMLLimitEnabled (DMLMaxInsertRatePerCollection fl m))\<rparr>"

definition DMLMaxUpsertRate :: "'f go_float \<Rightarrow> 'h Manager option \<Rightarrow> ParamItem" where
  "DMLMaxUpsertRate fl m =
     (item ''quotaAndLimits.dml.upsertRate.max'' (max_text fl))\<lparr>Formatter := Some (limit_megabytes fl m DMLLimitEnabled)\<rparr>"

definition DMLMinUpsertRate :: "'f go_float \<Rightarrow> 'h Manager option \<Rightarrow> ParamItem" where
  "DMLMinUpsertRate fl m =
     (item ''quotaAndLimits.dml.UpsertRate.min'' (min_text fl))\<lparr>Formatter := Some (least_megabytes fl m DMLLimitEnabled (DMLMaxUpsertRate fl m))\<rparr>"

definition DMLMaxUpsertRatePerCollection :: "'f go_float \<Rightarrow> 'h Manager option \<Rightarrow> ParamItem" where
  "DMLMaxUpsertRatePerCollection fl m =
     (item ''quotaAndLimits.dml.upsertRate.collection.max'' (max_text fl))\<lparr>Formatter := Some (limit_megabytes_of fl m DMLLimitEnabled (DMLMaxUpsertRate fl m))\<rparr>"

definition DMLMinUpsertRatePerCollection :: "'f go_float \<Rightarrow> 'h Manager option \<Rightarrow> ParamItem" where
  "DMLMinUpsertRatePerCollection fl m =
     (item ''quotaAndLimits.dml.upsertRate.collection.min'' (min_text fl))\<lparr>Formatter := Some (least_megabytes fl m DMLLimitEnabled (DMLMaxUpsertRatePerCollection fl m))\<rparr>"

definition DMLMaxDeleteRate :: "'f go_float \<Rightarrow> 'h Manager option \<Rightarrow> ParamItem" where
  "DMLMaxDeleteRate fl m =
     (item ''quotaAndLimits.dml.deleteRate.max'' (max_text fl))\<lparr>Formatter := Some (limit_megabytes fl m DMLLimitEnabled)\<rparr>"

definition DMLMinDeleteRate :: "'f go_float \<Rightarrow> 'h Manager option \<Rightarrow> ParamItem" where
  "DMLMinDeleteRate fl m =
     (item ''quotaAndLimits.dml.deleteRate.min'' (min_text fl))\<lparr>Formatter := Some (least_megabytes fl m DMLLimitEnabled (DMLMaxDeleteRate fl m))\<rparr>"

definition DMLMaxDeleteRatePerCollection :: "'f go_float \<Rightarrow> 'h Manager option \<Rightarrow> ParamItem" where
  "DMLMaxDeleteRatePerCollection fl m =
     (item ''quotaAndLimits.dml.deleteRate.collection.max'' (max_text fl))\<lparr>Formatter := Some (limit_megabytes_of fl m DMLLimitEnabled (DMLMaxDeleteRate fl m))\<rparr>"

definition DMLMinDeleteRatePerCollection :: "'f go_float \<Rightarrow> 'h Manager option \<Rightarrow> ParamItem" where
  "DMLMinDeleteRatePerCollection fl m =
     (item ''quotaAndLimits.dml.deleteRate.collection.min'' (min_text fl))\<lparr>Formatter := Some (least_megabytes fl m DMLLimitEnabled (DMLMaxDeleteRatePerCollection fl m))\<rparr>"

definition DMLMaxBulkLoadRate :: "'f go_float \<Rightarrow> 'h Manager option \<Rightarrow> ParamItem" where
  "DMLMaxBulkLoadRate fl m =
     (item ''quotaAndLimits.dml.bulkLoadRate.max'' (max_text fl))\<lparr>Formatter := Some (limit_megabytes fl m DMLLimitEnabled)\<rparr>"

definition DMLMinBulkLoadRate :: "'f go_float \<Rightarrow> 'h Manager option \<Rightarrow> ParamItem" where
  "DMLMinBulkLoadRate fl m =
     (item ''quotaAndLimits.dml.bulkLoadRate.min'' (min_text fl))\<lparr>Formatter := Some (least_megabytes fl m DMLLimitEnabled (DMLMaxBulkLoadRate fl m))\<rparr>"

definition DMLMaxBulkLoadRatePerCollection :: "'f go_float \<Rightarrow> 'h Manager option \<Rightarrow> ParamItem" where
  "DMLMaxBulkLoadRatePerCollection fl m =
     (item ''quotaAndLimits.dml.bulkLoadRate.collection.max'' (max_text fl))\<lparr>Formatter := Some (limit_megabytes_of fl m DMLLimitEnabled (DMLMaxBulkLoadRate fl m))\<rparr>"

definition DMLMinBulkLoadRatePerCollection :: "'f go_float \<Rightarrow> 'h Manager option \<Rightarrow> ParamItem" where
  "DMLMinBulkLoadRatePerCollection fl m =
     (item ''quotaAndLimits.dml.bulkLoadRate.collection.min'' (min_text fl))\<lparr>Formatter := Some (least_megabytes fl m DMLLimitEnabled (DMLMaxBulkLoadRatePerCollection fl m))\<rparr>"

definition DQLLimitEnabled :: "ParamItem" where
  "DQLLimitEnabled =
     item ''quotaAndLimits.dql.enabled'' ''false''"

definition DQLMaxSearchRate :: "'f go_float \<Rightarrow> 'h Manager option \<Rightarrow> ParamItem" where
  "DQLMaxSearchRate fl m =
     (item ''quotaAndLimits.dql.searchRate.max'' (max_text fl))\<lparr>Formatter := Some (limit_float fl m DQLLimitEnabled)\<rparr>"

definition DQLMinSearchRate :: "'f go_float \<Rightarrow> 'h Manager option \<Rightarrow> ParamItem" where
  "DQLMinSearchRate fl m =
     (item ''quotaAndLimits.dql.searchRate.min'' (min_text fl))\<lparr>Formatter := Some (least_rate fl m DQLLimitEnabled (DQLMaxSearchRate fl m))\<rparr>"

definition DQLMaxSearchRatePerCollection :: "'f go_float \<Rightarrow> 'h Manager option \<Rightarrow> ParamItem" where
  "DQLMaxSearchRatePerCollection fl m =
     (item ''quotaAndLimits.dql.searchRate.collection.max'' (max_text fl))\<lparr>Formatter := Some (limit_float_of fl m DQLLimitEnabled (DQLMaxSearchRate fl m))\<rparr>"

definition DQLMinSearchRatePerCollection :: "'f go_float \<Rightarrow> 'h Manager option \<Rightarrow> ParamItem" where
  "DQLMinSearchRatePerCollection fl m =
     (item ''quotaAndLimits.dql.searchRate.collection.min'' (min_text fl))\<lparr>Formatter := Some (least_rate fl m DQLLimitEnabled (DQLMaxSearchRatePerCollection fl m))\<rparr>"

definition DQLMaxQueryRate :: "'f go_float \<Rightarrow> 'h Manager option \<Rightarrow> ParamItem" where
  "DQLMaxQueryRate fl m =
     (item ''quotaAndLimits.dql.queryRate.max'' (max_text fl))\<lparr>Formatter := Some (limit_float fl m DQLLimitEnabled)\<rparr>"

definition DQLMinQueryRate :: "'f go_float \<Rightarrow> 'h Manager option \<Rightarrow> ParamItem" where
  "DQLMinQueryRate fl m =
     (item ''quotaAndLimits.dql.queryRate.min'' (min_text fl))\<lparr>Formatter := Some (least_rate fl m DQLLimitEnabled (DQLMaxQueryRate fl m))\<rparr>"

definition DQLMaxQueryRatePerCollection :: "'f go_float \<Rightarrow> 'h Manager option \<Rightarrow> ParamItem" where
  "DQLMaxQueryRatePerCollection fl m =
     (item ''quotaAndLimits.dql.queryRate.collection.max'' (max_text fl))\<lparr>Formatter := Some (limit_float_of fl m DQLLimitEnabled (DQLMaxQueryRate fl m))\<rparr>"

definition DQLMinQueryRatePerCollection :: "'f go_float \<Rightarrow> 'h Manager option \<Rightarrow> ParamItem" where
  "DQLMinQueryRatePerCollection fl m =
     (item ''quotaAndLimits.dql.queryRate.collection.min'' (min_text fl))\<lparr>Formatter := Some (least_rate fl m DQLLimitEnabled (DQLMaxQueryRatePerCollection fl m))\<rparr>"

definition MaxCollectionNum :: "ParamItem" where
  "MaxCollectionNum =
     item ''quotaAndLimits.limits.maxCollectionNum'' ''65536''"

definition MaxCollectionNumPerDB :: "ParamItem" where
  "MaxCollectionNumPerDB =
     item ''quotaAndLimits.limits.maxCollectionNumPerDB'' ''64''"

definition TopKLimit :: "ParamItem" where
  "TopKLimit =
     (item ''quotaAndLimits.limits.topK'' ''16384'')\<lparr>FallbackKeys := [''common.topKLimit'']\<rparr>"

definition NQLimit :: "ParamItem" where
  "NQLimit =
     item ''quotaAndLimits.limits.nq'' ''16384''"

definition MaxQueryResultWindow :: "ParamItem" where
  "MaxQueryResultWindow =
     item ''quotaAndLimits.limits.maxQueryResultWindow'' ''16384''"

definition MaxOutputSize :: "ParamItem" where
  "MaxOutputSize =
     item ''quotaAndLimits.limits.maxOutputSize'' ''104857600''"

definition ForceDenyWriting :: "ParamItem" where
  "ForceDenyWriting =
     item ''quotaAndLimits.limitWriting.forceDeny'' ''false''"

definition TtProtectionEnabled :: "ParamItem" where
  "TtProtectionEnabled =
     item ''quotaAndLimits.limitWriting.ttProtection.enabled'' ''false''"

definition MaxTimeTickDelay :: "'f go_float \<Rightarrow> 'h Manager option \<Rightarrow> ParamItem" where
  "MaxTimeTickDelay fl m =
     (item ''quotaAndLimits.limitWriting.ttProtection.maxTimeTickDelay'' ''300.0'')\<lparr>Formatter := Some (MaxTimeTickDelay_format fl m TtProtectionEnabled)\<rparr>"

definition MemProtectionEnabled :: "ParamItem" where
  "MemProtectionEnabled =
     item ''quotaAndLimits.limitWriting.memProtection.enabled'' ''true''"

definition DataNodeMemoryLowWaterLevel :: "'f go_float \<Rightarrow> 'h Manager option \<Rightarrow> ParamItem" where
  "DataNodeMemoryLowWaterLevel fl m =
     (item ''quotaAndLimits.limitWriting.memProtection.dataNodeMemoryLowWaterLevel'' (lowWaterLevel fl))\<lparr>Formatter := Some (low_water fl m MemProtectionEnabled)\<rparr>"

definition DataNodeMemoryHighWaterLevel :: "'f go_float \<Rightarrow> 'h Manager option \<Rightarrow> ParamItem" where
  "DataNodeMemoryHighWaterLevel fl m =
     (item ''quotaAndLimits.limitWriting.memProtection.dataNodeMemoryHighWaterLevel'' (highWaterLevel fl))\<lparr>Formatter := Some (high_water fl m ''1'' MemProtectionEnabled (DataNodeMemoryLowWaterLevel fl m))\<rparr>"

definition QueryNodeMemoryLowWaterLevel :: "'f go_float \<Rightarrow> 'h Manager option \<Rightarrow> ParamItem" where
  "QueryNodeMemoryLowWaterLevel fl m =
     (item ''quotaAndLimits.limitWriting.memProtection.queryNodeMemoryLowWaterLevel'' (lowWaterLevel fl))\<lparr>Formatter := Some (low_water fl m MemProtectionEnabled)\<rparr>"

definition QueryNodeMemoryHighWaterLevel :: "'f go_float \<Rightarrow> 'h Manager option \<Rightarrow> ParamItem" where
  "QueryNodeMemoryHighWaterLevel fl m =
     (item ''quotaAndLimits.limitWriting.memProtection.queryNodeMemoryHighWaterLevel'' (highWaterLevel fl))\<lparr>Formatter := Some (high_water fl m (highWaterLevel fl) MemProtectionEnabled (QueryNodeMemoryLowWaterLevel fl m))\<rparr>"

definition GrowingSegmentsSizeProtectionEnabled :: "ParamItem" where
  "GrowingSegmentsSizeProtectionEnabled =
     item ''quotaAndLimits.limitWriting.growingSegmentsSizeProtection.enabled'' ''false''"

definition GrowingSegmentsSizeMinRateRatio :: "'f go_float \<Rightarrow> 'h Manager option \<Rightarrow> ParamItem" where
  "GrowingSegmentsSizeMinRateRatio fl m =
     (item ''quotaAndLimits.limitWriting.growingSegmentsSizeProtection.minRateRatio'' ''0.5'')\<lparr>Formatter := Some (proportion fl ''0.5'')\<rparr>"

definition GrowingSegmentsSizeLowWaterLevel :: "'f go_float \<Rightarrow> 'h Manager option \<Rightarrow> ParamItem" where
  "GrowingSegmentsSizeLowWaterLevel fl m =
     (item ''quotaAndLimits.limitWriting.growingSegmentsSizeProtection.lowWaterLevel'' ''0.2'')\<lparr>Formatter := Some (proportion fl ''0.2'')\<rparr>"

definition GrowingSegmentsSizeHighWaterLevel :: "'f go_float \<Rightarrow> 'h Manager option \<Rightarrow> ParamItem" where
  "GrowingSegmentsSizeHighWaterLevel fl m =
     (item ''quotaAndLimits.limitWriting.growingSegmentsSizeProtection.highWaterLevel'' ''0.4'')\<lparr>Formatter := Some (GrowingSegmentsSizeHighWaterLevel_format fl m (GrowingSegmentsSizeLowWaterLevel fl m))\<rparr>"

definition DiskProtectionEnabled :: "ParamItem" where
  "DiskProtectionEnabled =
     item ''quotaAndLimits.limitWriting.diskProtection.enabled'' ''true''"

definition DiskQuota :: "'f go_float \<Rightarrow> 'h Manager option \<Rightarrow> ParamItem" where
  "DiskQuota fl m =
     (item ''quotaAndLimits.limitWriting.diskProtection.diskQuota'' (quota_text fl))\<lparr>Formatter := Some (DiskQuota_format fl m DiskProtectionEnabled)\<rparr>"

definition DiskQuotaPerCollection :: "'f go_float \<Rightarrow> 'h Manager option \<Rightarrow> ParamItem" where
  "DiskQuotaPerCollection fl m =
     (item ''quotaAndLimits.limitWriting.diskProtection.diskQuotaPerCollection'' (quota_text fl))\<lparr>Formatter := Some (DiskQuotaPerCollection_format fl m DiskProtectionEnabled (DiskQuota fl m))\<rparr>"

definition ForceDenyReading :: "ParamItem" where
  "ForceDenyReading =
     item ''quotaAndLimits.limitReading.forceDeny'' ''false''"

definition QueueProtectionEnabled :: "ParamItem" where
  "QueueProtectionEnabled =
     item ''quotaAndLimits.limitReading.queueProtection.enabled'' ''false''"

definition NQInQueueThreshold :: "'f go_float \<Rightarrow> 'h Manager option \<Rightarrow> ParamItem" where
  "NQInQueueThreshold fl m =
     (item ''quotaAndLimits.limitReading.queueProtection.nqInQueueThreshold'' MaxInt64_text)\<lparr>Formatter := Some (NQInQueueThreshold_format fl m QueueProtectionEnabled)\<rparr>"

definition QueueLatencyThreshold :: "'f go_float \<Rightarrow> 'h Manager option \<Rightarrow> ParamItem" where
  "QueueLatencyThreshold fl m =
     (item ''quotaAndLimits.limitReading.queueProtection.queueLatencyThreshold'' (max_text fl))\<lparr>Formatter := Some (limit_float fl m QueueProtectionEnabled)\<rparr>"

definition ResultProtectionEnabled :: "ParamItem" where
  "ResultProtectionEnabled =
     item ''quotaAndLimits.limitReading.resultProtection.enabled'' ''false''"

definition MaxReadResultRate :: "'f go_float \<Rightarrow> 'h Manager option \<Rightarrow> ParamItem" where
  "MaxReadResultRate fl m =
     (item ''quotaAndLimits.limitReading.resultProtection.maxReadResultRate'' (max_text fl))\<lparr>Formatter := Some (MaxReadResultRate_format fl m ResultProtectionEnabled)\<rparr>"

definition CoolOffSpeed :: "'f go_float \<Rightarrow> 'h Manager option \<Rightarrow> ParamItem" where
  "CoolOffSpeed fl m =
     (item ''quotaAndLimits.limitReading.coolOffSpeed'' ''0.9'')\<lparr>Formatter := Some (proportion fl ''0.9'')\<rparr>"

definition AllocRetryTimes :: "ParamItem" where
  "AllocRetryTimes =
     item ''quotaAndLimits.limits.allocRetryTimes'' ''15''"

definition AllocWaitInterval :: "ParamItem" where
  "AllocWaitInterval =
     item ''quotaAndLimits.limits.allocWaitInterval'' ''1000''"

definition ComplexDeleteLimitEnable :: "ParamItem" where
  "ComplexDeleteLimitEnable =
     item ''quotaAndLimits.limits.complexDeleteLimitEnable'' ''false''"

definition quota_params :: "'f go_float \<Rightarrow> 'h Manager option \<Rightarrow> (string \<times> ParamItem) list" where
  "quota_params fl m = [
     (''QuotaAndLimitsEnabled'', QuotaAndLimitsEnabled),
     (''QuotaCenterCollectInterval'', QuotaCenterCollectInterval),
     (''DDLLimitEnabled'', DDLLimitEnabled),
     (''DDLCollectionRate'', DDLCollectionRate fl m),
     (''DDLPartitionRate'', DDLPartitionRate fl m),
     (''IndexLimitEnabled'', IndexLimitEnabled),
     (''MaxIndexRate'', MaxIndexRate fl m),
     (''FlushLimitEnabled'', FlushLimitEnabled),
     (''MaxFlushRate'', MaxFlushRate fl m),
     (''MaxFlushRatePerCollection'', MaxFlushRatePerCollection fl m),
     (''CompactionLimitEnabled'', CompactionLimitEnabled),
     (''MaxCompactionRate'', MaxCompactionRate fl m),
     (''DMLLimitEnabled'', DMLLimitEnabled),
     (''DMLMaxInsertRate'', DMLMaxInsertRate fl m),
     (''DMLMinInsertRate'', DMLMinInsertRate fl m),
     (''DMLMaxInsertRatePerCollection'', DMLMaxInsertRatePerCollection fl m),
     (''DMLMinInsertRatePerCollection'', DMLMinInsertRatePerCollection fl m),
     (''DMLMaxUpsertRate'', DMLMaxUpsertRate fl m),
     (''DMLMinUpsertRate'', DMLMinUpsertRate fl m),
     (''DMLMaxUpsertRatePerCollection'', DMLMaxUpsertRatePerCollection fl m),
     (''DMLMinUpsertRatePerCollection'', DMLMinUpsertRatePerCollection fl m),
     (''DMLMaxDeleteRate'', DMLMaxDeleteRate fl m),
     (''DMLMinDeleteRate'', DMLMinDeleteRate fl m),
     (''DMLMaxDeleteRatePerCollection'', DMLMaxDeleteRatePerCollection fl m),
     (''DMLMinDeleteRatePerCollection'', DMLMinDeleteRatePerCollection fl m),
     (''DMLMaxBulkLoadRate'', DMLMaxBulkLoadRate fl m),
     (''DMLMinBulkLoadRate'', DMLMinBulkLoadRate fl m),
     (''DMLMaxBulkLoadRatePerCollection'', DMLMaxBulkLoadRatePerCollection fl m),
     (''DMLMinBulkLoadRatePerCollection'', DMLMinBulkLoadRatePerCollection fl m),
     (''DQLLimitEnabled'', DQLLimitEnabled),
     (''DQLMaxSearchRate'', DQLMaxSearchRate fl m),
     (''DQLMinSearchRate'', DQLMinSearchRate fl m),
     (''DQLMaxSearchRatePerCollection'', DQLMaxSearchRatePerCollection fl m),
     (''DQLMinSearchRatePerCollection'', DQLMinSearchRatePerCollection fl m),
     (''DQLMaxQueryRate'', DQLMaxQueryRate fl m),
     (''DQLMinQueryRate'', DQLMinQueryRate fl m),
     (''DQLMaxQueryRatePerCollection'', DQLMaxQueryRatePerCollection fl m),
     (''DQLMinQueryRatePerCollection'', DQLMinQueryRatePerCollection fl m),
     (''MaxCollectionNum'', MaxCollectionNum),
     (''MaxCollectionNumPerDB'', MaxCollectionNumPerDB),
     (''TopKLimit'', TopKLimit),
     (''NQLimit'', NQLimit),
     (''MaxQueryResultWindow'', MaxQueryResultWindow),
     (''MaxOutputSize'', MaxOutputSize),
     (''ForceDenyWriting'', ForceDenyWriting),
     (''TtProtectionEnabled'', TtProtectionEnabled),
     (''MaxTimeTickDelay'', MaxTimeTickDelay fl m),
     (''MemProtectionEnabled'', MemProtectionEnabled),
     (''DataNodeMemoryLowWaterLevel'', DataNodeMemoryLowWaterLevel fl m),
     (''DataNodeMemoryHighWaterLevel'', DataNodeMemoryHighWaterLevel fl m),
     (''QueryNodeMemoryLowWaterLevel'', QueryNodeMemoryLowWaterLevel fl m),
     (''QueryNodeMemoryHighWaterLevel'', QueryNodeMemoryHighWaterLevel fl m),
     (''GrowingSegmentsSizeProtectionEnabled'', GrowingSegmentsSizeProtectionEnabled),
     (''GrowingSegmentsSizeMinRateRatio'', GrowingSegmentsSizeMinRateRatio fl m),
     (''GrowingSegmentsSizeLowWaterLevel'', GrowingSegmentsSizeLowWaterLevel fl m),
     (''GrowingSegmentsSizeHighWaterLevel'', GrowingSegmentsSizeHighWaterLevel fl m),
     (''DiskProtectionEnabled'', DiskProtectionEnabled),
     (''DiskQuota'', DiskQuota fl m),
     (''DiskQuotaPerCollection'', DiskQuotaPerCollection fl m),
     (''ForceDenyReading'', ForceDenyReading),
     (''QueueProtectionEnabled'', QueueProtectionEnabled),
     (''NQInQueueThreshold'', NQInQueueThreshold fl m),
     (''QueueLatencyThreshold'', QueueLatencyThreshold fl m),
     (''ResultProtectionEnabled'', ResultProtectionEnabled),
     (''MaxReadResultRate'', MaxReadResultRate fl m),
     (''CoolOffSpeed'', CoolOffSpeed fl m),
     (''AllocRetryTimes'', AllocRetryTimes),
     (''AllocWaitInterval'', AllocWaitInterval),
     (''ComplexDeleteLimitEnable'', ComplexDeleteLimitEnable)]"

section \<open>Limits are in order\<close>

text \<open>What is used of floating point numbers: what \<open>%f\<close> prints is read back as a number, rounded to six decimals.
  Rounding keeps the order, and a rounded number, zero and the largest number are not changed by it.\<close>

definition read_back :: "'f go_float \<Rightarrow> 'f \<Rightarrow> 'f" where
  "read_back fl x = getAsFloat fl (Sprintf_f fl x)"

definition float_laws :: "'f go_float \<Rightarrow> bool" where
  "float_laws fl \<longleftrightarrow>
     (\<forall>x y. \<not> fl_less fl y x \<longrightarrow> \<not> fl_less fl (read_back fl y) (read_back fl x))
   \<and> (\<forall>x. read_back fl (read_back fl x) = read_back fl x)
   \<and> read_back fl (float_zero fl) = float_zero fl \<and> read_back fl (MaxFloat64 fl) = MaxFloat64 fl
   \<and> \<not> fl_less fl (float_zero fl) (float_zero fl) \<and> \<not> fl_less fl (MaxFloat64 fl) (float_zero fl)"

lemma when_enabled_cases:
  assumes "tempValue e = None" "Formatter e = None" "\<not> PanicIfEmpty e"
  shows "when_enabled (Some m) e off k = Ok off \<or> when_enabled (Some m) e off k = k"
  using get_plain [OF assms, of m] by (auto simp: when_enabled_def GetAsBool_def)

text \<open>A text that is read as a number that is not negative, and, where the number was printed, is already rounded.\<close>

definition limit_text :: "'f go_float \<Rightarrow> bool \<Rightarrow> string \<Rightarrow> bool" where
  "limit_text fl printed v \<longleftrightarrow> \<not> fl_less fl (getAsFloat fl v) (float_zero fl)
     \<and> (printed \<longrightarrow> read_back fl (getAsFloat fl v) = getAsFloat fl v)"

definition limit_param :: "'f go_float \<Rightarrow> bool \<Rightarrow> 'h Manager \<Rightarrow> ParamItem \<Rightarrow> bool" where
  "limit_param fl printed m pi \<longleftrightarrow> (\<exists>v. get (Some m) pi = Ok v \<and> limit_text fl printed v)"

definition plain_param :: "ParamItem \<Rightarrow> bool" where
  "plain_param pi \<longleftrightarrow> tempValue pi = None \<and> Formatter pi = None \<and> \<not> PanicIfEmpty pi"

lemma max_text_limit: "float_laws fl \<Longrightarrow> limit_text fl printed (max_text fl)"
  by (simp add: limit_text_def max_text_def float_laws_def read_back_def)

lemma printed_limit:
  assumes "float_laws fl" "\<not> fl_less fl x (float_zero fl)"
  shows "limit_text fl printed (Sprintf_f fl x)"
  using assms unfolding limit_text_def float_laws_def by (metis read_back_def)

lemma limit_paramI:
  assumes "tempValue pi = None" "Formatter pi = Some (\<lambda>v. when_enabled (Some m) e (max_text fl) (k v))" "\<not> PanicIfEmpty pi"
    and "plain_param e" "float_laws fl" and "\<And>v. \<exists>t. k v = Ok t \<and> limit_text fl printed t"
  shows "limit_param fl printed m pi"
proof -
  obtain raw where "get (Some m) pi = when_enabled (Some m) e (max_text fl) (k raw)"
    using get_formatted [OF assms(1-3)] by blast
  then show ?thesis
    using when_enabled_cases [of e m "max_text fl" "k raw"] assms(4) assms(6) [of raw] max_text_limit [OF assms(5)]
    by (auto simp: limit_param_def plain_param_def)
qed

lemma limit_float_param:
  assumes "float_laws fl" "plain_param e"
  shows "limit_param fl False m ((item key dflt)\<lparr>Formatter := Some (limit_float fl (Some m) e)\<rparr>)"
  using assms
  by (intro limit_paramI [where e = e and k = "\<lambda>v. if fl_less fl (getAsFloat fl v) (float_zero fl) then Ok (max_text fl) else Ok v"])
    (auto simp: limit_float_def limit_text_def max_text_limit [unfolded limit_text_def] fun_eq_iff)

lemma limit_float_of_param:
  assumes "float_laws fl" "plain_param e" "limit_param fl False m all"
  shows "limit_param fl False m ((item key dflt)\<lparr>Formatter := Some (limit_float_of fl (Some m) e all)\<rparr>)"
  using assms
  by (intro limit_paramI [where e = e and k = "\<lambda>v. if fl_less fl (getAsFloat fl v) (float_zero fl) then get (Some m) all else Ok v"])
    (auto simp: limit_float_of_def limit_text_def limit_param_def fun_eq_iff)

lemma limit_megabytes_param:
  assumes "float_laws fl" "plain_param e"
  shows "limit_param fl True m ((item key dflt)\<lparr>Formatter := Some (limit_megabytes fl (Some m) e)\<rparr>)"
  using assms
  by (intro limit_paramI [where e = e and k = "\<lambda>v. let rate = rate_bytes fl (getAsFloat fl v)
        in if fl_less fl rate (float_zero fl) then Ok (max_text fl) else Ok (Sprintf_f fl rate)"])
    (auto simp: limit_megabytes_def max_text_limit printed_limit fun_eq_iff Let_def)

lemma limit_megabytes_of_param:
  assumes "float_laws fl" "plain_param e" "limit_param fl True m all"
  shows "limit_param fl True m ((item key dflt)\<lparr>Formatter := Some (limit_megabytes_of fl (Some m) e all)\<rparr>)"
  using assms
  by (intro limit_paramI [where e = e and k = "\<lambda>v. let rate = rate_bytes fl (getAsFloat fl v)
        in if fl_less fl rate (float_zero fl) then get (Some m) all else Ok (Sprintf_f fl rate)"])
    (auto simp: limit_megabytes_of_def printed_limit limit_param_def fun_eq_iff Let_def)

text \<open>The lower limit is not above the upper one, and is not negative.\<close>

definition in_order :: "'f go_float \<Rightarrow> 'h Manager \<Rightarrow> ParamItem \<Rightarrow> ParamItem \<Rightarrow> bool" where
  "in_order fl m least most \<longleftrightarrow>
     (\<exists>lo hi. GetAsFloat fl (Some m) least = Ok lo \<and> GetAsFloat fl (Some m) most = Ok hi
        \<and> \<not> fl_less fl hi lo \<and> \<not> fl_less fl lo (float_zero fl) \<and> \<not> fl_less fl hi (float_zero fl))"

lemma in_orderI:
  assumes laws: "float_laws fl" and most: "limit_param fl printed m most"
    and "tempValue least = None" "Formatter least = Some (\<lambda>v. when_enabled (Some m) e (min_text fl) (k v))" "\<not> PanicIfEmpty least"
    and "plain_param e"
    and k: "\<And>v t hi. k v = Ok t \<Longrightarrow> GetAsFloat fl (Some m) most = Ok hi \<Longrightarrow> t = min_text fl
      \<or> \<not> fl_less fl hi (getAsFloat fl t) \<and> \<not> fl_less fl (getAsFloat fl t) (float_zero fl)"
    and ok: "\<And>v hi. GetAsFloat fl (Some m) most = Ok hi \<Longrightarrow> \<exists>t. k v = Ok t"
  shows "in_order fl m least most"
proof -
  obtain w where w: "get (Some m) most = Ok w" "\<not> fl_less fl (getAsFloat fl w) (float_zero fl)"
    using most by (auto simp: limit_param_def limit_text_def)
  then have hi: "GetAsFloat fl (Some m) most = Ok (getAsFloat fl w)" by (simp add: GetAsFloat_def)
  obtain raw where raw: "get (Some m) least = when_enabled (Some m) e (min_text fl) (k raw)"
    using get_formatted [OF assms(3-5)] by blast
  obtain t where t: "k raw = Ok t" using ok [OF hi] by blast
  have min: "getAsFloat fl (min_text fl) = float_zero fl"
    using laws by (simp add: float_laws_def min_text_def read_back_def)
  have "get (Some m) least = Ok (min_text fl) \<or> get (Some m) least = Ok t"
    using when_enabled_cases [of e m "min_text fl" "k raw"] assms(6) raw t by (simp add: plain_param_def)
  then show ?thesis
    using k [OF t hi] w hi min laws by (auto simp: in_order_def GetAsFloat_def float_laws_def)
qed

lemma least_rate_in_order:
  assumes "float_laws fl" "plain_param e" "limit_param fl False m most"
  shows "in_order fl m ((item key dflt)\<lparr>Formatter := Some (least_rate fl (Some m) e most)\<rparr>) most"
  using assms
  by (intro in_orderI [where e = e and printed = False and k = "\<lambda>v. let rate = getAsFloat fl v
        in if fl_less fl rate (float_zero fl) then Ok (min_text fl)
           else bindO (GetAsFloat fl (Some m) most) (\<lambda>most.
             if \<not> checkMinMaxLegal fl rate most then Ok (min_text fl) else Ok v)"])
    (auto simp: least_rate_def checkMinMaxLegal_def Let_def fun_eq_iff split: if_splits)

lemma least_megabytes_in_order:
  assumes laws: "float_laws fl" and "plain_param e" and most: "limit_param fl True m most"
  shows "in_order fl m ((item key dflt)\<lparr>Formatter := Some (least_megabytes fl (Some m) e most)\<rparr>) most"
proof -
  have rounded: "\<not> fl_less fl hi (getAsFloat fl (Sprintf_f fl rate)) \<and> \<not> fl_less fl (getAsFloat fl (Sprintf_f fl rate)) (float_zero fl)"
    if "GetAsFloat fl (Some m) most = Ok hi" "\<not> fl_less fl hi rate" "\<not> fl_less fl rate (float_zero fl)" for hi rate
  proof -
    have "read_back fl hi = hi" using most that(1) by (auto simp: limit_param_def limit_text_def GetAsFloat_def)
    then show ?thesis using laws that(2,3) unfolding float_laws_def by (metis read_back_def)
  qed
  show ?thesis using assms rounded
    by (intro in_orderI [where e = e and printed = True and k = "\<lambda>v. let rate = megaBytes2Bytes fl (getAsFloat fl v)
        in if fl_less fl rate (float_zero fl) then Ok (min_text fl)
           else bindO (GetAsFloat fl (Some m) most) (\<lambda>most.
             if \<not> checkMinMaxLegal fl rate most then Ok (min_text fl) else Ok (Sprintf_f fl rate))"])
      (auto simp: least_megabytes_def checkMinMaxLegal_def Let_def fun_eq_iff split: if_splits)
qed

section \<open>The table\<close>

text \<open>Each lower limit of the table with the upper limit it is checked against.\<close>

definition rate_pairs :: "'f go_float \<Rightarrow> 'h Manager option \<Rightarrow> (ParamItem \<times> ParamItem) list" where
  "rate_pairs fl m = [
     (DMLMinInsertRate fl m, DMLMaxInsertRate fl m),
     (DMLMinInsertRatePerCollection fl m, DMLMaxInsertRatePerCollection fl m),
     (DMLMinUpsertRate fl m, DMLMaxUpsertRate fl m),
     (DMLMinUpsertRatePerCollection fl m, DMLMaxUpsertRatePerCollection fl m),
     (DMLMinDeleteRate fl m, DMLMaxDeleteRate fl m),
     (DMLMinDeleteRatePerCollection fl m, DMLMaxDeleteRatePerCollection fl m),
     (DMLMinBulkLoadRate fl m, DMLMaxBulkLoadRate fl m),
     (DMLMinBulkLoadRatePerCollection fl m, DMLMaxBulkLoadRatePerCollection fl m),
     (DQLMinSearchRate fl m, DQLMaxSearchRate fl m),
     (DQLMinSearchRatePerCollection fl m, DQLMaxSearchRatePerCollection fl m),
     (DQLMinQueryRate fl m, DQLMaxQueryRate fl m),
     (DQLMinQueryRatePerCollection fl m, DQLMaxQueryRatePerCollection fl m)]"

lemmas DML_params =
  DMLMinInsertRate_def DMLMaxInsertRate_def DMLMinInsertRatePerCollection_def DMLMaxInsertRatePerCollection_def
  DMLMinUpsertRate_def DMLMaxUpsertRate_def DMLMinUpsertRatePerCollection_def DMLMaxUpsertRatePerCollection_def
  DMLMinDeleteRate_def DMLMaxDeleteRate_def DMLMinDeleteRatePerCollection_def DMLMaxDeleteRatePerCollection_def
  DMLMinBulkLoadRate_def DMLMaxBulkLoadRate_def DMLMinBulkLoadRatePerCollection_def DMLMaxBulkLoadRatePerCollection_def

lemmas DQL_params =
  DQLMinSearchRate_def DQLMaxSearchRate_def DQLMinSearchRatePerCollection_def DQLMaxSearchRatePerCollection_def
  DQLMinQueryRate_def DQLMaxQueryRate_def DQLMinQueryRatePerCollection_def DQLMaxQueryRatePerCollection_def

lemma enabled_plain: "plain_param DMLLimitEnabled" "plain_param DQLLimitEnabled"
  by (simp_all add: plain_param_def DMLLimitEnabled_def DQLLimitEnabled_def)

text \<open>C31: Whatever is configured, no lower limit of a rate is above the upper limit of its kind, for all data and for one
  collection, and no limit is negative: reading any of them gives a number and never panics. (A number that cannot be
  compared, like NaN, passes.)\<close>

theorem quota_limits_in_order:
  assumes laws: "float_laws fl"
  shows "list_all (\<lambda>(least, most). in_order fl m least most) (rate_pairs fl (Some m))"
  unfolding rate_pairs_def DML_params DQL_params
  by (simp add: least_megabytes_in_order least_rate_in_order limit_megabytes_param limit_megabytes_of_param
      limit_float_param limit_float_of_param laws enabled_plain)

text \<open>A model of the laws: numbers of 63 bits and a sign, printed in decimal.\<close>

definition sample_float :: "int go_float" where
  "sample_float = \<lparr>ParseFloat = ParseInt, float_zero = 0, times_unit = (*), MaxFloat64 = 2 ^ 63 - 1,
     float_const = (\<lambda>a b. a div b), fl_less = (<), fl_leq = (\<le>), fl_minus = (-), fl_times = (*), fl_divide = (div),
     fl_Abs = abs, Sprintf_f = (\<lambda>x. string_of_int (max (- (2 ^ 63)) (min x (2 ^ 63 - 1))))\<rparr>"

lemma sample_read_back: "read_back sample_float x = max (- (2 ^ 63)) (min x (2 ^ 63 - 1))"
  by (simp add: read_back_def getAsFloat_def getAndConvert_def sample_float_def ParseInt_string_of_int)

lemma sample_float_laws: "float_laws sample_float"
  unfolding float_laws_def sample_read_back by (auto simp: sample_float_def)

theorem quota_limits_in_order_witness:
  "let m = (NewManager :: unit Manager)
   in in_order sample_float m (DQLMinSearchRate sample_float (Some m)) (DQLMaxSearchRate sample_float (Some m))"
  using quota_limits_in_order [OF sample_float_laws, of "NewManager :: unit Manager"] by (simp add: rate_pairs_def)

text \<open>Not so for the rate of results: the number is tested for its sign only when it is the default, so a negative number
  is a limit below zero.\<close>

lemma MaxReadResultRate_negative:
  assumes "GetAsBool m ResultProtectionEnabled = Ok True" and "is_set fl (getAsFloat fl v)"
  shows "MaxReadResultRate_format fl m ResultProtectionEnabled v = Ok (Sprintf_f fl (megaBytes2Bytes fl (getAsFloat fl v)))"
  using assms by (simp add: MaxReadResultRate_format_def when_enabled_def)

text \<open>The rates of schema operations are tested as integers: a negative number with a fraction reads as 0 there and passes.\<close>

lemma limit_int_fraction:
  assumes "GetAsBool m e = Ok True"
  shows "limit_int fl m e ''-0.5'' = Ok ''-0.5''"
proof -
  have "getAsInt ''-0.5'' = 0" by (simp add: getAsInt_def getAndConvert_def ParseInt_def ParseUint_def)
  then show ?thesis using assms by (simp add: limit_int_def when_enabled_def)
qed

text \<open>The interval of the quota centre is tested as an integer too: one with a fraction is always replaced by the default.\<close>

lemma QuotaCenterCollectInterval_fraction: "QuotaCenterCollectInterval_format ''5.5'' = Ok ''3.0''"
proof -
  have "getAsInt ''5.5'' = 0" by (simp add: getAsInt_def getAndConvert_def ParseInt_def ParseUint_def)
  then show ?thesis by (simp add: QuotaCenterCollectInterval_format_def)
qed

text \<open>A high water level that is below the low one is replaced by the default, which may be below the low one too.\<close>

lemma high_water_default:
  assumes "GetAsBool m e = Ok True" and "\<not> off_scale fl (getAsFloat fl v)"
    and "GetAsFloat fl m low = Ok l" and "fl_less fl (getAsFloat fl v) l"
  shows "high_water fl m off e low v = Ok (highWaterLevel fl)"
  using assms by (simp add: high_water_def when_enabled_def checkMinMaxLegal_def)

end
