(* ===== verification/ParamService.thy ===== *)
theory ParamService
  imports ParamComponent
begin

text \<open>
  The parameters of the services the program talks to (pkg/util/paramtable/service\_param.go): etcd, TiKV, the message
  queues, MinIO. As in \<open>ParamComponent\<close> a table lists the fields in the order of \<open>Init\<close>. Library functions are
  parameters: \<open>url\<close> is the host name in a URL that \<open>url.ParseRequestURI\<close> accepts, \<open>json\<close> is \<open>json.Marshal\<close> of a map,
  \<open>path_Join\<close> and \<open>path_Clean\<close> are those of package path.
\<close>

section \<open>etcd and TiKV\<close>

text \<open>Reading a Go map gives the empty string for a key it does not have.\<close>

definition map_text :: "(string \<rightharpoonup> string) \<Rightarrow> string \<Rightarrow> string" where
  "map_text kvs key = (case kvs key of Some v \<Rightarrow> v | None \<Rightarrow> [])"

definition UseEmbedEtcd :: "ParamItem" where
  "UseEmbedEtcd =
     item ''etcd.use.embed'' ''false''"

definition etcd_RootPath :: "ParamItem" where
  "etcd_RootPath =
     (item ''etcd.rootPath'' ''by-dev'')\<lparr>PanicIfEmpty := True\<rparr>"

definition etcd_MetaSubPath :: "ParamItem" where
  "etcd_MetaSubPath =
     (item ''etcd.metaSubPath'' ''meta'')\<lparr>PanicIfEmpty := True\<rparr>"

definition etcd_KvSubPath :: "ParamItem" where
  "etcd_KvSubPath =
     (item ''etcd.kvSubPath'' ''kv'')\<lparr>PanicIfEmpty := True\<rparr>"

definition etcd_params_1 :: "(string \<times> ParamItem) list" where
  "etcd_params_1 = [
     (''Endpoints'', (item ''etcd.endpoints'' ''localhost:2379'')\<lparr>PanicIfEmpty := True\<rparr>),
     (''UseEmbedEtcd'', UseEmbedEtcd),
     (''ConfigPath'', item ''etcd.config.path'' ''''),
     (''DataDir'', item ''etcd.data.dir'' ''default.etcd''),
     (''RootPath'', etcd_RootPath),
     (''MetaSubPath'', etcd_MetaSubPath),
     (''KvSubPath'', etcd_KvSubPath),
     (''EtcdLogLevel'', item ''etcd.log.level'' ''info''),
     (''EtcdLogPath'', item ''etcd.log.path'' ''stdout''),
     (''EtcdUseSSL'', item ''etcd.ssl.enabled'' ''false''),
     (''EtcdTLSCert'', item ''etcd.ssl.tlsCert'' ''''),
     (''EtcdTLSKey'', item ''etcd.ssl.tlsKey'' ''''),
     (''EtcdTLSCACert'', item ''etcd.ssl.tlsCACert'' ''''),
     (''EtcdTLSMinVersion'', item ''etcd.ssl.tlsMinVersion'' ''1.3'')]"

definition etcd_params_2 :: "(string \<times> ParamItem) list" where
  "etcd_params_2 = [
     (''RequestTimeout'', item ''etcd.requestTimeout'' ''10000'')]"

definition etcd_params :: "(string \<times> ParamItem) list" where
  "etcd_params = etcd_params_1 @ etcd_params_2"

definition etcd_MetaRootPath :: "(string \<Rightarrow> string \<Rightarrow> string) \<Rightarrow> CompositeParamItem" where
  "etcd_MetaRootPath path_Join = \<lparr>Items = [etcd_RootPath, etcd_MetaSubPath],
     Format = (\<lambda>kvs. path_Join (map_text kvs (pi_Key etcd_RootPath)) (map_text kvs (pi_Key etcd_MetaSubPath)))\<rparr>"

definition etcd_KvRootPath :: "(string \<Rightarrow> string \<Rightarrow> string) \<Rightarrow> CompositeParamItem" where
  "etcd_KvRootPath path_Join = \<lparr>Items = [etcd_RootPath, etcd_KvSubPath],
     Format = (\<lambda>kvs. path_Join (map_text kvs (pi_Key etcd_RootPath)) (map_text kvs (pi_Key etcd_KvSubPath)))\<rparr>"

definition tikv_RootPath :: "ParamItem" where
  "tikv_RootPath =
     (item ''tikv.rootPath'' ''by-dev'')\<lparr>PanicIfEmpty := True\<rparr>"

definition tikv_MetaSubPath :: "ParamItem" where
  "tikv_MetaSubPath =
     (item ''tikv.metaSubPath'' ''meta'')\<lparr>PanicIfEmpty := True\<rparr>"

definition tikv_KvSubPath :: "ParamItem" where
  "tikv_KvSubPath =
     (item ''tikv.kvSubPath'' ''kv'')\<lparr>PanicIfEmpty := True\<rparr>"

definition tikv_params :: "(string \<times> ParamItem) list" where
  "tikv_params = [
     (''Endpoints'', (item ''tikv.endpoints'' ''localhost:2379'')\<lparr>PanicIfEmpty := True\<rparr>),
     (''RootPath'', tikv_RootPath),
     (''MetaSubPath'', tikv_MetaSubPath),
     (''KvSubPath'', tikv_KvSubPath),
     (''RequestTimeout'', item ''tikv.requestTimeout'' ''10000''),
     (''SnapshotScanSize'', item ''tikv.snapshotScanSize'' ''256''),
     (''TiKVUseSSL'', item ''tikv.ssl.enabled'' ''false''),
     (''TiKVTLSCert'', item ''tikv.ssl.tlsCert'' ''''),
     (''TiKVTLSKey'', item ''tikv.ssl.tlsKey'' ''''),
     (''TiKVTLSCACert'', item ''tikv.ssl.tlsCACert'' '''')]"

definition tikv_MetaRootPath :: "(string \<Rightarrow> string \<Rightarrow> string) \<Rightarrow> CompositeParamItem" where
  "tikv_MetaRootPath path_Join = \<lparr>Items = [tikv_RootPath, tikv_MetaSubPath],
     Format = (\<lambda>kvs. path_Join (map_text kvs (pi_Key tikv_RootPath)) (map_text kvs (pi_Key tikv_MetaSubPath)))\<rparr>"

definition tikv_KvRootPath :: "(string \<Rightarrow> string \<Rightarrow> string) \<Rightarrow> CompositeParamItem" where
  "tikv_KvRootPath path_Join = \<lparr>Items = [tikv_RootPath, tikv_KvSubPath],
     Format = (\<lambda>kvs. path_Join (map_text kvs (pi_Key tikv_RootPath)) (map_text kvs (pi_Key tikv_KvSubPath)))\<rparr>"

text \<open>Setting up etcd panics when the embedded server is asked for in a distributed deployment.\<close>

definition EtcdConfig_Init :: "string \<Rightarrow> 'h Manager \<Rightarrow> (config_error, 'h Manager) outcome" where
  "EtcdConfig_Init mode m =
     bindO (GetAsBool (Some m) UseEmbedEtcd) (\<lambda>embedded.
       if embedded \<and> mode \<noteq> ''STANDALONE'' then Panic ''embedded etcd can not be used under distributed mode''
       else Ok (init_table etcd_params m))"

section \<open>Local storage and the metadata store\<close>

definition localStorage_params :: "(string \<times> ParamItem) list" where
  "localStorage_params = [
     (''Path'', item ''localStorage.path'' ''/var/lib/milvus/data'')]"

definition metaStore_params :: "(string \<times> ParamItem) list" where
  "metaStore_params = [
     (''MetaStoreType'', item ''metastore.type'' ''etcd'')]"

section \<open>Message queues\<close>

definition mq_EnablePursuitMode :: "ParamItem" where
  "mq_EnablePursuitMode =
     item ''mq.enablePursuitMode'' ''true''"

definition mq_PursuitLag :: "ParamItem" where
  "mq_PursuitLag =
     item ''mq.pursuitLag'' ''10''"

definition mq_PursuitBufferSize :: "ParamItem" where
  "mq_PursuitBufferSize =
     item ''mq.pursuitBufferSize'' ''8''"

definition mq_MQBufSize :: "ParamItem" where
  "mq_MQBufSize =
     item ''mq.mqBufSize'' ''16''"

definition mq_ReceiveBufSize :: "ParamItem" where
  "mq_ReceiveBufSize =
     item ''mq.receiveBufSize'' ''16''"

definition mq_IgnoreBadPosition :: "ParamItem" where
  "mq_IgnoreBadPosition =
     item ''mq.ignoreBadPosition'' ''false''"

definition mq_params :: "(string \<times> ParamItem) list" where
  "mq_params = [
     (''Type'', item ''mq.type'' ''default''),
     (''EnablePursuitMode'', mq_EnablePursuitMode),
     (''PursuitLag'', mq_PursuitLag),
     (''PursuitBufferSize'', mq_PursuitBufferSize),
     (''MQBufSize'', mq_MQBufSize),
     (''ReceiveBufSize'', mq_ReceiveBufSize),
     (''IgnoreBadPosition'', mq_IgnoreBadPosition)]"

definition pulsar_Port :: ParamItem where
  "pulsar_Port = item ''pulsar.port'' ''6650''"

definition pulsar_WebPort :: ParamItem where
  "pulsar_WebPort = item ''pulsar.webport'' ''80''"

definition with_port :: "string \<Rightarrow> 'h Manager option \<Rightarrow> ParamItem \<Rightarrow> string \<Rightarrow> (config_error, string) outcome" where
  "with_port scheme m port addr =
     (if addr = [] then Ok []
      else if strings_Contains addr '':'' then Ok addr
      else bindO (get m port) (\<lambda>p. Ok (scheme @ addr @ '':'' @ p)))"

definition pulsar_Address :: "'h Manager option \<Rightarrow> ParamItem" where
  "pulsar_Address m = (item ''pulsar.address'' [])\<lparr>Formatter := Some (with_port ''pulsar://'' m pulsar_Port)\<rparr>"

definition WebAddress_format ::
  "(string \<Rightarrow> string option) \<Rightarrow> 'h Manager option \<Rightarrow> string \<Rightarrow> (config_error, string) outcome" where
  "WebAddress_format url m add =
     bindO (get m (pulsar_Address m)) (\<lambda>address.
       case url address of
         None \<Rightarrow> Ok []
       | Some hostname \<Rightarrow> bindO (get m pulsar_WebPort) (\<lambda>port. Ok (''http://'' @ hostname @ '':'' @ port)))"

definition pulsar_WebAddress :: "(string \<Rightarrow> string option) \<Rightarrow> 'h Manager option \<Rightarrow> ParamItem" where
  "pulsar_WebAddress url m = (item ''pulsar.webaddress'' [])\<lparr>Formatter := Some (WebAddress_format url m)\<rparr>"

definition AuthParams_map :: "string \<Rightarrow> (string \<rightharpoonup> string)" where
  "AuthParams_map authParams =
     foldl (\<lambda>jsonMap param. case strings_Split param (CHR '':'') of [k, v] \<Rightarrow> jsonMap(k \<mapsto> v) | _ \<Rightarrow> jsonMap)
       Map.empty (strings_Split authParams (CHR '',''))"

definition pulsar_AuthParams :: "((string \<rightharpoonup> string) \<Rightarrow> string) \<Rightarrow> ParamItem" where
  "pulsar_AuthParams json = (item ''pulsar.authParams'' [])\<lparr>Formatter := Some (\<lambda>v. Ok (json (AuthParams_map v)))\<rparr>"

definition pulsar_MaxMessageSize :: ParamItem where
  "pulsar_MaxMessageSize = item ''pulsar.maxMessageSize'' ''5242880''"

definition pulsar_Tenant :: ParamItem where
  "pulsar_Tenant = item ''pulsar.tenant'' ''public''"

definition pulsar_Namespace :: ParamItem where
  "pulsar_Namespace = item ''pulsar.namespace'' ''default''"

definition pulsar_AuthPlugin :: ParamItem where
  "pulsar_AuthPlugin = item ''pulsar.authPlugin'' ''''"

definition pulsar_RequestTimeout :: ParamItem where
  "pulsar_RequestTimeout = item ''pulsar.requestTimeout'' ''60''"

definition pulsar_EnableClientMetrics :: ParamItem where
  "pulsar_EnableClientMetrics = item ''pulsar.enableClientMetrics'' ''false''"

definition pulsar_params :: "(string \<Rightarrow> string option) \<Rightarrow> ((string \<rightharpoonup> string) \<Rightarrow> string) \<Rightarrow> 'h Manager option \<Rightarrow> (string \<times> ParamItem) list" where
  "pulsar_params url json m = [
     (''Port'', pulsar_Port),
     (''Address'', pulsar_Address m),
     (''WebPort'', pulsar_WebPort),
     (''WebAddress'', pulsar_WebAddress url m),
     (''MaxMessageSize'', pulsar_MaxMessageSize),
     (''Tenant'', pulsar_Tenant),
     (''Namespace'', pulsar_Namespace),
     (''AuthPlugin'', pulsar_AuthPlugin),
     (''AuthParams'', pulsar_AuthParams json),
     (''RequestTimeout'', pulsar_RequestTimeout),
     (''EnableClientMetrics'', pulsar_EnableClientMetrics)]"

definition kafka_Address :: "ParamItem" where
  "kafka_Address =
     item ''kafka.brokerList'' ''''"

definition kafka_params :: "(string \<times> ParamItem) list" where
  "kafka_params = [
     (''Address'', kafka_Address),
     (''SaslUsername'', item ''kafka.saslUsername'' ''''),
     (''SaslPassword'', item ''kafka.saslPassword'' ''''),
     (''SaslMechanisms'', item ''kafka.saslMechanisms'' ''''),
     (''SecurityProtocol'', item ''kafka.securityProtocol'' ''''),
     (''KafkaUseSSL'', item ''kafka.ssl.enabled'' ''false''),
     (''KafkaTLSCert'', item ''kafka.ssl.tlsCert'' ''''),
     (''KafkaTLSKey'', item ''kafka.ssl.tlsKey'' ''''),
     (''KafkaTLSCACert'', item ''kafka.ssl.tlsCaCert'' ''''),
     (''KafkaTLSKeyPassword'', item ''kafka.ssl.tlsKeyPassword'' ''''),
     (''ReadTimeout'', item ''kafka.readTimeout'' ''10'')]"

definition ConsumerExtraConfig :: ParamGroup where
  "ConsumerExtraConfig = \<lparr>KeyPrefix = ''kafka.consumer.'', GetFunc = None\<rparr>"

definition ProducerExtraConfig :: ParamGroup where
  "ProducerExtraConfig = \<lparr>KeyPrefix = ''kafka.producer.'', GetFunc = None\<rparr>"

definition rocksmq_Path :: "ParamItem" where
  "rocksmq_Path =
     item ''rocksmq.path'' ''''"

definition rocksmq_LRUCacheRatio :: "ParamItem" where
  "rocksmq_LRUCacheRatio =
     item ''rocksmq.lrucacheratio'' ''0.0.6''"

definition rocksmq_params :: "(string \<times> ParamItem) list" where
  "rocksmq_params = [
     (''Path'', rocksmq_Path),
     (''LRUCacheRatio'', rocksmq_LRUCacheRatio),
     (''PageSize'', item ''rocksmq.rocksmqPageSize'' ''67108864''),
     (''RetentionTimeInMinutes'', item ''rocksmq.retentionTimeInMinutes'' ''4320''),
     (''RetentionSizeInMB'', item ''rocksmq.retentionSizeInMB'' ''7200''),
     (''CompactionInterval'', item ''rocksmq.compactionInterval'' ''86400''),
     (''TickerTimeInSeconds'', item ''rocksmq.timtickerInterval'' ''600''),
     (''CompressionTypes'', item ''rocksmq.compressionTypes'' ''0,0,7,7,7'')]"

definition natsmq_ServerStoreDir :: "ParamItem" where
  "natsmq_ServerStoreDir =
     item ''natsmq.server.storeDir'' ''/var/lib/milvus/nats''"

definition natsmq_params :: "(string \<times> ParamItem) list" where
  "natsmq_params = [
     (''ServerPort'', item ''natsmq.server.port'' ''4222''),
     (''ServerStoreDir'', natsmq_ServerStoreDir),
     (''ServerMaxFileStore'', item ''natsmq.server.maxFileStore'' ''17179869184''),
     (''ServerMaxPayload'', item ''natsmq.server.maxPayload'' ''8388608''),
     (''ServerMaxPending'', item ''natsmq.server.maxPending'' ''67108864''),
     (''ServerInitializeTimeout'', item ''natsmq.server.initializeTimeout'' ''4000''),
     (''ServerMonitorTrace'', item ''natsmq.server.monitor.trace'' ''false''),
     (''ServerMonitorDebug'', item ''natsmq.server.monitor.debug'' ''false''),
     (''ServerMonitorLogTime'', item ''natsmq.server.monitor.logTime'' ''true''),
     (''ServerMonitorLogFile'', item ''natsmq.server.monitor.logFile'' ''/tmp/milvus/logs/nats.log''),
     (''ServerMonitorLogSizeLimit'', item ''natsmq.server.monitor.logSizeLimit'' ''536870912''),
     (''ServerRetentionMaxAge'', item ''natsmq.server.retention.maxAge'' ''4320''),
     (''ServerRetentionMaxBytes'', item ''natsmq.server.retention.maxBytes'' ''''),
     (''ServerRetentionMaxMsgs'', item ''natsmq.server.retention.maxMsgs'' '''')]"

section \<open>MinIO\<close>

definition minio_Port :: ParamItem where
  "minio_Port = (item ''minio.port'' ''9000'')\<lparr>PanicIfEmpty := True\<rparr>"

definition minio_Address :: "'h Manager option \<Rightarrow> ParamItem" where
  "minio_Address m = (item ''minio.address'' [])\<lparr>Formatter := Some (with_port [] m minio_Port)\<rparr>"

definition RootPath_format :: "(string \<Rightarrow> string) \<Rightarrow> string \<Rightarrow> (config_error, string) outcome" where
  "RootPath_format path_Clean rootPath =
     (if rootPath = [] then Ok [] else Ok (path_Clean (dropWhile (\<lambda>c. c = CHR ''/'') rootPath)))"

definition minio_params_1 :: "(string \<Rightarrow> string) \<Rightarrow> 'h Manager option \<Rightarrow> (string \<times> ParamItem) list" where
  "minio_params_1 path_Clean m = [
     (''Port'', minio_Port),
     (''Address'', minio_Address m),
     (''AccessKeyID'', item ''minio.accessKeyID'' ''minioadmin''),
     (''SecretAccessKey'', item ''minio.secretAccessKey'' ''minioadmin''),
     (''UseSSL'', (item ''minio.useSSL'' ''false'')\<lparr>PanicIfEmpty := True\<rparr>),
     (''SslCACert'', item ''minio.ssl.tlsCACert'' ''''),
     (''BucketName'', (item ''minio.bucketName'' ''a-bucket'')\<lparr>PanicIfEmpty := True\<rparr>),
     (''RootPath'', (item ''minio.rootPath'' '''')\<lparr>Formatter := Some (RootPath_format path_Clean)\<rparr>),
     (''UseIAM'', item ''minio.useIAM'' ''false''),
     (''CloudProvider'', item ''minio.cloudProvider'' ''aws''),
     (''IAMEndpoint'', item ''minio.iamEndpoint'' ''''),
     (''LogLevel'', item ''minio.logLevel'' ''fatal''),
     (''Region'', item ''minio.region'' '''')]"

definition minio_params_2 :: "(string \<times> ParamItem) list" where
  "minio_params_2 = [
     (''UseVirtualHost'', (item ''minio.useVirtualHost'' ''false'')\<lparr>PanicIfEmpty := True\<rparr>),
     (''RequestTimeoutMs'', item ''minio.requestTimeoutMs'' ''10000'')]"

definition minio_params :: "(string \<Rightarrow> string) \<Rightarrow> 'h Manager option \<Rightarrow> (string \<times> ParamItem) list" where
  "minio_params path_Clean m = minio_params_1 path_Clean m @ minio_params_2"

section \<open>Which queue is configured\<close>

definition RocksmqEnable :: "'h Manager option \<Rightarrow> (config_error, bool) outcome" where
  "RocksmqEnable m = bindO (get m rocksmq_Path) (\<lambda>v. Ok (v \<noteq> []))"

definition NatsmqEnable :: "'h Manager option \<Rightarrow> (config_error, bool) outcome" where
  "NatsmqEnable m = bindO (get m natsmq_ServerStoreDir) (\<lambda>v. Ok (v \<noteq> []))"

definition PulsarEnable :: "'h Manager option \<Rightarrow> (config_error, bool) outcome" where
  "PulsarEnable m = bindO (get m (pulsar_Address m)) (\<lambda>v. Ok (v \<noteq> []))"

definition KafkaEnable :: "'h Manager option \<Rightarrow> (config_error, bool) outcome" where
  "KafkaEnable m = bindO (get m kafka_Address) (\<lambda>v. Ok (v \<noteq> []))"

text \<open>\<open>ServiceParam.init\<close> sets up the queues only.\<close>

definition ServiceParam_init ::
  "(string \<Rightarrow> string option) \<Rightarrow> ((string \<rightharpoonup> string) \<Rightarrow> string) \<Rightarrow> 'h Manager \<Rightarrow> 'h Manager" where
  "ServiceParam_init url json m =
     init_table natsmq_params (init_table rocksmq_params (init_table kafka_params
       (init_table (pulsar_params url json (Some m)) (init_table mq_params m))))"


end
