(* ===== verification/ParamGrpc.thy ===== *)
theory ParamGrpc
  imports ParamQuota
begin

text \<open>
  The parameters of gRPC servers and clients (pkg/util/paramtable/grpc\_param.go). Every role of the program has its
  own configuration under its name, the domain. A text that is missing or does not parse is replaced by the default
  before it is handed out. \<open>local_ip\<close> is the answer of \<open>GetLocalIP\<close>, which asks the system for its addresses.
\<close>

section \<open>Addresses\<close>

definition GetIP :: "string \<Rightarrow> string \<Rightarrow> string" where
  "GetIP local_ip ip = (if ip = [] then local_ip else ip)"

definition ipItem :: "string \<Rightarrow> ParamItem" where
  "ipItem domain = item (domain @ ''.ip'') []"

definition grpc_Port :: "string \<Rightarrow> ParamItem" where
  "grpc_Port domain = item (domain @ ''.port'') ''19530''"

definition grpc_InternalPort :: "string \<Rightarrow> ParamItem" where
  "grpc_InternalPort domain = item (domain @ ''.internalPort'') ''19529''"

record grpcConfig =
  Domain :: string
  IP :: string
  grpc_params :: "(string \<times> ParamItem) list"

definition grpcConfig_init ::
  "string \<Rightarrow> string \<Rightarrow> 'h Manager option \<Rightarrow> (config_error, grpcConfig) outcome" where
  "grpcConfig_init local_ip domain m =
     bindO (get m (ipItem domain)) (\<lambda>ip.
       Ok \<lparr>Domain = domain, IP = GetIP local_ip ip,
           grpc_params = [
             (''Port'', grpc_Port domain),
             (''InternalPort'', grpc_InternalPort domain),
             (''TLSMode'', item ''common.security.tlsMode'' ''0''),
             (''ServerPemPath'', item ''tls.serverPemPath'' []),
             (''ServerKeyPath'', item ''tls.serverKeyPath'' []),
             (''CaPemPath'', item ''tls.caPemPath'' [])]\<rparr>)"

definition GetAddress :: "'h Manager option \<Rightarrow> grpcConfig \<Rightarrow> (config_error, string) outcome" where
  "GetAddress m p = bindO (get m (grpc_Port (Domain p))) (\<lambda>port. Ok (IP p @ '':'' @ port))"

definition GetInternalAddress :: "'h Manager option \<Rightarrow> grpcConfig \<Rightarrow> (config_error, string) outcome" where
  "GetInternalAddress m p = bindO (get m (grpc_InternalPort (Domain p))) (\<lambda>port. Ok (IP p @ '':'' @ port))"

section \<open>Numbers with a default\<close>

definition parsed_or :: "(string \<Rightarrow> 'a option) \<Rightarrow> string \<Rightarrow> string \<Rightarrow> (config_error, string) outcome" where
  "parsed_or parse dflt v =
     (if v = [] then Ok dflt
      else (case parse v of None \<Rightarrow> Ok dflt | Some _ \<Rightarrow> Ok v))"

definition number_item :: "string \<Rightarrow> string \<Rightarrow> string \<Rightarrow> ParamItem" where
  "number_item key default_value dflt = (item key default_value)\<lparr>Formatter := Some (parsed_or ParseInt dflt)\<rparr>"

definition ServerMaxSendSize :: "string \<Rightarrow> ParamItem" where
  "ServerMaxSendSize domain =
     (number_item (domain @ ''.grpc.serverMaxSendSize'') ''536870912'' ''536870912'')\<lparr>FallbackKeys := [''grpc.serverMaxSendSize'']\<rparr>"

definition ServerMaxRecvSize :: "string \<Rightarrow> ParamItem" where
  "ServerMaxRecvSize domain =
     (number_item (domain @ ''.grpc.serverMaxRecvSize'') ''268435456'' ''268435456'')\<lparr>FallbackKeys := [''grpc.serverMaxRecvSize'']\<rparr>"

definition ClientMaxSendSize :: "string \<Rightarrow> ParamItem" where
  "ClientMaxSendSize domain =
     (number_item (domain @ ''.grpc.clientMaxSendSize'') ''268435456'' ''268435456'')\<lparr>FallbackKeys := [''grpc.clientMaxSendSize'']\<rparr>"

definition ClientMaxRecvSize :: "string \<Rightarrow> ParamItem" where
  "ClientMaxRecvSize domain =
     (number_item (domain @ ''.grpc.clientMaxRecvSize'') ''536870912'' ''536870912'')\<lparr>FallbackKeys := [''grpc.clientMaxRecvSize'']\<rparr>"

definition DialTimeout :: ParamItem where "DialTimeout = number_item ''grpc.client.dialTimeout'' [] ''200''"
definition KeepAliveTimeout :: ParamItem where "KeepAliveTimeout = number_item ''grpc.client.keepAliveTimeout'' [] ''20000''"
definition KeepAliveTime :: ParamItem where "KeepAliveTime = number_item ''grpc.client.keepAliveTime'' [] ''10000''"
definition MaxAttempts :: ParamItem where "MaxAttempts = number_item ''grpc.client.maxMaxAttempts'' [] ''10''"

definition InitialBackoff :: "'f go_float \<Rightarrow> ParamItem" where
  "InitialBackoff fl = (item ''grpc.client.initialBackoff'' [])
     \<lparr>Formatter := Some (parsed_or (ParseFloat fl) (Sprintf_f fl (float_const fl 2 10)))\<rparr>"

definition MaxBackoff :: "'f go_float \<Rightarrow> ParamItem" where
  "MaxBackoff fl = (item ''grpc.client.maxBackoff'' [])
     \<lparr>Formatter := Some (parsed_or (ParseFloat fl) (Sprintf_f fl (float_const fl 10 1)))\<rparr>"

definition CompressionEnabled :: ParamItem where
  "CompressionEnabled = (item ''grpc.client.compressionEnabled'' [])\<lparr>Formatter := Some (parsed_or ParseBool ''false'')\<rparr>"

definition MinResetInterval :: ParamItem where
  "MinResetInterval = number_item ''grpc.client.minResetInterval'' ''1000'' ''1000''"
definition MinSessionCheckInterval :: ParamItem where
  "MinSessionCheckInterval = number_item ''grpc.client.minSessionCheckInterval'' ''200'' ''200''"
definition MaxCancelError :: ParamItem where
  "MaxCancelError = number_item ''grpc.client.maxCancelError'' ''32'' ''32''"

definition GrpcServerConfig_Init ::
  "string \<Rightarrow> string \<Rightarrow> 'h Manager option \<Rightarrow> (config_error, grpcConfig) outcome" where
  "GrpcServerConfig_Init local_ip domain m =
     bindO (grpcConfig_init local_ip domain m) (\<lambda>p. Ok (p\<lparr>grpc_params := grpc_params p @ [
       (''ServerMaxSendSize'', ServerMaxSendSize domain),
       (''ServerMaxRecvSize'', ServerMaxRecvSize domain),
       (''GracefulStopTimeout'', item ''grpc.gracefulStopTimeout'' ''10'')]\<rparr>))"

definition GrpcClientConfig_Init ::
  "'f go_float \<Rightarrow> string \<Rightarrow> string \<Rightarrow> 'h Manager option \<Rightarrow> (config_error, grpcConfig) outcome" where
  "GrpcClientConfig_Init fl local_ip domain m =
     bindO (grpcConfig_init local_ip domain m) (\<lambda>p. Ok (p\<lparr>grpc_params := grpc_params p @ [
       (''ClientMaxSendSize'', ClientMaxSendSize domain),
       (''ClientMaxRecvSize'', ClientMaxRecvSize domain),
       (''DialTimeout'', DialTimeout),
       (''KeepAliveTimeout'', KeepAliveTimeout),
       (''KeepAliveTime'', KeepAliveTime),
       (''MaxAttempts'', MaxAttempts),
       (''InitialBackoff'', InitialBackoff fl),
       (''MaxBackoff'', MaxBackoff fl),
       (''CompressionEnabled'', CompressionEnabled),
       (''MinResetInterval'', MinResetInterval),
       (''MinSessionCheckInterval'', MinSessionCheckInterval),
       (''MaxCancelError'', MaxCancelError)]\<rparr>))"

section \<open>Every number has been written\<close>

text \<open>The text that is handed out parses, provided the default does: the getters never fall back to zero.\<close>

definition reads :: "(string \<Rightarrow> 'a option) \<Rightarrow> 'h Manager \<Rightarrow> ParamItem \<Rightarrow> bool" where
  "reads parse m pi \<longleftrightarrow> (\<exists>v x. get (Some m) pi = Ok v \<and> parse v = Some x)"

lemma parsed_or_reads:
  assumes "tempValue pi = None" "Formatter pi = Some (parsed_or parse dflt)" "\<not> PanicIfEmpty pi" "parse dflt = Some x"
  shows "reads parse m pi"
proof -
  obtain raw where "get (Some m) pi = parsed_or parse dflt raw" using get_formatted [OF assms(1-3)] by blast
  then show ?thesis using assms(4) by (cases "parse raw") (auto simp: reads_def parsed_or_def)
qed

lemma number_reads:
  assumes "ParseInt dflt = Some x"
  shows "reads ParseInt m (number_item key default_value dflt)"
    "reads ParseInt m ((number_item key default_value dflt)\<lparr>FallbackKeys := ks\<rparr>)"
  using assms by (auto intro!: parsed_or_reads simp: number_item_def)

lemma numbers_read:
  "ParseInt ''536870912'' = Some 536870912" "ParseInt ''268435456'' = Some 268435456" "ParseInt ''200'' = Some 200"
  "ParseInt ''20000'' = Some 20000" "ParseInt ''10000'' = Some 10000" "ParseInt ''10'' = Some 10"
  "ParseInt ''1000'' = Some 1000" "ParseInt ''32'' = Some 32"
  by (simp_all add: ParseInt_def ParseUint_def)

text \<open>Whatever is configured, every number of a gRPC configuration reads as a number that was written for it or as its
  default, never as the zero of a failed conversion, and so does whether compression is on; the back-off times do when
  printed floating point numbers can be read. Reading them never panics.\<close>

theorem grpc_numbers_read:
  assumes "\<And>x. ParseFloat fl (Sprintf_f fl x) \<noteq> None"
  shows "list_all (reads ParseInt m)
      [ServerMaxSendSize domain, ServerMaxRecvSize domain, ClientMaxSendSize domain, ClientMaxRecvSize domain,
       DialTimeout, KeepAliveTimeout, KeepAliveTime, MaxAttempts, MinResetInterval, MinSessionCheckInterval, MaxCancelError]
    \<and> reads ParseBool m CompressionEnabled
    \<and> reads (ParseFloat fl) m (InitialBackoff fl) \<and> reads (ParseFloat fl) m (MaxBackoff fl)"
proof -
  have "ParseBool ''false'' = Some False" by (simp add: ParseBool_def)
  then have bool: "reads ParseBool m CompressionEnabled"
    by (rule parsed_or_reads [rotated 3]) (simp_all add: CompressionEnabled_def)
  obtain x y where "ParseFloat fl (Sprintf_f fl (float_const fl 2 10)) = Some x"
    "ParseFloat fl (Sprintf_f fl (float_const fl 10 1)) = Some y" using assms by blast
  then have "reads (ParseFloat fl) m (InitialBackoff fl)" "reads (ParseFloat fl) m (MaxBackoff fl)"
    unfolding InitialBackoff_def MaxBackoff_def by (auto intro!: parsed_or_reads)
  then show ?thesis using bool
    by (simp add: ServerMaxSendSize_def ServerMaxRecvSize_def ClientMaxSendSize_def ClientMaxRecvSize_def DialTimeout_def
        KeepAliveTimeout_def KeepAliveTime_def MaxAttempts_def MinResetInterval_def MinSessionCheckInterval_def
        MaxCancelError_def number_reads numbers_read)
qed

theorem grpc_numbers_read_witness:
  "reads ParseInt (NewManager :: unit Manager) (ServerMaxSendSize ''proxy'')"
proof -
  have "ParseFloat sample_float (Sprintf_f sample_float x) \<noteq> None" for x
    by (simp add: sample_float_def ParseInt_string_of_int)
  from grpc_numbers_read [OF this, of "NewManager :: unit Manager" "''proxy''"] show ?thesis by simp
qed

text \<open>With nothing configured every role has the ports of the proxy.\<close>

lemma GetAddress_default:
  assumes "unconfigured m"
  shows "bindO (grpcConfig_init local_ip domain (Some m)) (GetAddress (Some m)) = Ok (local_ip @ '':'' @ ''19530'')"
    "bindO (grpcConfig_init local_ip domain (Some m)) (GetInternalAddress (Some m)) = Ok (local_ip @ '':'' @ ''19529'')"
  using assms
  by (simp_all add: grpcConfig_init_def GetAddress_def GetInternalAddress_def ipItem_def grpc_Port_def
      grpc_InternalPort_def GetIP_def get_unconfigured)

end
