(* ===== verification/ParamTables.thy ===== *)
theory ParamTables
  imports ParamComponent ParamQuota ParamService ParamGrpc IndexParam Factory
begin

text \<open>
  The parameter table of the program as a whole (pkg/util/paramtable: component\_param.go, autoindex\_param.go,
  role\_param.go, hook\_config.go, runtime.go) and what the program reads from it: the factory of Pulsar streams
  (\<open>NewPmsFactory\<close>) and the settings of the time-tick stream.

  JSON is a parameter: \<open>json\<close> reads an object as a map of texts, \<open>None\<close> when it is malformed, and \<open>to_json\<close> writes one.
\<close>

section \<open>Parameters of the automatic index\<close>

definition GetAsJSONMap ::
  "(string \<Rightarrow> (string \<rightharpoonup> string) option) \<Rightarrow> 'h Manager option \<Rightarrow> ParamItem \<Rightarrow> (config_error, (string \<rightharpoonup> string) option) outcome" where
  "GetAsJSONMap json m pi = bindO (get m pi) (\<lambda>v. Ok (getAndConvert v (\<lambda>s. map_option Some (json s)) None))"

definition autoIndex_IndexParams :: "ParamItem" where
  "autoIndex_IndexParams =
     item ''autoIndex.params.build'' ''{\"M\": 18,\"efConstruction\": 240,\"index_type\": \"HNSW\", \"metric_type\": \"COSINE\"}''"

definition IndexType_format ::
  "(string \<Rightarrow> (string \<rightharpoonup> string) option) \<Rightarrow> 'h Manager option \<Rightarrow> string \<Rightarrow> (config_error, string) outcome" where
  "IndexType_format json m v =
     bindO (GetAsJSONMap json m autoIndex_IndexParams) (\<lambda>jm.
       case jm of None \<Rightarrow> Ok [] | Some p \<Rightarrow> Ok (map_text p ''index_type''))"

definition autoIndex_params ::
  "(string \<Rightarrow> (string \<rightharpoonup> string) option) \<Rightarrow> 'h Manager option \<Rightarrow> (string \<times> ParamItem) list" where
  "autoIndex_params json m = [
     (''Enable'', (item ''autoIndex.enable'' ''false'')\<lparr>PanicIfEmpty := True\<rparr>),
     (''IndexParams'', autoIndex_IndexParams),
     (''PrepareParams'', item ''autoIndex.params.prepare'' []),
     (''ExtraParams'', item ''autoIndex.params.extra'' []),
     (''IndexType'', (item [] [])\<lparr>Formatter := Some (IndexType_format json m)\<rparr>),
     (''AutoIndexTypeName'', item ''autoIndex.type'' []),
     (''AutoIndexSearchConfig'', item ''autoindex.params.search'' [])]"

definition AutoIndexTuningConfig :: ParamGroup where
  "AutoIndexTuningConfig = \<lparr>KeyPrefix = ''autoindex.params.tuning.'', GetFunc = None\<rparr>"

definition autoIndex_reset :: "((string \<rightharpoonup> string) \<Rightarrow> string) \<Rightarrow> (string \<rightharpoonup> string) \<Rightarrow> 'h Manager \<Rightarrow> 'h Manager" where
  "autoIndex_reset to_json p mgr = SetConfig mgr ''autoIndex.params.build'' (to_json p)"

definition panicIfNotValidAndSetDefaultMetricType ::
  "(string \<Rightarrow> (string \<rightharpoonup> string) option) \<Rightarrow> ((string \<rightharpoonup> string) \<Rightarrow> string) \<Rightarrow> 'h Manager \<Rightarrow>
     (config_error, 'h Manager) outcome" where
  "panicIfNotValidAndSetDefaultMetricType json to_json mgr =
     bindO (GetAsJSONMap json (Some mgr) autoIndex_IndexParams) (\<lambda>jm.
       case jm of
         None \<Rightarrow> Panic ''autoIndex.build not invalid, should be json format''
       | Some p \<Rightarrow>
           (case p ''index_type'' of
              None \<Rightarrow> Panic ''autoIndex.build not invalid, index type not found''
            | Some indexType \<Rightarrow>
                (case GetChecker indexType of
                   Ok checker \<Rightarrow>
                     (let p' = SetDefaultMetricTypeIfNotExist checker p
                      in case StaticCheck checker p' of
                           Some err \<Rightarrow>
                             Panic (''autoIndex.build not invalid, parameters not invalid, error: '' @ Error_string err)
                         | None \<Rightarrow> Ok (autoIndex_reset to_json p' mgr))
                 | _ \<Rightarrow> Panic (''autoIndex.build not invalid, unsupported index type: '' @ indexType))))"

definition autoIndex_init ::
  "(string \<Rightarrow> (string \<rightharpoonup> string) option) \<Rightarrow> ((string \<rightharpoonup> string) \<Rightarrow> string) \<Rightarrow> 'h Manager \<Rightarrow>
     (config_error, 'h Manager) outcome" where
  "autoIndex_init json to_json mgr =
     panicIfNotValidAndSetDefaultMetricType json to_json (init_table (autoIndex_params json (Some mgr)) mgr)"

section \<open>Roles, hooks, the values of the running process\<close>

definition role_Enabled :: "ParamItem" where
  "role_Enabled = item ''builtinRoles.enable'' ''false''"

definition role_Roles :: "ParamItem" where
  "role_Roles = item ''builtinRoles.roles'' ''{}''"

text \<open>\<open>roles\<close> reads the JSON text of the roles, \<open>None\<close> when it is malformed, and \<open>roles_text\<close> writes them.\<close>

definition role_init ::
  "(string \<Rightarrow> 'r option) \<Rightarrow> ('r \<Rightarrow> string) \<Rightarrow> 'h Manager \<Rightarrow> (config_error, 'h Manager) outcome" where
  "role_init roles roles_text mgr =
     (let mgr = init_table [(''Enabled'', role_Enabled), (''Roles'', role_Roles)] mgr
      in bindO (GetAsBool (Some mgr) role_Enabled) (\<lambda>enabled.
           if \<not> enabled then Ok mgr
           else bindO (get (Some mgr) role_Roles) (\<lambda>v.
             case roles v of
               None \<Rightarrow> Panic ''builtinRoles.roles not invalid, should be json format''
             | Some r \<Rightarrow> Ok (SetConfig mgr ''builtinRoles.roles'' (roles_text r)))))"

definition hook_SoPath :: ParamItem where
  "hook_SoPath = item ''soPath'' []"

definition hook_SoConfig :: ParamGroup where
  "hook_SoConfig = \<lparr>KeyPrefix = [], GetFunc = None\<rparr>"

definition SetNodeID :: "'h Manager \<Rightarrow> int \<Rightarrow> 'h Manager" where
  "SetNodeID m newID = SetConfig m ''runtime.nodeID'' (string_of_int newID)"

definition GetNodeID :: "'h Manager option \<Rightarrow> int" where
  "GetNodeID m = (case ParseInt (GetWithDefault m ''runtime.nodeID'' []) of None \<Rightarrow> 0 | Some nodeID \<Rightarrow> nodeID)"

definition SetRole :: "'h Manager \<Rightarrow> string \<Rightarrow> 'h Manager" where
  "SetRole m role = SetConfig m ''runtime.role'' role"

definition GetRole :: "'h Manager option \<Rightarrow> string" where
  "GetRole m = GetWithDefault m ''runtime.role'' []"

text \<open>A time is its nanoseconds since the epoch; \<open>UnixNano\<close> wraps.\<close>

definition SetCreateTime :: "'h Manager \<Rightarrow> int \<Rightarrow> 'h Manager" where
  "SetCreateTime m d = SetConfig m ''runtime.createTime'' (string_of_int (wrap64 d))"

text \<open>The number \<open>strconv.ParseInt\<close> returns beside its error: the nearest 64-bit number when the text is out of range.\<close>

definition ParseInt_value :: "string \<Rightarrow> int" where
  "ParseInt_value s =
     (case ParseInt s of
        Some v \<Rightarrow> v
      | None \<Rightarrow>
          (let neg = (s \<noteq> [] \<and> hd s = CHR ''-'');
               body = (if s \<noteq> [] \<and> hd s \<in> {CHR ''+'', CHR ''-''} then tl s else s)
           in if body = [] then 0
              else (case digits_value 0 body of
                      None \<Rightarrow> 0
                    | Some un \<Rightarrow> if neg then max (- (2 ^ 63)) (- int un) else min (2 ^ 63 - 1) (int un))))"

definition stored_time :: "'h Manager option \<Rightarrow> string \<Rightarrow> int" where
  "stored_time m key =
     (let v = ParseInt_value (GetWithDefault m key [])
      in time_Unix (v sdiv 1000000000) (v smod 1000000000))"

definition GetCreateTime :: "'h Manager option \<Rightarrow> int" where
  "GetCreateTime m = stored_time m ''runtime.createTime''"

definition SetUpdateTime :: "'h Manager \<Rightarrow> int \<Rightarrow> 'h Manager" where
  "SetUpdateTime m d = SetConfig m ''runtime.updateTime'' (string_of_int (wrap64 d))"

definition GetUpdateTime :: "'h Manager option \<Rightarrow> int" where
  "GetUpdateTime m = stored_time m ''runtime.updateTime''"

section \<open>The whole table\<close>

definition grpc_roles :: "string list" where
  "grpc_roles = [''rootCoord'', ''proxy'', ''queryCoord'', ''queryNode'', ''dataCoord'', ''dataNode'', ''indexNode'']"

record ('f, 'r) env =
  en_float :: "'f go_float"
  en_url :: "string \<Rightarrow> string option"
  en_json :: "string \<Rightarrow> (string \<rightharpoonup> string) option"
  en_to_json :: "(string \<rightharpoonup> string) \<Rightarrow> string"
  en_roles :: "string \<Rightarrow> 'r option"
  en_roles_text :: "'r \<Rightarrow> string"
  en_disk :: "string \<Rightarrow> nat option"
  en_mode :: string
  en_ip :: string

definition init_all :: "(string \<times> ParamItem) list list \<Rightarrow> 'h Manager \<Rightarrow> 'h Manager" where
  "init_all tables m = foldl (\<lambda>m table. init_table table m) m tables"

text \<open>\<open>ComponentParam.init\<close>: the manager it leaves, and the configurations of the gRPC servers and clients.\<close>

definition ComponentParam_init ::
  "('f, 'r) env \<Rightarrow> 'h Manager \<Rightarrow> (config_error, 'h Manager \<times> grpcConfig list \<times> grpcConfig list) outcome" where
  "ComponentParam_init env m =
     (let m1 = ServiceParam_init (en_url env) (en_to_json env) m;
          m2 = init_all [common_params (Some m1), quota_params (en_float env) (Some m1)] m1
      in bindO (autoIndex_init (en_json env) (en_to_json env) m2) (\<lambda>m3.
         let m4 = init_all [trace_params, rootCoord_params, proxy_params, queryCoord_params,
                    queryNode_params (en_float env) (en_disk env) (Some m3), dataCoord_params,
                    dataNode_params (en_mode env), indexNode_params (en_float env) (en_disk env), http_params, log_params] m3
         in bindO (role_init (en_roles env) (en_roles_text env) m4) (\<lambda>m5.
            bindO (foldO (\<lambda>cs d. bindO (GrpcServerConfig_Init (en_ip env) d (Some m5)) (\<lambda>c. Ok (cs @ [c]))) [] grpc_roles) (\<lambda>servers.
            bindO (foldO (\<lambda>cs d. bindO (GrpcClientConfig_Init (en_float env) (en_ip env) d (Some m5)) (\<lambda>c. Ok (cs @ [c]))) [] grpc_roles) (\<lambda>clients.
              Ok (init_table integrationTest_params m5, servers, clients))))))"

section \<open>What the stream reads\<close>

text \<open>\<open>NewPmsFactory\<close>; the dispatcher is that of the messages.\<close>

definition NewPmsFactory ::
  "'f go_float \<Rightarrow> (string \<Rightarrow> string option) \<Rightarrow> ((string \<rightharpoonup> string) \<Rightarrow> string) \<Rightarrow> 'h Manager option \<Rightarrow>
     (config_error, PmsFactory) outcome" where
  "NewPmsFactory fl url to_json m =
     bindO (GetAsInt64 m mq_MQBufSize) (\<lambda>mqBufSize.
     bindO (GetAsInt64 m mq_ReceiveBufSize) (\<lambda>receiveBufSize.
     bindO (get m (pulsar_Address m)) (\<lambda>address.
     bindO (get m (pulsar_WebAddress url m)) (\<lambda>webAddress.
     bindO (get m pulsar_AuthPlugin) (\<lambda>authPlugin.
     bindO (get m (pulsar_AuthParams to_json)) (\<lambda>authParams.
     bindO (get m pulsar_Tenant) (\<lambda>tenant.
     bindO (get m pulsar_Namespace) (\<lambda>namespace.
     bindO (GetAsDuration fl m pulsar_RequestTimeout 1000000000) (\<lambda>timeout.
     bindO (GetAsBool m pulsar_EnableClientMetrics) (\<lambda>metrics.
       Ok \<lparr>PulsarAddress = address, PulsarWebAddress = webAddress, pms_ReceiveBufSize = receiveBufSize,
           pms_MQBufSize = mqBufSize, PulsarAuthPlugin = authPlugin, PulsarAuthParams = authParams,
           PulsarTenant = tenant, PulsarNameSpace = namespace, RequestTimeout = timeout,
           metricRegisterer = metrics\<rparr>))))))))))"

text \<open>The settings that the time-tick stream reads in each turn.\<close>

definition stream_settings :: "'f go_float \<Rightarrow> 'h Manager option \<Rightarrow> (config_error, cfg) outcome" where
  "stream_settings fl m =
     bindO (GetAsBool m mq_EnablePursuitMode) (\<lambda>enabled.
     bindO (GetAsUint64 m mq_PursuitBufferSize) (\<lambda>size.
     bindO (GetAsDuration fl m mq_PursuitLag 1000000000) (\<lambda>lag.
       Ok \<lparr>EnablePursuitMode = enabled, PursuitBufferSize = size, PursuitLag = lag\<rparr>)))"


section \<open>The values of the running process\<close>

lemma runtime_keys:
  "format_key ''runtime.nodeID'' = ''runtimenodeid''" "format_key ''runtime.role'' = ''runtimerole''"
  "format_key ''runtime.createTime'' = ''runtimecreatetime''" "format_key ''runtime.updateTime'' = ''runtimeupdatetime''"
  by code_simp+

lemma GetConfig_SetConfig:
  "GetConfig (SetConfig m key v) key' =
     (if format_key key' = format_key key then (if v = TombValue then Err (KeyNotFound key') else Ok v) else GetConfig m key')"
  by (auto simp: GetConfig_def SetConfig_def Let_def getConfigValueBySource_def split: option.split)

lemma int64_text:
  assumes "- (2 ^ 63) \<le> i \<and> i < 2 ^ 63"
  shows "string_of_int i \<noteq> TombValue" "ParseInt (string_of_int i) = Some i" "ParseInt_value (string_of_int i) = i"
    "wrap64 i = i"
proof -
  show parse: "ParseInt (string_of_int i) = Some i" using assms by (simp add: ParseInt_string_of_int)
  have "ParseInt TombValue = None" by (simp add: TombValue_def ParseInt_def ParseUint_def)
  then show "string_of_int i \<noteq> TombValue" using parse by auto
  show "ParseInt_value (string_of_int i) = i" by (simp add: ParseInt_value_def parse)
  show "wrap64 i = i" using assms by (simp add: wrap64_id)
qed

lemma Unix_split: "time_Unix (v sdiv 1000000000) (v smod 1000000000) = v"
  using mult_sdiv_smod_eq [of 1000000000 v] by (simp add: time_Unix_def mult.commute)

text \<open>The node id, the role and the two times of the process are read back as they were stored, whatever the order and
  whatever else is configured; the role must not be the text that marks deleted keys.\<close>

theorem runtime_values_read_back:
  assumes "- (2 ^ 63) \<le> nodeID \<and> nodeID < 2 ^ 63" and "- (2 ^ 63) \<le> created \<and> created < 2 ^ 63"
    and "- (2 ^ 63) \<le> updated \<and> updated < 2 ^ 63" and "role \<noteq> TombValue"
  shows "let m' = SetUpdateTime (SetCreateTime (SetRole (SetNodeID m nodeID) role) created) updated
         in GetNodeID (Some m') = nodeID \<and> GetRole (Some m') = role
          \<and> GetCreateTime (Some m') = created \<and> GetUpdateTime (Some m') = updated"
  using assms
  by (simp add: Let_def SetUpdateTime_def SetCreateTime_def SetRole_def SetNodeID_def GetNodeID_def GetRole_def
      GetCreateTime_def GetUpdateTime_def stored_time_def GetWithDefault_def GetConfig_SetConfig runtime_keys
      int64_text Unix_split)

theorem runtime_values_read_back_witness:
  "let m' = SetUpdateTime (SetCreateTime (SetRole (SetNodeID (NewManager :: unit Manager) 7) ''proxy'') (- 1)) 1500000000
   in GetNodeID (Some m') = 7 \<and> GetCreateTime (Some m') = - 1 \<and> GetUpdateTime (Some m') = 1500000000"
  using runtime_values_read_back [of 7 "- 1" 1500000000 "''proxy''" "NewManager :: unit Manager"]
  by (simp add: Let_def TombValue_def)

section \<open>Nothing configured\<close>

text \<open>Every parameter of a table is read without a panic.\<close>

definition readable :: "'h Manager \<Rightarrow> (string \<times> ParamItem) list \<Rightarrow> bool" where
  "readable m table \<longleftrightarrow> list_all (\<lambda>(field, pi). \<exists>v. get (Some m) pi = Ok v) table"

lemma readable_item:
  assumes "unconfigured m"
  shows "get (Some m) (item key dflt) = Ok dflt"
  using assms by (simp add: get_unconfigured)

lemmas component_tables =
  common_params_def common_params_1_def common_params_2_def common_params_3_def common_params_4_def trace_params_def
  log_params_def rootCoord_params_def proxy_params_def proxy_params_1_def proxy_params_2_def proxy_params_3_def
  queryCoord_params_def queryCoord_params_1_def queryCoord_params_2_def queryCoord_params_3_def dataCoord_params_def
  dataCoord_params_1_def dataCoord_params_2_def dataCoord_params_3_def dataNode_params_def dataNode_params_1_def
  dataNode_params_2_def integrationTest_params_def http_params_def

lemma readable_component:
  assumes "unconfigured m"
  shows "readable m trace_params" "readable m log_params" "readable m (common_params (Some m))"
    "readable m rootCoord_params" "readable m proxy_params"
  using assms
  by (simp_all add: readable_def component_tables get_unconfigured chanNamePrefix_def ClusterPrefix_def
      EntityExpirationTTL_format_def MaxGeneralCapacity_format_def Let_def)


lemma readable_coordinators:
  assumes "unconfigured m"
  shows "readable m queryCoord_params" "readable m dataCoord_params" "readable m (dataNode_params mode)"
    "readable m integrationTest_params" "readable m http_params"
  using assms by (simp_all add: readable_def component_tables get_unconfigured MemoryWatermark_def)

lemma readable_nodes:
  assumes "unconfigured m" and disk: "\<And>path. disk path \<noteq> None" and print: "\<And>x. Sprintf_f fl x \<noteq> []"
  shows "readable m (queryNode_params fl disk (Some m))" "readable m (indexNode_params fl disk)"
proof -
  obtain t1 t2 where sizes: "disk (GetWithDefault (Some m) ''localStorage.path'' []) = Some t1" "disk ''/'' = Some t2"
    using disk by blast
  have nprobe: "\<exists>v. InterimIndexNProbe_format (Some m) dflt = Ok v" for dflt
    using assms(1) by (simp add: InterimIndexNProbe_format_def GetAsInt64_def get_unconfigured InterimIndexNlist_def Let_def)
  show "readable m (queryNode_params fl disk (Some m))"
    using assms(1) nprobe sizes print
    by (simp add: readable_def queryNode_params_def queryNode_params_1_def queryNode_params_2_def queryNode_params_3_def
        get_unconfigured InterimIndexNlist_def ChunkRows_format_def percentage_def DiskCapacityLimit_format_def)
  show "readable m (indexNode_params fl disk)"
    using assms(1) sizes print
    by (simp add: readable_def indexNode_params_def get_unconfigured percentage_def indexNode_DiskCapacityLimit_format_def)
qed


text \<open>A parameter that may be empty and whose formatter cannot fail is read whatever is configured.\<close>

definition reads_ok :: "'h Manager \<Rightarrow> ParamItem \<Rightarrow> bool" where
  "reads_ok m pi \<longleftrightarrow> (\<exists>v. get (Some m) pi = Ok v)"

lemma reads_ok_item [simp]: "reads_ok m (item key dflt)"
  using get_plain [of "item key dflt" m] by (auto simp: reads_ok_def)

lemma reads_ok_fallback [simp]: "reads_ok m ((item key dflt)\<lparr>FallbackKeys := ks\<rparr>)"
  using get_plain [of "(item key dflt)\<lparr>FallbackKeys := ks\<rparr>" m] by (auto simp: reads_ok_def)

lemma reads_ok_format:
  assumes "\<And>v. \<exists>t. f v = Ok t"
  shows "reads_ok m ((item key dflt)\<lparr>Formatter := Some f\<rparr>)"
proof -
  obtain raw where "get (Some m) ((item key dflt)\<lparr>Formatter := Some f\<rparr>) = f raw"
    using get_formatted [of "(item key dflt)\<lparr>Formatter := Some f\<rparr>" f m] by auto
  then show ?thesis using assms [of raw] by (simp add: reads_ok_def)
qed

lemma when_enabled_ok:
  assumes "reads_ok m e" "\<exists>t. k = Ok t"
  shows "\<exists>t. when_enabled (Some m) e off k = Ok t"
  using assms by (auto simp: reads_ok_def when_enabled_def GetAsBool_def)

lemma read_float_ok:
  assumes "reads_ok m pi" "\<And>x. \<exists>t. k x = Ok t"
  shows "\<exists>t. bindO (GetAsFloat fl (Some m) pi) k = Ok t"
  using assms by (auto simp: reads_ok_def GetAsFloat_def)

lemma limit_formats_ok:
  assumes e: "reads_ok m e"
  shows "reads_ok m ((item key dflt)\<lparr>Formatter := Some (limit_int fl (Some m) e)\<rparr>)"
    "reads_ok m ((item key dflt)\<lparr>Formatter := Some (limit_float fl (Some m) e)\<rparr>)"
    "reads_ok m ((item key dflt)\<lparr>Formatter := Some (limit_megabytes fl (Some m) e)\<rparr>)"
    "reads_ok m ((item key dflt)\<lparr>Formatter := Some (MaxTimeTickDelay_format fl (Some m) e)\<rparr>)"
    "reads_ok m ((item key dflt)\<lparr>Formatter := Some (low_water fl (Some m) e)\<rparr>)"
    "reads_ok m ((item key dflt)\<lparr>Formatter := Some (DiskQuota_format fl (Some m) e)\<rparr>)"
    "reads_ok m ((item key dflt)\<lparr>Formatter := Some (NQInQueueThreshold_format fl (Some m) e)\<rparr>)"
    "reads_ok m ((item key dflt)\<lparr>Formatter := Some (MaxReadResultRate_format fl (Some m) e)\<rparr>)"
  using e by (auto intro!: reads_ok_format when_enabled_ok simp: limit_int_def limit_float_def limit_megabytes_def
      MaxTimeTickDelay_format_def low_water_def DiskQuota_format_def NQInQueueThreshold_format_def Let_def
      MaxReadResultRate_format_def)

lemma plain_formats_ok:
  "reads_ok m ((item key dflt)\<lparr>Formatter := Some (proportion fl t)\<rparr>)"
  "reads_ok m ((item key dflt)\<lparr>Formatter := Some QuotaCenterCollectInterval_format\<rparr>)"
  by (auto intro!: reads_ok_format simp: proportion_def QuotaCenterCollectInterval_format_def)

lemma pair_formats_ok:
  assumes "reads_ok m e" "reads_ok m pi"
  shows "reads_ok m ((item key dflt)\<lparr>Formatter := Some (least_rate fl (Some m) e pi)\<rparr>)"
    "reads_ok m ((item key dflt)\<lparr>Formatter := Some (least_megabytes fl (Some m) e pi)\<rparr>)"
    "reads_ok m ((item key dflt)\<lparr>Formatter := Some (high_water fl (Some m) off e pi)\<rparr>)"
    "reads_ok m ((item key dflt)\<lparr>Formatter := Some (limit_float_of fl (Some m) e pi)\<rparr>)"
    "reads_ok m ((item key dflt)\<lparr>Formatter := Some (limit_megabytes_of fl (Some m) e pi)\<rparr>)"
    "reads_ok m ((item key dflt)\<lparr>Formatter := Some (DiskQuotaPerCollection_format fl (Some m) e pi)\<rparr>)"
proof -
  obtain v where v: "get (Some m) pi = Ok v" using assms(2) by (auto simp: reads_ok_def)
  show "reads_ok m ((item key dflt)\<lparr>Formatter := Some (least_rate fl (Some m) e pi)\<rparr>)"
    "reads_ok m ((item key dflt)\<lparr>Formatter := Some (least_megabytes fl (Some m) e pi)\<rparr>)"
    "reads_ok m ((item key dflt)\<lparr>Formatter := Some (high_water fl (Some m) off e pi)\<rparr>)"
    "reads_ok m ((item key dflt)\<lparr>Formatter := Some (limit_float_of fl (Some m) e pi)\<rparr>)"
    "reads_ok m ((item key dflt)\<lparr>Formatter := Some (limit_megabytes_of fl (Some m) e pi)\<rparr>)"
    "reads_ok m ((item key dflt)\<lparr>Formatter := Some (DiskQuotaPerCollection_format fl (Some m) e pi)\<rparr>)"
    using assms(1) v
    by (auto intro!: reads_ok_format when_enabled_ok simp: least_rate_def least_megabytes_def high_water_def
        limit_float_of_def limit_megabytes_of_def DiskQuotaPerCollection_format_def GetAsFloat_def Let_def)
qed

lemma growing_format_ok:
  assumes "reads_ok m pi"
  shows "reads_ok m ((item key dflt)\<lparr>Formatter := Some (GrowingSegmentsSizeHighWaterLevel_format fl (Some m) pi)\<rparr>)"
proof -
  obtain v where "get (Some m) pi = Ok v" using assms by (auto simp: reads_ok_def)
  then show ?thesis
    by (intro reads_ok_format) (simp add: GrowingSegmentsSizeHighWaterLevel_format_def GetAsFloat_def)
qed

lemmas quota_defs =
  QuotaAndLimitsEnabled_def QuotaCenterCollectInterval_def DDLLimitEnabled_def DDLCollectionRate_def
  DDLPartitionRate_def IndexLimitEnabled_def MaxIndexRate_def FlushLimitEnabled_def MaxFlushRate_def
  MaxFlushRatePerCollection_def CompactionLimitEnabled_def MaxCompactionRate_def DMLLimitEnabled_def
  DMLMaxInsertRate_def DMLMinInsertRate_def DMLMaxInsertRatePerCollection_def DMLMinInsertRatePerCollection_def
  DMLMaxUpsertRate_def DMLMinUpsertRate_def DMLMaxUpsertRatePerCollection_def DMLMinUpsertRatePerCollection_def
  DMLMaxDeleteRate_def DMLMinDeleteRate_def DMLMaxDeleteRatePerCollection_def DMLMinDeleteRatePerCollection_def
  DMLMaxBulkLoadRate_def DMLMinBulkLoadRate_def DMLMaxBulkLoadRatePerCollection_def
  DMLMinBulkLoadRatePerCollection_def DQLLimitEnabled_def DQLMaxSearchRate_def DQLMinSearchRate_def
  DQLMaxSearchRatePerCollection_def DQLMinSearchRatePerCollection_def DQLMaxQueryRate_def DQLMinQueryRate_def
  DQLMaxQueryRatePerCollection_def DQLMinQueryRatePerCollection_def MaxCollectionNum_def
  MaxCollectionNumPerDB_def TopKLimit_def NQLimit_def MaxQueryResultWindow_def MaxOutputSize_def
  ForceDenyWriting_def TtProtectionEnabled_def MaxTimeTickDelay_def MemProtectionEnabled_def
  DataNodeMemoryLowWaterLevel_def DataNodeMemoryHighWaterLevel_def QueryNodeMemoryLowWaterLevel_def
  QueryNodeMemoryHighWaterLevel_def GrowingSegmentsSizeProtectionEnabled_def GrowingSegmentsSizeMinRateRatio_def
  GrowingSegmentsSizeLowWaterLevel_def GrowingSegmentsSizeHighWaterLevel_def DiskProtectionEnabled_def
  DiskQuota_def DiskQuotaPerCollection_def ForceDenyReading_def QueueProtectionEnabled_def
  NQInQueueThreshold_def QueueLatencyThreshold_def ResultProtectionEnabled_def MaxReadResultRate_def
  CoolOffSpeed_def AllocRetryTimes_def AllocWaitInterval_def ComplexDeleteLimitEnable_def

lemma readable_alt: "readable m table \<longleftrightarrow> list_all (\<lambda>(field, pi). reads_ok m pi) table"
  by (simp add: readable_def reads_ok_def)

text \<open>The quotas and the queues are read whatever is configured.\<close>

lemma readable_quota: "readable m (quota_params fl (Some m))"
  unfolding readable_alt quota_params_def quota_defs
  by (simp add: limit_formats_ok pair_formats_ok growing_format_ok plain_formats_ok)

lemma with_port_ok:
  assumes "reads_ok m port"
  shows "reads_ok m ((item key dflt)\<lparr>Formatter := Some (with_port scheme (Some m) port)\<rparr>)"
proof -
  obtain v where "get (Some m) port = Ok v" using assms by (auto simp: reads_ok_def)
  then show ?thesis by (intro reads_ok_format) (simp add: with_port_def)
qed

lemma pulsar_Address_ok: "reads_ok m (pulsar_Address (Some m))"
  by (simp add: pulsar_Address_def with_port_ok pulsar_Port_def)

lemma pulsar_WebAddress_ok: "reads_ok m (pulsar_WebAddress url (Some m))"
proof -
  obtain a where "get (Some m) (pulsar_Address (Some m)) = Ok a" using pulsar_Address_ok by (auto simp: reads_ok_def)
  moreover obtain p where "get (Some m) pulsar_WebPort = Ok p"
    using reads_ok_item [of m "''pulsar.webport''" "''80''"] by (auto simp: reads_ok_def pulsar_WebPort_def)
  ultimately show ?thesis unfolding pulsar_WebAddress_def
    by (intro reads_ok_format) (simp add: WebAddress_format_def split: option.split)
qed

lemma readable_queues:
  "readable m (pulsar_params url json (Some m))" "readable m mq_params" "readable m kafka_params"
  "readable m rocksmq_params" "readable m natsmq_params"
  by (simp_all add: readable_alt pulsar_params_def mq_params_def kafka_params_def rocksmq_params_def natsmq_params_def
      pulsar_Port_def pulsar_Address_ok pulsar_WebPort_def pulsar_WebAddress_ok pulsar_MaxMessageSize_def pulsar_Tenant_def
      pulsar_Namespace_def pulsar_AuthPlugin_def pulsar_AuthParams_def reads_ok_format pulsar_RequestTimeout_def
      pulsar_EnableClientMetrics_def mq_EnablePursuitMode_def mq_PursuitLag_def mq_PursuitBufferSize_def mq_MQBufSize_def
      mq_ReceiveBufSize_def mq_IgnoreBadPosition_def kafka_Address_def rocksmq_Path_def rocksmq_LRUCacheRatio_def
      natsmq_ServerStoreDir_def)


lemma string_of_int_not_empty: "string_of_int i \<noteq> []"
proof -
  have "string_of_nat n \<noteq> []" for n by (subst string_of_nat.simps) simp
  then show ?thesis by (simp add: string_of_int_def)
qed

text \<open>Reading a parameter does not bring the program down: the quotas and the parameters of the queues are read
  whatever is configured; all other tables are when nothing is configured, provided the size of the disk can be had.\<close>

theorem parameters_read:
  assumes "\<And>path. disk path \<noteq> None" and "\<And>x. Sprintf_f fl x \<noteq> []"
  shows "list_all (readable m)
      [quota_params fl (Some m), mq_params, pulsar_params url json (Some m), kafka_params, rocksmq_params, natsmq_params]
    \<and> (unconfigured m \<longrightarrow> list_all (readable m)
        [common_params (Some m), trace_params, log_params, rootCoord_params, proxy_params, queryCoord_params,
         queryNode_params fl disk (Some m), dataCoord_params, dataNode_params mode, indexNode_params fl disk,
         integrationTest_params, http_params])"
  using assms
  by (simp add: readable_quota readable_queues readable_component readable_coordinators readable_nodes)

theorem parameters_read_witness:
  "readable (NewManager :: unit Manager) (queryNode_params sample_float (\<lambda>_. Some 1) (Some (NewManager :: unit Manager)))"
proof -
  have "Sprintf_f sample_float x \<noteq> []" for x
    by (simp add: sample_float_def string_of_int_not_empty)
  from parameters_read [of "\<lambda>_. Some 1" sample_float "NewManager :: unit Manager", OF _ this] show ?thesis
    by (simp add: unconfigured_NewManager)
qed

section \<open>What initialization leaves\<close>

text \<open>Setting up a table only forbids updates of some keys.\<close>

definition forbids :: "(string \<times> ParamItem) list \<Rightarrow> string set" where
  "forbids table = (\<lambda>(field, pi). format_key (pi_Key pi)) ` set (filter (\<lambda>(field, pi). Forbidden pi) table)"

lemma forbids_simps [simp]:
  "forbids [] = {}"
  "forbids ((field, pi) # table) = (if Forbidden pi then insert (format_key (pi_Key pi)) (forbids table) else forbids table)"
  "forbids (t1 @ t2) = forbids t1 \<union> forbids t2"
  by (auto simp: forbids_def)

lemma init_table_effect: "init_table table m = m\<lparr>forbiddenKeys := forbiddenKeys m \<union> forbids table\<rparr>"
proof (induction table arbitrary: m)
  case (Cons p table)
  obtain field pi where p: "p = (field, pi)" by (cases p)
  have "init_table (p # table) m = init_table table (ParamItem_Init pi m)" by (simp add: init_table_def p)
  then show ?case by (simp add: Cons p ParamItem_Init_def ForbidUpdate_def)
qed (simp add: init_table_def)

lemma forbids_tables:
  "forbids (common_params m) = {format_key ''msgChannel.chanNamePrefix.cluster'', format_key ''common.defaultPartitionName''}"
  "forbids rootCoord_params = {format_key ''rootCoord.dmlChannelNum''}"
  "forbids trace_params = {}" "forbids log_params = {}" "forbids proxy_params = {}" "forbids queryCoord_params = {}"
  "forbids (queryNode_params fl disk m) = {}" "forbids dataCoord_params = {}" "forbids (dataNode_params mode) = {}"
  "forbids (indexNode_params fl disk) = {}" "forbids integrationTest_params = {}" "forbids http_params = {}"
  by (auto simp: component_tables ClusterPrefix_def queryNode_params_def queryNode_params_1_def queryNode_params_2_def
      queryNode_params_3_def InterimIndexNlist_def indexNode_params_def MemoryWatermark_def)


lemma forbids_small: "forbids [(''Enabled'', role_Enabled), (''Roles'', role_Roles)] = {}" "forbids (autoIndex_params json m) = {}"
  by (simp_all add: role_Enabled_def role_Roles_def autoIndex_params_def autoIndex_IndexParams_def)

lemma forbids_quota: "forbids (quota_params fl m) = {}"
  by (simp add: quota_params_def quota_defs)

lemma forbids_queues:
  "forbids (pulsar_params url json m) = {}" "forbids mq_params = {}" "forbids kafka_params = {}"
  "forbids rocksmq_params = {}" "forbids natsmq_params = {}"
  by (simp_all add: pulsar_params_def mq_params_def kafka_params_def rocksmq_params_def natsmq_params_def
      pulsar_Port_def pulsar_Address_def pulsar_WebPort_def pulsar_WebAddress_def pulsar_MaxMessageSize_def pulsar_Tenant_def
      pulsar_Namespace_def pulsar_AuthPlugin_def pulsar_AuthParams_def pulsar_RequestTimeout_def
      pulsar_EnableClientMetrics_def mq_EnablePursuitMode_def mq_PursuitLag_def mq_PursuitBufferSize_def mq_MQBufSize_def
      mq_ReceiveBufSize_def mq_IgnoreBadPosition_def kafka_Address_def rocksmq_Path_def rocksmq_LRUCacheRatio_def
      natsmq_ServerStoreDir_def)

section \<open>The automatic index\<close>

lemma registered_checker:
  assumes "GetChecker indexType = Ok c"
  shows "\<exists>metrics dm ts. index_checker c metrics dm ts"
  using assms flat.index_checker_axioms diskann.index_checker_axioms ivf.index_checker_axioms ivf_pq.index_checker_axioms
    raft_ivf_pq.index_checker_axioms ivf_sq.index_checker_axioms scann.index_checker_axioms bin_flat.index_checker_axioms
    bin_ivf.index_checker_axioms hnsw.index_checker_axioms
  by (auto simp: GetChecker_def registerIndexChecker_def split: if_splits)

lemma panicIfNotValid_Ok:
  assumes "panicIfNotValidAndSetDefaultMetricType json to_json mgr = Ok mgr'"
  obtains p t c where "GetAsJSONMap json (Some mgr) autoIndex_IndexParams = Ok (Some p)" "p ''index_type'' = Some t"
    "GetChecker t = Ok c" "StaticCheck c (SetDefaultMetricTypeIfNotExist c p) = None"
    "mgr' = autoIndex_reset to_json (SetDefaultMetricTypeIfNotExist c p) mgr"
proof -
  obtain jm where jm: "GetAsJSONMap json (Some mgr) autoIndex_IndexParams = Ok jm"
    using assms by (auto simp: panicIfNotValidAndSetDefaultMetricType_def bindO_Ok_iff)
  note run = assms [unfolded panicIfNotValidAndSetDefaultMetricType_def jm bindO.simps Let_def]
  obtain p where p: "jm = Some p" using run by (cases jm) simp_all
  obtain t where t: "p ''index_type'' = Some t" using run p by (cases "p ''index_type''") simp_all
  obtain c where c: "GetChecker t = Ok c" using run p t by (cases "GetChecker t") simp_all
  have static: "StaticCheck c (SetDefaultMetricTypeIfNotExist c p) = None"
    using run p t c by (cases "StaticCheck c (SetDefaultMetricTypeIfNotExist c p)") simp_all
  show ?thesis using that [of p t c] jm p t c static run by simp
qed

text \<open>C32: When the check of the automatic index does not panic, the build parameters are valid from then on: they name a
  registered type of index and a metric, they pass its static check, and running the check again changes nothing.\<close>

theorem autoIndex_settles:
  assumes "panicIfNotValidAndSetDefaultMetricType json to_json mgr = Ok mgr'"
    and "\<And>s p v. json s = Some p \<Longrightarrow> json (to_json p) = Some p \<and> json (to_json (p(''metric_type'' \<mapsto> v))) = Some (p(''metric_type'' \<mapsto> v))"
    and "\<And>p. to_json p \<noteq> TombValue"
  shows "(\<exists>p t c. GetAsJSONMap json (Some mgr') autoIndex_IndexParams = Ok (Some p) \<and> p ''index_type'' = Some t \<and> GetChecker t = Ok c
      \<and> p ''metric_type'' \<noteq> None \<and> StaticCheck c p = None)
    \<and> panicIfNotValidAndSetDefaultMetricType json to_json mgr' = Ok mgr'"
proof -
  obtain p t c where p: "GetAsJSONMap json (Some mgr) autoIndex_IndexParams = Ok (Some p)"
    and t: "p ''index_type'' = Some t" and c: "GetChecker t = Ok c"
    and static: "StaticCheck c (SetDefaultMetricTypeIfNotExist c p) = None"
    and mgr': "mgr' = autoIndex_reset to_json (SetDefaultMetricTypeIfNotExist c p) mgr"
    using panicIfNotValid_Ok [OF assms(1)] by blast
  let ?p = "SetDefaultMetricTypeIfNotExist c p"
  obtain metrics dm ts where ic: "index_checker c metrics dm ts" using registered_checker [OF c] by blast
  have "GetConfig mgr' ''autoIndex.params.build'' = Ok (to_json ?p)"
    using assms(3) by (simp add: mgr' autoIndex_reset_def GetConfig_SetConfig)
  moreover obtain s where "json s = Some p"
    using p by (auto simp: GetAsJSONMap_def outcome_simps getAndConvert_def split: option.splits)
  then have "json (to_json ?p) = Some ?p"
    using assms(2) by (simp add: index_checker.set_default [OF ic] setDefaultIfNotExist_def)
  ultimately have read: "GetAsJSONMap json (Some mgr') autoIndex_IndexParams = Ok (Some ?p)"
    by (simp add: GetAsJSONMap_def get_def autoIndex_IndexParams_def getAndConvert_def Let_def)
  have type: "?p ''index_type'' = Some t" using t by (simp add: index_checker.default_keeps [OF ic])
  have metric: "?p ''metric_type'' \<noteq> None"
    by (simp add: index_checker.set_default [OF ic] setDefaultIfNotExist_def)
  have "autoIndex_reset to_json ?p mgr' = mgr'"
    by (simp add: mgr' autoIndex_reset_def SetConfig_def)
  then have "panicIfNotValidAndSetDefaultMetricType json to_json mgr' = Ok mgr'"
    using c static
    by (simp add: panicIfNotValidAndSetDefaultMetricType_def read type index_checker.default_idem [OF ic])
  then show ?thesis using read type c static metric by blast
qed


lemma flat_sample:
  "SetDefaultMetricTypeIfNotExist flatChecker [''index_type'' \<mapsto> ''FLAT'', ''metric_type'' \<mapsto> ''L2'']
     = [''index_type'' \<mapsto> ''FLAT'', ''metric_type'' \<mapsto> ''L2'']"
  "StaticCheck flatChecker [''index_type'' \<mapsto> ''FLAT'', ''metric_type'' \<mapsto> ''L2''] = None"
  "GetChecker ''FLAT'' = Ok flatChecker"
  by (simp_all add: flat.set_default setDefaultIfNotExist_def GetChecker_def registerIndexChecker_def)
    (simp add: checker_defs static_defs metric_lists CheckStrByValues_def SliceContain_def metric_names)

text \<open>For the witness: an object holds a metric and the type FLAT.\<close>

definition sample_json :: "string \<Rightarrow> (string \<rightharpoonup> string) option" where
  "sample_json s = (case s of [] \<Rightarrow> None
     | c # v \<Rightarrow> if c = CHR ''{'' then Some [''index_type'' \<mapsto> ''FLAT'', ''metric_type'' \<mapsto> v] else None)"

definition sample_to_json :: "(string \<rightharpoonup> string) \<Rightarrow> string" where
  "sample_to_json p = CHR ''{'' # map_text p ''metric_type''"

theorem autoIndex_settles_witness:
  "let m = SetConfig (NewManager :: unit Manager) ''autoIndex.params.build'' ''{L2''
   in panicIfNotValidAndSetDefaultMetricType sample_json sample_to_json m = Ok m"
proof -
  let ?m = "SetConfig (NewManager :: unit Manager) ''autoIndex.params.build'' ''{L2''"
  have read: "GetAsJSONMap sample_json (Some ?m) autoIndex_IndexParams = Ok (Some [''index_type'' \<mapsto> ''FLAT'', ''metric_type'' \<mapsto> ''L2''])"
    by (simp add: GetAsJSONMap_def get_def autoIndex_IndexParams_def GetConfig_SetConfig TombValue_def getAndConvert_def
        sample_json_def Let_def)
  have reset: "autoIndex_reset sample_to_json [''index_type'' \<mapsto> ''FLAT'', ''metric_type'' \<mapsto> ''L2''] ?m = ?m"
    by (simp add: autoIndex_reset_def sample_to_json_def map_text_def SetConfig_def)
  have "panicIfNotValidAndSetDefaultMetricType sample_json sample_to_json ?m = Ok ?m"
    by (simp add: panicIfNotValidAndSetDefaultMetricType_def read flat_sample reset del: fun_upd_apply)
      (simp add: Let_def flat_sample reset)
  from autoIndex_settles [OF this] this show ?thesis
    by (auto simp: sample_json_def sample_to_json_def TombValue_def map_text_def fun_eq_iff split: list.splits if_splits)
qed

section \<open>The factory of streams and the settings of the stream\<close>

lemma strings_Contains_append: "strings_Contains t sub \<Longrightarrow> strings_Contains (s @ t) sub"
  by (induction s) simp_all

lemma with_port_value:
  assumes "with_port scheme m port addr = Ok v"
  shows "v = [] \<or> strings_Contains v '':''"
  using assms by (auto simp: with_port_def outcome_simps intro!: strings_Contains_append split: if_splits)

text \<open>Whatever is configured, the factory of Pulsar streams is made: its address is empty, when Pulsar is not used, or
  names a port, and its web address is empty or an http URL.\<close>

theorem NewPmsFactory_addresses:
  "\<exists>f. NewPmsFactory fl url to_json (Some m) = Ok f
     \<and> (PulsarAddress f = [] \<or> strings_Contains (PulsarAddress f) '':'')
     \<and> (PulsarWebAddress f = [] \<or> is_prefix_of ''http://'' (PulsarWebAddress f))"
proof -
  have ok: "reads_ok m mq_MQBufSize" "reads_ok m mq_ReceiveBufSize" "reads_ok m pulsar_AuthPlugin"
    "reads_ok m (pulsar_AuthParams to_json)" "reads_ok m pulsar_Tenant" "reads_ok m pulsar_Namespace"
    "reads_ok m pulsar_RequestTimeout" "reads_ok m pulsar_EnableClientMetrics"
    by (simp_all add: mq_MQBufSize_def mq_ReceiveBufSize_def pulsar_AuthPlugin_def pulsar_AuthParams_def reads_ok_format
        pulsar_Tenant_def pulsar_Namespace_def pulsar_RequestTimeout_def pulsar_EnableClientMetrics_def)
  obtain p where p: "get (Some m) pulsar_WebPort = Ok p"
    using reads_ok_item [of m "''pulsar.webport''" "''80''"] by (auto simp: reads_ok_def pulsar_WebPort_def)
  obtain a where a: "get (Some m) (pulsar_Address (Some m)) = Ok a" using pulsar_Address_ok by (auto simp: reads_ok_def)
  obtain raw where "get (Some m) (pulsar_Address (Some m)) = with_port ''pulsar://'' (Some m) pulsar_Port raw"
    using get_formatted [of "pulsar_Address (Some m)" "with_port ''pulsar://'' (Some m) pulsar_Port" m]
    by (auto simp: pulsar_Address_def)
  then have addr: "a = [] \<or> strings_Contains a '':''" using a with_port_value by metis
  obtain w where w: "get (Some m) (pulsar_WebAddress url (Some m)) = Ok w"
    using pulsar_WebAddress_ok by (auto simp: reads_ok_def)
  obtain raw' where "get (Some m) (pulsar_WebAddress url (Some m)) = WebAddress_format url (Some m) raw'"
    using get_formatted [of "pulsar_WebAddress url (Some m)" "WebAddress_format url (Some m)" m]
    by (auto simp: pulsar_WebAddress_def)
  then have web: "w = [] \<or> is_prefix_of ''http://'' w"
    using w a p by (auto simp: WebAddress_format_def split: option.splits)
  show ?thesis using ok a w addr web
    by (auto simp: reads_ok_def NewPmsFactory_def GetAsInt64_def GetAsDuration_def GetAsBool_def)
qed

text \<open>With nothing configured the stream is in pursuit mode and sends a pack as soon as it has buffered more than 8 bytes.\<close>

lemma stream_settings_default:
  assumes "unconfigured m"
  shows "stream_settings fl (Some m) = Ok \<lparr>EnablePursuitMode = True, PursuitBufferSize = 8, PursuitLag = 10000000000\<rparr>"
  using assms
  by (simp add: stream_settings_def GetAsBool_def GetAsUint64_def GetAsDuration_def mq_EnablePursuitMode_def
      mq_PursuitBufferSize_def mq_PursuitLag_def get_unconfigured getAsBool_def getAsUint64_def getAsDuration_def
      getAndConvert_def ParseBool_def ParseUint_def ParseInt_def wrap64_def)


section \<open>The whole initialization\<close>

lemma init_all_effect: "init_all tables m = m\<lparr>forbiddenKeys := forbiddenKeys m \<union> (\<Union> (forbids ` set tables))\<rparr>"
  by (induction tables arbitrary: m) (simp_all add: init_all_def init_table_effect Un_assoc)

lemma autoIndex_init_forbids:
  assumes "autoIndex_init json to_json m = Ok m'"
  shows "forbiddenKeys m' = forbiddenKeys m"
  using assms unfolding autoIndex_init_def init_table_effect forbids_small(2)
  by (rule panicIfNotValid_Ok) (simp add: autoIndex_reset_def SetConfig_def)

lemma init_forbids:
  "ServiceParam_init url to_json m = m"
  "role_init roles roles_text m = Ok m' \<Longrightarrow> forbiddenKeys m' = forbiddenKeys m"
  by (auto simp: ServiceParam_init_def init_table_effect forbids_queues bindO_Ok_iff SetConfig_def Let_def
      role_init_def role_Enabled_def role_Roles_def split: option.splits if_splits)
lemma collected_domains:
  assumes "foldO (\<lambda>cs d. bindO (f d) (\<lambda>c. Ok (cs @ [c]))) cs ds = Ok cs'"
    and "\<And>d c. f d = Ok c \<Longrightarrow> Domain c = d"
  shows "map Domain cs' = map Domain cs @ ds"
  using assms(1) by (induction ds arbitrary: cs) (auto simp: bindO_Ok_iff assms(2))

lemma init_domains:
  "GrpcServerConfig_Init ip d m = Ok c \<Longrightarrow> Domain c = d"
  "GrpcClientConfig_Init fl ip d m = Ok c \<Longrightarrow> Domain c = d"
  by (auto simp: GrpcServerConfig_Init_def GrpcClientConfig_Init_def grpcConfig_init_def bindO_Ok_iff)

text \<open>When the initialization of the whole table does not panic, it has forbidden the updates of three keys more and of
  no others (the prefix of the cluster, the default partition, the number of channels), and every role has its own server
  and client configuration.\<close>

theorem ComponentParam_init_forbids:
  assumes "ComponentParam_init env m = Ok (m', servers, clients)"
  shows "forbiddenKeys m' = forbiddenKeys m \<union> {format_key ''msgChannel.chanNamePrefix.cluster'',
      format_key ''common.defaultPartitionName'', format_key ''rootCoord.dmlChannelNum''}
    \<and> map Domain servers = grpc_roles \<and> map Domain clients = grpc_roles"
proof -
  obtain m3 m5 where m3: "autoIndex_init (en_json env) (en_to_json env)
        (init_all [common_params (Some (ServiceParam_init (en_url env) (en_to_json env) m)),
           quota_params (en_float env) (Some (ServiceParam_init (en_url env) (en_to_json env) m))]
           (ServiceParam_init (en_url env) (en_to_json env) m)) = Ok m3"
    and m5: "role_init (en_roles env) (en_roles_text env)
        (init_all [trace_params, rootCoord_params, proxy_params, queryCoord_params,
           queryNode_params (en_float env) (en_disk env) (Some m3), dataCoord_params, dataNode_params (en_mode env),
           indexNode_params (en_float env) (en_disk env), http_params, log_params] m3) = Ok m5"
    and servers: "foldO (\<lambda>cs d. bindO (GrpcServerConfig_Init (en_ip env) d (Some m5)) (\<lambda>c. Ok (cs @ [c]))) [] grpc_roles = Ok servers"
    and clients: "foldO (\<lambda>cs d. bindO (GrpcClientConfig_Init (en_float env) (en_ip env) d (Some m5)) (\<lambda>c. Ok (cs @ [c]))) [] grpc_roles = Ok clients"
    and m': "m' = init_table integrationTest_params m5"
    using assms by (auto simp: ComponentParam_init_def Let_def bindO_Ok_iff)
  have "map Domain servers = grpc_roles" "map Domain clients = grpc_roles"
    using collected_domains [OF servers init_domains(1)] collected_domains [OF clients init_domains(2)] by auto
  moreover have "forbiddenKeys m' = forbiddenKeys m \<union> {format_key ''msgChannel.chanNamePrefix.cluster'',
      format_key ''common.defaultPartitionName'', format_key ''rootCoord.dmlChannelNum''}"
    using autoIndex_init_forbids [OF m3] init_forbids(2) [OF m5]
    by (auto simp: m' init_all_effect init_table_effect forbids_tables forbids_quota init_forbids(1))
  ultimately show ?thesis by blast
qed


text \<open>For the witness: the index parameters are always those of the sample, and roles always read.\<close>

definition sample_env :: "(int, unit) env" where
  "sample_env = \<lparr>en_float = sample_float, en_url = (\<lambda>_. None),
     en_json = (\<lambda>_. Some [''index_type'' \<mapsto> ''FLAT'', ''metric_type'' \<mapsto> ''L2'']), en_to_json = (\<lambda>_. ''{}''),
     en_roles = (\<lambda>_. Some ()), en_roles_text = (\<lambda>_. ''{}''), en_disk = (\<lambda>_. Some 1), en_mode = [], en_ip = []\<rparr>"

lemma collecting_returns:
  assumes "\<And>d. \<exists>c. f d = Ok c"
  shows "\<exists>cs'. foldO (\<lambda>cs d. bindO (f d) (\<lambda>c. Ok (cs @ [c]))) cs ds = Ok cs'"
proof (induction ds arbitrary: cs)
  case (Cons d ds)
  obtain c where "f d = Ok c" using assms by blast
  then show ?case using Cons by simp
qed simp

lemma grpc_init_returns:
  "\<exists>c. GrpcServerConfig_Init ip d (Some m) = Ok c" "\<exists>c. GrpcClientConfig_Init fl ip d (Some m) = Ok c"
  using reads_ok_item [of m "d @ ''.ip''" "[]"]
  by (auto simp: GrpcServerConfig_Init_def GrpcClientConfig_Init_def grpcConfig_init_def ipItem_def reads_ok_def)

lemma role_init_returns: "\<exists>m'. role_init (\<lambda>_. Some ()) t m = Ok m'"
proof -
  define m1 where "m1 = init_table [(''Enabled'', role_Enabled), (''Roles'', role_Roles)] m"
  obtain v w where "get (Some m1) role_Enabled = Ok v" "get (Some m1) role_Roles = Ok w"
    using reads_ok_item [of m1] by (fastforce simp: reads_ok_def role_Enabled_def role_Roles_def)
  then show ?thesis by (simp add: role_init_def m1_def [symmetric] Let_def GetAsBool_def)
qed

lemma autoIndex_init_returns:
  "\<exists>m'. autoIndex_init (\<lambda>_. Some [''index_type'' \<mapsto> ''FLAT'', ''metric_type'' \<mapsto> ''L2'']) to_json m = Ok m'"
proof -
  let ?json = "\<lambda>_ :: string. Some [''index_type'' \<mapsto> ''FLAT'', ''metric_type'' \<mapsto> ''L2'']"
  define m1 where "m1 = init_table (autoIndex_params ?json (Some m)) m"
  obtain v where "get (Some m1) autoIndex_IndexParams = Ok v"
    using reads_ok_item [of m1] by (fastforce simp: reads_ok_def autoIndex_IndexParams_def)
  then have "GetAsJSONMap ?json (Some m1) autoIndex_IndexParams = Ok (Some [''index_type'' \<mapsto> ''FLAT'', ''metric_type'' \<mapsto> ''L2''])"
    by (simp add: GetAsJSONMap_def getAndConvert_def)
  then show ?thesis
    by (simp add: autoIndex_init_def m1_def [symmetric] panicIfNotValidAndSetDefaultMetricType_def flat_sample del: fun_upd_apply)
      (simp add: flat_sample Let_def)
qed

lemma sample_init_returns: "\<exists>m' servers clients. ComponentParam_init sample_env m = Ok (m', servers, clients)"
proof -
  let ?m1 = "ServiceParam_init (en_url sample_env) (en_to_json sample_env) m"
  obtain m3 where m3: "autoIndex_init (en_json sample_env) (en_to_json sample_env)
      (init_all [common_params (Some ?m1), quota_params (en_float sample_env) (Some ?m1)] ?m1) = Ok m3"
    using autoIndex_init_returns by (fastforce simp: sample_env_def)
  let ?m4 = "init_all [trace_params, rootCoord_params, proxy_params, queryCoord_params,
      queryNode_params (en_float sample_env) (en_disk sample_env) (Some m3), dataCoord_params,
      dataNode_params (en_mode sample_env), indexNode_params (en_float sample_env) (en_disk sample_env), http_params, log_params] m3"
  obtain m5 where m5: "role_init (en_roles sample_env) (en_roles_text sample_env) ?m4 = Ok m5"
    using role_init_returns by (fastforce simp: sample_env_def)
  obtain servers clients where
    "foldO (\<lambda>cs d. bindO (GrpcServerConfig_Init (en_ip sample_env) d (Some m5)) (\<lambda>c. Ok (cs @ [c]))) [] grpc_roles = Ok servers"
    "foldO (\<lambda>cs d. bindO (GrpcClientConfig_Init (en_float sample_env) (en_ip sample_env) d (Some m5)) (\<lambda>c. Ok (cs @ [c]))) [] grpc_roles = Ok clients"
    using collecting_returns [of "\<lambda>d. GrpcServerConfig_Init (en_ip sample_env) d (Some m5)" "[]" grpc_roles]
      collecting_returns [of "\<lambda>d. GrpcClientConfig_Init (en_float sample_env) (en_ip sample_env) d (Some m5)" "[]" grpc_roles]
      grpc_init_returns by blast
  then show ?thesis unfolding ComponentParam_init_def Let_def by (simp add: m3 m5)
qed

theorem ComponentParam_init_forbids_witness:
  "\<exists>m' servers clients. ComponentParam_init sample_env (NewManager :: unit Manager) = Ok (m', servers, clients)
     \<and> map Domain servers = grpc_roles"
  using sample_init_returns [of "NewManager :: unit Manager"] ComponentParam_init_forbids by blast

end
