(* ===== verification/Containers.thy ===== *)
theory Containers
  imports TypeutilSet IndexParam Schema
begin

text \<open>
  The containers of pkg/util/typeutil (map.go, ordered\_map.go, index.go, the walks of set.go) and the small helpers for
  slices, sets and maps of pkg/util/funcutil (slice.go, set.go, math.go, map.go).

  \<open>ConcurrentMap\<close> is a sync.Map beside a counter of its own. A call of a method is up to two atomic steps, one on the
  map and one on the counter or the map again, so the calls of several goroutines can interleave between them:
  \<open>cmap_start\<close> is the first step of a call, \<open>cmap_resume\<close> the second, \<open>cmap_step\<close> the interleaving. The locale \<open>keyed_map\<close>
  is the contract of a container that is looked up by key; both containers are interpretations.
\<close>

section \<open>A map with a counter\<close>

record ('k, 'v) ConcurrentMap =
  inner :: "'k \<rightharpoonup> 'v"
  len :: uint64

definition NewConcurrentMap :: "('k, 'v) ConcurrentMap" where
  "NewConcurrentMap = \<lparr>inner = Map.empty, len = 0\<rparr>"

datatype ('k, 'v) cmap_call =
  CallInsert 'k 'v | CallGetOrInsert 'k 'v | CallGetAndRemove 'k | CallRemove 'k

text \<open>What a goroutine still has to do of its call.\<close>

datatype ('k, 'v) cmap_rest = Nothing | Storing 'k 'v | Incrementing | Decrementing

fun cmap_start :: "('k, 'v) cmap_call \<Rightarrow> ('k, 'v) ConcurrentMap \<Rightarrow> ('k, 'v) ConcurrentMap \<times> ('k, 'v) cmap_rest" where
  "cmap_start (CallInsert key v) m =
     (case inner m key of None \<Rightarrow> (m\<lparr>inner := (inner m)(key \<mapsto> v)\<rparr>, Incrementing) | Some _ \<Rightarrow> (m, Storing key v))"
| "cmap_start (CallGetOrInsert key v) m =
     (case inner m key of None \<Rightarrow> (m\<lparr>inner := (inner m)(key \<mapsto> v)\<rparr>, Incrementing) | Some _ \<Rightarrow> (m, Nothing))"
| "cmap_start (CallGetAndRemove key) m =
     (case inner m key of None \<Rightarrow> (m, Nothing) | Some _ \<Rightarrow> (m\<lparr>inner := (inner m)(key := None)\<rparr>, Decrementing))"
| "cmap_start (CallRemove key) m =
     (case inner m key of None \<Rightarrow> (m, Nothing) | Some _ \<Rightarrow> (m\<lparr>inner := (inner m)(key := None)\<rparr>, Decrementing))"

fun cmap_resume :: "('k, 'v) cmap_rest \<Rightarrow> ('k, 'v) ConcurrentMap \<Rightarrow> ('k, 'v) ConcurrentMap" where
  "cmap_resume Nothing m = m"
| "cmap_resume (Storing key v) m = m\<lparr>inner := (inner m)(key \<mapsto> v)\<rparr>"
| "cmap_resume Incrementing m = m\<lparr>len := len m + 1\<rparr>"
| "cmap_resume Decrementing m = m\<lparr>len := len m - 1\<rparr>"

text \<open>The methods as one goroutine sees them: both steps of a call, and its result.\<close>

definition whole :: "('k, 'v) cmap_call \<Rightarrow> ('k, 'v) ConcurrentMap \<Rightarrow> ('k, 'v) ConcurrentMap" where
  "whole c m = (case cmap_start c m of (m', rest) \<Rightarrow> cmap_resume rest m')"

definition CMap_Insert :: "'k \<Rightarrow> 'v \<Rightarrow> ('k, 'v) ConcurrentMap \<Rightarrow> ('k, 'v) ConcurrentMap" where
  "CMap_Insert key v = whole (CallInsert key v)"

definition CMap_Get :: "('k, 'v) ConcurrentMap \<Rightarrow> 'k \<Rightarrow> 'v option" where
  "CMap_Get m key = inner m key"

definition CMap_Contain :: "('k, 'v) ConcurrentMap \<Rightarrow> 'k \<Rightarrow> bool" where
  "CMap_Contain m key \<longleftrightarrow> CMap_Get m key \<noteq> None"

definition CMap_GetOrInsert ::
  "'k \<Rightarrow> 'v \<Rightarrow> ('k, 'v) ConcurrentMap \<Rightarrow> ('v \<times> bool) \<times> ('k, 'v) ConcurrentMap" where
  "CMap_GetOrInsert key v m =
     ((case inner m key of None \<Rightarrow> (v, False) | Some stored \<Rightarrow> (stored, True)), whole (CallGetOrInsert key v) m)"

definition CMap_GetAndRemove :: "'k \<Rightarrow> ('k, 'v) ConcurrentMap \<Rightarrow> 'v option \<times> ('k, 'v) ConcurrentMap" where
  "CMap_GetAndRemove key m = (inner m key, whole (CallGetAndRemove key) m)"

definition CMap_Remove :: "'k \<Rightarrow> ('k, 'v) ConcurrentMap \<Rightarrow> ('k, 'v) ConcurrentMap" where
  "CMap_Remove key = whole (CallRemove key)"

definition CMap_Len :: "('k, 'v) ConcurrentMap \<Rightarrow> int" where
  "CMap_Len m = sint (len m)"

text \<open>\<open>Range\<close> calls the function on the entries in the order of the walk until it answers false; the function may
  change what it has captured.\<close>

fun CMap_Range :: "('k \<Rightarrow> 'v \<Rightarrow> 's \<Rightarrow> 's \<times> bool) \<Rightarrow> ('k \<times> 'v) list \<Rightarrow> 's \<Rightarrow> 's" where
  "CMap_Range f [] s = s"
| "CMap_Range f ((key, v) # walk) s = (case f key v s of (s', True) \<Rightarrow> CMap_Range f walk s' | (s', False) \<Rightarrow> s')"

definition CSet_Collect :: "'a list \<Rightarrow> 'a list" where
  "CSet_Collect walk = CMap_Range (\<lambda>key _ elements. (elements @ [key], True)) (map (\<lambda>key. (key, ())) walk) []"

definition CSet_Range :: "('a \<Rightarrow> 's \<Rightarrow> 's \<times> bool) \<Rightarrow> 'a list \<Rightarrow> 's \<Rightarrow> 's" where
  "CSet_Range f walk = CMap_Range (\<lambda>key _. f key) (map (\<lambda>key. (key, ())) walk)"

text \<open>Several goroutines on one map. \<open>revived\<close> counts the calls of \<open>Insert\<close> that found their key, lost it to a removal
  by another goroutine, and then stored it.\<close>

record ('k, 'v) cmap_system =
  shared :: "('k, 'v) ConcurrentMap"
  goroutines :: "('k, 'v) cmap_rest list"
  revived :: nat

inductive cmap_step :: "('k, 'v) cmap_system \<Rightarrow> ('k, 'v) cmap_system \<Rightarrow> bool" where
  starts: "\<lbrakk>i < length (goroutines s); goroutines s ! i = Nothing; cmap_start c (shared s) = (m, rest)\<rbrakk> \<Longrightarrow>
    cmap_step s (s\<lparr>shared := m, goroutines := (goroutines s)[i := rest]\<rparr>)"
| counts: "\<lbrakk>i < length (goroutines s); goroutines s ! i = rest; rest \<in> {Incrementing, Decrementing}\<rbrakk> \<Longrightarrow>
    cmap_step s (s\<lparr>shared := cmap_resume rest (shared s), goroutines := (goroutines s)[i := Nothing]\<rparr>)"
| stores: "\<lbrakk>i < length (goroutines s); goroutines s ! i = Storing key v\<rbrakk> \<Longrightarrow>
    cmap_step s (s\<lparr>shared := cmap_resume (Storing key v) (shared s), goroutines := (goroutines s)[i := Nothing],
      revived := revived s + (if inner (shared s) key = None then 1 else 0)\<rparr>)"

definition cmap_initial :: "nat \<Rightarrow> ('k, 'v) cmap_system" where
  "cmap_initial n = \<lparr>shared = NewConcurrentMap, goroutines = replicate n Nothing, revived = 0\<rparr>"

section \<open>A map that remembers the order of its keys\<close>

record ('k, 'v) OrderedMap =
  om_keys :: "'k list"
  om_values :: "'k \<rightharpoonup> 'v"

definition NewOrderedMap :: "('k, 'v) OrderedMap" where
  "NewOrderedMap = \<lparr>om_keys = [], om_values = Map.empty\<rparr>"

definition OMap_Get :: "('k, 'v) OrderedMap \<Rightarrow> 'k \<Rightarrow> 'v option" where
  "OMap_Get m key = om_values m key"

definition OMap_Set :: "'k \<Rightarrow> 'v \<Rightarrow> ('k, 'v) OrderedMap \<Rightarrow> ('k, 'v) OrderedMap" where
  "OMap_Set key v m =
     (let m = (if om_values m key = None then m\<lparr>om_keys := om_keys m @ [key]\<rparr> else m)
      in m\<lparr>om_values := (om_values m)(key \<mapsto> v)\<rparr>)"

text \<open>The loop over the keys: the first key that is equal is cut out.\<close>

function cut_key :: "nat \<Rightarrow> 'k \<Rightarrow> 'k list \<Rightarrow> 'k list" where
  "cut_key i key keys =
     (if i < length keys
      then if keys ! i = key then take i keys @ drop (i + 1) keys else cut_key (i + 1) key keys
      else keys)"
  by pat_completeness auto

termination by (relation "measure (\<lambda>(i, key, keys). length keys - i)") auto
declare cut_key.simps [simp del]

definition OMap_Delete :: "'k \<Rightarrow> ('k, 'v) OrderedMap \<Rightarrow> ('k, 'v) OrderedMap" where
  "OMap_Delete key m =
     (if om_values m key = None then m
      else m\<lparr>om_keys := cut_key 0 key (om_keys m), om_values := (om_values m)(key := None)\<rparr>)"

definition OMap_Keys :: "('k, 'v) OrderedMap \<Rightarrow> 'k list" where
  "OMap_Keys m = om_keys m"

definition OMap_SortKeys :: "('k list \<Rightarrow> 'k list) \<Rightarrow> ('k, 'v) OrderedMap \<Rightarrow> ('k, 'v) OrderedMap" where
  "OMap_SortKeys sortFunc m = m\<lparr>om_keys := sortFunc (om_keys m)\<rparr>"

section \<open>Comparing and merging\<close>

text \<open>\<open>walk\<close> is the order in which a map is walked: its entries, without repetition.\<close>

definition walks :: "('k \<times> 'v) list \<Rightarrow> ('k \<rightharpoonup> 'v) \<Rightarrow> bool" where
  "walks walk m \<longleftrightarrow> distinct (map fst walk) \<and> map_of walk = m"

definition MapEqual :: "('k \<times> 'v) list \<Rightarrow> ('k \<rightharpoonup> 'v) \<Rightarrow> ('k \<rightharpoonup> 'v) \<Rightarrow> bool" where
  "MapEqual walk left right =
     (if card (dom left) \<noteq> card (dom right) then False
      else list_all (\<lambda>(k, v). right k = Some v) walk)"

definition MergeMap :: "('k \<times> 'v) list \<Rightarrow> ('k \<rightharpoonup> 'v) \<Rightarrow> ('k \<rightharpoonup> 'v)" where
  "MergeMap walk dst = foldl (\<lambda>m (k, v). m(k \<mapsto> v)) dst walk"

definition GetMapKeys :: "('k \<times> 'v) list \<Rightarrow> 'k list" where
  "GetMapKeys walk = foldl (\<lambda>keys (k, v). keys @ [k]) [] walk"

text \<open>A parameter list may be nil (\<open>None\<close>). \<open>walk\<close> walks the map of the first list.\<close>

definition CompareIndexParams ::
  "(string \<times> string) list \<Rightarrow> (string \<times> string) list option \<Rightarrow> (string \<times> string) list option \<Rightarrow> bool" where
  "CompareIndexParams walk indexParam1 indexParam2 =
     (case (indexParam1, indexParam2) of
        (None, None) \<Rightarrow> True
      | (None, Some _) \<Rightarrow> False
      | (Some _, None) \<Rightarrow> False
      | (Some p1, Some p2) \<Rightarrow>
          if length p1 \<noteq> length p2 then False
          else list_all (\<lambda>(k, v). NewKvPairs p2 k = Some v) walk)"

definition SliceSetEqual :: "'a list \<Rightarrow> 'a list \<Rightarrow> bool" where
  "SliceSetEqual s1 s2 =
     (if length s1 \<noteq> length s2 then False
      else list_all (\<lambda>x. Set_Contain (NewSet s1) [x]) s2)"

definition SortedSliceEqual :: "'a list \<Rightarrow> 'a list \<Rightarrow> bool" where
  "SortedSliceEqual s1 s2 =
     (if length s1 \<noteq> length s2 then False
      else list_all (\<lambda>i. s2 ! i = s1 ! i) [0..<length s1])"

definition SetContain :: "'a list \<Rightarrow> 'a set \<Rightarrow> 'a set \<Rightarrow> bool" where
  "SetContain walk2 m1 m2 = (if card m1 < card m2 then False else list_all (\<lambda>k2. k2 \<in> m1) walk2)"

definition SetToSlice :: "'a list \<Rightarrow> 'a list" where
  "SetToSlice walk = foldl (\<lambda>ret k. ret @ [k]) [] walk"

definition funcutil_Min :: "'a::linorder \<Rightarrow> 'a list \<Rightarrow> 'a" where
  "funcutil_Min first values = foldl (\<lambda>m v. if m > v then v else m) first values"

definition funcutil_Max :: "'a::linorder \<Rightarrow> 'a list \<Rightarrow> 'a" where
  "funcutil_Max first values = foldl (\<lambda>m v. if m < v then v else m) first values"

text \<open>\<open>MapReduce\<close>: the methods read the values of the results, in the order of the walks, and change what they have
  captured.\<close>

definition MapReduce ::
  "(string \<times> string) list list \<Rightarrow> (string \<rightharpoonup> (string \<Rightarrow> 's \<Rightarrow> (go_error, 's) outcome)) \<Rightarrow> 's \<Rightarrow> (go_error, 's) outcome" where
  "MapReduce results method s =
     foldO (\<lambda>s result. foldO (\<lambda>s (k, v).
       case method k of None \<Rightarrow> Err (ErrorString (''unknown field '' @ k)) | Some fn \<Rightarrow> fn v s) s result) s results"


section \<open>What a container by key promises\<close>

datatype ('k, 'v) update = Put 'k 'v | Del 'k

fun update_map :: "('k, 'v) update \<Rightarrow> ('k \<rightharpoonup> 'v) \<Rightarrow> ('k \<rightharpoonup> 'v)" where
  "update_map (Put k v) m = m(k \<mapsto> v)"
| "update_map (Del k) m = m(k := None)"

fun update_by :: "('k \<Rightarrow> 'v \<Rightarrow> 's \<Rightarrow> 's) \<Rightarrow> ('k \<Rightarrow> 's \<Rightarrow> 's) \<Rightarrow> ('k, 'v) update \<Rightarrow> 's \<Rightarrow> 's" where
  "update_by put del (Put k v) s = put k v s"
| "update_by put del (Del k) s = del k s"

locale keyed_map =
  fixes lookup :: "'s \<Rightarrow> 'k \<Rightarrow> 'v option"
    and put :: "'k \<Rightarrow> 'v \<Rightarrow> 's \<Rightarrow> 's"
    and del :: "'k \<Rightarrow> 's \<Rightarrow> 's"
    and proper :: "'s \<Rightarrow> bool"
  assumes proper_put: "proper s \<Longrightarrow> proper (put k v s)"
    and proper_del: "proper s \<Longrightarrow> proper (del k s)"
    and lookup_put: "proper s \<Longrightarrow> lookup (put k v s) = (lookup s)(k \<mapsto> v)"
    and lookup_del: "proper s \<Longrightarrow> lookup (del k s) = (lookup s)(k := None)"
begin

lemma update_proper: "proper s \<Longrightarrow> proper (update_by put del u s)"
  by (cases u) (simp_all add: proper_put proper_del)

lemma update_lookup: "proper s \<Longrightarrow> lookup (update_by put del u s) = update_map u (lookup s)"
  by (cases u) (simp_all add: lookup_put lookup_del)

lemma updates_proper: "proper s \<Longrightarrow> proper (fold (update_by put del) us s)"
  by (induction us arbitrary: s) (simp_all add: update_proper)

lemma updates_lookup: "proper s \<Longrightarrow> lookup (fold (update_by put del) us s) = fold update_map us (lookup s)"
  by (induction us arbitrary: s) (simp_all add: update_proper update_lookup)

end

section \<open>The counter of the map\<close>

fun lag :: "('k, 'v) cmap_rest \<Rightarrow> int" where
  "lag Incrementing = 1"
| "lag Decrementing = - 1"
| "lag _ = 0"

lemma sum_update:
  fixes f :: "'a \<Rightarrow> int"
  shows "i < length xs \<Longrightarrow> sum_list (map f (xs[i := x])) = sum_list (map f xs) - f (xs ! i) + f x"
  by (induction xs arbitrary: i) (auto split: nat.splits)

lemma card_dom_update:
  assumes "finite (dom m)"
  shows "card (insert k (dom m)) = card (dom m) + (if m k = None then 1 else 0)"
    and "int (card (dom m - {k})) = int (card (dom m)) - (if m k = None then 0 else 1)"
proof -
  show "card (insert k (dom m)) = card (dom m) + (if m k = None then 1 else 0)"
    using assms by (auto simp: insert_absorb domIff)
  have "card (dom m) > 0" if "m k \<noteq> None" using that assms by (auto simp: card_gt_0_iff)
  then show "int (card (dom m - {k})) = int (card (dom m)) - (if m k = None then 0 else 1)"
    using assms by (auto simp: card_Diff_singleton_if domIff of_nat_diff)
qed

text \<open>The first step of a call changes the number of keys by what the counter then lags behind.\<close>

lemma start_counts:
  assumes "cmap_start c m = (m', rest)" "finite (dom (inner m))"
  shows "finite (dom (inner m')) \<and> len m' = len m \<and> int (card (dom (inner m'))) = int (card (dom (inner m))) + lag rest"
  using assms by (cases c) (auto simp: card_dom_update split: option.splits)

definition counted :: "('k, 'v) cmap_system \<Rightarrow> bool" where
  "counted s \<longleftrightarrow> finite (dom (inner (shared s)))
     \<and> len (shared s) = word_of_int (int (card (dom (inner (shared s)))) - sum_list (map lag (goroutines s)) - int (revived s))"

lemma counted_initial: "counted (cmap_initial n)"
  by (simp add: sum_list_replicate counted_def cmap_initial_def NewConcurrentMap_def)

lemma counted_step:
  assumes "cmap_step s s'" "counted s"
  shows "counted s'"
  using assms(1)
proof cases
  case (starts i c m rest)
  then show ?thesis using start_counts [OF starts(4)] assms(2) by (simp add: counted_def sum_update)
next
  case (counts i rest)
  then show ?thesis using assms(2) by (auto simp: counted_def sum_update algebra_simps)
next
  case (stores i key v)
  then show ?thesis using assms(2) by (auto simp: counted_def sum_update card_dom_update algebra_simps)
qed

lemma counted_run: "cmap_step\<^sup>*\<^sup>* (cmap_initial n) s \<Longrightarrow> counted s"
  by (induction rule: rtranclp_induct) (auto intro: counted_initial counted_step)


definition all_returned :: "('k, 'v) cmap_system \<Rightarrow> bool" where
  "all_returned s \<longleftrightarrow> list_all (\<lambda>rest. rest = Nothing) (goroutines s)"

lemma all_returned_lag: "all_returned s \<Longrightarrow> sum_list (map lag (goroutines s)) = 0"
proof -
  have "list_all (\<lambda>rest. rest = Nothing) rs \<Longrightarrow> sum_list (map lag rs) = 0" for rs :: "('k, 'v) cmap_rest list"
    by (induction rs) auto
  then show "all_returned s \<Longrightarrow> sum_list (map lag (goroutines s)) = 0" by (simp add: all_returned_def)
qed

text \<open>C33: However the calls of several goroutines interleave, when all have returned the counter is the number of keys less
  the number of times that \<open>Insert\<close> stored a key which was removed while it was about to. So \<open>Len\<close> is exact when no
  insertion of a key runs beside its removal.\<close>

theorem ConcurrentMap_Len_counts:
  assumes "cmap_step\<^sup>*\<^sup>* (cmap_initial n) s" and "all_returned s"
  shows "len (shared s) = of_nat (card (dom (inner (shared s)))) - of_nat (revived s)
    \<and> (revived s = 0 \<and> card (dom (inner (shared s))) < 2 ^ 63 \<longrightarrow> CMap_Len (shared s) = int (card (dom (inner (shared s)))))"
proof -
  have "len (shared s) = of_nat (card (dom (inner (shared s)))) - of_nat (revived s)"
    using counted_run [OF assms(1)] all_returned_lag [OF assms(2)] by (simp add: counted_def)
  then show ?thesis by (auto simp: CMap_Len_def signed_of_nat signed_take_bit_int_eq_self)
qed

theorem ConcurrentMap_Len_counts_witness:
  "CMap_Len (shared (\<lparr>shared = \<lparr>inner = [1 \<mapsto> 7], len = 1\<rparr>, goroutines = [Nothing], revived = 0\<rparr> :: (nat, nat) cmap_system)) = 1"
proof -
  let ?s0 = "cmap_initial 1 :: (nat, nat) cmap_system"
  let ?s1 = "\<lparr>shared = \<lparr>inner = [1 \<mapsto> 7], len = 0\<rparr>, goroutines = [Incrementing], revived = 0\<rparr> :: (nat, nat) cmap_system"
  let ?s2 = "\<lparr>shared = \<lparr>inner = [1 \<mapsto> 7], len = 1\<rparr>, goroutines = [Nothing], revived = 0\<rparr> :: (nat, nat) cmap_system"
  have one: "cmap_step ?s0 ?s1"
    using cmap_step.starts [of 0 ?s0 "CallInsert 1 7"] by (simp add: cmap_initial_def NewConcurrentMap_def)
  have two: "cmap_step ?s1 ?s2" using cmap_step.counts [of 0 ?s1 Incrementing] by simp
  have "cmap_step\<^sup>*\<^sup>* ?s0 ?s2" by (rule rtranclp.rtrancl_into_rtrancl [OF r_into_rtranclp [of cmap_step, OF one] two])
  from ConcurrentMap_Len_counts [OF this] show ?thesis by (simp add: all_returned_def)
qed

text \<open>Two goroutines are enough for the counter to be wrong for good: one inserts a key that is there, the other removes it
  in between. Both have returned, the key is in the map, and its length is 0.\<close>

lemma ConcurrentMap_Insert_races:
  "\<exists>s. cmap_step\<^sup>*\<^sup>* (cmap_initial 2 :: (nat, nat) cmap_system) s \<and> all_returned s \<and> CMap_Contain (shared s) 1 \<and> CMap_Len (shared s) = 0"
proof -
  let ?st = "\<lambda>m l gs r. \<lparr>shared = \<lparr>inner = m, len = l\<rparr>, goroutines = gs, revived = r\<rparr> :: (nat, nat) cmap_system"
  note into = rtranclp.rtrancl_into_rtrancl [of cmap_step "?st Map.empty 0 [Nothing, Nothing] 0"]
  have "cmap_step\<^sup>*\<^sup>* (?st Map.empty 0 [Nothing, Nothing] 0) (?st [1 \<mapsto> 7] 0 [Incrementing, Nothing] 0)"
    using cmap_step.starts [of 0 "?st Map.empty 0 [Nothing, Nothing] 0" "CallInsert 1 7"] by (simp add: r_into_rtranclp)
  from into [OF this, of "?st [1 \<mapsto> 7] 1 [Nothing, Nothing] 0"]
  have "cmap_step\<^sup>*\<^sup>* (?st Map.empty 0 [Nothing, Nothing] 0) (?st [1 \<mapsto> 7] 1 [Nothing, Nothing] 0)"
    using cmap_step.counts [of 0 "?st [1 \<mapsto> 7] 0 [Incrementing, Nothing] 0" Incrementing] by simp
  from into [OF this, of "?st [1 \<mapsto> 7] 1 [Storing 1 8, Nothing] 0"]
  have "cmap_step\<^sup>*\<^sup>* (?st Map.empty 0 [Nothing, Nothing] 0) (?st [1 \<mapsto> 7] 1 [Storing 1 8, Nothing] 0)"
    using cmap_step.starts [of 0 "?st [1 \<mapsto> 7] 1 [Nothing, Nothing] 0" "CallInsert 1 8"] by simp
  from into [OF this, of "?st Map.empty 1 [Storing 1 8, Decrementing] 0"]
  have "cmap_step\<^sup>*\<^sup>* (?st Map.empty 0 [Nothing, Nothing] 0) (?st Map.empty 1 [Storing 1 8, Decrementing] 0)"
    using cmap_step.starts [of 1 "?st [1 \<mapsto> 7] 1 [Storing 1 8, Nothing] 0" "CallRemove 1"] by simp
  from into [OF this, of "?st [1 \<mapsto> 8] 1 [Nothing, Decrementing] 1"]
  have "cmap_step\<^sup>*\<^sup>* (?st Map.empty 0 [Nothing, Nothing] 0) (?st [1 \<mapsto> 8] 1 [Nothing, Decrementing] 1)"
    using cmap_step.stores [of 0 "?st Map.empty 1 [Storing 1 8, Decrementing] 0" 1 8] by simp
  from into [OF this, of "?st [1 \<mapsto> 8] 0 [Nothing, Nothing] 1"]
  have "cmap_step\<^sup>*\<^sup>* (?st Map.empty 0 [Nothing, Nothing] 0) (?st [1 \<mapsto> 8] 0 [Nothing, Nothing] 1)"
    using cmap_step.counts [of 1 "?st [1 \<mapsto> 8] 1 [Nothing, Decrementing] 1" Decrementing] by simp
  moreover have "cmap_initial 2 = ?st Map.empty 0 [Nothing, Nothing] 0"
    by (simp add: cmap_initial_def NewConcurrentMap_def numeral_2_eq_2)
  ultimately show ?thesis
    by (intro exI [of _ "?st [1 \<mapsto> 8] 0 [Nothing, Nothing] 1"])
      (simp add: all_returned_def CMap_Contain_def CMap_Get_def CMap_Len_def)
qed


section \<open>One goroutine: a map by key\<close>

lemma start_storing: "cmap_start c m = (m', Storing k v) \<Longrightarrow> m' = m \<and> inner m k \<noteq> None"
  by (cases c) (auto split: option.splits)

definition exact :: "('k, 'v) ConcurrentMap \<Rightarrow> bool" where
  "exact m \<longleftrightarrow> finite (dom (inner m)) \<and> len m = word_of_int (int (card (dom (inner m))))"

lemma exact_whole:
  assumes "exact m"
  shows "exact (whole c m)"
proof -
  obtain m' rest where cmap_start: "cmap_start c m = (m', rest)" by fastforce
  note counts = start_counts [OF cmap_start]
  show ?thesis
    using assms counts start_storing [of c m m']
    by (cases rest) (auto simp: cmap_start exact_def whole_def card_dom_update)
qed

lemma CMap_lookups:
  "CMap_Get (CMap_Insert k v m) = (CMap_Get m)(k \<mapsto> v)"
  "CMap_Get (CMap_Remove k m) = (CMap_Get m)(k := None)"
  "CMap_Get (snd (CMap_GetAndRemove k m)) = (CMap_Get m)(k := None)"
  "fst (CMap_GetAndRemove k m) = CMap_Get m k"
  "CMap_Get (snd (CMap_GetOrInsert k v m)) = (case CMap_Get m k of None \<Rightarrow> (CMap_Get m)(k \<mapsto> v) | Some _ \<Rightarrow> CMap_Get m)"
  by (auto simp: CMap_Get_def CMap_Insert_def CMap_Remove_def CMap_GetAndRemove_def CMap_GetOrInsert_def whole_def fun_eq_iff
      split: option.splits)

interpretation cmap: keyed_map CMap_Get CMap_Insert CMap_Remove exact
  by unfold_locales (simp_all add: CMap_lookups, simp_all add: exact_whole CMap_Insert_def CMap_Remove_def)

lemma finite_updates: "finite (dom m) \<Longrightarrow> finite (dom (fold update_map us m)) \<and> card (dom (fold update_map us m)) \<le> card (dom m) + length us"
proof (induction us arbitrary: m)
  case (Cons u us)
  have "finite (dom (update_map u m)) \<and> card (dom (update_map u m)) \<le> Suc (card (dom m))"
    using Cons.prems by (cases u) (auto simp: card_insert_if card_Diff1_le le_SucI)
  then show ?case using Cons.IH [of "update_map u m"] by simp
qed simp

text \<open>For one goroutine \<open>ConcurrentMap\<close> is a map with its size: after any sequence of insertions and removals, fewer
  than 2 to the 63, a look-up gives what the last update of the key left, and \<open>Len\<close> the number of keys.\<close>

theorem ConcurrentMap_is_map:
  assumes "length us < 2 ^ 63"
  shows "let m = fold (update_by CMap_Insert CMap_Remove) us NewConcurrentMap; spec = fold update_map us Map.empty
         in CMap_Get m = spec \<and> CMap_Contain m key = (key \<in> dom spec) \<and> CMap_Len m = int (card (dom spec))"
proof -
  let ?m = "fold (update_by CMap_Insert CMap_Remove) us NewConcurrentMap"
  have new: "exact NewConcurrentMap" "CMap_Get NewConcurrentMap = Map.empty"
    by (simp_all add: exact_def NewConcurrentMap_def CMap_Get_def fun_eq_iff)
  have spec: "CMap_Get ?m = fold update_map us Map.empty" using cmap.updates_lookup [OF new(1), of us] by (simp add: new(2))
  then have inner: "inner ?m = fold update_map us Map.empty" by (simp add: CMap_Get_def fun_eq_iff)
  have "card (dom (inner ?m)) < 2 ^ 63" using finite_updates [of Map.empty us] assms by (simp add: inner)
  then have "CMap_Len ?m = int (card (dom (inner ?m)))"
    using cmap.updates_proper [OF new(1), of us]
    by (simp add: CMap_Len_def exact_def signed_of_nat signed_take_bit_int_eq_self)
  then show ?thesis by (auto simp: Let_def spec inner CMap_Contain_def)
qed

theorem ConcurrentMap_is_map_witness:
  "CMap_Len (fold (update_by CMap_Insert CMap_Remove) [Put 1 ''a'', Put 2 ''b'', Put 1 ''c'', Del (2 :: nat)] NewConcurrentMap) = 1"
  using ConcurrentMap_is_map [of "[Put 1 ''a'', Put 2 ''b'', Put 1 ''c'', Del (2 :: nat)]"] by (simp add: Let_def)

section \<open>The order of the keys\<close>

lemma cut_key_remove1: "cut_key i key keys = take i keys @ remove1 key (drop i keys)"
proof (induction i key keys rule: cut_key.induct)
  case (1 i key keys)
  show ?case
  proof (cases "i < length keys")
    case True
    then have "drop i keys = keys ! i # drop (Suc i) keys" by (simp add: Cons_nth_drop_Suc)
    then show ?thesis using 1 True by (subst cut_key.simps) (simp add: take_Suc_conv_app_nth)
  next
    case False
    then show ?thesis by (subst cut_key.simps) simp
  qed
qed

text \<open>The entries in their order; an update in place keeps the position, a new key comes last.\<close>

fun put_entry :: "'k \<Rightarrow> 'v \<Rightarrow> ('k \<times> 'v) list \<Rightarrow> ('k \<times> 'v) list" where
  "put_entry k v [] = [(k, v)]"
| "put_entry k v ((k', v') # es) = (if k' = k then (k, v) # es else (k', v') # put_entry k v es)"

definition entries :: "('k, 'v) OrderedMap \<Rightarrow> ('k \<times> 'v) list" where
  "entries m = map (\<lambda>k. (k, the (om_values m k))) (om_keys m)"

definition ordered :: "('k, 'v) OrderedMap \<Rightarrow> bool" where
  "ordered m \<longleftrightarrow> distinct (om_keys m) \<and> set (om_keys m) = dom (om_values m)"

lemma ordered_steps:
  "ordered m \<Longrightarrow> ordered (OMap_Set k v m)" "ordered m \<Longrightarrow> ordered (OMap_Delete k m)"
  by (auto simp: ordered_def OMap_Set_def OMap_Delete_def cut_key_remove1 Let_def domIff)

interpretation omap: keyed_map OMap_Get OMap_Set OMap_Delete ordered
  by unfold_locales (simp_all add: ordered_steps, auto simp: OMap_Get_def OMap_Set_def OMap_Delete_def Let_def fun_eq_iff)


definition delete_entry :: "'k \<Rightarrow> ('k \<times> 'v) list \<Rightarrow> ('k \<times> 'v) list" where
  "delete_entry k es = filter (\<lambda>(k', _). k' \<noteq> k) es"

lemma put_entry_map:
  assumes "distinct keys"
  shows "map (\<lambda>j. (j, the ((vs(k \<mapsto> v)) j))) (if k \<in> set keys then keys else keys @ [k])
    = put_entry k v (map (\<lambda>j. (j, the (vs j))) keys)"
proof (cases "k \<in> set keys")
  case True
  then show ?thesis using assms by (induction keys) (auto intro: map_cong)
next
  case False
  then show ?thesis by (induction keys) auto
qed

lemma entries_steps:
  assumes "ordered m"
  shows "entries (OMap_Set k v m) = put_entry k v (entries m)"
    "entries (OMap_Delete k m) = delete_entry k (entries m)"
proof -
  have keys: "distinct (om_keys m)" "set (om_keys m) = dom (om_values m)" using assms by (simp_all add: ordered_def)
  have "om_keys (OMap_Set k v m) = (if k \<in> set (om_keys m) then om_keys m else om_keys m @ [k])"
    "om_values (OMap_Set k v m) = (om_values m)(k \<mapsto> v)"
    by (auto simp: OMap_Set_def Let_def keys(2))
  then show "entries (OMap_Set k v m) = put_entry k v (entries m)"
    using put_entry_map [OF keys(1)] by (simp only: entries_def)
  have gone: "filter (\<lambda>j. j \<noteq> k) (om_keys m) = om_keys m" if "om_values m k = None"
    using that keys(2) by (auto simp: filter_id_conv)
  show "entries (OMap_Delete k m) = delete_entry k (entries m)"
    using keys(1) gone
    by (auto simp: entries_def OMap_Delete_def delete_entry_def cut_key_remove1 distinct_remove1_removeAll removeAll_filter_not_eq
        filter_map comp_def neq_commute)
qed

fun update_entries :: "('k, 'v) update \<Rightarrow> ('k \<times> 'v) list \<Rightarrow> ('k \<times> 'v) list" where
  "update_entries (Put k v) es = put_entry k v es"
| "update_entries (Del k) es = delete_entry k es"

lemma entries_updates:
  "ordered m \<Longrightarrow> entries (fold (update_by OMap_Set OMap_Delete) us m) = fold update_entries us (entries m)"
proof (induction us arbitrary: m)
  case (Cons u us)
  then show ?case using omap.update_proper [of m u] by (cases u) (simp_all add: entries_steps)
qed simp

text \<open>C34: \<open>OrderedMap\<close> is an association list in the order in which the keys came: after any sequence of \<open>Set\<close> and \<open>Delete\<close>
  a look-up gives what the last update left, and \<open>Keys\<close> the keys, each once: an update keeps the position of its key, a
  key that was deleted and set again comes last.\<close>

theorem OrderedMap_is_list:
  "let m = fold (update_by OMap_Set OMap_Delete) us NewOrderedMap; spec = fold update_entries us []
   in OMap_Get m = fold update_map us Map.empty \<and> OMap_Get m = map_of spec \<and> OMap_Keys m = map fst spec \<and> distinct (OMap_Keys m)"
proof -
  let ?m = "fold (update_by OMap_Set OMap_Delete) us NewOrderedMap"
  have new: "ordered NewOrderedMap" "entries NewOrderedMap = []" "OMap_Get NewOrderedMap = Map.empty"
    by (simp_all add: ordered_def NewOrderedMap_def entries_def OMap_Get_def fun_eq_iff)
  have proper: "ordered ?m" by (rule omap.updates_proper [OF new(1)])
  have lookup: "OMap_Get ?m = fold update_map us Map.empty" using omap.updates_lookup [OF new(1), of us] by (simp add: new(3))
  have spec: "entries ?m = fold update_entries us []" using entries_updates [OF new(1), of us] by (simp add: new(2))
  have "map_of (entries ?m) = OMap_Get ?m"
    using proper by (auto simp: entries_def ordered_def OMap_Get_def map_of_map_restrict restrict_map_def fun_eq_iff domIff split: option.splits)
  moreover have "map fst (entries ?m) = OMap_Keys ?m" by (simp add: entries_def OMap_Keys_def comp_def)
  ultimately show ?thesis using proper by (simp add: Let_def lookup spec [symmetric] ordered_def OMap_Keys_def)
qed

lemma OMap_SortKeys_lookup:
  assumes "ordered m" "mset (sortFunc (om_keys m)) = mset (om_keys m)"
  shows "ordered (OMap_SortKeys sortFunc m) \<and> OMap_Get (OMap_SortKeys sortFunc m) = OMap_Get m"
  using assms(1) mset_eq_imp_distinct_iff [OF assms(2)] mset_eq_setD [OF assms(2)]
  by (simp add: ordered_def OMap_SortKeys_def OMap_Get_def fun_eq_iff)

section \<open>Comparing\<close>

lemma CSet_Collect_eq [simp]: "CSet_Collect walk = walk"
proof -
  have "CMap_Range (\<lambda>key _ elements. (elements @ [key], True)) (map (\<lambda>key. (key, ())) walk) xs = xs @ walk" for xs
    by (induction walk arbitrary: xs) auto
  then show ?thesis by (simp add: CSet_Collect_def)
qed

lemma MapEqual_iff:
  assumes "walks walk left" "finite (dom right)"
  shows "MapEqual walk left right \<longleftrightarrow> left = right"
proof -
  have left: "finite (dom left)" "\<And>k v. (k, v) \<in> set walk \<longleftrightarrow> left k = Some v"
    using assms(1) by (auto simp: walks_def finite_dom_map_of)
  have "left = right" if "\<And>k v. left k = Some v \<Longrightarrow> right k = Some v" "card (dom left) = card (dom right)"
  proof -
    have "dom left \<subseteq> dom right" using that(1) by auto
    then have "dom left = dom right" using card_subset_eq [OF assms(2)] that(2) by blast
    then show ?thesis using that(1) by (metis domIff ext not_None_eq)
  qed
  moreover have "MapEqual walk left right \<longleftrightarrow> card (dom left) = card (dom right) \<and> (\<forall>k v. left k = Some v \<longrightarrow> right k = Some v)"
    by (auto simp: MapEqual_def list_all_iff left(2))
  ultimately show ?thesis by blast
qed

lemma SliceSetEqual_iff: "SliceSetEqual s1 s2 \<longleftrightarrow> length s1 = length s2 \<and> set s2 \<subseteq> set s1"
  by (auto simp: SliceSetEqual_def list_all_iff)

lemma SliceSetEqual_one_way:
  "distinct s2 \<Longrightarrow> SliceSetEqual s1 s2 \<longleftrightarrow> mset s1 = mset s2"
  "SliceSetEqual [a, b] [a, a]" "a \<noteq> b \<Longrightarrow> \<not> SliceSetEqual [a, a] [a, b]"
proof -
  assume d: "distinct s2"
  have "mset s1 = mset s2" if "length s1 = length s2" "set s2 \<subseteq> set s1"
  proof -
    have "card (set s1) \<le> card (set s2)" using d that(1) card_length [of s1] by (simp add: distinct_card)
    then have eq: "set s2 = set s1" using that(2) by (simp add: card_seteq)
    then have "distinct s1" using d that(1) by (metis card_distinct distinct_card)
    then show ?thesis using set_eq_iff_mset_eq_distinct [of s1 s2] d eq by simp
  qed
  then show "SliceSetEqual s1 s2 \<longleftrightarrow> mset s1 = mset s2"
    by (auto simp: SliceSetEqual_iff dest: mset_eq_length mset_eq_setD)
qed (auto simp: SliceSetEqual_iff)

lemma SortedSliceEqual_iff: "SortedSliceEqual s1 s2 \<longleftrightarrow> s1 = s2"
  using nth_equalityI [of s1 s2] by (auto simp: SortedSliceEqual_def list_all_iff)

lemma SetContain_iff:
  assumes "is_walk walk2 m2" "finite m1"
  shows "SetContain walk2 m1 m2 \<longleftrightarrow> m2 \<subseteq> m1"
  using assms card_mono [of m1 m2] by (auto simp: SetContain_def is_walk_def list_all_iff)

lemma Min_Max_eq:
  "funcutil_Min x xs = Min (set (x # xs))" "funcutil_Max x xs = Max (set (x # xs))"
proof -
  show "funcutil_Min x xs = Min (set (x # xs))"
    unfolding funcutil_Min_def
  proof (induction xs rule: rev_induct)
    case (snoc a xs)
    have "Min (set (x # xs @ [a])) = min a (Min (set (x # xs)))"
      by (subst Min_insert [symmetric]) (simp_all add: insert_commute)
    then show ?case unfolding foldl_append snoc by (auto simp only: foldl.simps min_def split: if_splits)
  qed simp
  show "funcutil_Max x xs = Max (set (x # xs))"
    unfolding funcutil_Max_def
  proof (induction xs rule: rev_induct)
    case (snoc a xs)
    have "Max (set (x # xs @ [a])) = max a (Max (set (x # xs)))"
      by (subst Max_insert [symmetric]) (simp_all add: insert_commute)
    then show ?case unfolding foldl_append snoc by (auto simp only: foldl.simps max_def split: if_splits)
  qed simp
qed


lemma NewKvPairs_distinct: "distinct (map fst p) \<Longrightarrow> NewKvPairs p k = Some v \<longleftrightarrow> (k, v) \<in> set p"
  using map_of_eq_Some_iff [of "rev p" k v] by (simp add: NewKvPairs_eq rev_map [symmetric])

lemma map_le_pairs: "m \<subseteq>\<^sub>m m' \<longleftrightarrow> (\<forall>k v. m k = Some v \<longrightarrow> m' k = Some v)"
  by (force simp: map_le_def)

lemma same_pairs:
  assumes "distinct (map fst p1)" "length p1 = length p2" "set p1 \<subseteq> set p2"
  shows "set p1 = set p2"
proof -
  have "card (set p1) = length p1" using assms(1) by (simp add: distinct_card distinct_map)
  then show ?thesis using assms(2,3) card_length [of p2] by (simp add: card_seteq)
qed

text \<open>Comparing index parameters compares the lists up to order when no list repeats a key; in general it only tells that
  every parameter of the first list is one of the second, so the answer can depend on the order of the arguments.\<close>

theorem CompareIndexParams_one_way:
  assumes "walks walk (NewKvPairs p1)"
  shows "(CompareIndexParams walk (Some p1) (Some p2) \<longleftrightarrow> length p1 = length p2 \<and> NewKvPairs p1 \<subseteq>\<^sub>m NewKvPairs p2)
    \<and> (distinct (map fst p1) \<and> distinct (map fst p2) \<longrightarrow> CompareIndexParams walk (Some p1) (Some p2) = (mset p1 = mset p2))"
proof -
  have pairs: "(k, v) \<in> set walk \<longleftrightarrow> NewKvPairs p1 k = Some v" for k v
    using assms map_of_eq_Some_iff [of walk k v] by (simp add: walks_def)
  have compare: "CompareIndexParams walk (Some p1) (Some p2) \<longleftrightarrow> length p1 = length p2 \<and> NewKvPairs p1 \<subseteq>\<^sub>m NewKvPairs p2"
  proof -
    have "list_all (\<lambda>(k, v). NewKvPairs p2 k = Some v) walk \<longleftrightarrow> (\<forall>k v. NewKvPairs p1 k = Some v \<longrightarrow> NewKvPairs p2 k = Some v)"
      unfolding list_all_iff pairs [symmetric] by blast
    then show ?thesis by (simp add: CompareIndexParams_def map_le_pairs)
  qed
  have "CompareIndexParams walk (Some p1) (Some p2) = (mset p1 = mset p2)"
    if d: "distinct (map fst p1)" "distinct (map fst p2)"
  proof -
    have "NewKvPairs p1 \<subseteq>\<^sub>m NewKvPairs p2 \<longleftrightarrow> set p1 \<subseteq> set p2"
      unfolding map_le_pairs NewKvPairs_distinct [OF d(1)] NewKvPairs_distinct [OF d(2)] by auto
    moreover have "mset p1 = mset p2 \<longleftrightarrow> set p1 = set p2"
      using set_eq_iff_mset_eq_distinct [of p1 p2] d by (simp add: distinct_map)
    ultimately show ?thesis using compare same_pairs [OF d(1)] by (auto dest: mset_eq_length)
  qed
  then show ?thesis using compare by blast
qed

theorem CompareIndexParams_one_way_witness:
  "CompareIndexParams [(''a'', ''1'')] (Some [(''a'', ''1''), (''a'', ''1'')]) (Some [(''a'', ''1''), (''b'', ''2'')])
   \<and> \<not> CompareIndexParams [(''a'', ''1''), (''b'', ''2'')] (Some [(''a'', ''1''), (''b'', ''2'')]) (Some [(''a'', ''1''), (''a'', ''1'')])"
  using CompareIndexParams_one_way [of "[(''a'', ''1'')]" "[(''a'', ''1''), (''a'', ''1'')]" "[(''a'', ''1''), (''b'', ''2'')]"]
    CompareIndexParams_one_way [of "[(''a'', ''1''), (''b'', ''2'')]" "[(''a'', ''1''), (''b'', ''2'')]" "[(''a'', ''1''), (''a'', ''1'')]"]
  by (simp add: walks_def NewKvPairs_def map_le_def fun_upd_twist)

lemma MergeMap_eq:
  assumes "walks walk src"
  shows "MergeMap walk dst = dst ++ src"
proof -
  have "foldl (\<lambda>m (k, v). m(k \<mapsto> v)) dst walk = dst ++ map_of walk" if "distinct (map fst walk)"
    using that
  proof (induction walk arbitrary: dst)
    case (Cons p walk)
    obtain k v where p: "p = (k, v)" by fastforce
    then have "map_of walk k = None" using Cons.prems by (simp add: map_of_eq_None_iff)
    then show ?case using Cons by (auto simp: p map_add_def fun_eq_iff split: option.splits)
  qed simp
  then show ?thesis using assms by (simp add: MergeMap_def walks_def)
qed

lemma GetMapKeys_eq: "GetMapKeys walk = map fst walk"
proof -
  have "foldl (\<lambda>keys (k, v). keys @ [k]) xs walk = xs @ map fst walk" for xs
    by (induction walk arbitrary: xs) auto
  then show ?thesis by (simp add: GetMapKeys_def)
qed

text \<open>A result with a field that has no method is an error, unless a method has failed before.\<close>

lemma MapReduce_unknown:
  assumes "\<And>k v. (k, v) \<in> set (concat results) \<Longrightarrow> \<exists>fn. method k = Some fn \<and> (\<forall>s. \<exists>s'. fn v s = Ok s')"
  shows "\<exists>s'. MapReduce results method s = Ok s'"
    and "method k = None \<Longrightarrow> MapReduce (results @ [[(k, v)]]) method s = Err (ErrorString (''unknown field '' @ k))"
proof -
  let ?f = "\<lambda>s (k, v). case method k of None \<Rightarrow> Err (ErrorString (''unknown field '' @ k)) | Some fn \<Rightarrow> fn v s"
  have one: "\<exists>s'. foldO ?f s result = Ok s'" if "set result \<subseteq> set (concat results)" for s result
    using that
  proof (induction result arbitrary: s)
    case (Cons p result)
    obtain k v where p: "p = (k, v)" by fastforce
    with Cons.prems have "(k, v) \<in> set (concat results)" by simp
    from assms [OF this] obtain fn s1 where "method k = Some fn" "fn v s = Ok s1" by blast
    then have "?f s p = Ok s1" by (simp add: p)
    then show ?case using Cons by simp
  qed simp
  have all: "\<exists>s'. foldO (\<lambda>s result. foldO ?f s result) s rs = Ok s'" if "set rs \<subseteq> set results" for s rs
    using that
  proof (induction rs arbitrary: s)
    case (Cons result rs)
    then have "set result \<subseteq> set (concat results)" by auto
    then obtain s1 where "foldO ?f s result = Ok s1" using one by blast
    then show ?case using Cons by simp
  qed simp
  from all [OF subset_refl] show "\<exists>s'. MapReduce results method s = Ok s'" by (simp add: MapReduce_def)
  then obtain s' where "foldO (\<lambda>s result. foldO ?f s result) s results = Ok s'" by (auto simp: MapReduce_def)
  then show "MapReduce (results @ [[(k, v)]]) method s = Err (ErrorString (''unknown field '' @ k))" if "method k = None"
    using that by (simp add: MapReduce_def foldO_append)
qed

end
