(* ===== verification/Encodings.thy ===== *)
theory Encodings
  imports FieldData Schema MerrWrap Strconv
begin

text \<open>
  Bytes: the conversions of pkg/util/typeutil/convension.go and time.go, the hashes of hash.go, string\_util.go, the
  placeholders of pkg/util/funcutil/placeholdergroup.go and the limits of pkg/util/parameterutil.

  A 32-bit float is the word of its bits, as elsewhere. \<open>murmur\<close>, the hash of a third-party package, is a parameter;
  CRC-32 is that of the standard library.
\<close>

unbundle bit_operations_syntax

section \<open>Words as bytes\<close>

definition le_bytes :: "nat \<Rightarrow> 'a::len word \<Rightarrow> bytes" where
  "le_bytes n v = map (\<lambda>i. ucast (drop_bit (8 * i) v)) [0..<n]"

fun le_word :: "bytes \<Rightarrow> 'a::len word" where
  "le_word [] = 0"
| "le_word (b # bs) = ucast b OR push_bit 8 (le_word bs)"

definition LittleEndian_Uint32 :: "bytes \<Rightarrow> ('e, uint32) outcome" where
  "LittleEndian_Uint32 b = (if length b < 4 then Panic ''index out of range'' else Ok (le_word (take 4 b)))"

definition Float32ToBytes :: "uint32 \<Rightarrow> bytes" where
  "Float32ToBytes bits = le_bytes 4 bits"

definition BytesToFloat32 :: "bytes \<Rightarrow> (go_error, uint32) outcome" where
  "BytesToFloat32 b = LittleEndian_Uint32 b"

definition wrong_length :: "string \<Rightarrow> bytes \<Rightarrow> go_error" where
  "wrong_length start b =
     ErrorString (start @ '': invalid data, must 8 bytes, but '' @ string_of_nat (length b))"

definition BytesToInt64 :: "bytes \<Rightarrow> (go_error, int) outcome" where
  "BytesToInt64 b = (if length b \<noteq> 8 then Err (wrong_length ''failed to convert []byte to int64'' b) else Ok (sint (le_word b :: uint64)))"

definition Int64ToBytes :: "int \<Rightarrow> bytes" where
  "Int64ToBytes v = le_bytes 8 (word_of_int v :: uint64)"

definition BigEndianBytesToUint64 :: "bytes \<Rightarrow> (go_error, uint64) outcome" where
  "BigEndianBytesToUint64 b = (if length b \<noteq> 8 then Err (wrong_length ''failed to convert []byte to uint64'' b) else Ok (le_word (rev b)))"

definition Uint64ToBytesBigEndian :: "uint64 \<Rightarrow> bytes" where
  "Uint64ToBytesBigEndian v = rev (le_bytes 8 v)"

definition BytesToUint64 :: "bytes \<Rightarrow> (go_error, uint64) outcome" where
  "BytesToUint64 b = (if length b \<noteq> 8 then Err (wrong_length ''Failed to convert []byte to uint64'' b) else Ok (le_word b))"

definition Uint64ToBytes :: "uint64 \<Rightarrow> bytes" where
  "Uint64ToBytes v = le_bytes 8 v"

text \<open>A time is its nanoseconds since the epoch.\<close>

definition ParseTimestamp :: "bytes \<Rightarrow> (go_error, int) outcome" where
  "ParseTimestamp data = bindO (BigEndianBytesToUint64 data) (\<lambda>nano. Ok (sint nano))"

definition SubTimeByWallClock :: "int \<Rightarrow> int \<Rightarrow> int" where
  "SubTimeByWallClock after before = sint (word_of_int after - word_of_int before :: uint64)"

fun SliceRemoveDuplicate :: "'a option \<Rightarrow> 'a list \<Rightarrow> 'a list" where
  "SliceRemoveDuplicate previous [] = []"
| "SliceRemoveDuplicate previous (x # xs) =
     (if previous = Some x then SliceRemoveDuplicate (Some x) xs else x # SliceRemoveDuplicate (Some x) xs)"

section \<open>Strings as bytes\<close>

text \<open>\<open>AddOne\<close>.\<close>

definition AddOne :: "bytes \<Rightarrow> bytes" where
  "AddOne datab =
     (if datab = [] then datab
      else if last datab \<noteq> 255 then butlast datab @ [last datab + 1]
      else datab @ [0])"

text \<open>\<open>strings.LastIndex\<close> and \<open>strings.Split\<close> with a separator of any length; the empty separator splits into
  characters.\<close>

fun last_index_of :: "string \<Rightarrow> string \<Rightarrow> nat option" where
  "last_index_of [] sub = (if sub = [] then Some 0 else None)"
| "last_index_of (c # s) sub =
     (case last_index_of s sub of Some i \<Rightarrow> Some (Suc i) | None \<Rightarrow> if is_prefix_of sub (c # s) then Some 0 else None)"

definition After :: "string \<Rightarrow> string \<Rightarrow> string" where
  "After str sub =
     (case last_index_of str sub of
        None \<Rightarrow> []
      | Some pos \<Rightarrow> (let adjustedPos = pos + length sub in if adjustedPos \<ge> length str then [] else drop adjustedPos str))"

fun split_at_sep :: "string \<Rightarrow> string \<Rightarrow> (string \<times> string) option" where
  "split_at_sep [] sep = None"
| "split_at_sep (c # s) sep =
     (if is_prefix_of sep (c # s) then Some ([], drop (length sep) (c # s))
      else map_option (\<lambda>(a, b). (c # a, b)) (split_at_sep s sep))"

lemma split_at_sep_shorter: "split_at_sep s sep = Some (a, b) \<Longrightarrow> sep \<noteq> [] \<Longrightarrow> length b < length s"
proof (induction s arbitrary: a)
  case (Cons c s)
  obtain d sep' where "sep = d # sep'" using Cons.prems(2) by (cases sep) simp_all
  then show ?case using Cons by (fastforce split: if_splits)
qed simp

function Split_str :: "string \<Rightarrow> string \<Rightarrow> string list" where
  "Split_str s sep =
     (if sep = [] then map (\<lambda>c. [c]) s
      else case split_at_sep s sep of None \<Rightarrow> [s] | Some (a, b) \<Rightarrow> a # Split_str b sep)"
  by pat_completeness auto

termination by (relation "measure (\<lambda>(s, sep). length s)") (auto simp: split_at_sep_shorter)

declare Split_str.simps [simp del]

definition AfterN :: "string \<Rightarrow> string \<Rightarrow> string \<Rightarrow> string list" where
  "AfterN str sub sep = Split_str (After str sub) sep"

section \<open>Hashes\<close>

definition crc_bit :: "uint32 \<Rightarrow> uint32" where
  "crc_bit c = (if bit c 0 then drop_bit 1 c XOR 0xEDB88320 else drop_bit 1 c)"

definition crc_byte :: "byte \<Rightarrow> uint32 \<Rightarrow> uint32" where
  "crc_byte b c = (crc_bit ^^ 8) (c XOR ucast b)"

definition ChecksumIEEE :: "bytes \<Rightarrow> uint32" where
  "ChecksumIEEE bs = NOT (fold crc_byte bs 0xFFFFFFFF)"

definition string_bytes :: "string \<Rightarrow> bytes" where
  "string_bytes s = map of_char s"

definition substringLengthForCRC :: nat where
  "substringLengthForCRC = 100"

definition HashString2Uint32 :: "string \<Rightarrow> uint32" where
  "HashString2Uint32 v =
     (let subString = (if length v > substringLengthForCRC then take substringLengthForCRC v else v)
      in ChecksumIEEE (string_bytes subString))"

definition Hash32Bytes :: "(bytes \<Rightarrow> uint32) \<Rightarrow> bytes \<Rightarrow> uint32" where
  "Hash32Bytes murmur b = murmur b AND 0x7fffffff"

definition Hash32Uint64 :: "(bytes \<Rightarrow> uint32) \<Rightarrow> uint64 \<Rightarrow> uint32" where
  "Hash32Uint64 murmur v = Hash32Bytes murmur (le_bytes 8 v)"

definition Hash32Int64 :: "(bytes \<Rightarrow> uint32) \<Rightarrow> int \<Rightarrow> uint32" where
  "Hash32Int64 murmur v = Hash32Uint64 murmur (word_of_int v)"

definition Hash32String :: "(bytes \<Rightarrow> uint32) \<Rightarrow> string \<Rightarrow> int" where
  "Hash32String murmur s = int (unat (Hash32Bytes murmur (string_bytes s)))"

text \<open>A remainder; the divisor 0 panics.\<close>

definition go_mod :: "uint32 \<Rightarrow> uint32 \<Rightarrow> ('e, uint32) outcome" where
  "go_mod a b = (if b = 0 then Panic ''integer divide by zero'' else Ok (a mod b))"

definition hash_all :: "('k \<Rightarrow> uint32) \<Rightarrow> uint32 \<Rightarrow> 'k list \<Rightarrow> (go_error, uint32 list) outcome" where
  "hash_all hash n keys = foldO (\<lambda>hashValues key. bindO (go_mod (hash key) n) (\<lambda>v. Ok (hashValues @ [v]))) [] keys"

definition HashPK2Channels :: "(bytes \<Rightarrow> uint32) \<Rightarrow> IDs \<Rightarrow> string list \<Rightarrow> (go_error, uint32 list) outcome" where
  "HashPK2Channels murmur primaryKeys shardNames =
     (let numShard = of_nat (length shardNames)
      in case primaryKeys of
           IntId pks \<Rightarrow> hash_all (Hash32Int64 murmur) numShard pks
         | StrId pks \<Rightarrow> hash_all HashString2Uint32 numShard pks
         | IDs_None \<Rightarrow> Ok [])"

definition HashKey2Partitions :: "(bytes \<Rightarrow> uint32) \<Rightarrow> FieldData \<Rightarrow> string list \<Rightarrow> (go_error, uint32 list) outcome" where
  "HashKey2Partitions murmur keys partitionNames =
     (let numPartitions = of_nat (length partitionNames)
      in case fd_Field keys of
           Scalars (LongData longKeys) \<Rightarrow> hash_all (Hash32Int64 murmur) numPartitions longKeys
         | Scalars (StringData stringKeys) \<Rightarrow> hash_all HashString2Uint32 numPartitions stringKeys
         | Scalars _ \<Rightarrow> Err (ErrorString ''currently only support DataType Int64 or VarChar as partition key Field'')
         | _ \<Rightarrow> Err (ErrorString ''currently not support vector field as partition keys''))"

text \<open>\<open>walk\<close> is the order in which the map of partitions is walked.\<close>

definition rearrange_one ::
  "nat \<Rightarrow> string list \<times> int list \<Rightarrow> string \<times> int \<Rightarrow> (go_error, string list \<times> int list) outcome" where
  "rearrange_one n = (\<lambda>(names, ids) (partitionName, partitionID).
     let splits = strings_Split partitionName (CHR ''_'')
     in if length splits < 2
        then Err (ErrorString (''bad default partion name in partition key mode: '' @ partitionName))
        else case ParseInt (last splits) of
               None \<Rightarrow> Err (ErrorString ''strconv.ParseInt'')
             | Some index \<Rightarrow>
                 if index \<ge> int n \<or> index < 0
                 then Err (ErrorString (''illegal partition index in partition key mode: '' @ partitionName))
                 else Ok (names[nat index := partitionName], ids[nat index := partitionID]))"

definition RearrangePartitionsForPartitionKey ::
  "(string \<times> int) list \<Rightarrow> (go_error, string list \<times> int list) outcome" where
  "RearrangePartitionsForPartitionKey walk =
     foldO (rearrange_one (length walk)) (replicate (length walk) [], replicate (length walk) 0) walk"

section \<open>Placeholders\<close>

text \<open>The loop that cuts a flat vector: it does not end when the dimension is 0. A slice expression is bounded by the
  capacity: \<open>spare\<close> is what the array behind the slice holds beyond its length.\<close>

partial_function (option) cut_vectors ::
  "'a list \<Rightarrow> 'a list \<Rightarrow> int \<Rightarrow> int \<Rightarrow> 'a list list \<Rightarrow> (go_error, 'a list list) outcome option" where
  "cut_vectors flattenedVectors spare dimension i result =
     (if i < int (length flattenedVectors)
      then case go_slice (flattenedVectors @ spare) i (i + dimension) of
             Ok v \<Rightarrow> cut_vectors flattenedVectors spare dimension (i + dimension) (result @ [v])
           | Err e \<Rightarrow> Some (Err e)
           | Panic p \<Rightarrow> Some (Panic p)
      else Some (Ok result))"

definition floatVectorToByteVector :: "uint32 list \<Rightarrow> bytes" where
  "floatVectorToByteVector vector = foldl (\<lambda>data f. data @ le_bytes 4 f) [] vector"

definition flattenedFloatVectorsToByteVectors ::
  "uint32 list \<Rightarrow> uint32 list \<Rightarrow> int \<Rightarrow> (go_error, bytes list) outcome option" where
  "flattenedFloatVectorsToByteVectors flattenedVectors spare dimension =
     map_option (\<lambda>r. bindO r (\<lambda>vs. Ok (map floatVectorToByteVector vs))) (cut_vectors flattenedVectors spare dimension 0 [])"

definition flattenedByteVectorsToByteVectors :: "bytes \<Rightarrow> bytes \<Rightarrow> int \<Rightarrow> (go_error, bytes list) outcome option" where
  "flattenedByteVectorsToByteVectors flattenedVectors spare dimension = cut_vectors flattenedVectors spare dimension 0 []"

datatype PlaceholderType = PT_FloatVector | PT_BinaryVector

record PlaceholderValue =
  pv_Tag :: string
  pv_Type :: PlaceholderType
  Values :: "bytes list"

text \<open>The type of the field decides; \<open>None\<close> when it does not return. \<open>fspare\<close> and \<open>bspare\<close> are the spare elements behind the
  data of a float and of a binary vector.\<close>

definition fieldDataToPlaceholderValue ::
  "uint32 list \<Rightarrow> bytes \<Rightarrow> DataType \<Rightarrow> Field \<Rightarrow> (go_error, PlaceholderValue) outcome option" where
  "fieldDataToPlaceholderValue fspare bspare t field =
     (case t of
        DT_FloatVector \<Rightarrow>
          (case field of
             Vectors dim (FloatVector data) \<Rightarrow>
               map_option (\<lambda>r. bindO r (\<lambda>vs. Ok \<lparr>pv_Tag = ''$0'', pv_Type = PT_FloatVector, Values = vs\<rparr>))
                 (flattenedFloatVectorsToByteVectors data fspare dim)
           | _ \<Rightarrow> Some (Err (ErrorString ''vector data is not schemapb.VectorField_FloatVector'')))
      | DT_BinaryVector \<Rightarrow>
          (case field of
             Vectors dim (BinaryVector data) \<Rightarrow>
               map_option (\<lambda>r. bindO r (\<lambda>vs. Ok \<lparr>pv_Tag = ''$0'', pv_Type = PT_BinaryVector, Values = vs\<rparr>))
                 (flattenedByteVectorsToByteVectors data bspare dim)
           | _ \<Rightarrow> Some (Err (ErrorString ''vector data is not schemapb.VectorField_BinaryVector'')))
      | _ \<Rightarrow> Some (Err (ErrorString ''field is not a vector field'')))"

text \<open>\<open>marshal\<close> encodes the group of placeholders.\<close>

definition FieldDataToPlaceholderGroupBytes ::
  "(PlaceholderValue list \<Rightarrow> bytes) \<Rightarrow> uint32 list \<Rightarrow> bytes \<Rightarrow> DataType \<Rightarrow> Field \<Rightarrow> (go_error, bytes) outcome option" where
  "FieldDataToPlaceholderGroupBytes marshal fspare bspare t field =
     map_option (\<lambda>r. bindO r (\<lambda>v. Ok (marshal [v]))) (fieldDataToPlaceholderValue fspare bspare t field)"

section \<open>Limits of strings and arrays\<close>

record ElementFieldSchema = FieldSchema +
  ElementType :: DataType

text \<open>\<open>data_type\<close> prints a type.\<close>

definition GetMaxLength :: "(DataType \<Rightarrow> go_value) \<Rightarrow> ElementFieldSchema \<Rightarrow> (go_error, int) outcome" where
  "GetMaxLength data_type field =
     (if \<not> IsStringType (fs_DataType field) \<and> \<not> IsStringType (ElementType field)
      then Err (WrapErrParameterInvalid (data_type DT_VarChar) (data_type (fs_DataType field)) [''is not of string type''])
      else case NewKvPairs (IndexParams field @ TypeParams field) ''max_length'' of
             None \<Rightarrow> Err (WrapErrParameterInvalid (Str ''max length key in type parameters'') (Str ''not found'')
                         [''max length not found''])
           | Some maxLengthStr \<Rightarrow>
               (case Atoi maxLengthStr of
                  Ok maxLength \<Rightarrow> Ok maxLength
                | _ \<Rightarrow> Err (WrapErrParameterInvalid (Str ''value of max length should be of int'') (Str maxLengthStr)
                           [''invalid max length: '' @ maxLengthStr])))"

definition GetMaxCapacity :: "(DataType \<Rightarrow> go_value) \<Rightarrow> 'a FieldSchema_scheme \<Rightarrow> (go_error, int) outcome" where
  "GetMaxCapacity data_type field =
     (if \<not> IsArrayType (fs_DataType field)
      then Err (WrapErrParameterInvalid (data_type DT_Array) (data_type (fs_DataType field)) [''is not of array type''])
      else case NewKvPairs (IndexParams field @ TypeParams field) ''max_capacity'' of
             None \<Rightarrow> Err (WrapErrParameterInvalid (Str ''max capacity key in type parameters'') (Str ''not found'')
                         [''max capacity not found''])
           | Some maxCapacityStr \<Rightarrow>
               (case Atoi maxCapacityStr of
                  Ok maxCapacity \<Rightarrow> Ok maxCapacity
                | _ \<Rightarrow> Err (WrapErrParameterInvalid (Str ''value of max length should be of int'') (Str maxCapacityStr)
                           [''invalid max capacity: '' @ maxCapacityStr])))"


section \<open>Encoding and decoding\<close>

lemma length_le_bytes [simp]: "length (le_bytes n v) = n"
  by (simp add: le_bytes_def)

lemma bit_le_word:
  "bit (le_word bs :: 'a::len word) n \<longleftrightarrow> n < LENGTH('a) \<and> n div 8 < length bs \<and> bit (bs ! (n div 8)) (n mod 8)"
proof (induction bs arbitrary: n)
  case (Cons b bs)
  show ?case
  proof (cases "n < 8")
    case True
    then show ?thesis by (auto simp: bit_or_iff bit_push_bit_iff bit_ucast_iff)
  next
    case False
    then obtain m where m: "n = m + 8" by (metis add.commute le_add_diff_inverse linorder_not_less)
    have "\<not> bit b (m + 8)" using bit_imp_le_length [of b "m + 8"] by auto
    moreover have "(m + 8) div 8 = Suc (m div 8)" by simp
    ultimately show ?thesis by (auto simp: m bit_or_iff bit_push_bit_iff bit_ucast_iff Cons)
  qed
qed simp

lemma le_word_bytes: "LENGTH('a) \<le> 8 * n \<Longrightarrow> le_word (le_bytes n v) = (v :: 'a::len word)"
proof (rule bit_word_eqI)
  fix i
  assume n: "LENGTH('a) \<le> 8 * n" and i: "i < LENGTH('a)"
  then have "i div 8 < n" by (auto simp: div_less_iff_less_mult)
  moreover have "8 * (i div 8) + i mod 8 = i" by simp
  ultimately show "bit (le_word (le_bytes n v) :: 'a word) i = bit v i"
    using i by (simp add: bit_le_word le_bytes_def bit_ucast_iff bit_drop_bit_eq)
qed

lemma le_bytes_word: "8 * length bs \<le> LENGTH('a) \<Longrightarrow> le_bytes (length bs) (le_word bs :: 'a::len word) = bs"
proof (rule nth_equalityI)
  fix i
  assume len: "8 * length bs \<le> LENGTH('a)" and "i < length (le_bytes (length bs) (le_word bs :: 'a word))"
  then have i: "i < length bs" by simp
  show "le_bytes (length bs) (le_word bs :: 'a word) ! i = bs ! i"
  proof (rule bit_word_eqI)
    fix j
    assume j: "j < LENGTH(8)"
    then have "8 * i + j < LENGTH('a)" "(8 * i + j) div 8 = i" "(8 * i + j) mod 8 = j" using i len by auto
    then show "bit (le_bytes (length bs) (le_word bs :: 'a word) ! i) j = bit (bs ! i) j"
      using i j by (simp add: le_bytes_def bit_ucast_iff bit_drop_bit_eq bit_le_word)
  qed
qed simp

text \<open>Numbers are read back from their bytes, in both byte orders, and every eight bytes are the bytes of the number they
  are read as.\<close>

theorem bytes_roundtrip:
  "BytesToUint64 (Uint64ToBytes w) = Ok w \<and> BigEndianBytesToUint64 (Uint64ToBytesBigEndian w) = Ok w
   \<and> BytesToInt64 (Int64ToBytes (sint w)) = Ok (sint w) \<and> BytesToFloat32 (Float32ToBytes f) = Ok f
   \<and> (length b = 8 \<longrightarrow> (\<exists>v. BytesToUint64 b = Ok v \<and> Uint64ToBytes v = b)
       \<and> (\<exists>v. BigEndianBytesToUint64 b = Ok v \<and> Uint64ToBytesBigEndian v = b))
   \<and> (length b \<noteq> 8 \<longrightarrow> \<not> is_Ok (BytesToUint64 b) \<and> \<not> is_Ok (BigEndianBytesToUint64 b) \<and> \<not> is_Ok (BytesToInt64 b))"
  using le_bytes_word [of b, where 'a = 64] le_bytes_word [of "rev b", where 'a = 64]
  by (auto simp: BytesToUint64_def Uint64ToBytes_def BigEndianBytesToUint64_def Uint64ToBytesBigEndian_def BytesToInt64_def
      Int64ToBytes_def BytesToFloat32_def Float32ToBytes_def LittleEndian_Uint32_def le_word_bytes)

theorem bytes_roundtrip_witness:
  "\<exists>v. BytesToUint64 [1, 2, 3, 4, 5, 6, 7, 8] = Ok v \<and> Uint64ToBytes v = [1, 2, 3, 4, 5, 6, 7, 8]"
  using bytes_roundtrip [of 0 0 "[1, 2, 3, 4, 5, 6, 7, 8]"] by simp

text \<open>The value of a list of digits, the least significant first.\<close>

fun le_value :: "bytes \<Rightarrow> nat" where
  "le_value [] = 0"
| "le_value (b # bs) = unat b + 256 * le_value bs"

lemma byte_bound: "unat (b :: byte) < 256"
  using unsigned_less [of b] by simp

lemma le_value_bound: "le_value bs < 256 ^ length bs"
proof (induction bs)
  case (Cons b bs)
  have "unat b + 256 * le_value bs < 256 * (le_value bs + 1)" using byte_bound [of b] by simp
  also have "\<dots> \<le> 256 * 256 ^ length bs" using Cons by (intro mult_le_mono2) simp
  finally show ?case by simp
qed simp

lemma le_word_value: "le_word bs = (of_nat (le_value bs) :: 'a::len word)"
proof (induction bs)
  case (Cons b bs)
  have "\<not> bit (ucast b :: 'a word) n \<or> \<not> bit (push_bit 8 (le_word bs) :: 'a word) n" for n
    using bit_imp_le_length [of b n] by (auto simp: bit_ucast_iff bit_push_bit_iff)
  then have "le_word (b # bs) = ucast b + push_bit 8 (le_word bs :: 'a word)" by (simp add: disjunctive_add)
  also have "\<dots> = of_nat (unat b) + 256 * of_nat (le_value bs)" by (simp add: Cons push_bit_eq_mult)
  finally show ?case by simp
qed simp

lemma unat_le_word: "8 * length bs \<le> LENGTH('a) \<Longrightarrow> unat (le_word bs :: 'a::len word) = le_value bs"
proof -
  assume "8 * length bs \<le> LENGTH('a)"
  then have "(2 :: nat) ^ (8 * length bs) \<le> 2 ^ LENGTH('a)" by (rule power_increasing) simp
  moreover have "(2 :: nat) ^ (8 * length bs) = 256 ^ length bs" by (simp add: power_mult)
  ultimately have "le_value bs < 2 ^ LENGTH('a)" using le_value_bound [of bs] by linarith
  then show ?thesis by (simp add: le_word_value unsigned_of_nat take_bit_nat_eq_self)
qed

lemma le_value_snoc: "le_value (bs @ [b]) = le_value bs + 256 ^ length bs * unat b"
  by (induction bs) (simp_all add: algebra_simps)

text \<open>Lists of bytes of the same length compare like the numbers they are the digits of, the most significant first.\<close>

lemma be_value_less:
  "length xs = length ys \<Longrightarrow> le_value (rev xs) < le_value (rev ys) \<longleftrightarrow> (xs, ys) \<in> lexord {(x, y). x < y}"
proof (induction xs ys rule: list_induct2)
  case (Cons x xs y ys)
  let ?k = "256 ^ length xs :: nat"
  have bounds: "le_value (rev xs) < ?k" "le_value (rev ys) < ?k"
    using le_value_bound [of "rev xs"] le_value_bound [of "rev ys"] Cons.hyps by simp_all
  have low: "v + ?k * unat a < w + ?k * unat b" if "unat a < unat b" "v < ?k" for a b :: byte and v w
  proof -
    have "?k * (unat a + 1) \<le> ?k * unat b" using that(1) by (intro mult_le_mono2) simp
    then show ?thesis using that(2) by simp
  qed
  have digits: "le_value (rev xs @ [x]) = le_value (rev xs) + ?k * unat x" "le_value (rev ys @ [y]) = le_value (rev ys) + ?k * unat y"
    using Cons.hyps by (simp_all add: le_value_snoc)
  show ?case
  proof (cases "unat x" "unat y" rule: linorder_cases)
    case less
    then show ?thesis using low [OF less bounds(1)] by (simp add: digits word_less_nat_alt)
  next
    case equal
    then have "x = y" by (simp add: word_unat_eq_iff)
    then show ?thesis using Cons.IH digits by simp
  next
    case greater
    then show ?thesis using low [OF greater bounds(2), of "le_value (rev xs)"] by (auto simp: digits word_less_nat_alt)
  qed
qed simp


text \<open>The big-endian bytes of two numbers compare, byte by byte from the front, as the numbers do.\<close>

theorem BigEndian_keeps_order:
  "(Uint64ToBytesBigEndian v, Uint64ToBytesBigEndian w) \<in> lexord {(x, y). x < y} \<longleftrightarrow> v < w"
proof -
  have "unat u = le_value (le_bytes 8 u)" for u :: uint64
    using unat_le_word [of "le_bytes 8 u", where 'a = 64] by (simp add: le_word_bytes)
  then show ?thesis
    using be_value_less [of "Uint64ToBytesBigEndian v" "Uint64ToBytesBigEndian w"]
    by (simp add: Uint64ToBytesBigEndian_def word_less_nat_alt)
qed

text \<open>Not so for the little-endian ones.\<close>

lemma LittleEndian_loses_order: "(Uint64ToBytes 256, Uint64ToBytes 1) \<in> lexord {(x, y). x < y}"
proof -
  have "Uint64ToBytes 256 = [0, 1, 0, 0, 0, 0, 0, 0]" "Uint64ToBytes 1 = [1, 0, 0, 0, 0, 0, 0, 0]" by code_simp+
  then show ?thesis by simp
qed

lemma ParseTimestamp_wraps: "ParseTimestamp (Uint64ToBytesBigEndian w) = Ok (sint w)"
  using bytes_roundtrip by (simp add: ParseTimestamp_def)

lemma SubTimeByWallClock_exact:
  assumes "- (2 ^ 63) \<le> after - before \<and> after - before < 2 ^ 63"
  shows "SubTimeByWallClock after before = after - before"
proof -
  have "SubTimeByWallClock after before = sint (word_of_int (after - before) :: uint64)"
    by (simp add: SubTimeByWallClock_def)
  also have "\<dots> = after - before"
    using assms by (simp only: signed_of_int) (simp add: signed_take_bit_int_eq_self)
  finally show ?thesis .
qed

lemma SliceRemoveDuplicate_eq: "SliceRemoveDuplicate None xs = remdups_adj xs"
proof -
  have "SliceRemoveDuplicate (Some x) xs = tl (remdups_adj (x # xs))" for x and xs :: "'a list"
    by (induction xs arbitrary: x) (auto simp: remdups_adj_Cons split: list.splits)
  then show ?thesis by (cases xs) (auto simp: remdups_adj_Cons split: list.splits)
qed

section \<open>The end of a range of keys\<close>

lemma lexord_prefix: "(p @ u, p @ v) \<in> lexord {(x, y). x < y} \<longleftrightarrow> (u, v) \<in> lexord {(x :: byte, y). x < y}"
  by (induction p) auto

lemma byte_successor: "b < b + 1 \<longleftrightarrow> (b :: byte) \<noteq> 255"
proof
  assume "b \<noteq> 255"
  then have "unat b \<noteq> 255" by (simp add: word_unat_eq_iff)
  then have "unat b + unat (1 :: byte) < 2 ^ LENGTH(8)" using byte_bound [of b] by simp
  then have "unat (b + 1) = unat b + 1" using iffD1 [OF unat_add_lem, of b 1] by simp
  then show "b < b + 1" by (simp add: word_less_nat_alt)
qed auto

text \<open>\<open>AddOne\<close> gives a key above the prefix, and it is the end of the range of the keys with the prefix exactly when the
  last byte of the prefix is not 255: otherwise some keys with the prefix are above it.\<close>

theorem AddOne_bounds_prefix:
  "(p \<noteq> [] \<longrightarrow> (p, AddOne p) \<in> lexord {(x, y). x < y})
   \<and> ((\<forall>rest. (p @ rest, AddOne p) \<in> lexord {(x, y). x < y}) \<longleftrightarrow> p \<noteq> [] \<and> last p \<noteq> 255)"
proof (cases p rule: rev_cases)
  case (snoc q b)
  show ?thesis
  proof (cases "b = 255")
    case True
    have "\<not> (p @ [1], AddOne p) \<in> lexord {(x, y). x < y}" "(p @ [], AddOne p) \<in> lexord {(x, y). x < y}"
      unfolding AddOne_def by (simp_all only: lexord_prefix snoc True) (simp_all add: lexord_prefix)
    then show ?thesis by (auto simp: snoc True)
  next
    case False
    have "AddOne p = q @ [b + 1]" using False by (simp add: AddOne_def snoc)
    then have "(p @ rest, AddOne p) \<in> lexord {(x, y). x < y}" for rest
      using False byte_successor [of b] by (simp add: snoc lexord_prefix)
    from this [of "[]"] this show ?thesis using False by (simp add: snoc)
  qed
qed (simp add: AddOne_def)

theorem AddOne_bounds_prefix_witness: "([97, 98] @ [255, 255], AddOne [97, 98]) \<in> lexord {(x, y). x < y}"
  using AddOne_bounds_prefix [of "[97, 98]"] by simp


section \<open>Where keys go\<close>

lemma hash_all_eq: "n \<noteq> 0 \<Longrightarrow> hash_all hash n keys = Ok (map (\<lambda>key. hash key mod n) keys)"
proof -
  assume n: "n \<noteq> 0"
  have "foldO (\<lambda>hashValues key. bindO (go_mod (hash key) n) (\<lambda>v. Ok (hashValues @ [v]))) hs keys
      = Ok (hs @ map (\<lambda>key. hash key mod n) keys)" for hs
    using n by (induction keys arbitrary: hs) (simp_all add: go_mod_def)
  from this [of "[]"] show ?thesis by (simp add: hash_all_def)
qed

lemma hash_all_zero: "hash_all hash 0 (key # keys) = Panic ''integer divide by zero''"
  by (simp add: hash_all_def go_mod_def)

lemma mod_range: "n \<noteq> 0 \<Longrightarrow> h mod n < (n :: uint32)"
  using unat_gt_0 [of n] by (simp add: word_less_nat_alt unat_mod)

text \<open>The channels of primary keys are within range, one for each key, the same wherever the key occurs, and they are the
  partitions that a column of the same keys is sent to; with no channel at all the function panics.\<close>

theorem HashPK2Channels_range:
  assumes "length shardNames < 2 ^ 32"
  shows "(shardNames \<noteq> [] \<longrightarrow>
      (\<exists>f. HashPK2Channels murmur (IntId pks) shardNames = Ok (map f pks) \<and> (\<forall>pk. unat (f pk) < length shardNames)
        \<and> (fd_Field column = Scalars (LongData pks) \<longrightarrow> HashKey2Partitions murmur column shardNames = Ok (map f pks)))
    \<and> (\<exists>g. HashPK2Channels murmur (StrId strs) shardNames = Ok (map g strs) \<and> (\<forall>s. unat (g s) < length shardNames \<and> g s = g (take 100 s))
        \<and> (fd_Field column = Scalars (StringData strs) \<longrightarrow> HashKey2Partitions murmur column shardNames = Ok (map g strs))))
    \<and> (shardNames = [] \<and> pks \<noteq> [] \<longrightarrow> is_Panic (HashPK2Channels murmur (IntId pks) shardNames))"
proof -
  let ?n = "of_nat (length shardNames) :: uint32"
  have n: "unat ?n = length shardNames" using assms by (simp add: unsigned_of_nat take_bit_nat_eq_self)
  have "HashString2Uint32 s = HashString2Uint32 (take 100 s)" for s
    by (simp add: HashString2Uint32_def substringLengthForCRC_def)
  moreover have "?n \<noteq> 0" "\<And>h. unat (h mod ?n) < length shardNames" if "shardNames \<noteq> []"
  proof -
    show z: "?n \<noteq> 0" using that n by (metis length_0_conv unat_0)
    show "unat (h mod ?n) < length shardNames" for h using mod_range [OF z, of h] by (simp add: word_less_nat_alt n)
  qed
  ultimately show ?thesis
    by (auto simp: HashPK2Channels_def HashKey2Partitions_def hash_all_eq hash_all_zero neq_Nil_conv is_Panic_iff
        intro!: exI [of _ "\<lambda>pk. Hash32Int64 murmur pk mod ?n"] exI [of _ "\<lambda>s. HashString2Uint32 s mod ?n"])
qed

theorem HashPK2Channels_range_witness:
  "\<exists>f. HashPK2Channels (\<lambda>b. le_word (take 4 b)) (IntId [7, 8, 7]) [''c0'', ''c1''] = Ok [f 7, f 8, f (7 :: int)]"
  using HashPK2Channels_range [of "[''c0'', ''c1'']" "\<lambda>b. le_word (take 4 b)" "[7, 8, 7]" undefined "[]"] by auto


section \<open>The order of partitions\<close>

definition partition_index :: "nat \<Rightarrow> string \<Rightarrow> nat option" where
  "partition_index n name =
     (let splits = strings_Split name (CHR ''_'')
      in if length splits < 2 then None
         else case ParseInt (last splits) of
                None \<Rightarrow> None
              | Some index \<Rightarrow> if index \<ge> int n \<or> index < 0 then None else Some (nat index))"

lemma rearrange_one_Ok:
  "partition_index n name = Some i \<Longrightarrow> rearrange_one n (names, ids) (name, id') = Ok (names[i := name], ids[i := id'])"
  by (auto simp: partition_index_def rearrange_one_def Let_def split: option.splits if_splits)

lemma rearrange_loop:
  assumes "\<forall>p \<in> set walk. partition_index n (fst p) = Some (ix (fst p))"
  shows "foldO (rearrange_one n) (names, ids) walk
    = Ok (fold (\<lambda>p xs. xs[ix (fst p) := fst p]) walk names, fold (\<lambda>p xs. xs[ix (fst p) := snd p]) walk ids)"
  using assms
proof (induction walk arbitrary: names ids)
  case (Cons p walk)
  then have "rearrange_one n (names, ids) p = Ok (names[ix (fst p) := fst p], ids[ix (fst p) := snd p])"
    using rearrange_one_Ok [of n "fst p" "ix (fst p)" names ids "snd p"] by simp
  then show ?case using Cons by simp
qed simp

lemma fold_update_length: "length (fold (\<lambda>p xs. xs[f p := g p]) ps xs) = length xs"
  by (induction ps arbitrary: xs) simp_all

lemma fold_update_other: "i \<notin> f ` set ps \<Longrightarrow> fold (\<lambda>p xs. xs[f p := g p]) ps xs ! i = xs ! i"
  by (induction ps arbitrary: xs) simp_all

lemma fold_update_at:
  assumes "inj_on f (set ps)" "distinct ps" "p \<in> set ps" "f p < length xs"
  shows "fold (\<lambda>p xs. xs[f p := g p]) ps xs ! f p = g p"
  using assms
proof (induction ps arbitrary: xs)
  case (Cons q ps)
  show ?case
  proof (cases "p = q")
    case True
    have "f q \<notin> f ` set ps" using Cons.prems(1,2) by (auto simp: inj_on_def)
    then show ?thesis using Cons.prems(4) by (simp add: True fold_update_other)
  next
    case False
    then show ?thesis using Cons by simp
  qed
qed simp


lemma partition_index_less: "partition_index n name = Some i \<Longrightarrow> i < n"
  by (auto simp: partition_index_def Let_def split: option.splits if_splits)

text \<open>When the names of the partitions end in different indexes of the range, every name and id is put at its index,
  whatever the order in which the map of partitions is walked.\<close>

theorem RearrangePartitions_places:
  assumes "\<forall>p \<in> set walk. partition_index (length walk) (fst p) = Some (ix (fst p))"
    and "distinct (map fst walk)" and "inj_on ix (fst ` set walk)"
  shows "\<exists>names ids. RearrangePartitionsForPartitionKey walk = Ok (names, ids) \<and> length names = length walk \<and> length ids = length walk
      \<and> (\<forall>(name, i) \<in> set walk. names ! ix name = name \<and> ids ! ix name = i)
      \<and> (\<forall>walk'. mset walk' = mset walk \<longrightarrow> RearrangePartitionsForPartitionKey walk' = Ok (names, ids))"
proof -
  let ?n = "length walk" and ?f = "\<lambda>p. ix (fst p)"
  let ?names = "fold (\<lambda>p xs. xs[?f p := fst p])" and ?ids = "fold (\<lambda>p xs. xs[?f p := snd p])"
  have inj: "inj_on ?f (set walk)" and dist: "distinct walk"
    using assms(2,3) by (auto simp: distinct_map inj_on_def)
  have less: "?f p < ?n" if "p \<in> set walk" for p using assms(1) that partition_index_less by metis
  have placed: "RearrangePartitionsForPartitionKey w = Ok (?names w (replicate ?n []), ?ids w (replicate ?n 0))
      \<and> (\<forall>p \<in> set walk. ?names w (replicate ?n []) ! ?f p = fst p \<and> ?ids w (replicate ?n 0) ! ?f p = snd p)"
    if "mset w = mset walk" for w
  proof -
    have w: "set w = set walk" "length w = ?n" "distinct w"
      using mset_eq_setD [OF that] mset_eq_length [OF that] mset_eq_imp_distinct_iff [OF that] dist by simp_all
    have "RearrangePartitionsForPartitionKey w = Ok (?names w (replicate ?n []), ?ids w (replicate ?n 0))"
      using assms(1) w by (simp add: RearrangePartitionsForPartitionKey_def rearrange_loop)
    moreover have "?names w (replicate ?n []) ! ?f p = fst p \<and> ?ids w (replicate ?n 0) ! ?f p = snd p" if "p \<in> set walk" for p
      using fold_update_at [of ?f w p "replicate ?n []" fst] fold_update_at [of ?f w p "replicate ?n 0" snd] inj w that less
      by simp
    ultimately show ?thesis by blast
  qed
  have onto: "\<exists>p \<in> set walk. ?f p = i" if "i < ?n" for i
  proof -
    have "card (?f ` set walk) = ?n" using card_image [OF inj] distinct_card [OF dist] by simp
    moreover have "?f ` set walk \<subseteq> {..<?n}" using less by auto
    ultimately have "?f ` set walk = {..<?n}" by (simp add: card_subset_eq)
    then show ?thesis using that by (metis imageE lessThan_iff)
  qed
  have same: "?names w (replicate ?n []) = ?names walk (replicate ?n []) \<and> ?ids w (replicate ?n 0) = ?ids walk (replicate ?n 0)"
    if w: "mset w = mset walk" for w
  proof -
    have "?names w (replicate ?n []) ! i = ?names walk (replicate ?n []) ! i
        \<and> ?ids w (replicate ?n 0) ! i = ?ids walk (replicate ?n 0) ! i" if i: "i < ?n" for i
    proof -
      obtain p where p: "p \<in> set walk" "?f p = i" using onto [OF i] by blast
      show ?thesis
        using bspec [OF conjunct2 [OF placed [OF w]] p(1)] bspec [OF conjunct2 [OF placed [OF refl]] p(1)] by (simp only: p(2))
    qed
    then show ?thesis by (auto intro!: nth_equalityI simp: fold_update_length)
  qed
  have any: "RearrangePartitionsForPartitionKey w = Ok (?names walk (replicate ?n []), ?ids walk (replicate ?n 0))"
    if w: "mset w = mset walk" for w
    using conjunct1 [OF placed [OF w]] same [OF w] by simp
  have at: "?names walk (replicate ?n []) ! ix name = name \<and> ?ids walk (replicate ?n 0) ! ix name = i"
    if p: "(name, i) \<in> set walk" for name i
    using bspec [OF conjunct2 [OF placed [OF refl]] p] by simp
  show ?thesis
    by (intro exI [of _ "?names walk (replicate ?n [])"] exI [of _ "?ids walk (replicate ?n 0)"] conjI allI impI any ballI)
      (use at in \<open>auto simp: fold_update_length\<close>)
qed

theorem RearrangePartitions_places_witness:
  "RearrangePartitionsForPartitionKey [(''p_1'', 21), (''p_0'', 20)] = RearrangePartitionsForPartitionKey [(''p_0'', 20), (''p_1'', 21)]"
proof -
  let ?ix = "\<lambda>name :: string. if name = ''p_1'' then 1 else 0 :: nat"
  have "partition_index 2 ''p_0'' = Some 0" "partition_index 2 ''p_1'' = Some 1"
    by (simp_all add: partition_index_def ParseInt_def ParseUint_def)
  then show ?thesis
    using RearrangePartitions_places [of "[(''p_1'', 21), (''p_0'', 20)]" ?ix]
    by (fastforce simp: numeral_2_eq_2 add_mset_commute inj_on_def)
qed

text \<open>Two names that end in the same index are accepted: the result has a gap and depends on the order of the walk.\<close>

lemma RearrangePartitions_collision:
  "RearrangePartitionsForPartitionKey [(''a_0'', 1), (''b_0'', 2)] = Ok ([''b_0'', []], [2, 0])"
  "RearrangePartitionsForPartitionKey [(''b_0'', 2), (''a_0'', 1)] = Ok ([''a_0'', []], [1, 0])"
  by (simp_all add: RearrangePartitionsForPartitionKey_def rearrange_one_def ParseInt_def ParseUint_def)


section \<open>Cutting vectors\<close>

lemma cut_vectors_end: "int (length xs) \<le> i \<Longrightarrow> cut_vectors xs spare dim i result = Some (Ok result)"
  by (subst cut_vectors.simps) simp

lemma cut_vectors_step:
  assumes "0 \<le> i" "i < int (length xs)"
  shows "cut_vectors xs spare dim i result =
    (if 0 \<le> dim \<and> i + dim \<le> int (length xs + length spare)
     then cut_vectors xs spare dim (i + dim) (result @ [take (nat dim) (drop (nat i) (xs @ spare))])
     else Some (Panic ''slice bounds out of range''))"
  using assms by (subst cut_vectors.simps) (auto simp: go_slice_def nat_add_distrib)

text \<open>Pieces that begin before the end of the list are cut off one after another.\<close>

lemma cut_vectors_pieces:
  assumes "0 < d"
  shows "xs @ spare = pre @ concat vs @ rest \<Longrightarrow> \<forall>v \<in> set vs. length v = d \<Longrightarrow>
     vs = [] \<or> length pre + d * (length vs - 1) < length xs \<Longrightarrow>
     cut_vectors xs spare (int d) (int (length pre)) result
       = cut_vectors xs spare (int d) (int (length pre + d * length vs)) (result @ vs)"
proof (induction vs arbitrary: pre result)
  case (Cons v vs)
  have v: "length v = d" using Cons.prems(2) by simp
  have first: "length pre < length xs" using Cons.prems(3) by simp
  have len: "length xs + length spare = length pre + d + length (concat vs @ rest)"
    using arg_cong [OF Cons.prems(1), of length] v by simp
  have "cut_vectors xs spare (int d) (int (length pre)) result =
      cut_vectors xs spare (int d) (int (length pre) + int d) (result @ [v])"
    using first len Cons.prems(1) v by (subst cut_vectors_step) simp_all
  also have "\<dots> = cut_vectors xs spare (int d) (int (length (pre @ v))) (result @ [v])" by (simp add: v)
  also have "\<dots> = cut_vectors xs spare (int d) (int (length (pre @ v) + d * length vs)) ((result @ [v]) @ vs)"
  proof (rule Cons.IH)
    show "xs @ spare = (pre @ v) @ concat vs @ rest" using Cons.prems(1) by simp
    show "\<forall>v \<in> set vs. length v = d" using Cons.prems(2) by simp
    show "vs = [] \<or> length (pre @ v) + d * (length vs - 1) < length xs"
      using Cons.prems(3) v by (cases vs) (simp_all add: algebra_simps)
  qed
  finally show ?case by (simp add: v algebra_simps)
qed simp

lemma cut_vectors_zero:
  assumes "0 \<le> i" "i < int (length xs)"
  shows "cut_vectors xs spare 0 i result = None"
proof (rule ccontr)
  assume "cut_vectors xs spare 0 i result \<noteq> None"
  then obtain r where r: "cut_vectors xs spare 0 i result = Some r" by blast
  have "(0 :: int) = 0 \<longrightarrow> \<not> (0 \<le> i \<and> i < int (length xs))"
    by (rule cut_vectors.raw_induct [where P = "\<lambda>xs spare d i result y. d = 0 \<longrightarrow> \<not> (0 \<le> i \<and> i < int (length xs))", OF _ r])
      (auto simp: go_slice_def split: if_splits)
  then show False using assms by simp
qed

text \<open>A list is pieces of equal length and a rest that is shorter.\<close>

lemma pieces:
  assumes "0 < dim"
  shows "\<exists>vs rest. xs = concat vs @ rest \<and> (\<forall>v \<in> set vs. length v = dim) \<and> length rest < dim
    \<and> length xs = dim * length vs + length rest"
proof (induction xs rule: length_induct)
  case (1 xs)
  show ?case
  proof (cases "length xs < dim")
    case True
    then show ?thesis by (intro exI [of _ "[]"] exI [of _ xs]) simp
  next
    case False
    then have "length (drop dim xs) < length xs" using assms by (cases xs) auto
    with 1 obtain vs rest where rest: "drop dim xs = concat vs @ rest" "\<forall>v \<in> set vs. length v = dim" "length rest < dim"
      "length (drop dim xs) = dim * length vs + length rest" by blast
    have "xs = concat (take dim xs # vs) @ rest" using rest(1) append_take_drop_id [of dim xs] by simp
    moreover have "\<forall>v \<in> set (take dim xs # vs). length v = dim" using rest(2) False by simp
    moreover have "length xs = dim * length (take dim xs # vs) + length rest" using rest(4) False by simp
    ultimately show ?thesis using rest(3) by blast
  qed
qed

text \<open>What the last piece lacks.\<close>

definition lacks :: "'a list \<Rightarrow> int \<Rightarrow> nat" where
  "lacks xs dim = nat ((- int (length xs)) mod dim)"

lemma lacks_rest:
  assumes "length xs = d * n + r" and "r < d"
  shows "lacks xs (int d) = (if r = 0 then 0 else d - r)"
proof -
  have "(- int (length xs)) mod int d = (- int r) mod int d"
    using mod_mult_self2 [of "- int r" "int d" "- int n"] by (simp add: assms(1) algebra_simps)
  also have "\<dots> = (if r = 0 then 0 else int d - int r)"
    using assms(2) by (simp add: zmod_zminus1_eq_if)
  finally show ?thesis using assms(2) by (simp add: lacks_def nat_diff_distrib)
qed

text \<open>C35: Cutting a flat vector. With dimension 0 it never returns, unless the vector is empty. With a positive one the
  vector is cut into pieces of that length; when the length is no multiple of the dimension, the last piece is
  completed from what the array holds beyond the slice, and only where that does not suffice the code panics, as
  it does for a negative dimension of a vector that is not empty.\<close>

theorem cut_vectors_result:
  "case cut_vectors xs spare dim 0 [] of
     None \<Rightarrow> dim = 0 \<and> xs \<noteq> []
   | Some (Ok vs) \<Rightarrow> (xs = [] \<or> 0 < dim) \<and> list_all (\<lambda>v. int (length v) = dim) vs
       \<and> lacks xs dim \<le> length spare \<and> concat vs = xs @ take (lacks xs dim) spare
   | Some (Panic _) \<Rightarrow> xs \<noteq> [] \<and> (dim < 0 \<or> 0 < dim \<and> length spare < lacks xs dim)
   | Some (Err _) \<Rightarrow> False"
proof (cases "xs = [] \<or> dim \<le> 0")
  case True
  consider "xs = []" | "xs \<noteq> []" "dim = 0" | "xs \<noteq> []" "dim < 0" using True by linarith
  then show ?thesis
  proof cases
    case 1
    then show ?thesis using cut_vectors_end [of xs 0 spare dim "[]"] by (simp add: lacks_def)
  next
    case 2
    then show ?thesis using cut_vectors_zero [of 0 xs spare "[]"] by simp
  next
    case 3
    then have "cut_vectors xs spare dim 0 [] = Some (Panic ''slice bounds out of range'')" by (subst cut_vectors_step) auto
    then show ?thesis using 3 by simp
  qed
next
  case False
  define d where "d = nat dim"
  then have d: "dim = int d" "0 < d" using False by auto
  obtain vs rest where r: "xs = concat vs @ rest" "\<forall>v \<in> set vs. length v = d" "length rest < d"
    "length xs = d * length vs + length rest" using pieces [OF d(2)] by blast
  have before: "vs = [] \<or> d * (length vs - 1) < length xs"
    using r(4) d(2) by (cases vs) (simp_all add: trans_less_add1)
  have cut: "cut_vectors xs spare dim 0 [] = cut_vectors xs spare dim (int (d * length vs)) vs"
    using cut_vectors_pieces [OF d(2), of xs spare "[]" vs "rest @ spare" "[]"] r(1,2) before d(1) by simp
  note lack = lacks_rest [OF r(4,3)]
  show ?thesis
  proof (cases "rest = []")
    case True
    then have "cut_vectors xs spare dim 0 [] = Some (Ok vs)" using cut r(4) by (simp add: cut_vectors_end)
    then show ?thesis using True r(1,2) d False lack by (auto simp: list_all_iff)
  next
    case rest: False
    then have lack: "lacks xs dim = d - length rest" using lack d(1) by simp
    have piece: "take d (drop (d * length vs) (xs @ spare)) = rest @ take (d - length rest) spare"
    proof -
      have "length (concat vs) = d * length vs" using r(1,4) by simp
      then have "drop (d * length vs) (xs @ spare) = rest @ spare" unfolding r(1) by simp
      then show ?thesis using r(3) by simp
    qed
    have step: "cut_vectors xs spare dim (int (d * length vs)) vs =
        (if d \<le> length rest + length spare
         then cut_vectors xs spare dim (int (d * length vs) + dim) (vs @ [rest @ take (d - length rest) spare])
         else Some (Panic ''slice bounds out of range''))"
      using rest r(4) d(1) piece by (subst cut_vectors_step) (auto simp: nat_mult_distrib)
    show ?thesis
    proof (cases "d \<le> length rest + length spare")
      case True
      then have "cut_vectors xs spare dim 0 [] = Some (Ok (vs @ [rest @ take (d - length rest) spare]))"
        using cut step r(3,4) d(1) by (simp add: cut_vectors_end)
      then show ?thesis using True r(1,2,3) d lack by (auto simp: list_all_iff)
    next
      case no: False
      then have "cut_vectors xs spare dim 0 [] = Some (Panic ''slice bounds out of range'')" using cut step by simp
      then show ?thesis using no d lack False by auto
    qed
  qed
qed

theorem cut_vectors_result_witness:
  "(\<exists>vs. cut_vectors [1, 2, 3 :: nat] [9, 9] 2 0 [] = Some (Ok vs) \<and> concat vs = [1, 2, 3, 9]
      \<and> list_all (\<lambda>v. int (length v) = 2) vs)
   \<and> cut_vectors [1 :: nat] [] 0 0 [] = None"
proof -
  have "cut_vectors [1, 2, 3 :: nat] [9, 9] 2 0 [] = Some (Ok [[1, 2], [3, 9]])"
    by (simp add: cut_vectors_step cut_vectors_end)
  moreover have "cut_vectors [1 :: nat] [] 0 0 [] = None" by (rule cut_vectors_zero) simp_all
  ultimately show ?thesis
    using cut_vectors_result [of 2 "[1, 2, 3 :: nat]" "[9, 9]"] cut_vectors_result [of 0 "[1 :: nat]" "[]"]
    by (simp add: lacks_def)
qed

text \<open>Three numbers cut in twos: with room behind them the last piece takes one that is no part of the vector.\<close>

lemma cut_vectors_sample:
  "cut_vectors [1, 2, 3 :: nat] [] 2 0 [] = Some (Panic ''slice bounds out of range'')"
  "cut_vectors [1, 2, 3 :: nat] [9, 9] 2 0 [] = Some (Ok [[1, 2], [3, 9]])"
  by (simp_all add: cut_vectors_step cut_vectors_end)

text \<open>The dimension of a binary vector counts bits, but its bytes are cut by it: a single vector does not fit, unless
  the array holds enough behind it, and eight vectors become one placeholder.\<close>

lemma binary_placeholders:
  assumes "0 < bytes"
  shows "length data = bytes \<Longrightarrow> length bspare < 7 * bytes \<Longrightarrow>
      fieldDataToPlaceholderValue fspare bspare DT_BinaryVector (Vectors (int (8 * bytes)) (BinaryVector data))
        = Some (Panic ''slice bounds out of range'')"
    and "length data = 8 * bytes \<Longrightarrow>
      fieldDataToPlaceholderValue fspare bspare DT_BinaryVector (Vectors (int (8 * bytes)) (BinaryVector data))
        = Some (Ok \<lparr>pv_Tag = ''$0'', pv_Type = PT_BinaryVector, Values = [data]\<rparr>)"
  using assms cut_vectors_step [of 0 data bspare "int (8 * bytes)" "[]"]
    cut_vectors_end [of data "int (8 * bytes)" bspare "int (8 * bytes)" "[data]"]
  by (auto simp: fieldDataToPlaceholderValue_def flattenedByteVectorsToByteVectors_def)

section \<open>Limits\<close>

text \<open>A limit is the number that the last parameter of its name gives, and everything else is an invalid parameter.\<close>

lemma GetMaxLength_Ok:
  "GetMaxLength data_type field = Ok n \<longleftrightarrow>
     (IsStringType (fs_DataType field) \<or> IsStringType (ElementType field))
     \<and> (\<exists>s. NewKvPairs (IndexParams field @ TypeParams field) ''max_length'' = Some s \<and> Atoi s = Ok n)"
  by (auto simp: GetMaxLength_def split: option.splits outcome.splits)

lemma GetMaxCapacity_Ok:
  "GetMaxCapacity data_type field = Ok n \<longleftrightarrow>
     IsArrayType (fs_DataType field)
     \<and> (\<exists>s. NewKvPairs (IndexParams field @ TypeParams field) ''max_capacity'' = Some s \<and> Atoi s = Ok n)"
  by (auto simp: GetMaxCapacity_def split: option.splits outcome.splits)

lemma invalid_parameter: "keeps_leaf ''ErrParameterInvalid'' msg (WrapErrParameterInvalid expected actual msg)"
  unfolding WrapErrParameterInvalid_def by (rule keeps_leaf_wrap(1)) (unfold merr_table_def list.map fst_conv, code_simp)

lemma GetMax_errors:
  "GetMaxLength data_type field = Err e \<Longrightarrow> \<exists>msg. keeps_leaf ''ErrParameterInvalid'' msg e"
  "GetMaxCapacity data_type field' = Err e \<Longrightarrow> \<exists>msg. keeps_leaf ''ErrParameterInvalid'' msg e"
  by (auto simp: GetMaxLength_def GetMaxCapacity_def intro!: exI invalid_parameter split: option.splits outcome.splits if_splits)

end
