(* ===== verification/Names.thy ===== *)
theory Names
  imports Recover Schema
begin

text \<open>
  Names and the texts built of them: the helpers of pkg/util/funcutil/func.go for key-value pairs, channel names, keys of
  the metadata store and the cache of roles; the policies of privileges (pkg/util/funcutil/policy.go); the names of
  privileges (pkg/util/constant.go).

  Reading a gRPC status from an error (\<open>FromError\<close>) and the set of privileges the protocol knows are parameters. Objects
  read by reflection from protobuf messages are not modelled.
\<close>

section \<open>Key-value pairs\<close>

fun GetAttrByKeyFromRepeatedKV :: "string \<Rightarrow> (string \<times> string) list \<Rightarrow> (go_error, string) outcome" where
  "GetAttrByKeyFromRepeatedKV key [] = Err (ErrorString (''key '' @ key @ '' not found''))"
| "GetAttrByKeyFromRepeatedKV key ((k, v) # kvs) = (if k = key then Ok v else GetAttrByKeyFromRepeatedKV key kvs)"

text \<open>\<open>walk\<close> is the order in which the map is walked.\<close>

definition Map2KeyValuePair :: "(string \<times> string) list \<Rightarrow> (string \<times> string) list" where
  "Map2KeyValuePair walk = foldl (\<lambda>results (key, val). results @ [(key, val)]) [] walk"

definition KeyValuePair2Map :: "(string \<times> string) list \<Rightarrow> (string \<rightharpoonup> string)" where
  "KeyValuePair2Map datas = foldl (\<lambda>results (key, val). results(key \<mapsto> val)) Map.empty datas"

definition GetVecFieldIDs :: "CollectionSchema \<Rightarrow> int list" where
  "GetVecFieldIDs schema =
     foldl (\<lambda>ids field. if fs_DataType field = DT_BinaryVector \<or> fs_DataType field = DT_FloatVector
                        then ids @ [FieldID field] else ids) [] (Fields schema)"

section \<open>Channels\<close>

definition GenChannelSubName :: "string \<Rightarrow> int \<Rightarrow> int \<Rightarrow> string" where
  "GenChannelSubName prefix collection node =
     prefix @ ''-'' @ string_of_int collection @ ''-'' @ string_of_int node"

text \<open>\<open>strings.Replace(s, from, to, 1)\<close>.\<close>

fun replace_first :: "string \<Rightarrow> string \<Rightarrow> string \<Rightarrow> string" where
  "replace_first [] from' to = (if from' = [] then to else [])"
| "replace_first (c # s) from' to =
     (if is_prefix_of from' (c # s) then to @ drop (length from') (c # s) else c # replace_first s from' to)"

definition ConvertChannelName :: "string \<Rightarrow> string \<Rightarrow> string \<Rightarrow> (go_error, string) outcome" where
  "ConvertChannelName chanName tokenFrom tokenTo =
     (if tokenFrom = [] then Err (ErrorString ''the tokenFrom is empty'')
      else if \<not> strings_Contains chanName tokenFrom
           then Err (ErrorString (''cannot find token '' @ tokenFrom @ '' in '' @ chanName))
           else Ok (replace_first chanName tokenFrom tokenTo))"

section \<open>Errors of gRPC\<close>

function IsGrpcErr :: "(go_error \<Rightarrow> 'c option) \<Rightarrow> 'c list \<Rightarrow> go_error option \<Rightarrow> bool" where
  "IsGrpcErr FromError targets err =
     (case err of
        None \<Rightarrow> False
      | Some e \<Rightarrow>
          (case FromError e of
             Some code \<Rightarrow> card (NewSet targets) = 0 \<or> Set_Contain (NewSet targets) [code]
           | None \<Rightarrow> IsGrpcErr FromError targets (Unwrap e)))"
  by pat_completeness auto

termination
  by (relation "measure (\<lambda>(_, _, err). case err of None \<Rightarrow> 0 | Some e \<Rightarrow> Suc (size e))")
    (auto dest: Unwrap_size split: option.splits)

declare IsGrpcErr.simps [simp del]

section \<open>Texts\<close>

definition is_space :: "char \<Rightarrow> bool" where
  "is_space c \<longleftrightarrow> (of_char c :: nat) \<in> {9, 10, 11, 12, 13, 32}"

definition TrimSpace :: "string \<Rightarrow> string" where
  "TrimSpace s = rev (dropWhile is_space (rev (dropWhile is_space s)))"

definition IsEmptyString :: "string \<Rightarrow> bool" where
  "IsEmptyString str \<longleftrightarrow> TrimSpace str = []"

definition HandleTenantForEtcdKey :: "string \<Rightarrow> string \<Rightarrow> string \<Rightarrow> string" where
  "HandleTenantForEtcdKey prefix tnt key =
     (let res = prefix;
          res = (if tnt \<noteq> [] then res @ ''/'' @ tnt else res)
      in if key \<noteq> [] then res @ ''/'' @ key else res)"

definition EncodeUserRoleCache :: "string \<Rightarrow> string \<Rightarrow> string" where
  "EncodeUserRoleCache user role = user @ ''/'' @ role"

definition DecodeUserRoleCache :: "string \<Rightarrow> (go_error, string \<times> string) outcome" where
  "DecodeUserRoleCache cache =
     (case LastIndex cache (CHR ''/'') of
        None \<Rightarrow> Err (ErrorString (''invalid param, cache: ['' @ cache @ '']''))
      | Some index \<Rightarrow> Ok (take index cache, drop (index + 1) cache))"

section \<open>Policies\<close>

definition CombineObjectName :: "string \<Rightarrow> string \<Rightarrow> string" where
  "CombineObjectName dbName objectName =
     (let dbName = (if dbName = [] then ''default'' else dbName) in dbName @ ''.'' @ objectName)"

definition PolicyForResource :: "string \<Rightarrow> string \<Rightarrow> string \<Rightarrow> string" where
  "PolicyForResource dbName objectType objectName = objectType @ ''-'' @ CombineObjectName dbName objectName"

definition PolicyForPrivilege :: "string \<Rightarrow> string \<Rightarrow> string \<Rightarrow> string \<Rightarrow> string \<Rightarrow> string" where
  "PolicyForPrivilege roleName objectType objectName privilege dbName =
     ''{\"PType\":\"p\",\"V0\":\"'' @ roleName @ ''\",\"V1\":\"'' @ PolicyForResource dbName objectType objectName
       @ ''\",\"V2\":\"'' @ privilege @ ''\"}''"

text \<open>A text that has a point splits into at least two parts; the first two are the answer.\<close>

definition SplitObjectName :: "string \<Rightarrow> string \<times> string" where
  "SplitObjectName objectName =
     (if \<not> strings_Contains objectName ''.'' then (''default'', objectName)
      else (let names = strings_Split objectName (CHR ''.'') in (names ! 0, names ! 1)))"

section \<open>Privileges\<close>

definition PrivilegeWord :: string where
  "PrivilegeWord = ''Privilege''"

fun index_of_text :: "string \<Rightarrow> string \<Rightarrow> nat option" where
  "index_of_text [] sub = (if sub = [] then Some 0 else None)"
| "index_of_text (c # s) sub =
     (if is_prefix_of sub (c # s) then Some 0 else map_option Suc (index_of_text s sub))"

text \<open>\<open>strings.Index\<close> is -1 when the word does not occur.\<close>

definition MetaStore2API :: "string \<Rightarrow> (go_error, string) outcome" where
  "MetaStore2API name =
     (let index = (case index_of_text name PrivilegeWord of None \<Rightarrow> - 1 | Some i \<Rightarrow> int i)
      in go_slice name (index + int (length PrivilegeWord)) (int (length name)))"

text \<open>\<open>known\<close> are the names of \<open>commonpb.ObjectPrivilege_value\<close>.\<close>

definition PrivilegeNameForAPI :: "(string \<Rightarrow> bool) \<Rightarrow> string \<Rightarrow> (go_error, string) outcome" where
  "PrivilegeNameForAPI known name = (if \<not> known name then Ok [] else MetaStore2API name)"

definition PrivilegeNameForMetastore :: "(string \<Rightarrow> bool) \<Rightarrow> string \<Rightarrow> string" where
  "PrivilegeNameForMetastore known name =
     (let dbPrivilege = PrivilegeWord @ name in if \<not> known dbPrivilege then [] else dbPrivilege)"

definition IsAnyWord :: "string \<Rightarrow> bool" where
  "IsAnyWord word \<longleftrightarrow> word = ''*''"

definition IsBuiltinRole :: "string list \<Rightarrow> string \<Rightarrow> bool" where
  "IsBuiltinRole BuiltinRoles roleName = list_ex (\<lambda>builtinRole. builtinRole = roleName) BuiltinRoles"

definition StringSet :: "string list \<Rightarrow> string set" where
  "StringSet strings = fold insert strings {}"

definition StringList :: "string list \<Rightarrow> string list" where
  "StringList walk = foldl (\<lambda>strs k. strs @ [k]) [] walk"

text \<open>The privileges of each type of object, by the names of the enumeration.\<close>

definition ObjectPrivileges_names :: "(string \<times> string list) list" where
  "ObjectPrivileges_names = [
     (''Collection'', [''PrivilegeLoad'', ''PrivilegeRelease'', ''PrivilegeCompaction'', ''PrivilegeInsert'',
        ''PrivilegeDelete'', ''PrivilegeUpsert'', ''PrivilegeGetStatistics'', ''PrivilegeCreateIndex'',
        ''PrivilegeIndexDetail'', ''PrivilegeDropIndex'', ''PrivilegeSearch'', ''PrivilegeFlush'', ''PrivilegeQuery'',
        ''PrivilegeLoadBalance'', ''PrivilegeImport'', ''PrivilegeGetLoadingProgress'', ''PrivilegeGetLoadState'',
        ''PrivilegeCreatePartition'', ''PrivilegeDropPartition'', ''PrivilegeShowPartitions'',
        ''PrivilegeHasPartition'', ''PrivilegeGetFlushState'']),
     (''Global'', [''PrivilegeAll'', ''PrivilegeCreateCollection'', ''PrivilegeDropCollection'',
        ''PrivilegeDescribeCollection'', ''PrivilegeShowCollections'', ''PrivilegeRenameCollection'',
        ''PrivilegeCreateOwnership'', ''PrivilegeDropOwnership'', ''PrivilegeSelectOwnership'',
        ''PrivilegeManageOwnership'', ''PrivilegeCreateResourceGroup'', ''PrivilegeDropResourceGroup'',
        ''PrivilegeDescribeResourceGroup'', ''PrivilegeListResourceGroups'', ''PrivilegeTransferReplica'',
        ''PrivilegeTransferNode'', ''PrivilegeFlushAll'', ''PrivilegeCreateDatabase'', ''PrivilegeDropDatabase'',
        ''PrivilegeListDatabases'', ''PrivilegeCreateAlias'', ''PrivilegeDropAlias'', ''PrivilegeDescribeAlias'',
        ''PrivilegeListAliases'']),
     (''User'', [''PrivilegeUpdateUser'', ''PrivilegeSelectUser''])]"

definition ObjectPrivileges :: "(string \<times> (go_error, string) outcome list) list" where
  "ObjectPrivileges = map (\<lambda>(t, names). (t, map MetaStore2API names)) ObjectPrivileges_names"

definition RelatedPrivileges :: "string \<rightharpoonup> string list" where
  "RelatedPrivileges = [
     ''PrivilegeLoad'' \<mapsto> [''PrivilegeGetLoadState'', ''PrivilegeGetLoadingProgress''],
     ''PrivilegeFlush'' \<mapsto> [''PrivilegeGetFlushState'']]"


section \<open>Key-value pairs and maps\<close>

lemma Map2KeyValuePair_eq [simp]: "Map2KeyValuePair walk = walk"
proof -
  have "foldl (\<lambda>results (key, val). results @ [(key, val)]) xs walk = xs @ walk" for xs
    by (induction walk arbitrary: xs) auto
  then show ?thesis by (simp add: Map2KeyValuePair_def)
qed

lemma KeyValuePair2Map_eq: "KeyValuePair2Map kvs = NewKvPairs kvs"
  by (simp add: KeyValuePair2Map_def NewKvPairs_def)

text \<open>A map turned into pairs and back is the map again. A repeated key is read as its first value from the pairs and as its
  last from the map.\<close>

lemma pairs_roundtrip:
  assumes "distinct (map fst walk)"
  shows "KeyValuePair2Map (Map2KeyValuePair walk) = map_of walk"
proof -
  have "map_of (rev walk) k = Some v \<longleftrightarrow> map_of walk k = Some v" for k v
    using map_of_eq_Some_iff [of walk k v] map_of_eq_Some_iff [of "rev walk" k v] assms by (simp add: rev_map [symmetric])
  then have "map_of (rev walk) k = map_of walk k" for k by (metis not_Some_eq)
  then show ?thesis by (simp add: KeyValuePair2Map_eq NewKvPairs_eq fun_eq_iff)
qed

lemma GetAttr_first:
  "GetAttrByKeyFromRepeatedKV key kvs = (case map_of kvs key of Some v \<Rightarrow> Ok v | None \<Rightarrow> Err (ErrorString (''key '' @ key @ '' not found'')))"
  by (induction kvs) auto

lemma GetAttr_KeyValuePair2Map:
  assumes "distinct (map fst kvs)"
  shows "GetAttrByKeyFromRepeatedKV key kvs = Ok v \<longleftrightarrow> KeyValuePair2Map kvs key = Some v"
  using pairs_roundtrip [OF assms] by (auto simp: GetAttr_first split: option.splits)

lemma GetVecFieldIDs_eq: "GetVecFieldIDs schema = map FieldID (filter (\<lambda>f. IsVectorType (fs_DataType f)) (Fields schema))"
proof -
  have "foldl (\<lambda>ids field. if fs_DataType field = DT_BinaryVector \<or> fs_DataType field = DT_FloatVector
      then ids @ [FieldID field] else ids) xs fs = xs @ map FieldID (filter (\<lambda>f. IsVectorType (fs_DataType f)) fs)" for xs fs
    by (induction fs arbitrary: xs) (auto simp: IsVectorType_def)
  from this [of "[]"] show ?thesis by (simp add: GetVecFieldIDs_def)
qed

section \<open>Replacing a token\<close>

text \<open>Where a token occurs first.\<close>

definition first_at :: "string \<Rightarrow> string \<Rightarrow> string \<Rightarrow> string \<Rightarrow> bool" where
  "first_at a token b s \<longleftrightarrow> s = a @ token @ b \<and> (\<forall>a' b'. s = a' @ token @ b' \<longrightarrow> length a \<le> length a')"

lemma strings_Contains_iff: "strings_Contains s sub \<longleftrightarrow> (\<exists>a b. s = a @ sub @ b)"
proof (induction s)
  case (Cons c s)
  show ?case
  proof
    assume "strings_Contains (c # s) sub"
    then consider r where "c # s = [] @ sub @ r" | a b where "c # s = (c # a) @ sub @ b"
      using Cons by (auto simp: is_prefix_of_iff)
    then show "\<exists>a b. c # s = a @ sub @ b" by cases blast+
  next
    assume "\<exists>a b. c # s = a @ sub @ b"
    then obtain a b where ab: "c # s = a @ sub @ b" by blast
    show "strings_Contains (c # s) sub"
    proof (cases a)
      case Nil
      then have "is_prefix_of sub (c # s)" using ab by (metis append_Nil is_prefix_of_append)
      then show ?thesis by simp
    next
      case (Cons d a')
      then have "s = a' @ sub @ b" using ab by simp
      then show ?thesis using \<open>strings_Contains s sub \<longleftrightarrow> _\<close> by auto
    qed
  qed
qed auto

lemma replace_first_at:
  assumes "first_at a token b s" "token \<noteq> []"
  shows "replace_first s token to = a @ to @ b"
  using assms(1)
proof (induction s arbitrary: a)
  case (Cons c s)
  show ?case
  proof (cases a)
    case Nil
    then have "c # s = token @ b" using Cons.prems by (simp add: first_at_def)
    then show ?thesis using Nil by (metis append_Nil append_eq_conv_conj is_prefix_of_append replace_first.simps(2))
  next
    case (Cons d a')
    have s: "d = c" "s = a' @ token @ b" using Cons.prems Cons by (simp_all add: first_at_def)
    have "\<not> is_prefix_of token (c # s)"
      using Cons.prems Cons by (auto simp: first_at_def is_prefix_of_iff) (metis append_Nil list.size(3) not_less_eq_eq zero_le)
    moreover have "first_at a' token b s"
      using Cons.prems Cons s(1) by (auto simp: first_at_def) (metis append_Cons length_Cons Suc_le_mono)
    ultimately show ?thesis using Cons.IH Cons s(1) by simp
  qed
qed (use assms in \<open>simp add: first_at_def\<close>)

lemma first_occurrence:
  assumes "strings_Contains s token"
  shows "\<exists>a b. first_at a token b s"
proof -
  obtain p where "case p of (a, b) \<Rightarrow> s = a @ token @ b" using assms by (auto simp: strings_Contains_iff)
  from ex_has_least_nat [of "\<lambda>(a, b). s = a @ token @ b", OF this, of "length \<circ> fst"]
  show ?thesis by (auto simp: first_at_def)
qed

text \<open>Converting a channel name replaces the first occurrence of the token and nothing else; it fails exactly for an empty
  token and for one that does not occur. When the token is at the front, as the prefix of a channel is, converting back
  gives the name.\<close>

theorem ConvertChannelName_replaces:
  "(tokenFrom \<noteq> [] \<and> first_at a tokenFrom b chanName \<longrightarrow> ConvertChannelName chanName tokenFrom tokenTo = Ok (a @ tokenTo @ b))
   \<and> (is_Ok (ConvertChannelName chanName tokenFrom tokenTo) \<longleftrightarrow> tokenFrom \<noteq> [] \<and> (\<exists>a b. first_at a tokenFrom b chanName))
   \<and> (tokenFrom \<noteq> [] \<and> tokenTo \<noteq> [] \<longrightarrow>
       bindO (ConvertChannelName (tokenFrom @ rest) tokenFrom tokenTo) (\<lambda>name. ConvertChannelName name tokenTo tokenFrom)
         = Ok (tokenFrom @ rest))"
proof -
  have replaced: "ConvertChannelName s from' to = Ok (a @ to @ b)" if "from' \<noteq> []" "first_at a from' b s" for s from' to a b
    using that replace_first_at [OF that(2,1)] by (auto simp: ConvertChannelName_def first_at_def strings_Contains_iff)
  have front: "first_at [] t rest (t @ rest)" for t by (simp add: first_at_def)
  have "is_Ok (ConvertChannelName chanName tokenFrom tokenTo) \<longleftrightarrow> tokenFrom \<noteq> [] \<and> (\<exists>a b. first_at a tokenFrom b chanName)"
    using first_occurrence [of chanName tokenFrom]
    by (auto simp: ConvertChannelName_def first_at_def strings_Contains_iff)
  then show ?thesis using replaced [OF _ front] replaced by auto
qed

theorem ConvertChannelName_replaces_witness:
  "bindO (ConvertChannelName ''by-dev-dml_0'' ''by-dev'' ''in01'') (\<lambda>name. ConvertChannelName name ''in01'' ''by-dev'')
    = Ok ''by-dev-dml_0''"
  using ConvertChannelName_replaces [of "''by-dev''" "[]" "[]" "[]" "''in01''" "''-dml_0''"] by simp


section \<open>Users and roles\<close>

lemma LastIndex_None: "LastIndex s ch = None \<longleftrightarrow> ch \<notin> set s"
  by (induction s) (auto split: option.splits)

lemma LastIndex_append: "ch \<notin> set b \<Longrightarrow> LastIndex (a @ ch # b) ch = Some (length a)"
proof (induction a)
  case Nil
  then show ?case by (simp add: LastIndex_None [THEN iffD2])
qed simp

lemma LastIndex_Some: "LastIndex s ch = Some i \<Longrightarrow> s = take i s @ ch # drop (Suc i) s \<and> ch \<notin> set (drop (Suc i) s)"
proof (induction s arbitrary: i)
  case (Cons c s)
  then show ?case by (cases "LastIndex s ch") (auto simp: LastIndex_None split: if_splits)
qed simp

text \<open>A user and a role are read back from the cache whenever the role has no slash (the user may have some); what is
  decoded is encoded to the same text, and decoding fails exactly for texts without a slash.\<close>

theorem UserRoleCache_roundtrip:
  "(CHR ''/'' \<notin> set role \<longrightarrow> DecodeUserRoleCache (EncodeUserRoleCache user role) = Ok (user, role))
   \<and> (\<forall>u r. DecodeUserRoleCache cache = Ok (u, r) \<longrightarrow> EncodeUserRoleCache u r = cache \<and> CHR ''/'' \<notin> set r)
   \<and> (is_Ok (DecodeUserRoleCache cache) \<longleftrightarrow> CHR ''/'' \<in> set cache)"
proof -
  have "EncodeUserRoleCache u r = cache \<and> CHR ''/'' \<notin> set r" if d: "DecodeUserRoleCache cache = Ok (u, r)" for u r
  proof -
    obtain i where "LastIndex cache (CHR ''/'') = Some i" "u = take i cache" "r = drop (Suc i) cache"
      using d by (cases "LastIndex cache (CHR ''/'')") (auto simp: DecodeUserRoleCache_def)
    then show ?thesis using LastIndex_Some [of cache "CHR ''/''" i] by (simp add: EncodeUserRoleCache_def)
  qed
  moreover have "is_Ok (DecodeUserRoleCache cache) \<longleftrightarrow> CHR ''/'' \<in> set cache"
    using LastIndex_None [of cache "CHR ''/''"] by (auto simp: DecodeUserRoleCache_def split: option.splits)
  moreover have "DecodeUserRoleCache (EncodeUserRoleCache user role) = Ok (user, role)" if "CHR ''/'' \<notin> set role"
    using LastIndex_append [OF that] by (simp add: DecodeUserRoleCache_def EncodeUserRoleCache_def)
  ultimately show ?thesis by blast
qed

theorem UserRoleCache_roundtrip_witness:
  "DecodeUserRoleCache (EncodeUserRoleCache ''dev/alice'' ''admin'') = Ok (''dev/alice'', ''admin'')"
  using UserRoleCache_roundtrip [of "''admin''" "''dev/alice''" "[]"] by simp

text \<open>The physical channel of a virtual one: everything before the last underscore.\<close>

lemma ToPhysicalChannel_suffix: "CHR ''_'' \<notin> set rest \<Longrightarrow> ToPhysicalChannel (pchannel @ CHR ''_'' # rest) = pchannel"
  by (simp add: ToPhysicalChannel_def LastIndex_append)

section \<open>Objects and policies\<close>

lemma strings_Split_plain: "sep \<notin> set s \<Longrightarrow> strings_Split s sep = [s]"
  by (induction s) auto

lemma strings_Split_at: "sep \<notin> set a \<Longrightarrow> strings_Split (a @ sep # s) sep = a # strings_Split s sep"
proof (induction a)
  case (Cons c a)
  then show ?case by auto
qed simp

lemma strings_Contains_char: "strings_Contains s [c] \<longleftrightarrow> c \<in> set s"
  by (auto simp: strings_Contains_iff in_set_conv_decomp)

text \<open>A database and an object are read back from their combined name when no name has a point, a missing database as the
  default one; an object whose own name has a point is cut at it, so different objects are then taken for the same.\<close>

theorem SplitObjectName_roundtrip:
  "CHR ''.'' \<notin> set dbName \<Longrightarrow>
   (CHR ''.'' \<notin> set object' \<longrightarrow>
      SplitObjectName (CombineObjectName dbName object') = ((if dbName = [] then ''default'' else dbName), object'))
   \<and> (CHR ''.'' \<notin> set object' \<longrightarrow>
      SplitObjectName (CombineObjectName dbName (object' @ ''.'' @ suffix)) = SplitObjectName (CombineObjectName dbName object'))
   \<and> (CHR ''.'' \<notin> set object' \<longrightarrow> SplitObjectName object' = (''default'', object'))"
  by (auto simp: SplitObjectName_def CombineObjectName_def Let_def strings_Contains_char strings_Split_at strings_Split_plain)

theorem SplitObjectName_roundtrip_witness:
  "SplitObjectName (CombineObjectName ''db1'' ''books.v2'') = SplitObjectName (CombineObjectName ''db1'' ''books'')
   \<and> SplitObjectName (CombineObjectName [] ''books'') = (''default'', ''books'')"
  using SplitObjectName_roundtrip [of "''db1''" "''books''" "''v2''"] SplitObjectName_roundtrip [of "[]" "''books''" "[]"] by simp

text \<open>Policies are not told apart when names hold the separators, and a quotation mark in a name ends its field.\<close>

lemma PolicyForPrivilege_ambiguous:
  "PolicyForResource ''c'' ''a-b'' x = PolicyForResource ''b-c'' ''a'' x"
  "PolicyForPrivilege (r @ ''\",\"V1\":\"'' @ PolicyForResource d t x @ ''\",\"V2\":\"All\"}'') t' x' p d'
     = ''{\"PType\":\"p\",\"V0\":\"'' @ r @ ''\",\"V1\":\"'' @ PolicyForResource d t x @ ''\",\"V2\":\"All\"}''
         @ ''\",\"V1\":\"'' @ PolicyForResource d' t' x' @ ''\",\"V2\":\"'' @ p @ ''\"}''"
  by (simp_all add: PolicyForResource_def CombineObjectName_def PolicyForPrivilege_def)

lemma HandleTenant_simps:
  "HandleTenantForEtcdKey p [] [] = p" "k \<noteq> [] \<Longrightarrow> HandleTenantForEtcdKey p [] k = p @ ''/'' @ k"
  "t \<noteq> [] \<Longrightarrow> k \<noteq> [] \<Longrightarrow> HandleTenantForEtcdKey p t k = p @ ''/'' @ t @ ''/'' @ k"
  by (simp_all add: HandleTenantForEtcdKey_def)

lemma IsEmptyString_iff: "IsEmptyString s \<longleftrightarrow> list_all is_space s"
proof -
  have "dropWhile is_space (rev (dropWhile is_space s)) = [] \<longleftrightarrow> list_all is_space (dropWhile is_space s)"
    by (auto simp: list_all_iff dropWhile_eq_Nil_conv)
  also have "\<dots> \<longleftrightarrow> list_all is_space s" by (induction s) auto
  finally show ?thesis by (simp add: IsEmptyString_def TrimSpace_def)
qed

section \<open>The names of privileges\<close>

lemma MetaStore2API_name: "MetaStore2API (PrivilegeWord @ name) = Ok name"
proof -
  have "index_of_text (PrivilegeWord @ name) PrivilegeWord = Some 0" by (simp add: PrivilegeWord_def)
  then show ?thesis by (simp add: MetaStore2API_def go_slice_def)
qed

text \<open>When the protocol's names of privileges begin with "Privilege", the name of a privilege for the metadata store and
  its name for users are translated into each other, and names the protocol does not know become empty.\<close>

theorem Privilege_names_inverse:
  assumes "\<And>n. known n \<Longrightarrow> is_prefix_of PrivilegeWord n"
  shows "(known (PrivilegeWord @ name) \<longrightarrow> PrivilegeNameForAPI known (PrivilegeNameForMetastore known name) = Ok name)
    \<and> (known n \<longrightarrow> (\<exists>api. PrivilegeNameForAPI known n = Ok api \<and> PrivilegeNameForMetastore known api = n))
    \<and> (\<not> known n \<longrightarrow> PrivilegeNameForAPI known n = Ok [])
    \<and> (\<not> known (PrivilegeWord @ name) \<longrightarrow> PrivilegeNameForMetastore known name = [])"
proof -
  have "\<exists>api. PrivilegeNameForAPI known n = Ok api \<and> PrivilegeNameForMetastore known api = n" if k: "known n"
  proof -
    obtain r where "n = PrivilegeWord @ r" using assms [OF k] by (auto simp: is_prefix_of_iff)
    then show ?thesis using k by (simp add: PrivilegeNameForAPI_def PrivilegeNameForMetastore_def MetaStore2API_name)
  qed
  then show ?thesis by (auto simp: PrivilegeNameForAPI_def PrivilegeNameForMetastore_def MetaStore2API_name)
qed

theorem Privilege_names_inverse_witness:
  "PrivilegeNameForAPI (\<lambda>n. n = ''PrivilegeLoad'') (PrivilegeNameForMetastore (\<lambda>n. n = ''PrivilegeLoad'') ''Load'') = Ok ''Load''"
  using Privilege_names_inverse [of "\<lambda>n. n = ''PrivilegeLoad''" "''Load''" "[]"] by (simp add: PrivilegeWord_def)

text \<open>The table of privileges translates without a panic, and every related privilege is one of the table.\<close>

lemma ObjectPrivileges_Ok:
  "list_all (\<lambda>(t, names). list_all (is_prefix_of PrivilegeWord) names) ObjectPrivileges_names"
  "list_all (\<lambda>(t, names). list_all is_Ok names) ObjectPrivileges"
proof -
  show names: "list_all (\<lambda>(t, names). list_all (is_prefix_of PrivilegeWord) names) ObjectPrivileges_names"
    by (simp add: ObjectPrivileges_names_def PrivilegeWord_def)
  have "is_Ok (MetaStore2API n)" if "is_prefix_of PrivilegeWord n" for n
    using that MetaStore2API_name by (auto simp: is_prefix_of_iff)
  then show "list_all (\<lambda>(t, names). list_all is_Ok names) ObjectPrivileges"
    using names by (fastforce simp: ObjectPrivileges_def list_all_iff)
qed

text \<open>A name without the word is cut after eight characters, or panics when it is shorter.\<close>

lemma MetaStore2API_without_word:
  assumes "index_of_text name PrivilegeWord = None"
  shows "MetaStore2API name = (if length name < 8 then Panic ''slice bounds out of range'' else Ok (drop 8 name))"
  using assms by (simp add: MetaStore2API_def go_slice_def PrivilegeWord_def nat_diff_distrib)

section \<open>Codes of gRPC\<close>

text \<open>The code of the outermost error of the chain that has a status decides.\<close>

lemma IsGrpcErr_chain:
  "IsGrpcErr FromError targets None = False"
  "FromError e = Some code \<Longrightarrow> IsGrpcErr FromError targets (Some e) \<longleftrightarrow> targets = [] \<or> code \<in> set targets"
  "FromError e = None \<Longrightarrow> IsGrpcErr FromError targets (Some e) = IsGrpcErr FromError targets (Unwrap e)"
  by (auto simp: IsGrpcErr.simps [of FromError targets] card_eq_0_iff)

end
