(* ===== verification/Common.thy ===== *)
theory Common
  imports Merr
begin

text \<open>
  Shared data of pkg/common, the cache of metrics and the names of components of pkg/util/metricsinfo, and small checks of
  pkg/util/typeutil and pkg/util/funcutil.

  A slice is \<open>None\<close> when it is nil, since \<open>reflect.DeepEqual\<close> tells nil from empty. A map is a partial function; a map that
  may be nil is an option of one. JSON is a parameter (\<open>json_codec\<close>), as are the random numbers.
\<close>

section \<open>Clones and comparisons\<close>

type_synonym ByteSlice = "bytes option"

definition slice_items :: "'a list option \<Rightarrow> 'a list" where
  "slice_items s = (case s of None \<Rightarrow> [] | Some xs \<Rightarrow> xs)"

definition ByteSlice_Clone :: "ByteSlice \<Rightarrow> ByteSlice" where
  "ByteSlice_Clone s = Some (slice_items s)"

definition ByteSlice_Equal :: "ByteSlice \<Rightarrow> ByteSlice \<Rightarrow> bool" where
  "ByteSlice_Equal s other = (s = other)"

text \<open>A pair of a message may be nil; the getters of a nil pair give zero values.\<close>

type_synonym 'a pairs = "(string \<times> 'a) option list"

definition PairKey :: "(string \<times> 'a) option \<Rightarrow> string" where
  "PairKey p = (case p of None \<Rightarrow> [] | Some (k, _) \<Rightarrow> k)"

definition PairData :: "'a \<Rightarrow> (string \<times> 'a) option \<Rightarrow> 'a" where
  "PairData zero p = (case p of None \<Rightarrow> zero | Some (_, v) \<Rightarrow> v)"

definition KeyDataPairs_Clone :: "ByteSlice pairs \<Rightarrow> ByteSlice pairs" where
  "KeyDataPairs_Clone ps = foldl (\<lambda>clone p. clone @ [Some (PairKey p, ByteSlice_Clone (PairData None p))]) [] ps"

definition KeyDataPairs_ToMap :: "ByteSlice pairs \<Rightarrow> string \<rightharpoonup> ByteSlice" where
  "KeyDataPairs_ToMap ps = foldl (\<lambda>ret p. ret(PairKey p \<mapsto> ByteSlice_Clone (PairData None p))) Map.empty ps"

text \<open>\<open>reflect.DeepEqual\<close> of two maps, which are made by walking the given pairs: the same keys with the same values.\<close>

definition maps_DeepEqual :: "string list \<Rightarrow> (string \<rightharpoonup> 'a) \<Rightarrow> (string \<rightharpoonup> 'a) \<Rightarrow> bool" where
  "maps_DeepEqual keys m n = list_all (\<lambda>k. m k = n k) keys"

definition KeyDataPairs_Equal :: "ByteSlice pairs \<Rightarrow> ByteSlice pairs \<Rightarrow> bool" where
  "KeyDataPairs_Equal ps other =
     maps_DeepEqual (map PairKey ps @ map PairKey other) (KeyDataPairs_ToMap ps) (KeyDataPairs_ToMap other)"

definition KeyValuePairs_Clone :: "string pairs \<Rightarrow> string pairs" where
  "KeyValuePairs_Clone ps = foldl (\<lambda>clone p. clone @ [Some (PairKey p, PairData [] p)]) [] ps"

definition KeyValuePairs_ToMap :: "string pairs \<Rightarrow> string \<rightharpoonup> string" where
  "KeyValuePairs_ToMap ps = foldl (\<lambda>ret p. ret(PairKey p \<mapsto> PairData [] p)) Map.empty ps"

definition KeyValuePairs_Equal :: "string pairs \<Rightarrow> string pairs \<Rightarrow> bool" where
  "KeyValuePairs_Equal ps other =
     maps_DeepEqual (map PairKey ps @ map PairKey other) (KeyValuePairs_ToMap ps) (KeyValuePairs_ToMap other)"

text \<open>The walk lists the entries of the map, if it is not nil.\<close>

definition Str2Str_Clone :: "(string \<times> string) list option \<Rightarrow> (string \<rightharpoonup> string) option" where
  "Str2Str_Clone walk =
     (case walk of None \<Rightarrow> None | Some w \<Rightarrow> Some (foldl (\<lambda>clone (key, v). clone(key \<mapsto> v)) Map.empty w))"

definition StringList_Clone :: "string list option \<Rightarrow> string list option" where
  "StringList_Clone l = Some (foldl (\<lambda>clone s. clone @ [s]) [] (slice_items l))"

fun StringList_Equal_loop :: "string list \<Rightarrow> string list \<Rightarrow> nat \<Rightarrow> nat \<Rightarrow> bool" where
  "StringList_Equal_loop l other i 0 = True"
| "StringList_Equal_loop l other i (Suc n) = (if l ! i \<noteq> other ! i then False else StringList_Equal_loop l other (i + 1) n)"

definition StringList_Equal :: "string list option \<Rightarrow> string list option \<Rightarrow> bool" where
  "StringList_Equal l other =
     (if length (slice_items l) \<noteq> length (slice_items other) then False
      else StringList_Equal_loop (slice_items l) (slice_items other) 0 (length (slice_items l)))"

definition StartOfUserFieldID :: int where "StartOfUserFieldID = 100"

definition IsSystemField :: "int \<Rightarrow> bool" where
  "IsSystemField fieldID \<longleftrightarrow> fieldID < StartOfUserFieldID"

section \<open>Errors\<close>

definition ErrNodeIDNotMatch :: go_error where
  "ErrNodeIDNotMatch = ErrorString ''target node id not match''"

text \<open>\<open>fmt.Errorf\<close> with \<open>%w\<close>: the text around the wrapped error comes after it.\<close>

record wrapped_error =
  we_text :: string
  we_Unwrap :: go_error

definition WrapNodeIDNotMatchMsg :: "int \<Rightarrow> int \<Rightarrow> string" where
  "WrapNodeIDNotMatchMsg targetID nodeID =
     ''target node id not match'' @ '' target id = '' @ string_of_int targetID @ '', node id = '' @ string_of_int nodeID"

definition WrapNodeIDNotMatchError :: "int \<Rightarrow> int \<Rightarrow> wrapped_error" where
  "WrapNodeIDNotMatchError targetID nodeID =
     \<lparr>we_text = ''target node id not match'' @ '' target id = '' @ string_of_int targetID @ '', node id = '' @ string_of_int nodeID,
      we_Unwrap = ErrNodeIDNotMatch\<rparr>"

text \<open>Errors by their dynamic type: only the outermost is looked at.\<close>

datatype typed_error = IgnorableError string | OtherError string | Wrapping string typed_error

fun typed_text :: "typed_error \<Rightarrow> string" where
  "typed_text (IgnorableError msg) = msg"
| "typed_text (OtherError msg) = msg"
| "typed_text (Wrapping msg e) = msg @ '': '' @ typed_text e"

definition NewIgnorableError :: "typed_error \<Rightarrow> typed_error" where
  "NewIgnorableError err = IgnorableError (typed_text err)"

definition IsIgnorableError :: "typed_error option \<Rightarrow> bool" where
  "IsIgnorableError err = (case err of Some (IgnorableError _) \<Rightarrow> True | _ \<Rightarrow> False)"

section \<open>The cache of metrics\<close>

definition DefaultMetricsRetention :: int where "DefaultMetricsRetention = 5000000000"

record 'm MetricsCacheManager =
  systemInfoMetrics :: "'m option"
  systemInfoMetricsInvalid :: bool
  systemInfoMetricsLastUpdatedTime :: int
  retention :: int

definition NewMetricsCacheManager :: "int \<Rightarrow> 'm MetricsCacheManager" where
  "NewMetricsCacheManager now =
     \<lparr>systemInfoMetrics = None, systemInfoMetricsInvalid = False, systemInfoMetricsLastUpdatedTime = now,
      retention = DefaultMetricsRetention\<rparr>"

definition SetRetention :: "int \<Rightarrow> 'm MetricsCacheManager \<Rightarrow> 'm MetricsCacheManager" where
  "SetRetention r c = c\<lparr>retention := r\<rparr>"

definition ResetRetention :: "'m MetricsCacheManager \<Rightarrow> 'm MetricsCacheManager" where
  "ResetRetention c = c\<lparr>retention := DefaultMetricsRetention\<rparr>"

definition InvalidateSystemInfoMetrics :: "'m MetricsCacheManager \<Rightarrow> 'm MetricsCacheManager" where
  "InvalidateSystemInfoMetrics c = c\<lparr>systemInfoMetricsInvalid := True\<rparr>"

definition IsSystemInfoMetricsValid :: "int \<Rightarrow> 'm MetricsCacheManager \<Rightarrow> bool" where
  "IsSystemInfoMetricsValid now c \<longleftrightarrow>
     \<not> systemInfoMetricsInvalid c \<and> systemInfoMetrics c \<noteq> None \<and> now - systemInfoMetricsLastUpdatedTime c < retention c"

definition GetSystemInfoMetrics :: "int \<Rightarrow> 'm MetricsCacheManager \<Rightarrow> (go_error, 'm) outcome" where
  "GetSystemInfoMetrics now c =
     (case systemInfoMetrics c of
        None \<Rightarrow> Err (ErrorString ''system infos metric is invalid'')
      | Some m \<Rightarrow>
          if systemInfoMetricsInvalid c \<or> now - systemInfoMetricsLastUpdatedTime c \<ge> retention c
          then Err (ErrorString ''system infos metric is invalid'') else Ok m)"

definition UpdateSystemInfoMetrics :: "'m option \<Rightarrow> int \<Rightarrow> 'm MetricsCacheManager \<Rightarrow> 'm MetricsCacheManager" where
  "UpdateSystemInfoMetrics infos now c =
     c\<lparr>systemInfoMetrics := infos, systemInfoMetricsInvalid := False, systemInfoMetricsLastUpdatedTime := now\<rparr>"

section \<open>Requests and names\<close>

text \<open>What JSON decoding an object gives for a key: a string, or anything else.\<close>

datatype json_value = JString string | JOther

record json_codec =
  json_Unmarshal :: "string \<Rightarrow> (string, (string \<times> json_value) list) outcome"
  json_Marshal :: "(string \<times> json_value) list \<Rightarrow> (string, string) outcome"

definition MetricTypeKey :: string where "MetricTypeKey = ''metric_type''"

definition ParseMetricType :: "json_codec \<Rightarrow> string \<Rightarrow> (go_error, string) outcome" where
  "ParseMetricType json req =
     (case json_Unmarshal json req of
        Err e \<Rightarrow> Err (ErrorString (''failed to decode the request: '' @ e))
      | Panic p \<Rightarrow> Panic p
      | Ok m \<Rightarrow>
          (case map_of m MetricTypeKey of
             None \<Rightarrow> Err (ErrorString (MetricTypeKey @ '' not found in request''))
           | Some (JString s) \<Rightarrow> Ok s
           | Some JOther \<Rightarrow> Panic ''interface conversion''))"

definition ConstructRequestByMetricType :: "json_codec \<Rightarrow> string \<Rightarrow> (go_error, string) outcome" where
  "ConstructRequestByMetricType json metricType =
     (case json_Marshal json [(MetricTypeKey, JString metricType)] of
        Err e \<Rightarrow> Err (ErrorString (''failed to construct request by metric type '' @ metricType @ '': '' @ e))
      | Panic p \<Rightarrow> Panic p
      | Ok binary \<Rightarrow> Ok binary)"

definition ConstructComponentName :: "string \<Rightarrow> int \<Rightarrow> string" where
  "ConstructComponentName role i = role @ string_of_int i"

record DeployMetrics =
  SystemVersion :: string
  DeployMode :: string
  BuildVersion :: string
  BuildTime :: string
  UsedGoVersion :: string

definition FillDeployMetricsWithEnv :: "(string \<Rightarrow> string) \<Rightarrow> DeployMetrics \<Rightarrow> DeployMetrics" where
  "FillDeployMetricsWithEnv Getenv m =
     m\<lparr>SystemVersion := Getenv ''MILVUS_GIT_COMMIT'', DeployMode := Getenv ''DEPLOY_MODE'',
       BuildVersion := Getenv ''MILVUS_GIT_BUILD_TAGS'', UsedGoVersion := Getenv ''MILVUS_USED_GO_VERSION'',
       BuildTime := Getenv ''MILVUS_BUILD_TIME''\<rparr>"

definition serverTypes :: "string list" where
  "serverTypes =
     [''standalone'', ''rootcoord'', ''proxy'', ''querycoord'', ''querynode'', ''indexnode'', ''datacoord'', ''datanode'']"

section \<open>Floating-point numbers and random texts\<close>

text \<open>What \<open>math\<close> tells of a number, and what \<open>%f\<close> prints for it.\<close>

record 'f float_tests =
  IsNaN :: "'f \<Rightarrow> bool"
  IsInf :: "'f \<Rightarrow> int \<Rightarrow> bool"
  Sprint_f :: "'f \<Rightarrow> string"

definition VerifyFloat :: "'f float_tests \<Rightarrow> 'f \<Rightarrow> (go_error, unit) outcome" where
  "VerifyFloat fl v =
     (if IsNaN fl v \<or> IsInf fl v (- 1) \<or> IsInf fl v 1
      then Err (ErrorString (''value '' @ [CHR 0x27] @ Sprint_f fl v @ [CHR 0x27] @ '' is not a number or infinity'')) else Ok ())"

definition VerifyFloats64 :: "'f float_tests \<Rightarrow> 'f list \<Rightarrow> (go_error, unit) outcome" where
  "VerifyFloats64 fl vs = foldO (\<lambda>_ f. VerifyFloat fl f) () vs"

definition letterRunes :: string where
  "letterRunes = ''abcdefghijklmnopqrstuvwxyzABCDEFGHIJKLMNOPQRSTUVWXYZ''"

text \<open>\<open>Intn\<close> gives for each call a number below its argument.\<close>

definition RandomBytes :: "(nat \<Rightarrow> nat \<Rightarrow> nat) \<Rightarrow> nat \<Rightarrow> string" where
  "RandomBytes Intn n = map (\<lambda>i. letterRunes ! Intn i (length letterRunes)) [0..<n]"

definition GenRandomBytes :: "uint64 \<Rightarrow> (nat \<Rightarrow> bytes option) \<Rightarrow> ByteSlice" where
  "GenRandomBytes draw read = (let l = unat draw mod 10 + 1 in read l)"

section \<open>Clones are equal\<close>

lemma foldl_snoc: "foldl (\<lambda>ys x. ys @ [f x]) acc xs = acc @ map f xs"
  by (induction xs arbitrary: acc) simp_all

lemma pairs_None: "k \<notin> set (map g ps) \<Longrightarrow> foldl (\<lambda>ret p. ret(g p \<mapsto> f p)) m ps k = m k"
  by (induction ps arbitrary: m) auto

lemma maps_equal: "(\<And>k. k \<notin> set keys \<Longrightarrow> m k = n k) \<Longrightarrow> maps_DeepEqual keys m n \<longleftrightarrow> m = n"
  by (auto simp: maps_DeepEqual_def list_all_iff fun_eq_iff)

lemma KeyDataPairs_Equal_iff: "KeyDataPairs_Equal ps qs \<longleftrightarrow> KeyDataPairs_ToMap ps = KeyDataPairs_ToMap qs"
proof -
  have "KeyDataPairs_ToMap ps k = KeyDataPairs_ToMap qs k" if "k \<notin> set (map PairKey ps @ map PairKey qs)" for k
    using that pairs_None [of k PairKey _ "\<lambda>p. ByteSlice_Clone (PairData None p)" Map.empty] by (simp add: KeyDataPairs_ToMap_def)
  then show ?thesis unfolding KeyDataPairs_Equal_def by (rule maps_equal)
qed

lemma KeyValuePairs_Equal_iff: "KeyValuePairs_Equal ps qs \<longleftrightarrow> KeyValuePairs_ToMap ps = KeyValuePairs_ToMap qs"
proof -
  have "KeyValuePairs_ToMap ps k = KeyValuePairs_ToMap qs k" if "k \<notin> set (map PairKey ps @ map PairKey qs)" for k
    using that pairs_None [of k PairKey ps "PairData []" Map.empty] pairs_None [of k PairKey qs "PairData []" Map.empty] by (simp add: KeyValuePairs_ToMap_def)
  then show ?thesis unfolding KeyValuePairs_Equal_def by (rule maps_equal)
qed

lemma clone_map:
  "foldl (\<lambda>ret p. ret(PairKey p \<mapsto> f (PairData z p))) m (map (\<lambda>p. Some (PairKey p, g (PairData y p))) ps)
     = foldl (\<lambda>ret p. ret(PairKey p \<mapsto> f (g (PairData y p)))) m ps"
  by (induction ps arbitrary: m) (simp_all add: PairKey_def PairData_def)

lemma StringList_loop:
  "i + n = length l \<Longrightarrow> length l = length other \<Longrightarrow> StringList_Equal_loop l other i n \<longleftrightarrow> drop i l = drop i other"
proof (induction n arbitrary: i)
  case (Suc n)
  then have "drop i l = l ! i # drop (i + 1) l" "drop i other = other ! i # drop (i + 1) other" by (simp_all add: Cons_nth_drop_Suc)
  then show ?case using Suc by simp
qed simp

lemma StringList_Equal_iff: "StringList_Equal l other \<longleftrightarrow> slice_items l = slice_items other"
  using StringList_loop [of 0 "length (slice_items l)" "slice_items l" "slice_items other"] by (auto simp: StringList_Equal_def)

lemma Str2Str_Clone_eq: "distinct (map fst w) \<Longrightarrow> Str2Str_Clone (Some w) = Some (map_of w)"
proof -
  assume "distinct (map fst w)"
  then have "foldl (\<lambda>clone (key, v). clone(key \<mapsto> v)) m w = m ++ map_of w" for m
    by (induction w arbitrary: m) (auto simp: map_add_upd_left dom_map_of_conv_image_fst)
  then show ?thesis by (simp add: Str2Str_Clone_def)
qed

text \<open>A clone is equal to what it was made from, for pairs, maps and lists of texts, and pairs are equal exactly when
  they are the same map, whatever their order and their repetitions; but a nil slice of bytes has a clone that is not
  equal to it, since the clone is empty and not nil.\<close>

theorem Clone_equal:
  "KeyDataPairs_Equal (KeyDataPairs_Clone ps) ps \<and> KeyValuePairs_Equal (KeyValuePairs_Clone qs) qs
   \<and> StringList_Equal (StringList_Clone l) l
   \<and> (KeyDataPairs_Equal ps ps' \<longleftrightarrow> KeyDataPairs_ToMap ps = KeyDataPairs_ToMap ps')
   \<and> (KeyValuePairs_Equal qs qs' \<longleftrightarrow> KeyValuePairs_ToMap qs = KeyValuePairs_ToMap qs')
   \<and> (ByteSlice_Equal (ByteSlice_Clone b) b \<longleftrightarrow> b \<noteq> None)"
proof -
  have idem: "ByteSlice_Clone (ByteSlice_Clone s) = ByteSlice_Clone s" for s by (simp add: ByteSlice_Clone_def slice_items_def)
  have "KeyDataPairs_ToMap (KeyDataPairs_Clone ps) = KeyDataPairs_ToMap ps"
    unfolding KeyDataPairs_ToMap_def KeyDataPairs_Clone_def foldl_snoc append_Nil clone_map by (simp add: idem)
  moreover have "KeyValuePairs_ToMap (KeyValuePairs_Clone qs) = KeyValuePairs_ToMap qs"
    using clone_map [of "\<lambda>v. v" "[]" Map.empty "\<lambda>v. v" "[]" qs] by (simp add: KeyValuePairs_ToMap_def KeyValuePairs_Clone_def foldl_snoc)
  moreover have "StringList_Equal (StringList_Clone l) l"
    using foldl_snoc [of "\<lambda>s. s" "[]" "slice_items l"] by (simp add: StringList_Equal_iff StringList_Clone_def slice_items_def)
  moreover have "ByteSlice_Equal (ByteSlice_Clone b) b \<longleftrightarrow> b \<noteq> None"
    by (cases b) (simp_all add: ByteSlice_Equal_def ByteSlice_Clone_def slice_items_def)
  ultimately show ?thesis by (simp add: KeyDataPairs_Equal_iff KeyValuePairs_Equal_iff)
qed

section \<open>The cache answers with what is fresh\<close>

datatype 'm cache_op = Update "'m option" int | Invalidate | Retain int | RetainDefault

fun cache_do :: "'m cache_op \<Rightarrow> 'm MetricsCacheManager \<Rightarrow> 'm MetricsCacheManager" where
  "cache_do (Update infos now) c = UpdateSystemInfoMetrics infos now c"
| "cache_do Invalidate c = InvalidateSystemInfoMetrics c"
| "cache_do (Retain r) c = SetRetention r c"
| "cache_do RetainDefault c = ResetRetention c"

text \<open>Of the operations, the last first: the last update that stored something, when nothing has invalidated it since, and
  the retention that was set last.\<close>

fun last_stored :: "'m cache_op list \<Rightarrow> ('m \<times> int) option" where
  "last_stored [] = None"
| "last_stored (Update infos t # ops) = map_option (\<lambda>m. (m, t)) infos"
| "last_stored (Invalidate # ops) = None"
| "last_stored (_ # ops) = last_stored ops"

fun last_retention :: "'m cache_op list \<Rightarrow> int" where
  "last_retention [] = 5000000000"
| "last_retention (Retain r # ops) = r"
| "last_retention (RetainDefault # ops) = 5000000000"
| "last_retention (_ # ops) = last_retention ops"

lemma cache_after:
  "let c = foldr cache_do ops (NewMetricsCacheManager t0)
   in retention c = last_retention ops
      \<and> (case last_stored ops of
           None \<Rightarrow> systemInfoMetricsInvalid c \<or> systemInfoMetrics c = None
         | Some (m, t) \<Rightarrow> \<not> systemInfoMetricsInvalid c \<and> systemInfoMetrics c = Some m \<and> systemInfoMetricsLastUpdatedTime c = t)"
proof (induction ops)
  case (Cons op ops)
  show ?case
  proof (cases op)
    case (Update infos t)
    then show ?thesis using Cons by (cases infos) (simp_all add: Let_def UpdateSystemInfoMetrics_def)
  qed (use Cons in \<open>auto simp: Let_def InvalidateSystemInfoMetrics_def SetRetention_def ResetRetention_def
      DefaultMetricsRetention_def split: option.splits\<close>)
qed (simp add: NewMetricsCacheManager_def DefaultMetricsRetention_def)

text \<open>After any sequence of updates, invalidations and changes of the retention the cache answers with what the last update
  stored, exactly when that update is younger than the retention set last and nothing has invalidated it since; in every
  other case it answers with an error, and \<open>IsSystemInfoMetricsValid\<close> tells which.\<close>

theorem MetricsCache_fresh:
  "let c = foldl (\<lambda>c op. cache_do op c) (NewMetricsCacheManager t0) ops
   in GetSystemInfoMetrics now c =
        (case last_stored (rev ops) of
           Some (m, t) \<Rightarrow>
             if now - t < last_retention (rev ops) then Ok m else Err (ErrorString ''system infos metric is invalid'')
         | None \<Rightarrow> Err (ErrorString ''system infos metric is invalid''))
      \<and> (IsSystemInfoMetricsValid now c \<longleftrightarrow> is_Ok (GetSystemInfoMetrics now c))"
  using cache_after [of "rev ops" t0]
  by (auto simp: Let_def foldr_conv_foldl GetSystemInfoMetrics_def IsSystemInfoMetricsValid_def split: option.splits)

section \<open>Requests, names and texts\<close>

text \<open>The type of a request that was constructed is read back; a request whose type is not a string panics.\<close>

lemma ParseMetricType_constructed:
  assumes "\<And>m s. json_Marshal json m = Ok s \<Longrightarrow> json_Unmarshal json s = Ok m"
    and "ConstructRequestByMetricType json metricType = Ok req"
  shows "ParseMetricType json req = Ok metricType"
  using assms by (auto simp: ConstructRequestByMetricType_def ParseMetricType_def split: outcome.splits)

lemma ParseMetricType_panics:
  "json_Unmarshal json req = Ok [(MetricTypeKey, JOther)] \<Longrightarrow> is_Panic (ParseMetricType json req)"
  by (simp add: ParseMetricType_def)

lemma RandomBytes_letters:
  assumes "\<And>i. Intn i 52 < 52"
  shows "length (RandomBytes Intn n) = n \<and> set (RandomBytes Intn n) \<subseteq> set letterRunes"
proof -
  have "length letterRunes = 52" by (simp add: letterRunes_def)
  then show ?thesis using assms by (auto simp: RandomBytes_def)
qed

text \<open>An error that may be ignored must not be wrapped.\<close>

lemma IsIgnorableError_wrapped:
  "IsIgnorableError (Some (NewIgnorableError e))" "\<not> IsIgnorableError (Some (Wrapping msg (NewIgnorableError e)))"
  by (simp_all add: IsIgnorableError_def NewIgnorableError_def)

text \<open>A list is checked up to the first number that is none.\<close>

lemma VerifyFloats64_Ok:
  "is_Ok (VerifyFloats64 fl vs) \<longleftrightarrow> (\<forall>v\<in>set vs. \<not> IsNaN fl v \<and> \<not> IsInf fl v (- 1) \<and> \<not> IsInf fl v 1)"
  by (induction vs) (auto simp: VerifyFloats64_def VerifyFloat_def)

end
