(* ===== verification/Futures.thy ===== *)
theory Futures
  imports Merr
begin

text \<open>
  Concurrency helpers: futures, their pool options and single flights (pkg/util/conc), and the checkers and recorders of
  times (pkg/util/timerecord).

  \<^item> Futures live in a store, since a future may be awaited twice. A step is the end of a future's function, with any
    result, or a move of the goroutine in \<open>AwaitAll\<close>.
  \<^item> The checkers of groups live in a store too. Every access to a shared map or channel is a step of its own, so the
    calls of \<open>GetGroupChecker\<close>, \<open>Stop\<close> and \<open>Check\<close> and the working goroutines interleave in any order.
  \<^item> The clock is an argument; printing to the log and to spans is left out.
\<close>

section \<open>Futures\<close>

record 'a Future =
  fut_closed :: bool
  fut_value :: 'a
  fut_err :: "go_error option"

definition newFuture :: "'a \<Rightarrow> 'a Future" where
  "newFuture zero = \<lparr>fut_closed = False, fut_value = zero, fut_err = None\<rparr>"

text \<open>What the function of \<open>Go\<close> returns is stored before the channel is closed.\<close>

definition future_end :: "'a \<Rightarrow> go_error option \<Rightarrow> 'a Future \<Rightarrow> 'a Future" where
  "future_end v e f = f\<lparr>fut_value := v, fut_err := e, fut_closed := True\<rparr>"

text \<open>The readers wait for the channel: \<open>None\<close> as long as it is open.\<close>

definition future_Await :: "'a Future \<Rightarrow> ('a \<times> go_error option) option" where
  "future_Await f = (if fut_closed f then Some (fut_value f, fut_err f) else None)"

definition future_Value :: "'a Future \<Rightarrow> 'a option" where
  "future_Value f = (if fut_closed f then Some (fut_value f) else None)"

definition future_OK :: "'a Future \<Rightarrow> bool option" where
  "future_OK f = (if fut_closed f then Some (fut_err f = None) else None)"

definition future_Err :: "'a Future \<Rightarrow> go_error option option" where
  "future_Err f = (if fut_closed f then Some (fut_err f) else None)"

text \<open>A goroutine in \<open>AwaitAll\<close>: at the future with an index, waiting for the error of the one that has failed, or
  returned.\<close>

datatype waiter = AwaitAt nat | ErrOf nat | Returned "go_error option"

record 'a await_state =
  store :: "nat \<Rightarrow> 'a Future"
  awaited :: "nat list"
  waiter :: waiter

inductive await_step :: "'a await_state \<Rightarrow> 'a await_state \<Rightarrow> bool" where
  fn_returns: "\<not> fut_closed (store s i) \<Longrightarrow> await_step s (s\<lparr>store := (store s)(i := future_end v e (store s i))\<rparr>)"
| await_ok: "waiter s = AwaitAt k \<Longrightarrow> k < length (awaited s) \<Longrightarrow> future_OK (store s (awaited s ! k)) = Some True \<Longrightarrow>
    await_step s (s\<lparr>waiter := AwaitAt (k + 1)\<rparr>)"
| await_failed: "waiter s = AwaitAt k \<Longrightarrow> k < length (awaited s) \<Longrightarrow> future_OK (store s (awaited s ! k)) = Some False \<Longrightarrow>
    await_step s (s\<lparr>waiter := ErrOf k\<rparr>)"
| await_err: "waiter s = ErrOf k \<Longrightarrow> future_Err (store s (awaited s ! k)) = Some e \<Longrightarrow>
    await_step s (s\<lparr>waiter := Returned e\<rparr>)"
| await_end: "waiter s = AwaitAt k \<Longrightarrow> length (awaited s) \<le> k \<Longrightarrow> await_step s (s\<lparr>waiter := Returned None\<rparr>)"

definition AwaitAll :: "(nat \<Rightarrow> 'a Future) \<Rightarrow> nat list \<Rightarrow> 'a await_state" where
  "AwaitAll st fs = \<lparr>store = st, awaited = fs, waiter = AwaitAt 0\<rparr>"

section \<open>Options of a pool\<close>

record poolOption =
  preAlloc :: bool
  nonBlocking :: bool
  expiryDuration :: int
  disablePurge :: bool
  concealPanic :: bool
  panicHandler :: "nat option"
  preHandler :: "nat option"

text \<open>Handlers are named by numbers. The options of the pool library; the default handler logs and panics again unless
  panics are concealed.\<close>

datatype ants_option =
  WithPreAllocOption bool | WithNonblockingOption bool | WithDisablePurgeOption bool
| WithDefaultPanicHandler bool | WithPanicHandlerOption nat | WithExpiryDurationOption int

definition antsOptions :: "poolOption \<Rightarrow> ants_option list" where
  "antsOptions opt =
     [WithPreAllocOption (preAlloc opt), WithNonblockingOption (nonBlocking opt), WithDisablePurgeOption (disablePurge opt),
      WithDefaultPanicHandler (\<not> concealPanic opt)]
     @ (case panicHandler opt of None \<Rightarrow> [] | Some h \<Rightarrow> [WithPanicHandlerOption h])
     @ (if expiryDuration opt > 0 then [WithExpiryDurationOption (expiryDuration opt)] else [])"

definition defaultPoolOption :: poolOption where
  "defaultPoolOption = \<lparr>preAlloc = False, nonBlocking = False, expiryDuration = 0, disablePurge = False, concealPanic = False,
     panicHandler = None, preHandler = None\<rparr>"

definition WithPreAlloc :: "bool \<Rightarrow> poolOption \<Rightarrow> poolOption" where
  "WithPreAlloc v opt = opt\<lparr>preAlloc := v\<rparr>"

definition WithNonBlocking :: "bool \<Rightarrow> poolOption \<Rightarrow> poolOption" where
  "WithNonBlocking v opt = opt\<lparr>nonBlocking := v\<rparr>"

definition WithDisablePurge :: "bool \<Rightarrow> poolOption \<Rightarrow> poolOption" where
  "WithDisablePurge v opt = opt\<lparr>disablePurge := v\<rparr>"

definition WithExpiryDuration :: "int \<Rightarrow> poolOption \<Rightarrow> poolOption" where
  "WithExpiryDuration d opt = opt\<lparr>expiryDuration := d\<rparr>"

definition WithConcealPanic :: "bool \<Rightarrow> poolOption \<Rightarrow> poolOption" where
  "WithConcealPanic v opt = opt\<lparr>concealPanic := v\<rparr>"

definition WithPreHandler :: "nat \<Rightarrow> poolOption \<Rightarrow> poolOption" where
  "WithPreHandler fn opt = opt\<lparr>preHandler := Some fn\<rparr>"

text \<open>A single flight: the library calls the function or shares a running call, and answers with a value of any type, nil
  (\<open>None\<close>) when the function gave a nil interface.\<close>

definition Singleflight_Do :: "'a \<Rightarrow> ('a option \<times> go_error option \<times> bool) \<Rightarrow> 'a \<times> go_error option \<times> bool" where
  "Singleflight_Do zero internal =
     (case internal of (raw, err, shared) \<Rightarrow> ((case raw of None \<Rightarrow> zero | Some v \<Rightarrow> v), err, shared))"

section \<open>Checkers of groups\<close>

text \<open>\<open>gc_ch\<close> is the closing channel: \<open>None\<close> before \<open>init\<close>, then whether it is closed. \<open>gc_working\<close> tells that the
  goroutine of \<open>work\<close> has been started and has not ended, \<open>gc_ticking\<close> that it has made its ticker. \<open>gc_stop\<close> follows
  the body of \<open>stopOnce\<close>.\<close>

datatype stop_state = NotStopped | Removing | Stopped

record GroupChecker =
  gc_groupName :: string
  gc_d :: int
  gc_ch :: "bool option"
  gc_working :: bool
  gc_ticking :: bool
  gc_lastest :: "string \<rightharpoonup> int"
  gc_stop :: stop_state

record checkers =
  groups :: "string \<rightharpoonup> nat"
  gcs :: "GroupChecker list"
  to_init :: "nat set"
  clock :: int
  returned :: "(string \<times> nat) list"
  reports :: "(nat \<times> string list) list"
  crashed :: bool

definition newGroupChecker :: "string \<Rightarrow> int \<Rightarrow> GroupChecker" where
  "newGroupChecker n duration =
     \<lparr>gc_groupName = n, gc_d = duration, gc_ch = None, gc_working = False, gc_ticking = False,
      gc_lastest = Map.empty, gc_stop = NotStopped\<rparr>"

text \<open>Who is overdue, in the order in which the map is walked.\<close>

definition overdue :: "GroupChecker \<Rightarrow> int \<Rightarrow> string list \<Rightarrow> string list" where
  "overdue gc now walk =
     filter (\<lambda>name. case gc_lastest gc name of None \<Rightarrow> False | Some ts \<Rightarrow> now - ts > gc_d gc) walk"

definition upd_gc :: "nat \<Rightarrow> (GroupChecker \<Rightarrow> GroupChecker) \<Rightarrow> checkers \<Rightarrow> checkers" where
  "upd_gc i f s = s\<lparr>gcs := (gcs s)[i := f (gcs s ! i)]\<rparr>"

inductive gc_move :: "checkers \<Rightarrow> checkers \<Rightarrow> bool" where
  get_new: "groups s n = None \<Longrightarrow>
    gc_move s (s\<lparr>groups := (groups s)(n \<mapsto> length (gcs s)), gcs := gcs s @ [newGroupChecker n duration],
                to_init := insert (length (gcs s)) (to_init s)\<rparr>)"
| get_loaded: "groups s n = Some i \<Longrightarrow> gc_move s (s\<lparr>returned := returned s @ [(n, i)]\<rparr>)"
| gc_init: "i \<in> to_init s \<Longrightarrow>
    gc_move s ((upd_gc i (\<lambda>gc. gc\<lparr>gc_ch := Some False, gc_working := True\<rparr>) s)
                 \<lparr>to_init := to_init s - {i}, returned := returned s @ [(gc_groupName (gcs s ! i), i)]\<rparr>)"
| stop_close: "i < length (gcs s) \<Longrightarrow> gc_stop (gcs s ! i) = NotStopped \<Longrightarrow> gc_ch (gcs s ! i) \<noteq> None \<Longrightarrow>
    gc_move s (upd_gc i (\<lambda>gc. gc\<lparr>gc_ch := Some True, gc_stop := Removing\<rparr>) s)"
| stop_nil: "i < length (gcs s) \<Longrightarrow> gc_stop (gcs s ! i) = NotStopped \<Longrightarrow> gc_ch (gcs s ! i) = None \<Longrightarrow>
    gc_move s (s\<lparr>crashed := True\<rparr>)"
| stop_remove: "i < length (gcs s) \<Longrightarrow> gc_stop (gcs s ! i) = Removing \<Longrightarrow>
    gc_move s ((upd_gc i (\<lambda>gc. gc\<lparr>gc_stop := Stopped\<rparr>) s)\<lparr>groups := (groups s)(gc_groupName (gcs s ! i) := None)\<rparr>)"
| gc_Check: "i < length (gcs s) \<Longrightarrow>
    gc_move s (upd_gc i (\<lambda>gc. gc\<lparr>gc_lastest := (gc_lastest gc)(name \<mapsto> clock s)\<rparr>) s)"
| gc_Remove: "i < length (gcs s) \<Longrightarrow>
    gc_move s (upd_gc i (\<lambda>gc. gc\<lparr>gc_lastest := (gc_lastest gc)(name := None)\<rparr>) s)"
| work_starts: "i < length (gcs s) \<Longrightarrow> gc_working (gcs s ! i) \<Longrightarrow> \<not> gc_ticking (gcs s ! i) \<Longrightarrow> 0 < gc_d (gcs s ! i) \<Longrightarrow>
    gc_move s (upd_gc i (\<lambda>gc. gc\<lparr>gc_ticking := True\<rparr>) s)"
| work_panics: "i < length (gcs s) \<Longrightarrow> gc_working (gcs s ! i) \<Longrightarrow> \<not> gc_ticking (gcs s ! i) \<Longrightarrow> gc_d (gcs s ! i) \<le> 0 \<Longrightarrow>
    gc_move s (s\<lparr>crashed := True\<rparr>)"
| work_tick: "i < length (gcs s) \<Longrightarrow> gc_working (gcs s ! i) \<Longrightarrow> gc_ticking (gcs s ! i) \<Longrightarrow> distinct walk \<Longrightarrow> set walk = dom (gc_lastest (gcs s ! i)) \<Longrightarrow>
    late = overdue (gcs s ! i) (clock s) walk \<Longrightarrow>
    gc_move s (if late = [] then s else s\<lparr>reports := reports s @ [(i, late)]\<rparr>)"
| work_ends: "i < length (gcs s) \<Longrightarrow> gc_working (gcs s ! i) \<Longrightarrow> gc_ticking (gcs s ! i) \<Longrightarrow> gc_ch (gcs s ! i) = Some True \<Longrightarrow>
    gc_move s (upd_gc i (\<lambda>gc. gc\<lparr>gc_working := False\<rparr>) s)"
| time_passes: "clock s \<le> t \<Longrightarrow> gc_move s (s\<lparr>clock := t\<rparr>)"

text \<open>A panic ends the program: of the caller that closes a nil channel, or of the goroutine whose duration is not
  positive, where \<open>NewTicker\<close> panics.\<close>

definition gc_step :: "checkers \<Rightarrow> checkers \<Rightarrow> bool" where
  "gc_step s s' \<longleftrightarrow> \<not> crashed s \<and> gc_move s s'"

definition no_checkers :: "int \<Rightarrow> checkers" where
  "no_checkers t = \<lparr>groups = Map.empty, gcs = [], to_init = {}, clock = t, returned = [], reports = [], crashed = False\<rparr>"

section \<open>Recorders of times\<close>

record TimeRecorder =
  tr_header :: string
  tr_start :: int
  tr_last :: int

text \<open>The two readings of the clock of the constructor.\<close>

definition NewTimeRecorder :: "string \<Rightarrow> int \<Rightarrow> int \<Rightarrow> TimeRecorder" where
  "NewTimeRecorder header t1 t2 = \<lparr>tr_header = header, tr_start = t1, tr_last = t2\<rparr>"

definition NewTimeRecorderWithTrace :: "string \<Rightarrow> string \<Rightarrow> int \<Rightarrow> int \<Rightarrow> TimeRecorder" where
  "NewTimeRecorderWithTrace traceID header t1 t2 =
     \<lparr>tr_header = header @ ''('' @ traceID @ '')'', tr_start = t1, tr_last = t2\<rparr>"

definition RecordSpan :: "int \<Rightarrow> TimeRecorder \<Rightarrow> int \<times> TimeRecorder" where
  "RecordSpan now tr = (now - tr_last tr, tr\<lparr>tr_last := now\<rparr>)"

definition ElapseSpan :: "int \<Rightarrow> TimeRecorder \<Rightarrow> int \<times> TimeRecorder" where
  "ElapseSpan now tr = (now - tr_start tr, tr\<lparr>tr_last := now\<rparr>)"

text \<open>A checker of a long task: its ticker, when it is started, fires a duration after it was started or reset. The
  warnings that are given until a time; \<open>Check\<close> before \<open>Start\<close> finds no ticker.\<close>

record LongTermChecker =
  lt_d :: int
  lt_next :: "int option"
  lt_closed :: bool

definition NewLongTermChecker :: "int \<Rightarrow> LongTermChecker" where
  "NewLongTermChecker d = \<lparr>lt_d = d, lt_next = None, lt_closed = False\<rparr>"

definition LongTerm_Start :: "int \<Rightarrow> LongTermChecker \<Rightarrow> (go_error, LongTermChecker) outcome" where
  "LongTerm_Start now c =
     (if lt_d c \<le> 0 then Panic ''non-positive interval for NewTicker'' else Ok (c\<lparr>lt_next := Some (now + lt_d c)\<rparr>))"

definition LongTerm_Check :: "int \<Rightarrow> LongTermChecker \<Rightarrow> (go_error, LongTermChecker) outcome" where
  "LongTerm_Check now c =
     (case lt_next c of None \<Rightarrow> Panic ''nil pointer dereference'' | Some _ \<Rightarrow> Ok (c\<lparr>lt_next := Some (now + lt_d c)\<rparr>))"

definition LongTerm_Stop :: "LongTermChecker \<Rightarrow> (go_error, LongTermChecker) outcome" where
  "LongTerm_Stop c =
     (case lt_next c of
        None \<Rightarrow> Panic ''nil pointer dereference''
      | Some _ \<Rightarrow> if lt_closed c then Panic ''close of closed channel'' else Ok (c\<lparr>lt_closed := True\<rparr>))"

text \<open>The goroutine of \<open>Start\<close> at a moment: whether it warns.\<close>

definition LongTerm_work :: "int \<Rightarrow> LongTermChecker \<Rightarrow> bool \<times> LongTermChecker" where
  "LongTerm_work now c =
     (case lt_next c of
        None \<Rightarrow> (False, c)
      | Some t \<Rightarrow> if lt_closed c \<or> now < t then (False, c) else (True, c\<lparr>lt_next := Some (t + lt_d c)\<rparr>))"

section \<open>What awaiting gives\<close>

text \<open>The specification: the error of the first future of the list that has one.\<close>

fun first_error :: "(nat \<Rightarrow> 'a Future) \<Rightarrow> nat list \<Rightarrow> go_error option" where
  "first_error st [] = None"
| "first_error st (f # fs) = (case fut_err (st f) of Some e \<Rightarrow> Some e | None \<Rightarrow> first_error st fs)"

definition went_well :: "'a Future \<Rightarrow> bool" where
  "went_well f \<longleftrightarrow> fut_closed f \<and> fut_err f = None"

definition waits_well :: "nat list \<Rightarrow> 'a await_state \<Rightarrow> bool" where
  "waits_well fs s \<longleftrightarrow> awaited s = fs \<and>
     (case waiter s of
        AwaitAt k \<Rightarrow> k \<le> length fs \<and> (\<forall>f\<in>set (take k fs). went_well (store s f))
      | ErrOf k \<Rightarrow> k < length fs \<and> (\<forall>f\<in>set (take k fs). went_well (store s f)) \<and> fut_closed (store s (fs ! k))
          \<and> fut_err (store s (fs ! k)) \<noteq> None
      | Returned None \<Rightarrow> (\<forall>f\<in>set fs. went_well (store s f))
      | Returned (Some e) \<Rightarrow> (\<exists>k<length fs. (\<forall>f\<in>set (take k fs). went_well (store s f)) \<and> fut_closed (store s (fs ! k))
          \<and> fut_err (store s (fs ! k)) = Some e))"

lemmas future_readers = future_OK_def future_Err_def went_well_def

lemma waits_well_store:
  assumes "waits_well fs s" and same: "\<And>f. fut_closed (store s f) \<Longrightarrow> st' f = store s f"
  shows "waits_well fs (s\<lparr>store := st'\<rparr>)"
proof -
  have keep: "went_well (store s f) \<Longrightarrow> went_well (st' f)" for f using same [of f] by (simp add: went_well_def)
  show ?thesis
  proof (cases "waiter s")
    case (Returned r)
    then show ?thesis using assms keep by (cases r) (fastforce simp: waits_well_def)+
  qed (use assms keep in \<open>auto simp: waits_well_def\<close>)
qed

lemma waits_well_step: "await_step s t \<Longrightarrow> waits_well fs s \<Longrightarrow> waits_well fs t"
proof (induction rule: await_step.induct)
  case (fn_returns s i v e)
  then show ?case by (intro waits_well_store) auto
qed (auto simp: waits_well_def future_readers take_Suc_conv_app_nth split: if_splits option.splits)

lemma waits_well_run: "await_step\<^sup>*\<^sup>* (AwaitAll st fs) s \<Longrightarrow> waits_well fs s"
proof (induction rule: rtranclp_induct)
  case base
  then show ?case by (simp add: AwaitAll_def waits_well_def)
next
  case (step y z)
  then show ?case using waits_well_step by blast
qed

lemma first_error_take:
  "\<forall>f\<in>set (take k fs). fut_err (st f) = None \<Longrightarrow> k < length fs \<Longrightarrow> fut_err (st (fs ! k)) = Some e \<Longrightarrow> first_error st fs = Some e"
  by (induction fs arbitrary: k) (auto simp: nth_Cons' take_Cons' split: if_splits)

lemma first_error_None: "\<forall>f\<in>set fs. fut_err (st f) = None \<Longrightarrow> first_error st fs = None"
  by (induction fs) auto

text \<open>The futures that decide the result have ended: those up to the first error, or all of them.\<close>

definition decided :: "(nat \<Rightarrow> 'a Future) \<Rightarrow> nat list \<Rightarrow> bool" where
  "decided st fs \<longleftrightarrow> (\<exists>k\<le>length fs. (\<forall>f\<in>set (take k fs). fut_closed (st f))
     \<and> (k = length fs \<or> first_error st (take k fs) \<noteq> None))"

text \<open>From any point the wait can be completed, without another future ending, once the result is decided.\<close>

lemma await_completes:
  assumes "waits_well fs s" and "decided (store s) fs"
  shows "\<exists>t r. await_step\<^sup>*\<^sup>* s t \<and> store t = store s \<and> waiter t = Returned r"
proof (cases "waiter s")
  case (ErrOf k)
  then have "future_Err (store s (awaited s ! k)) = Some (fut_err (store s (fs ! k)))"
    using assms by (simp add: waits_well_def future_Err_def)
  from await_err [OF ErrOf this] show ?thesis by (intro exI conjI, rule r_into_rtranclp) simp_all
next
  case (AwaitAt j)
  obtain k where k: "k \<le> length fs" "\<forall>f\<in>set (take k fs). fut_closed (store s f)"
    "k = length fs \<or> first_error (store s) (take k fs) \<noteq> None" using assms(2) by (auto simp: decided_def)
  from AwaitAt show ?thesis using assms(1) k
  proof (induction "length fs - j" arbitrary: j s)
    case 0
    then have "await_step s (s\<lparr>waiter := Returned None\<rparr>)" by (intro await_end) (auto simp: waits_well_def)
    then show ?case by (intro exI conjI, rule r_into_rtranclp) simp_all
  next
    case (Suc n)
    then have j: "j < length fs" "awaited s = fs" "\<forall>f\<in>set (take j fs). went_well (store s f)"
      by (auto simp: waits_well_def)
    have "j < k"
    proof (rule ccontr)
      assume "\<not> j < k"
      then have "set (take k fs) \<subseteq> set (take j fs)" by (simp add: set_take_subset_set_take)
      then have "\<forall>f\<in>set (take k fs). fut_err (store s f) = None" using j(3) by (auto simp: went_well_def)
      then have "first_error (store s) (take k fs) = None" by (rule first_error_None)
      then show False using Suc.prems(5) \<open>\<not> j < k\<close> j(1) by simp
    qed
    then have "fs ! j \<in> set (take k fs)" using j(1) by (auto simp: in_set_conv_nth)
    then have closed: "fut_closed (store s (awaited s ! j))" using Suc.prems(4) j(2) by simp
    show ?case
    proof (cases "fut_err (store s (awaited s ! j))")
      case None
      let ?t = "s\<lparr>waiter := AwaitAt (j + 1)\<rparr>"
      have step: "await_step s ?t" using Suc.prems(1) j closed None by (intro await_ok) (auto simp: future_OK_def)
      have "n = length fs - (j + 1)" using Suc.hyps(2) by simp
      from Suc.hyps(1) [OF this, of ?t] Suc.prems waits_well_step [OF step]
      obtain t r where "await_step\<^sup>*\<^sup>* ?t t" "store t = store s" "waiter t = Returned r" by auto
      with step show ?thesis by (blast intro: converse_rtranclp_into_rtranclp)
    next
      case (Some e)
      let ?t = "s\<lparr>waiter := ErrOf j\<rparr>"
      have step: "await_step s ?t" using Suc.prems(1) j closed Some by (intro await_failed) (auto simp: future_OK_def)
      have "await_step ?t (?t\<lparr>waiter := Returned (Some e)\<rparr>)"
        using closed Some by (intro await_err [of _ j]) (auto simp: future_Err_def)
      with step have "await_step\<^sup>*\<^sup>* s (?t\<lparr>waiter := Returned (Some e)\<rparr>)" by (meson r_into_rtranclp rtranclp.rtrancl_into_rtrancl)
      then show ?thesis by (intro exI [of _ "?t\<lparr>waiter := Returned (Some e)\<rparr>"] exI [of _ "Some e"] conjI) simp_all
    qed
  qed
qed auto

lemma await_result:
  assumes "waits_well fs t" and "waiter t = Returned r"
  shows "r = first_error (store t) fs \<and> decided (store t) fs"
proof (cases r)
  case None
  then have all: "\<forall>f\<in>set fs. went_well (store t f)" using assms by (simp add: waits_well_def)
  then have "first_error (store t) fs = None" by (intro first_error_None) (simp add: went_well_def)
  then show ?thesis using None all by (auto simp: decided_def went_well_def intro!: exI [of _ "length fs"])
next
  case (Some e)
  then obtain k where k: "k < length fs" "\<forall>f\<in>set (take k fs). went_well (store t f)" "fut_closed (store t (fs ! k))"
      "fut_err (store t (fs ! k)) = Some e" using assms by (auto simp: waits_well_def)
  then have clean: "\<forall>f\<in>set (take k fs). fut_err (store t f) = None" by (simp add: went_well_def)
  have "first_error (store t) (take (Suc k) fs) = Some e"
    using first_error_take [of k "take (Suc k) fs" "store t" e] clean k(1,4) by (simp add: min_def)
  moreover have "\<forall>f\<in>set (take (Suc k) fs). fut_closed (store t f)"
    using k by (auto simp: take_Suc_conv_app_nth went_well_def)
  ultimately have "decided (store t) fs"
    unfolding decided_def using k(1) by (intro exI [of _ "Suc k"]) simp
  then show ?thesis using first_error_take [OF clean k(1,4)] Some by simp
qed

text \<open>C38: \<open>AwaitAll\<close> returns the error of the first future of its list that has one, in the order of the list and not of time,
  or nil when all have ended well. It returns only when the futures up to that one have ended, or all of them when
  there is none; and as soon as they have, wherever it then is, it can return without any other future ending: an
  error is not held back by the futures after it in the list.\<close>

theorem AwaitAll_first_error:
  assumes "await_step\<^sup>*\<^sup>* (AwaitAll st fs) s"
  shows "(\<forall>r. waiter s = Returned r \<longrightarrow> r = first_error (store s) fs \<and> decided (store s) fs)
     \<and> (decided (store s) fs \<longrightarrow>
          (\<exists>t. await_step\<^sup>*\<^sup>* s t \<and> store t = store s \<and> waiter t = Returned (first_error (store s) fs)))"
proof -
  have well: "waits_well fs s" by (rule waits_well_run [OF assms])
  have "\<exists>t. await_step\<^sup>*\<^sup>* s t \<and> store t = store s \<and> waiter t = Returned (first_error (store s) fs)"
    if dec: "decided (store s) fs"
  proof -
    obtain t r where t: "await_step\<^sup>*\<^sup>* s t" "store t = store s" "waiter t = Returned r"
      using await_completes [OF well dec] by auto
    have "waits_well fs t" using waits_well_run [OF rtranclp_trans [OF assms t(1)]] .
    then show ?thesis using await_result [of fs t r] t by auto
  qed
  then show ?thesis using await_result [OF well] by blast
qed

text \<open>Three futures: the first has ended with an error, the second has not ended, the third has ended with another error.\<close>

definition sample_store :: "nat \<Rightarrow> nat Future" where
  "sample_store i =
     (if i = 1 then newFuture 0 else future_end i (Some (ErrorString (if i = 0 then ''a'' else ''c''))) (newFuture 0))"

theorem AwaitAll_first_error_witness:
  "\<exists>t. await_step\<^sup>*\<^sup>* (AwaitAll sample_store [0, 1, 2]) t \<and> store t = sample_store
     \<and> waiter t = Returned (Some (ErrorString ''a''))"
proof -
  have "decided sample_store [0, 1, 2]"
    unfolding decided_def by (intro exI [of _ 1]) (simp add: sample_store_def future_end_def)
  with AwaitAll_first_error [of sample_store "[0, 1, 2]" "AwaitAll sample_store [0, 1, 2]"] show ?thesis
    by (auto simp: AwaitAll_def sample_store_def future_end_def)
qed

text \<open>A future that does not end keeps the wait, whatever has failed after it in the list.\<close>

lemma AwaitAll_blocks:
  assumes "await_step s t" and "waiter s = AwaitAt k" and "k < length (awaited s)" and "\<not> fut_closed (store s (awaited s ! k))"
  shows "waiter t = AwaitAt k"
  using assms by (cases rule: await_step.cases) (auto simp: future_OK_def)

text \<open>No option sets a handler of panics, and the handler that runs before a task is never handed on.\<close>

lemma antsOptions_set:
  "antsOptions (WithPreHandler h opt) = antsOptions opt"
  "antsOptions (WithConcealPanic v (WithPreAlloc w defaultPoolOption))
     = [WithPreAllocOption w, WithNonblockingOption False, WithDisablePurgeOption False, WithDefaultPanicHandler (\<not> v)]"
  by (simp_all add: antsOptions_def WithPreHandler_def WithConcealPanic_def WithPreAlloc_def defaultPoolOption_def)

section \<open>What checkers of groups keep\<close>

definition gc_well :: "checkers \<Rightarrow> bool" where
  "gc_well s \<longleftrightarrow>
     (\<forall>n i. groups s n = Some i \<longleftrightarrow> i < length (gcs s) \<and> gc_groupName (gcs s ! i) = n \<and> gc_stop (gcs s ! i) \<noteq> Stopped)
     \<and> (\<forall>i. i \<in> to_init s \<longleftrightarrow> i < length (gcs s) \<and> gc_ch (gcs s ! i) = None)
     \<and> (\<forall>i<length (gcs s). gc_ch (gcs s ! i) = Some True \<longleftrightarrow> gc_stop (gcs s ! i) \<noteq> NotStopped)
     \<and> (\<forall>i<length (gcs s). gc_ch (gcs s ! i) = Some False \<longrightarrow> gc_working (gcs s ! i))
     \<and> (\<forall>i<length (gcs s). gc_ticking (gcs s ! i) \<longrightarrow> 0 < gc_d (gcs s ! i))
     \<and> (crashed s \<longrightarrow> (\<exists>i<length (gcs s). gc_ch (gcs s ! i) = None \<or> gc_d (gcs s ! i) \<le> 0))
     \<and> (\<forall>(n, i) \<in> set (returned s). i < length (gcs s) \<and> gc_groupName (gcs s ! i) = n)"

lemma gc_well_move: "gc_move s t \<Longrightarrow> \<not> crashed s \<Longrightarrow> gc_well s \<Longrightarrow> gc_well t"
proof (induction rule: gc_move.induct)
  case (get_new s n duration)
  then have "\<forall>i<length (gcs s). gc_groupName (gcs s ! i) = n \<longrightarrow> gc_stop (gcs s ! i) = Stopped"
    unfolding gc_well_def by (metis option.distinct(1))
  then show ?case using get_new by (auto simp: gc_well_def newGroupChecker_def nth_append less_Suc_eq split: if_splits)
next
  case (get_loaded s n i)
  then show ?case by (auto simp: gc_well_def)
next
  case (gc_init i s)
  then show ?case by (auto simp: gc_well_def upd_gc_def nth_list_update split: if_splits)
next
  case (stop_close i s)
  then show ?case by (auto simp: gc_well_def upd_gc_def nth_list_update split: if_splits)
next
  case (stop_remove i s)
  then have "\<forall>j<length (gcs s). j \<noteq> i \<longrightarrow> gc_groupName (gcs s ! j) = gc_groupName (gcs s ! i) \<longrightarrow> gc_stop (gcs s ! j) = Stopped"
    unfolding gc_well_def by (metis option.inject stop_state.distinct(5))
  then show ?case using stop_remove by (auto simp: gc_well_def upd_gc_def nth_list_update split: if_splits)
next
  case (gc_Check i s name)
  then show ?case by (auto simp: gc_well_def upd_gc_def nth_list_update split: if_splits)
next
  case (gc_Remove i s name)
  then show ?case by (auto simp: gc_well_def upd_gc_def nth_list_update split: if_splits)
next
  case (work_starts i s)
  then show ?case by (auto simp: gc_well_def upd_gc_def nth_list_update split: if_splits)
next
  case (work_ends i s)
  then show ?case by (auto simp: gc_well_def upd_gc_def nth_list_update split: if_splits)
next
  case (stop_nil i s)
  then show ?case by (auto simp: gc_well_def)
next
  case (work_panics i s)
  then show ?case by (auto simp: gc_well_def)
qed (simp_all add: gc_well_def)

lemma gc_well_step: "gc_step s t \<Longrightarrow> gc_well s \<Longrightarrow> gc_well t"
  unfolding gc_step_def by (blast intro: gc_well_move)

lemma gc_well_run: "gc_step\<^sup>*\<^sup>* (no_checkers t) s \<Longrightarrow> gc_well s"
  by (induction rule: rtranclp_induct) (simp_all add: gc_well_step, simp add: gc_well_def no_checkers_def)

text \<open>C39: A group has one checker at a time: two callers that were given checkers of the same group, of which neither has been
  removed since, were given the same; while the program has not crashed, the goroutine of a checker that was set up
  has not ended before the checker is stopped, and it ticks only with a positive duration; a checker is found by
  \<open>GetGroupChecker\<close> from its creation until \<open>Stop\<close> removes it; and the program crashes only where a checker was
  stopped before it was set up or has a duration that is not positive, whatever the callers do and however their
  steps interleave.\<close>

theorem GroupChecker_one_per_group:
  assumes "gc_step\<^sup>*\<^sup>* (no_checkers t) s"
  shows "(\<forall>n i j. (n, i) \<in> set (returned s) \<and> (n, j) \<in> set (returned s) \<and> gc_stop (gcs s ! i) \<noteq> Stopped
        \<and> gc_stop (gcs s ! j) \<noteq> Stopped \<longrightarrow> i = j)
     \<and> (\<not> crashed s \<longrightarrow> (\<forall>i<length (gcs s). i \<notin> to_init s \<and> gc_stop (gcs s ! i) = NotStopped \<longrightarrow> gc_working (gcs s ! i)))
     \<and> (\<forall>i<length (gcs s). gc_ticking (gcs s ! i) \<longrightarrow> 0 < gc_d (gcs s ! i))
     \<and> (\<forall>i<length (gcs s). groups s (gc_groupName (gcs s ! i)) = Some i \<longleftrightarrow> gc_stop (gcs s ! i) \<noteq> Stopped)
     \<and> (crashed s \<longrightarrow> (\<exists>i<length (gcs s). gc_ch (gcs s ! i) = None \<or> gc_d (gcs s ! i) \<le> 0))"
proof -
  have well: "gc_well s" by (rule gc_well_run [OF assms])
  have found: "groups s n = Some i" if "(n, i) \<in> set (returned s)" "gc_stop (gcs s ! i) \<noteq> Stopped" for n i
    using well that unfolding gc_well_def by fastforce
  have "gc_working (gcs s ! i)" if "i < length (gcs s)" "i \<notin> to_init s" "gc_stop (gcs s ! i) = NotStopped" for i
    using well that unfolding gc_well_def by (metis (full_types) not_None_eq)
  moreover have "\<forall>i<length (gcs s). groups s (gc_groupName (gcs s ! i)) = Some i \<longleftrightarrow> gc_stop (gcs s ! i) \<noteq> Stopped"
    using well unfolding gc_well_def by blast
  moreover have "\<forall>i<length (gcs s). gc_ticking (gcs s ! i) \<longrightarrow> 0 < gc_d (gcs s ! i)"
    "crashed s \<longrightarrow> (\<exists>i<length (gcs s). gc_ch (gcs s ! i) = None \<or> gc_d (gcs s ! i) \<le> 0)"
    using well unfolding gc_well_def by blast+
  moreover have "\<forall>n i j. (n, i) \<in> set (returned s) \<and> (n, j) \<in> set (returned s) \<and> gc_stop (gcs s ! i) \<noteq> Stopped
        \<and> gc_stop (gcs s ! j) \<noteq> Stopped \<longrightarrow> i = j"
    using found by (metis option.inject)
  ultimately show ?thesis by blast
qed

definition one_checker :: "GroupChecker \<Rightarrow> (string \<times> nat) list \<Rightarrow> nat set \<Rightarrow> checkers" where
  "one_checker gc got pending = \<lparr>groups = [''g'' \<mapsto> 0], gcs = [gc], to_init = pending, clock = 0, returned = got, reports = [], crashed = False\<rparr>"

lemma first_checker: "gc_step (no_checkers 0) (one_checker (newGroupChecker ''g'' d) [] {0})"
  using get_new [of "no_checkers 0" "''g''" d] by (simp add: gc_step_def no_checkers_def one_checker_def)

abbreviation running_checker :: GroupChecker where
  "running_checker \<equiv> (newGroupChecker ''g'' 5)\<lparr>gc_ch := Some False, gc_working := True, gc_ticking := True\<rparr>"

lemma second_checker:
  "gc_step (one_checker (newGroupChecker ''g'' d) [] {0})
     (one_checker ((newGroupChecker ''g'' d)\<lparr>gc_ch := Some False, gc_working := True\<rparr>) [(''g'', 0)] {})"
  using gc_init [of 0 "one_checker (newGroupChecker ''g'' d) [] {0}"]
  by (simp add: gc_step_def one_checker_def upd_gc_def newGroupChecker_def)

lemma third_checker:
  "gc_step (one_checker ((newGroupChecker ''g'' 5)\<lparr>gc_ch := Some False, gc_working := True\<rparr>) [(''g'', 0)] {})
     (one_checker running_checker [(''g'', 0)] {})"
  using work_starts [of 0 "one_checker ((newGroupChecker ''g'' 5)\<lparr>gc_ch := Some False, gc_working := True\<rparr>) [(''g'', 0)] {}"]
  by (simp add: gc_step_def one_checker_def upd_gc_def newGroupChecker_def)

lemma checker_runs: "gc_step\<^sup>*\<^sup>* (no_checkers 0) (one_checker running_checker [(''g'', 0)] {})"
  using first_checker second_checker third_checker by (meson r_into_rtranclp rtranclp.rtrancl_into_rtrancl)

text \<open>A duration that is not positive brings the whole program down, from a goroutine no caller can guard.\<close>

lemma non_positive_duration_crashes:
  fixes d :: int
  assumes "d \<le> 0"
  shows "\<exists>s. gc_step\<^sup>*\<^sup>* (no_checkers 0) s \<and> crashed s"
proof -
  let ?s = "one_checker ((newGroupChecker ''g'' d)\<lparr>gc_ch := Some False, gc_working := True\<rparr>) [(''g'', 0)] {}"
  have "gc_step ?s (?s\<lparr>crashed := True\<rparr>)"
    using work_panics [of 0 ?s] assms by (simp add: gc_step_def one_checker_def newGroupChecker_def)
  then have "gc_step\<^sup>*\<^sup>* (no_checkers 0) (?s\<lparr>crashed := True\<rparr>)"
    using first_checker second_checker by (meson r_into_rtranclp rtranclp.rtrancl_into_rtrancl)
  then show ?thesis by (intro exI [of _ "?s\<lparr>crashed := True\<rparr>"]) simp
qed

theorem GroupChecker_one_per_group_witness:
  "gc_working (gcs (one_checker running_checker [(''g'', 0)] {}) ! 0)"
  using GroupChecker_one_per_group [OF checker_runs]
  by (simp add: one_checker_def newGroupChecker_def)

text \<open>Between the two steps of \<open>GetGroupChecker\<close> another caller finds a checker that is not set up: stopping it closes a nil
  channel.\<close>

lemma Stop_before_init:
  "\<exists>s. gc_step\<^sup>*\<^sup>* (no_checkers 0) s \<and> crashed s"
proof -
  have "gc_step (one_checker (newGroupChecker ''g'' 5) [] {0}) (one_checker (newGroupChecker ''g'' 5) [(''g'', 0)] {0})"
    using get_loaded [of "one_checker (newGroupChecker ''g'' 5) [] {0}" "''g''" 0] by (simp add: gc_step_def one_checker_def)
  moreover have "gc_step (one_checker (newGroupChecker ''g'' 5) [(''g'', 0)] {0})
      ((one_checker (newGroupChecker ''g'' 5) [(''g'', 0)] {0})\<lparr>crashed := True\<rparr>)"
    using stop_nil [of 0 "one_checker (newGroupChecker ''g'' 5) [(''g'', 0)] {0}"]
    by (simp add: gc_step_def one_checker_def newGroupChecker_def)
  ultimately have "gc_step\<^sup>*\<^sup>* (no_checkers 0) ((one_checker (newGroupChecker ''g'' 5) [(''g'', 0)] {0})\<lparr>crashed := True\<rparr>)"
    using first_checker by (meson r_into_rtranclp rtranclp.rtrancl_into_rtrancl)
  then show ?thesis by (intro exI [of _ "(one_checker (newGroupChecker ''g'' 5) [(''g'', 0)] {0})\<lparr>crashed := True\<rparr>"]) simp
qed

text \<open>Between the two steps of \<open>Stop\<close> a caller is given the checker that has been closed, and its goroutine has ended: what
  the caller reports to it is never looked at.\<close>

lemma Get_while_stopping:
  "\<exists>s. gc_step\<^sup>*\<^sup>* (no_checkers 0) s \<and> last (returned s) = (''g'', 0) \<and> length (returned s) = 2
     \<and> gc_ch (gcs s ! 0) = Some True \<and> \<not> gc_working (gcs s ! 0)"
proof -
  let ?closed = "running_checker\<lparr>gc_ch := Some True, gc_stop := Removing\<rparr>" and ?dead = "running_checker\<lparr>gc_ch := Some True, gc_stop := Removing, gc_working := False\<rparr>"
  have "gc_step (one_checker running_checker [(''g'', 0)] {}) (one_checker ?closed [(''g'', 0)] {})"
    using stop_close [of 0 "one_checker running_checker [(''g'', 0)] {}"]
    by (simp add: gc_step_def one_checker_def upd_gc_def newGroupChecker_def)
  moreover have "gc_step (one_checker ?closed [(''g'', 0)] {}) (one_checker ?dead [(''g'', 0)] {})"
    using work_ends [of 0 "one_checker ?closed [(''g'', 0)] {}"]
    by (simp add: gc_step_def one_checker_def upd_gc_def newGroupChecker_def)
  moreover have "gc_step (one_checker ?dead [(''g'', 0)] {}) (one_checker ?dead [(''g'', 0), (''g'', 0)] {})"
    using get_loaded [of "one_checker ?dead [(''g'', 0)] {}" "''g''" 0] by (simp add: gc_step_def one_checker_def)
  ultimately have "gc_step\<^sup>*\<^sup>* (no_checkers 0) (one_checker ?dead [(''g'', 0), (''g'', 0)] {})"
    using checker_runs by (meson rtranclp.rtrancl_into_rtrancl)
  then show ?thesis by (intro exI [of _ "one_checker ?dead [(''g'', 0), (''g'', 0)] {}"]) (simp add: one_checker_def newGroupChecker_def)
qed

section \<open>What recorders measure\<close>

text \<open>A recorder after a sequence of calls, each at its time: \<open>True\<close> for a record, \<open>False\<close> for an elapsed time.\<close>

fun spans :: "(bool \<times> int) list \<Rightarrow> TimeRecorder \<Rightarrow> int list" where
  "spans [] tr = []"
| "spans ((record, now) # cs) tr =
     (case (if record then RecordSpan now tr else ElapseSpan now tr) of (d, tr') \<Rightarrow> d # spans cs tr')"

text \<open>Records alone add up to the time since the start; a call for the elapsed time in between takes the time since the last
  record away from the next one.\<close>

lemma spans_sum: "list_all fst cs \<Longrightarrow> sum_list (spans cs tr) = (if cs = [] then 0 else snd (last cs) - tr_last tr)"
  by (induction cs arbitrary: tr) (auto simp: RecordSpan_def)

lemma ElapseSpan_resets: "spans [(False, t1), (True, t2)] tr = [t1 - tr_start tr, t2 - t1]"
  by (simp add: RecordSpan_def ElapseSpan_def)

end
