(* ===== verification/LogEncoder.thy ===== *)
theory LogEncoder
  imports ConfigSource Merr
begin

text \<open>
  Package \<open>log\<close>: the encoder of log entries as text (pkg/log/zap\_text\_encoder.go).

  A text is a list of bytes (\<open>string\<close>) and so is the buffer of an encoder. \<open>first_rune\<close> of ConfigSource is
  \<open>utf8.DecodeRuneInString\<close>: the width of the first rune and whether it is valid.

  An encoder is called back by the values it writes: a field, an array or an object makes a sequence of calls of the
  encoder's methods. The calls are data (\<open>append_call\<close>, \<open>add_call\<close>), so a theorem about all sequences is one about
  all marshallers. What the standard library prints for a number, a time or a value in JSON is part of the value.
  The functions of \<open>zapcore\<close> that a configuration names are parameters (\<open>zap_lib\<close>). Pools of buffers are left out: a
  buffer from the pool is empty.
\<close>

section \<open>Escaping\<close>

definition hex_digits :: string where
  "hex_digits = ''0123456789abcdef''"

text \<open>A text is quoted when it has a blank, a control byte or a byte the format needs.\<close>

fun needDoubleQuotes :: "string \<Rightarrow> bool" where
  "needDoubleQuotes [] = False"
| "needDoubleQuotes (b # s) =
     (if (of_char b :: nat) \<le> 32 then True
      else if b \<in> {CHR 0x5C, CHR 0x22, CHR ''['', CHR '']'', CHR ''=''} then True
      else needDoubleQuotes s)"

text \<open>The buffer after a byte that is a rune of its own; \<open>None\<close> when it is not.\<close>

definition tryAddRuneSelf :: "string \<Rightarrow> char \<Rightarrow> string option" where
  "tryAddRuneSelf buf b =
     (if (of_char b :: nat) \<ge> 128 then None
      else if 32 \<le> (of_char b :: nat) \<and> b \<noteq> CHR 0x5C \<and> b \<noteq> CHR 0x22 then Some (buf @ [b])
      else if b = CHR 0x5C \<or> b = CHR 0x22 then Some (buf @ [CHR 0x5C, b])
      else if b = CHR 0x0A then Some (buf @ [CHR 0x5C, CHR ''n''])
      else if b = CHR 0x0D then Some (buf @ [CHR 0x5C, CHR ''r''])
      else if b = CHR 0x09 then Some (buf @ [CHR 0x5C, CHR ''t''])
      else Some (buf @ [CHR 0x5C, CHR ''u'', CHR ''0'', CHR ''0'',
        hex_digits ! (of_char b div 16), hex_digits ! (of_char b mod 16)]))"

text \<open>A rune is in error when it is the replacement character and its width is 1.\<close>

definition tryAddRuneError :: "string \<Rightarrow> nat \<Rightarrow> bool \<Rightarrow> string option" where
  "tryAddRuneError buf width valid = (if \<not> valid \<and> width = 1 then Some (buf @ [CHR 0x5C] @ ''ufffd'') else None)"

fun safeAddString :: "string \<Rightarrow> string \<Rightarrow> string" where
  "safeAddString buf [] = buf"
| "safeAddString buf (b # s) =
     (case tryAddRuneSelf buf b of
        Some buf' \<Rightarrow> safeAddString buf' s
      | None \<Rightarrow>
          (case first_rune b s of (width, valid) \<Rightarrow>
             (case tryAddRuneError buf width valid of
                Some buf' \<Rightarrow> safeAddString buf' s
              | None \<Rightarrow> safeAddString (buf @ take width (b # s)) (drop (width - 1) s))))"

text \<open>The same loop over a slice of bytes.\<close>

fun safeAddByteString :: "string \<Rightarrow> string \<Rightarrow> string" where
  "safeAddByteString buf [] = buf"
| "safeAddByteString buf (b # s) =
     (case tryAddRuneSelf buf b of
        Some buf' \<Rightarrow> safeAddByteString buf' s
      | None \<Rightarrow>
          (case first_rune b s of (width, valid) \<Rightarrow>
             (case tryAddRuneError buf width valid of
                Some buf' \<Rightarrow> safeAddByteString buf' s
              | None \<Rightarrow> safeAddByteString (buf @ take width (b # s)) (drop (width - 1) s))))"

definition safeAddStringWithQuote :: "string \<Rightarrow> string \<Rightarrow> string" where
  "safeAddStringWithQuote buf s =
     (if \<not> needDoubleQuotes s then safeAddString buf s else safeAddString (buf @ [CHR 0x22]) s @ [CHR 0x22])"

definition addElementSeparator :: "string \<Rightarrow> string" where
  "addElementSeparator buf =
     (if buf = [] then buf
      else if last buf \<in> {CHR ''{'', CHR ''['', CHR '':'', CHR '','', CHR '' '', CHR ''=''} then buf
      else buf @ '','')"

section \<open>Appending values\<close>

text \<open>The methods that only touch the buffer.\<close>

definition AppendString :: "string \<Rightarrow> string \<Rightarrow> string" where
  "AppendString val buf = safeAddStringWithQuote (addElementSeparator buf) val"

definition AppendByteString :: "string \<Rightarrow> string \<Rightarrow> string" where
  "AppendByteString val buf =
     (let buf = addElementSeparator buf
      in if \<not> needDoubleQuotes val then safeAddByteString buf val
         else safeAddByteString (buf @ [CHR 0x22]) val @ [CHR 0x22])"

definition AppendBool :: "bool \<Rightarrow> string \<Rightarrow> string" where
  "AppendBool val buf = addElementSeparator buf @ (if val then ''true'' else ''false'')"

definition AppendInt64 :: "int \<Rightarrow> string \<Rightarrow> string" where
  "AppendInt64 val buf = addElementSeparator buf @ string_of_int val"

definition AppendUint64 :: "nat \<Rightarrow> string \<Rightarrow> string" where
  "AppendUint64 val buf = addElementSeparator buf @ string_of_nat val"

text \<open>A floating-point number comes with what \<open>strconv.AppendFloat\<close> prints for it.\<close>

datatype log_float = NaN | PlusInf | MinusInf | Finite string

fun buffer_AppendFloat :: "log_float \<Rightarrow> string" where
  "buffer_AppendFloat NaN = ''NaN''"
| "buffer_AppendFloat PlusInf = ''+Inf''"
| "buffer_AppendFloat MinusInf = ''-Inf''"
| "buffer_AppendFloat (Finite s) = s"

definition appendFloat :: "log_float \<Rightarrow> string \<Rightarrow> string" where
  "appendFloat val buf =
     (case val of
        NaN \<Rightarrow> addElementSeparator buf @ ''NaN''
      | PlusInf \<Rightarrow> addElementSeparator buf @ ''+Inf''
      | MinusInf \<Rightarrow> addElementSeparator buf @ ''-Inf''
      | Finite _ \<Rightarrow> addElementSeparator buf @ buffer_AppendFloat val)"

definition AppendComplex128 :: "log_float \<Rightarrow> log_float \<Rightarrow> string \<Rightarrow> string" where
  "AppendComplex128 r i buf =
     addElementSeparator buf @ buffer_AppendFloat r @ ''+'' @ buffer_AppendFloat i @ ''i''"

text \<open>A time: what \<open>Format\<close> prints for the layout of the encoder, and the nanoseconds.\<close>

record log_time =
  tm_Format :: string
  UnixNano :: int

record EncoderConfig =
  TimeKey :: string
  LevelKey :: string
  NameKey :: string
  CallerKey :: string
  MessageKey :: string
  StacktraceKey :: string
  LineEnding :: string
  EncodeLevel :: "int \<Rightarrow> string \<Rightarrow> string"
  EncodeTime :: "log_time \<Rightarrow> string \<Rightarrow> string"
  EncodeDuration :: "int \<Rightarrow> string \<Rightarrow> string"
  EncodeCaller :: "string \<Rightarrow> string \<Rightarrow> string"
  EncodeName :: "(string \<Rightarrow> string \<Rightarrow> string) option"

definition DefaultTimeEncoder :: "log_time \<Rightarrow> string \<Rightarrow> string" where
  "DefaultTimeEncoder t buf = foldl (\<lambda>buf c. buf @ [c]) buf (tm_Format t)"

definition ShortCallerEncoder :: "string \<Rightarrow> string \<Rightarrow> string" where
  "ShortCallerEncoder TrimmedPath buf = AppendString TrimmedPath buf"

definition AppendDuration :: "EncoderConfig \<Rightarrow> int \<Rightarrow> string \<Rightarrow> string" where
  "AppendDuration cfg val buf =
     (let buf' = EncodeDuration cfg val buf in if length buf' = length buf then AppendInt64 val buf' else buf')"

definition AppendTime :: "EncoderConfig \<Rightarrow> log_time \<Rightarrow> string \<Rightarrow> string" where
  "AppendTime cfg val buf =
     (let buf' = EncodeTime cfg val buf in if length buf' = length buf then AppendInt64 (UnixNano val) buf' else buf')"

text \<open>\<open>json.Encoder.Encode\<close> of a value gives an error, or its text and a newline, which \<open>TrimNewline\<close> drops.\<close>

definition TrimNewline :: "string \<Rightarrow> string" where
  "TrimNewline s = (if s \<noteq> [] \<and> last s = CHR 0x0A then butlast s else s)"

definition AppendReflected :: "(go_error + string) \<Rightarrow> string \<Rightarrow> string" where
  "AppendReflected encoded buf = (case encoded of Inl err \<Rightarrow> buf | Inr s \<Rightarrow> AppendByteString (TrimNewline s) buf)"

text \<open>\<open>base64.StdEncoding.EncodeToString\<close>.\<close>

definition base64_digits :: string where
  "base64_digits = ''ABCDEFGHIJKLMNOPQRSTUVWXYZabcdefghijklmnopqrstuvwxyz0123456789+/''"

fun base64 :: "string \<Rightarrow> string" where
  "base64 [] = []"
| "base64 [a] =
     (let n = of_char a * 16 in [base64_digits ! (n div 64), base64_digits ! (n mod 64), CHR ''='', CHR ''=''])"
| "base64 [a, b] =
     (let n = of_char a * 1024 + of_char b * 4
      in [base64_digits ! (n div 4096), base64_digits ! (n div 64 mod 64), base64_digits ! (n mod 64), CHR ''=''])"
| "base64 (a # b # c # s) =
     (let n = of_char a * 65536 + of_char b * 256 + of_char c
      in [base64_digits ! (n div 262144), base64_digits ! (n div 4096 mod 64), base64_digits ! (n div 64 mod 64),
          base64_digits ! (n mod 64)] @ base64 s)"

section \<open>The encoder\<close>

record textEncoder =
  EncConfig :: EncoderConfig
  buf :: string
  spaced :: bool
  openNamespaces :: nat
  disableErrorVerbose :: bool

definition NewTextEncoder :: "EncoderConfig \<Rightarrow> bool \<Rightarrow> bool \<Rightarrow> textEncoder" where
  "NewTextEncoder encoderConfig sp noVerbose =
     \<lparr>EncConfig = encoderConfig, buf = [], spaced = sp, openNamespaces = 0, disableErrorVerbose = noVerbose\<rparr>"

text \<open>The configuration of the logger that concerns the encoder, and what \<open>zapcore\<close> provides.\<close>

record log_config =
  Format :: string
  DisableTimestamp :: bool
  DisableErrorVerbose :: bool

record zap_lib =
  CapitalString :: "int \<Rightarrow> string"
  DurationString :: "int \<Rightarrow> string"
  DefaultLineEnding :: string

definition CapitalLevelEncoder :: "zap_lib \<Rightarrow> int \<Rightarrow> string \<Rightarrow> string" where
  "CapitalLevelEncoder zap level = AppendString (CapitalString zap level)"

definition StringDurationEncoder :: "zap_lib \<Rightarrow> int \<Rightarrow> string \<Rightarrow> string" where
  "StringDurationEncoder zap d = AppendString (DurationString zap d)"

datatype Encoder = TextEncoder textEncoder | JSONEncoder EncoderConfig

definition NewTextEncoderByConfig :: "zap_lib \<Rightarrow> log_config \<Rightarrow> (go_error, Encoder) outcome" where
  "NewTextEncoderByConfig zap cfg =
     (let cc = \<lparr>TimeKey = ''time'', LevelKey = ''level'', NameKey = ''name'', CallerKey = ''caller'',
            MessageKey = ''message'', StacktraceKey = ''stack'', LineEnding = DefaultLineEnding zap,
            EncodeLevel = CapitalLevelEncoder zap, EncodeTime = DefaultTimeEncoder,
            EncodeDuration = StringDurationEncoder zap, EncodeCaller = ShortCallerEncoder, EncodeName = None\<rparr>;
          cc = (if DisableTimestamp cfg then cc\<lparr>TimeKey := []\<rparr> else cc)
      in if Format cfg = ''text'' \<or> Format cfg = []
         then Ok (TextEncoder \<lparr>EncConfig = cc, buf = [], spaced = False, openNamespaces = 0,
                     disableErrorVerbose = DisableErrorVerbose cfg\<rparr>)
         else if Format cfg = ''json'' then Ok (JSONEncoder cc)
         else Panic (''unsupport log format: '' @ Format cfg))"

definition cloned :: "textEncoder \<Rightarrow> textEncoder" where
  "cloned enc = enc\<lparr>buf := []\<rparr>"

definition Clone :: "textEncoder \<Rightarrow> textEncoder" where
  "Clone enc = (let clone = cloned enc in clone\<lparr>buf := buf clone @ buf enc\<rparr>)"

definition addKey :: "string \<Rightarrow> textEncoder \<Rightarrow> textEncoder" where
  "addKey key enc = enc\<lparr>buf := safeAddStringWithQuote (addElementSeparator (buf enc)) key @ ''=''\<rparr>"

definition OpenNamespace :: "string \<Rightarrow> textEncoder \<Rightarrow> textEncoder" where
  "OpenNamespace key enc =
     (let enc = addKey key enc in enc\<lparr>buf := buf enc @ ''{'', openNamespaces := openNamespaces enc + 1\<rparr>)"

definition closeOpenNamespaces :: "textEncoder \<Rightarrow> textEncoder" where
  "closeOpenNamespaces enc = enc\<lparr>buf := buf enc @ replicate (openNamespaces enc) (CHR ''}'')\<rparr>"

definition beginQuoteFiled :: "textEncoder \<Rightarrow> textEncoder" where
  "beginQuoteFiled enc = enc\<lparr>buf := (if length (buf enc) > 0 then buf enc @ '' '' else buf enc) @ ''[''\<rparr>"

definition endQuoteFiled :: "textEncoder \<Rightarrow> textEncoder" where
  "endQuoteFiled enc = enc\<lparr>buf := buf enc @ '']''\<rparr>"

text \<open>The calls a marshaller makes. An array or object that is called back makes calls of its own and may end with
  an error.\<close>

datatype append_call =
  CallAppendArray "append_call list" "go_error option"
| CallAppendObject "add_call list" "go_error option"
| CallAppendBool bool
| CallAppendByteString string
| CallAppendComplex128 log_float log_float
| CallAppendDuration int
| CallAppendFloat log_float
| CallAppendInt64 int
| CallAppendReflected "go_error + string"
| CallAppendString string
| CallAppendTime log_time
| CallAppendUint64 nat
and add_call =
  CallAddArray string "append_call list" "go_error option"
| CallAddObject string "add_call list" "go_error option"
| CallAddBinary string string
| CallAddByteString string string
| CallAddBool string bool
| CallAddComplex128 string log_float log_float
| CallAddDuration string int
| CallAddFloat64 string log_float
| CallAddInt64 string int
| CallAddReflected string "go_error + string"
| CallOpenNamespace string
| CallAddString string string
| CallAddTime string log_time
| CallAddUint64 string nat

definition with_buf :: "(string \<Rightarrow> string) \<Rightarrow> textEncoder \<Rightarrow> textEncoder" where
  "with_buf f enc = enc\<lparr>buf := f (buf enc)\<rparr>"

text \<open>The methods with their effect. Arrays and objects are written to an encoder of their own, whose text is then
  appended as one byte string.\<close>

fun do_append :: "append_call \<Rightarrow> textEncoder \<Rightarrow> textEncoder"
  and do_appends :: "append_call list \<Rightarrow> textEncoder \<Rightarrow> textEncoder"
  and do_add :: "add_call \<Rightarrow> textEncoder \<Rightarrow> textEncoder"
  and do_adds :: "add_call list \<Rightarrow> textEncoder \<Rightarrow> textEncoder" where
  "do_append (CallAppendArray arr err) enc =
     (let enc = with_buf addElementSeparator enc;
          ne = with_buf (\<lambda>b. b @ ''['') (cloned enc);
          ne = do_appends arr ne;
          ne = with_buf (\<lambda>b. b @ '']'') ne
      in with_buf (AppendByteString (buf ne)) enc)"
| "do_append (CallAppendObject obj err) enc =
     (let enc = with_buf addElementSeparator enc;
          ne = with_buf (\<lambda>b. b @ ''{'') (cloned enc);
          ne = do_adds obj ne;
          ne = with_buf (\<lambda>b. b @ ''}'') ne
      in with_buf (AppendByteString (buf ne)) enc)"
| "do_append (CallAppendBool val) enc = with_buf (AppendBool val) enc"
| "do_append (CallAppendByteString val) enc = with_buf (AppendByteString val) enc"
| "do_append (CallAppendComplex128 r i) enc = with_buf (AppendComplex128 r i) enc"
| "do_append (CallAppendDuration val) enc = with_buf (AppendDuration (EncConfig enc) val) enc"
| "do_append (CallAppendFloat val) enc = with_buf (appendFloat val) enc"
| "do_append (CallAppendInt64 val) enc = with_buf (AppendInt64 val) enc"
| "do_append (CallAppendReflected val) enc = with_buf (AppendReflected val) enc"
| "do_append (CallAppendString val) enc = with_buf (AppendString val) enc"
| "do_append (CallAppendTime val) enc = with_buf (AppendTime (EncConfig enc) val) enc"
| "do_append (CallAppendUint64 val) enc = with_buf (AppendUint64 val) enc"
| "do_appends [] enc = enc"
| "do_appends (c # cs) enc = do_appends cs (do_append c enc)"
| "do_add (CallAddArray key arr err) enc = do_append (CallAppendArray arr err) (addKey key enc)"
| "do_add (CallAddObject key obj err) enc = do_append (CallAppendObject obj err) (addKey key enc)"
| "do_add (CallAddBinary key val) enc = with_buf (AppendString (base64 val)) (addKey key enc)"
| "do_add (CallAddByteString key val) enc = with_buf (AppendByteString val) (addKey key enc)"
| "do_add (CallAddBool key val) enc = with_buf (AppendBool val) (addKey key enc)"
| "do_add (CallAddComplex128 key r i) enc = with_buf (AppendComplex128 r i) (addKey key enc)"
| "do_add (CallAddDuration key val) enc = with_buf (AppendDuration (EncConfig enc) val) (addKey key enc)"
| "do_add (CallAddFloat64 key val) enc = with_buf (appendFloat val) (addKey key enc)"
| "do_add (CallAddInt64 key val) enc = with_buf (AppendInt64 val) (addKey key enc)"
| "do_add (CallAddReflected key val) enc =
     (case val of Inl err \<Rightarrow> enc | Inr s \<Rightarrow> with_buf (AppendByteString (TrimNewline s)) (addKey key enc))"
| "do_add (CallOpenNamespace key) enc = OpenNamespace key enc"
| "do_add (CallAddString key val) enc = with_buf (AppendString val) (addKey key enc)"
| "do_add (CallAddTime key val) enc = with_buf (AppendTime (EncConfig enc) val) (addKey key enc)"
| "do_add (CallAddUint64 key val) enc = with_buf (AppendUint64 val) (addKey key enc)"
| "do_adds [] enc = enc"
| "do_adds (c # cs) enc = do_adds cs (do_add c enc)"

section \<open>Entries\<close>

text \<open>An error in a field: its text, and what \<open>"%+v"\<close> prints when it has a format of its own.\<close>

record log_error =
  err_Error :: string
  err_verbose :: "string option"

text \<open>A field is an error, \<open>None\<close> when its interface holds none, or makes calls of the encoder.\<close>

datatype Field = ErrorField string "log_error option" | PlainField "add_call list"

definition encodeError :: "string \<Rightarrow> log_error option \<Rightarrow> textEncoder \<Rightarrow> (go_error, textEncoder) outcome" where
  "encodeError key err enc =
     (case err of
        None \<Rightarrow> Panic ''interface conversion''
      | Some e \<Rightarrow>
          let enc = beginQuoteFiled enc;
              enc = do_add (CallAddString key (err_Error e)) enc;
              enc = endQuoteFiled enc
          in if disableErrorVerbose enc then Ok enc
             else case err_verbose e of
                    None \<Rightarrow> Ok enc
                  | Some verbose \<Rightarrow>
                      if verbose \<noteq> err_Error e
                      then let enc = beginQuoteFiled enc;
                               enc = do_add (CallAddString (key @ ''Verbose'') verbose) enc
                           in Ok (endQuoteFiled enc)
                      else Ok enc)"

definition addField :: "textEncoder \<Rightarrow> Field \<Rightarrow> (go_error, textEncoder) outcome" where
  "addField enc f =
     (case f of
        ErrorField key err \<Rightarrow> encodeError key err enc
      | PlainField calls \<Rightarrow> Ok (endQuoteFiled (do_adds calls (beginQuoteFiled enc))))"

definition addFields :: "Field list \<Rightarrow> textEncoder \<Rightarrow> (go_error, textEncoder) outcome" where
  "addFields fs enc = foldO addField enc fs"

text \<open>The caller of an entry: its trimmed path and its full text, when it is defined.\<close>

record Entry =
  ent_Level :: int
  ent_LevelString :: string
  ent_Time :: log_time
  LoggerName :: string
  ent_Message :: string
  ent_Caller :: "(string \<times> string) option"
  Stack :: string

text \<open>A bracket filled by a function of the configuration, or by a text when the function writes nothing.\<close>

definition bracket :: "(string \<Rightarrow> string) \<Rightarrow> string \<Rightarrow> textEncoder \<Rightarrow> textEncoder" where
  "bracket encode fallback final =
     (let final = beginQuoteFiled final;
          cur = length (buf final);
          final = with_buf encode final;
          final = (if cur = length (buf final) then with_buf (AppendString fallback) final else final)
      in endQuoteFiled final)"

definition EncodeEntry :: "Entry \<Rightarrow> Field list \<Rightarrow> textEncoder \<Rightarrow> (go_error, string) outcome" where
  "EncodeEntry ent fs enc =
     (let final = cloned enc;
          cfg = EncConfig final;
          final = (if TimeKey cfg \<noteq> []
                   then endQuoteFiled (with_buf (AppendTime cfg (ent_Time ent)) (beginQuoteFiled final)) else final);
          final = (if LevelKey cfg \<noteq> []
                   then bracket (EncodeLevel cfg (ent_Level ent)) (ent_LevelString ent) final else final);
          nameEncoder = (case EncodeName cfg of None \<Rightarrow> AppendString | Some f \<Rightarrow> f);
          final = (if LoggerName ent \<noteq> [] \<and> NameKey cfg \<noteq> []
                   then bracket (nameEncoder (LoggerName ent)) (LoggerName ent) final else final);
          final = (case ent_Caller ent of
                     None \<Rightarrow> final
                   | Some (path, full) \<Rightarrow>
                       if CallerKey cfg \<noteq> [] then bracket (EncodeCaller cfg path) full final else final);
          final = (if length (ent_Message ent) > 0
                   then endQuoteFiled (with_buf (AppendString (ent_Message ent)) (beginQuoteFiled final)) else final);
          final = (if length (buf enc) > 0 then with_buf (\<lambda>b. b @ '' '' @ buf enc) final else final)
      in bindO (addFields fs final) (\<lambda>final.
           let final = closeOpenNamespaces final;
               final = (if Stack ent \<noteq> [] \<and> StacktraceKey cfg \<noteq> []
                        then endQuoteFiled (do_add (CallAddString (StacktraceKey cfg) (Stack ent)) (beginQuoteFiled final))
                        else final)
           in Ok (if LineEnding cfg \<noteq> [] then buf final @ LineEnding cfg else buf final @ [CHR 0x0A])))"

section \<open>The core\<close>

text \<open>\<open>textIOCore\<close> (pkg/log/zap\_text\_core.go). The writer is a function of a world that answers with an error or
  none; \<open>With\<close> changes a clone.\<close>

record 'w write_syncer =
  ws_Write :: "string \<Rightarrow> 'w \<Rightarrow> go_error option \<times> 'w"
  ws_Sync :: "'w \<Rightarrow> go_error option \<times> 'w"

record 'w textIOCore =
  core_Enabled :: "int \<Rightarrow> bool"
  core_enc :: textEncoder
  core_out :: "'w write_syncer"

definition NewTextCore :: "textEncoder \<Rightarrow> 'w write_syncer \<Rightarrow> (int \<Rightarrow> bool) \<Rightarrow> 'w textIOCore" where
  "NewTextCore enc ws enab = \<lparr>core_Enabled = enab, core_enc = enc, core_out = ws\<rparr>"

definition core_clone :: "'w textIOCore \<Rightarrow> 'w textIOCore" where
  "core_clone c = c\<lparr>core_enc := Clone (core_enc c)\<rparr>"

definition core_With :: "Field list \<Rightarrow> 'w textIOCore \<Rightarrow> (go_error, 'w textIOCore) outcome" where
  "core_With fs c =
     (let clone = core_clone c
      in bindO (addFields fs (core_enc clone)) (\<lambda>e. Ok (clone\<lparr>core_enc := e\<rparr>)))"

definition core_Check :: "'w textIOCore \<Rightarrow> Entry \<Rightarrow> 'w textIOCore list \<Rightarrow> 'w textIOCore list" where
  "core_Check c ent ce = (if core_Enabled c (ent_Level ent) then ce @ [c] else ce)"

abbreviation ErrorLevel :: int where "ErrorLevel \<equiv> 2"

text \<open>What \<open>Sync\<close> answers is dropped.\<close>

definition core_Write :: "'w textIOCore \<Rightarrow> Entry \<Rightarrow> Field list \<Rightarrow> 'w \<Rightarrow> (go_error, unit) outcome \<times> 'w" where
  "core_Write c ent fs w =
     (case EncodeEntry ent fs (core_enc c) of
        Err e \<Rightarrow> (Err e, w)
      | Panic p \<Rightarrow> (Panic p, w)
      | Ok line \<Rightarrow>
          (case ws_Write (core_out c) line w of
             (Some e, w') \<Rightarrow> (Err e, w')
           | (None, w') \<Rightarrow>
               if ent_Level ent > ErrorLevel then (Ok (), snd (ws_Sync (core_out c) w')) else (Ok (), w')))"

end
