(* ===== verification/LogLines.thy ===== *)
theory LogLines
  imports LogEncoder
begin

text \<open>
  What the text encoder of package \<open>log\<close> promises: an entry is one line, whatever is logged, and a reader of the format
  gets back the message and the fields.

  The reader (\<open>read_line\<close>) is the specification of the format: brackets separated by a blank, each with a text or a key
  and a text, each text bare or quoted. Its recursion counts down the length of the line, which is never less than the
  number of brackets.
\<close>

section \<open>What escaping writes\<close>

abbreviation escaped :: "string \<Rightarrow> string" where
  "escaped s \<equiv> safeAddString [] s"

lemma tryAddRuneSelf_append: "tryAddRuneSelf x b = map_option (\<lambda>p. x @ p) (tryAddRuneSelf [] b)"
  by (simp add: tryAddRuneSelf_def)

lemma tryAddRuneError_append: "tryAddRuneError x w v = map_option (\<lambda>p. x @ p) (tryAddRuneError [] w v)"
  by (simp add: tryAddRuneError_def)

lemma safeAddString_append: "safeAddString x s = x @ escaped s"
proof (induction "length s" arbitrary: x s rule: less_induct)
  case less
  show ?case
  proof (cases s)
    case (Cons b r)
    have IH: "safeAddString x t = x @ escaped t" if "length t \<le> length r" for x t using less [of t x] that Cons by simp
    obtain w v where wv: "first_rune b r = (w, v)" by (cases "first_rune b r")
    show ?thesis
    proof (cases "tryAddRuneSelf [] b")
      case None
      then have none: "tryAddRuneSelf x b = None" by (simp add: tryAddRuneSelf_append [of x])
      show ?thesis
      proof (cases "tryAddRuneError [] w v")
        case None
        then have "tryAddRuneError x w v = None" by (simp add: tryAddRuneError_append [of x])
        moreover have "length (drop (w - 1) r) \<le> length r" by simp
        ultimately show ?thesis using none None \<open>tryAddRuneSelf [] b = None\<close>
          IH [of _ "x @ take w (b # r)"] IH [of _ "take w (b # r)"] by (simp add: Cons wv del: length_drop)
      next
        case (Some p)
        then have "tryAddRuneError x w v = Some (x @ p)" by (simp add: tryAddRuneError_append [of x])
        then show ?thesis using none Some \<open>tryAddRuneSelf [] b = None\<close> IH [of r "x @ p"] IH [of r p] by (simp add: Cons wv)
      qed
    next
      case (Some p)
      then have "tryAddRuneSelf x b = Some (x @ p)" by (simp add: tryAddRuneSelf_append [of x])
      then show ?thesis using Some IH [of r "x @ p"] IH [of r p] by (simp add: Cons)
    qed
  qed simp
qed

text \<open>The quick version for byte slices does the same.\<close>

lemma safeAddByteString_eq: "safeAddByteString x s = safeAddString x s"
  by (induction x s rule: safeAddByteString.induct) (auto split: option.splits prod.splits)

text \<open>A text, what is written for it, and what is to be read: itself with the replacement character for invalid bytes.\<close>

inductive written :: "string \<Rightarrow> string \<Rightarrow> string \<Rightarrow> bool" where
  written_end: "written [] [] []"
| written_self: "tryAddRuneSelf [] b = Some p \<Longrightarrow> written s e d \<Longrightarrow> written (b # s) (p @ e) (b # d)"
| written_error: "128 \<le> (of_char b :: nat) \<Longrightarrow> written s e d \<Longrightarrow>
    written (b # s) (([CHR 0x5C] @ ''ufffd'') @ e) (rune_error @ d)"
| written_rune: "\<forall>c\<in>set m. 128 \<le> (of_char c :: nat) \<Longrightarrow> written s e d \<Longrightarrow> written (m @ s) (m @ e) (m @ d)"

lemma first_rune_high:
  assumes "128 \<le> (of_char b :: nat)" and "first_rune b s = (w, v)"
  shows "0 < w" and "\<not> v \<Longrightarrow> w = 1" and "v \<Longrightarrow> \<forall>c\<in>set (take (w - 1) s). 128 \<le> (of_char c :: nat)"
  using assms
  by (auto simp: first_rune_def cont_byte_def Let_def take_Suc_conv_app_nth numeral_eq_Suc neq_Nil_conv
      split: if_splits list.splits)

lemma written_escaped: "written s (escaped s) (concat (runes s))"
proof (induction "length s" arbitrary: s rule: less_induct)
  case less
  show ?case
  proof (cases s)
    case Nil
    then show ?thesis by (simp add: written_end)
  next
    case (Cons b r)
    obtain w v where wv: "first_rune b r = (w, v)" by (cases "first_rune b r")
    have IH: "written t (escaped t) (concat (runes t))" if "length t \<le> length r" for t using less that Cons by simp
    show ?thesis
    proof (cases "128 \<le> (of_char b :: nat)")
      case False
      then obtain p where p: "tryAddRuneSelf [] b = Some p"
        by (cases "tryAddRuneSelf [] b") (auto simp: tryAddRuneSelf_def split: if_splits)
      have "first_rune b r = (1, True)" using False by (simp add: first_rune_def Let_def)
      then show ?thesis using written_self [OF p IH [of r]] by (simp add: Cons p safeAddString_append [of p])
    next
      case True
      then have none: "tryAddRuneSelf [] b = None" by (simp add: tryAddRuneSelf_def)
      note high = first_rune_high [OF True wv]
      show ?thesis
      proof (cases v)
        case False
        then have w: "w = 1" using high(2) by simp
        show ?thesis
          using written_error [OF True IH [of r]] wv w False none safeAddString_append [of "[CHR 0x5C] @ ''ufffd''" r]
          by (simp add: Cons tryAddRuneError_def)
      next
        case v: True
        let ?m = "take w (b # r)"
        have m: "?m = b # take (w - 1) r" using high(1) by (cases w) simp_all
        have all: "\<forall>c\<in>set ?m. 128 \<le> (of_char c :: nat)" using high(3) v True by (simp add: m)
        have s: "s = ?m @ drop (w - 1) r" by (simp add: Cons m)
        have "escaped s = ?m @ escaped (drop (w - 1) r)"
          using v none safeAddString_append [of ?m] by (simp add: Cons wv tryAddRuneError_def)
        moreover have "concat (runes s) = ?m @ concat (runes (drop (w - 1) r))" using v by (simp add: Cons wv)
        ultimately show ?thesis using written_rune [OF all IH [of "drop (w - 1) r"]] s by simp
      qed
    qed
  qed
qed

lemmas tryAddRuneSelf_cases = tryAddRuneSelf_def [of "[]"]

section \<open>Reading it back\<close>

definition hex_value :: "char \<Rightarrow> nat" where
  "hex_value c = (if (of_char c :: nat) \<le> 57 then of_char c - 48 else of_char c - 87)"

definition utf8_of :: "nat \<Rightarrow> string" where
  "utf8_of n =
     (if n < 128 then [char_of n]
      else if n < 2048 then [char_of (192 + n div 64), char_of (128 + n mod 64)]
      else [char_of (224 + n div 4096), char_of (128 + n div 64 mod 64), char_of (128 + n mod 64)])"

text \<open>The escapes of JSON that are used.\<close>

fun unescape :: "string \<Rightarrow> string" where
  "unescape [] = []"
| "unescape (c # s) =
     (if c \<noteq> CHR 0x5C then c # unescape s
      else (case s of
              [] \<Rightarrow> []
            | d # r \<Rightarrow>
                if d = CHR ''n'' then CHR 0x0A # unescape r
                else if d = CHR ''r'' then CHR 0x0D # unescape r
                else if d = CHR ''t'' then CHR 0x09 # unescape r
                else if d = CHR ''u'' then
                  (case r of
                     h1 # h2 # h3 # h4 # r' \<Rightarrow>
                       utf8_of (((hex_value h1 * 16 + hex_value h2) * 16 + hex_value h3) * 16 + hex_value h4) @ unescape r'
                   | _ \<Rightarrow> [])
                else d # unescape r))"

text \<open>What stands before the closing quote, and what comes after it.\<close>

fun scan_quoted :: "string \<Rightarrow> string \<times> string" where
  "scan_quoted [] = ([], [])"
| "scan_quoted (c # s) =
     (if c = CHR 0x22 then ([], s)
      else if c = CHR 0x5C then
        (case s of [] \<Rightarrow> ([c], []) | d # r \<Rightarrow> (case scan_quoted r of (raw, rest) \<Rightarrow> (c # d # raw, rest)))
      else (case scan_quoted s of (raw, rest) \<Rightarrow> (c # raw, rest)))"

lemma hex_control: "n < 32 \<Longrightarrow> hex_value (hex_digits ! (n div 16)) * 16 + hex_value (hex_digits ! (n mod 16)) = n"
proof -
  assume "n < 32"
  have "list_all (\<lambda>n. hex_value (hex_digits ! (n div 16)) * 16 + hex_value (hex_digits ! (n mod 16)) = n) [0..<32]"
    by (simp add: upt_rec hex_digits_def hex_value_def)
  then show ?thesis using \<open>n < 32\<close> by (simp add: list_all_iff)
qed

lemma hex_safe: "n < 32 \<Longrightarrow> hex_digits ! (n div 16) \<in> set hex_digits \<and> hex_digits ! (n mod 16) \<in> set hex_digits"
proof -
  assume "n < 32"
  have "length hex_digits = 16" by code_simp
  then show ?thesis using \<open>n < 32\<close> by simp
qed

lemma hex_value_0: "hex_value (CHR ''0'') = 0"
  by (simp add: hex_value_def)

lemma high_char: "128 \<le> (of_char c :: nat) \<Longrightarrow> (of_char d :: nat) < 128 \<Longrightarrow> c \<noteq> d"
  by auto

lemma unescape_self: "tryAddRuneSelf [] b = Some p \<Longrightarrow> unescape (p @ e) = b # unescape e"
proof -
  assume p: "tryAddRuneSelf [] b = Some p"
  have "utf8_of (hex_value (hex_digits ! (of_char b div 16)) * 16 + hex_value (hex_digits ! (of_char b mod 16))) = [b]"
    if "(of_char b :: nat) < 32" using that by (simp add: hex_control utf8_of_def)
  then show ?thesis using p by (auto simp: tryAddRuneSelf_def hex_value_0 split: if_splits)
qed

lemma unescape_high: "\<forall>c\<in>set m. 128 \<le> (of_char c :: nat) \<Longrightarrow> unescape (m @ e) = m @ unescape e"
  by (induction m) auto

lemma unescape_error: "unescape (([CHR 0x5C] @ ''ufffd'') @ e) = rune_error @ unescape e"
proof -
  have "utf8_of 65533 = rune_error" by (simp add: utf8_of_def rune_error_def char_of_def bit_0)
  then show ?thesis by (simp add: hex_value_def)
qed

lemma unescape_written: "written s e d \<Longrightarrow> unescape e = d"
  by (induction rule: written.induct) (simp_all only: unescape_self unescape_error unescape_high unescape.simps(1))

text \<open>Whether a byte of what is written ends a quoted text, a bare text or a line.\<close>

lemma scan_self: "tryAddRuneSelf [] b = Some p \<Longrightarrow> scan_quoted (p @ e) = (case scan_quoted e of (raw, rest) \<Rightarrow> (p @ raw, rest))"
proof -
  assume p: "tryAddRuneSelf [] b = Some p"
  have "hex_digits ! k \<noteq> CHR 0x22 \<and> hex_digits ! k \<noteq> CHR 0x5C" if "k < 16" for k
  proof -
    have "hex_digits ! k \<in> set hex_digits" using that by (intro nth_mem) (simp add: hex_digits_def)
    then show ?thesis by (auto simp: hex_digits_def)
  qed
  then show ?thesis using p by (cases "scan_quoted e") (auto simp: tryAddRuneSelf_def split: if_splits)
qed

lemma scan_high:
  "\<forall>c\<in>set m. 128 \<le> (of_char c :: nat) \<Longrightarrow> scan_quoted (m @ e) = (case scan_quoted e of (raw, rest) \<Rightarrow> (m @ raw, rest))"
  by (induction m) (auto split: prod.splits)

lemma scan_error:
  "scan_quoted (([CHR 0x5C] @ ''ufffd'') @ e) = (case scan_quoted e of (raw, rest) \<Rightarrow> (([CHR 0x5C] @ ''ufffd'') @ raw, rest))"
  by (simp split: prod.splits)

lemma scan_written: "written s e d \<Longrightarrow> scan_quoted (e @ CHR 0x22 # rest) = (e, rest)"
  by (induction rule: written.induct)
    (simp_all only: append_assoc scan_self scan_error [simplified append_assoc] scan_high prod.case, simp_all)

lemma printable_self: "tryAddRuneSelf [] b = Some p \<Longrightarrow> \<forall>c\<in>set p. 32 \<le> (of_char c :: nat)"
proof -
  assume p: "tryAddRuneSelf [] b = Some p"
  have "32 \<le> (of_char (hex_digits ! k) :: nat)" if "k < 16" for k
  proof -
    have "hex_digits ! k \<in> set hex_digits" using that by (intro nth_mem) (simp add: hex_digits_def)
    then show ?thesis by (auto simp: hex_digits_def)
  qed
  then show ?thesis using p by (auto simp: tryAddRuneSelf_def split: if_splits)
qed

lemma printable_written: "written s e d \<Longrightarrow> \<forall>c\<in>set e. 32 \<le> (of_char c :: nat)"
  by (induction rule: written.induct) (auto dest: printable_self intro: order_trans [of 32 128])

text \<open>What is written for a text that needs no quotes.\<close>

definition bare :: "string \<Rightarrow> bool" where
  "bare s \<longleftrightarrow> list_all (\<lambda>c. c \<notin> {CHR 0x22, CHR '']'', CHR ''=''}) s"

lemma needDoubleQuotes_append: "needDoubleQuotes (s @ t) \<longleftrightarrow> needDoubleQuotes s \<or> needDoubleQuotes t"
  by (induction s) auto

lemma bare_written: "written s e d \<Longrightarrow> \<not> needDoubleQuotes s \<Longrightarrow> bare e"
proof (induction rule: written.induct)
  case (written_self b p s e d)
  then show ?case by (auto simp: bare_def tryAddRuneSelf_def split: if_splits)
next
  case (written_rune m s e d)
  have "bare m" using written_rune.hyps(1) by (auto simp: bare_def list_all_iff)
  then show ?case using written_rune by (simp add: bare_def needDoubleQuotes_append)
qed (auto simp: bare_def split: if_splits)

section \<open>One line\<close>

definition printable :: "string \<Rightarrow> bool" where
  "printable s \<longleftrightarrow> list_all (\<lambda>c. 32 \<le> (of_char c :: nat)) s"

lemma printable_simps [simp]:
  "printable []" "printable (s @ t) \<longleftrightarrow> printable s \<and> printable t"
  "printable (c # s) \<longleftrightarrow> 32 \<le> (of_char c :: nat) \<and> printable s"
  by (simp_all add: printable_def)

lemma printable_replicate: "32 \<le> (of_char c :: nat) \<Longrightarrow> printable (replicate n c)"
  by (simp add: printable_def list_all_iff)

lemma printable_escaped: "printable (safeAddString x s) \<longleftrightarrow> printable x"
  using printable_written [OF written_escaped, of s] safeAddString_append [of x s] by (auto simp: printable_def list_all_iff)

lemma printable_quoted [simp]: "printable (safeAddStringWithQuote x s) \<longleftrightarrow> printable x"
  by (simp add: safeAddStringWithQuote_def printable_escaped)

lemma printable_separator [simp]: "printable (addElementSeparator x) \<longleftrightarrow> printable x"
  by (simp add: addElementSeparator_def)

lemma printable_nat [simp]: "printable (string_of_nat n)"
  by (induction n rule: string_of_nat.induct) (subst string_of_nat.simps, simp)

lemma printable_int [simp]: "printable (string_of_int i)"
  by (simp add: string_of_int_def)

fun float_text :: "(string \<Rightarrow> bool) \<Rightarrow> log_float \<Rightarrow> bool" where
  "float_text P (Finite s) = P s"
| "float_text P _ = True"

lemma printable_float: "float_text printable f \<Longrightarrow> printable (buffer_AppendFloat f)"
  by (cases f) simp_all

lemma printable_appends [simp]:
  "printable (AppendString s x) \<longleftrightarrow> printable x" "printable (AppendByteString s x) \<longleftrightarrow> printable x"
  "printable (AppendBool b x) \<longleftrightarrow> printable x" "printable (AppendInt64 i x) \<longleftrightarrow> printable x"
  "printable (AppendUint64 n x) \<longleftrightarrow> printable x" "printable (AppendReflected r x) \<longleftrightarrow> printable x"
  by (auto simp: AppendString_def AppendByteString_def AppendBool_def AppendInt64_def AppendUint64_def AppendReflected_def
      Let_def safeAddByteString_eq printable_escaped split: sum.splits)

lemma DefaultTimeEncoder_eq: "DefaultTimeEncoder t x = x @ tm_Format t"
proof -
  have "foldl (\<lambda>b c. b @ [c]) y s = y @ s" for y s :: string by (induction s arbitrary: y) simp_all
  then show ?thesis by (simp add: DefaultTimeEncoder_def)
qed

text \<open>The configuration \<open>NewTextEncoderByConfig\<close> makes.\<close>

definition text_config :: "zap_lib \<Rightarrow> bool \<Rightarrow> EncoderConfig" where
  "text_config zap noTime =
     \<lparr>TimeKey = (if noTime then [] else ''time''), LevelKey = ''level'', NameKey = ''name'', CallerKey = ''caller'',
      MessageKey = ''message'', StacktraceKey = ''stack'', LineEnding = DefaultLineEnding zap,
      EncodeLevel = CapitalLevelEncoder zap, EncodeTime = DefaultTimeEncoder, EncodeDuration = StringDurationEncoder zap,
      EncodeCaller = ShortCallerEncoder, EncodeName = None\<rparr>"

lemma NewTextEncoderByConfig_text:
  "NewTextEncoderByConfig zap cfg = Ok (TextEncoder e) \<longleftrightarrow>
     (Format cfg = ''text'' \<or> Format cfg = []) \<and> e = NewTextEncoder (text_config zap (DisableTimestamp cfg)) False (DisableErrorVerbose cfg)"
  by (auto simp: NewTextEncoderByConfig_def NewTextEncoder_def text_config_def Let_def split: if_splits)

text \<open>The texts that are written as they are, those of times and of floating-point numbers, have the property \<open>P\<close>.\<close>

fun raw_append :: "(string \<Rightarrow> bool) \<Rightarrow> append_call \<Rightarrow> bool"
  and raw_appends :: "(string \<Rightarrow> bool) \<Rightarrow> append_call list \<Rightarrow> bool"
  and raw_add :: "(string \<Rightarrow> bool) \<Rightarrow> add_call \<Rightarrow> bool"
  and raw_adds :: "(string \<Rightarrow> bool) \<Rightarrow> add_call list \<Rightarrow> bool" where
  "raw_append P (CallAppendArray arr err) = raw_appends P arr"
| "raw_append P (CallAppendObject obj err) = raw_adds P obj"
| "raw_append P (CallAppendComplex128 r i) = (float_text P r \<and> float_text P i)"
| "raw_append P (CallAppendFloat f) = float_text P f"
| "raw_append P (CallAppendTime t) = P (tm_Format t)"
| "raw_append P _ = True"
| "raw_appends P [] = True"
| "raw_appends P (c # cs) = (raw_append P c \<and> raw_appends P cs)"
| "raw_add P (CallAddArray key arr err) = raw_appends P arr"
| "raw_add P (CallAddObject key obj err) = raw_adds P obj"
| "raw_add P (CallAddComplex128 key r i) = (float_text P r \<and> float_text P i)"
| "raw_add P (CallAddFloat64 key f) = float_text P f"
| "raw_add P (CallAddTime key t) = P (tm_Format t)"
| "raw_add P _ = True"
| "raw_adds P [] = True"
| "raw_adds P (c # cs) = (raw_add P c \<and> raw_adds P cs)"

fun raw_field :: "(string \<Rightarrow> bool) \<Rightarrow> Field \<Rightarrow> bool" where
  "raw_field P (ErrorField key err) = True"
| "raw_field P (PlainField calls) = raw_adds P calls"

lemma printable_configured [simp]:
  "printable (AppendDuration (text_config zap b) d x) \<longleftrightarrow> printable x"
  "printable (AppendTime (text_config zap b) t x) \<longleftrightarrow> printable x \<and> printable (tm_Format t)"
  by (auto simp: AppendDuration_def AppendTime_def text_config_def StringDurationEncoder_def DefaultTimeEncoder_eq Let_def)

lemma printable_floats:
  "float_text printable f \<Longrightarrow> printable (appendFloat f x) \<longleftrightarrow> printable x"
  "float_text printable f \<Longrightarrow> float_text printable g \<Longrightarrow> printable (AppendComplex128 f g x) \<longleftrightarrow> printable x"
  by (auto simp: appendFloat_def AppendComplex128_def printable_float split: log_float.splits)

lemma encoder_simps [simp]:
  "buf (with_buf f e) = f (buf e)" "EncConfig (with_buf f e) = EncConfig e" "buf (cloned e) = []"
  "EncConfig (cloned e) = EncConfig e" "EncConfig (addKey key e) = EncConfig e"
  "buf (addKey key e) = safeAddStringWithQuote (addElementSeparator (buf e)) key @ ''=''"
  "EncConfig (OpenNamespace key e) = EncConfig e"
  "buf (OpenNamespace key e) = safeAddStringWithQuote (addElementSeparator (buf e)) key @ ''={''"
  "EncConfig (closeOpenNamespaces e) = EncConfig e"
  "EncConfig (beginQuoteFiled e) = EncConfig e" "EncConfig (endQuoteFiled e) = EncConfig e"
  "buf (endQuoteFiled e) = buf e @ '']''"
  "buf (beginQuoteFiled e) = (if buf e = [] then ''['' else buf e @ '' ['')"
  by (simp_all add: with_buf_def cloned_def addKey_def OpenNamespace_def Let_def closeOpenNamespaces_def beginQuoteFiled_def
      endQuoteFiled_def)

lemma printable_do:
  "EncConfig e = text_config zap b \<Longrightarrow> printable (buf e) \<Longrightarrow> raw_append printable c \<Longrightarrow>
     printable (buf (do_append c e)) \<and> EncConfig (do_append c e) = text_config zap b"
  "EncConfig e = text_config zap b \<Longrightarrow> printable (buf e) \<Longrightarrow> raw_appends printable cs \<Longrightarrow>
     printable (buf (do_appends cs e)) \<and> EncConfig (do_appends cs e) = text_config zap b"
  "EncConfig e = text_config zap b \<Longrightarrow> printable (buf e) \<Longrightarrow> raw_add printable d \<Longrightarrow>
     printable (buf (do_add d e)) \<and> EncConfig (do_add d e) = text_config zap b"
  "EncConfig e = text_config zap b \<Longrightarrow> printable (buf e) \<Longrightarrow> raw_adds printable ds \<Longrightarrow>
     printable (buf (do_adds ds e)) \<and> EncConfig (do_adds ds e) = text_config zap b"
  by (induction c e and cs e and d e and ds e rule: do_append_do_appends_do_add_do_adds.induct)
    (simp_all add: Let_def printable_floats split: sum.splits)

fun nil_error :: "Field \<Rightarrow> bool" where
  "nil_error (ErrorField key None) = True"
| "nil_error _ = False"

definition plain_encoder :: "zap_lib \<Rightarrow> bool \<Rightarrow> textEncoder \<Rightarrow> bool" where
  "plain_encoder zap b e \<longleftrightarrow> EncConfig e = text_config zap b \<and> printable (buf e)"

lemma plain_field:
  assumes "plain_encoder zap b e" and "raw_field printable f"
  shows "if nil_error f then is_Panic (addField e f) else \<exists>e'. addField e f = Ok e' \<and> plain_encoder zap b e'"
proof (cases f)
  case (ErrorField key err)
  have "if err = None then is_Panic (encodeError key err e) else \<exists>e'. encodeError key err e = Ok e' \<and> plain_encoder zap b e'"
    using assms(1) by (auto simp: encodeError_def plain_encoder_def Let_def split: option.split)
  then show ?thesis by (cases err) (simp_all add: ErrorField addField_def)
next
  case (PlainField calls)
  then show ?thesis using assms printable_do(4) [of "beginQuoteFiled e" zap b calls] by (simp add: addField_def plain_encoder_def)
qed

lemma plain_fields:
  "plain_encoder zap b e \<Longrightarrow> list_all (raw_field printable) fs \<Longrightarrow>
     if list_ex nil_error fs then is_Panic (addFields fs e) else \<exists>e'. addFields fs e = Ok e' \<and> plain_encoder zap b e'"
proof (induction fs arbitrary: e)
  case (Cons f fs)
  show ?case
  proof (cases "nil_error f")
    case True
    then show ?thesis using plain_field [of zap b e f] Cons.prems by (auto simp: addFields_def is_Panic_iff)
  next
    case False
    then obtain e' where "addField e f = Ok e'" "plain_encoder zap b e'" using plain_field [of zap b e f] Cons.prems by auto
    then show ?thesis using Cons.IH [of e'] Cons.prems False by (auto simp: addFields_def)
  qed
qed (simp add: addFields_def)

lemma plain_bracket:
  assumes "plain_encoder zap b e" and "\<And>x. printable x \<Longrightarrow> printable (f x)"
  shows "plain_encoder zap b (bracket f fallback e)" "plain_encoder zap b (endQuoteFiled (with_buf f (beginQuoteFiled e)))"
  using assms by (auto simp: plain_encoder_def bracket_def Let_def)

lemma plain_bracket_text:
  assumes "plain_encoder zap b e"
  shows "plain_encoder zap b (bracket (AppendString s) fallback e)"
    "plain_encoder zap b (endQuoteFiled (with_buf (AppendString s) (beginQuoteFiled e)))"
  using plain_bracket [OF assms, of "AppendString s"] by simp_all

lemma plain_withs:
  "foldO (\<lambda>c fs. core_With fs c) c fss = Ok c' \<Longrightarrow> list_all (raw_field printable) (concat fss) \<Longrightarrow>
     plain_encoder zap b (core_enc c) \<Longrightarrow> plain_encoder zap b (core_enc c')"
proof (induction fss arbitrary: c)
  case (Cons fs fss)
  obtain e where e: "addFields fs (Clone (core_enc c)) = Ok e" "foldO (\<lambda>c fs. core_With fs c) (core_clone c\<lparr>core_enc := e\<rparr>) fss = Ok c'"
    using Cons.prems(1) by (auto simp: core_With_def core_clone_def Let_def outcome_simps)
  have "plain_encoder zap b (Clone (core_enc c))" using Cons.prems(3) by (simp add: plain_encoder_def Clone_def cloned_def)
  then have "plain_encoder zap b e"
    using plain_fields [of zap b "Clone (core_enc c)" fs] e(1) Cons.prems(2) by (auto split: if_splits)
  then show ?case using Cons.IH [OF e(2)] Cons.prems(2) by simp
qed simp

text \<open>The encoder that the fields of the entry are added to, and what follows them.\<close>

definition entry_head :: "zap_lib \<Rightarrow> bool \<Rightarrow> Entry \<Rightarrow> textEncoder \<Rightarrow> textEncoder" where
  "entry_head zap b ent enc =
     (let e0 = cloned enc;
          e1 = (if b then e0 else endQuoteFiled (with_buf (AppendTime (text_config zap b) (ent_Time ent)) (beginQuoteFiled e0)));
          e2 = bracket (AppendString (CapitalString zap (ent_Level ent))) (ent_LevelString ent) e1;
          e3 = (if LoggerName ent = [] then e2 else bracket (AppendString (LoggerName ent)) (LoggerName ent) e2);
          e4 = (case ent_Caller ent of None \<Rightarrow> e3 | Some (path, full) \<Rightarrow> bracket (AppendString path) full e3);
          e5 = (if ent_Message ent = [] then e4
                else endQuoteFiled (with_buf (AppendString (ent_Message ent)) (beginQuoteFiled e4)))
      in if buf enc = [] then e5 else with_buf (\<lambda>x. x @ '' '' @ buf enc) e5)"

definition entry_tail :: "Entry \<Rightarrow> textEncoder \<Rightarrow> textEncoder" where
  "entry_tail ent e =
     (if Stack ent = [] then closeOpenNamespaces e
      else endQuoteFiled (do_add (CallAddString ''stack'' (Stack ent)) (beginQuoteFiled (closeOpenNamespaces e))))"

lemma EncodeEntry_parts:
  assumes "EncConfig enc = text_config zap b" and "DefaultLineEnding zap = [CHR 0x0A]"
  shows "EncodeEntry ent fs enc
    = bindO (addFields fs (entry_head zap b ent enc)) (\<lambda>e. Ok (buf (entry_tail ent e) @ [CHR 0x0A]))"
proof -
  have cfg: "TimeKey (text_config zap b) = (if b then [] else ''time'')" "LevelKey (text_config zap b) = ''level''"
    "NameKey (text_config zap b) = ''name''" "CallerKey (text_config zap b) = ''caller''"
    "StacktraceKey (text_config zap b) = ''stack''" "LineEnding (text_config zap b) = [CHR 0x0A]"
    "EncodeLevel (text_config zap b) = CapitalLevelEncoder zap" "EncodeName (text_config zap b) = None"
    "EncodeCaller (text_config zap b) = ShortCallerEncoder"
    by (simp_all add: text_config_def assms(2))
  have head: "CapitalLevelEncoder zap l = AppendString (CapitalString zap l)" "ShortCallerEncoder path = AppendString path" for l path
    by (simp_all add: CapitalLevelEncoder_def ShortCallerEncoder_def fun_eq_iff)
  show ?thesis
    unfolding EncodeEntry_def entry_head_def entry_tail_def encoder_simps(4) assms(1) cfg head Let_def length_greater_0_conv
      option.case not_Cons_self list.distinct simp_thms if_True if_not_P
    by (cases b; cases "Stack ent = []"; cases "LoggerName ent = []"; cases "ent_Message ent = []"; cases "buf enc = []")
      (simp_all add: Let_def if_distrib [of buf] cong: option.case_cong)
qed

lemma plain_head:
  assumes "plain_encoder zap b enc" and "printable (tm_Format (ent_Time ent))"
  shows "plain_encoder zap b (entry_head zap b ent enc)"
proof -
  have time: "printable (AppendTime (text_config zap b) (ent_Time ent) x)" if "printable x" for x using that assms(2) by simp
  have start: "plain_encoder zap b (cloned enc)" using assms(1) by (simp add: plain_encoder_def)
  have rest: "plain_encoder zap b (if P then e else with_buf (\<lambda>x. x @ '' '' @ buf enc) e)" if "plain_encoder zap b e" for P e
    using that assms(1) by (simp add: plain_encoder_def)
  have if_plain: "plain_encoder zap b (if P then x else y)" if "plain_encoder zap b x" "plain_encoder zap b y" for P x y
    using that by simp
  have caller: "plain_encoder zap b (case ent_Caller ent of None \<Rightarrow> e | Some (path, full) \<Rightarrow> bracket (AppendString path) full e)"
    if "plain_encoder zap b e" for e
    using plain_bracket_text(1) [OF that] that by (simp split: option.split)
  show ?thesis
    unfolding entry_head_def Let_def
    by (intro rest if_plain caller plain_bracket_text plain_bracket(2) [OF start time] start; assumption?)
qed

lemma plain_tail: "plain_encoder zap b e \<Longrightarrow> printable (buf (entry_tail ent e))"
  using printable_do(3) [of "beginQuoteFiled (closeOpenNamespaces e)" zap b "CallAddString ''stack'' (Stack ent)"]
  by (simp add: entry_tail_def plain_encoder_def closeOpenNamespaces_def printable_replicate)

text \<open>A logger and an entry whose message tries to look like a field and a second entry.\<close>

definition sample_zap :: zap_lib where
  "sample_zap = \<lparr>CapitalString = (\<lambda>_. ''INFO''), DurationString = (\<lambda>_. ''1s''), DefaultLineEnding = [CHR 0x0A]\<rparr>"

definition sample_encoder :: textEncoder where
  "sample_encoder = NewTextEncoder (text_config sample_zap False) False True"

definition sample_entry :: Entry where
  "sample_entry =
     \<lparr>ent_Level = 0, ent_LevelString = ''info'', ent_Time = \<lparr>tm_Format = ''12:00'', UnixNano = 0\<rparr>, LoggerName = [],
      ent_Message = ''hi] [k=1]'' @ [CHR 0x0A] @ ''x'', ent_Caller = None, Stack = []\<rparr>"

lemma sample_made:
  "NewTextEncoderByConfig sample_zap \<lparr>Format = [], DisableTimestamp = False, DisableErrorVerbose = True\<rparr>
     = Ok (TextEncoder sample_encoder)" "DefaultLineEnding sample_zap = [CHR 0x0A]"
  by (simp_all add: NewTextEncoderByConfig_text sample_encoder_def sample_zap_def)

text \<open>C37: One entry is one line, whatever is logged: with a logger that \<open>With\<close> has been given fields any number of times,
  an entry is encoded as one newline at the end and no control byte before it, for all messages, names, stacks, keys,
  values, errors, arrays, objects and namespaces. Only the texts of times and of floating-point numbers, which are
  written as they are, must be free of control bytes. A field that is marked as an error and holds none panics.\<close>

theorem EncodeEntry_one_line:
  assumes "NewTextEncoderByConfig zap cfg = Ok (TextEncoder e)" and "DefaultLineEnding zap = [CHR 0x0A]"
    and "foldO (\<lambda>c fs. core_With fs c) (NewTextCore e ws en) fss = Ok c"
    and "list_all (raw_field printable) (concat fss @ fs)" and "printable (tm_Format (ent_Time ent))"
  shows "if list_ex nil_error fs then is_Panic (EncodeEntry ent fs (core_enc c))
     else \<exists>body. EncodeEntry ent fs (core_enc c) = Ok (body @ [CHR 0x0A]) \<and> (\<forall>b\<in>set body. 32 \<le> (of_char b :: nat))"
proof -
  let ?b = "DisableTimestamp cfg"
  have plain: "plain_encoder zap ?b (core_enc c)"
    by (rule plain_withs [OF assms(3)])
      (use assms(1,4) in \<open>simp_all add: NewTextEncoderByConfig_text NewTextCore_def NewTextEncoder_def plain_encoder_def\<close>)
  then have cfg: "EncConfig (core_enc c) = text_config zap ?b" by (simp add: plain_encoder_def)
  show ?thesis
    using plain_fields [OF plain_head [OF plain assms(5)], of fs] assms(4) plain_tail [of zap ?b _ ent]
    by (fastforce simp: EncodeEntry_parts [OF cfg assms(2)] printable_def list_all_iff is_Panic_iff)
qed

theorem EncodeEntry_one_line_witness:
  "\<exists>body. EncodeEntry sample_entry [PlainField [CallAddString ''k'' [CHR 0x0A]]]
       (core_enc (NewTextCore sample_encoder \<lparr>ws_Write = (\<lambda>_ w. (None, w)), ws_Sync = (\<lambda>w. (None, w))\<rparr> (\<lambda>_. True))) = Ok (body @ [CHR 0x0A])
     \<and> (\<forall>b\<in>set body. 32 \<le> (of_char b :: nat))"
  using EncodeEntry_one_line [OF sample_made, of "\<lparr>ws_Write = (\<lambda>_ w. (None, w)), ws_Sync = (\<lambda>w. (None, w))\<rparr>" "\<lambda>_. True" "[]"
      _ "[PlainField [CallAddString ''k'' [CHR 0x0A]]]" sample_entry]
  by (simp add: sample_entry_def)

section \<open>The reader\<close>

definition read_text :: "string \<Rightarrow> string \<times> string" where
  "read_text s =
     (case s of
        [] \<Rightarrow> ([], [])
      | c # r \<Rightarrow>
          if c = CHR 0x22 then (case scan_quoted r of (raw, rest) \<Rightarrow> (unescape raw, rest))
          else (unescape (takeWhile (\<lambda>c. c \<notin> {CHR '']'', CHR ''=''}) s), dropWhile (\<lambda>c. c \<notin> {CHR '']'', CHR ''=''}) s))"

datatype block = Single string | Pair string string

text \<open>A bracket without its opening.\<close>

definition read_block :: "string \<Rightarrow> (block \<times> string) option" where
  "read_block s =
     (case read_text s of
        (a, []) \<Rightarrow> None
      | (a, c # r) \<Rightarrow>
          if c = CHR '']'' then Some (Single a, r)
          else (case read_text r of
                  (b, d # r') \<Rightarrow> if d = CHR '']'' then Some (Pair a b, r') else None
                | (b, []) \<Rightarrow> None))"

fun read_blocks :: "nat \<Rightarrow> string \<Rightarrow> block list option" where
  "read_blocks (Suc n) (c # s) =
     (if c \<noteq> CHR ''['' then None
      else (case read_block s of
              None \<Rightarrow> None
            | Some (b, r) \<Rightarrow>
                (case r of
                   d # r' \<Rightarrow> if d = CHR '' '' then map_option ((#) b) (read_blocks n r')
                             else if r = [CHR 0x0A] then Some [b] else None
                 | [] \<Rightarrow> None)))"
| "read_blocks _ _ = None"

definition read_line :: "string \<Rightarrow> block list option" where
  "read_line s = read_blocks (length s) s"

text \<open>A text that is written as it is, and read as it is.\<close>

definition clean :: "string \<Rightarrow> bool" where
  "clean s \<longleftrightarrow> list_all (\<lambda>c. c \<notin> {CHR 0x22, CHR 0x5C, CHR '']'', CHR ''=''}) s"

definition ends :: "string \<Rightarrow> bool" where
  "ends rest \<longleftrightarrow> rest \<noteq> [] \<and> hd rest \<in> {CHR '']'', CHR ''=''}"

text \<open>A text of which \<open>v\<close> is read, wherever a text may end.\<close>

definition reads_text :: "string \<Rightarrow> string \<Rightarrow> bool" where
  "reads_text v t \<longleftrightarrow> (\<forall>rest. ends rest \<longrightarrow> read_text (t @ rest) = (v, rest))"

lemma bare_text: "bare t \<Longrightarrow> reads_text (unescape t) t"
  unfolding reads_text_def
proof safe
  fix rest
  assume bare: "bare t" and rest: "ends rest"
  then obtain c r where c: "rest = c # r" "c \<in> {CHR '']'', CHR ''=''}" by (cases rest) (auto simp: ends_def)
  have "takeWhile (\<lambda>c. c \<notin> {CHR '']'', CHR ''=''}) (t @ rest) = t \<and> dropWhile (\<lambda>c. c \<notin> {CHR '']'', CHR ''=''}) (t @ rest) = rest"
    using bare c by (induction t) (auto simp: bare_def)
  moreover have "t @ rest \<noteq> []" "hd (t @ rest) \<noteq> CHR 0x22" using bare c by (cases t; auto simp: bare_def)+
  ultimately show "read_text (t @ rest) = (unescape t, rest)" by (cases "t @ rest") (auto simp: read_text_def simp del: append_is_Nil_conv)
qed

lemma clean_text: "clean t \<Longrightarrow> reads_text t t"
proof -
  assume clean: "clean t"
  then have "unescape t = t" by (induction t) (auto simp: clean_def)
  then show ?thesis using clean bare_text [of t] by (auto simp: clean_def bare_def list_all_iff)
qed

lemma quoted_append: "safeAddStringWithQuote x s = x @ safeAddStringWithQuote [] s"
  using safeAddString_append [of x s] safeAddString_append [of "x @ [CHR 0x22]" s] safeAddString_append [of "[CHR 0x22]" s]
  by (simp add: safeAddStringWithQuote_def)

text \<open>Every text that is escaped reads as itself, with the replacement character for bytes that are not UTF-8.\<close>

lemma quoted_text: "reads_text (concat (runes s)) (safeAddStringWithQuote [] s)"
proof (cases "needDoubleQuotes s")
  case True
  have "safeAddStringWithQuote [] s = CHR 0x22 # escaped s @ [CHR 0x22]"
    using True safeAddString_append [of "[CHR 0x22]" s] by (simp add: safeAddStringWithQuote_def)
  moreover have "scan_quoted (escaped s @ CHR 0x22 # rest) = (escaped s, rest)" for rest by (rule scan_written [OF written_escaped])
  ultimately show ?thesis using unescape_written [OF written_escaped, of s] by (simp add: reads_text_def read_text_def)
next
  case False
  then show ?thesis
    using bare_text [OF bare_written [OF written_escaped False]] unescape_written [OF written_escaped, of s]
    by (simp add: safeAddStringWithQuote_def)
qed

text \<open>A bracket of which the block \<open>b\<close> is read.\<close>

definition reads_block :: "block \<Rightarrow> string \<Rightarrow> bool" where
  "reads_block b t \<longleftrightarrow> (\<exists>u. t = CHR ''['' # u \<and> (\<forall>rest. read_block (u @ rest) = Some (b, rest)))"

lemma single_block: "reads_text v t \<Longrightarrow> reads_block (Single v) (''['' @ t @ '']'')"
  by (simp add: reads_block_def read_block_def reads_text_def ends_def)

lemma pair_block: "reads_text k t \<Longrightarrow> reads_text v u \<Longrightarrow> reads_block (Pair k v) (''['' @ t @ ''='' @ u @ '']'')"
  by (simp add: reads_block_def read_block_def reads_text_def ends_def)

text \<open>A buffer that holds the given blocks, separated by blanks.\<close>

definition holds_blocks :: "block list \<Rightarrow> string \<Rightarrow> bool" where
  "holds_blocks bs x \<longleftrightarrow> (\<exists>ts. list_all2 reads_block bs ts \<and> x = drop 1 (concat (map (\<lambda>t. CHR '' '' # t) ts)))"

lemma holds_nil: "holds_blocks [] []"
  by (simp add: holds_blocks_def)

lemma read_blocks_held:
  assumes "list_all2 reads_block bs ts" and "bs \<noteq> []" and "length bs \<le> n"
  shows "read_blocks n (drop 1 (concat (map (\<lambda>t. CHR '' '' # t) ts)) @ [CHR 0x0A]) = Some bs"
  using assms
proof (induction arbitrary: n rule: list_all2_induct)
  case (Cons b bs t ts)
  obtain u where u: "t = CHR ''['' # u" "\<And>rest. read_block (u @ rest) = Some (b, rest)" using Cons.hyps(1) by (auto simp: reads_block_def)
  obtain m where m: "n = Suc m" using Cons.prems(2) by (cases n) auto
  show ?case
  proof (cases "bs = []")
    case True
    then have "ts = []" using Cons.hyps(2) by simp
    then show ?thesis by (simp add: m u True)
  next
    case False
    then obtain t' ts' where ts: "ts = t' # ts'" using Cons.hyps(2) by (cases ts) auto
    show ?thesis using Cons.IH [of m] False Cons.prems(2) by (simp add: m u ts)
  qed
qed simp

lemma read_line_held: "holds_blocks bs x \<Longrightarrow> bs \<noteq> [] \<Longrightarrow> read_line (x @ [CHR 0x0A]) = Some bs"
proof -
  assume "holds_blocks bs x" and bs: "bs \<noteq> []"
  then obtain ts where ts: "list_all2 reads_block bs ts" "x = drop 1 (concat (map (\<lambda>t. CHR '' '' # t) ts))" by (auto simp: holds_blocks_def)
  have "length (us :: string list) \<le> length (concat (map (\<lambda>t. CHR '' '' # t) us))" for us by (induction us) auto
  from this [of ts] show ?thesis using list_all2_lengthD [OF ts(1)] read_blocks_held [OF ts(1) bs, of "length (x @ [CHR 0x0A])"] by (simp add: ts(2) read_line_def)
qed

lemma holds_snoc:
  assumes "holds_blocks bs x" and "reads_block b (''['' @ t @ '']'')"
  shows "holds_blocks (bs @ [b]) ((if x = [] then ''['' else x @ '' ['') @ t @ '']'')"
proof -
  obtain ts where ts: "list_all2 reads_block bs ts" "x = drop 1 (concat (map (\<lambda>t. CHR '' '' # t) ts))"
    using assms(1) by (auto simp: holds_blocks_def)
  have all: "list_all2 reads_block (bs @ [b]) (ts @ [''['' @ t @ '']''])" using ts(1) assms(2) by (simp add: list_all2_appendI)
  have "x = [] \<longleftrightarrow> ts = []" using ts by (cases ts; cases bs) (auto simp: reads_block_def)
  then have "(if x = [] then ''['' else x @ '' ['') @ t @ '']'' = drop 1 (concat (map (\<lambda>t. CHR '' '' # t) (ts @ [''['' @ t @ '']''])))"
    using ts(2) by (cases ts) auto
  then show ?thesis using all unfolding holds_blocks_def by blast
qed

lemma holds_join:
  assumes "holds_blocks bs x" and "holds_blocks cs y" and "bs \<noteq> []"
  shows "holds_blocks (bs @ cs) (if y = [] then x else x @ '' '' @ y)"
proof -
  obtain ts us where t: "list_all2 reads_block bs ts" "x = drop 1 (concat (map (\<lambda>t. CHR '' '' # t) ts))"
    and u: "list_all2 reads_block cs us" "y = drop 1 (concat (map (\<lambda>t. CHR '' '' # t) us))"
    using assms(1,2) by (auto simp: holds_blocks_def)
  have "ts \<noteq> []" using t(1) assms(3) by auto
  moreover have "y = [] \<longleftrightarrow> us = []" using u by (cases us; cases cs) (auto simp: reads_block_def)
  ultimately have "(if y = [] then x else x @ '' '' @ y) = drop 1 (concat (map (\<lambda>t. CHR '' '' # t) (ts @ us)))"
    using t(2) u(2) by (cases ts; cases us) auto
  then show ?thesis using list_all2_appendI [OF t(1) u(1)] unfolding holds_blocks_def by blast
qed

section \<open>Fields\<close>

text \<open>The calls that write one key and one value. A value in JSON that fails writes nothing and a namespace writes no
  value, so they are not among them.\<close>

definition clean_time :: "log_time \<Rightarrow> bool" where
  "clean_time t \<longleftrightarrow> tm_Format t \<noteq> [] \<and> clean (tm_Format t)"

fun one_value :: "add_call \<Rightarrow> bool" where
  "one_value (CallAddComplex128 key r i) = (float_text clean r \<and> float_text clean i)"
| "one_value (CallAddFloat64 key f) = float_text clean f"
| "one_value (CallAddReflected key val) = (\<exists>s. val = Inr s)"
| "one_value (CallOpenNamespace key) = False"
| "one_value (CallAddTime key t) = clean_time t"
| "one_value _ = True"

text \<open>A text as it is read.\<close>

abbreviation valid :: "string \<Rightarrow> string" where
  "valid s \<equiv> string_of_runes (runes s)"

definition array_text :: "append_call list \<Rightarrow> textEncoder \<Rightarrow> string" where
  "array_text arr e = buf (do_appends arr (with_buf (\<lambda>b. b @ ''['') (cloned e))) @ '']''"

definition object_text :: "add_call list \<Rightarrow> textEncoder \<Rightarrow> string" where
  "object_text obj e = buf (do_adds obj (with_buf (\<lambda>b. b @ ''{'') (cloned e))) @ ''}''"

text \<open>The key and the value that are to be read.\<close>

fun key_value :: "zap_lib \<Rightarrow> textEncoder \<Rightarrow> add_call \<Rightarrow> string \<times> string" where
  "key_value zap e (CallAddArray key arr err) = (key, valid (array_text arr e))"
| "key_value zap e (CallAddObject key obj err) = (key, valid (object_text obj e))"
| "key_value zap e (CallAddBinary key val) = (key, valid (base64 val))"
| "key_value zap e (CallAddByteString key val) = (key, valid val)"
| "key_value zap e (CallAddBool key val) = (key, if val then ''true'' else ''false'')"
| "key_value zap e (CallAddComplex128 key r i) = (key, buffer_AppendFloat r @ ''+'' @ buffer_AppendFloat i @ ''i'')"
| "key_value zap e (CallAddDuration key d) = (key, if DurationString zap d = [] then string_of_int d else valid (DurationString zap d))"
| "key_value zap e (CallAddFloat64 key f) = (key, buffer_AppendFloat f)"
| "key_value zap e (CallAddInt64 key i) = (key, string_of_int i)"
| "key_value zap e (CallAddReflected key val) = (key, case val of Inl _ \<Rightarrow> [] | Inr s \<Rightarrow> valid (TrimNewline s))"
| "key_value zap e (CallOpenNamespace key) = (key, [])"
| "key_value zap e (CallAddString key val) = (key, valid val)"
| "key_value zap e (CallAddTime key t) = (key, tm_Format t)"
| "key_value zap e (CallAddUint64 key n) = (key, string_of_nat n)"

lemma cloned_simps [simp]: "cloned (with_buf f e) = cloned e" "cloned (addKey key e) = cloned e" "cloned (cloned e) = cloned e"
  "cloned (beginQuoteFiled e) = cloned e" "cloned (endQuoteFiled e) = cloned e"
  by (simp_all add: cloned_def with_buf_def addKey_def beginQuoteFiled_def endQuoteFiled_def)

lemma clean_simps [simp]:
  "clean []" "clean (s @ t) \<longleftrightarrow> clean s \<and> clean t"
  "clean (c # s) \<longleftrightarrow> c \<notin> {CHR 0x22, CHR 0x5C, CHR '']'', CHR ''=''} \<and> clean s"
  by (auto simp: clean_def)

lemma clean_digit: "d < 10 \<Longrightarrow> clean [digit_char d]"
proof -
  assume "d < 10"
  have "list_all (\<lambda>d. clean [digit_char d]) [0..<10]" by (simp add: upt_rec char_of_def)
  then show ?thesis using \<open>d < 10\<close> by (simp add: list_all_iff del: digit_char.simps clean_simps(3))
qed

lemma clean_nat [simp]: "clean (string_of_nat n)"
proof (induction n rule: string_of_nat.induct)
  case (1 n)
  show ?case using 1 clean_digit [of n] clean_digit [of "n mod 10"]
    by (subst string_of_nat.simps) (simp del: digit_char.simps clean_simps(3))
qed

lemma clean_int [simp]: "clean (string_of_int i)"
  by (simp add: string_of_int_def)

lemma clean_float: "float_text clean f \<Longrightarrow> clean (buffer_AppendFloat f)"
  by (cases f) simp_all

lemma separator_after [simp]:
  "addElementSeparator (x @ ''='') = x @ ''=''" "addElementSeparator (x @ ''['') = x @ ''[''"
  "addElementSeparator ''['' = ''[''"
  by (simp_all add: addElementSeparator_def)

lemma AppendByteString_eq: "AppendByteString s x = AppendString s x"
  by (simp add: AppendByteString_def AppendString_def safeAddStringWithQuote_def safeAddByteString_eq)

text \<open>After the sign of equality a text that is appended reads as it should.\<close>

definition adds_text :: "string \<Rightarrow> (string \<Rightarrow> string) \<Rightarrow> bool" where
  "adds_text v f \<longleftrightarrow> (\<exists>t. reads_text v t \<and> (\<forall>x. x = [] \<or> last x \<in> {CHR ''='', CHR ''[''} \<longrightarrow> f x = x @ t))"

lemma separator_end: "x = [] \<or> last x \<in> {CHR ''='', CHR ''[''} \<Longrightarrow> addElementSeparator x = x"
  by (auto simp: addElementSeparator_def)

lemma adds_string: "adds_text (valid s) (AppendString s)"
proof -
  have "AppendString s x = x @ safeAddStringWithQuote [] s" if "x = [] \<or> last x \<in> {CHR ''='', CHR ''[''}" for x
    using quoted_append [of x s] separator_end [OF that] by (simp add: AppendString_def)
  then show ?thesis using quoted_text [of s] unfolding adds_text_def string_of_runes_def by blast
qed

lemma adds_clean: "clean t \<Longrightarrow> (\<And>x. x = [] \<or> last x \<in> {CHR ''='', CHR ''[''} \<Longrightarrow> f x = x @ t) \<Longrightarrow> adds_text t f"
  using clean_text [of t] unfolding adds_text_def by blast

lemma adds_simple:
  "adds_text (valid s) (AppendByteString s)"
  "adds_text (if val then ''true'' else ''false'') (AppendBool val)"
  "adds_text (string_of_int i) (AppendInt64 i)" "adds_text (string_of_nat n) (AppendUint64 n)"
  "float_text clean f \<Longrightarrow> adds_text (buffer_AppendFloat f) (appendFloat f)"
  "float_text clean f \<Longrightarrow> float_text clean g \<Longrightarrow>
     adds_text (buffer_AppendFloat f @ ''+'' @ buffer_AppendFloat g @ ''i'') (AppendComplex128 f g)"
proof -
  have "AppendByteString s = AppendString s" by (simp add: AppendByteString_eq fun_eq_iff)
  then show "adds_text (valid s) (AppendByteString s)" using adds_string by simp
qed (rule adds_clean; simp add: clean_float AppendBool_def AppendInt64_def AppendUint64_def appendFloat_def AppendComplex128_def
      separator_end split: log_float.split)+

lemma adds_time:
  assumes "clean_time t"
  shows "adds_text (tm_Format t) (AppendTime (text_config zap b) t)"
  by (rule adds_clean)
    (use assms in \<open>simp_all add: clean_time_def AppendTime_def text_config_def DefaultTimeEncoder_eq\<close>)

text \<open>A function that may write nothing, and what is written then.\<close>

lemma written_nothing: "(safeAddStringWithQuote x s = x) = (s = [])"
proof -
  have "safeAddStringWithQuote [] s \<noteq> []" if "s \<noteq> []"
  proof
    assume e: "safeAddStringWithQuote [] s = []"
    then have "\<not> needDoubleQuotes s" by (auto simp: safeAddStringWithQuote_def)
    then have "escaped s = []" using e by (simp add: safeAddStringWithQuote_def)
    then have "written s [] (concat (runes s))" using written_escaped [of s] by simp
    moreover have "written s' e' d \<Longrightarrow> e' = [] \<Longrightarrow> s' = []" for s' e' d
      by (induction rule: written.induct) (auto simp: tryAddRuneSelf_def split: if_splits)
    ultimately show False using that by blast
  qed
  moreover have "safeAddStringWithQuote x [] = x" by (simp add: safeAddStringWithQuote_def)
  ultimately show ?thesis using quoted_append [of x s] by (metis append_self_conv)
qed

lemma adds_duration:
  "adds_text (if DurationString zap d = [] then string_of_int d else valid (DurationString zap d)) (AppendDuration (text_config zap b) d)"
proof -
  let ?s = "DurationString zap d"
  have no_text: "length (AppendString s x) = length x \<longleftrightarrow> s = []" if "x = [] \<or> last x \<in> {CHR ''='', CHR ''[''}" for s x
    using quoted_append [of x s] written_nothing [of x s] separator_end [OF that] by (auto simp: AppendString_def)
  show ?thesis
  proof (cases "?s = []")
    case True
    have "AppendDuration (text_config zap b) d x = x @ string_of_int d" if "x = [] \<or> last x \<in> {CHR ''='', CHR ''[''}" for x
      using no_text [OF that, of "[]"] separator_end [OF that] True
      by (simp add: AppendDuration_def text_config_def StringDurationEncoder_def AppendInt64_def AppendString_def safeAddStringWithQuote_def)
    then show ?thesis using adds_clean [of "string_of_int d"] True by simp
  next
    case False
    have "AppendDuration (text_config zap b) d x = AppendString ?s x" if x: "x = [] \<or> last x \<in> {CHR ''='', CHR ''[''}" for x
      using no_text [OF x, of ?s] False by (simp add: AppendDuration_def text_config_def StringDurationEncoder_def Let_def)
    then show ?thesis using adds_string [of ?s] False unfolding adds_text_def by auto
  qed
qed

text \<open>A call that writes one value after its key.\<close>

lemma do_add_value:
  assumes "one_value c" and "EncConfig e = text_config zap b"
  shows "\<exists>t. buf (do_add c e) = buf (addKey (fst (key_value zap e c)) e) @ t \<and> reads_text (snd (key_value zap e c)) t
    \<and> cloned (do_add c e) = cloned e"
proof -
  have val: "\<exists>t. f (buf (addKey key e)) = buf (addKey key e) @ t \<and> reads_text v t" if "adds_text v f" for v f key
    using that by (auto simp: adds_text_def)
  have nested: "addElementSeparator (buf (addKey key e)) = buf (addKey key e)" for key by simp
  show ?thesis
    using assms(1) val [OF adds_string] val [OF adds_simple(1)] val [OF adds_simple(2)] val [OF adds_simple(3)]
      val [OF adds_simple(4)] val [OF adds_simple(5)] val [OF adds_simple(6)] val [OF adds_time] val [OF adds_duration]
    by (cases c) (auto simp add: assms(2) nested Let_def array_text_def object_text_def simp del: encoder_simps(6))
qed

text \<open>An encoder that holds blocks and is otherwise as the one it came from.\<close>

definition holds :: "zap_lib \<Rightarrow> bool \<Rightarrow> textEncoder \<Rightarrow> block list \<Rightarrow> textEncoder \<Rightarrow> bool" where
  "holds zap b e0 bs e \<longleftrightarrow> EncConfig e0 = text_config zap b \<and> cloned e = cloned e0 \<and> holds_blocks bs (buf e)"

lemma holds_same: "holds zap b e0 bs e \<Longrightarrow> disableErrorVerbose e = disableErrorVerbose e0 \<and> openNamespaces e = openNamespaces e0"
proof -
  assume "holds zap b e0 bs e"
  then have "cloned e = cloned e0" by (simp add: holds_def)
  then have "disableErrorVerbose (cloned e) = disableErrorVerbose (cloned e0)" "openNamespaces (cloned e) = openNamespaces (cloned e0)"
    by simp_all
  then show ?thesis by (simp add: cloned_def)
qed

lemma holds_config: "holds zap b e0 bs e \<Longrightarrow> EncConfig e = text_config zap b"
  using encoder_simps(4) [of e] encoder_simps(4) [of e0] by (simp add: holds_def)

definition pair_of :: "string \<times> string \<Rightarrow> block" where
  "pair_of kv = Pair (valid (fst kv)) (snd kv)"

lemma key_value_cloned: "cloned e = cloned e' \<Longrightarrow> key_value zap e c = key_value zap e' c"
  by (cases c) (simp_all add: array_text_def object_text_def)

lemma buf_begin_last: "last (buf (beginQuoteFiled e)) = CHR ''[''"
  by simp

lemma holds_value:
  assumes "holds zap b e0 bs e" and "one_value c"
  shows "holds zap b e0 (bs @ [pair_of (key_value zap e0 c)]) (endQuoteFiled (do_add c (beginQuoteFiled e)))"
proof -
  let ?x = "buf (beginQuoteFiled e)" and ?kv = "key_value zap e0 c"
  have same: "key_value zap (beginQuoteFiled e) c = ?kv" using assms(1) by (intro key_value_cloned) (simp add: holds_def)
  obtain t where t: "buf (do_add c (beginQuoteFiled e)) = buf (addKey (fst ?kv) (beginQuoteFiled e)) @ t"
      "reads_text (snd ?kv) t" "cloned (do_add c (beginQuoteFiled e)) = cloned e"
    using do_add_value [OF assms(2), of "beginQuoteFiled e" zap b] holds_config [OF assms(1)] by (auto simp: same)
  have sep: "addElementSeparator ?x = ?x" using separator_end [of ?x] by simp
  have key: "buf (addKey (fst ?kv) (beginQuoteFiled e)) = ?x @ safeAddStringWithQuote [] (fst ?kv) @ ''=''"
    unfolding encoder_simps(6) sep using quoted_append [of ?x] by simp
  have block: "reads_block (pair_of ?kv) (''['' @ (safeAddStringWithQuote [] (fst ?kv) @ ''='' @ t) @ '']'')"
    using pair_block [OF quoted_text [of "fst ?kv"] t(2)] by (simp add: pair_of_def string_of_runes_def)
  show ?thesis using holds_snoc [OF _ block, of bs "buf e"] assms(1) t(1,3) key
    by (auto simp: holds_def split: if_splits)
qed

lemma holds_single:
  assumes "holds zap b e0 bs e" and "adds_text v f"
  shows "holds zap b e0 (bs @ [Single v]) (endQuoteFiled (with_buf f (beginQuoteFiled e)))"
proof -
  obtain t where t: "reads_text v t" "f (buf (beginQuoteFiled e)) = buf (beginQuoteFiled e) @ t"
    using assms(2) unfolding adds_text_def by (metis buf_begin_last insertI1 insert_commute)
  show ?thesis using holds_snoc [OF _ single_block [OF t(1)], of bs "buf e"] assms(1) t(2)
    by (auto simp: holds_def split: if_splits)
qed

lemma holds_bracket:
  assumes "holds zap b e0 bs e"
  shows "holds zap b e0 (bs @ [Single (valid (if s = [] then fallback else s))]) (bracket (AppendString s) fallback e)"
proof -
  let ?x = "buf (beginQuoteFiled e)"
  have sep: "addElementSeparator ?x = ?x" using separator_end [of ?x] by simp
  have same: "AppendString [] ?x = ?x" unfolding AppendString_def sep by (simp add: safeAddStringWithQuote_def)
  have "s \<noteq> [] \<Longrightarrow> length ?x \<noteq> length (AppendString s ?x)"
    using quoted_append [of ?x s] written_nothing [of ?x s] unfolding AppendString_def sep by auto
  then have "bracket (AppendString s) fallback e
      = endQuoteFiled (with_buf (AppendString (if s = [] then fallback else s)) (beginQuoteFiled e))"
    using same by (auto simp: bracket_def Let_def with_buf_def)
  then show ?thesis using holds_single [OF assms adds_string] by simp
qed

fun one_field :: "Field \<Rightarrow> bool" where
  "one_field (ErrorField key err) = (err \<noteq> None)"
| "one_field (PlainField [c]) = one_value c"
| "one_field (PlainField _) = False"

fun field_blocks :: "zap_lib \<Rightarrow> textEncoder \<Rightarrow> Field \<Rightarrow> block list" where
  "field_blocks zap e (ErrorField key None) = []"
| "field_blocks zap e (ErrorField key (Some err)) =
     pair_of (key, valid (err_Error err))
     # (case err_verbose err of
          None \<Rightarrow> []
        | Some verbose \<Rightarrow>
            if disableErrorVerbose e \<or> verbose = err_Error err then []
            else [pair_of (key @ ''Verbose'', valid verbose)])"
| "field_blocks zap e (PlainField calls) = map (\<lambda>c. pair_of (key_value zap e c)) calls"

lemma holds_field:
  assumes "holds zap b e0 bs e" and "one_field f"
  shows "\<exists>e'. addField e f = Ok e' \<and> holds zap b e0 (bs @ field_blocks zap e0 f) e'"
proof (cases f)
  case (PlainField calls)
  then obtain c where c: "calls = [c]" "one_value c" using assms(2) by (cases calls rule: list.exhaust; cases "tl calls"; auto)
  then show ?thesis using holds_value [OF assms(1) c(2)] by (simp add: PlainField addField_def)
next
  case (ErrorField key err)
  then obtain er where er: "err = Some er" using assms(2) by auto
  have verbose: "disableErrorVerbose (endQuoteFiled (do_add (CallAddString k v) (beginQuoteFiled x))) = disableErrorVerbose x" for k v x
    by (simp add: endQuoteFiled_def with_buf_def addKey_def beginQuoteFiled_def)
  have same: "disableErrorVerbose e = disableErrorVerbose e0"
    using holds_same [OF assms(1)] by simp
  note first = holds_value [OF assms(1), of "CallAddString key (err_Error er)"]
  note second = holds_value [OF first, of "CallAddString (key @ ''Verbose'') (the (err_verbose er))"]
  show ?thesis
    using first second verbose [of key "err_Error er" e]
    by (cases "err_verbose er") (simp_all add: ErrorField er addField_def encodeError_def Let_def same del: do_add.simps)
qed

lemma holds_fields:
  "holds zap b e0 bs e \<Longrightarrow> list_all one_field fs \<Longrightarrow>
     \<exists>e'. addFields fs e = Ok e' \<and> holds zap b e0 (bs @ concat (map (field_blocks zap e0) fs)) e'"
proof (induction fs arbitrary: bs e)
  case (Cons f fs)
  obtain e1 where "addField e f = Ok e1" "holds zap b e0 (bs @ field_blocks zap e0 f) e1"
    using holds_field [OF Cons.prems(1), of f] Cons.prems(2) by auto
  then show ?case using Cons.IH [of "bs @ field_blocks zap e0 f" e1] Cons.prems(2) by (auto simp: addFields_def)
qed (simp add: addFields_def)

section \<open>Entries that read back\<close>

lemma holds_withs:
  assumes "holds zap b e0 bs (core_enc c)" and "list_all one_field (concat fss)"
  shows "\<exists>c'. foldO (\<lambda>c fs. core_With fs c) c fss = Ok c' \<and> holds zap b e0 (bs @ concat (map (field_blocks zap e0) (concat fss))) (core_enc c')"
  using assms
proof (induction fss arbitrary: bs c)
  case (Cons fs fss)
  have "holds zap b e0 bs (Clone (core_enc c))" using Cons.prems(1) by (simp add: holds_def Clone_def cloned_def)
  then obtain e where e: "addFields fs (Clone (core_enc c)) = Ok e" "holds zap b e0 (bs @ concat (map (field_blocks zap e0) fs)) e"
    using holds_fields [of zap b e0 bs "Clone (core_enc c)" fs] Cons.prems(2) by auto
  then show ?case using Cons.IH [of "bs @ concat (map (field_blocks zap e0) fs)" "core_clone c\<lparr>core_enc := e\<rparr>"] Cons.prems(2)
    by (simp add: core_With_def core_clone_def Let_def)
qed simp

definition head_blocks :: "zap_lib \<Rightarrow> bool \<Rightarrow> Entry \<Rightarrow> block list" where
  "head_blocks zap noTime ent =
     (if noTime then [] else [Single (tm_Format (ent_Time ent))])
     @ [Single (valid (if CapitalString zap (ent_Level ent) = [] then ent_LevelString ent else CapitalString zap (ent_Level ent)))]
     @ (if LoggerName ent = [] then [] else [Single (valid (LoggerName ent))])
     @ (case ent_Caller ent of None \<Rightarrow> [] | Some (path, full) \<Rightarrow> [Single (valid (if path = [] then full else path))])
     @ (if ent_Message ent = [] then [] else [Single (valid (ent_Message ent))])"

definition entry_blocks :: "zap_lib \<Rightarrow> bool \<Rightarrow> textEncoder \<Rightarrow> Entry \<Rightarrow> Field list \<Rightarrow> block list" where
  "entry_blocks zap noTime e ent fs =
     head_blocks zap noTime ent @ concat (map (field_blocks zap e) fs)
     @ (if Stack ent = [] then [] else [pair_of (''stack'', valid (Stack ent))])"

lemma holds_caller:
  "holds zap b e0 bs e \<Longrightarrow>
     holds zap b e0 (bs @ (case caller of None \<Rightarrow> [] | Some (path, full) \<Rightarrow> [Single (valid (if path = [] then full else path))]))
       (case caller of None \<Rightarrow> e | Some (path, full) \<Rightarrow> bracket (AppendString path) full e)"
  using holds_bracket [of zap b e0 bs e] by (auto split: option.split)

lemma holds_name:
  "holds zap b e0 bs e \<Longrightarrow>
     holds zap b e0 (bs @ (if s = [] then [] else [Single (valid s)])) (if s = [] then e else bracket (AppendString s) s e)"
  using holds_bracket [of zap b e0 bs e s s] by auto

lemma holds_message:
  "holds zap b e0 bs e \<Longrightarrow>
     holds zap b e0 (bs @ (if s = [] then [] else [Single (valid s)]))
       (if s = [] then e else endQuoteFiled (with_buf (AppendString s) (beginQuoteFiled e)))"
  using holds_single [OF _ adds_string [of s], of zap b e0 bs e] by auto

lemma holds_over:
  "holds zap b e0 bs e \<Longrightarrow> holds zap b e0 cs enc \<Longrightarrow> bs \<noteq> [] \<Longrightarrow>
     holds zap b e0 (bs @ cs) (if buf enc = [] then e else with_buf (\<lambda>x. x @ '' '' @ buf enc) e)"
  using holds_join [of bs "buf e" cs "buf enc"] by (auto simp: holds_def)

lemma holds_head:
  assumes "holds zap b e0 bs enc" and "b \<or> clean_time (ent_Time ent)"
  shows "holds zap b e0 (head_blocks zap b ent @ bs) (entry_head zap b ent enc)"
proof -
  have start: "holds zap b e0 [] (cloned enc)" using assms(1) by (simp add: holds_def holds_nil)
  let ?e1 = "if b then cloned enc
    else endQuoteFiled (with_buf (AppendTime (text_config zap b) (ent_Time ent)) (beginQuoteFiled (cloned enc)))"
  let ?b1 = "if b then [] else [Single (tm_Format (ent_Time ent))]"
  have e1: "holds zap b e0 ?b1 ?e1" using start holds_single [OF start adds_time] assms(2) by auto
  let ?e2 = "bracket (AppendString (CapitalString zap (ent_Level ent))) (ent_LevelString ent) ?e1"
  note e2 = holds_bracket [OF e1, of "CapitalString zap (ent_Level ent)" "ent_LevelString ent"]
  let ?e3 = "if LoggerName ent = [] then ?e2 else bracket (AppendString (LoggerName ent)) (LoggerName ent) ?e2"
  let ?b3 = "(?b1 @ [Single (valid (if CapitalString zap (ent_Level ent) = [] then ent_LevelString ent else CapitalString zap (ent_Level ent)))])
    @ (if LoggerName ent = [] then [] else [Single (valid (LoggerName ent))])"
  have e3: "holds zap b e0 ?b3 ?e3" by (rule holds_name [OF e2])
  let ?e4 = "case ent_Caller ent of None \<Rightarrow> ?e3 | Some (path, full) \<Rightarrow> bracket (AppendString path) full ?e3"
  let ?b4 = "?b3 @ (case ent_Caller ent of None \<Rightarrow> [] | Some (path, full) \<Rightarrow> [Single (valid (if path = [] then full else path))])"
  have e4: "holds zap b e0 ?b4 ?e4"
    by (rule holds_caller [OF e3])
  let ?e5 = "if ent_Message ent = [] then ?e4 else endQuoteFiled (with_buf (AppendString (ent_Message ent)) (beginQuoteFiled ?e4))"
  let ?b5 = "?b4 @ (if ent_Message ent = [] then [] else [Single (valid (ent_Message ent))])"
  have e5: "holds zap b e0 ?b5 ?e5" by (rule holds_message [OF e4])
  have "holds zap b e0 (?b5 @ bs) (if buf enc = [] then ?e5 else with_buf (\<lambda>x. x @ '' '' @ buf enc) ?e5)"
    by (rule holds_over [OF e5 assms(1)]) simp
  then show ?thesis unfolding entry_head_def head_blocks_def Let_def append_assoc .
qed

text \<open>C36: An entry reads back: with a logger that \<open>With\<close> has been given fields any number of times, a reader that splits a
  line at its brackets and knows the quotes gets exactly the time, the level, the name, the caller, the message, the
  logger's fields and those of the entry in their order with their keys and values, and the stack, so no text that is
  logged can pass for another field, another entry or the end of its own. Bytes that are not UTF-8 read as the
  replacement character. The fields are errors or write one value.\<close>

theorem EncodeEntry_reads_back:
  assumes "NewTextEncoderByConfig zap cfg = Ok (TextEncoder e)" and "DefaultLineEnding zap = [CHR 0x0A]"
    and "list_all one_field (concat fss @ fs)" and "clean_time (ent_Time ent)"
  shows "\<exists>c line. foldO (\<lambda>c fs. core_With fs c) (NewTextCore e ws en) fss = Ok c
    \<and> EncodeEntry ent fs (core_enc c) = Ok line
    \<and> read_line line = Some (entry_blocks zap (DisableTimestamp cfg) e ent (concat fss @ fs))"
proof -
  let ?b = "DisableTimestamp cfg"
  have e: "EncConfig e = text_config zap ?b" "buf e = []" "openNamespaces e = 0"
    using assms(1) by (simp_all add: NewTextEncoderByConfig_text NewTextEncoder_def)
  have "holds zap ?b e [] (core_enc (NewTextCore e ws en))" by (simp add: holds_def NewTextCore_def e holds_nil)
  then obtain c where c: "foldO (\<lambda>c fs. core_With fs c) (NewTextCore e ws en) fss = Ok c"
      "holds zap ?b e (concat (map (field_blocks zap e) (concat fss))) (core_enc c)"
    using holds_withs [of zap ?b e "[]" "NewTextCore e ws en" fss] assms(3) by auto
  note head = holds_head [OF c(2) disjI2 [OF assms(4)]]
  obtain e' where e': "addFields fs (entry_head zap ?b ent (core_enc c)) = Ok e'"
      "holds zap ?b e (head_blocks zap ?b ent @ concat (map (field_blocks zap e) (concat fss @ fs))) e'"
    using holds_fields [OF head, of fs] assms(3) by auto
  have "closeOpenNamespaces e' = e'" using holds_same [OF e'(2)] e(3) by (simp add: closeOpenNamespaces_def)
  then have "holds zap ?b e (entry_blocks zap ?b e ent (concat fss @ fs)) (entry_tail ent e')"
    using e'(2) holds_value [OF e'(2), of "CallAddString ''stack'' (Stack ent)"]
    by (simp add: entry_tail_def entry_blocks_def del: do_add.simps)
  then have "read_line (buf (entry_tail ent e') @ [CHR 0x0A]) = Some (entry_blocks zap ?b e ent (concat fss @ fs))"
    by (intro read_line_held) (auto simp: holds_def entry_blocks_def head_blocks_def)
  then show ?thesis using c(1) e'(1) EncodeEntry_parts [OF holds_config [OF c(2)] assms(2)] by simp
qed

theorem EncodeEntry_reads_back_witness:
  "\<exists>c line. foldO (\<lambda>c fs. core_With fs c) (NewTextCore sample_encoder \<lparr>ws_Write = (\<lambda>_ w. (None, w)), ws_Sync = (\<lambda>w. (None, w))\<rparr> (\<lambda>_. True))
       [[PlainField [CallAddString ''k'' ''2]'']]] = Ok c
     \<and> EncodeEntry sample_entry [PlainField [CallAddBool ''b'' True]] (core_enc c) = Ok line
     \<and> read_line line = Some [Single ''12:00'', Single ''INFO'', Single (''hi] [k=1]'' @ [CHR 0x0A] @ ''x''), Pair ''k'' ''2]'', Pair ''b'' ''true'']"
  using EncodeEntry_reads_back [OF sample_made, of "[[PlainField [CallAddString ''k'' ''2]'']]]" "[PlainField [CallAddBool ''b'' True]]" sample_entry
      "\<lparr>ws_Write = (\<lambda>_ w. (None, w)), ws_Sync = (\<lambda>w. (None, w))\<rparr>" "\<lambda>_. True"]
  by (simp add: sample_entry_def entry_blocks_def head_blocks_def clean_time_def sample_zap_def pair_of_def first_rune_def string_of_runes_def)

section \<open>What does not read back\<close>

text \<open>The separator is left out after some bytes even when they end a text, and a comma in a text is not quoted, so
  different arrays are written as the same.\<close>

lemma arrays_collide:
  "array_text [CallAppendString ''a:'', CallAppendString ''b''] e = array_text [CallAppendString ''a:b''] e"
  "array_text [CallAppendString ''a'', CallAppendString ''b''] e = array_text [CallAppendString ''a,b''] e"
  by (simp_all add: array_text_def AppendString_def addElementSeparator_def safeAddStringWithQuote_def tryAddRuneSelf_def)

text \<open>The time encoder writes past the separator: the times of an array run into each other.\<close>

lemma times_run_together:
  assumes "EncConfig e = text_config zap b" and "tm_Format t \<noteq> []" and "tm_Format u \<noteq> []"
  shows "array_text [CallAppendTime t, CallAppendTime u] e = ''['' @ tm_Format t @ tm_Format u @ '']''"
proof -
  have "EncodeTime (EncConfig e) = DefaultTimeEncoder" by (simp add: assms(1) text_config_def)
  then show ?thesis using assms(2,3) by (simp add: array_text_def AppendTime_def DefaultTimeEncoder_eq)
qed

text \<open>A namespace that is opened in an object is never closed.\<close>

lemma namespace_stays_open:
  "object_text [CallOpenNamespace ''n'', CallAddBool ''b'' True] e = ''{n={b=true}''"
  by (simp add: object_text_def AppendBool_def addElementSeparator_def safeAddStringWithQuote_def tryAddRuneSelf_def)

text \<open>One that is opened by a field is closed at the end of the line, outside the brackets.\<close>

lemma namespace_closed_outside:
  "EncodeEntry (sample_entry\<lparr>ent_Message := []\<rparr>) [PlainField [CallOpenNamespace ''n''], PlainField [CallAddBool ''b'' True]] sample_encoder
     = Ok (''[12:00] [INFO] [n={] [b=true]}'' @ [CHR 0x0A])"
  by (simp add: EncodeEntry_parts [of _ sample_zap False] sample_encoder_def NewTextEncoder_def entry_head_def entry_tail_def bracket_def
      sample_entry_def sample_zap_def addFields_def addField_def AppendTime_def text_config_def DefaultTimeEncoder_eq AppendString_def
      AppendBool_def addElementSeparator_def safeAddStringWithQuote_def tryAddRuneSelf_def beginQuoteFiled_def endQuoteFiled_def
      with_buf_def cloned_def OpenNamespace_def addKey_def closeOpenNamespaces_def Let_def)

text \<open>\<open>With\<close> leaves the core it is called on as it is and keeps writer and levels.\<close>

lemma core_With_keeps:
  "core_With fs c = Ok c' \<Longrightarrow> core_out c' = core_out c \<and> core_Enabled c' = core_Enabled c"
  by (auto simp: core_With_def core_clone_def Let_def outcome_simps)

end
