(* ===== verification/LogGlobals.thy ===== *)
theory LogGlobals
  imports Merr
begin

text \<open>
  Package \<open>log\<close> above the encoder: the registers of the process (pkg/log/log.go), the loggers in contexts (global.go), the
  rate groups (mlogger.go) and the options of a configuration (config.go).

  A logger of zap is of a type \<open>'l\<close> and its methods are a parameter (\<open>zap_logger\<close>), as are opening files and parsing levels.
  A rate limiter is named by a number; the store holds its settings and its answers come from outside. Levels are zap's
  numbers, from debug, -1, to fatal, 5.
\<close>

abbreviation DebugLevel :: int where "DebugLevel \<equiv> - 1"
abbreviation InfoLevel :: int where "InfoLevel \<equiv> 0"
abbreviation WarnLevel :: int where "WarnLevel \<equiv> 1"
abbreviation ErrLevel :: int where "ErrLevel \<equiv> 2"
abbreviation DPanicLevel :: int where "DPanicLevel \<equiv> 3"
abbreviation PanicLevel :: int where "PanicLevel \<equiv> 4"
abbreviation FatalLevel :: int where "FatalLevel \<equiv> 5"

record ('l, 'f) zap_logger =
  zl_With :: "'f list \<Rightarrow> 'l \<Rightarrow> 'l"
  zl_IncreaseLevel :: "int \<Rightarrow> 'l \<Rightarrow> 'l"
  zl_AddCallerSkip :: "int \<Rightarrow> 'l \<Rightarrow> 'l"
  zl_Sync :: "'l \<Rightarrow> go_error option"
  zl_SugarSync :: "'l \<Rightarrow> go_error option"

section \<open>Configurations\<close>

record FileLogConfig =
  RootPath :: string
  Filename :: string
  MaxSize :: int
  MaxDays :: int
  MaxBackups :: int

record Config =
  cfg_Level :: string
  cfg_Stdout :: bool
  cfg_File :: FileLogConfig
  Development :: bool
  DisableCaller :: bool
  DisableStacktrace :: bool
  Sampling :: "(int \<times> int) option"

datatype zap_option = ErrorOutput | DevelopmentOption | AddCaller | AddStacktrace int | WrapSampler int int

definition buildOptions :: "Config \<Rightarrow> zap_option list" where
  "buildOptions cfg =
     (let opts = [ErrorOutput];
          opts = (if Development cfg then opts @ [DevelopmentOption] else opts);
          opts = (if \<not> DisableCaller cfg then opts @ [AddCaller] else opts);
          stackLevel = (if Development cfg then WarnLevel else ErrLevel);
          opts = (if \<not> DisableStacktrace cfg then opts @ [AddStacktrace stackLevel] else opts)
      in (case Sampling cfg of None \<Rightarrow> opts | Some (initial, thereafter) \<Rightarrow> opts @ [WrapSampler initial thereafter]))"

text \<open>The logger of a file, as its settings; \<open>is_dir\<close> tells whether the path is an existing directory.\<close>

record lumberjack =
  lj_Filename :: string
  lj_MaxSize :: int
  lj_MaxBackups :: int
  lj_MaxAge :: int

definition initFileLog :: "(string \<Rightarrow> bool) \<Rightarrow> FileLogConfig \<Rightarrow> (go_error, lumberjack) outcome" where
  "initFileLog is_dir cfg =
     (let logPath = RootPath cfg @ ''/'' @ Filename cfg
      in if is_dir logPath then Err (ErrorString (''can'' @ [CHR 0x27] @ ''t use directory as log file name''))
         else let size' = (if MaxSize cfg = 0 then 300 else MaxSize cfg)
              in Ok \<lparr>lj_Filename = logPath, lj_MaxSize = size', lj_MaxBackups = MaxBackups cfg, lj_MaxAge = MaxDays cfg\<rparr>)"

section \<open>The registers of the process\<close>

record 'l registers =
  globalL :: 'l
  globalLevel :: int
  leveled :: "int \<rightharpoonup> 'l"
  namedLimiters :: "string \<rightharpoonup> nat"
  limiter_settings :: "nat \<Rightarrow> int \<times> int"
  limiters_made :: nat

definition all_levels :: "int list" where
  "all_levels = [DebugLevel, InfoLevel, WarnLevel, ErrLevel, DPanicLevel, PanicLevel, FatalLevel]"

definition replaceLeveledLoggers :: "('l, 'f) zap_logger \<Rightarrow> 'l \<Rightarrow> 'l registers \<Rightarrow> 'l registers" where
  "replaceLeveledLoggers zl debugLogger g =
     foldl (\<lambda>g level. g\<lparr>leveled := (leveled g)(level \<mapsto> zl_IncreaseLevel zl level debugLogger)\<rparr>) g all_levels"

text \<open>The parts of \<open>InitLogger\<close> that come from outside: opening the standard output, building a logger at the debug level,
  and parsing a level.\<close>

record 'l log_env =
  env_is_dir :: "string \<Rightarrow> bool"
  env_open_stdout :: "go_error option"
  env_build :: "Config \<Rightarrow> (go_error, 'l) outcome"
  env_ParseLevel :: "string \<Rightarrow> int option"

text \<open>The logger, its level, and the registers, which are changed even when the level turns out to be wrong.\<close>

definition InitLogger ::
  "('l, 'f) zap_logger \<Rightarrow> 'l log_env \<Rightarrow> Config \<Rightarrow> 'l registers \<Rightarrow> (go_error, 'l \<times> int) outcome \<times> 'l registers" where
  "InitLogger zl env cfg g =
     (case (if length (Filename (cfg_File cfg)) > 0
            then bindO (initFileLog (env_is_dir env) (cfg_File cfg)) (\<lambda>_. Ok ()) else Ok ()) of
        Err e \<Rightarrow> (Err e, g)
      | Panic p \<Rightarrow> (Panic p, g)
      | Ok _ \<Rightarrow>
          (case (if cfg_Stdout cfg then env_open_stdout env else None) of
             Some e \<Rightarrow> (Err e, g)
           | None \<Rightarrow>
               (case env_build env (cfg\<lparr>cfg_Level := ''debug''\<rparr>) of
                  Err e \<Rightarrow> (Err e, g)
                | Panic p \<Rightarrow> (Panic p, g)
                | Ok debugL \<Rightarrow>
                    let g' = replaceLeveledLoggers zl debugL g
                    in (case env_ParseLevel env (cfg_Level cfg) of
                          None \<Rightarrow> (Err (ErrorString (''unrecognized level: '' @ cfg_Level cfg)), g')
                        | Some level \<Rightarrow> (Ok (zl_AddCallerSkip zl 1 debugL, level), g')))))"

definition ReplaceGlobals :: "'l \<Rightarrow> int \<Rightarrow> 'l registers \<Rightarrow> 'l registers" where
  "ReplaceGlobals logger level g = g\<lparr>globalL := logger, globalLevel := level\<rparr>"

definition SetLevel :: "int \<Rightarrow> 'l registers \<Rightarrow> 'l registers" where
  "SetLevel l g = g\<lparr>globalLevel := l\<rparr>"

definition ctxL :: "'l registers \<Rightarrow> 'l" where
  "ctxL g = (case leveled g (globalLevel g) of None \<Rightarrow> globalL g | Some l \<Rightarrow> l)"

text \<open>\<open>debugL\<close> and its like: a register that is not filled fails the type assertion.\<close>

definition level_logger :: "int \<Rightarrow> 'l registers \<Rightarrow> (go_error, 'l) outcome" where
  "level_logger level g = (case leveled g level of None \<Rightarrow> Panic ''interface conversion'' | Some l \<Rightarrow> Ok l)"

text \<open>The loggers of the levels are walked in an order of their own until one fails.\<close>

fun sync_leveled :: "('l, 'f) zap_logger \<Rightarrow> 'l list \<Rightarrow> go_error option" where
  "sync_leveled zl [] = None"
| "sync_leveled zl (l # ls) = (case zl_Sync zl l of Some e \<Rightarrow> Some e | None \<Rightarrow> sync_leveled zl ls)"

definition log_Sync :: "('l, 'f) zap_logger \<Rightarrow> 'l list \<Rightarrow> 'l registers \<Rightarrow> go_error option" where
  "log_Sync zl walk g =
     (case zl_Sync zl (globalL g) of
        Some e \<Rightarrow> Some e
      | None \<Rightarrow> (case zl_SugarSync zl (globalL g) of Some e \<Rightarrow> Some e | None \<Rightarrow> sync_leveled zl walk))"

section \<open>Loggers with rates\<close>

text \<open>\<open>ml_rl\<close> is the limiter of the logger's group; without one the global limiter counts.\<close>

record 'l MLogger =
  ml_Logger :: 'l
  ml_rl :: "nat option"

definition MLogger_With :: "('l, 'f) zap_logger \<Rightarrow> 'f list \<Rightarrow> 'l MLogger \<Rightarrow> 'l MLogger" where
  "MLogger_With zl fs l = \<lparr>ml_Logger = zl_With zl fs (ml_Logger l), ml_rl = None\<rparr>"

definition WithRateGroup :: "string \<Rightarrow> int \<Rightarrow> int \<Rightarrow> 'l MLogger \<Rightarrow> 'l registers \<Rightarrow> 'l MLogger \<times> 'l registers" where
  "WithRateGroup groupName creditPerSecond maxBalance l g =
     (case namedLimiters g groupName of
        Some actual \<Rightarrow>
          (l\<lparr>ml_rl := Some actual\<rparr>, g\<lparr>limiter_settings := (limiter_settings g)(actual := (creditPerSecond, maxBalance))\<rparr>)
      | None \<Rightarrow>
          let rl = limiters_made g
          in (l\<lparr>ml_rl := Some rl\<rparr>,
              g\<lparr>namedLimiters := (namedLimiters g)(groupName \<mapsto> rl), limiters_made := rl + 1,
                limiter_settings := (limiter_settings g)(rl := (creditPerSecond, maxBalance))\<rparr>))"

text \<open>Which limiter is asked, \<open>None\<close> for the global one.\<close>

definition MLogger_r :: "'l MLogger \<Rightarrow> nat option" where
  "MLogger_r l = ml_rl l"

text \<open>\<open>RatedDebug\<close>, \<open>RatedInfo\<close> and \<open>RatedWarn\<close>: the answer and what is logged, by level, given the limiter's answer.\<close>

definition Rated :: "('l, 'f) zap_logger \<Rightarrow> int \<Rightarrow> (nat option \<Rightarrow> bool) \<Rightarrow> string \<Rightarrow> 'l MLogger \<Rightarrow> bool \<times> ('l \<times> int \<times> string) list" where
  "Rated zl level CheckCredit msg l =
     (if CheckCredit (MLogger_r l) then (True, [(zl_AddCallerSkip zl 1 (ml_Logger l), level, msg)]) else (False, []))"

section \<open>Loggers in contexts\<close>

text \<open>A context may be nil, and holds a logger or none.\<close>

record 'l log_ctx =
  CtxLogKey :: "'l MLogger option"

definition WithFields :: "('l, 'f) zap_logger \<Rightarrow> 'l registers \<Rightarrow> 'l log_ctx \<Rightarrow> 'f list \<Rightarrow> 'l log_ctx" where
  "WithFields zl g ctx fs =
     (let zlogger = (case CtxLogKey ctx of Some ctxLogger \<Rightarrow> ml_Logger ctxLogger | None \<Rightarrow> ctxL g)
      in ctx\<lparr>CtxLogKey := Some \<lparr>ml_Logger = zl_With zl fs zlogger, ml_rl = None\<rparr>\<rparr>)"

definition log_Ctx :: "'l registers \<Rightarrow> 'l log_ctx option \<Rightarrow> 'l MLogger" where
  "log_Ctx g ctx =
     (case ctx of
        None \<Rightarrow> \<lparr>ml_Logger = ctxL g, ml_rl = None\<rparr>
      | Some c \<Rightarrow> (case CtxLogKey c of Some ctxLogger \<Rightarrow> ctxLogger | None \<Rightarrow> \<lparr>ml_Logger = ctxL g, ml_rl = None\<rparr>))"

definition log_With :: "('l, 'f) zap_logger \<Rightarrow> 'l registers \<Rightarrow> 'f list \<Rightarrow> 'l MLogger" where
  "log_With zl g fs = \<lparr>ml_Logger = zl_AddCallerSkip zl (- 1) (zl_With zl fs (globalL g)), ml_rl = None\<rparr>"

text \<open>\<open>mk\<close> makes the field of a key and a text or number.\<close>

definition WithTraceID :: "('l, 'f) zap_logger \<Rightarrow> (string \<Rightarrow> string \<Rightarrow> 'f) \<Rightarrow> 'l registers \<Rightarrow> 'l log_ctx \<Rightarrow> string \<Rightarrow> 'l log_ctx" where
  "WithTraceID zl mk g ctx traceID = WithFields zl g ctx [mk ''traceID'' traceID]"

definition WithReqID :: "('l, 'f) zap_logger \<Rightarrow> (string \<Rightarrow> int \<Rightarrow> 'f) \<Rightarrow> 'l registers \<Rightarrow> 'l log_ctx \<Rightarrow> int \<Rightarrow> 'l log_ctx" where
  "WithReqID zl mk g ctx reqID = WithFields zl g ctx [mk ''reqID'' reqID]"

definition WithModule :: "('l, 'f) zap_logger \<Rightarrow> (string \<Rightarrow> string \<Rightarrow> 'f) \<Rightarrow> 'l registers \<Rightarrow> 'l log_ctx \<Rightarrow> string \<Rightarrow> 'l log_ctx" where
  "WithModule zl mk g ctx module = WithFields zl g ctx [mk ''module'' module]"

definition withLogLevel :: "'l registers \<Rightarrow> 'l log_ctx \<Rightarrow> int \<Rightarrow> (go_error, 'l log_ctx) outcome" where
  "withLogLevel g ctx level =
     bindO (if level \<in> {DebugLevel, InfoLevel, WarnLevel, ErrLevel, FatalLevel} then level_logger level g else Ok (globalL g))
       (\<lambda>zlogger. Ok (ctx\<lparr>CtxLogKey := Some \<lparr>ml_Logger = zlogger, ml_rl = None\<rparr>\<rparr>))"

section \<open>What they keep\<close>

lemma replaceLeveledLoggers_eq:
  "leveled (replaceLeveledLoggers zl l g) level = (if level \<in> set all_levels then Some (zl_IncreaseLevel zl level l) else leveled g level)"
  "globalL (replaceLeveledLoggers zl l g) = globalL g" "globalLevel (replaceLeveledLoggers zl l g) = globalLevel g"
  by (auto simp: replaceLeveledLoggers_def all_levels_def)

text \<open>Fields add up along a context: a logger taken from a context that was given fields any number of times is the
  process's logger of the current level, or the one the context held before, with all those fields in order; parents
  keep theirs, and a nil context gives the process's logger.\<close>

theorem WithFields_add_up:
  "log_Ctx g (Some (foldl (WithFields zl g) ctx fss))
     = (if fss = [] then log_Ctx g (Some ctx)
        else \<lparr>ml_Logger = foldl (\<lambda>l fs. zl_With zl fs l) (ml_Logger (log_Ctx g (Some ctx))) fss, ml_rl = None\<rparr>)
   \<and> log_Ctx g None = \<lparr>ml_Logger = ctxL g, ml_rl = None\<rparr>"
proof (induction fss rule: rev_induct)
  case (snoc fs fss)
  then show ?case by (cases "fss = []") (auto simp: log_Ctx_def WithFields_def Let_def split: option.splits)
qed (simp add: log_Ctx_def)

text \<open>After a logger has been initialized every level has its logger, so no context with a level panics; a wrong level is
  an error but the loggers of the levels are replaced all the same.\<close>

lemma InitLogger_levels:
  assumes "InitLogger zl env cfg g = (r, g')" and "env_build env (cfg\<lparr>cfg_Level := ''debug''\<rparr>) = Ok l"
    and "Filename (cfg_File cfg) = []" and "\<not> cfg_Stdout cfg"
  shows "is_Ok (withLogLevel g' ctx level)" "env_ParseLevel env (cfg_Level cfg) = None \<Longrightarrow> \<not> is_Ok r"
    "leveled g' DebugLevel = Some (zl_IncreaseLevel zl DebugLevel l)"
proof -
  have g': "g' = replaceLeveledLoggers zl l g" and r: "env_ParseLevel env (cfg_Level cfg) = None \<Longrightarrow> \<not> is_Ok r"
    using assms by (auto simp: InitLogger_def Let_def split: option.splits)
  show "env_ParseLevel env (cfg_Level cfg) = None \<Longrightarrow> \<not> is_Ok r" by (rule r)
  show "is_Ok (withLogLevel g' ctx level)" "leveled g' DebugLevel = Some (zl_IncreaseLevel zl DebugLevel l)"
    by (auto simp: g' withLogLevel_def level_logger_def replaceLeveledLoggers_eq all_levels_def)
qed

text \<open>The loggers of a group share one limiter, with the settings that were given last.\<close>

lemma WithRateGroup_shares:
  assumes "WithRateGroup n c b l g = (l1, g1)" and "WithRateGroup n c' b' k g1 = (l2, g2)"
  shows "ml_rl l2 = ml_rl l1 \<and> (\<exists>i. ml_rl l1 = Some i \<and> limiter_settings g2 i = (c', b'))"
  using assms by (auto simp: WithRateGroup_def Let_def split: option.splits)

text \<open>But a logger that is given fields after its group falls back to the global limiter.\<close>

lemma With_loses_rate_group: "MLogger_r (MLogger_With zl fs (fst (WithRateGroup n c b l g))) = None"
  by (simp add: MLogger_r_def MLogger_With_def)

end
