(* ===== verification/ConfigEtcd.thy ===== *)
theory ConfigEtcd
  imports ConfigSource ConfigRefresher MerrWrap Strconv
begin

text \<open>
  pkg/config/etcd\_source.go: the source that reads the configuration from etcd.

  The client is a parameter: what it answers to a read of all keys with a prefix, in the order of the keys. The source
  fires its events while it holds its own lock, so a handler that reads the source waits for a lock that is never given
  back: such a refresh is \<open>Deadlocked\<close>.
\<close>

section \<open>Paths\<close>

text \<open>\<open>path.Clean\<close> and \<open>path.Join\<close>.\<close>

fun clean_parts :: "bool \<Rightarrow> string list \<Rightarrow> string list \<Rightarrow> string list" where
  "clean_parts rooted out [] = out"
| "clean_parts rooted out (c # cs) =
     (if c = [] \<or> c = ''.'' then clean_parts rooted out cs
      else if c = ''..'' then
        (if out \<noteq> [] \<and> last out \<noteq> ''..'' then clean_parts rooted (butlast out) cs
         else if rooted then clean_parts rooted out cs
         else clean_parts rooted (out @ [c]) cs)
      else clean_parts rooted (out @ [c]) cs)"

definition path_Clean :: "string \<Rightarrow> string" where
  "path_Clean p =
     (if p = [] then ''.''
      else let rooted = (hd p = CHR ''/'');
               s = strings_Join (clean_parts rooted [] (strings_Split p (CHR ''/''))) ''/''
           in if rooted then CHR ''/'' # s else if s = [] then ''.'' else s)"

definition path_Join :: "string list \<Rightarrow> string" where
  "path_Join elems =
     (let es = filter (\<lambda>e. e \<noteq> []) elems in if es = [] then [] else path_Clean (strings_Join es ''/''))"

definition strings_TrimPrefix :: "string \<Rightarrow> string \<Rightarrow> string" where
  "strings_TrimPrefix s p = (if is_prefix_of p s then drop (length p) s else s)"

section \<open>The source\<close>

record EtcdSource =
  currentConfig :: "string \<rightharpoonup> string"
  es_keyPrefix :: string
  es_refreshInterval :: int
  es_eh :: bool
  es_refresher :: refresher

record EtcdInfo =
  ei_KeyPrefix :: string
  ei_RefreshInterval :: int

text \<open>Connecting may fail.\<close>

definition NewEtcdSource :: "config_error option \<Rightarrow> EtcdInfo \<Rightarrow> (config_error, EtcdSource) outcome" where
  "NewEtcdSource connect etcdInfo =
     (case connect of
        Some err \<Rightarrow> Err err
      | None \<Rightarrow> Ok \<lparr>currentConfig = Map.empty, es_keyPrefix = ei_KeyPrefix etcdInfo,
          es_refreshInterval = ei_RefreshInterval etcdInfo, es_eh = False, es_refresher = newRefresher\<rparr>)"

definition Etcd_GetConfigurationByKey :: "EtcdSource \<Rightarrow> string \<Rightarrow> (config_error, string) outcome" where
  "Etcd_GetConfigurationByKey es key =
     (case currentConfig es key of None \<Rightarrow> Err (KeyNotFound key) | Some v \<Rightarrow> Ok v)"

definition etcd_entry :: "string \<Rightarrow> (string \<rightharpoonup> string) \<Rightarrow> string \<times> string \<Rightarrow> (string \<rightharpoonup> string)" where
  "etcd_entry prefix newConfig kv =
     (let key = strings_TrimPrefix (fst kv) (prefix @ ''/'')
      in newConfig(key \<mapsto> snd kv, format_key key \<mapsto> snd kv))"

datatype refresh = Refreshed EtcdSource "Event list" | RefreshFailed config_error | Deadlocked

text \<open>\<open>reads_source\<close> tells of an event whether its handling reads this source.\<close>

definition refreshConfigurations ::
  "(string \<Rightarrow> (config_error, (string \<times> string) list) outcome) \<Rightarrow> (Event \<Rightarrow> bool) \<Rightarrow> string list \<Rightarrow> string list \<Rightarrow> EtcdSource \<Rightarrow> refresh" where
  "refreshConfigurations etcd_Get reads_source walk_updated walk_current es =
     (let prefix = path_Join [es_keyPrefix es, ''config'']
      in case etcd_Get prefix of
           Err err \<Rightarrow> RefreshFailed err
         | Panic p \<Rightarrow> RefreshFailed (ReadConfigFailed p)
         | Ok kvs \<Rightarrow>
             let newConfig = foldl (etcd_entry prefix) Map.empty kvs;
                 events = (if es_eh es then PopulateEvents ''EtcdSource'' (currentConfig es) newConfig walk_updated walk_current else [])
             in if list_ex reads_source events then Deadlocked else Refreshed (es\<lparr>currentConfig := newConfig\<rparr>) events)"

definition Etcd_GetConfigurations ::
  "(string \<Rightarrow> (config_error, (string \<times> string) list) outcome) \<Rightarrow> (Event \<Rightarrow> bool) \<Rightarrow> string list \<Rightarrow> string list \<Rightarrow> EtcdSource \<Rightarrow>
     refresh" where
  "Etcd_GetConfigurations etcd_Get reads_source walk_updated walk_current es =
     (case refreshConfigurations etcd_Get reads_source walk_updated walk_current es of
        Refreshed es' events \<Rightarrow> Refreshed (es'\<lparr>es_refresher := start (es_refreshInterval es') (es_refresher es')\<rparr>) events
      | r \<Rightarrow> r)"

definition Etcd_SetEventHandler :: "EtcdSource \<Rightarrow> EtcdSource" where
  "Etcd_SetEventHandler es = es\<lparr>es_eh := True\<rparr>"

text \<open>The refresher is replaced when the interval changes. The old one is stopped while the lock is held: this returns only
  when its goroutine is not in the middle of a refresh, which needs the lock or the once of \<open>stop\<close> to end, and not in
  \<open>stop\<close> itself (\<open>None\<close> when it never returns).\<close>

definition Etcd_UpdateOptions :: "EtcdInfo option \<Rightarrow> EtcdSource \<Rightarrow> EtcdSource option" where
  "Etcd_UpdateOptions opts es =
     (case opts of
        None \<Rightarrow> Some es
      | Some info \<Rightarrow>
          let es = es\<lparr>es_keyPrefix := ei_KeyPrefix info\<rparr>
          in if es_refreshInterval es = ei_RefreshInterval info then Some es
             else if gor (es_refresher es) \<in> {Fetching, InStop} then None
             else Some (es\<lparr>es_refreshInterval := ei_RefreshInterval info,
                         es_refresher := start (ei_RefreshInterval info) newRefresher\<rparr>))"

section \<open>What is read\<close>

lemma etcd_entries:
  assumes "\<forall>(k, v) \<in> set kvs. \<exists>name. k = prefix @ ''/'' @ name"
  shows "foldl (etcd_entry prefix) m kvs key
    = (case find (\<lambda>(k, v). key = drop (length prefix + 1) k \<or> key = format_key (drop (length prefix + 1) k)) (rev kvs) of
         None \<Rightarrow> m key | Some (k, v) \<Rightarrow> Some v)"
  using assms
proof (induction kvs rule: rev_induct)
  case (snoc kv kvs)
  obtain k v where kv: "kv = (k, v)" by (cases kv)
  obtain name where "k = prefix @ ''/'' @ name" using snoc.prems kv by auto
  then have "strings_TrimPrefix k (prefix @ ''/'') = drop (length prefix + 1) k"
    using is_prefix_of_iff [of "prefix @ ''/''" k] by (simp add: strings_TrimPrefix_def)
  then show ?case using snoc kv by (auto simp: etcd_entry_def Let_def)
qed simp

text \<open>After a refresh every key below the prefix reads as the value etcd has for it, by its name and by its formatted name,
  when no two names have the same format; the events that were fired carry the old configuration into the new one; and a
  refresh that cannot read etcd leaves everything as it was. The names are those after the prefix and a slash.\<close>

theorem etcd_refresh_reads:
  assumes "etcd_Get (path_Join [es_keyPrefix es, ''config'']) = Ok (map (\<lambda>(name, v). (path_Join [es_keyPrefix es, ''config''] @ ''/'' @ name, v)) kvs)"
    and "distinct (map (\<lambda>(name, v). format_key name) kvs)"
    and "\<And>e. \<not> reads_source e"
    and "walk_of (foldl (etcd_entry (path_Join [es_keyPrefix es, ''config''])) Map.empty
           (map (\<lambda>(name, v). (path_Join [es_keyPrefix es, ''config''] @ ''/'' @ name, v)) kvs)) walk_updated"
    and "walk_of (currentConfig es) walk_current"
  shows "\<exists>es' events. refreshConfigurations etcd_Get reads_source walk_updated walk_current es = Refreshed es' events
     \<and> (\<forall>(name, v) \<in> set kvs. Etcd_GetConfigurationByKey es' name = Ok v \<and> Etcd_GetConfigurationByKey es' (format_key name) = Ok v)
     \<and> (es_eh es \<longrightarrow> foldl apply_event (currentConfig es) events = currentConfig es')"
proof -
  let ?prefix = "path_Join [es_keyPrefix es, ''config'']"
  let ?full = "map (\<lambda>(name, v). (?prefix @ ''/'' @ name, v)) kvs"
  let ?new = "foldl (etcd_entry ?prefix) Map.empty ?full"
  have under: "\<forall>(k, v) \<in> set ?full. \<exists>name. k = ?prefix @ ''/'' @ name" by auto
  have rev_full: "rev ?full = map (\<lambda>(name, v). (?prefix @ ''/'' @ name, v)) (rev kvs)" by (simp add: rev_map)
  have idem: "format_key (format_key n) = format_key n" for n by (rule format_key_idem)
  have find: "find (\<lambda>(k, v). key = drop (length ?prefix + 1) k \<or> key = format_key (drop (length ?prefix + 1) k)) (map (\<lambda>(name, v). (?prefix @ ''/'' @ name, v)) xs)
      = Some (?prefix @ ''/'' @ name, v)"
    if "(name, v) \<in> set xs" "distinct (map (\<lambda>(name, v). format_key name) xs)" "key = name \<or> key = format_key name" for key name v xs
    using that
  proof (induction xs)
    case (Cons x xs)
    obtain n u where x: "x = (n, u)" by (cases x)
    show ?case
    proof (cases "(name, v) = (n, u)")
      case False
      then have "format_key n \<noteq> format_key name" using Cons.prems by (force simp: x)
      then have "key \<noteq> n \<and> key \<noteq> format_key n" using Cons.prems(3) idem by metis
      then show ?thesis using Cons False by (auto simp: x)
    qed (use Cons.prems in \<open>auto simp: x\<close>)
  qed simp
  have read: "?new key = Some v" if "(name, v) \<in> set kvs" "key = name \<or> key = format_key name" for key name v
    using etcd_entries [OF under, of Map.empty key] find [of name v "rev kvs" key] that assms(2) unfolding rev_full by (simp add: rev_map [symmetric])
  let ?events = "if es_eh es then PopulateEvents ''EtcdSource'' (currentConfig es) ?new walk_updated walk_current else []"
  have "\<not> list_ex reads_source ?events" using assms(3) by (simp add: list_ex_iff)
  then have "refreshConfigurations etcd_Get reads_source walk_updated walk_current es = Refreshed (es\<lparr>currentConfig := ?new\<rparr>) ?events"
    unfolding refreshConfigurations_def Let_def assms(1) outcome.case by (rule if_not_P)
  moreover have "foldl apply_event (currentConfig es) (PopulateEvents ''EtcdSource'' (currentConfig es) ?new walk_updated walk_current) = ?new"
    using PopulateEvents_exact [OF assms(4,5)] by blast
  ultimately show ?thesis using read by (intro exI conjI) (auto simp: Etcd_GetConfigurationByKey_def)
qed

definition root_source :: EtcdSource where
  "root_source = \<lparr>currentConfig = [''b'' \<mapsto> ''2''], es_keyPrefix = ''root/'', es_refreshInterval = 5, es_eh = True, es_refresher = newRefresher\<rparr>"

lemma root_prefix: "path_Join [es_keyPrefix root_source, ''config''] = ''root/config''"
proof -
  have "path_Join [''root/'', ''config''] = ''root/config''" by code_simp
  then show ?thesis by (simp add: root_source_def)
qed

lemma format_samples: "format_key ''a.B'' = ''ab''" "format_key ''root/config2/a'' = ''rootconfig2a''"
  by code_simp+

theorem etcd_refresh_reads_witness:
  "\<exists>es' events. refreshConfigurations (\<lambda>_. Ok [(''root/config/a.B'', ''1'')]) (\<lambda>_. False) [''a.B'', ''ab''] [''b''] root_source = Refreshed es' events
     \<and> Etcd_GetConfigurationByKey es' ''ab'' = Ok ''1''"
proof -
  have "walk_of (foldl (etcd_entry ''root/config'') Map.empty [(''root/config/a.B'', ''1'')]) [''a.B'', ''ab'']"
    by (auto simp: walk_of_def etcd_entry_def strings_TrimPrefix_def format_samples)
  moreover have "walk_of (currentConfig root_source) [''b'']" by (auto simp: walk_of_def root_source_def)
  ultimately show ?thesis
    using etcd_refresh_reads [of "\<lambda>_. Ok [(''root/config/a.B'', ''1'')]" root_source "[(''a.B'', ''1'')]" "\<lambda>_. False" "[''a.B'', ''ab'']" "[''b'']"]
    by (auto simp: root_prefix format_samples)
qed

text \<open>The prefix that is asked for has no slash at its end, so keys of a sibling directory are taken in, under their full
  names.\<close>

lemma etcd_sibling_keys:
  "\<exists>es' events. refreshConfigurations (\<lambda>_. Ok [(''root/config2/a'', ''1'')]) (\<lambda>_. False) ws cs root_source = Refreshed es' events
     \<and> Etcd_GetConfigurationByKey es' ''rootconfig2a'' = Ok ''1''"
  by (simp add: refreshConfigurations_def Let_def root_prefix etcd_entry_def strings_TrimPrefix_def format_samples list_ex_iff
      Etcd_GetConfigurationByKey_def)

text \<open>A handler that reads the source in answer to one of its events never comes back.\<close>

lemma etcd_handler_deadlock:
  "refreshConfigurations (\<lambda>_. Ok [(''root/config/a.B'', ''1'')]) (\<lambda>e. Key e = ''ab'') [''a.B'', ''ab''] [''b''] root_source = Deadlocked"
proof -
  have "es_eh root_source" "currentConfig root_source = [''b'' \<mapsto> ''2'']" by (simp_all add: root_source_def)
  then show ?thesis
    by (simp add: refreshConfigurations_def Let_def root_prefix etcd_entry_def strings_TrimPrefix_def format_samples
        PopulateEvents_def created_or_updated_def newEvent_def)
qed

end
