(* ===== verification/Spec2Isabelle.thy ===== *)
theory Spec2Isabelle
  imports Prelude Merr Tso Retry FieldData Messages Repack TypeutilSet PulsarConsumer MqStream
    TtStream TtSeek TtProgress Recover ConfigEvents ConfigSource ConfigManager ConfigCoherence ConfigRefresher
    SkipList SkipListMap Strconv Paramtable Schema Columns MerrWrap Factory IndexParam Parallel
    ParamComponent ParamQuota ParamService ParamGrpc ParamTables
    Containers Encodings Names Common Futures LogEncoder LogLines LogGlobals ConfigEtcd
begin

text \<open>
  A verification library for stream-read, a program that reads the log of a vector database from a message
  queue and replays a collection's insertions and deletions into a running server.

  \<^bold>\<open>Parts of the program and how they interact.\<close> cmd/main.go decodes a position, opens a time-tick stream,
  seeks to the position and replays the packs it receives. The stream (pkg/mq/msgstream) reads messages from
  the consumers of a queue client (pkg/mq/msgstream/mqwrapper, with the Pulsar implementation in
  mqwrapper/pulsar), decodes them by their type (msg.go, unmarshal.go) and groups them into packs between
  time ticks; in the other direction it repacks messages by hash keys (repack\_func.go) and sends them. Below
  are the packages it rests on: errors (pkg/util/merr), retrying (pkg/util/retry), hybrid time stamps
  (pkg/util/tsoutil), columns of field data (pkg/util/typeutil, pkg/util/funcutil).

  \<^bold>\<open>Theories.\<close>
  \<^item> \<open>Prelude\<close>: results (\<open>Ok\<close>, \<open>Err\<close>, \<open>Panic\<close>), loops over them, checked indexing and slicing,
    64-bit sums that wrap.
  \<^item> \<open>Merr\<close>: pkg/util/merr: the leaf errors, wrapping, causes and codes, statuses. \<open>errors_Is\<close> compares
    marks, too: an error of merr is another one with the same message, wherever it was made.
  \<^item> \<open>Tso\<close>: pkg/util/tsoutil: time stamps as 64-bit words.
  \<^item> \<open>Retry\<close>: pkg/util/retry: \<open>Do\<close> and \<open>Handle\<close> with contexts and a clock. The loops count down the number
    of attempts, which bounds them. The pauses are those between the calls as the called function sees them
    (\<open>timed\<close>); durations are 64-bit numbers whose doubling wraps.
  \<^item> \<open>FieldData\<close>: columns and the appending and deleting of rows in pkg/util/typeutil/schema.go.
  \<^item> \<open>Messages\<close>: the message types, their codecs and their splitting into rows.
  \<^item> \<open>Repack\<close>: pkg/mq/msgstream/repack\_func.go and the channel indexes. The locale \<open>repacker\<close> is the
    contract of the three repack functions.
  \<^item> \<open>TypeutilSet\<close>: pkg/util/typeutil/set.go. The locale \<open>id_set\<close> is what the stream needs to drop
    duplicates.
  \<^item> \<open>PulsarConsumer\<close>: the Pulsar implementation of the queue. The locale \<open>seekable\<close> is the contract of its
    consumer.
  \<^item> \<open>MqStream\<close>: \<open>mqMsgStream\<close>: producing, broadcasting, receiving and seeking.
  \<^item> \<open>TtStream\<close>: \<open>MqTtMsgStream\<close>: the loop that collects packs between ticks, as a step relation in which the
    goroutines take turns in any order, maps are walked in any order and the context may be cancelled at any
    time. The library may close the channel of a consumer; the goroutine that reads it then leaves. Its invariants are proved by rule induction over runs: packs form a chain in time, no message is
    lost, invented or sent twice, every pack holds the messages of its interval, and no state panics.
  \<^item> \<open>TtSeek\<close>: what a stream that seeks to a stored position delivers.
  \<^item> \<open>TtProgress\<close>: that a turn of the loop can always be completed to the next pack when the channels agree on
    the next tick, in every configuration: in pursuit mode the guard says when it buffers on instead.
  \<^item> \<open>Recover\<close>: cmd/main.go, and what is replayed in the end: the recovery run on the packs of
    a run of the stream, with the calls to the server recorded.
  \<^item> \<open>ConfigEvents\<close>, \<open>ConfigSource\<close>, \<open>ConfigManager\<close>, \<open>ConfigCoherence\<close>, \<open>ConfigRefresher\<close>: pkg/config: the
    events of a change and their dispatcher, the sources, the manager that layers them under values set at
    run time, the invariant that its tables agree with its sources, and the polling goroutine.
  \<^item> \<open>Strconv\<close>, \<open>Paramtable\<close>: reading parameters as numbers, durations and lists, and the table that is filled
    from the environment and the configuration files (pkg/util/paramtable).
  \<^item> \<open>SkipList\<close>, \<open>SkipListMap\<close>: pkg/util/typeutil/skip\_list.go on the level of its pointers, and its refinement
    of a finite map. Loops along pointers are partial functions; that they end is part of the theorem.
  \<^item> \<open>Schema\<close>, \<open>Columns\<close>: schemas and their helper; merging and preparing columns, primary keys (integers and strings). The locale
    \<open>least_selection\<close> is the loop that both selections of a least key share.
  \<^item> \<open>MerrWrap\<close>: every constructor of pkg/util/merr/utils.go (\<open>wrappers\<close>, \<open>plain_wrappers\<close>) and the checks of a component's health.
  \<^item> \<open>Factory\<close>: the factories of streams and the disposal of subscriptions.
  \<^item> \<open>IndexParam\<close>: pkg/util/indexparamcheck. The locale \<open>index\_checker\<close> is what the users of a checker rely
    on; it is interpreted on every checker that is registered. \<open>buildable\<close> says what an index type can
    be built with; the one difference to what the checks accept is \<open>negative_m\<close>.
  \<^item> \<open>Parallel\<close>: the parallel loops of pkg/util/funcutil/parallel.go as a step relation over their goroutines.
    The size of a batch wraps at 64 bits, so the theorem on termination has a bound on its arguments.
  \<^item> \<open>ParamComponent\<close>, \<open>ParamQuota\<close>, \<open>ParamService\<close>, \<open>ParamGrpc\<close>: the parameters of pkg/util/paramtable with their
    defaults and formatters; a table lists the fields of a Go struct. \<open>unconfigured\<close> is a manager that answers no key.
  \<^item> \<open>ParamTables\<close>: the table of the whole program and its initialization, and what the streams read from it.
  \<^item> \<open>Containers\<close>: the concurrent and the ordered map of pkg/util/typeutil, comparing and merging maps and slices. The
    calls of the concurrent map are atomic steps of goroutines that run in any order. The locale \<open>keyed_map\<close> is the
    contract that both maps keep.
  \<^item> \<open>Encodings\<close>: numbers as bytes in both orders, checksums and hashes, the channels of primary keys and the
    partitions of partition keys, vectors of a search request. The cutting of vectors may not end, which is the value
    \<open>None\<close> of a partial function; \<open>cut_vectors\<close> is given what the array holds behind the slice, up to its capacity.
  \<^item> \<open>Names\<close>: names of channels, objects, policies and privileges and their parsing (pkg/util/funcutil/func.go and
    policy.go, pkg/util/constant.go).
  \<^item> \<open>Common\<close>: clones and comparisons of pkg/common, the cache of metrics (pkg/util/metricsinfo).
  \<^item> \<open>Futures\<close>: futures and the checkers of groups (pkg/util/conc, pkg/util/timerecord) as step relations.
    A panic of a checker's goroutine or of a caller that stops it ends the program.
  \<^item> \<open>LogEncoder\<close>, \<open>LogLines\<close>: the text encoder of pkg/log, that an entry is one line, and that a reader of the
    format gets it back. Marshallers are arbitrary sequences of calls. \<open>LogGlobals\<close>: the loggers of the process.
  \<^item> \<open>ConfigEtcd\<close>: the source of the configuration that reads etcd (pkg/config/etcd\_source.go).

  \<^bold>\<open>Correspondence.\<close> A Go struct is a record, an interface with several implementations a record of
  functions or a tag, a call that may fail returns \<open>Ok\<close>, \<open>Err\<close> or \<open>Panic\<close>, mutation is the returned state.
  Maps keyed by consumers are functions of the channel name. Unsigned 64-bit numbers that wrap are words, signed ones are integers with the wrap-around written out
  (\<open>wrap64\<close>) where a sum or product may leave their range. Lengths are not bounded. Slices have no spare capacity but
  where it matters (\<open>Encodings\<close>).
  Library code is a parameter: the protobuf codec (\<open>codec\<close>), the Pulsar client (\<open>pulsar_api\<close>), the database
  client (\<open>milvus\<close>), formatting of times, JSON, URLs, floating-point
  numbers (\<open>go_float\<close>); the hypotheses \<open>codec_laws\<close> and \<open>codec_safe\<close> state what is
  documented of the codec, and a concrete codec satisfies both.

  \<^bold>\<open>Not modelled.\<close> The tables of prometheus collectors and tracing exporters (output only); locks, since the steps of
  the model are atomic, except where holding one matters (\<open>ConfigEtcd\<close>); the rules of the linter (pkg/rules.go);
  generated protobuf code; the set-up of etcd's client and server; reading requests by reflection.
\<close>

end
